(* ===== verification/Prelude.thy ===== *)
theory Prelude
  imports
    Main
    "HOL-Library.AList"
    "HOL-Library.Sublist"
    "HOL-Library.Char_ord"
    "HOL-Library.List_Lexorder"
begin

text \<open>
  The part of Python that every component of Locai Link uses: strings as lists of code
  points (\<open>string\<close>, code points below 256), the string methods the sources call, and
  insertion-ordered dictionaries.  A dictionary is an association list; \<open>AList.update\<close>
  overwrites a key in place and appends a new one at the end, which is what
  \<open>d[k] = v\<close> does, and \<open>AList.delete\<close> is \<open>d.pop(k, None)\<close>.

  The collections \<open>py_string\<close> and \<open>py_dict\<close> hold the facts about these operations that the
  component proofs pass to the simplifier.
\<close>

named_theorems py_string
named_theorems py_dict

type_synonym ('k, 'v) dict = "('k \<times> 'v) list"

section \<open>Characters and string methods\<close>

abbreviation chr_nl :: char where "chr_nl \<equiv> CHR 0x0A"
abbreviation chr_cr :: char where "chr_cr \<equiv> CHR 0x0D"
abbreviation chr_nul :: char where "chr_nul \<equiv> CHR 0x00"
abbreviation chr_bslash :: char where "chr_bslash \<equiv> CHR 0x5C"
abbreviation chr_dquote :: char where "chr_dquote \<equiv> CHR 0x22"
abbreviation chr_squote :: char where "chr_squote \<equiv> CHR 0x27"

text \<open>\<open>str.startswith\<close>, \<open>str.endswith\<close> and the \<open>in\<close> operator on strings.\<close>

definition startswith :: "string \<Rightarrow> string \<Rightarrow> bool" where
  "startswith s p = (take (length p) s = p)"

definition endswith :: "string \<Rightarrow> string \<Rightarrow> bool" where
  "endswith s p = startswith (rev s) (rev p)"

text \<open>\<open>s.find(p)\<close>: the first index at which \<open>p\<close> occurs, \<open>None\<close> for Python's -1.\<close>

fun find_sub :: "string \<Rightarrow> string \<Rightarrow> nat option" where
  "find_sub p [] = (if p = [] then Some 0 else None)"
| "find_sub p (c # s) =
     (if startswith (c # s) p then Some 0 else map_option Suc (find_sub p s))"

definition contains_sub :: "string \<Rightarrow> string \<Rightarrow> bool" where
  "contains_sub p s = (find_sub p s \<noteq> None)"

text \<open>\<open>s.lstrip(c)\<close> and \<open>s.rstrip(c)\<close> for a one-character argument.\<close>

definition lstrip_char :: "char \<Rightarrow> string \<Rightarrow> string" where
  "lstrip_char c s = dropWhile (\<lambda>x. x = c) s"

definition rstrip_char :: "char \<Rightarrow> string \<Rightarrow> string" where
  "rstrip_char c s = rev (dropWhile (\<lambda>x. x = c) (rev s))"

text \<open>
  Whitespace as \<open>str.strip()\<close> and \<open>str.split()\<close> see it (code points below 256), and as the
  methods of \<open>bytes\<close> see it.
\<close>

definition is_space :: "char \<Rightarrow> bool" where
  "is_space c = (let n = of_char c :: nat in
     (9 \<le> n \<and> n \<le> 13) \<or> (28 \<le> n \<and> n \<le> 32) \<or> n = 133 \<or> n = 160)"

definition is_bspace :: "char \<Rightarrow> bool" where
  "is_bspace c = (let n = of_char c :: nat in (9 \<le> n \<and> n \<le> 13) \<or> n = 32)"

definition strip_by :: "(char \<Rightarrow> bool) \<Rightarrow> string \<Rightarrow> string" where
  "strip_by p s = rev (dropWhile p (rev (dropWhile p s)))"

abbreviation py_strip :: "string \<Rightarrow> string" where
  "py_strip \<equiv> strip_by is_space"

abbreviation bytes_strip :: "string \<Rightarrow> string" where
  "bytes_strip \<equiv> strip_by is_bspace"

text \<open>\<open>s.split(c)\<close> for a one-character separator: never the empty list.\<close>

fun split_char :: "char \<Rightarrow> string \<Rightarrow> string list" where
  "split_char c [] = [[]]"
| "split_char c (x # xs) =
     (if x = c then [] # split_char c xs
      else case split_char c xs of [] \<Rightarrow> [[x]] | w # ws \<Rightarrow> (x # w) # ws)"

text \<open>\<open>s.split()\<close>: the maximal runs of non-whitespace characters.\<close>

fun split_ws_acc :: "string \<Rightarrow> string \<Rightarrow> string list" where
  "split_ws_acc w [] = (if w = [] then [] else [rev w])"
| "split_ws_acc w (x # xs) =
     (if is_space x then (if w = [] then split_ws_acc [] xs else rev w # split_ws_acc [] xs)
      else split_ws_acc (x # w) xs)"

definition split_ws :: "string \<Rightarrow> string list" where
  "split_ws s = split_ws_acc [] s"

text \<open>\<open>s.lower()\<close> on code points below 256.\<close>

definition lower_char :: "char \<Rightarrow> char" where
  "lower_char c = (let n = of_char c :: nat in
     if (65 \<le> n \<and> n \<le> 90) \<or> (192 \<le> n \<and> n \<le> 222 \<and> n \<noteq> 215) then char_of (n + 32) else c)"

definition py_lower :: "string \<Rightarrow> string" where
  "py_lower s = map lower_char s"

text \<open>\<open>s.replace(c, "")\<close> for a one-character pattern.\<close>

definition remove_char :: "char \<Rightarrow> string \<Rightarrow> string" where
  "remove_char c s = filter (\<lambda>x. x \<noteq> c) s"

text \<open>Decimal notation, \<open>str(n)\<close>.\<close>

definition digit_char :: "nat \<Rightarrow> char" where
  "digit_char d = char_of (48 + d)"

fun show_nat :: "nat \<Rightarrow> string" where
  "show_nat n = (if n < 10 then [digit_char n] else show_nat (n div 10) @ [digit_char (n mod 10)])"

declare show_nat.simps [simp del]

definition show_int :: "int \<Rightarrow> string" where
  "show_int i = (if i < 0 then CHR ''-'' # show_nat (nat (- i)) else show_nat (nat i))"

section \<open>Facts about the string methods\<close>

lemma startswith_append [py_string, simp]: "startswith (p @ s) p"
  by (simp add: startswith_def)

lemma startswith_iff [py_string]: "startswith s p \<longleftrightarrow> (\<exists>t. s = p @ t)"
  unfolding startswith_def by (metis append_eq_conv_conj append_take_drop_id)

lemma startswith_Nil [simp]: "startswith s []"
  by (simp add: startswith_def)

lemma startswith_Nil_iff [simp]: "startswith [] p \<longleftrightarrow> p = []"
  by (auto simp: startswith_def)

lemma startswith_Cons [simp]: "startswith (x # s) (y # p) \<longleftrightarrow> x = y \<and> startswith s p"
  by (auto simp: startswith_def)

lemma endswith_iff [py_string]: "endswith s p \<longleftrightarrow> (\<exists>t. s = t @ p)"
  unfolding endswith_def startswith_iff
  by (metis rev_append rev_rev_ident)

lemma split_char_not_Nil [simp]: "split_char c s \<noteq> []"
  by (induction s) (auto split: list.splits)

lemma split_char_no_sep [py_string]: "c \<notin> set s \<Longrightarrow> split_char c s = [s]"
  by (induction s) auto

lemma split_char_append_sep [py_string]:
  "c \<notin> set a \<Longrightarrow> split_char c (a @ c # b) = a # split_char c b"
  by (induction a) auto

lemma split_char_parts_no_sep: "w \<in> set (split_char c s) \<Longrightarrow> c \<notin> set w"
  by (induction s arbitrary: w) (auto split: list.splits if_splits)

lemma all_le_Suc: "(\<forall>i \<le> Suc n. P i) \<longleftrightarrow> P 0 \<and> (\<forall>i \<le> n. P (Suc i))"
  by (metis Suc_le_mono le0 not0_implies_Suc)

lemma find_sub_None_iff: "find_sub p s = None \<longleftrightarrow> (\<forall>i \<le> length s. \<not> startswith (drop i s) p)"
proof (induction s)
  case Nil
  show ?case by simp
next
  case (Cons c s)
  have "(\<forall>i \<le> length (c # s). \<not> startswith (drop i (c # s)) p) \<longleftrightarrow>
        \<not> startswith (c # s) p \<and> (\<forall>i \<le> length s. \<not> startswith (drop i s) p)"
    by (simp add: all_le_Suc)
  with Cons show ?case by auto
qed

lemma find_sub_Some:
  assumes "find_sub p s = Some i"
  shows "i \<le> length s \<and> startswith (drop i s) p \<and> (\<forall>j < i. \<not> startswith (drop j s) p)"
  using assms
proof (induction s arbitrary: i)
  case Nil
  then show ?case by (simp split: if_splits)
next
  case (Cons c s)
  show ?case
  proof (cases "startswith (c # s) p")
    case True
    with Cons.prems show ?thesis by simp
  next
    case False
    with Cons.prems obtain k where k: "find_sub p s = Some k" and i: "i = Suc k" by auto
    show ?thesis using Cons.IH [OF k] False i
      by (auto simp: less_Suc_eq_0_disj)
  qed
qed

lemma set_remove_char [py_string]: "set (remove_char c s) = set s - {c}"
  by (auto simp: remove_char_def)

lemma set_strip_by: "set (strip_by p s) \<subseteq> set s"
  unfolding strip_by_def by (auto dest!: set_dropWhileD)

lemma length_strip_by: "length (strip_by p s) \<le> length s"
  unfolding strip_by_def
  by (metis (no_types, lifting) dual_order.trans length_dropWhile_le length_rev)

lemma sorted_le_last: "sorted xs \<Longrightarrow> x \<in> set xs \<Longrightarrow> x \<le> last xs"
  by (induction xs) auto

lemma last_sort_iff:
  assumes "xs \<noteq> []"
  shows "last (sort xs) = (x :: 'a :: linorder) \<longleftrightarrow> x \<in> set xs \<and> (\<forall>y \<in> set xs. y \<le> x)"
proof -
  have "last (sort xs) \<in> set xs"
    using assms by (metis last_in_set set_empty set_sort)
  moreover have "\<forall>y \<in> set xs. y \<le> last (sort xs)"
    using sorted_le_last [OF sorted_sort] by (metis set_sort)
  ultimately show ?thesis by (auto intro: order_antisym)
qed

lemma find_holds: "find P xs = Some x \<Longrightarrow> P x \<and> x \<in> set xs"
  by (auto simp: find_Some_iff)

section \<open>Dictionaries\<close>

text \<open>
  The interface of a dictionary: what a lookup returns after an assignment or a removal,
  and that both keep the keys distinct.  The lemmas inside the locale are the ones that
  the clients of a dictionary use (\<open>StateManager\<close>, \<open>AgentRuntime\<close>, \<open>HealthState\<close>,
  \<open>SwapManager\<close>); the interpretation discharges the laws for association lists.
\<close>

locale dictionary =
  fixes getd :: "'d \<Rightarrow> 'k \<Rightarrow> 'v option"
    and setd :: "'k \<Rightarrow> 'v \<Rightarrow> 'd \<Rightarrow> 'd"
    and popd :: "'k \<Rightarrow> 'd \<Rightarrow> 'd"
    and keysd :: "'d \<Rightarrow> 'k list"
  assumes get_set: "getd (setd k v d) k' = (if k' = k then Some v else getd d k')"
    and get_pop: "getd (popd k d) k' = (if k' = k then None else getd d k')"
    and keys_get: "k \<in> set (keysd d) \<longleftrightarrow> getd d k \<noteq> None"
    and distinct_set: "distinct (keysd d) \<Longrightarrow> distinct (keysd (setd k v d))"
    and distinct_pop: "distinct (keysd d) \<Longrightarrow> distinct (keysd (popd k d))"
begin

lemma get_set_same: "getd (setd k v d) k = Some v"
  by (simp add: get_set)

lemma get_set_other: "k' \<noteq> k \<Longrightarrow> getd (setd k v d) k' = getd d k'"
  by (simp add: get_set)

lemma get_pop_other: "k' \<noteq> k \<Longrightarrow> getd (popd k d) k' = getd d k'"
  by (simp add: get_pop)

lemma keys_set: "set (keysd (setd k v d)) = insert k (set (keysd d))"
  by (auto simp: keys_get get_set split: if_splits)

lemma keys_pop: "set (keysd (popd k d)) = set (keysd d) - {k}"
  by (auto simp: keys_get get_pop split: if_splits)

lemma pop_set_same: "getd (popd k (setd k v d)) k' = getd (popd k d) k'"
  by (simp add: get_pop get_set)

lemma set_idem: "getd (setd k v (setd k v d)) k' = getd (setd k v d) k'"
  by (simp add: get_set)

end

abbreviation keys :: "('k, 'v) dict \<Rightarrow> 'k list" where
  "keys d \<equiv> map fst d"

interpretation pydict: dictionary "map_of :: ('k, 'v) dict \<Rightarrow> 'k \<Rightarrow> 'v option"
  "AList.update" "AList.delete" "keys :: ('k, 'v) dict \<Rightarrow> 'k list"
proof (unfold_locales, goal_cases)
  case (1 k v d k')
  show ?case by (simp add: update_conv)
next
  case (2 k d k')
  show ?case by (simp add: delete_conv)
next
  case (3 k d)
  show ?case by (force simp: map_of_eq_None_iff)
next
  case (4 d k v)
  then show ?case by (rule distinct_update)
next
  case (5 d k)
  then show ?case by (rule distinct_delete)
qed

lemmas dict_laws [py_dict] =
  pydict.get_set pydict.get_pop pydict.keys_set pydict.keys_pop
  pydict.distinct_set pydict.distinct_pop

lemmas dict_laws_image [py_dict] =
  pydict.keys_set [simplified] pydict.keys_pop [simplified]

lemma dict_comprehension_get:
  "map_of (map (\<lambda>x. (f x, g x)) xs) k = map_option g (find (\<lambda>x. f x = k) xs)"
  by (induction xs) auto

text \<open>
  \<open>{f(x): g(x) for x in xs}\<close>: the assignments run in order, so a later element with the
  same key overwrites the value of an earlier one.
\<close>

definition dict_of :: "('k \<times> 'v) list \<Rightarrow> ('k, 'v) dict" where
  "dict_of kvs = fold (\<lambda>(k, v) d. AList.update k v d) kvs []"

lemma fold_update_get:
  "map_of (fold (\<lambda>(k, v) d. AList.update k v d) kvs d) k =
     (case map_of (rev kvs) k of None \<Rightarrow> map_of d k | Some v \<Rightarrow> Some v)"
  by (induction kvs arbitrary: d) (auto simp: py_dict map_add_def split: option.splits)

lemma fold_update_distinct:
  "distinct (keys d) \<Longrightarrow> distinct (keys (fold (\<lambda>(k, v) d. AList.update k v d) kvs d))"
  by (induction kvs arbitrary: d) (auto simp: py_dict)

lemma dict_of_get [py_dict]: "map_of (dict_of kvs) k = map_of (rev kvs) k"
  by (auto simp: dict_of_def fold_update_get split: option.splits)

lemma dict_of_distinct [py_dict, simp]: "distinct (keys (dict_of kvs))"
  by (simp add: dict_of_def fold_update_distinct)

lemma update_new_key:
  "k \<notin> set (keys d) \<Longrightarrow> AList.update k v d = d @ [(k, v)]"
  by (induction d) auto

lemma fold_update_append:
  "distinct (keys kvs) \<Longrightarrow> set (keys kvs) \<inter> set (keys d) = {} \<Longrightarrow>
   fold (\<lambda>(k, v) d. AList.update k v d) kvs d = d @ kvs"
proof (induction kvs arbitrary: d)
  case Nil
  then show ?case by simp
next
  case (Cons kv kvs)
  obtain k v where kv: "kv = (k, v)" by (cases kv)
  from Cons.prems have "k \<notin> set (keys d)" by (auto simp: kv)
  then have upd: "AList.update k v d = d @ [(k, v)]" by (rule update_new_key)
  from Cons.prems have "set (keys kvs) \<inter> set (keys (d @ [(k, v)])) = {}"
    by (auto simp: kv)
  with Cons.prems Cons.IH [of "d @ [(k, v)]"] show ?case by (simp add: kv upd)
qed

lemma dict_of_id [py_dict]: "distinct (keys kvs) \<Longrightarrow> dict_of kvs = kvs"
  by (simp add: dict_of_def fold_update_append)

end
