(* ===== verification/Json.thy ===== *)
theory Json
  imports Prelude
begin

text \<open>
  The JSON-like values that cross every boundary of the agent: commands from the wire,
  session files, component arguments.  A Python \<open>float\<close> is identified with its \<open>repr\<close>, the
  shortest decimal that reads back as the same double, so equality of floats is equality of
  that string.  An object is an insertion-ordered dictionary.

  The errors are the built-in exceptions the modelled code can raise or catch, with the
  text \<open>str(e)\<close> gives where the code reports it.
\<close>

datatype json =
    JNull
  | JBool bool
  | JInt int
  | JFloat string
  | JStr string
  | JArr "json list"
  | JObj "(string \<times> json) list"

type_synonym jdict = "(string, json) dict"

datatype py_error =
    KeyError string
  | TypeError string
  | AttributeError string
  | ValueError string
  | RuntimeError string
  | OSError string

section \<open>Access\<close>

text \<open>\<open>isinstance(x, dict)\<close> and \<open>isinstance(x, str)\<close>.\<close>

fun is_obj :: "json \<Rightarrow> bool" where
  "is_obj (JObj _) = True"
| "is_obj _ = False"

fun is_str :: "json \<Rightarrow> bool" where
  "is_str (JStr _) = True"
| "is_str _ = False"

fun is_arr :: "json \<Rightarrow> bool" where
  "is_arr (JArr _) = True"
| "is_arr _ = False"

text \<open>The truth value of an object, \<open>bool(x)\<close>; a float is falsy when it is a zero.\<close>

fun truthy :: "json \<Rightarrow> bool" where
  "truthy JNull = False"
| "truthy (JBool b) = b"
| "truthy (JInt i) = (i \<noteq> 0)"
| "truthy (JFloat f) = (f \<noteq> ''0.0'' \<and> f \<noteq> ''-0.0'')"
| "truthy (JStr s) = (s \<noteq> [])"
| "truthy (JArr xs) = (xs \<noteq> [])"
| "truthy (JObj kvs) = (kvs \<noteq> [])"

text \<open>\<open>type(x).__name__\<close>, which the messages of the built-in exceptions quote.\<close>

fun type_name :: "json \<Rightarrow> string" where
  "type_name JNull = ''NoneType''"
| "type_name (JBool _) = ''bool''"
| "type_name (JInt _) = ''int''"
| "type_name (JFloat _) = ''float''"
| "type_name (JStr _) = ''str''"
| "type_name (JArr _) = ''list''"
| "type_name (JObj _) = ''dict''"

definition quoted :: "string \<Rightarrow> string" where
  "quoted s = [chr_squote] @ s @ [chr_squote]"

text \<open>\<open>x[k]\<close> for a string key.\<close>

fun subscript :: "json \<Rightarrow> string \<Rightarrow> py_error + json" where
  "subscript (JObj d) k = (case map_of d k of None \<Rightarrow> Inl (KeyError k) | Some v \<Rightarrow> Inr v)"
| "subscript (JArr _) k = Inl (TypeError ''list indices must be integers or slices, not str'')"
| "subscript (JStr _) k = Inl (TypeError (''string indices must be integers, not '' @ quoted ''str''))"
| "subscript x k = Inl (TypeError (quoted (type_name x) @ '' object is not subscriptable''))"

text \<open>\<open>x.get(k, default)\<close>, which only a dictionary has.\<close>

fun get_default :: "json \<Rightarrow> string \<Rightarrow> json \<Rightarrow> py_error + json" where
  "get_default (JObj d) k v0 = Inr (case map_of d k of None \<Rightarrow> v0 | Some v \<Rightarrow> v)"
| "get_default x k v0 =
     Inl (AttributeError (quoted (type_name x) @ '' object has no attribute '' @ quoted ''get''))"

definition dget :: "jdict \<Rightarrow> string \<Rightarrow> json" where
  "dget d k = (case map_of d k of None \<Rightarrow> JNull | Some v \<Rightarrow> v)"

text \<open>What \<open>for x in v\<close> iterates over.\<close>

fun iterate :: "json \<Rightarrow> py_error + json list" where
  "iterate (JArr xs) = Inr xs"
| "iterate (JObj d) = Inr (map (JStr \<circ> fst) d)"
| "iterate (JStr s) = Inr (map (\<lambda>c. JStr [c]) s)"
| "iterate x = Inl (TypeError (quoted (type_name x) @ '' object is not iterable''))"

section \<open>str and repr\<close>

definition hex_digit :: "nat \<Rightarrow> char" where
  "hex_digit n = (if n < 10 then char_of (48 + n) else char_of (87 + n))"

text \<open>One character of \<open>repr(s)\<close>, given the quote character in use.\<close>

definition repr_char :: "char \<Rightarrow> char \<Rightarrow> string" where
  "repr_char q c = (let n = of_char c :: nat in
     if c = q \<or> c = chr_bslash then [chr_bslash, c]
     else if n = 9 then [chr_bslash, CHR ''t'']
     else if n = 10 then [chr_bslash, CHR ''n'']
     else if n = 13 then [chr_bslash, CHR ''r'']
     else if n < 32 \<or> (127 \<le> n \<and> n \<le> 160) \<or> n = 173
       then [chr_bslash, CHR ''x'', hex_digit (n div 16), hex_digit (n mod 16)]
     else [c])"

definition repr_str :: "string \<Rightarrow> string" where
  "repr_str s = (let q = (if chr_squote \<in> set s \<and> chr_dquote \<notin> set s then chr_dquote else chr_squote)
     in [q] @ concat (map (repr_char q) s) @ [q])"

fun intercalate :: "string \<Rightarrow> string list \<Rightarrow> string" where
  "intercalate sep [] = []"
| "intercalate sep [x] = x"
| "intercalate sep (x # y # ys) = x @ sep @ intercalate sep (y # ys)"

fun py_repr :: "json \<Rightarrow> string" where
  "py_repr JNull = ''None''"
| "py_repr (JBool b) = (if b then ''True'' else ''False'')"
| "py_repr (JInt i) = show_int i"
| "py_repr (JFloat f) = f"
| "py_repr (JStr s) = repr_str s"
| "py_repr (JArr xs) = ''['' @ intercalate '', '' (map py_repr xs) @ '']''"
| "py_repr (JObj kvs) =
     ''{'' @ intercalate '', '' (map (\<lambda>(k, v). repr_str k @ '': '' @ py_repr v) kvs) @ ''}''"

fun py_str :: "json \<Rightarrow> string" where
  "py_str (JStr s) = s"
| "py_str x = py_repr x"

text \<open>\<open>str(e)\<close> of an exception.\<close>

fun str_error :: "py_error \<Rightarrow> string" where
  "str_error (KeyError k) = repr_str k"
| "str_error (TypeError m) = m"
| "str_error (AttributeError m) = m"
| "str_error (ValueError m) = m"
| "str_error (RuntimeError m) = m"
| "str_error (OSError m) = m"

section \<open>Equality\<close>

text \<open>
  \<open>x == y\<close>: dictionaries compare without regard to order, booleans are the integers 0 and 1, and
  an integer equals the float of the same value.  The latter is decided on the \<open>repr\<close>, which ends
  in \<open>.0\<close> for the integral floats below \<open>10^16\<close>; larger integral floats are not identified with
  integers here.
\<close>

definition int_eq_float :: "int \<Rightarrow> string \<Rightarrow> bool" where
  "int_eq_float i f = (f = show_int i @ ''.0'' \<or> (i = 0 \<and> f = ''-0.0''))"

definition float_eq :: "string \<Rightarrow> string \<Rightarrow> bool" where
  "float_eq f g = (f = g \<or> {f, g} = {''0.0'', ''-0.0''})"

fun num_val :: "json \<Rightarrow> int option" where
  "num_val (JBool b) = Some (if b then 1 else 0)"
| "num_val (JInt i) = Some i"
| "num_val _ = None"

definition num_eq :: "json \<Rightarrow> json \<Rightarrow> bool" where
  "num_eq x y =
     (case (num_val x, num_val y) of
        (Some i, Some j) \<Rightarrow> i = j
      | (Some i, None) \<Rightarrow> (case y of JFloat f \<Rightarrow> int_eq_float i f | _ \<Rightarrow> False)
      | (None, Some j) \<Rightarrow> (case x of JFloat f \<Rightarrow> int_eq_float j f | _ \<Rightarrow> False)
      | (None, None) \<Rightarrow> (case (x, y) of (JFloat f, JFloat g) \<Rightarrow> float_eq f g | _ \<Rightarrow> False))"

fun py_eq :: "json \<Rightarrow> json \<Rightarrow> bool" where
  "py_eq (JArr xs) y = (case y of JArr ys \<Rightarrow> list_all2 (\<lambda>p v. p v) (map py_eq xs) ys | _ \<Rightarrow> False)"
| "py_eq (JObj d) y = (case y of
       JObj e \<Rightarrow> length d = length e \<and>
         list_all (\<lambda>(k, p). case map_of e k of None \<Rightarrow> False | Some v \<Rightarrow> p v)
           (map (\<lambda>(k, v). (k, py_eq v)) d)
     | _ \<Rightarrow> False)"
| "py_eq (JStr s) y = (y = JStr s)"
| "py_eq JNull y = (y = JNull)"
| "py_eq x y = num_eq x y"

text \<open>Every dictionary inside the value has distinct keys, as a Python dictionary has.\<close>

fun wf_json :: "json \<Rightarrow> bool" where
  "wf_json (JArr xs) = list_all wf_json xs"
| "wf_json (JObj d) = (distinct (keys d) \<and> list_all (wf_json \<circ> snd) d)"
| "wf_json _ = True"

lemma num_eq_refl_int [simp]: "num_eq (JInt i) (JInt i)" "num_eq (JBool b) (JBool b)"
  "num_eq (JFloat f) (JFloat f)"
  by (simp_all add: num_eq_def float_eq_def)

lemma py_eq_refl: "wf_json x \<Longrightarrow> py_eq x x"
proof (induction x)
  case (JArr xs)
  then show ?case by (simp add: list_all2_conv_all_nth list_all_length)
next
  case (JObj d)
  have "\<forall>(k, v) \<in> set d. map_of d k = Some v \<and> py_eq v v"
    using JObj by (auto simp: list_all_iff)
  then show ?case by (auto simp: list_all_iff)
qed auto

section \<open>Optional strings\<close>

text \<open>A value that is \<open>None\<close> or a string, as the optional fields of the models are.\<close>

fun jopt :: "string option \<Rightarrow> json" where
  "jopt None = JNull"
| "jopt (Some s) = JStr s"

fun of_jopt :: "json \<Rightarrow> string option option" where
  "of_jopt JNull = Some None"
| "of_jopt (JStr s) = Some (Some s)"
| "of_jopt _ = None"

lemma of_jopt_jopt [simp]: "of_jopt (jopt x) = Some x"
  by (cases x) auto

lemma subscript_Inr [simp]:
  "subscript j k = Inr v \<longleftrightarrow> (\<exists>d. j = JObj d \<and> map_of d k = Some v)"
  by (cases j) (auto split: option.splits)

end
