(* ===== verification/Templating.thy ===== *)
theory Templating
  imports Json
begin

text \<open>
  Placeholder resolution, \<open>src/link/config/templating.py\<close>: \<open>resolve_templates\<close> walks a JSON
  value and replaces every match of \<open>\<dollar>{...}\<close> in its strings by the value that the dotted path
  names in a nested context, or by the placeholder itself when the path names nothing.
\<close>

definition placeholder :: "string \<Rightarrow> string" where
  "placeholder path = ''${'' @ path @ ''}''"

text \<open>
  The walk of \<open>_lookup\<close> along the parts of the path.  The result is \<open>None\<close> where the code
  returns the literal placeholder.
\<close>

fun walk :: "json \<Rightarrow> string list \<Rightarrow> json option" where
  "walk node [] = Some node"
| "walk (JObj d) (part # parts) = (case map_of d part of None \<Rightarrow> None | Some v \<Rightarrow> walk v parts)"
| "walk _ (part # parts) = None"

definition lookup_path :: "jdict \<Rightarrow> string \<Rightarrow> string" where
  "lookup_path context path =
     (case walk (JObj context) (split_char (CHR ''.'') path) of
        None \<Rightarrow> placeholder path
      | Some node \<Rightarrow> py_str node)"

text \<open>
  \<open>_TEMPLATE_RE.sub(f, s)\<close> for the pattern \<open>\<dollar>\{([^}]+)\}\<close>: at each position from the left, a
  dollar and an opening brace followed by one or more characters other than a closing brace
  and a closing brace match; the scan goes on behind the match, never inside the replacement.
\<close>

function sub_templates :: "(string \<Rightarrow> string) \<Rightarrow> string \<Rightarrow> string" where
  "sub_templates f [] = []"
| "sub_templates f (c # s) =
     (if c = CHR ''$'' \<and> s \<noteq> [] \<and> hd s = CHR ''{'' then
        (let body = takeWhile (\<lambda>x. x \<noteq> CHR ''}'') (tl s);
             rest = dropWhile (\<lambda>x. x \<noteq> CHR ''}'') (tl s)
         in if body \<noteq> [] \<and> rest \<noteq> [] then f body @ sub_templates f (tl rest)
            else c # sub_templates f s)
      else c # sub_templates f s)"
  by pat_completeness auto
termination
proof (relation "measure (\<lambda>(f, s). length s)", goal_cases)
  case (2 f c s x xa)
  have "length (dropWhile (\<lambda>x. x \<noteq> CHR ''}'') (tl s)) \<le> length (tl s)"
    by (rule length_dropWhile_le)
  with 2 show ?case by (cases s) auto
qed auto

declare sub_templates.simps(2) [simp del]

fun resolve_templates :: "jdict \<Rightarrow> json \<Rightarrow> json" where
  "resolve_templates context (JStr s) = JStr (sub_templates (lookup_path context) s)"
| "resolve_templates context (JObj kvs) = JObj (map (\<lambda>(k, v). (k, resolve_templates context v)) kvs)"
| "resolve_templates context (JArr xs) = JArr (map (resolve_templates context) xs)"
| "resolve_templates context obj = obj"

section \<open>The scan\<close>

text \<open>The two ways the scan goes on at a character.\<close>

lemma sub_templates_match:
  assumes "CHR ''}'' \<notin> set body" "body \<noteq> []"
  shows "sub_templates f (''${'' @ body @ ''}'' @ rest) = f body @ sub_templates f rest"
proof -
  have tw: "takeWhile (\<lambda>x. x \<noteq> CHR ''}'') (body @ CHR ''}'' # rest) = body"
    using assms(1) by (subst takeWhile_append2) auto
  have dw: "dropWhile (\<lambda>x. x \<noteq> CHR ''}'') (body @ CHR ''}'' # rest) = CHR ''}'' # rest"
    using assms(1) by (subst dropWhile_append2) auto
  show ?thesis using assms(2) by (simp add: sub_templates.simps(2) tw dw)
qed

definition match_at :: "string \<Rightarrow> bool" where
  "match_at s \<longleftrightarrow> (\<exists>body rest. s = ''${'' @ body @ ''}'' @ rest \<and> body \<noteq> [] \<and> CHR ''}'' \<notin> set body)"

lemma dropWhile_hd: "dropWhile P xs = y # ys \<Longrightarrow> \<not> P y"
  by (metis dropWhile_eq_Cons_conv)

lemma match_at_cases:
  "match_at (c # s) \<longleftrightarrow> c = CHR ''$'' \<and> s \<noteq> [] \<and> hd s = CHR ''{'' \<and>
     takeWhile (\<lambda>x. x \<noteq> CHR ''}'') (tl s) \<noteq> [] \<and> dropWhile (\<lambda>x. x \<noteq> CHR ''}'') (tl s) \<noteq> []"
  (is "?L = ?R")
proof
  assume ?L
  then obtain body rest where s: "c = CHR ''$''" "s = CHR ''{'' # body @ CHR ''}'' # rest"
    and b: "body \<noteq> []" "CHR ''}'' \<notin> set body"
    unfolding match_at_def by auto
  have "takeWhile (\<lambda>x. x \<noteq> CHR ''}'') (body @ CHR ''}'' # rest) = body"
    "dropWhile (\<lambda>x. x \<noteq> CHR ''}'') (body @ CHR ''}'' # rest) = CHR ''}'' # rest"
    using b(2) by (subst takeWhile_append2 dropWhile_append2; auto)+
  with s b(1) show ?R by simp
next
  assume R: ?R
  let ?b = "takeWhile (\<lambda>x. x \<noteq> CHR ''}'') (tl s)"
  obtain y r where yr: "dropWhile (\<lambda>x. x \<noteq> CHR ''}'') (tl s) = y # r"
    using R by (cases "dropWhile (\<lambda>x. x \<noteq> CHR ''}'') (tl s)") auto
  then have "y = CHR ''}''" using dropWhile_hd by fastforce
  then have "tl s = ?b @ CHR ''}'' # r"
    using yr takeWhile_dropWhile_id [of "\<lambda>x. x \<noteq> CHR ''}''" "tl s"] by simp
  with R have "c # s = ''${'' @ ?b @ ''}'' @ r" by (cases s) auto
  moreover have "CHR ''}'' \<notin> set ?b" by (auto dest: set_takeWhileD)
  ultimately show ?L unfolding match_at_def using R by blast
qed

lemma sub_templates_no_match: "\<not> match_at (c # s) \<Longrightarrow> sub_templates f (c # s) = c # sub_templates f s"
  unfolding match_at_cases by (auto simp: sub_templates.simps(2) Let_def)

text \<open>Induction along the scan: a match is consumed whole, any other character alone.\<close>

lemma template_induct [case_names Nil Match Char]:
  assumes "P []"
    and "\<And>body rest. body \<noteq> [] \<Longrightarrow> CHR ''}'' \<notin> set body \<Longrightarrow> P rest \<Longrightarrow> P (''${'' @ body @ ''}'' @ rest)"
    and "\<And>c s. \<not> match_at (c # s) \<Longrightarrow> P s \<Longrightarrow> P (c # s)"
  shows "P s"
proof (induction s rule: length_induct)
  case (1 s)
  show ?case
  proof (cases s)
    case Nil
    with assms(1) show ?thesis by simp
  next
    case (Cons c t)
    show ?thesis
    proof (cases "match_at s")
      case True
      then obtain body rest where s: "s = ''${'' @ body @ ''}'' @ rest"
        and "body \<noteq> []" "CHR ''}'' \<notin> set body"
        unfolding match_at_def by blast
      moreover have "P rest" using 1 s by simp
      ultimately show ?thesis using assms(2) by simp
    next
      case False
      then show ?thesis using assms(3) Cons 1 by simp
    qed
  qed
qed

text \<open>Where every path is unknown nothing changes: unknown placeholders are kept verbatim.\<close>

lemma sub_templates_unknown: "sub_templates placeholder s = s"
proof (induction s rule: template_induct)
  case Nil
  show ?case by simp
next
  case (Match body rest)
  then show ?case by (simp add: sub_templates_match [simplified] placeholder_def)
next
  case (Char c s)
  then show ?case by (simp add: sub_templates_no_match)
qed

lemma sub_templates_cong:
  "(\<And>p. f p = g p) \<Longrightarrow> sub_templates f s = sub_templates g s"
  by (metis ext)

section \<open>Resolving twice\<close>

text \<open>
  \<open>handle_command\<close> resolves a command against the identity and, for \<open>UPDATE_AGENT_CONFIG\<close>,
  \<open>apply_agent_config\<close> resolves the result again.  The second pass is the identity when no
  resolved value can join its neighbours into a new placeholder: every placeholder of the value is
  either unknown or replaced by a non-empty string without a dollar and without a brace.
\<close>

function template_paths :: "string \<Rightarrow> string list" where
  "template_paths [] = []"
| "template_paths (c # s) =
     (if c = CHR ''$'' \<and> s \<noteq> [] \<and> hd s = CHR ''{'' then
        (let body = takeWhile (\<lambda>x. x \<noteq> CHR ''}'') (tl s);
             rest = dropWhile (\<lambda>x. x \<noteq> CHR ''}'') (tl s)
         in if body \<noteq> [] \<and> rest \<noteq> [] then body # template_paths (tl rest)
            else template_paths s)
      else template_paths s)"
  by pat_completeness auto
termination
proof (relation "measure length", goal_cases)
  case (2 c s x xa)
  have "length (dropWhile (\<lambda>x. x \<noteq> CHR ''}'') (tl s)) \<le> length (tl s)"
    by (rule length_dropWhile_le)
  with 2 show ?case by (cases s) auto
qed auto

declare template_paths.simps(2) [simp del]

definition inert :: "string \<Rightarrow> bool" where
  "inert s \<longleftrightarrow> s \<noteq> [] \<and> CHR ''$'' \<notin> set s \<and> CHR ''{'' \<notin> set s \<and> CHR ''}'' \<notin> set s"

definition inert_on :: "(string \<Rightarrow> string) \<Rightarrow> string \<Rightarrow> bool" where
  "inert_on f s \<longleftrightarrow> list_all (\<lambda>p. f p = placeholder p \<or> inert (f p)) (template_paths s)"

fun json_inert :: "jdict \<Rightarrow> json \<Rightarrow> bool" where
  "json_inert context (JStr s) = inert_on (lookup_path context) s"
| "json_inert context (JArr xs) = list_all (json_inert context) xs"
| "json_inert context (JObj kvs) = list_all (json_inert context \<circ> snd) kvs"
| "json_inert context _ = True"

lemma template_paths_match:
  assumes "CHR ''}'' \<notin> set body" "body \<noteq> []"
  shows "template_paths (''${'' @ body @ ''}'' @ rest) = body # template_paths rest"
proof -
  have "takeWhile (\<lambda>x. x \<noteq> CHR ''}'') (body @ CHR ''}'' # rest) = body"
    "dropWhile (\<lambda>x. x \<noteq> CHR ''}'') (body @ CHR ''}'' # rest) = CHR ''}'' # rest"
    using assms(1) by (subst takeWhile_append2 dropWhile_append2; auto)+
  then show ?thesis using assms(2) by (simp add: template_paths.simps(2))
qed

lemma template_paths_no_match: "\<not> match_at (c # s) \<Longrightarrow> template_paths (c # s) = template_paths s"
  unfolding match_at_cases by (auto simp: template_paths.simps(2) Let_def)

lemma inert_on_match:
  assumes "CHR ''}'' \<notin> set body" "body \<noteq> []"
  shows "inert_on f (''${'' @ body @ ''}'' @ rest) \<longleftrightarrow>
    (f body = placeholder body \<or> inert (f body)) \<and> inert_on f rest"
  using template_paths_match [OF assms] by (simp add: inert_on_def)

lemma inert_on_no_match: "\<not> match_at (c # s) \<Longrightarrow> inert_on f (c # s) = inert_on f s"
  by (simp add: inert_on_def template_paths_no_match)

lemma sub_templates_plain:
  "CHR ''$'' \<notin> set u \<Longrightarrow> sub_templates f (u @ s) = u @ sub_templates f s"
proof (induction u)
  case Nil
  show ?case by simp
next
  case (Cons c u)
  then have "\<not> match_at (c # u @ s)" by (auto simp: match_at_def)
  with Cons show ?case by (simp add: sub_templates_no_match)
qed

text \<open>
  A character that starts no match still starts none in front of the resolved rest: the rest
  keeps its first character unless a match stands there, and then it starts with a dollar or
  with a character of an inert value.
\<close>

lemma sub_templates_hd:
  assumes "inert_on f s" "s \<noteq> []"
  shows "sub_templates f s \<noteq> [] \<and>
    (if match_at s then hd (sub_templates f s) \<noteq> CHR ''{'' \<and> hd (sub_templates f s) \<noteq> CHR ''}''
     else hd (sub_templates f s) = hd s)"
proof (cases "match_at s")
  case True
  then obtain body rest where s: "s = ''${'' @ body @ ''}'' @ rest"
    and b: "body \<noteq> []" "CHR ''}'' \<notin> set body"
    unfolding match_at_def by blast
  have e: "sub_templates f s = f body @ sub_templates f rest"
    using s b sub_templates_match by simp
  from assms(1) consider "f body = placeholder body" | "inert (f body)"
    using s inert_on_match [OF b(2,1)] by blast
  then show ?thesis
  proof cases
    case 1
    then show ?thesis using e True by (simp add: placeholder_def)
  next
    case 2
    then obtain x xs where "f body = x # xs" by (auto simp: inert_def neq_Nil_conv)
    with 2 e True show ?thesis by (auto simp: inert_def)
  qed
next
  case False
  with assms(2) show ?thesis by (cases s) (auto simp: sub_templates_no_match)
qed

lemma sub_templates_no_brace: "CHR ''}'' \<notin> set t \<Longrightarrow> sub_templates f t = t"
proof (induction t)
  case (Cons x t)
  then have "\<not> match_at (x # t)" by (auto simp: match_at_def)
  with Cons show ?case by (simp add: sub_templates_no_match)
qed simp

lemma not_match_sub:
  assumes ic: "inert_on f s" and nm: "\<not> match_at (c # s)"
  shows "\<not> match_at (c # sub_templates f s)"
proof
  assume m: "match_at (c # sub_templates f s)"
  then obtain body rest where c: "c = CHR ''$''"
    and e: "sub_templates f s = CHR ''{'' # body @ CHR ''}'' # rest"
    and b: "body \<noteq> []" "CHR ''}'' \<notin> set body"
    unfolding match_at_def by auto
  have "s \<noteq> []" using e by auto
  with sub_templates_hd [OF ic this] e have nms: "\<not> match_at s" and "hd s = CHR ''{''"
    by (auto split: if_splits)
  then obtain t where s: "s = CHR ''{'' # t" using \<open>s \<noteq> []\<close> by (cases s) auto
  have et: "sub_templates f t = body @ CHR ''}'' # rest"
    using e s nms by (simp add: sub_templates_no_match)
  have it: "inert_on f t" using ic s nms by (simp add: inert_on_no_match)
  have "CHR ''}'' \<in> set t"
    using et sub_templates_no_brace [of t f] by (metis in_set_conv_decomp)
  then obtain u v where t: "t = u @ CHR ''}'' # v" and u: "CHR ''}'' \<notin> set u"
    by (metis split_list_first)
  show False
  proof (cases "u = []")
    case True
    then have "\<not> match_at t" using t by (auto simp: match_at_def)
    then have "hd (sub_templates f t) = CHR ''}''"
      using sub_templates_hd [OF it] t True by simp
    with et b show False by (cases body) auto
  next
    case False
    then have "match_at (c # s)" unfolding match_at_def using c s t u by auto
    with nm show False by simp
  qed
qed

lemma sub_templates_idem:
  "inert_on f s \<Longrightarrow> sub_templates f (sub_templates f s) = sub_templates f s"
proof (induction s rule: template_induct)
  case Nil
  show ?case by simp
next
  case (Match body rest)
  have e: "sub_templates f (''${'' @ body @ ''}'' @ rest) = f body @ sub_templates f rest"
    by (rule sub_templates_match [OF Match(2,1)])
  from Match.prems have ir: "inert_on f rest" by (simp only: inert_on_match [OF Match(2,1)])
  from Match.prems consider "f body = placeholder body" | "inert (f body)"
    using inert_on_match [OF Match(2,1)] by blast
  then show ?case
  proof cases
    case 1
    then have "sub_templates f (f body @ sub_templates f rest)
             = f body @ sub_templates f (sub_templates f rest)"
      using sub_templates_match [OF Match(2,1), of f "sub_templates f rest"]
      by (simp add: placeholder_def)
    with e Match.IH [OF ir] show ?thesis by simp
  next
    case 2
    then have "CHR ''$'' \<notin> set (f body)" by (simp add: inert_def)
    with e Match.IH [OF ir] show ?thesis by (simp add: sub_templates_plain)
  qed
next
  case (Char c s)
  from Char.prems have "inert_on f s" by (simp add: inert_on_no_match [OF Char(1)])
  with not_match_sub [OF this Char(1)] Char show ?case
    by (simp add: sub_templates_no_match)
qed

lemma lookup_path_empty: "lookup_path [] path = placeholder path"
  by (cases "split_char (CHR ''.'') path") (auto simp: lookup_path_def)

section \<open>Properties\<close>

text \<open>
  Unknown placeholders are preserved verbatim: against a context that resolves none of the
  placeholders of a value, \<open>resolve_templates\<close> returns the value unchanged, whatever its nesting, so
  runtime placeholders and literal dollar signs pass through.
\<close>

lemma resolve_unknown_verbatim:
  assumes "\<And>path. lookup_path context path = placeholder path"
  shows "resolve_templates context j = j"
proof (induction j)
  case (JStr s)
  have "lookup_path context = placeholder" using assms by (rule ext)
  then show ?case by (simp add: sub_templates_unknown)
next
  case (JArr xs)
  then show ?case by (simp add: map_idI)
next
  case (JObj d)
  then have "(\<lambda>(k, v). (k, resolve_templates context v)) kv = kv" if "kv \<in> set d" for kv
    using that by (cases kv) force
  then show ?case by (simp add: map_idI)
qed auto

lemma resolve_unknown_verbatim_witness:
  "resolve_templates [] (JArr [JStr ''/agent/${identity.device_id}/commands/{cid}'', JInt 3]) =
   JArr [JStr ''/agent/${identity.device_id}/commands/{cid}'', JInt 3]"
  using resolve_unknown_verbatim [of "[]"] lookup_path_empty by blast

text \<open>
  Resolving is idempotent: when every placeholder of a value is unknown or stands for a
  non-empty string without dollar and braces, a second \<open>resolve_templates\<close> against the same context
  changes nothing, so the defensive re-resolution of \<open>apply_agent_config\<close> is harmless.
\<close>

lemma resolve_templates_idempotent:
  "json_inert context j \<Longrightarrow>
   resolve_templates context (resolve_templates context j) = resolve_templates context j"
proof (induction j)
  case (JStr s)
  then show ?case by (simp add: sub_templates_idem)
next
  case (JArr xs)
  then show ?case by (simp add: list_all_iff)
next
  case (JObj d)
  then show ?case by (force simp: list_all_iff)
qed auto

definition sample_context :: jdict where
  "sample_context = [(''identity'', JObj [(''device_id'', JStr ''dev-1''), (''api_key'', JNull)])]"

lemma resolve_templates_idempotent_witness:
  "json_inert sample_context (JStr ''a/${identity.device_id}/$${cid}'') \<and>
   resolve_templates sample_context (resolve_templates sample_context (JStr ''a/${identity.device_id}/$${cid}'')) =
   resolve_templates sample_context (JStr ''a/${identity.device_id}/$${cid}'')"
proof -
  have "json_inert sample_context (JStr ''a/${identity.device_id}/$${cid}'')" by code_simp
  then show ?thesis using resolve_templates_idempotent by blast
qed

end
