(* ===== verification/Models.thy ===== *)
theory Models
  imports Templating "HOL-Library.Monad_Syntax"
begin

text \<open>
  The configuration schema, \<open>src/link/config/models.py\<close>, and the file loader,
  \<open>src/link/config/loader.py\<close>.  Each pydantic model is a record; \<open>parse_*\<close> is its constructor
  applied to a decoded JSON value (\<open>None\<close> is a \<open>ValidationError\<close>) and \<open>dump_*\<close> is \<open>model_dump()\<close>.
  A missing field takes its default, an unknown field is ignored (pydantic's default for these
  models), a wrong type is an error.

  How pydantic coerces scalars that are not of the declared type (numeric strings, integral
  floats, the words it takes for booleans) is the library's affair: the coercions are a
  parameter \<open>pd\<close> of the parsers, and \<open>pydantic_ok\<close> states the only thing the code relies on, that
  a value of the declared type is taken as it is.
\<close>

record pydantic =
  pd_bool :: "json \<Rightarrow> bool option"
  pd_int :: "json \<Rightarrow> int option"
  pd_float :: "json \<Rightarrow> string option"

definition pydantic_ok :: "pydantic \<Rightarrow> bool" where
  "pydantic_ok pd \<longleftrightarrow>
     (\<forall>b. pd_bool pd (JBool b) = Some b) \<and>
     (\<forall>i. pd_int pd (JInt i) = Some i) \<and>
     (\<forall>f. pd_float pd (JFloat f) = Some f)"

text \<open>The strictest coercions, used by the witnesses.\<close>

fun strict_bool :: "json \<Rightarrow> bool option" where
  "strict_bool (JBool b) = Some b"
| "strict_bool _ = None"

fun strict_int :: "json \<Rightarrow> int option" where
  "strict_int (JInt i) = Some i"
| "strict_int _ = None"

fun strict_float :: "json \<Rightarrow> string option" where
  "strict_float (JFloat f) = Some f"
| "strict_float _ = None"

definition strict_pydantic :: pydantic where
  "strict_pydantic = \<lparr>pd_bool = strict_bool, pd_int = strict_int, pd_float = strict_float\<rparr>"

lemma strict_pydantic_ok [simp]: "pydantic_ok strict_pydantic"
  by (simp add: pydantic_ok_def strict_pydantic_def)

section \<open>Fields\<close>

definition req_field :: "jdict \<Rightarrow> string \<Rightarrow> (json \<Rightarrow> 'a option) \<Rightarrow> 'a option" where
  "req_field d k p = (case map_of d k of None \<Rightarrow> None | Some v \<Rightarrow> p v)"

definition opt_field :: "jdict \<Rightarrow> string \<Rightarrow> 'a \<Rightarrow> (json \<Rightarrow> 'a option) \<Rightarrow> 'a option" where
  "opt_field d k dflt p = (case map_of d k of None \<Rightarrow> Some dflt | Some v \<Rightarrow> p v)"

fun p_str :: "json \<Rightarrow> string option" where
  "p_str (JStr s) = Some s"
| "p_str _ = None"

fun p_dict :: "json \<Rightarrow> jdict option" where
  "p_dict (JObj d) = Some d"
| "p_dict _ = None"

fun p_list :: "(json \<Rightarrow> 'a option) \<Rightarrow> json \<Rightarrow> 'a list option" where
  "p_list p (JArr xs) = those (map p xs)"
| "p_list p _ = None"

fun p_opt :: "(json \<Rightarrow> 'a option) \<Rightarrow> json \<Rightarrow> 'a option option" where
  "p_opt p JNull = Some None"
| "p_opt p v = map_option Some (p v)"

lemma those_map_Some: "(\<And>x. x \<in> set xs \<Longrightarrow> p (f x) = Some x) \<Longrightarrow> those (map p (map f xs)) = Some xs"
  by (induction xs) auto

lemma p_list_dump: "(\<And>x. x \<in> set xs \<Longrightarrow> p (f x) = Some x) \<Longrightarrow> p_list p (JArr (map f xs)) = Some xs"
  using those_map_Some [of xs p f] by simp

section \<open>Models\<close>

definition SCHEMA_VERSION :: string where
  "SCHEMA_VERSION = ''2.1''"

record generic_config =
  gc_type :: string
  gc_args :: jdict

definition parse_generic :: "json \<Rightarrow> generic_config option" where
  "parse_generic j = do {
     d \<leftarrow> p_dict j;
     t \<leftarrow> req_field d ''type'' p_str;
     a \<leftarrow> opt_field d ''args'' [] p_dict;
     Some \<lparr>gc_type = t, gc_args = a\<rparr>
   }"

definition dump_generic :: "generic_config \<Rightarrow> json" where
  "dump_generic g = JObj [(''type'', JStr (gc_type g)), (''args'', JObj (gc_args g))]"

record identity_config =
  device_id :: string
  device_name :: string
  api_url :: "string option"
  api_key :: "string option"

definition parse_identity :: "json \<Rightarrow> identity_config option" where
  "parse_identity j = do {
     d \<leftarrow> p_dict j;
     i \<leftarrow> req_field d ''device_id'' p_str;
     n \<leftarrow> opt_field d ''device_name'' ''unknown'' p_str;
     u \<leftarrow> opt_field d ''api_url'' None of_jopt;
     k \<leftarrow> opt_field d ''api_key'' None of_jopt;
     Some \<lparr>device_id = i, device_name = n, api_url = u, api_key = k\<rparr>
   }"

definition dump_identity :: "identity_config \<Rightarrow> json" where
  "dump_identity i = JObj
     [(''device_id'', JStr (device_id i)), (''device_name'', JStr (device_name i)),
      (''api_url'', jopt (api_url i)), (''api_key'', jopt (api_key i))]"

datatype transport_type = TransportHttp | TransportZenoh

fun str_transport :: "transport_type \<Rightarrow> string" where
  "str_transport TransportHttp = ''http''"
| "str_transport TransportZenoh = ''zenoh''"

fun p_transport :: "json \<Rightarrow> transport_type option" where
  "p_transport (JStr s) =
     (if s = ''http'' then Some TransportHttp else if s = ''zenoh'' then Some TransportZenoh else None)"
| "p_transport _ = None"

record transport_config =
  tc_type :: transport_type
  tc_args :: jdict

definition parse_transport :: "json \<Rightarrow> transport_config option" where
  "parse_transport j = do {
     d \<leftarrow> p_dict j;
     t \<leftarrow> req_field d ''type'' p_transport;
     a \<leftarrow> opt_field d ''args'' [] p_dict;
     Some \<lparr>tc_type = t, tc_args = a\<rparr>
   }"

definition dump_transport :: "transport_config \<Rightarrow> json" where
  "dump_transport t = JObj [(''type'', JStr (str_transport (tc_type t))), (''args'', JObj (tc_args t))]"

text \<open>The typed view of a Zenoh transport's arguments.\<close>

datatype zenoh_mode = ModeClient | ModePeer | ModeRouter

fun p_mode :: "json \<Rightarrow> zenoh_mode option" where
  "p_mode (JStr s) =
     (if s = ''client'' then Some ModeClient else if s = ''peer'' then Some ModePeer
      else if s = ''router'' then Some ModeRouter else None)"
| "p_mode _ = None"

record transport_args =
  ta_mode :: zenoh_mode
  ta_endpoints :: "string list"
  ta_tls_root_ca :: "string option"
  ta_username :: "string option"
  ta_password :: "string option"

definition parse_transport_args :: "json \<Rightarrow> transport_args option" where
  "parse_transport_args j = do {
     d \<leftarrow> p_dict j;
     m \<leftarrow> opt_field d ''mode'' ModeClient p_mode;
     es \<leftarrow> opt_field d ''endpoints'' [] (p_list p_str);
     ca \<leftarrow> opt_field d ''tls_root_ca'' None of_jopt;
     u \<leftarrow> opt_field d ''username'' None of_jopt;
     pw \<leftarrow> opt_field d ''password'' None of_jopt;
     Some \<lparr>ta_mode = m, ta_endpoints = es, ta_tls_root_ca = ca, ta_username = u, ta_password = pw\<rparr>
   }"

datatype log_level = DEBUG | INFO | WARNING | ERROR

fun str_level :: "log_level \<Rightarrow> string" where
  "str_level DEBUG = ''DEBUG''"
| "str_level INFO = ''INFO''"
| "str_level WARNING = ''WARNING''"
| "str_level ERROR = ''ERROR''"

fun p_level :: "json \<Rightarrow> log_level option" where
  "p_level (JStr s) =
     (if s = ''DEBUG'' then Some DEBUG else if s = ''INFO'' then Some INFO
      else if s = ''WARNING'' then Some WARNING else if s = ''ERROR'' then Some ERROR else None)"
| "p_level _ = None"

record logging_config =
  lc_level :: log_level
  lc_handlers :: "generic_config list"

definition default_logging :: logging_config where
  "default_logging = \<lparr>lc_level = INFO, lc_handlers = []\<rparr>"

definition parse_logging :: "json \<Rightarrow> logging_config option" where
  "parse_logging j = do {
     d \<leftarrow> p_dict j;
     l \<leftarrow> opt_field d ''level'' INFO p_level;
     hs \<leftarrow> opt_field d ''handlers'' [] (p_list parse_generic);
     Some \<lparr>lc_level = l, lc_handlers = hs\<rparr>
   }"

definition dump_logging :: "logging_config \<Rightarrow> json" where
  "dump_logging l = JObj
     [(''level'', JStr (str_level (lc_level l))), (''handlers'', JArr (map dump_generic (lc_handlers l)))]"

record reporting_config =
  rc_interval :: int
  rc_handlers :: "generic_config list"

definition default_reporting :: reporting_config where
  "default_reporting = \<lparr>rc_interval = 30, rc_handlers = []\<rparr>"

definition parse_reporting :: "pydantic \<Rightarrow> json \<Rightarrow> reporting_config option" where
  "parse_reporting pd j = do {
     d \<leftarrow> p_dict j;
     i \<leftarrow> opt_field d ''interval'' 30 (\<lambda>v. do { i \<leftarrow> pd_int pd v; if 1 \<le> i then Some i else None });
     hs \<leftarrow> opt_field d ''handlers'' [] (p_list parse_generic);
     Some \<lparr>rc_interval = i, rc_handlers = hs\<rparr>
   }"

definition dump_reporting :: "reporting_config \<Rightarrow> json" where
  "dump_reporting r = JObj
     [(''interval'', JInt (rc_interval r)), (''handlers'', JArr (map dump_generic (rc_handlers r)))]"

record pipeline_config =
  pc_id :: string
  pc_active :: bool
  pc_source :: generic_config
  pc_sink :: "generic_config option"

definition parse_pipeline :: "pydantic \<Rightarrow> json \<Rightarrow> pipeline_config option" where
  "parse_pipeline pd j = do {
     d \<leftarrow> p_dict j;
     i \<leftarrow> req_field d ''id'' p_str;
     a \<leftarrow> opt_field d ''active'' False (pd_bool pd);
     s \<leftarrow> req_field d ''source'' parse_generic;
     k \<leftarrow> opt_field d ''sink'' None (p_opt parse_generic);
     Some \<lparr>pc_id = i, pc_active = a, pc_source = s, pc_sink = k\<rparr>
   }"

definition dump_pipeline_fields :: "pipeline_config \<Rightarrow> jdict" where
  "dump_pipeline_fields p =
     [(''id'', JStr (pc_id p)), (''active'', JBool (pc_active p)), (''source'', dump_generic (pc_source p)),
      (''sink'', (case pc_sink p of None \<Rightarrow> JNull | Some g \<Rightarrow> dump_generic g))]"

definition dump_pipeline :: "pipeline_config \<Rightarrow> json" where
  "dump_pipeline p = JObj (dump_pipeline_fields p)"

record agent_config =
  ac_version :: string
  ac_identity :: identity_config
  ac_transport :: "transport_config option"
  ac_logging :: logging_config
  ac_reporting :: reporting_config
  ac_pipelines :: "pipeline_config list"

definition parse_agent_config :: "pydantic \<Rightarrow> json \<Rightarrow> agent_config option" where
  "parse_agent_config pd j = do {
     d \<leftarrow> p_dict j;
     v \<leftarrow> req_field d ''version'' (pd_float pd);
     i \<leftarrow> req_field d ''identity'' parse_identity;
     t \<leftarrow> opt_field d ''transport'' None (p_opt parse_transport);
     l \<leftarrow> opt_field d ''logging'' default_logging parse_logging;
     r \<leftarrow> opt_field d ''reporting'' default_reporting (parse_reporting pd);
     ps \<leftarrow> opt_field d ''pipelines'' [] (p_list (parse_pipeline pd));
     Some \<lparr>ac_version = v, ac_identity = i, ac_transport = t, ac_logging = l, ac_reporting = r,
           ac_pipelines = ps\<rparr>
   }"

definition dump_agent_fields :: "agent_config \<Rightarrow> jdict" where
  "dump_agent_fields c =
     [(''version'', JFloat (ac_version c)), (''identity'', dump_identity (ac_identity c)),
      (''transport'', (case ac_transport c of None \<Rightarrow> JNull | Some t \<Rightarrow> dump_transport t)),
      (''logging'', dump_logging (ac_logging c)), (''reporting'', dump_reporting (ac_reporting c)),
      (''pipelines'', JArr (map dump_pipeline (ac_pipelines c)))]"

definition dump_agent_config :: "agent_config \<Rightarrow> json" where
  "dump_agent_config c = JObj (dump_agent_fields c)"

section \<open>Equality of models\<close>

text \<open>\<open>a == b\<close> on two models: field by field, the arguments as dictionaries.\<close>

definition eq_generic :: "generic_config \<Rightarrow> generic_config \<Rightarrow> bool" where
  "eq_generic a b \<longleftrightarrow> gc_type a = gc_type b \<and> py_eq (JObj (gc_args a)) (JObj (gc_args b))"

definition eq_pipeline :: "pipeline_config \<Rightarrow> pipeline_config \<Rightarrow> bool" where
  "eq_pipeline a b \<longleftrightarrow> pc_id a = pc_id b \<and> pc_active a = pc_active b \<and>
     eq_generic (pc_source a) (pc_source b) \<and> rel_option eq_generic (pc_sink a) (pc_sink b)"

definition eq_transport :: "transport_config option \<Rightarrow> transport_config option \<Rightarrow> bool" where
  "eq_transport = rel_option (\<lambda>a b. tc_type a = tc_type b \<and> py_eq (JObj (tc_args a)) (JObj (tc_args b)))"

section \<open>The loader\<close>

datatype load_error = FileNotFound | InvalidJson | SchemaInvalid | Unexpected

text \<open>
  \<open>load_config\<close>: \<open>content\<close> is \<open>None\<close> for a missing file, and \<open>Some None\<close> for a file that is not
  valid JSON.  Every failure but the first is raised as a \<open>ValueError\<close>; the datatype keeps the
  branch that raised it.  A document that is not an object fails in \<open>AgentConfig(**data)\<close> with a
  \<open>TypeError\<close>, the unexpected branch; \<open>_lookup\<close> reads such a document as a context without keys.
\<close>

definition load_config :: "pydantic \<Rightarrow> json option option \<Rightarrow> load_error + agent_config" where
  "load_config pd content =
     (case content of
        None \<Rightarrow> Inl FileNotFound
      | Some None \<Rightarrow> Inl InvalidJson
      | Some (Some raw) \<Rightarrow>
          (case raw of
             JObj d \<Rightarrow>
               (case parse_agent_config pd (resolve_templates d raw) of
                  None \<Rightarrow> Inl SchemaInvalid
                | Some cfg \<Rightarrow> Inr cfg)
           | _ \<Rightarrow> Inl Unexpected))"

section \<open>Dump and parse are inverse\<close>

lemma pydantic_okD:
  assumes "pydantic_ok pd"
  shows "pd_bool pd (JBool b) = Some b" "pd_int pd (JInt i) = Some i" "pd_float pd (JFloat f) = Some f"
  using assms by (auto simp: pydantic_ok_def)

lemmas model_fields = req_field_def opt_field_def

lemma parse_dump_generic [simp]: "parse_generic (dump_generic g) = Some g"
  by (simp add: parse_generic_def dump_generic_def model_fields)

lemma parse_dump_identity [simp]: "parse_identity (dump_identity i) = Some i"
  by (simp add: parse_identity_def dump_identity_def model_fields)

lemma p_transport_str [simp]: "p_transport (JStr (str_transport t)) = Some t"
  by (cases t) auto

lemma parse_dump_transport [simp]: "parse_transport (dump_transport t) = Some t"
  by (simp add: parse_transport_def dump_transport_def model_fields del: p_transport.simps)

lemma p_level_str [simp]: "p_level (JStr (str_level l)) = Some l"
  by (cases l) auto

lemma p_list_generic [simp]: "p_list parse_generic (JArr (map dump_generic gs)) = Some gs"
  by (rule p_list_dump) simp

lemma parse_dump_logging [simp]: "parse_logging (dump_logging l) = Some l"
  by (simp add: parse_logging_def dump_logging_def model_fields del: p_list.simps p_level.simps)

lemma parse_dump_reporting:
  "pydantic_ok pd \<Longrightarrow> 1 \<le> rc_interval r \<Longrightarrow> parse_reporting pd (dump_reporting r) = Some r"
  by (simp add: parse_reporting_def dump_reporting_def model_fields pydantic_okD del: p_list.simps)

lemma p_opt_dump_generic [simp]:
  "p_opt parse_generic (case k of None \<Rightarrow> JNull | Some g \<Rightarrow> dump_generic g) = Some k"
proof (cases k)
  case (Some g)
  then show ?thesis using parse_dump_generic [of g] by (simp add: dump_generic_def)
qed simp

lemma p_opt_dump_transport [simp]:
  "p_opt parse_transport (case k of None \<Rightarrow> JNull | Some g \<Rightarrow> dump_transport g) = Some k"
proof (cases k)
  case (Some g)
  then show ?thesis using parse_dump_transport [of g] by (simp add: dump_transport_def)
qed simp

lemma parse_dump_pipeline_eq:
  "pydantic_ok pd \<Longrightarrow> parse_pipeline pd (dump_pipeline p) = Some p"
  by (simp add: parse_pipeline_def dump_pipeline_def dump_pipeline_fields_def model_fields pydantic_okD)

definition wf_agent_config :: "agent_config \<Rightarrow> bool" where
  "wf_agent_config c \<longleftrightarrow> 1 \<le> rc_interval (ac_reporting c)"

lemma parse_dump_agent_eq:
  assumes "pydantic_ok pd" "wf_agent_config c"
  shows "parse_agent_config pd (dump_agent_config c) = Some c"
proof -
  have "p_list (parse_pipeline pd) (JArr (map dump_pipeline (ac_pipelines c))) = Some (ac_pipelines c)"
    by (rule p_list_dump) (simp add: parse_dump_pipeline_eq assms)
  with assms show ?thesis
    by (simp add: parse_agent_config_def dump_agent_config_def dump_agent_fields_def model_fields
        pydantic_okD parse_dump_reporting wf_agent_config_def del: p_list.simps)
qed

lemma parse_reporting_interval: "parse_reporting pd j = Some r \<Longrightarrow> 1 \<le> rc_interval r"
  by (auto simp: parse_reporting_def model_fields split: bind_splits option.splits if_splits)

lemma parse_agent_config_wf: "parse_agent_config pd j = Some c \<Longrightarrow> wf_agent_config c"
  by (auto simp: parse_agent_config_def model_fields wf_agent_config_def default_reporting_def
      dest: parse_reporting_interval split: bind_splits option.splits)

lemma eq_generic_refl: "wf_json (JObj (gc_args g)) \<Longrightarrow> eq_generic g g"
  unfolding eq_generic_def using py_eq_refl by blast

definition wf_pipeline :: "pipeline_config \<Rightarrow> bool" where
  "wf_pipeline p \<longleftrightarrow> wf_json (JObj (gc_args (pc_source p))) \<and>
     (case pc_sink p of None \<Rightarrow> True | Some g \<Rightarrow> wf_json (JObj (gc_args g)))"

lemma eq_pipeline_refl: "wf_pipeline p \<Longrightarrow> eq_pipeline p p"
  by (auto simp: eq_pipeline_def wf_pipeline_def eq_generic_refl simp del: wf_json.simps py_eq.simps
      split: option.splits)

section \<open>Properties\<close>

text \<open>
  Serialisation round trip: for every configuration the schema accepts, constructing
  \<open>AgentConfig\<close> from \<open>model_dump()\<close> gives the same configuration back; hot reconfiguration and the
  session files rely on it.
\<close>

lemma agent_config_roundtrip:
  assumes "pydantic_ok pd" "parse_agent_config pd j = Some c"
  shows "parse_agent_config pd (dump_agent_config c) = Some c"
  using assms by (intro parse_dump_agent_eq) (auto dest: parse_agent_config_wf)

lemma agent_config_roundtrip_witness:
  "\<exists>c. parse_agent_config strict_pydantic
         (JObj [(''version'', JFloat ''2.1''), (''identity'', JObj [(''device_id'', JStr ''d'')])]) = Some c \<and>
       parse_agent_config strict_pydantic (dump_agent_config c) = Some c"
proof -
  obtain c where c: "parse_agent_config strict_pydantic
      (JObj [(''version'', JFloat ''2.1''), (''identity'', JObj [(''device_id'', JStr ''d'')])]) = Some c"
    by (simp add: parse_agent_config_def parse_identity_def model_fields strict_pydantic_def)
  with agent_config_roundtrip [OF strict_pydantic_ok c] show ?thesis by blast
qed

end
