(* ===== verification/Health_State.thy ===== *)
theory Health_State
  imports Models
begin

text \<open>
  The live state behind the loopback server, class \<open>HealthState\<close> of
  \<open>src/link/infra/health_server.py\<close>.  Clock values are nanoseconds of \<open>time.monotonic()\<close>; a progress
  percentage is a whole number, as every caller passes one.
\<close>

record deployment =
  dep_pipeline_id :: string
  dep_model_name :: "string option"
  dep_stage :: string
  dep_progress_pct :: int
  dep_created_at :: int

record health_state =
  hs_version :: string
  hs_boot_time :: int
  hs_currently_serving :: bool
  hs_model_id :: "string option"
  hs_transport_type :: "string option"
  hs_transport_endpoint :: "string option"
  hs_transport_connected :: bool
  hs_update_available :: bool
  hs_latest_version :: "string option"
  hs_deployments :: "(string, deployment) dict"

definition NANOS :: int where
  "NANOS = 1000000000"

definition QUEUED_TTL :: int where
  "QUEUED_TTL = 300 * NANOS"

definition init_health :: "string option \<Rightarrow> int \<Rightarrow> health_state" where
  "init_health version now =
     \<lparr>hs_version = (case version of None \<Rightarrow> ''unknown'' | Some v \<Rightarrow> if v = [] then ''unknown'' else v),
      hs_boot_time = now, hs_currently_serving = False, hs_model_id = None,
      hs_transport_type = None, hs_transport_endpoint = None, hs_transport_connected = False,
      hs_update_available = False, hs_latest_version = None, hs_deployments = []\<rparr>"

text \<open>The sweep of \<open>snapshot\<close>: a queued row older than the TTL fails.\<close>

definition age_deployment :: "int \<Rightarrow> deployment \<Rightarrow> deployment" where
  "age_deployment now dep =
     (if dep_stage dep = ''queued'' \<and> QUEUED_TTL < now - dep_created_at dep
      then dep\<lparr>dep_stage := ''failed'', dep_progress_pct := 0\<rparr> else dep)"

record health_snapshot =
  sn_version :: string
  sn_uptime_seconds :: int
  sn_currently_serving :: bool
  sn_model_id :: "string option"
  sn_transport :: "(string \<times> string option \<times> bool) option"
  sn_deployments :: "(string \<times> string option \<times> string \<times> int) list"
  sn_update_available :: bool
  sn_latest_version :: "string option"

definition health_snapshot_of :: "int \<Rightarrow> health_state \<Rightarrow> health_snapshot \<times> health_state" where
  "health_snapshot_of now hs =
     (let deps = map (\<lambda>(k, dep). (k, age_deployment now dep)) (hs_deployments hs) in
      (\<lparr>sn_version = hs_version hs,
        sn_uptime_seconds = (now - hs_boot_time hs) div NANOS,
        sn_currently_serving = hs_currently_serving hs,
        sn_model_id = hs_model_id hs,
        sn_transport = (case hs_transport_type hs of None \<Rightarrow> None
                        | Some t \<Rightarrow> Some (t, hs_transport_endpoint hs, hs_transport_connected hs)),
        sn_deployments = map (\<lambda>(k, dep). (dep_pipeline_id dep, dep_model_name dep, dep_stage dep,
                                          dep_progress_pct dep)) deps,
        sn_update_available = hs_update_available hs,
        sn_latest_version = hs_latest_version hs\<rparr>,
       hs\<lparr>hs_deployments := deps\<rparr>))"

definition set_update :: "bool \<Rightarrow> string option \<Rightarrow> health_state \<Rightarrow> health_state" where
  "set_update available latest hs = hs\<lparr>hs_update_available := available, hs_latest_version := latest\<rparr>"

definition set_serving :: "string option \<Rightarrow> health_state \<Rightarrow> health_state" where
  "set_serving model_id hs =
     (case model_id of
        None \<Rightarrow> hs\<lparr>hs_currently_serving := False, hs_model_id := None\<rparr>
      | Some m \<Rightarrow> hs\<lparr>hs_currently_serving := True, hs_model_id := Some m\<rparr>)"

definition set_deployment_progress ::
    "int \<Rightarrow> string \<Rightarrow> string \<Rightarrow> int \<Rightarrow> string option \<Rightarrow> health_state \<Rightarrow> health_state" where
  "set_deployment_progress now pipeline_id stage pct model_name hs =
     (if stage = ''completed''
      then hs\<lparr>hs_deployments := AList.delete pipeline_id (hs_deployments hs)\<rparr>
      else
        (let existing = map_of (hs_deployments hs) pipeline_id in
         if stage = ''queued'' \<and> (case existing of None \<Rightarrow> False | Some e \<Rightarrow> dep_stage e \<noteq> ''queued'') then hs
         else hs\<lparr>hs_deployments := AList.update pipeline_id
                \<lparr>dep_pipeline_id = pipeline_id,
                 dep_model_name =
                   (case model_name of
                      Some m \<Rightarrow> if m \<noteq> [] then Some m else Option.bind existing dep_model_name
                    | None \<Rightarrow> Option.bind existing dep_model_name),
                 dep_stage = stage, dep_progress_pct = pct,
                 dep_created_at = (case existing of None \<Rightarrow> now | Some e \<Rightarrow> dep_created_at e)\<rparr>
                (hs_deployments hs)\<rparr>))"

definition set_transport ::
    "string option \<Rightarrow> string option \<Rightarrow> bool \<Rightarrow> health_state \<Rightarrow> health_state" where
  "set_transport transport_type endpoint connected hs =
     hs\<lparr>hs_transport_type := transport_type, hs_transport_endpoint := endpoint,
        hs_transport_connected := connected\<rparr>"

text \<open>\<open>can_update\<close>: an absent or raising pre-flight (\<open>None\<close>) never blocks an update.\<close>

definition can_update :: "bool option \<Rightarrow> bool" where
  "can_update preflight = (case preflight of None \<Rightarrow> True | Some ok \<Rightarrow> ok)"

section \<open>Invariants\<close>

text \<open>The serving flag and the model id agree, and the deployment rows are filed under their own id.\<close>

definition health_inv :: "health_state \<Rightarrow> bool" where
  "health_inv hs \<longleftrightarrow>
     hs_currently_serving hs = (hs_model_id hs \<noteq> None) \<and>
     distinct (keys (hs_deployments hs)) \<and>
     list_all (\<lambda>(k, dep). dep_pipeline_id dep = k \<and> dep_stage dep \<noteq> ''completed'') (hs_deployments hs)"

lemma health_inv_init: "health_inv (init_health v now)"
  by (simp add: health_inv_def init_health_def)

lemma list_all_update:
  "list_all P d \<Longrightarrow> P (k, v) \<Longrightarrow> list_all P (AList.update k v d)"
  by (induction d) auto

lemma list_all_delete: "list_all P d \<Longrightarrow> list_all P (AList.delete k d)"
  by (simp add: list_all_iff AList.delete_eq)

lemma health_inv_serving [intro]: "health_inv hs \<Longrightarrow> health_inv (set_serving m hs)"
  by (auto simp: health_inv_def set_serving_def split: option.splits)

lemma health_inv_transport [intro]: "health_inv hs \<Longrightarrow> health_inv (set_transport t e c hs)"
  by (simp add: health_inv_def set_transport_def)

lemma health_inv_update [intro]: "health_inv hs \<Longrightarrow> health_inv (set_update a l hs)"
  by (simp add: health_inv_def set_update_def)

lemma health_inv_progress [intro]:
  "health_inv hs \<Longrightarrow> health_inv (set_deployment_progress now pid stage pct m hs)"
  by (auto simp: health_inv_def set_deployment_progress_def Let_def list_all_delete
      intro!: list_all_update distinct_update distinct_delete)

lemma health_inv_snapshot [intro]: "health_inv hs \<Longrightarrow> health_inv (snd (health_snapshot_of now hs))"
  by (auto simp: health_inv_def health_snapshot_of_def Let_def age_deployment_def list_all_iff
      case_prod_unfold comp_def)

lemma progress_get:
  assumes "stage \<noteq> ''completed''" "stage \<noteq> ''queued''"
  shows "map_option dep_stage (map_of (hs_deployments (set_deployment_progress now pid stage pct m hs)) pid) = Some stage"
  using assms by (simp add: set_deployment_progress_def Let_def py_dict)

lemma progress_other:
  "q \<noteq> pid \<Longrightarrow> map_of (hs_deployments (set_deployment_progress now pid stage pct m hs)) q =
     map_of (hs_deployments hs) q"
  by (auto simp: set_deployment_progress_def Let_def py_dict)

end
