(* ===== verification/Commands.thy ===== *)
theory Commands
  imports Models
begin

text \<open>
  The command contract of the control plane, \<open>src/link/config/commands.py\<close>: the union of the
  twelve command models, discriminated by their \<open>type\<close>, and \<open>parse_command\<close>.  Unlike the
  configuration models, a command forbids unknown fields.
\<close>

record deploy_command =
  dc_id :: string
  dc_pipeline_id :: string
  dc_model_name :: string
  dc_config :: pipeline_config

record serving_command =
  sv_id :: string
  sv_pipeline_id :: string
  sv_port :: int
  sv_host :: string
  sv_model_display_name :: string

record uninstall_command =
  un_id :: string
  un_pipeline_id :: string
  un_force_stop :: bool
  un_filename_on_server :: "string option"
  un_file_extension :: "string option"

text \<open>
  The constructors whose model has only \<open>id\<close> and \<open>pipeline_id\<close>, or those and a \<open>config\<close>, carry
  their fields in that order.
\<close>

datatype command =
    DeployModel deploy_command
  | CancelDeploy string string
  | StartModel string string pipeline_config
  | StartModelInference string string
  | StopModelInference string string
  | StartServing serving_command
  | StopServing string string
  | UninstallModel uninstall_command
  | UpdatePipeline string string pipeline_config
  | Status string
  | UpdateAgent string
  | UpdateAgentConfig string agent_config

fun cmd_id :: "command \<Rightarrow> string" where
  "cmd_id (DeployModel c) = dc_id c"
| "cmd_id (CancelDeploy i _) = i"
| "cmd_id (StartModel i _ _) = i"
| "cmd_id (StartModelInference i _) = i"
| "cmd_id (StopModelInference i _) = i"
| "cmd_id (StartServing c) = sv_id c"
| "cmd_id (StopServing i _) = i"
| "cmd_id (UninstallModel c) = un_id c"
| "cmd_id (UpdatePipeline i _ _) = i"
| "cmd_id (Status i) = i"
| "cmd_id (UpdateAgent i) = i"
| "cmd_id (UpdateAgentConfig i _) = i"

text \<open>\<open>extra="forbid"\<close>: the keys of the input are among the declared fields.\<close>

definition only_fields :: "jdict \<Rightarrow> string list \<Rightarrow> bool" where
  "only_fields d fs \<longleftrightarrow> list_all (\<lambda>k. k \<in> set fs) (keys d)"

definition envelope :: "jdict \<Rightarrow> string list \<Rightarrow> string option" where
  "envelope d fs =
     (if only_fields d ([''id'', ''type''] @ fs) then req_field d ''id'' p_str else None)"

definition parse_deploy :: "pydantic \<Rightarrow> jdict \<Rightarrow> command option" where
  "parse_deploy pd d = do {
     i \<leftarrow> envelope d [''pipeline_id'', ''model_name'', ''config''];
     p \<leftarrow> req_field d ''pipeline_id'' p_str;
     m \<leftarrow> req_field d ''model_name'' p_str;
     c \<leftarrow> req_field d ''config'' (parse_pipeline pd);
     Some (DeployModel \<lparr>dc_id = i, dc_pipeline_id = p, dc_model_name = m, dc_config = c\<rparr>)
   }"

definition parse_pid :: "(string \<Rightarrow> string \<Rightarrow> command) \<Rightarrow> jdict \<Rightarrow> command option" where
  "parse_pid con d = do {
     i \<leftarrow> envelope d [''pipeline_id''];
     p \<leftarrow> req_field d ''pipeline_id'' p_str;
     Some (con i p)
   }"

definition parse_pid_config ::
    "pydantic \<Rightarrow> (string \<Rightarrow> string \<Rightarrow> pipeline_config \<Rightarrow> command) \<Rightarrow> jdict \<Rightarrow> command option" where
  "parse_pid_config pd con d = do {
     i \<leftarrow> envelope d [''pipeline_id'', ''config''];
     p \<leftarrow> req_field d ''pipeline_id'' p_str;
     c \<leftarrow> req_field d ''config'' (parse_pipeline pd);
     Some (con i p c)
   }"

definition parse_serving :: "pydantic \<Rightarrow> jdict \<Rightarrow> command option" where
  "parse_serving pd d = do {
     i \<leftarrow> envelope d [''pipeline_id'', ''port'', ''host'', ''model_display_name''];
     p \<leftarrow> req_field d ''pipeline_id'' p_str;
     port \<leftarrow> opt_field d ''port'' 8100 (pd_int pd);
     host \<leftarrow> opt_field d ''host'' ''0.0.0.0'' p_str;
     n \<leftarrow> opt_field d ''model_display_name'' ''locai-model'' p_str;
     Some (StartServing \<lparr>sv_id = i, sv_pipeline_id = p, sv_port = port, sv_host = host,
                         sv_model_display_name = n\<rparr>)
   }"

definition parse_uninstall :: "pydantic \<Rightarrow> jdict \<Rightarrow> command option" where
  "parse_uninstall pd d = do {
     i \<leftarrow> envelope d [''pipeline_id'', ''force_stop'', ''filename_on_server'', ''file_extension''];
     p \<leftarrow> req_field d ''pipeline_id'' p_str;
     fs \<leftarrow> opt_field d ''force_stop'' False (pd_bool pd);
     fn \<leftarrow> opt_field d ''filename_on_server'' None of_jopt;
     fe \<leftarrow> opt_field d ''file_extension'' None of_jopt;
     Some (UninstallModel \<lparr>un_id = i, un_pipeline_id = p, un_force_stop = fs,
                           un_filename_on_server = fn, un_file_extension = fe\<rparr>)
   }"

definition parse_bare :: "(string \<Rightarrow> command) \<Rightarrow> jdict \<Rightarrow> command option" where
  "parse_bare con d = map_option con (envelope d [])"

definition parse_update_config :: "pydantic \<Rightarrow> jdict \<Rightarrow> command option" where
  "parse_update_config pd d = do {
     i \<leftarrow> envelope d [''agent_config''];
     c \<leftarrow> req_field d ''agent_config'' (parse_agent_config pd);
     Some (UpdateAgentConfig i c)
   }"

text \<open>The variant that the discriminator selects; an unknown or missing tag is an error.\<close>

definition command_parsers :: "pydantic \<Rightarrow> (string \<times> (jdict \<Rightarrow> command option)) list" where
  "command_parsers pd =
     [(''DEPLOY_MODEL'', parse_deploy pd),
      (''CANCEL_DEPLOY'', parse_pid CancelDeploy),
      (''START_MODEL'', parse_pid_config pd StartModel),
      (''START_MODEL_INFERENCE'', parse_pid StartModelInference),
      (''STOP_MODEL_INFERENCE'', parse_pid StopModelInference),
      (''START_SERVING'', parse_serving pd),
      (''STOP_SERVING'', parse_pid StopServing),
      (''UNINSTALL_MODEL'', parse_uninstall pd),
      (''UPDATE_PIPELINE'', parse_pid_config pd UpdatePipeline),
      (''STATUS'', parse_bare Status),
      (''UPDATE_AGENT'', parse_bare UpdateAgent),
      (''UPDATE_AGENT_CONFIG'', parse_update_config pd)]"

definition parse_command :: "pydantic \<Rightarrow> json \<Rightarrow> command option" where
  "parse_command pd raw = do {
     d \<leftarrow> p_dict raw;
     t \<leftarrow> req_field d ''type'' p_str;
     p \<leftarrow> map_of (command_parsers pd) t;
     p d
   }"

section \<open>The wire form of a command\<close>

fun command_type :: "command \<Rightarrow> string" where
  "command_type (DeployModel _) = ''DEPLOY_MODEL''"
| "command_type (CancelDeploy _ _) = ''CANCEL_DEPLOY''"
| "command_type (StartModel _ _ _) = ''START_MODEL''"
| "command_type (StartModelInference _ _) = ''START_MODEL_INFERENCE''"
| "command_type (StopModelInference _ _) = ''STOP_MODEL_INFERENCE''"
| "command_type (StartServing _) = ''START_SERVING''"
| "command_type (StopServing _ _) = ''STOP_SERVING''"
| "command_type (UninstallModel _) = ''UNINSTALL_MODEL''"
| "command_type (UpdatePipeline _ _ _) = ''UPDATE_PIPELINE''"
| "command_type (Status _) = ''STATUS''"
| "command_type (UpdateAgent _) = ''UPDATE_AGENT''"
| "command_type (UpdateAgentConfig _ _) = ''UPDATE_AGENT_CONFIG''"

text \<open>The declared fields of a variant beside \<open>id\<close> and \<open>type\<close>, and their values.\<close>

fun command_fields :: "command \<Rightarrow> jdict" where
  "command_fields (DeployModel c) =
     [(''pipeline_id'', JStr (dc_pipeline_id c)), (''model_name'', JStr (dc_model_name c)),
      (''config'', dump_pipeline (dc_config c))]"
| "command_fields (CancelDeploy _ p) = [(''pipeline_id'', JStr p)]"
| "command_fields (StartModel _ p c) = [(''pipeline_id'', JStr p), (''config'', dump_pipeline c)]"
| "command_fields (StartModelInference _ p) = [(''pipeline_id'', JStr p)]"
| "command_fields (StopModelInference _ p) = [(''pipeline_id'', JStr p)]"
| "command_fields (StartServing c) =
     [(''pipeline_id'', JStr (sv_pipeline_id c)), (''port'', JInt (sv_port c)), (''host'', JStr (sv_host c)),
      (''model_display_name'', JStr (sv_model_display_name c))]"
| "command_fields (StopServing _ p) = [(''pipeline_id'', JStr p)]"
| "command_fields (UninstallModel c) =
     [(''pipeline_id'', JStr (un_pipeline_id c)), (''force_stop'', JBool (un_force_stop c)),
      (''filename_on_server'', jopt (un_filename_on_server c)), (''file_extension'', jopt (un_file_extension c))]"
| "command_fields (UpdatePipeline _ p c) = [(''pipeline_id'', JStr p), (''config'', dump_pipeline c)]"
| "command_fields (Status _) = []"
| "command_fields (UpdateAgent _) = []"
| "command_fields (UpdateAgentConfig _ c) = [(''agent_config'', dump_agent_config c)]"

definition command_wire :: "command \<Rightarrow> jdict" where
  "command_wire c = [(''id'', JStr (cmd_id c)), (''type'', JStr (command_type c))] @ command_fields c"

fun wf_command :: "command \<Rightarrow> bool" where
  "wf_command (UpdateAgentConfig _ c) = wf_agent_config c"
| "wf_command _ = True"

section \<open>Facts\<close>

lemmas command_parse_defs =
  parse_deploy_def parse_pid_def parse_pid_config_def parse_serving_def parse_uninstall_def
  parse_bare_def parse_update_config_def envelope_def only_fields_def model_fields

lemma envelope_only_fields: "envelope d fs = Some i \<Longrightarrow> only_fields d ([''id'', ''type''] @ fs)"
  by (simp add: envelope_def split: if_splits)

lemma parse_command_wire_eq:
  assumes "pydantic_ok pd" "wf_command c"
  shows "parse_command pd (JObj (command_wire c)) = Some c"
  using assms
  by (cases c)
    (simp_all add: parse_command_def command_wire_def command_parsers_def command_parse_defs
      parse_dump_pipeline_eq parse_dump_agent_eq pydantic_okD)

text \<open>Every parser passes through \<open>envelope\<close>, so an unknown field is refused by all of them.\<close>

lemma parser_fields:
  assumes "p \<in> snd ` set (command_parsers pd)" "p d = Some c"
  shows "only_fields d ([''id'', ''type''] @ keys (command_fields c))"
  using assms
  by (auto simp: command_parsers_def parse_deploy_def parse_pid_def parse_pid_config_def
      parse_serving_def parse_uninstall_def parse_bare_def parse_update_config_def
      split: bind_splits dest!: envelope_only_fields)

lemma parser_id:
  assumes "p \<in> snd ` set (command_parsers pd)" "p d = Some c"
  shows "map_of d ''id'' = Some (JStr (cmd_id c))"
proof -
  have "envelope d fs = Some i \<Longrightarrow> map_of d ''id'' = Some (JStr i)" for fs i
    by (auto simp: envelope_def req_field_def split: if_splits option.splits elim!: p_str.elims)
  with assms show ?thesis
    by (auto simp: command_parsers_def parse_deploy_def parse_pid_def parse_pid_config_def
      parse_serving_def parse_uninstall_def parse_bare_def parse_update_config_def
      split: bind_splits)
qed

lemma parse_command_parser:
  assumes "parse_command pd (JObj d) = Some c"
  obtains p where "p \<in> snd ` set (command_parsers pd)" "p d = Some c"
  using assms unfolding parse_command_def
  by (force split: bind_splits dest!: map_of_SomeD)

section \<open>Properties\<close>

text \<open>
  The command contract: every command of the union is recovered by \<open>parse_command\<close> from its
  wire form, so no two variants are confused and no field is lost.
\<close>

lemma command_roundtrip:
  assumes "pydantic_ok pd" "wf_command c"
  shows "parse_command pd (JObj (command_wire c)) = Some c"
  using assms by (rule parse_command_wire_eq)

lemma command_roundtrip_witness:
  "parse_command strict_pydantic (JObj (command_wire (CancelDeploy ''c1'' ''p1''))) = Some (CancelDeploy ''c1'' ''p1'')"
  using command_roundtrip [OF strict_pydantic_ok, of "CancelDeploy ''c1'' ''p1''"] by simp

text \<open>
  No silent drops: a command that \<open>parse_command\<close> accepts carries only the fields its variant
  declares, and the id of the typed command is the string the wire carried, so the status updates
  echo it.
\<close>

lemma parse_command_strict:
  assumes "parse_command pd (JObj d) = Some c"
  shows "set (keys d) \<subseteq> set ([''id'', ''type''] @ keys (command_fields c)) \<and>
         map_of d ''id'' = Some (JStr (cmd_id c))"
proof -
  from assms obtain p where p: "p \<in> snd ` set (command_parsers pd)" "p d = Some c"
    by (rule parse_command_parser)
  from parser_fields [OF p] have "set (keys d) \<subseteq> set ([''id'', ''type''] @ keys (command_fields c))"
    by (auto simp: only_fields_def list_all_iff)
  with parser_id [OF p] show ?thesis by blast
qed

lemma parse_command_strict_witness:
  "set (keys (command_wire (StopServing ''c'' ''p''))) \<subseteq> set ([''id'', ''type''] @ keys (command_fields (StopServing ''c'' ''p''))) \<and>
   map_of (command_wire (StopServing ''c'' ''p'')) ''id'' = Some (JStr ''c'')"
  using parse_command_strict [OF parse_command_wire_eq [OF strict_pydantic_ok, of "StopServing ''c'' ''p''"]]
  by simp

end
