(* ===== verification/Urls.thy ===== *)
theory Urls
  imports Json
begin

text \<open>
  The pieces of Python's \<open>int()\<close> and \<open>urllib.parse\<close> that the request handlers rely on.  Header values
  reach the code as ISO-8859-1 text, so a string of code points below 256 is all there is.
\<close>

section \<open>Integers from text\<close>

definition is_digit :: "char \<Rightarrow> bool" where
  "is_digit c = (let n = of_char c :: nat in 48 \<le> n \<and> n \<le> 57)"

definition digit_value :: "char \<Rightarrow> nat" where
  "digit_value c = of_char c - 48"

text \<open>Digits with single underscores between them; the flag says whether a digit was just read.\<close>

fun digits_from :: "nat \<Rightarrow> bool \<Rightarrow> string \<Rightarrow> nat option" where
  "digits_from acc prev [] = (if prev then Some acc else None)"
| "digits_from acc prev (c # s) =
     (if is_digit c then digits_from (10 * acc + digit_value c) True s
      else if c = CHR ''_'' \<and> prev then digits_from acc False s
      else None)"

text \<open>\<open>int(s)\<close>: \<open>None\<close> is the \<open>ValueError\<close>, also raised beyond 4300 digits.\<close>

definition py_int :: "string \<Rightarrow> int option" where
  "py_int s =
     (let t = py_strip s in
      if 4300 < length (filter is_digit t) then None
      else case t of
        [] \<Rightarrow> None
      | c # r \<Rightarrow>
          if c = CHR ''-'' then map_option (\<lambda>n. - int n) (digits_from 0 False r)
          else if c = CHR ''+'' then map_option int (digits_from 0 False r)
          else map_option int (digits_from 0 False t))"

text \<open>Decimal notation is read back; the digits are only digits.\<close>

lemma digit_char_digit:
  assumes "d < 10"
  shows "is_digit (digit_char d)" "digit_value (digit_char d) = d"
  using assms by (simp_all add: is_digit_def digit_value_def digit_char_def Let_def)

lemma show_nat_digits: "list_all is_digit (show_nat n)"
proof (induction n rule: show_nat.induct)
  case (1 n)
  then show ?case by (subst show_nat.simps) (auto simp: digit_char_digit)
qed

lemma show_nat_not_Nil [simp]: "show_nat n \<noteq> []"
  by (subst show_nat.simps) simp

lemma digits_from_append_digit:
  "digits_from acc True s = Some k \<Longrightarrow> d < 10 \<Longrightarrow> digits_from acc True (s @ [digit_char d]) = Some (10 * k + d)"
  "digits_from acc False s = Some k \<Longrightarrow> d < 10 \<Longrightarrow> digits_from acc False (s @ [digit_char d]) = Some (10 * k + d)"
proof (induction s arbitrary: acc)
  case Nil
  { case 1 with digit_char_digit show ?case by simp }
  { case 2 then show ?case by simp }
next
  case (Cons c s)
  { case 1 with Cons.IH show ?case by (auto split: if_splits) }
  { case 2 with Cons.IH show ?case by (auto split: if_splits) }
qed

lemma digits_show_nat: "digits_from 0 False (show_nat n) = Some n"
proof (induction n rule: show_nat.induct)
  case (1 n)
  show ?case
  proof (cases "n < 10")
    case True
    with digit_char_digit [of n] show ?thesis by (simp add: show_nat.simps [of n])
  next
    case False
    with digits_from_append_digit(2) [OF 1 [OF False], of "n mod 10"] show ?thesis
      by (simp add: show_nat.simps [of n])
  qed
qed

lemma show_nat_inject [simp]: "show_nat m = show_nat n \<longleftrightarrow> m = n"
  by (metis digits_show_nat option.inject)

lemma length_show_nat: "n < 10 ^ Suc k \<Longrightarrow> length (show_nat n) \<le> Suc k"
proof (induction k arbitrary: n)
  case 0
  then show ?case by (simp add: show_nat.simps [of n])
next
  case (Suc k)
  then have "n div 10 < 10 ^ Suc k" by (simp add: less_mult_imp_div_less)
  with Suc.IH [of "n div 10"] show ?case by (subst show_nat.simps) auto
qed

lemma digit_not_space: "is_digit c \<Longrightarrow> \<not> is_space c \<and> c \<noteq> CHR ''-'' \<and> c \<noteq> CHR ''+''"
  by (auto simp: is_digit_def is_space_def Let_def)

lemma dropWhile_none: "list_all (\<lambda>c. \<not> P c) s \<Longrightarrow> dropWhile P s = s"
  by (cases s) auto

lemma strip_digits: "list_all is_digit s \<Longrightarrow> py_strip s = s"
  using dropWhile_none [of is_space s] dropWhile_none [of is_space "rev s"] digit_not_space
  by (simp add: strip_by_def list_all_iff)

lemma py_int_show_nat:
  assumes "length (show_nat n) \<le> 4300"
  shows "py_int (show_nat n) = Some (int n)"
proof -
  obtain c r where cr: "show_nat n = c # r" by (cases "show_nat n") auto
  with show_nat_digits [of n] digit_not_space [of c] have sign: "c \<noteq> CHR ''-''" "c \<noteq> CHR ''+''" by auto
  have "\<not> 4300 < length (filter is_digit (show_nat n))"
    using assms length_filter_le [of is_digit "show_nat n"] by linarith
  with sign cr strip_digits [OF show_nat_digits, of n] digits_show_nat [of n] show ?thesis
    by (simp add: py_int_def Let_def del: digits_from.simps)
qed

lemma show_int_inject [simp]: "show_int i = show_int j \<longleftrightarrow> i = j"
proof -
  have "hd (show_nat n) \<noteq> CHR ''-''" for n
    using show_nat_digits [of n] digit_not_space by (cases "show_nat n") auto
  then show ?thesis
    by (auto simp: show_int_def) (metis list.sel(1))+
qed

section \<open>Integers from JSON values\<close>

text \<open>
  \<open>int(x)\<close> of a float, from its \<open>repr\<close>.  Without an exponent the digits before the point are the
  integral part; a negative exponent is a value below one; a positive one is a decimal of at most 17
  digits whose nearest double (53 bits, ties to even) is the float.  Infinities and NaN raise.
\<close>

function double_shift :: "int \<Rightarrow> nat" where
  "double_shift v = (if v < 9007199254740992 then 0 else Suc (double_shift (v div 2)))"
  by auto
termination
  by (relation "measure nat") auto

declare double_shift.simps [simp del]

definition nearest_double :: "int \<Rightarrow> int" where
  "nearest_double v =
     (let s = double_shift v; q = v div 2 ^ s; r = v mod 2 ^ s in
      if s = 0 then v
      else if 2 ^ (s - 1) < r \<or> (r = 2 ^ (s - 1) \<and> odd q) then (q + 1) * 2 ^ s
      else q * 2 ^ s)"

definition float_int :: "string \<Rightarrow> int option" where
  "float_int f =
     (let neg = startswith f ''-''; g = (if neg then drop 1 f else f);
          mant = takeWhile (\<lambda>c. c \<noteq> CHR ''e'') g; ex = drop (Suc (length mant)) g;
          ip = takeWhile (\<lambda>c. c \<noteq> CHR ''.'') mant; fp = drop (Suc (length ip)) mant;
          sgn = (\<lambda>i. if neg then - i else i) in
      if ex = [] then map_option sgn (py_int ip)
      else if startswith ex ''-'' then Some 0
      else case (py_int (ip @ fp), py_int ex) of
             (Some d, Some e) \<Rightarrow> Some (sgn (nearest_double (d * 10 ^ (nat e - length fp))))
           | _ \<Rightarrow> None)"

text \<open>\<open>int(v)\<close> of a JSON value.\<close>

fun json_int :: "json \<Rightarrow> int option" where
  "json_int (JInt i) = Some i"
| "json_int (JBool b) = Some (if b then 1 else 0)"
| "json_int (JStr s) = py_int s"
| "json_int (JFloat f) = float_int f"
| "json_int _ = None"

section \<open>Host names of URLs\<close>

definition is_alpha :: "char \<Rightarrow> bool" where
  "is_alpha c = (let n = of_char c :: nat in (65 \<le> n \<and> n \<le> 90) \<or> (97 \<le> n \<and> n \<le> 122))"

definition is_scheme_char :: "char \<Rightarrow> bool" where
  "is_scheme_char c = (is_alpha c \<or> is_digit c \<or> c \<in> set ''+-.'')"

definition strip_scheme :: "string \<Rightarrow> string" where
  "strip_scheme url =
     (let pre = takeWhile (\<lambda>c. c \<noteq> CHR '':'') url; rest = dropWhile (\<lambda>c. c \<noteq> CHR '':'') url in
      if rest \<noteq> [] \<and> pre \<noteq> [] \<and> is_alpha (hd pre) \<and> list_all is_scheme_char pre then tl rest else url)"

text \<open>\<open>urlsplit(url).netloc\<close>.\<close>

definition url_netloc :: "string \<Rightarrow> string" where
  "url_netloc url =
     (let u = dropWhile (\<lambda>c. (of_char c :: nat) \<le> 32) url;
          v = filter (\<lambda>c. c \<noteq> CHR 0x09 \<and> c \<noteq> chr_nl \<and> c \<noteq> chr_cr) u;
          w = strip_scheme v in
      if startswith w ''//'' then takeWhile (\<lambda>c. c \<notin> set ''/?#'') (drop 2 w) else [])"

definition after_last :: "char \<Rightarrow> string \<Rightarrow> string" where
  "after_last c s = rev (takeWhile (\<lambda>x. x \<noteq> c) (rev s))"

text \<open>
  \<open>(urlparse(url).hostname or "").lower()\<close>.  \<open>None\<close> is a \<open>ValueError\<close>; it also stands for every net
  location with a square bracket, for which Python either raises or yields an IPv6 or future-version
  literal, never a dotted IPv4 address and never a name.
\<close>

definition url_hostname :: "string \<Rightarrow> string option" where
  "url_hostname url =
     (let netloc = url_netloc url in
      if CHR ''['' \<in> set netloc \<or> CHR '']'' \<in> set netloc then None
      else Some (py_lower (takeWhile (\<lambda>c. c \<noteq> CHR '':'') (after_last (CHR ''@'') netloc))))"

text \<open>The origin a browser serialises: scheme, host and an optional port.\<close>

definition serialized_origin :: "string \<Rightarrow> string \<Rightarrow> string option \<Rightarrow> string" where
  "serialized_origin scheme host port =
     scheme @ ''://'' @ host @ (case port of None \<Rightarrow> [] | Some p \<Rightarrow> '':'' @ p)"

definition plain_host :: "string \<Rightarrow> bool" where
  "plain_host h = list_all (\<lambda>c. is_alpha c \<or> is_digit c \<or> c = CHR ''-'' \<or> c = CHR ''.'') h"

lemma takeWhile_all_append: "list_all P xs \<Longrightarrow> takeWhile P (xs @ ys) = xs @ takeWhile P ys"
  by (induction xs) auto

lemma after_last_none: "c \<notin> set s \<Longrightarrow> after_last c s = s"
proof -
  assume "c \<notin> set s"
  then have "takeWhile (\<lambda>x. x \<noteq> c) (rev s) = rev s"
    by (auto simp: takeWhile_eq_all_conv)
  then show ?thesis unfolding after_last_def by (simp only: rev_rev_ident)
qed

text \<open>Characters of a scheme, a plain host or a port are none of the delimiters.\<close>

lemma scheme_char_other:
  assumes "is_scheme_char c"
  shows "c \<notin> set '':/?#@[]'' \<and> 32 < (of_char c :: nat) \<and> c \<notin> {CHR 0x09, CHR 0x0A, CHR 0x0D}"
  using assms by (auto simp: is_alpha_def is_digit_def is_scheme_char_def Let_def)

lemma plain_host_scheme: "plain_host h \<Longrightarrow> list_all is_scheme_char h"
  by (auto simp: plain_host_def is_scheme_char_def list_all_iff)

lemma digits_scheme: "list_all is_digit h \<Longrightarrow> list_all is_scheme_char h"
  by (auto simp: is_scheme_char_def list_all_iff)

lemma takeWhile_scheme_chars:
  assumes "list_all is_scheme_char xs" "\<And>c. is_scheme_char c \<Longrightarrow> P c"
  shows "takeWhile P (xs @ ys) = xs @ takeWhile P ys"
  using assms by (intro takeWhile_all_append) (auto simp: list_all_iff)

lemma takeWhile_scheme_all:
  assumes "list_all is_scheme_char xs" "\<And>c. is_scheme_char c \<Longrightarrow> P c"
  shows "takeWhile P xs = xs"
  using takeWhile_scheme_chars [where ys = "[]", OF assms] by simp

lemma dropWhile_scheme_chars:
  assumes "list_all is_scheme_char xs" "\<And>c. is_scheme_char c \<Longrightarrow> P c"
  shows "dropWhile P (xs @ ys) = dropWhile P ys"
  using assms by (induction xs) auto

lemma strip_scheme_origin:
  assumes "list_all is_scheme_char s" "s \<noteq> []" "is_alpha (hd s)"
  shows "strip_scheme (s @ CHR '':'' # r) = r"
proof -
  have "takeWhile (\<lambda>c. c \<noteq> CHR '':'') (s @ CHR '':'' # r) = s"
       "dropWhile (\<lambda>c. c \<noteq> CHR '':'') (s @ CHR '':'' # r) = CHR '':'' # r"
    using takeWhile_scheme_chars [OF assms(1), of "\<lambda>c. c \<noteq> CHR '':''" "CHR '':'' # r"]
      dropWhile_scheme_chars [OF assms(1), of "\<lambda>c. c \<noteq> CHR '':''" "CHR '':'' # r"] scheme_char_other
    by auto
  then show ?thesis using assms by (simp add: strip_scheme_def)
qed

lemma filter_scheme_chars:
  assumes "list_all is_scheme_char xs"
  shows "filter (\<lambda>c. c \<noteq> CHR 0x09 \<and> c \<noteq> CHR 0x0A \<and> c \<noteq> CHR 0x0D) xs = xs"
  using assms scheme_char_other by (auto simp: list_all_iff intro!: filter_True)

definition origin_ok :: "string \<Rightarrow> string \<Rightarrow> string option \<Rightarrow> bool" where
  "origin_ok scheme host port =
     (scheme \<noteq> [] \<and> is_alpha (hd scheme) \<and> list_all is_scheme_char scheme \<and> plain_host host \<and>
      (case port of None \<Rightarrow> True | Some p \<Rightarrow> list_all is_digit p))"

lemma url_netloc_origin:
  assumes "origin_ok scheme host port"
  shows "url_netloc (serialized_origin scheme host port) =
           host @ (case port of None \<Rightarrow> [] | Some p \<Rightarrow> '':'' @ p)"
proof -
  let ?tail = "case port of None \<Rightarrow> [] | Some p \<Rightarrow> '':'' @ p"
  let ?keep = "\<lambda>c. c \<noteq> CHR 0x09 \<and> c \<noteq> CHR 0x0A \<and> c \<noteq> CHR 0x0D"
  from assms have s: "list_all is_scheme_char scheme" "scheme \<noteq> []" "is_alpha (hd scheme)"
    and h: "list_all is_scheme_char host"
    and p: "\<And>q. port = Some q \<Longrightarrow> list_all is_scheme_char q"
    by (auto simp: origin_ok_def dest: plain_host_scheme digits_scheme)
  have url: "serialized_origin scheme host port = scheme @ CHR '':'' # ''//'' @ host @ ?tail"
    by (simp add: serialized_origin_def)
  obtain c cs where c: "scheme = c # cs" using s(2) by (cases scheme) auto
  with s(1) have "is_scheme_char c" by simp
  then have "32 < (of_char c :: nat)" by (simp add: scheme_char_other)
  then have 1: "dropWhile (\<lambda>c. (of_char c :: nat) \<le> 32) (serialized_origin scheme host port) =
               serialized_origin scheme host port"
    by (simp add: serialized_origin_def c)
  have tail: "filter ?keep ?tail = ?tail"
    by (cases port) (auto simp: filter_scheme_chars p)
  have 2: "filter ?keep (serialized_origin scheme host port) = serialized_origin scheme host port"
    unfolding url filter_append filter.simps tail filter_scheme_chars [OF s(1)] filter_scheme_chars [OF h]
    by simp
  have P: "c \<notin> set ''/?#''" if "is_scheme_char c" for c
    using scheme_char_other [OF that] by simp
  have tail_all: "takeWhile (\<lambda>c. c \<notin> set ''/?#'') ?tail = ?tail"
  proof (cases port)
    case (Some q)
    have "takeWhile (\<lambda>c. c \<notin> set ''/?#'') q = q"
      by (rule takeWhile_scheme_all [OF p [OF Some] P])
    with Some show ?thesis by simp
  qed simp
  have 3: "takeWhile (\<lambda>c. c \<notin> set ''/?#'') (host @ ?tail) = host @ ?tail"
    using takeWhile_scheme_chars [where P = "\<lambda>c. c \<notin> set ''/?#''" and ys = ?tail, OF h P] tail_all
    by (simp only:)
  show ?thesis
    unfolding url_netloc_def Let_def 1 2 unfolding url strip_scheme_origin [OF s] using 3 by simp
qed

lemma url_hostname_origin:
  assumes "origin_ok scheme host port"
  shows "url_hostname (serialized_origin scheme host port) = Some (py_lower host)"
proof -
  let ?tail = "case port of None \<Rightarrow> [] | Some p \<Rightarrow> '':'' @ p"
  from assms have h: "list_all is_scheme_char host"
    and p: "\<And>q. port = Some q \<Longrightarrow> list_all is_scheme_char q"
    by (auto simp: origin_ok_def dest: plain_host_scheme digits_scheme)
  have no: "CHR ''['' \<notin> set (host @ ?tail)" "CHR '']'' \<notin> set (host @ ?tail)" "CHR ''@'' \<notin> set (host @ ?tail)"
    using h p scheme_char_other by (auto simp: list_all_iff split: option.splits)
  have "takeWhile (\<lambda>c. c \<noteq> CHR '':'') (host @ ?tail) = host"
    using takeWhile_scheme_chars [OF h, of "\<lambda>c. c \<noteq> CHR '':''" ?tail] scheme_char_other
    by (auto split: option.splits)
  with no show ?thesis
    by (simp add: url_hostname_def url_netloc_origin [OF assms] after_last_none)
qed

end
