(* ===== verification/Health_Server.thy ===== *)
theory Health_Server
  imports Health_State Commands Urls
begin

text \<open>
  The loopback HTTP server, \<open>_make_handler\<close> and \<open>HealthServer\<close> of \<open>src/link/infra/health_server.py\<close>.

  A request carries the headers the handler reads and what \<open>json.loads\<close> makes of the body
  (\<open>None\<close>: it does not decode).  The wiring is what the runtime passes to \<open>HealthState\<close>: the models
  provider, the command handler (for which the model records whether it raises on a command) and
  the update pre-flight.  A handler returns its response, the new health state and the commands it
  dispatched; \<open>Inl\<close> is an exception that escapes the handler, after which the server drops the
  connection.
\<close>

record request =
  rq_path :: string
  rq_host :: "string option"
  rq_origin :: "string option"
  rq_content_length :: "string option"
  rq_body :: "json option"

record wiring =
  wr_models :: "jdict list option"
  wr_handler :: "(json \<Rightarrow> bool) option"
  wr_preflight :: "bool option"
  wr_uuid :: string

datatype response =
    Reply nat "json option"
  | SendError nat string

type_synonym outcome = "(py_error + response) \<times> health_state \<times> json list"

definition LOOPBACK_HOSTS :: "string list" where
  "LOOPBACK_HOSTS = [''127.0.0.1'', ''localhost'']"

definition check_loopback :: "request \<Rightarrow> response option" where
  "check_loopback rq =
     (let host = hd (split_char (CHR '':'') (py_lower (case rq_host rq of None \<Rightarrow> [] | Some h \<Rightarrow> h))) in
      if host \<notin> set LOOPBACK_HOSTS then Some (SendError 403 ''Non-loopback Host header'')
      else case rq_origin rq of
        None \<Rightarrow> None
      | Some origin \<Rightarrow>
          let origin_host = (case url_hostname origin of None \<Rightarrow> [] | Some h \<Rightarrow> h) in
          if origin_host \<notin> set LOOPBACK_HOSTS then Some (SendError 403 ''Non-loopback Origin'') else None)"

section \<open>GET\<close>

definition snapshot_body :: "health_snapshot \<Rightarrow> json" where
  "snapshot_body s = JObj
     [(''version'', JStr (sn_version s)), (''uptime_seconds'', JInt (sn_uptime_seconds s)),
      (''currently_serving'', JBool (sn_currently_serving s)), (''model_id'', jopt (sn_model_id s)),
      (''transport'',
         case sn_transport s of None \<Rightarrow> JNull
         | Some (t, e, c) \<Rightarrow> JObj [(''type'', JStr t), (''endpoint'', jopt e), (''connected'', JBool c)]),
      (''deployments'',
         JArr (map (\<lambda>(p, m, st, pct). JObj
           [(''pipeline_id'', JStr p), (''model_name'', jopt m), (''stage'', JStr st),
            (''progress_pct'', JFloat (show_int pct @ ''.0''))]) (sn_deployments s))),
      (''update_available'', JBool (sn_update_available s)), (''latest_version'', jopt (sn_latest_version s))]"

definition provided_models :: "wiring \<Rightarrow> jdict list" where
  "provided_models w = (case wr_models w of None \<Rightarrow> [] | Some ms \<Rightarrow> ms)"

definition do_GET :: "wiring \<Rightarrow> int \<Rightarrow> request \<Rightarrow> health_state \<Rightarrow> outcome" where
  "do_GET w now rq hs =
     (case check_loopback rq of
        Some r \<Rightarrow> (Inr r, hs, [])
      | None \<Rightarrow>
          if rq_path rq = ''/healthz'' then
            (let (s, hs') = health_snapshot_of now hs in (Inr (Reply 200 (Some (snapshot_body s))), hs', []))
          else if rq_path rq = ''/models'' then
            (Inr (Reply 200 (Some (JObj [(''models'', JArr (map JObj (provided_models w)))]))), hs, [])
          else (Inr (SendError 404 ''Not Found''), hs, []))"

section \<open>POST\<close>

datatype model_action = Serve | StopServe | CancelDep | Uninstall

definition action_of :: "string \<Rightarrow> model_action option" where
  "action_of s =
     (if s = ''serve'' then Some Serve else if s = ''stop-serving'' then Some StopServe
      else if s = ''cancel-deploy'' then Some CancelDep else if s = ''uninstall'' then Some Uninstall
      else None)"

text \<open>
  The pattern of a model action; a request path has no newline, so \<open>$\<close> is the end of the path.
\<close>

definition match_action :: "string \<Rightarrow> (string \<times> model_action) option" where
  "match_action path =
     (case split_char (CHR ''/'') path of
        [a, b, pid, act] \<Rightarrow>
          if a = [] \<and> b = ''models'' \<and> pid \<noteq> []
          then map_option (\<lambda>x. (pid, x)) (action_of act) else None
      | _ \<Rightarrow> None)"

definition or_else :: "json \<Rightarrow> json \<Rightarrow> json" where
  "or_else a b = (if truthy a then a else b)"

text \<open>\<open>next((m for m in models if m["id"] == pipeline_id), None)\<close>; a row without an id raises.\<close>

fun find_model :: "string \<Rightarrow> jdict list \<Rightarrow> py_error + jdict option" where
  "find_model pid [] = Inr None"
| "find_model pid (m # ms) =
     (case map_of m ''id'' of
        None \<Rightarrow> Inl (KeyError ''id'')
      | Some v \<Rightarrow> if v = JStr pid then Inr (Some m) else find_model pid ms)"

definition loopback_id :: "wiring \<Rightarrow> json" where
  "loopback_id w = JStr (''loopback-'' @ take 8 (wr_uuid w))"

definition action_command :: "wiring \<Rightarrow> string \<Rightarrow> model_action \<Rightarrow> jdict \<Rightarrow> json" where
  "action_command w pid act m =
     (case act of
        CancelDep \<Rightarrow>
          JObj [(''id'', loopback_id w), (''type'', JStr ''CANCEL_DEPLOY''), (''pipeline_id'', JStr pid)]
      | Serve \<Rightarrow>
          JObj [(''id'', loopback_id w), (''type'', JStr ''START_SERVING''), (''pipeline_id'', JStr pid),
                (''port'', or_else (dget m ''port'') (JInt 8100)),
                (''host'', or_else (dget m ''host'') (JStr ''0.0.0.0'')),
                (''model_display_name'', or_else (dget m ''alias'') (JStr pid))]
      | StopServe \<Rightarrow>
          JObj [(''id'', loopback_id w), (''type'', JStr ''STOP_SERVING''), (''pipeline_id'', JStr pid)]
      | Uninstall \<Rightarrow>
          JObj [(''id'', loopback_id w), (''type'', JStr ''UNINSTALL_MODEL''), (''pipeline_id'', JStr pid),
                (''force_stop'', JBool True)])"

text \<open>The dispatch at the end of a POST: the command reaches the handler, which may raise.\<close>

definition dispatch_command :: "(json \<Rightarrow> bool) \<Rightarrow> json \<Rightarrow> health_state \<Rightarrow> outcome" where
  "dispatch_command handler c hs =
     (if handler c then (Inr (SendError 500 ''Command dispatch failed''), hs, [c])
      else (Inr (Reply 202 None), hs, [c]))"

definition handle_pending_deployment :: "int \<Rightarrow> request \<Rightarrow> health_state \<Rightarrow> (py_error + response) \<times> health_state" where
  "handle_pending_deployment now rq hs =
     (let cl = (case rq_content_length rq of None \<Rightarrow> Some 0 | Some s \<Rightarrow> if s = [] then Some 0 else py_int s) in
      case cl of
        None \<Rightarrow> (Inl (ValueError ''invalid literal for int() with base 10''), hs)
      | Some len \<Rightarrow>
        if len \<le> 0 \<or> 4096 < len then (Inr (SendError 400 ''Empty or oversized body''), hs)
        else case rq_body rq of
          None \<Rightarrow> (Inr (SendError 400 ''Malformed JSON''), hs)
        | Some (JObj payload) \<Rightarrow>
            (case dget payload ''pipeline_id'' of
               JStr pid \<Rightarrow>
                 if pid = [] then (Inr (SendError 400 ''pipeline_id required''), hs)
                 else (case of_jopt (dget payload ''model_name'') of
                     None \<Rightarrow> (Inr (SendError 400 ''model_name must be a string or omitted''), hs)
                   | Some name \<Rightarrow>
                       (Inr (Reply 202 None), set_deployment_progress now pid ''queued'' 0 name hs))
             | _ \<Rightarrow> (Inr (SendError 400 ''pipeline_id required''), hs))
        | Some v \<Rightarrow> 
            (Inl (AttributeError (quoted (type_name v) @ '' object has no attribute '' @ quoted ''get'')), hs))"

definition do_POST :: "wiring \<Rightarrow> int \<Rightarrow> request \<Rightarrow> health_state \<Rightarrow> outcome" where
  "do_POST w now rq hs =
     (case check_loopback rq of
        Some r \<Rightarrow> (Inr r, hs, [])
      | None \<Rightarrow>
        if rq_path rq = ''/deployments/pending'' then
          (let (r, hs') = handle_pending_deployment now rq hs in (r, hs', []))
        else if rq_path rq = ''/update'' then
          (case wr_handler w of
             None \<Rightarrow> (Inr (SendError 503 ''Command handler not wired''), hs, [])
           | Some handler \<Rightarrow>
               if \<not> can_update (wr_preflight w)
               then (Inr (SendError 409 ''No installable update asset available yet''), hs, [])
               else dispatch_command handler (JObj [(''id'', loopback_id w), (''type'', JStr ''UPDATE_AGENT'')]) hs)
        else
          (case match_action (rq_path rq) of
             None \<Rightarrow> (Inr (SendError 404 ''Not Found''), hs, [])
           | Some (pid, act) \<Rightarrow>
             (case wr_handler w of
                None \<Rightarrow> (Inr (SendError 503 ''Command handler not wired''), hs, [])
              | Some handler \<Rightarrow>
                if act = CancelDep then dispatch_command handler (action_command w pid act []) hs
                else
                  (case find_model pid (provided_models w) of
                     Inl e \<Rightarrow> (Inl e, hs, [])
                   | Inr None \<Rightarrow> (Inr (SendError 404 (''Unknown pipeline: '' @ pid)), hs, [])
                   | Inr (Some m) \<Rightarrow> dispatch_command handler (action_command w pid act m) hs))))"

section \<open>The server and its update poll\<close>

text \<open>
  Whether the listening socket is open, the stop event of the poll thread and whether the thread is
  running.  \<open>bound\<close> is whether the port could be bound, \<open>checker\<close> whether an update checker is wired.
\<close>

record health_server =
  srv_open :: bool
  srv_poll_stop :: bool
  srv_polling :: bool

definition server_start :: "bool \<Rightarrow> bool \<Rightarrow> health_server \<Rightarrow> health_server" where
  "server_start bound checker s =
     (if srv_open s then s
      else if \<not> bound then s\<lparr>srv_open := False\<rparr>
      else if checker then s\<lparr>srv_open := True, srv_poll_stop := False, srv_polling := True\<rparr>
      else s\<lparr>srv_open := True\<rparr>)"

definition server_stop :: "health_server \<Rightarrow> health_server" where
  "server_stop s = s\<lparr>srv_poll_stop := True, srv_polling := False, srv_open := False\<rparr>"

text \<open>
  \<open>_update_poll_loop\<close> over the results of its successive waits: \<open>True\<close> says the stop event was set.
  The \<open>n\<close>-th check of the loop yields \<open>check n\<close>, \<open>None\<close> when it raises.  The end of the list is the
  end of the observation.
\<close>

fun update_poll_loop :: "(nat \<Rightarrow> (bool \<times> string option) option) \<Rightarrow> nat \<Rightarrow> bool list \<Rightarrow> health_state \<Rightarrow> health_state" where
  "update_poll_loop check n [] hs = hs"
| "update_poll_loop check n (stopped # waits) hs =
     (if stopped then hs
      else update_poll_loop check (Suc n) waits
        (case check n of None \<Rightarrow> hs | Some (available, latest) \<Rightarrow> set_update available latest hs))"

section \<open>Facts\<close>

lemma check_loopback_origin:
  assumes "rq_origin rq = Some (serialized_origin scheme host port)" "origin_ok scheme host port"
    "py_lower host \<notin> set LOOPBACK_HOSTS"
  shows "\<exists>msg. check_loopback rq = Some (SendError 403 msg)"
  using assms by (simp add: check_loopback_def Let_def url_hostname_origin)

text \<open>The rows of \<open>GET /models\<close> that the handler can turn into a START_SERVING command.\<close>

definition typed_row :: "jdict \<Rightarrow> bool" where
  "typed_row m =
     ((case dget m ''port'' of JNull \<Rightarrow> True | JInt _ \<Rightarrow> True | _ \<Rightarrow> False) \<and>
      (case dget m ''host'' of JNull \<Rightarrow> True | JStr _ \<Rightarrow> True | _ \<Rightarrow> False) \<and>
      (case dget m ''alias'' of JNull \<Rightarrow> True | JStr _ \<Rightarrow> True | _ \<Rightarrow> False))"

lemma typed_row_fields:
  assumes "typed_row m"
  shows "(\<exists>i. or_else (dget m ''port'') (JInt 8100) = JInt i) \<and>
         (\<exists>h. or_else (dget m ''host'') (JStr ''0.0.0.0'') = JStr h) \<and>
         (\<exists>a. or_else (dget m ''alias'') (JStr pid) = JStr a)"
  using assms by (auto simp: typed_row_def or_else_def split: json.splits)

fun action_target :: "command \<Rightarrow> (string \<times> model_action) option" where
  "action_target (CancelDeploy _ p) = Some (p, CancelDep)"
| "action_target (StartServing c) = Some (sv_pipeline_id c, Serve)"
| "action_target (StopServing _ p) = Some (p, StopServe)"
| "action_target (UninstallModel c) = (if un_force_stop c then Some (un_pipeline_id c, Uninstall) else None)"
| "action_target _ = None"

lemma action_command_parses:
  assumes "pydantic_ok pd" "act \<noteq> Serve \<or> typed_row m"
  shows "\<exists>c. parse_command pd (action_command w pid act m) = Some c \<and> action_target c = Some (pid, act)"
proof (cases "act = Serve")
  case True
  with assms(2) have "typed_row m" by simp
  from typed_row_fields [OF this] obtain i h a where
    "or_else (dget m ''port'') (JInt 8100) = JInt i"
    "or_else (dget m ''host'') (JStr ''0.0.0.0'') = JStr h"
    "or_else (dget m ''alias'') (JStr pid) = JStr a" by blast
  with True assms(1) show ?thesis
    by (simp add: action_command_def loopback_id_def parse_command_def command_parsers_def
        command_parse_defs pydantic_okD)
next
  case False
  with assms(1) show ?thesis
    by (cases act)
      (simp_all add: action_command_def loopback_id_def parse_command_def command_parsers_def
        command_parse_defs pydantic_okD)
qed

lemma find_model_mem: "find_model pid ms = Inr (Some m) \<Longrightarrow> m \<in> set ms"
  by (induction ms) (auto split: option.splits if_splits)

lemma health_inv_pending: "health_inv hs \<Longrightarrow> health_inv (snd (handle_pending_deployment now rq hs))"
  by (auto simp: handle_pending_deployment_def Let_def split: option.splits json.splits sum.splits)

lemma health_inv_post: "health_inv hs \<Longrightarrow> health_inv (fst (snd (do_POST w now rq hs)))"
  using health_inv_pending [of hs now rq]
  by (auto simp: do_POST_def dispatch_command_def case_prod_unfold Let_def split: option.splits sum.splits)

lemma dispatched_command:
  assumes "do_POST w now rq hs = (r, hs', cs)" "c \<in> set cs"
  shows "cs = [c] \<and>
    (c = JObj [(''id'', loopback_id w), (''type'', JStr ''UPDATE_AGENT'')] \<or>
     (\<exists>pid act m. match_action (rq_path rq) = Some (pid, act) \<and> c = action_command w pid act m \<and>
        (act \<noteq> CancelDep \<longrightarrow> m \<in> set (provided_models w))))"
proof -
  have fm: "\<And>pid m. find_model pid (provided_models w) = Inr (Some m) \<Longrightarrow> m \<in> set (provided_models w)"
    by (rule find_model_mem)
  show ?thesis
    using assms
    by (auto simp: do_POST_def dispatch_command_def case_prod_unfold Let_def
        split: option.splits sum.splits if_splits dest: fm)
qed

section \<open>Properties\<close>

text \<open>
  Cross-origin protection: a request whose \<open>Origin\<close> is a browser's serialisation of an origin on
  any host other than the loopback ones is answered with 403 by both handlers, no command is
  dispatched and the health state does not change, whatever its path, body and \<open>Host\<close>.
\<close>

lemma foreign_origin_rejected:
  assumes "rq_origin rq = Some (serialized_origin scheme host port)" "origin_ok scheme host port"
    and "py_lower host \<notin> set LOOPBACK_HOSTS"
  shows "\<exists>msg. do_POST w now rq hs = (Inr (SendError 403 msg), hs, []) \<and>
               do_GET w now rq hs = (Inr (SendError 403 msg), hs, [])"
  using check_loopback_origin [OF assms] by (auto simp: do_POST_def do_GET_def)

lemma foreign_origin_rejected_witness:
  "\<exists>msg. do_POST \<lparr>wr_models = None, wr_handler = Some (\<lambda>_. False), wr_preflight = None, wr_uuid = ''0''\<rparr> 0
       \<lparr>rq_path = ''/update'', rq_host = Some ''localhost:8101'', rq_origin = Some ''https://evil.example:443'',
        rq_content_length = None, rq_body = None\<rparr> (init_health None 0) =
     (Inr (SendError 403 msg), init_health None 0, [])"
proof -
  let ?rq = "\<lparr>rq_path = ''/update'', rq_host = Some ''localhost:8101'', rq_origin = Some ''https://evil.example:443'',
        rq_content_length = None, rq_body = None\<rparr>"
  have "rq_origin ?rq = Some (serialized_origin ''https'' ''evil.example'' (Some ''443''))"
    by (simp add: serialized_origin_def)
  moreover have "origin_ok ''https'' ''evil.example'' (Some ''443'')" by code_simp
  moreover have "py_lower ''evil.example'' \<notin> set LOOPBACK_HOSTS" by code_simp
  ultimately show ?thesis using foreign_origin_rejected by blast
qed

text \<open>
  Every command a loopback POST hands to the runtime is one the command schema accepts, at most
  one per request, and it is the command for the action and the pipeline named in the path (or
  UPDATE_AGENT for \<open>/update\<close>), provided the rows of the models provider are typed.
\<close>

lemma loopback_commands_valid:
  assumes "pydantic_ok pd" "list_all typed_row (provided_models w)"
    and "do_POST w now rq hs = (r, hs', cs)" "c \<in> set cs"
  shows "cs = [c] \<and>
    (\<exists>cmd. parse_command pd c = Some cmd \<and>
       (cmd = UpdateAgent (''loopback-'' @ take 8 (wr_uuid w)) \<or>
        action_target cmd = match_action (rq_path rq)))"
proof -
  from dispatched_command [OF assms(3,4)] have one: "cs = [c]" by blast
  from dispatched_command [OF assms(3,4)]
  consider (update) "c = JObj [(''id'', loopback_id w), (''type'', JStr ''UPDATE_AGENT'')]"
    | (action) pid act m where "match_action (rq_path rq) = Some (pid, act)" "c = action_command w pid act m"
        "act \<noteq> CancelDep \<longrightarrow> m \<in> set (provided_models w)"
    by blast
  then show ?thesis
  proof cases
    case update
    then have "parse_command pd c = Some (UpdateAgent (''loopback-'' @ take 8 (wr_uuid w)))"
      by (simp add: parse_command_def command_parsers_def command_parse_defs loopback_id_def)
    with one show ?thesis by blast
  next
    case action
    then have "act \<noteq> Serve \<or> typed_row m" using assms(2) by (auto simp: list_all_iff)
    from action_command_parses [OF assms(1) this, of w pid] action one show ?thesis by metis
  qed
qed

lemma loopback_commands_valid_witness:
  "let w = \<lparr>wr_models = Some [[(''id'', JStr ''m1''), (''port'', JNull)]], wr_handler = Some (\<lambda>_. False),
            wr_preflight = None, wr_uuid = ''0123456789''\<rparr>;
       rq = \<lparr>rq_path = ''/models/m1/serve'', rq_host = Some ''127.0.0.1:8101'', rq_origin = None,
             rq_content_length = None, rq_body = None\<rparr>;
       c = action_command w ''m1'' Serve [(''id'', JStr ''m1''), (''port'', JNull)] in
   \<exists>cmd. parse_command strict_pydantic c = Some cmd \<and> action_target cmd = Some (''m1'', Serve)"
proof -
  let ?w = "\<lparr>wr_models = Some [[(''id'', JStr ''m1''), (''port'', JNull)]], wr_handler = Some (\<lambda>_. False),
            wr_preflight = None, wr_uuid = ''0123456789''\<rparr>"
  let ?rq = "\<lparr>rq_path = ''/models/m1/serve'', rq_host = Some ''127.0.0.1:8101'', rq_origin = None,
             rq_content_length = None, rq_body = None\<rparr>"
  let ?c = "action_command ?w ''m1'' Serve [(''id'', JStr ''m1''), (''port'', JNull)]"
  have ok: "check_loopback ?rq = None" by code_simp
  have m: "match_action (rq_path ?rq) = Some (''m1'', Serve)" by code_simp
  have fm: "find_model ''m1'' (provided_models ?w) = Inr (Some [(''id'', JStr ''m1''), (''port'', JNull)])"
    by code_simp
  have "do_POST ?w 0 ?rq (init_health None 0) = (Inr (Reply 202 None), init_health None 0, [?c])"
    using m fm by (simp add: do_POST_def ok dispatch_command_def)
  moreover have "list_all typed_row (provided_models ?w)" by code_simp
  ultimately have "\<exists>cmd. parse_command strict_pydantic ?c = Some cmd \<and>
      (cmd = UpdateAgent (''loopback-'' @ take 8 (wr_uuid ?w)) \<or> action_target cmd = match_action (rq_path ?rq))"
    using loopback_commands_valid [OF strict_pydantic_ok, of ?w 0 ?rq "init_health None 0" _ _ "[?c]" ?c] by auto
  then show ?thesis using m
    by (auto simp: Let_def action_command_def loopback_id_def parse_command_def command_parsers_def command_parse_defs
        or_else_def dget_def strict_pydantic_def)
qed

text \<open>
  A queued row does not outlive its time to live: after a \<open>GET /healthz\<close> no deployment row that
  is older than \<open>QUEUED_TTL_SECONDS\<close> still says \<open>queued\<close>, and every other row keeps its stage, so a
  queued POST can never overwrite a deployment that has started.
\<close>

lemma queued_rows_age_out:
  assumes "map_of (hs_deployments hs) pid = Some dep"
  shows "map_option dep_stage (map_of (hs_deployments (snd (health_snapshot_of now hs))) pid) =
           Some (if dep_stage dep = ''queued'' \<and> QUEUED_TTL < now - dep_created_at dep
                 then ''failed'' else dep_stage dep) \<and>
         (dep_stage dep \<noteq> ''queued'' \<longrightarrow>
            map_of (hs_deployments (set_deployment_progress now pid ''queued'' 0 name hs)) pid = Some dep)"
  using assms
  by (simp add: health_snapshot_of_def Let_def map_of_map age_deployment_def set_deployment_progress_def)

lemma queued_rows_age_out_witness:
  "map_option dep_stage (map_of (hs_deployments (snd (health_snapshot_of (301 * NANOS)
     (set_deployment_progress 0 ''p'' ''queued'' 0 None (init_health None 0))))) ''p'') = Some ''failed''"
proof -
  let ?hs = "set_deployment_progress 0 ''p'' ''queued'' 0 None (init_health None 0)"
  have "map_of (hs_deployments ?hs) ''p'' =
    Some \<lparr>dep_pipeline_id = ''p'', dep_model_name = None, dep_stage = ''queued'', dep_progress_pct = 0, dep_created_at = 0\<rparr>"
    by code_simp
  from queued_rows_age_out [OF this, of "301 * NANOS"] show ?thesis
    by (simp add: QUEUED_TTL_def NANOS_def)
qed

end
