(* ===== verification/Registry.thy ===== *)
theory Registry
  imports Json
begin

text \<open>
  The component registry, \<open>src/link/components/registry.py\<close>: built-in classes under their names, and
  plugins that are installed on first use and found through the \<open>locai.plugins\<close> entry points.

  A class is named by a string.  What the code of a class does when it is instantiated, which
  directories and files exist, how the installer processes end and which entry points the interpreter
  sees are parameters (\<open>plugin_env\<close>); an external action is numbered by a tick, so that the same
  action may end differently the next time.
\<close>

datatype injected = NoInjection | InjectCallback | InjectSession

record component =
  cm_class :: string
  cm_args :: jdict
  cm_injected :: injected

text \<open>The processes an installation starts; the last one is the fallback of the legacy path.\<close>

datatype install_cmd =
    UvEditable string
  | InstallScript string
  | UvRequirements string
  | PipRequirements string

record registry =
  rg_components :: "(string, string) dict"
  rg_installed :: "string list"
  rg_log :: "install_cmd list"
  rg_tick :: nat

record entry_point =
  ep_name :: string
  ep_dist :: "string option"
  ep_target :: string

record plugin_env =
  pe_frozen :: bool
  pe_cwd :: string
  pe_parent :: string
  pe_is_dir :: "string \<Rightarrow> bool"
  pe_exists :: "string \<Rightarrow> bool"
  pe_run :: "nat \<Rightarrow> install_cmd \<Rightarrow> bool"
  pe_entry_points :: "string list \<Rightarrow> entry_point list"
  pe_load :: "string \<Rightarrow> py_error + string"
  pe_instantiate :: "nat \<Rightarrow> component \<Rightarrow> py_error option"

section \<open>Registration\<close>

definition register :: "string \<Rightarrow> string \<Rightarrow> registry \<Rightarrow> registry" where
  "register name cls rg = rg\<lparr>rg_components := AList.update name cls (rg_components rg)\<rparr>"

definition get_component :: "string \<Rightarrow> registry \<Rightarrow> string option" where
  "get_component name rg = map_of (rg_components rg) name"

definition all_components :: "registry \<Rightarrow> (string, string) dict" where
  "all_components rg = rg_components rg"

section \<open>Plugins\<close>

text \<open>\<open>a / b\<close>: an absolute right operand replaces the left one.\<close>

definition path_join :: "string \<Rightarrow> string \<Rightarrow> string" where
  "path_join a b = (if startswith b ''/'' then b else a @ ''/'' @ b)"

definition find_plugin_dir :: "plugin_env \<Rightarrow> string \<Rightarrow> string option" where
  "find_plugin_dir pe name =
     find (pe_is_dir pe)
       [path_join (path_join (pe_cwd pe) ''plugins'') name,
        path_join (path_join (pe_parent pe) ''plugins'') name]"

text \<open>One process: its outcome, and the registry with the action on record.\<close>

definition run_cmd :: "plugin_env \<Rightarrow> install_cmd \<Rightarrow> registry \<Rightarrow> bool \<times> registry" where
  "run_cmd pe c rg = (pe_run pe (rg_tick rg) c, rg\<lparr>rg_log := rg_log rg @ [c], rg_tick := Suc (rg_tick rg)\<rparr>)"

definition install_package :: "plugin_env \<Rightarrow> string \<Rightarrow> string \<Rightarrow> registry \<Rightarrow> py_error option \<times> registry" where
  "install_package pe name dir rg =
     (if pe_exists pe (path_join dir ''pyproject.toml'') then
        (let (ok, rg') = run_cmd pe (UvEditable dir) rg in
         (if ok then None else Some (RuntimeError (''Dependency installation failed for '' @ name)), rg'))
      else (None, rg))"

definition install_script :: "plugin_env \<Rightarrow> string \<Rightarrow> registry \<Rightarrow> py_error option \<times> registry" where
  "install_script pe dir rg =
     (if pe_exists pe (path_join dir ''install.py'') then
        (let (ok, rg') = run_cmd pe (InstallScript dir) rg in
         (if ok then None else Some (RuntimeError ''Custom install script failed''), rg'))
      else (None, rg))"

definition install_requirements :: "plugin_env \<Rightarrow> string \<Rightarrow> registry \<Rightarrow> py_error option \<times> registry" where
  "install_requirements pe dir rg =
     (if pe_exists pe (path_join dir ''requirements.txt'') \<and> \<not> pe_exists pe (path_join dir ''pyproject.toml'') then
        (let (ok, rg') = run_cmd pe (UvRequirements dir) rg in
         if ok then (None, rg')
         else (let (ok', rg'') = run_cmd pe (PipRequirements dir) rg' in
               (if ok' then None else Some (RuntimeError ''pip install failed''), rg'')))
      else (None, rg))"

definition install_plugin_dependencies ::
    "plugin_env \<Rightarrow> string \<Rightarrow> string \<Rightarrow> registry \<Rightarrow> py_error option \<times> registry" where
  "install_plugin_dependencies pe name dir rg =
     (if name \<in> set (rg_installed rg) then (None, rg)
      else case install_package pe name dir rg of
        (Some e, rg1) \<Rightarrow> (Some e, rg1)
      | (None, rg1) \<Rightarrow>
          (case install_script pe dir rg1 of
             (Some e, rg2) \<Rightarrow> (Some e, rg2)
           | (None, rg2) \<Rightarrow>
               (case install_requirements pe dir rg2 of
                  (Some e, rg3) \<Rightarrow> (Some e, rg3)
                | (None, rg3) \<Rightarrow> (None, rg3\<lparr>rg_installed := rg_installed rg3 @ [name]\<rparr>))))"

definition install_plugin :: "plugin_env \<Rightarrow> string \<Rightarrow> registry \<Rightarrow> py_error option \<times> registry" where
  "install_plugin pe name rg =
     (case find_plugin_dir pe name of
        None \<Rightarrow> (Some (OSError (''Plugin directory not found for '' @ quoted name)), rg)
      | Some dir \<Rightarrow> install_plugin_dependencies pe name dir rg)"

definition replace_char :: "char \<Rightarrow> char \<Rightarrow> string \<Rightarrow> string" where
  "replace_char a b s = map (\<lambda>c. if c = a then b else c) s"

definition entry_point_matches :: "string \<Rightarrow> entry_point \<Rightarrow> bool" where
  "entry_point_matches name ep =
     (let dist = (case ep_dist ep of None \<Rightarrow> [] | Some d \<Rightarrow> py_lower (replace_char (CHR ''-'') (CHR ''_'') d)) in
      ep_name ep = name \<or> endswith dist (''plugin_'' @ name))"

definition get_entry_point_class :: "plugin_env \<Rightarrow> string \<Rightarrow> registry \<Rightarrow> py_error + string option" where
  "get_entry_point_class pe name rg =
     (case find (entry_point_matches name) (pe_entry_points pe (rg_installed rg)) of
        None \<Rightarrow> Inr None
      | Some ep \<Rightarrow> map_sum id Some (pe_load pe (ep_target ep)))"

definition load_plugin ::
    "plugin_env \<Rightarrow> string \<Rightarrow> jdict \<Rightarrow> injected \<Rightarrow> registry \<Rightarrow> (py_error + component) \<times> registry" where
  "load_plugin pe name args inject rg =
     (let (err, rg1) =
        (case find_plugin_dir pe name of
           Some dir \<Rightarrow> if pe_frozen pe then (None, rg) else install_plugin_dependencies pe name dir rg
         | None \<Rightarrow> (None, rg)) in
      case err of
        Some e \<Rightarrow> (Inl e, rg1)
      | None \<Rightarrow>
          (case get_entry_point_class pe name rg1 of
             Inl e \<Rightarrow> (Inl e, rg1)
           | Inr None \<Rightarrow> (Inl (ValueError (''Could not load plugin '' @ quoted name)), rg1)
           | Inr (Some cls) \<Rightarrow>
               (let c = \<lparr>cm_class = cls, cm_args = args, cm_injected = inject\<rparr>;
                    rg2 = rg1\<lparr>rg_tick := Suc (rg_tick rg1)\<rparr> in
                case pe_instantiate pe (rg_tick rg1) c of
                  None \<Rightarrow> (Inr c, rg2)
                | Some e \<Rightarrow> (Inl (ValueError (''Failed to instantiate plugin '' @ quoted name)), rg2))))"

section \<open>Facts\<close>

lemma get_register [simp]: "get_component name (register name cls rg) = Some cls"
  by (simp add: get_component_def register_def py_dict)

lemma get_register_other: "n \<noteq> name \<Longrightarrow> get_component n (register name cls rg) = get_component n rg"
  by (simp add: get_component_def register_def py_dict)

lemmas install_defs = install_package_def install_script_def install_requirements_def run_cmd_def

lemma install_steps_keep:
  "rg_installed (snd (install_package pe name dir rg)) = rg_installed rg"
  "rg_installed (snd (install_script pe dir rg)) = rg_installed rg"
  "rg_installed (snd (install_requirements pe dir rg)) = rg_installed rg"
  by (simp_all add: install_defs Let_def case_prod_unfold)

lemma install_steps_components:
  "rg_components (snd (install_package pe name dir rg)) = rg_components rg"
  "rg_components (snd (install_script pe dir rg)) = rg_components rg"
  "rg_components (snd (install_requirements pe dir rg)) = rg_components rg"
  by (simp_all add: install_defs Let_def case_prod_unfold)

text \<open>A plugin is marked installed exactly when its installation did not raise.\<close>

lemma install_marks:
  assumes "install_plugin_dependencies pe name dir rg = (err, rg')"
  shows "rg_components rg' = rg_components rg \<and> set (rg_installed rg) \<subseteq> set (rg_installed rg') \<and>
         (err = None \<longleftrightarrow> name \<in> set (rg_installed rg'))"
proof (cases "name \<in> set (rg_installed rg)")
  case True
  with assms show ?thesis by (auto simp: install_plugin_dependencies_def)
next
  case False
  obtain e1 rg1 where 1: "install_package pe name dir rg = (e1, rg1)" by fastforce
  obtain e2 rg2 where 2: "install_script pe dir rg1 = (e2, rg2)" by fastforce
  obtain e3 rg3 where 3: "install_requirements pe dir rg2 = (e3, rg3)" by fastforce
  have k: "rg_installed rg1 = rg_installed rg" "rg_installed rg2 = rg_installed rg1" "rg_installed rg3 = rg_installed rg2"
    using install_steps_keep(1) [of pe name dir rg] install_steps_keep(2) [of pe dir rg1]
      install_steps_keep(3) [of pe dir rg2] 1 2 3 by simp_all
  have c: "rg_components rg1 = rg_components rg" "rg_components rg2 = rg_components rg1"
    "rg_components rg3 = rg_components rg2"
    using install_steps_components(1) [of pe name dir rg] install_steps_components(2) [of pe dir rg1]
      install_steps_components(3) [of pe dir rg2] 1 2 3 by simp_all
  from assms False 1 2 3 k c show ?thesis
    by (auto simp: install_plugin_dependencies_def split: option.splits)
qed

lemma install_again:
  "name \<in> set (rg_installed rg) \<Longrightarrow> install_plugin_dependencies pe name dir rg = (None, rg)"
  by (simp add: install_plugin_dependencies_def)

lemma load_plugin_components: "rg_components (snd (load_plugin pe name args inject rg)) = rg_components rg"
  using install_marks [of pe name "the (find_plugin_dir pe name)" rg]
  by (auto simp: load_plugin_def Let_def case_prod_unfold split: option.splits sum.splits)
    (metis prod.collapse option.sel)+

section \<open>Properties\<close>

text \<open>
  A plugin is installed once and only once: an installation that did not raise marks the plugin, and
  from then on installing it again runs no process and changes nothing; an installation that raised
  leaves it unmarked, so the next load tries again, and never disturbs the registered classes.
\<close>

lemma plugin_install_once:
  assumes "install_plugin_dependencies pe name dir rg = (err, rg')"
  shows "(err = None \<longrightarrow> install_plugin_dependencies pe' name dir' rg' = (None, rg')) \<and>
         (err \<noteq> None \<longrightarrow> name \<notin> set (rg_installed rg')) \<and>
         rg_components rg' = rg_components rg"
  using install_marks [OF assms] install_again by auto

lemma plugin_install_once_witness:
  "let pe = \<lparr>pe_frozen = False, pe_cwd = ''/a'', pe_parent = ''/'', pe_is_dir = (\<lambda>_. True),
             pe_exists = (\<lambda>p. endswith p ''pyproject.toml''), pe_run = (\<lambda>n c. n > 0), pe_entry_points = (\<lambda>_. []),
             pe_load = (\<lambda>_. Inr ''C''), pe_instantiate = (\<lambda>_ _. None)\<rparr>;
       rg = \<lparr>rg_components = [], rg_installed = [], rg_log = [], rg_tick = 0\<rparr>;
       first = install_plugin_dependencies pe ''p'' ''/a/plugins/p'' rg;
       second = install_plugin_dependencies pe ''p'' ''/a/plugins/p'' (snd first) in
   fst first \<noteq> None \<and> ''p'' \<notin> set (rg_installed (snd first)) \<and> fst second = None \<and>
   install_plugin_dependencies pe ''p'' ''/a/plugins/p'' (snd second) = (None, snd second)"
proof -
  let ?pe = "\<lparr>pe_frozen = False, pe_cwd = ''/a'', pe_parent = ''/'', pe_is_dir = (\<lambda>_. True),
             pe_exists = (\<lambda>p. endswith p ''pyproject.toml''), pe_run = (\<lambda>n c. n > 0), pe_entry_points = (\<lambda>_. []),
             pe_load = (\<lambda>_. Inr ''C''), pe_instantiate = (\<lambda>_ _. None)\<rparr>"
  let ?rg = "\<lparr>rg_components = [], rg_installed = [], rg_log = [], rg_tick = 0\<rparr>"
  let ?first = "install_plugin_dependencies ?pe ''p'' ''/a/plugins/p'' ?rg"
  let ?second = "install_plugin_dependencies ?pe ''p'' ''/a/plugins/p'' (snd ?first)"
  have f: "fst ?first \<noteq> None" by code_simp
  have s: "fst ?second = None" by code_simp
  from plugin_install_once [OF prod.collapse [symmetric], of ?pe "''p''" "''/a/plugins/p''" ?rg] f
  have "''p'' \<notin> set (rg_installed (snd ?first))" by blast
  moreover from plugin_install_once [OF prod.collapse [symmetric], of ?pe "''p''" "''/a/plugins/p''" "snd ?first"] s
  have "install_plugin_dependencies ?pe ''p'' ''/a/plugins/p'' (snd ?second) = (None, snd ?second)" by blast
  ultimately show ?thesis using f s by (simp add: Let_def)
qed

end
