(* ===== verification/State_Manager.thy ===== *)
theory State_Manager
  imports Models
begin

text \<open>
  Session persistence, \<open>src/link/app/state.py\<close>.  The state of a \<open>StateManager\<close> is its cache (the raw
  dictionary, \<open>None\<close> before anything is loaded), the path of the current session file, and the files
  under \<open>configs/\<close>.  A file has its permission bits and a body, either a JSON document or bytes that
  do not decode as JSON.  The outcome of the system calls is a parameter \<open>io\<close> of the operations that
  make them.  An operation that may raise returns the exception beside the state it leaves.
\<close>

datatype file_body = Doc json | Garbage

record disk_file =
  f_mode :: nat
  f_body :: file_body

record state_manager =
  sm_cache :: "jdict option"
  sm_path :: "string option"
  sm_disk :: "(string, disk_file) dict"

datatype write_outcome = WriteOk | OpenFails | WriteFails

record sm_io =
  io_write :: write_outcome
  io_chmod :: bool

definition io_ok :: sm_io where
  "io_ok = \<lparr>io_write = WriteOk, io_chmod = True\<rparr>"

text \<open>The permission bits 0600.\<close>

definition owner_only :: nat where
  "owner_only = 384"

definition STATE_DIR :: string where
  "STATE_DIR = ''configs''"

section \<open>Files\<close>

text \<open>The glob pattern \<open>configs/session_*.json\<close>; a star matches no path separator.\<close>

definition is_session_path :: "string \<Rightarrow> bool" where
  "is_session_path p =
     (let dir = STATE_DIR @ ''/''; name = drop (length dir) p in
      startswith p dir \<and> CHR ''/'' \<notin> set name \<and> startswith name ''session_'' \<and>
      endswith name ''.json'' \<and> length ''session_.json'' \<le> length name)"

definition get_latest_session_file :: "state_manager \<Rightarrow> string option" where
  "get_latest_session_file sm =
     (let files = filter is_session_path (keys (sm_disk sm)) in
      if files = [] then None else Some (last (sort files)))"

definition tighten_permissions :: "sm_io \<Rightarrow> string \<Rightarrow> state_manager \<Rightarrow> state_manager" where
  "tighten_permissions io path sm =
     (case map_of (sm_disk sm) path of
        Some f \<Rightarrow>
          if io_chmod io then sm\<lparr>sm_disk := AList.update path (f\<lparr>f_mode := owner_only\<rparr>) (sm_disk sm)\<rparr>
          else sm
      | None \<Rightarrow> sm)"

text \<open>
  \<open>_flush\<close>.  Creating the file sets its mode to 0600, an existing file keeps the mode it has; a
  failure after the file was opened for writing leaves it truncated.
\<close>

definition flush :: "sm_io \<Rightarrow> state_manager \<Rightarrow> state_manager" where
  "flush io sm =
     (case (sm_cache sm, sm_path sm) of
        (Some d, Some path) \<Rightarrow>
          if d = [] then sm
          else
            (let mode = (case map_of (sm_disk sm) path of None \<Rightarrow> owner_only | Some f \<Rightarrow> f_mode f);
                 put = (\<lambda>b. sm\<lparr>sm_disk := AList.update path \<lparr>f_mode = mode, f_body = b\<rparr> (sm_disk sm)\<rparr>)
             in case io_write io of
                  WriteOk \<Rightarrow> put (Doc (JObj d))
                | OpenFails \<Rightarrow> sm
                | WriteFails \<Rightarrow> put Garbage)
      | _ \<Rightarrow> sm)"

section \<open>Loading\<close>

definition load_from :: "sm_io \<Rightarrow> string \<Rightarrow> state_manager \<Rightarrow> jdict option \<times> state_manager" where
  "load_from io path sm =
     (case map_of (sm_disk sm) path of
        None \<Rightarrow> (None, sm)
      | Some f \<Rightarrow>
          (case f_body f of
             Garbage \<Rightarrow> (None, sm)
           | Doc data \<Rightarrow>
               (let sm' = tighten_permissions io path sm in
                case data of
                  JObj d \<Rightarrow>
                    if py_eq (dget d ''version'') (JFloat SCHEMA_VERSION)
                    then (Some d, sm'\<lparr>sm_cache := Some d, sm_path := Some path\<rparr>)
                    else (None, sm')
                | _ \<Rightarrow> (None, sm'))))"

definition load_state :: "sm_io \<Rightarrow> string option \<Rightarrow> state_manager \<Rightarrow> jdict option \<times> state_manager" where
  "load_state io explicit_path sm =
     (case sm_cache sm of
        Some (kv # d) \<Rightarrow> (Some (kv # d), sm)
      | _ \<Rightarrow>
          (case explicit_path of
             Some p \<Rightarrow> if map_of (sm_disk sm) p = None then (None, sm) else load_from io p sm
           | None \<Rightarrow>
               (case get_latest_session_file sm of
                  None \<Rightarrow> (None, sm)
                | Some p \<Rightarrow> load_from io p sm)))"

definition ensure_loaded :: "sm_io \<Rightarrow> state_manager \<Rightarrow> state_manager" where
  "ensure_loaded io sm =
     (case sm_cache sm of
        Some _ \<Rightarrow> sm
      | None \<Rightarrow>
          (case load_state io None sm of
             (Some (kv # d), sm') \<Rightarrow> sm'
           | (_, sm') \<Rightarrow> sm'\<lparr>sm_cache := Some [(''identity'', JObj []), (''pipelines'', JArr [])]\<rparr>))"

section \<open>Updates\<close>

fun ensure_active :: "json \<Rightarrow> json" where
  "ensure_active (JObj p) =
     JObj (if map_of p ''active'' = None then AList.update ''active'' (JBool False) p else p)"
| "ensure_active x = x"

fun on_list :: "(json list \<Rightarrow> json list) \<Rightarrow> json \<Rightarrow> json" where
  "on_list f (JArr xs) = JArr (f xs)"
| "on_list f x = x"

definition session_file :: "string \<Rightarrow> string" where
  "session_file timestamp = STATE_DIR @ ''/session_'' @ timestamp @ ''.json''"

definition bootstrap :: "sm_io \<Rightarrow> string \<Rightarrow> agent_config \<Rightarrow> state_manager \<Rightarrow> state_manager" where
  "bootstrap io timestamp config sm =
     (let data = dump_agent_fields config;
          data' = (case map_of data ''pipelines'' of
                     None \<Rightarrow> data
                   | Some ps \<Rightarrow> AList.update ''pipelines'' (on_list (map ensure_active) ps) data)
      in flush io (sm\<lparr>sm_path := Some (session_file timestamp), sm_cache := Some data'\<rparr>))"

text \<open>\<open>{p["id"]: p.get("active", False) for p in ps}\<close>, raising at the first malformed entry.\<close>

fun old_active :: "json list \<Rightarrow> (json, json) dict \<Rightarrow> py_error + (json, json) dict" where
  "old_active [] acc = Inr acc"
| "old_active (p # ps) acc =
     (case subscript p ''id'' of
        Inl e \<Rightarrow> Inl e
      | Inr i \<Rightarrow>
          (case get_default p ''active'' (JBool False) of
             Inl e \<Rightarrow> Inl e
           | Inr a \<Rightarrow> old_active ps (AList.update i a acc)))"

fun keep_active :: "(json, json) dict \<Rightarrow> json \<Rightarrow> json" where
  "keep_active old (JObj p) =
     JObj (case map_of old (dget p ''id'') of
             Some a \<Rightarrow> AList.update ''active'' a p
           | None \<Rightarrow> (if map_of p ''active'' = None then AList.update ''active'' (JBool False) p else p))"
| "keep_active old x = x"

definition cached_pipelines :: "jdict \<Rightarrow> json" where
  "cached_pipelines d = (case map_of d ''pipelines'' of None \<Rightarrow> JArr [] | Some ps \<Rightarrow> ps)"

definition update_full_config ::
    "sm_io \<Rightarrow> agent_config \<Rightarrow> state_manager \<Rightarrow> py_error option \<times> state_manager" where
  "update_full_config io config sm =
     (let sm1 = ensure_loaded io sm; d = the (sm_cache sm1) in
      case iterate (cached_pipelines d) of
        Inl e \<Rightarrow> (Some e, sm1)
      | Inr ps \<Rightarrow>
          (case old_active ps [] of
             Inl e \<Rightarrow> (Some e, sm1)
           | Inr old \<Rightarrow>
               (let new = dump_agent_fields config;
                    new' = (case map_of new ''pipelines'' of
                              None \<Rightarrow> new
                            | Some qs \<Rightarrow> AList.update ''pipelines'' (on_list (map (keep_active old)) qs) new)
                in (None, flush io (sm1\<lparr>sm_cache := Some new'\<rparr>)))))"

definition snapshot :: "state_manager \<Rightarrow> jdict option" where
  "snapshot sm = sm_cache sm"

definition restore :: "sm_io \<Rightarrow> jdict option \<Rightarrow> state_manager \<Rightarrow> state_manager" where
  "restore io snap sm =
     (case snap of None \<Rightarrow> sm | Some d \<Rightarrow> flush io (sm\<lparr>sm_cache := Some d\<rparr>))"

text \<open>The index of the first pipeline with the given id; \<open>p["id"]\<close> raises on a malformed entry.\<close>

fun find_pipeline :: "string \<Rightarrow> json list \<Rightarrow> py_error + nat option" where
  "find_pipeline pid [] = Inr None"
| "find_pipeline pid (p # ps) =
     (case subscript p ''id'' of
        Inl e \<Rightarrow> Inl e
      | Inr i \<Rightarrow>
          if i = JStr pid then Inr (Some 0)
          else (case find_pipeline pid ps of Inl e \<Rightarrow> Inl e | Inr r \<Rightarrow> Inr (map_option Suc r)))"

fun set_active :: "json \<Rightarrow> json \<Rightarrow> json" where
  "set_active a (JObj p) = JObj (AList.update ''active'' a p)"
| "set_active a x = x"

fun get_active :: "json \<Rightarrow> json" where
  "get_active (JObj p) = (case map_of p ''active'' of None \<Rightarrow> JBool False | Some a \<Rightarrow> a)"
| "get_active x = JBool False"

definition update_pipeline_config ::
    "sm_io \<Rightarrow> pipeline_config \<Rightarrow> state_manager \<Rightarrow> py_error option \<times> state_manager" where
  "update_pipeline_config io pipeline_config sm =
     (let sm1 = ensure_loaded io sm; d = the (sm_cache sm1); pl = cached_pipelines d;
          new_p = dump_pipeline pipeline_config;
          store = (\<lambda>ps. flush io (sm1\<lparr>sm_cache := Some (AList.update ''pipelines'' (JArr ps) d)\<rparr>))
      in case iterate pl of
           Inl e \<Rightarrow> (Some e, sm1)
         | Inr ps \<Rightarrow>
             (case find_pipeline (pc_id pipeline_config) ps of
                Inl e \<Rightarrow> (Some e, sm1)
              | Inr (Some i) \<Rightarrow> (None, store (ps[i := set_active (get_active (ps ! i)) new_p]))
              | Inr None \<Rightarrow>
                  if is_arr pl then (None, store (ps @ [set_active (JBool False) new_p]))
                  else (Some (AttributeError
                          (quoted (type_name pl) @ '' object has no attribute '' @ quoted ''append'')), sm1)))"

definition set_pipeline_status ::
    "sm_io \<Rightarrow> string \<Rightarrow> bool \<Rightarrow> state_manager \<Rightarrow> py_error option \<times> state_manager" where
  "set_pipeline_status io pid active sm =
     (let sm1 = ensure_loaded io sm; d = the (sm_cache sm1) in
      case iterate (cached_pipelines d) of
        Inl e \<Rightarrow> (Some e, sm1)
      | Inr ps \<Rightarrow>
          (case find_pipeline pid ps of
             Inl e \<Rightarrow> (Some e, sm1)
           | Inr None \<Rightarrow> (None, flush io sm1)
           | Inr (Some i) \<Rightarrow>
               (None, flush io (sm1\<lparr>sm_cache :=
                  Some (AList.update ''pipelines'' (JArr (ps[i := set_active (JBool active) (ps ! i)])) d)\<rparr>))))"

text \<open>\<open>[p for p in ps if p["id"] != pid]\<close>.\<close>

fun without_pipeline :: "string \<Rightarrow> json list \<Rightarrow> py_error + json list" where
  "without_pipeline pid [] = Inr []"
| "without_pipeline pid (p # ps) =
     (case subscript p ''id'' of
        Inl e \<Rightarrow> Inl e
      | Inr i \<Rightarrow>
          (case without_pipeline pid ps of
             Inl e \<Rightarrow> Inl e
           | Inr qs \<Rightarrow> Inr (if i = JStr pid then qs else p # qs)))"

definition remove_pipeline ::
    "sm_io \<Rightarrow> string \<Rightarrow> state_manager \<Rightarrow> py_error option \<times> state_manager" where
  "remove_pipeline io pid sm =
     (let sm1 = ensure_loaded io sm; d = the (sm_cache sm1) in
      case map_of d ''pipelines'' of
        None \<Rightarrow> (None, flush io sm1)
      | Some pl \<Rightarrow>
          (case iterate pl of
             Inl e \<Rightarrow> (Some e, sm1)
           | Inr ps \<Rightarrow>
               (case without_pipeline pid ps of
                  Inl e \<Rightarrow> (Some e, sm1)
                | Inr qs \<Rightarrow>
                    (None, flush io (sm1\<lparr>sm_cache := Some (AList.update ''pipelines'' (JArr qs) d)\<rparr>)))))"

section \<open>Well-formed state\<close>

text \<open>
  What the code keeps true of the cache once a schema-valid configuration is in it: the pipelines are
  a list of dictionaries, each with its id as a string, and no two with the same id.
\<close>

fun pipe_id :: "json \<Rightarrow> string option" where
  "pipe_id (JObj p) = (case map_of p ''id'' of Some (JStr i) \<Rightarrow> Some i | _ \<Rightarrow> None)"
| "pipe_id _ = None"

definition wf_pipes :: "json list \<Rightarrow> bool" where
  "wf_pipes ps \<longleftrightarrow> None \<notin> set (map pipe_id ps) \<and> distinct (map pipe_id ps)"

definition pipes_of :: "jdict \<Rightarrow> json list option" where
  "pipes_of d = (case cached_pipelines d of JArr ps \<Rightarrow> Some ps | _ \<Rightarrow> None)"

definition wf_cache :: "jdict \<Rightarrow> bool" where
  "wf_cache d \<longleftrightarrow> (case pipes_of d of None \<Rightarrow> False | Some ps \<Rightarrow> wf_pipes ps)"

definition sm_inv :: "state_manager \<Rightarrow> bool" where
  "sm_inv sm \<longleftrightarrow> (case sm_cache sm of None \<Rightarrow> False | Some d \<Rightarrow> wf_cache d)"

text \<open>The stored definition of a pipeline: what the session file says about an id.\<close>

definition entry_in :: "json list \<Rightarrow> string \<Rightarrow> json option" where
  "entry_in ps pid = find (\<lambda>p. pipe_id p = Some pid) ps"

definition entry :: "state_manager \<Rightarrow> string \<Rightarrow> json option" where
  "entry sm pid =
     (case sm_cache sm of
        None \<Rightarrow> None
      | Some d \<Rightarrow> (case pipes_of d of None \<Rightarrow> None | Some ps \<Rightarrow> entry_in ps pid))"

text \<open>The session file holds the cache.\<close>

definition persisted :: "state_manager \<Rightarrow> bool" where
  "persisted sm \<longleftrightarrow>
     (case (sm_cache sm, sm_path sm) of
        (Some d, Some path) \<Rightarrow> map_option f_body (map_of (sm_disk sm) path) = Some (Doc (JObj d))
      | _ \<Rightarrow> False)"

section \<open>Flushing\<close>

lemma flush_frame [simp]:
  "sm_cache (flush io sm) = sm_cache sm" "sm_path (flush io sm) = sm_path sm"
  by (auto simp: flush_def Let_def split: option.splits write_outcome.splits)

lemma flush_persists:
  assumes "io_write io = WriteOk" "sm_cache sm = Some d" "d \<noteq> []" "sm_path sm = Some path"
  shows "persisted (flush io sm)"
  using assms by (simp add: persisted_def flush_def Let_def py_dict)

lemma flush_other_files:
  "sm_path sm = Some path \<Longrightarrow> q \<noteq> path \<Longrightarrow> map_of (sm_disk (flush io sm)) q = map_of (sm_disk sm) q"
  by (auto simp: flush_def Let_def py_dict split: option.splits write_outcome.splits)

lemma flush_mode:
  assumes "sm_path sm = Some path"
    and "\<And>f. map_of (sm_disk sm) path = Some f \<Longrightarrow> f_mode f = owner_only"
    and "map_of (sm_disk (flush io sm)) path = Some f"
  shows "f_mode f = owner_only"
  using assms
  by (auto simp: flush_def Let_def py_dict split: option.splits write_outcome.splits if_splits)

lemma entry_flush [simp]: "entry (flush io sm) pid = entry sm pid"
  by (simp add: entry_def)

lemma sm_inv_flush [simp]: "sm_inv (flush io sm) = sm_inv sm"
  by (simp add: sm_inv_def)

lemma ensure_loaded_id [simp]: "sm_inv sm \<Longrightarrow> ensure_loaded io sm = sm"
  by (auto simp: sm_inv_def ensure_loaded_def split: option.splits)

lemma sm_invE:
  assumes "sm_inv sm"
  obtains d ps where "sm_cache sm = Some d" "cached_pipelines d = JArr ps" "wf_pipes ps"
  using assms by (auto simp: sm_inv_def wf_cache_def pipes_of_def split: option.splits json.splits)

lemma cached_pipelines_update [simp]:
  "cached_pipelines (AList.update ''pipelines'' x d) = x"
  by (simp add: cached_pipelines_def py_dict)

lemma update_nonempty [simp]: "AList.update k v d \<noteq> []"
  by (cases d) auto

section \<open>Searching the list\<close>

lemma pipe_id_subscript: "pipe_id p = Some i \<Longrightarrow> subscript p ''id'' = Inr (JStr i)"
  by (cases p) (auto split: option.splits json.splits)

lemma wf_pipes_Cons [simp]:
  "wf_pipes (p # ps) \<longleftrightarrow> (\<exists>i. pipe_id p = Some i \<and> Some i \<notin> set (map pipe_id ps)) \<and> wf_pipes ps"
  by (cases "pipe_id p") (force simp: wf_pipes_def)+

lemma wf_pipes_Nil [simp]: "wf_pipes []"
  by (simp add: wf_pipes_def)

lemma find_pipeline_wf:
  assumes "wf_pipes ps"
  shows "find_pipeline pid ps = Inr None \<and> Some pid \<notin> set (map pipe_id ps) \<or>
         (\<exists>i. find_pipeline pid ps = Inr (Some i) \<and> i < length ps \<and> pipe_id (ps ! i) = Some pid)"
  using assms
proof (induction ps)
  case Nil
  then show ?case by simp
next
  case (Cons p ps)
  then obtain i where i: "pipe_id p = Some i" by auto
  with Cons show ?case by (auto simp: pipe_id_subscript [OF i] simp del: subscript_Inr)
qed

lemma wf_pipes_update:
  "wf_pipes ps \<Longrightarrow> i < length ps \<Longrightarrow> pipe_id q = pipe_id (ps ! i) \<Longrightarrow> wf_pipes (ps[i := q])"
  unfolding wf_pipes_def by (metis list_update_id map_update nth_map)

lemma wf_pipes_snoc:
  "wf_pipes ps \<Longrightarrow> pipe_id q = Some i \<Longrightarrow> Some i \<notin> set (map pipe_id ps) \<Longrightarrow> wf_pipes (ps @ [q])"
  unfolding wf_pipes_def by auto

lemma find_distinct:
  assumes "distinct (map f ps)" "i < length ps" "f (ps ! i) = k"
  shows "find (\<lambda>p. f p = k) ps = Some (ps ! i)"
  using assms
proof (induction ps arbitrary: i)
  case Nil
  then show ?case by simp
next
  case (Cons p ps)
  show ?case
  proof (cases i)
    case 0
    with Cons.prems show ?thesis by simp
  next
    case (Suc j)
    with Cons.prems have "f p \<noteq> k" by (metis distinct.simps(2) length_Cons list.simps(9)
        Suc_less_eq nth_Cons_Suc nth_map nth_mem length_map)
    with Suc Cons show ?thesis by simp
  qed
qed

lemma find_update_other:
  assumes "i < length ps" "f (ps ! i) \<noteq> k" "f q \<noteq> k"
  shows "find (\<lambda>p. f p = k) (ps[i := q]) = find (\<lambda>p. f p = k) ps"
  using assms
proof (induction ps arbitrary: i)
  case Nil
  then show ?case by simp
next
  case (Cons p ps)
  then show ?case by (cases i) auto
qed

lemma entry_in_update:
  assumes "wf_pipes ps" "i < length ps" "pipe_id (ps ! i) = Some pid" "pipe_id q = Some pid"
  shows "entry_in (ps[i := q]) pid' = (if pid' = pid then Some q else entry_in ps pid')"
proof (cases "pid' = pid")
  case True
  have "wf_pipes (ps[i := q])" using assms by (simp add: wf_pipes_update)
  then show ?thesis
    using find_distinct [of pipe_id "ps[i := q]" i "Some pid"] assms True
    by (simp add: entry_in_def wf_pipes_def)
next
  case False
  then show ?thesis using assms find_update_other [of i ps pipe_id "Some pid'" q]
    by (simp add: entry_in_def)
qed

lemma entry_in_snoc:
  assumes "Some pid \<notin> set (map pipe_id ps)" "pipe_id q = Some pid"
  shows "entry_in (ps @ [q]) pid' = (if pid' = pid then Some q else entry_in ps pid')"
  using assms unfolding entry_in_def by (induction ps) auto

lemma entry_in_None: "entry_in ps pid = None \<longleftrightarrow> Some pid \<notin> set (map pipe_id ps)"
  by (force simp: entry_in_def find_None_iff)

lemma entry_in_nth:
  "wf_pipes ps \<Longrightarrow> i < length ps \<Longrightarrow> pipe_id (ps ! i) = Some pid \<Longrightarrow> entry_in ps pid = Some (ps ! i)"
  unfolding entry_in_def wf_pipes_def by (rule find_distinct) auto

lemma without_pipeline_wf:
  "wf_pipes ps \<Longrightarrow> without_pipeline pid ps = Inr (filter (\<lambda>p. pipe_id p \<noteq> Some pid) ps)"
  by (induction ps) (auto simp: pipe_id_subscript simp del: subscript_Inr)

lemma wf_pipes_filter: "wf_pipes ps \<Longrightarrow> wf_pipes (filter P ps)"
  unfolding wf_pipes_def by (auto simp: distinct_map_filter)

lemma entry_in_filter:
  "entry_in (filter (\<lambda>p. pipe_id p \<noteq> Some pid) ps) pid' =
     (if pid' = pid then None else entry_in ps pid')"
  unfolding entry_in_def by (induction ps) auto

lemma pipe_id_set_active [simp]: "pipe_id (set_active a p) = pipe_id p"
  by (cases p) (auto simp: py_dict)

lemma pipe_id_dump [simp]: "pipe_id (dump_pipeline c) = Some (pc_id c)"
  by (simp add: dump_pipeline_def dump_pipeline_fields_def)

lemma get_active_set_active [simp]: "pipe_id p \<noteq> None \<Longrightarrow> get_active (set_active a p) = a"
  by (cases p) (auto simp: py_dict)

section \<open>The operations on a well-formed state\<close>

text \<open>
  On a well-formed state no operation raises, the invariant is kept, and the stored definitions
  change as a map would: the abstract specification is \<open>entry\<close>, and each operation implements a map
  update.  The locale states this as the contract of a pipeline store; \<open>AgentRuntime\<close> relies on it.
\<close>

locale pipeline_store =
  fixes inv :: "'s \<Rightarrow> bool"
    and stored :: "'s \<Rightarrow> string \<Rightarrow> json option"
    and put :: "pipeline_config \<Rightarrow> 's \<Rightarrow> 's"
    and status :: "string \<Rightarrow> bool \<Rightarrow> 's \<Rightarrow> 's"
    and drop_pid :: "string \<Rightarrow> 's \<Rightarrow> 's"
  assumes put_inv: "inv s \<Longrightarrow> inv (put c s)"
    and status_inv: "inv s \<Longrightarrow> inv (status pid a s)"
    and drop_inv: "inv s \<Longrightarrow> inv (drop_pid pid s)"
    and put_stored: "inv s \<Longrightarrow> stored (put c s) =
          (stored s)(pc_id c \<mapsto> set_active (case stored s (pc_id c) of None \<Rightarrow> JBool False
                                             | Some p \<Rightarrow> get_active p) (dump_pipeline c))"
    and status_stored: "inv s \<Longrightarrow> stored (status pid a s) =
          (stored s)(pid := map_option (set_active (JBool a)) (stored s pid))"
    and drop_stored: "inv s \<Longrightarrow> stored (drop_pid pid s) = (stored s)(pid := None)"
begin

text \<open>\<open>_start_pipeline\<close>: store the definition, then mark it active.\<close>

lemma put_then_activate:
  "inv s \<Longrightarrow> stored (status (pc_id c) True (put c s)) =
     (stored s)(pc_id c \<mapsto> set_active (JBool True)
        (set_active (case stored s (pc_id c) of None \<Rightarrow> JBool False | Some p \<Rightarrow> get_active p)
           (dump_pipeline c)))"
  by (auto simp: status_stored put_stored put_inv)

text \<open>Replacing a definition keeps its running flag, a new one starts inactive.\<close>

lemma put_active:
  "inv s \<Longrightarrow> map_option get_active (stored (put c s) (pc_id c)) =
     Some (case stored s (pc_id c) of None \<Rightarrow> JBool False | Some p \<Rightarrow> get_active p)"
  by (simp add: put_stored)

lemma status_other: "inv s \<Longrightarrow> pid' \<noteq> pid \<Longrightarrow> stored (status pid a s) pid' = stored s pid'"
  by (simp add: status_stored)

lemma drop_then_put:
  "inv s \<Longrightarrow> stored (put c (drop_pid (pc_id c) s)) (pc_id c) =
     Some (set_active (JBool False) (dump_pipeline c))"
  by (simp add: put_stored drop_stored drop_inv)

end

lemma update_pipeline_config_wf:
  assumes "sm_inv sm"
  shows "fst (update_pipeline_config io c sm) = None"
    and "sm_inv (snd (update_pipeline_config io c sm))"
    and "entry (snd (update_pipeline_config io c sm)) =
          (entry sm)(pc_id c \<mapsto> set_active (case entry sm (pc_id c) of None \<Rightarrow> JBool False
                                             | Some p \<Rightarrow> get_active p) (dump_pipeline c))"
proof -
  from assms obtain d ps where d: "sm_cache sm = Some d" "cached_pipelines d = JArr ps" "wf_pipes ps"
    by (rule sm_invE)
  have e: "entry sm pid = entry_in ps pid" for pid
    using d by (simp add: entry_def pipes_of_def)
  note defs = update_pipeline_config_def Let_def d assms entry_def sm_inv_def wf_cache_def pipes_of_def e
  from find_pipeline_wf [OF d(3), of "pc_id c"]
  have "fst (update_pipeline_config io c sm) = None \<and> sm_inv (snd (update_pipeline_config io c sm)) \<and>
    entry (snd (update_pipeline_config io c sm)) =
          (entry sm)(pc_id c \<mapsto> set_active (case entry sm (pc_id c) of None \<Rightarrow> JBool False
                                             | Some p \<Rightarrow> get_active p) (dump_pipeline c))"
  proof (elim disjE exE conjE)
    assume *: "find_pipeline (pc_id c) ps = Inr None" "Some (pc_id c) \<notin> set (map pipe_id ps)"
    then have "entry_in ps (pc_id c) = None" by (simp add: entry_in_None)
    with * show ?thesis
      by (auto simp: defs wf_pipes_snoc entry_in_snoc fun_eq_iff)
  next
    fix i
    assume *: "find_pipeline (pc_id c) ps = Inr (Some i)" "i < length ps"
      "pipe_id (ps ! i) = Some (pc_id c)"
    then have "entry_in ps (pc_id c) = Some (ps ! i)" using d(3) by (simp add: entry_in_nth)
    with * show ?thesis
      by (auto simp: defs wf_pipes_update entry_in_update fun_eq_iff)
  qed
  then show "fst (update_pipeline_config io c sm) = None"
    and "sm_inv (snd (update_pipeline_config io c sm))"
    and "entry (snd (update_pipeline_config io c sm)) =
          (entry sm)(pc_id c \<mapsto> set_active (case entry sm (pc_id c) of None \<Rightarrow> JBool False
                                             | Some p \<Rightarrow> get_active p) (dump_pipeline c))"
    by blast+
qed

lemma set_pipeline_status_wf:
  assumes "sm_inv sm"
  shows "fst (set_pipeline_status io pid a sm) = None"
    and "sm_inv (snd (set_pipeline_status io pid a sm))"
    and "entry (snd (set_pipeline_status io pid a sm)) =
          (entry sm)(pid := map_option (set_active (JBool a)) (entry sm pid))"
proof -
  from assms obtain d ps where d: "sm_cache sm = Some d" "cached_pipelines d = JArr ps" "wf_pipes ps"
    by (rule sm_invE)
  have e: "entry sm pid = entry_in ps pid" for pid
    using d by (simp add: entry_def pipes_of_def)
  note defs = set_pipeline_status_def Let_def d assms entry_def sm_inv_def wf_cache_def pipes_of_def e
  from find_pipeline_wf [OF d(3), of pid]
  have "fst (set_pipeline_status io pid a sm) = None \<and> sm_inv (snd (set_pipeline_status io pid a sm)) \<and>
    entry (snd (set_pipeline_status io pid a sm)) =
          (entry sm)(pid := map_option (set_active (JBool a)) (entry sm pid))"
  proof (elim disjE exE conjE)
    assume *: "find_pipeline pid ps = Inr None" "Some pid \<notin> set (map pipe_id ps)"
    then have "entry_in ps pid = None" by (simp add: entry_in_None)
    with * show ?thesis by (auto simp: defs fun_eq_iff)
  next
    fix i
    assume *: "find_pipeline pid ps = Inr (Some i)" "i < length ps" "pipe_id (ps ! i) = Some pid"
    then have "entry_in ps pid = Some (ps ! i)" using d(3) by (simp add: entry_in_nth)
    with * show ?thesis
      by (auto simp: defs wf_pipes_update entry_in_update fun_eq_iff)
  qed
  then show "fst (set_pipeline_status io pid a sm) = None"
    and "sm_inv (snd (set_pipeline_status io pid a sm))"
    and "entry (snd (set_pipeline_status io pid a sm)) =
          (entry sm)(pid := map_option (set_active (JBool a)) (entry sm pid))"
    by blast+
qed

lemma remove_pipeline_wf:
  assumes "sm_inv sm"
  shows "fst (remove_pipeline io pid sm) = None"
    and "sm_inv (snd (remove_pipeline io pid sm))"
    and "entry (snd (remove_pipeline io pid sm)) = (entry sm)(pid := None)"
proof -
  from assms obtain d ps where d: "sm_cache sm = Some d" "cached_pipelines d = JArr ps" "wf_pipes ps"
    by (rule sm_invE)
  have e: "entry sm pid = entry_in ps pid" for pid
    using d by (simp add: entry_def pipes_of_def)
  have m: "map_of d ''pipelines'' = None \<and> ps = [] \<or> map_of d ''pipelines'' = Some (JArr ps)"
    using d(2) by (auto simp: cached_pipelines_def split: option.splits)
  note defs = remove_pipeline_def Let_def d assms entry_def sm_inv_def wf_cache_def pipes_of_def e
  from m have "fst (remove_pipeline io pid sm) = None \<and> sm_inv (snd (remove_pipeline io pid sm)) \<and>
    entry (snd (remove_pipeline io pid sm)) = (entry sm)(pid := None)"
  proof (elim disjE conjE)
    assume "map_of d ''pipelines'' = None" "ps = []"
    then show ?thesis by (auto simp: defs fun_eq_iff entry_in_def)
  next
    assume "map_of d ''pipelines'' = Some (JArr ps)"
    then show ?thesis using d(3)
      by (auto simp: defs without_pipeline_wf wf_pipes_filter entry_in_filter fun_eq_iff)
  qed
  then show "fst (remove_pipeline io pid sm) = None"
    and "sm_inv (snd (remove_pipeline io pid sm))"
    and "entry (snd (remove_pipeline io pid sm)) = (entry sm)(pid := None)"
    by blast+
qed

interpretation sm_store: pipeline_store sm_inv entry
  "\<lambda>c sm. snd (update_pipeline_config io c sm)"
  "\<lambda>pid a sm. snd (set_pipeline_status io pid a sm)"
  "\<lambda>pid sm. snd (remove_pipeline io pid sm)" for io
  by unfold_locales
    (simp_all add: update_pipeline_config_wf set_pipeline_status_wf remove_pipeline_wf)

section \<open>Replacing the whole configuration\<close>

lemma old_active_wf:
  assumes "wf_pipes ps"
  shows "\<exists>old. old_active ps acc = Inr old \<and>
    (\<forall>i. map_of old (JStr i) =
       (case entry_in ps i of None \<Rightarrow> map_of acc (JStr i) | Some p \<Rightarrow> Some (get_active p)))"
  using assms
proof (induction ps arbitrary: acc)
  case Nil
  then show ?case by (simp add: entry_in_def)
next
  case (Cons p ps)
  then obtain i where i: "pipe_id p = Some i" "Some i \<notin> set (map pipe_id ps)" and wf: "wf_pipes ps"
    by auto
  then obtain q where p: "p = JObj q" by (cases p) auto
  have sub: "subscript p ''id'' = Inr (JStr i)" using i(1) by (rule pipe_id_subscript)
  have dflt: "get_default p ''active'' (JBool False) = Inr (get_active p)" by (simp add: p)
  obtain old where old: "old_active ps (AList.update (JStr i) (get_active p) acc) = Inr old"
    "\<And>j. map_of old (JStr j) = (case entry_in ps j of
        None \<Rightarrow> map_of (AList.update (JStr i) (get_active p) acc) (JStr j) | Some p \<Rightarrow> Some (get_active p))"
    using Cons.IH [OF wf] by blast
  have none: "entry_in ps i = None" using i(2) by (simp add: entry_in_None)
  have "old_active (p # ps) acc = Inr old"
    using old(1) sub dflt by (simp del: subscript_Inr)
  moreover have "map_of old (JStr j) = (case entry_in (p # ps) j of
      None \<Rightarrow> map_of acc (JStr j) | Some p \<Rightarrow> Some (get_active p))" for j
    using old(2) [of j] i none by (auto simp: entry_in_def py_dict split: option.splits)
  ultimately show ?case by blast
qed

lemma dump_active [simp]: "set_active (JBool (pc_active c)) (dump_pipeline c) = dump_pipeline c"
  by (simp add: dump_pipeline_def dump_pipeline_fields_def)

lemma keep_active_dump:
  "keep_active old (dump_pipeline c) =
     set_active (case map_of old (JStr (pc_id c)) of None \<Rightarrow> JBool (pc_active c) | Some a \<Rightarrow> a) (dump_pipeline c)"
proof (cases "map_of old (JStr (pc_id c))")
  case None
  then show ?thesis using dump_active [of c]
    by (simp add: dump_pipeline_def dump_pipeline_fields_def dget_def)
next
  case (Some a)
  then show ?thesis by (simp add: dump_pipeline_def dump_pipeline_fields_def dget_def)
qed

lemma find_map_id:
  "(\<And>x. h (f x) = Some (g x)) \<Longrightarrow>
   find (\<lambda>p. h p = Some k) (map f xs) = map_option f (find (\<lambda>x. g x = k) xs)"
  by (induction xs) auto

definition distinct_ids :: "agent_config \<Rightarrow> bool" where
  "distinct_ids c \<longleftrightarrow> distinct (map pc_id (ac_pipelines c))"

lemma wf_pipes_map:
  "(\<And>x. pipe_id (f x) = Some (g x)) \<Longrightarrow> distinct (map g xs) \<Longrightarrow> wf_pipes (map f xs)"
  unfolding wf_pipes_def by (auto simp: distinct_map inj_on_def)

lemma update_full_config_wf:
  assumes "sm_inv sm" "distinct_ids c"
  shows "fst (update_full_config io c sm) = None"
    and "sm_inv (snd (update_full_config io c sm))"
    and "entry (snd (update_full_config io c sm)) pid =
      map_option (\<lambda>q. set_active (case entry sm pid of None \<Rightarrow> JBool (pc_active q) | Some p \<Rightarrow> get_active p)
                        (dump_pipeline q))
        (find (\<lambda>q. pc_id q = pid) (ac_pipelines c))"
proof -
  from assms(1) obtain d ps where d: "sm_cache sm = Some d" "cached_pipelines d = JArr ps" "wf_pipes ps"
    by (rule sm_invE)
  obtain old where old: "old_active ps [] = Inr old"
    "\<And>i. map_of old (JStr i) = map_option get_active (entry_in ps i)"
    using old_active_wf [OF d(3), of "[]"] by (force simp: map_option_case split: option.splits)
  have e: "entry sm pid = entry_in ps pid" for pid
    using d by (simp add: entry_def pipes_of_def)
  let ?f = "\<lambda>q. keep_active old (dump_pipeline q)"
  have idf: "pipe_id (?f q) = Some (pc_id q)" for q by (simp add: keep_active_dump)
  have r: "update_full_config io c sm = (None, flush io (sm\<lparr>sm_cache :=
      Some (AList.update ''pipelines'' (JArr (map ?f (ac_pipelines c))) (dump_agent_fields c))\<rparr>))"
    using d old(1) assms(1)
    by (simp add: update_full_config_def Let_def dump_agent_fields_def comp_def)
  show "fst (update_full_config io c sm) = None" by (simp add: r)
  have "wf_pipes (map ?f (ac_pipelines c))"
    using assms(2) by (intro wf_pipes_map [OF idf]) (simp add: distinct_ids_def)
  then show "sm_inv (snd (update_full_config io c sm))"
    by (simp add: r sm_inv_def wf_cache_def pipes_of_def)
  have "entry_in (map ?f (ac_pipelines c)) pid = map_option ?f (find (\<lambda>q. pc_id q = pid) (ac_pipelines c))"
    unfolding entry_in_def by (rule find_map_id) (rule idf)
  then show "entry (snd (update_full_config io c sm)) pid =
      map_option (\<lambda>q. set_active (case entry sm pid of None \<Rightarrow> JBool (pc_active q) | Some p \<Rightarrow> get_active p)
                        (dump_pipeline q))
        (find (\<lambda>q. pc_id q = pid) (ac_pipelines c))"
    using d by (cases "find (\<lambda>q. pc_id q = pid) (ac_pipelines c)")
      (auto simp: r entry_def pipes_of_def keep_active_dump old(2) dest!: find_holds split: option.splits)
qed

section \<open>Sequences of operations and recovery\<close>

datatype sm_op =
    OpPut pipeline_config
  | OpStatus string bool
  | OpRemove string
  | OpFull agent_config

fun sm_step :: "sm_io \<Rightarrow> sm_op \<Rightarrow> state_manager \<Rightarrow> state_manager" where
  "sm_step io (OpPut c) sm = snd (update_pipeline_config io c sm)"
| "sm_step io (OpStatus pid a) sm = snd (set_pipeline_status io pid a sm)"
| "sm_step io (OpRemove pid) sm = snd (remove_pipeline io pid sm)"
| "sm_step io (OpFull c) sm = snd (update_full_config io c sm)"

fun sm_op_ok :: "sm_op \<Rightarrow> bool" where
  "sm_op_ok (OpFull c) = (distinct_ids c \<and> ac_version c = SCHEMA_VERSION)"
| "sm_op_ok _ = True"

definition sm_run :: "sm_io \<Rightarrow> sm_op list \<Rightarrow> state_manager \<Rightarrow> state_manager" where
  "sm_run io ops sm = fold (sm_step io) ops sm"

text \<open>
  Every operation on a well-formed state ends in one flush of a new cache, or of the same one; the
  path and the other files are left alone, and the version stays the supported one.
\<close>

definition version_ok :: "jdict \<Rightarrow> bool" where
  "version_ok d \<longleftrightarrow> py_eq (dget d ''version'') (JFloat SCHEMA_VERSION)"

lemma version_ok_update [simp]: "version_ok (AList.update ''pipelines'' x d) = version_ok d"
  by (simp add: version_ok_def dget_def py_dict)

lemma version_ok_dump [simp]: "ac_version c = SCHEMA_VERSION \<Longrightarrow> version_ok (dump_agent_fields c)"
  by (simp add: version_ok_def dump_agent_fields_def dget_def)

lemma sm_step_flush:
  assumes "sm_inv sm" "sm_op_ok op" "sm_cache sm = Some d" "version_ok d"
  shows "\<exists>d'. sm_step io op sm = flush io (sm\<lparr>sm_cache := Some d'\<rparr>) \<and> version_ok d' \<and> wf_cache d'"
proof -
  from assms(1) obtain d0 ps where d: "sm_cache sm = Some d0" "cached_pipelines d0 = JArr ps" "wf_pipes ps"
    by (rule sm_invE)
  with assms have v: "version_ok d0" and self: "sm = sm\<lparr>sm_cache := Some d0\<rparr>" by auto
  have inv': "sm_inv (sm_step io op sm)"
    using assms(1,2)
    by (cases op) (simp_all add: update_pipeline_config_wf set_pipeline_status_wf remove_pipeline_wf
        update_full_config_wf)
  have "\<exists>d'. sm_step io op sm = flush io (sm\<lparr>sm_cache := Some d'\<rparr>) \<and> version_ok d'"
  proof (cases op)
    case (OpPut c)
    with find_pipeline_wf [OF d(3), of "pc_id c"] show ?thesis using d v assms(1)
      by (auto simp: update_pipeline_config_def Let_def)
  next
    case (OpStatus pid a)
    with find_pipeline_wf [OF d(3), of pid] show ?thesis using d v assms(1)
      by (auto simp: set_pipeline_status_def Let_def simp flip: self)
  next
    case (OpRemove pid)
    have "map_of d0 ''pipelines'' = None \<or> map_of d0 ''pipelines'' = Some (JArr ps)"
      using d(2) by (auto simp: cached_pipelines_def split: option.splits)
    moreover have "\<exists>d'. flush io sm = flush io (sm\<lparr>sm_cache := Some d'\<rparr>) \<and> version_ok d'"
      using self v by metis
    ultimately show ?thesis using d v assms(1) OpRemove
      by (auto simp: remove_pipeline_def Let_def without_pipeline_wf)
  next
    case (OpFull c)
    obtain old where "old_active ps [] = Inr old" using old_active_wf [OF d(3), of "[]"] by blast
    with OpFull d v assms show ?thesis
      by (auto simp: update_full_config_def Let_def split: option.splits)
  qed
  with inv' show ?thesis by (auto simp: sm_inv_def)
qed

text \<open>The state that a crash leaves recoverable: its session file is the newest and holds the cache.\<close>

definition recoverable :: "state_manager \<Rightarrow> bool" where
  "recoverable sm \<longleftrightarrow> sm_inv sm \<and> persisted sm \<and> version_ok (the (sm_cache sm)) \<and>
     get_latest_session_file sm = sm_path sm"

lemma latest_eq:
  "get_latest_session_file sm = Some path \<longleftrightarrow>
     path \<in> set (keys (sm_disk sm)) \<and> is_session_path path \<and>
     (\<forall>q \<in> set (keys (sm_disk sm)). is_session_path q \<longrightarrow> q \<le> path)"
proof (cases "filter is_session_path (keys (sm_disk sm)) = []")
  case True
  then show ?thesis
    by (simp add: get_latest_session_file_def filter_empty_conv) blast
next
  case False
  then show ?thesis using last_sort_iff [OF False, of path]
    by (simp add: get_latest_session_file_def Let_def) blast
qed

lemma flush_keys:
  "sm_path sm = Some path \<Longrightarrow> path \<in> set (keys (sm_disk sm)) \<Longrightarrow>
   set (keys (sm_disk (flush io sm))) = set (keys (sm_disk sm))"
  by (auto simp: flush_def Let_def py_dict split: option.splits write_outcome.splits)

lemma wf_cache_nonempty: "version_ok d \<Longrightarrow> d \<noteq> []"
  by (auto simp: version_ok_def dget_def)

lemma persisted_path: "persisted sm \<Longrightarrow> \<exists>path. sm_path sm = Some path \<and> path \<in> set (keys (sm_disk sm))"
  by (auto simp: persisted_def map_option_case split: option.splits dest!: map_of_SomeD)
     (metis fst_conv imageI)

lemma recoverable_step:
  assumes "recoverable sm" "sm_op_ok op" "io_write io = WriteOk"
  shows "recoverable (sm_step io op sm)"
proof -
  from assms(1) obtain d where d: "sm_cache sm = Some d" "version_ok d" "sm_inv sm" "persisted sm"
    "get_latest_session_file sm = sm_path sm"
    unfolding recoverable_def sm_inv_def by (auto split: option.splits)
  obtain path where path: "sm_path sm = Some path" "path \<in> set (keys (sm_disk sm))"
    using persisted_path [OF d(4)] by blast
  obtain d' where d': "sm_step io op sm = flush io (sm\<lparr>sm_cache := Some d'\<rparr>)" "version_ok d'" "wf_cache d'"
    using sm_step_flush [OF d(3) assms(2) d(1,2)] by blast
  let ?sm = "flush io (sm\<lparr>sm_cache := Some d'\<rparr>)"
  have "persisted ?sm"
    using flush_persists [OF assms(3)] wf_cache_nonempty [OF d'(2)] path by simp
  moreover have "set (keys (sm_disk ?sm)) = set (keys (sm_disk sm))"
    using flush_keys [of "sm\<lparr>sm_cache := Some d'\<rparr>" path] path by simp
  then have "get_latest_session_file ?sm = sm_path ?sm"
    using d(5) path by (simp add: latest_eq)
  ultimately show ?thesis using d' by (simp add: recoverable_def sm_inv_def)
qed

lemma recoverable_run:
  assumes "recoverable sm" "list_all sm_op_ok ops" "io_write io = WriteOk"
  shows "recoverable (sm_run io ops sm)"
  using assms unfolding sm_run_def
  by (induction ops arbitrary: sm) (simp_all add: recoverable_step)

text \<open>A \<open>StateManager\<close> of a new process: nothing in memory, the files of the old one.\<close>

definition fresh_manager :: "(string, disk_file) dict \<Rightarrow> state_manager" where
  "fresh_manager disk = \<lparr>sm_cache = None, sm_path = None, sm_disk = disk\<rparr>"

lemma recoverable_load:
  assumes "recoverable sm"
  shows "fst (load_state io None (fresh_manager (sm_disk sm))) = sm_cache sm"
proof -
  from assms obtain d path where d: "sm_cache sm = Some d" "version_ok d"
    and p: "sm_path sm = Some path" "get_latest_session_file sm = Some path"
    and f: "map_option f_body (map_of (sm_disk sm) path) = Some (Doc (JObj d))"
    unfolding recoverable_def sm_inv_def persisted_def by (auto split: option.splits)
  have "get_latest_session_file (fresh_manager (sm_disk sm)) = Some path"
    using p(2) by (simp add: latest_eq fresh_manager_def)
  with d f show ?thesis
    by (auto simp: load_state_def load_from_def fresh_manager_def version_ok_def Let_def
        simp del: py_eq.simps)
qed

lemma bootstrap_cache:
  "bootstrap io t c sm = flush io (sm\<lparr>sm_path := Some (session_file t), sm_cache := Some (dump_agent_fields c)\<rparr>)"
proof -
  have "ensure_active \<circ> dump_pipeline = dump_pipeline"
    by (simp add: fun_eq_iff dump_pipeline_def dump_pipeline_fields_def)
  then show ?thesis by (simp add: bootstrap_def dump_agent_fields_def Let_def)
qed

lemma is_session_path_file: "CHR ''/'' \<notin> set t \<Longrightarrow> is_session_path (session_file t)"
  by (simp add: is_session_path_def session_file_def STATE_DIR_def Let_def endswith_def)

lemma bootstrap_recoverable:
  assumes "distinct_ids c" "ac_version c = SCHEMA_VERSION" "io_write io = WriteOk"
    and "CHR ''/'' \<notin> set t"
    and "\<And>q. q \<in> set (keys (sm_disk sm)) \<Longrightarrow> is_session_path q \<Longrightarrow> q \<le> session_file t"
  shows "recoverable (bootstrap io t c sm)"
proof -
  let ?sm = "sm\<lparr>sm_path := Some (session_file t), sm_cache := Some (dump_agent_fields c)\<rparr>"
  have wf: "sm_inv (flush io ?sm)"
    using assms(1)
    by (auto simp: sm_inv_def wf_cache_def pipes_of_def cached_pipelines_def dump_agent_fields_def
        distinct_ids_def intro!: wf_pipes_map)
  have pers: "persisted (flush io ?sm)"
    by (rule flush_persists [OF assms(3), of _ "dump_agent_fields c"]) (simp_all add: dump_agent_fields_def)
  have "set (keys (sm_disk (flush io ?sm))) = insert (session_file t) (set (keys (sm_disk sm)))"
    using assms(3) by (simp add: flush_def Let_def dump_agent_fields_def py_dict)
  then have "get_latest_session_file (flush io ?sm) = Some (session_file t)"
    using assms(4,5) is_session_path_file by (auto simp: latest_eq)
  with wf pers assms(2) show ?thesis by (simp add: bootstrap_cache recoverable_def)
qed

section \<open>Properties\<close>

text \<open>
  C4. Crash recovery: after \<open>bootstrap\<close> opens the newest session and any sequence of pipeline
  updates, status changes, removals and full configuration swaps has run, a \<open>StateManager\<close> of a new
  process loads from disk exactly what the old process had in memory.
\<close>

theorem crash_recovery:
  assumes "distinct_ids c" "ac_version c = SCHEMA_VERSION" "io_write io = WriteOk"
    and "CHR ''/'' \<notin> set t"
    and "\<forall>q \<in> set (keys disk). is_session_path q \<longrightarrow> q \<le> session_file t"
    and "list_all sm_op_ok ops"
  shows "fst (load_state io None (fresh_manager
            (sm_disk (sm_run io ops (bootstrap io t c (fresh_manager disk)))))) =
         sm_cache (sm_run io ops (bootstrap io t c (fresh_manager disk)))"
proof (rule recoverable_load, rule recoverable_run)
  show "recoverable (bootstrap io t c (fresh_manager disk))"
    using assms by (intro bootstrap_recoverable) (auto simp: fresh_manager_def)
qed (use assms in auto)

definition sample_pipeline :: pipeline_config where
  "sample_pipeline = \<lparr>pc_id = ''m'', pc_active = False,
     pc_source = \<lparr>gc_type = ''language_model'', gc_args = [(''model_path'', JStr ''models/a.gguf'')]\<rparr>,
     pc_sink = None\<rparr>"

definition sample_config :: agent_config where
  "sample_config = \<lparr>ac_version = ''2.1'',
     ac_identity = \<lparr>device_id = ''d'', device_name = ''n'', api_url = None, api_key = None\<rparr>,
     ac_transport = None, ac_logging = default_logging, ac_reporting = default_reporting,
     ac_pipelines = [sample_pipeline]\<rparr>"

lemma sample_config_ok: "distinct_ids sample_config" "ac_version sample_config = SCHEMA_VERSION"
  by (simp_all add: distinct_ids_def sample_config_def SCHEMA_VERSION_def)

theorem crash_recovery_witness:
  "fst (load_state io_ok None (fresh_manager (sm_disk (sm_run io_ok [OpStatus ''m'' True]
     (bootstrap io_ok ''2'' sample_config (fresh_manager [])))))) =
   sm_cache (sm_run io_ok [OpStatus ''m'' True] (bootstrap io_ok ''2'' sample_config (fresh_manager [])))"
  using crash_recovery [of sample_config io_ok "''2''" "[]" "[OpStatus ''m'' True]"]
  by (simp add: sample_config_ok io_ok_def)

text \<open>
  Hot reconfiguration keeps running flags: after \<open>update_full_config\<close> an id holds exactly the new
  definition when the new configuration has it, with the running flag the old state recorded for
  that id, or the configured flag for a new id; an id the configuration drops is gone.
\<close>

lemma full_config_keeps_active:
  assumes "sm_inv sm" "distinct_ids c"
  shows "fst (update_full_config io c sm) = None \<and>
    entry (snd (update_full_config io c sm)) pid =
      map_option (\<lambda>q. set_active (case entry sm pid of None \<Rightarrow> JBool (pc_active q) | Some p \<Rightarrow> get_active p)
                        (dump_pipeline q))
        (find (\<lambda>q. pc_id q = pid) (ac_pipelines c))"
  using update_full_config_wf [OF assms] by blast

lemma full_config_keeps_active_witness:
  "entry (snd (update_full_config io_ok sample_config (bootstrap io_ok ''1'' sample_config (fresh_manager [])))) ''m'' =
     Some (dump_pipeline sample_pipeline)"
proof -
  have i: "sm_inv (bootstrap io_ok ''1'' sample_config (fresh_manager []))"
    using bootstrap_recoverable [of sample_config io_ok "''1''" "fresh_manager []"]
    by (simp add: recoverable_def sample_config_ok io_ok_def fresh_manager_def)
  have e: "entry (bootstrap io_ok ''1'' sample_config (fresh_manager [])) ''m'' = Some (dump_pipeline sample_pipeline)"
    by (simp add: bootstrap_cache entry_def pipes_of_def cached_pipelines_def dump_agent_fields_def
        sample_config_def entry_in_def sample_pipeline_def)
  show ?thesis
    using full_config_keeps_active [OF i sample_config_ok(1), of io_ok "''m''"] e
    by (simp add: sample_config_def sample_pipeline_def dump_pipeline_def dump_pipeline_fields_def)
qed

text \<open>
  A revert restores the session: taking a snapshot, running any operations and restoring the
  snapshot leaves the same stored state as before, and the session file holds it again.
\<close>

lemma snapshot_restore:
  assumes "recoverable sm" "list_all sm_op_ok ops" "io_write io = WriteOk"
  shows "sm_cache (restore io (snapshot sm) (sm_run io ops sm)) = sm_cache sm \<and>
         persisted (restore io (snapshot sm) (sm_run io ops sm))"
proof -
  from assms(1) obtain d where d: "sm_cache sm = Some d" "d \<noteq> []"
    unfolding recoverable_def sm_inv_def by (auto split: option.splits dest: wf_cache_nonempty)
  have "recoverable (sm_run io ops sm)" using assms by (rule recoverable_run)
  then obtain path where "sm_path (sm_run io ops sm) = Some path"
    using persisted_path unfolding recoverable_def by blast
  with flush_persists [OF assms(3), of _ d path] d show ?thesis
    by (simp add: restore_def snapshot_def)
qed

lemma snapshot_restore_witness:
  "sm_cache (restore io_ok (snapshot (bootstrap io_ok ''2'' sample_config (fresh_manager [])))
     (sm_run io_ok [OpRemove ''m''] (bootstrap io_ok ''2'' sample_config (fresh_manager [])))) =
   sm_cache (bootstrap io_ok ''2'' sample_config (fresh_manager []))"
proof -
  have "recoverable (bootstrap io_ok ''2'' sample_config (fresh_manager []))"
    by (rule bootstrap_recoverable) (simp_all add: sample_config_ok io_ok_def fresh_manager_def)
  from snapshot_restore [OF this, of "[OpRemove ''m'']" io_ok] show ?thesis
    by (simp add: io_ok_def)
qed

text \<open>The session file in use is readable by its owner only.\<close>

definition sm_private :: "state_manager \<Rightarrow> bool" where
  "sm_private sm \<longleftrightarrow>
     (case sm_path sm of
        None \<Rightarrow> True
      | Some path \<Rightarrow> (case map_of (sm_disk sm) path of None \<Rightarrow> True | Some f \<Rightarrow> f_mode f = owner_only))"

lemma private_flush: "sm_private sm \<Longrightarrow> sm_private (flush io sm)"
  by (auto simp: sm_private_def split: option.splits intro: flush_mode [where io = io and sm = sm])

lemma private_cache [simp]: "sm_private (sm\<lparr>sm_cache := c\<rparr>) = sm_private sm"
  by (simp add: sm_private_def split: option.splits)

lemma load_from_private:
  "sm_private sm \<Longrightarrow> io_chmod io \<Longrightarrow> sm_private (snd (load_from io path sm))"
  by (auto simp: sm_private_def load_from_def tighten_permissions_def Let_def py_dict
      split: option.splits file_body.splits json.splits)

lemma load_state_private:
  "sm_private sm \<Longrightarrow> io_chmod io \<Longrightarrow> sm_private (snd (load_state io p sm))"
  by (auto simp: load_state_def load_from_private split: option.splits list.splits)

lemma ensure_loaded_private:
  "sm_private sm \<Longrightarrow> io_chmod io \<Longrightarrow> sm_private (ensure_loaded io sm)"
  using load_state_private [of sm io None]
  by (auto simp: ensure_loaded_def split: option.splits prod.splits list.splits)

lemma sm_step_private:
  "sm_private sm \<Longrightarrow> io_chmod io \<Longrightarrow> sm_private (sm_step io op sm)"
  using ensure_loaded_private [of sm io]
  by (cases op)
    (auto simp: update_pipeline_config_def set_pipeline_status_def remove_pipeline_def
      update_full_config_def Let_def private_flush split: option.splits sum.splits)

text \<open>
  Secrets stay private: a session opened by \<open>bootstrap\<close> on a new file, or by a successful
  \<open>load_state\<close>, has mode 0600, and no sequence of operations makes it readable by others.
\<close>

lemma session_files_private:
  assumes "io_chmod io" "map_of disk (session_file t) = None"
  shows "sm_private (sm_run io ops (bootstrap io t c (fresh_manager disk))) \<and>
         sm_private (sm_run io ops (snd (load_state io p (fresh_manager disk))))"
proof -
  have run: "sm_private sm \<Longrightarrow> sm_private (sm_run io ops sm)" for sm
    unfolding sm_run_def by (induction ops arbitrary: sm) (simp_all add: sm_step_private assms(1))
  have "sm_private (bootstrap io t c (fresh_manager disk))"
    unfolding bootstrap_cache
    by (rule private_flush) (simp add: sm_private_def fresh_manager_def assms(2))
  moreover have "sm_private (snd (load_state io p (fresh_manager disk)))"
    by (rule load_state_private) (simp_all add: sm_private_def fresh_manager_def assms(1))
  ultimately show ?thesis using run by blast
qed

lemma session_files_private_witness:
  "sm_private (sm_run io_ok [OpRemove ''m''] (bootstrap io_ok ''1'' sample_config (fresh_manager [])))"
  using session_files_private [of io_ok "[]" "''1''"] by (simp add: io_ok_def)

end
