(* ===== verification/Reporter.thy ===== *)
theory Reporter
  imports Models
begin

text \<open>
  Structured status events, \<open>src/link/utils/logger.py\<close>: the \<open>LinkReporter\<close> methods and what an
  \<open>AsyncHandler\<close> does with a record.  A record is the payload with its route key and the context that
  fills the destination template.  Each reporter method returns the records it logs, none when the id
  it would be filed under is empty.
\<close>

datatype report =
    CommandReport string string string
      \<comment> \<open>command id, status, output\<close>
  | ModelReport string jdict
      \<comment> \<open>model id, the attributes that are not \<open>None\<close>\<close>
  | ProgressReport string string int int int
      \<comment> \<open>model id, stage, percentage, bytes done, total bytes\<close>
  | LifecycleReport string
      \<comment> \<open>status\<close>

definition report_command :: "string \<Rightarrow> string \<Rightarrow> string \<Rightarrow> report list" where
  "report_command cid status output = (if cid = [] then [] else [CommandReport cid status output])"

definition report_model :: "string \<Rightarrow> jdict \<Rightarrow> report list" where
  "report_model mid kwargs =
     (if mid = [] then []
      else let payload = filter (\<lambda>(k, v). v \<noteq> JNull) kwargs in
           if payload = [] then [] else [ModelReport mid payload])"

definition report_deployment_progress :: "string \<Rightarrow> string \<Rightarrow> int \<Rightarrow> int \<Rightarrow> int \<Rightarrow> report list" where
  "report_deployment_progress mid stage pct bytes_done total_bytes =
     (if mid = [] then [] else [ProgressReport mid stage pct bytes_done total_bytes])"

definition report_lifecycle :: "string \<Rightarrow> report list" where
  "report_lifecycle status = [LifecycleReport status]"

text \<open>The keyword arguments of a model report, in the order the runtime passes them.\<close>

definition model_kwargs :: "bool \<Rightarrow> int \<Rightarrow> bool \<Rightarrow> int \<Rightarrow> json \<Rightarrow> jdict" where
  "model_kwargs running pid serving serving_pid serving_port =
     [(''running'', JBool running), (''pid'', JInt pid), (''serving'', JBool serving),
      (''serving_pid'', JInt serving_pid), (''serving_port'', serving_port)]"

section \<open>Routing a record\<close>

text \<open>The payload, the route key and the context of a record; the agent's version may be unknown.\<close>

fun route_key :: "report \<Rightarrow> string" where
  "route_key (CommandReport _ _ _) = ''command_status''"
| "route_key (ModelReport _ _) = ''model_status''"
| "route_key (ProgressReport _ _ _ _ _) = ''deployment_progress''"
| "route_key (LifecycleReport _) = ''lifecycle_status''"

fun report_context :: "report \<Rightarrow> (string, string) dict" where
  "report_context (CommandReport cid _ _) = [(''cid'', cid)]"
| "report_context (ModelReport mid _) = [(''mid'', mid)]"
| "report_context (ProgressReport mid _ _ _ _) = [(''mid'', mid)]"
| "report_context (LifecycleReport _) = []"

fun report_payload :: "string option \<Rightarrow> report \<Rightarrow> jdict" where
  "report_payload v (CommandReport _ status output) = [(''status'', JStr status), (''output'', JStr output)]"
| "report_payload v (ModelReport _ payload) = payload"
| "report_payload v (ProgressReport _ stage pct bdone btotal) =
     [(''stage'', JStr stage), (''progress_pct'', JFloat (show_int pct @ ''.0'')),
      (''bytes_done'', JInt bdone), (''total_bytes'', JInt btotal)]"
| "report_payload v (LifecycleReport status) =
     [(''status'', JStr status)] @
     (case v of None \<Rightarrow> [] | Some x \<Rightarrow> if x = [] then [] else [(''agent_version'', JStr x)]) @
     (if status = ''offline''
      then [(''metrics'', JObj [(''cpu_usage'', JInt 0), (''ram_usage'', JInt 0),
              (''temperature_celsius'', JInt 0), (''storage_available_gb'', JInt 0)])]
      else [])"

text \<open>
  \<open>template.format(**context)\<close> for templates whose only braces are replacement fields \<open>{name}\<close> and the
  doubled braces that stand for a single one; \<open>None\<close> is the \<open>KeyError\<close> of an unknown name, or the
  \<open>ValueError\<close> of an unbalanced brace.
\<close>

function format_template :: "(string, string) dict \<Rightarrow> string \<Rightarrow> string option" where
  "format_template ctx [] = Some []"
| "format_template ctx (c # s) =
     (if c = CHR ''{'' then
        (if s \<noteq> [] \<and> hd s = CHR ''{'' then map_option (Cons (CHR ''{'')) (format_template ctx (tl s))
         else
           (let name = takeWhile (\<lambda>x. x \<noteq> CHR ''}'') s; rest = dropWhile (\<lambda>x. x \<noteq> CHR ''}'') s in
            if rest = [] then None
            else case map_of ctx name of
                   None \<Rightarrow> None
                 | Some v \<Rightarrow> map_option (\<lambda>t. v @ t) (format_template ctx (tl rest))))
      else if c = CHR ''}'' then
        (if s \<noteq> [] \<and> hd s = CHR ''}'' then map_option (Cons (CHR ''}'')) (format_template ctx (tl s)) else None)
      else map_option (Cons c) (format_template ctx s))"
  by pat_completeness auto
termination
proof (relation "measure (\<lambda>(ctx, s). length s)", goal_cases)
  case (3 ctx c s x xa y)
  have "length (dropWhile (\<lambda>x. x \<noteq> CHR ''}'') s) \<le> length s" by (rule length_dropWhile_le)
  with 3 show ?case by (simp add: le_imp_less_Suc)
qed auto

text \<open>
  An \<open>AsyncHandler\<close>: the templates, its bounded queue, the stop flag and the number of records it
  dropped because the queue was full.
\<close>

record async_handler =
  ah_templates :: "(string, string) dict"
  ah_queue :: "(string \<times> jdict \<times> string) list"
  ah_stopped :: bool
  ah_dropped :: nat

definition QUEUE_MAX :: nat where
  "QUEUE_MAX = 1000"

definition emit :: "string option \<Rightarrow> report \<Rightarrow> async_handler \<Rightarrow> async_handler" where
  "emit v r h =
     (if ah_stopped h then h
      else case map_of (ah_templates h) (route_key r) of
        None \<Rightarrow> h
      | Some [] \<Rightarrow> h
      | Some template \<Rightarrow>
          (case format_template (report_context r) template of
             None \<Rightarrow> h
           | Some target \<Rightarrow>
               if length (ah_queue h) < QUEUE_MAX
               then h\<lparr>ah_queue := ah_queue h @ [(target, report_payload v r, route_key r)]\<rparr>
               else h\<lparr>ah_dropped := Suc (ah_dropped h)\<rparr>))"

text \<open>
  The delivery of one record by \<open>AsyncHTTPHandler\<close>: up to three attempts, a 5xx answer and a
  connection error are retried, any other answer ends it.  \<open>http i\<close> is the outcome of attempt \<open>i\<close>:
  \<open>Some\<close> status, or \<open>None\<close> for a timeout or connection error.  The result is whether the record was
  accepted, and the number of attempts made.
\<close>

definition MAX_RETRIES :: nat where
  "MAX_RETRIES = 2"

function transport_emit_from :: "(nat \<Rightarrow> nat option) \<Rightarrow> nat \<Rightarrow> bool \<times> nat" where
  "transport_emit_from http attempt =
     (if MAX_RETRIES < attempt then (False, attempt)
      else case http attempt of
        Some status \<Rightarrow>
          if status < 500 then (status < 400, Suc attempt)
          else if MAX_RETRIES \<le> attempt then (False, Suc attempt)
          else transport_emit_from http (Suc attempt)
      | None \<Rightarrow>
          if MAX_RETRIES \<le> attempt then (False, Suc attempt)
          else transport_emit_from http (Suc attempt))"
  by pat_completeness auto
termination
  by (relation "measure (\<lambda>(http, attempt). MAX_RETRIES - attempt)") auto

declare transport_emit_from.simps [simp del]

definition transport_emit :: "(nat \<Rightarrow> nat option) \<Rightarrow> bool \<times> nat" where
  "transport_emit http = transport_emit_from http 0"

section \<open>Facts\<close>

lemma emit_queue_bounded: "length (ah_queue h) \<le> QUEUE_MAX \<Longrightarrow> length (ah_queue (emit v r h)) \<le> QUEUE_MAX"
  by (auto simp: emit_def split: option.splits list.splits)

lemma transport_emit_from_attempts:
  "attempt \<le> MAX_RETRIES \<Longrightarrow> attempt < snd (transport_emit_from http attempt) \<and>
   snd (transport_emit_from http attempt) \<le> Suc MAX_RETRIES"
proof (induction http attempt rule: transport_emit_from.induct)
  case (1 http attempt)
  then show ?case
    by (subst (1 2) transport_emit_from.simps) (auto split: option.splits)
qed

lemma report_command_ids: "CommandReport c st out \<in> set (report_command cid status output) \<Longrightarrow> c = cid"
  by (simp add: report_command_def split: if_splits)

end
