(* ===== verification/Paths.thy ===== *)
theory Paths
  imports Prelude
begin

text \<open>
  Paths as \<open>pathlib.PurePosixPath\<close> sees them: a root (empty, one slash, or the two slashes POSIX
  reserves) and the parts between slashes without the empty ones and the dots; \<open>..\<close> stays a part.
  Two paths are equal when root and parts are, so \<open>models/x\<close> and \<open>/cwd/models/x\<close> are different
  paths to the same file.
\<close>

type_synonym ppath = "string \<times> string list"

definition path_parts :: "string \<Rightarrow> string list" where
  "path_parts s = filter (\<lambda>w. w \<noteq> [] \<and> w \<noteq> ''.'') (split_char (CHR ''/'') s)"

definition path_root :: "string \<Rightarrow> string" where
  "path_root s =
     (if startswith s ''//'' \<and> \<not> startswith s ''///'' then ''//''
      else if startswith s ''/'' then ''/'' else [])"

definition path_of :: "string \<Rightarrow> ppath" where
  "path_of s = (path_root s, path_parts s)"

definition path_name :: "ppath \<Rightarrow> string" where
  "path_name p = (if snd p = [] then [] else last (snd p))"

text \<open>\<open>p / s\<close> and \<open>p.with_name(name)\<close> for a path that has a name.\<close>

definition path_append :: "ppath \<Rightarrow> string \<Rightarrow> ppath" where
  "path_append p s = (if path_root s = [] then (fst p, snd p @ path_parts s) else path_of s)"

definition with_name :: "ppath \<Rightarrow> string \<Rightarrow> ppath" where
  "with_name p name = (fst p, butlast (snd p) @ [name])"

text \<open>The file a path denotes: a relative path starts at the working directory.\<close>

definition resolve_at :: "ppath \<Rightarrow> ppath \<Rightarrow> ppath" where
  "resolve_at cwd p = (if fst p = [] then (fst cwd, snd cwd @ snd p) else p)"

section \<open>The guards on names that come from the wire\<close>

definition is_safe_basename :: "string \<Rightarrow> bool" where
  "is_safe_basename name =
     (if name = [] \<or> name = ''.'' \<or> name = ''..'' then False
      else if CHR ''/'' \<in> set name \<or> chr_bslash \<in> set name \<or> chr_nul \<in> set name then False
      else path_name (path_of name) = name)"

definition is_safe_extension :: "string \<Rightarrow> bool" where
  "is_safe_extension ext =
     (if ext = [] then False
      else if CHR ''/'' \<in> set ext \<or> chr_bslash \<in> set ext \<or> chr_nul \<in> set ext \<or> ext = ''.'' \<or> ext = ''..''
      then False else True)"

section \<open>Facts\<close>

lemma path_parts_plain:
  "CHR ''/'' \<notin> set s \<Longrightarrow> path_parts s = (if s = [] \<or> s = ''.'' then [] else [s])"
  by (simp add: path_parts_def split_char_no_sep)

lemma path_root_plain: "CHR ''/'' \<notin> set s \<Longrightarrow> path_root s = []"
  by (cases s) (auto simp: path_root_def)

lemma path_append_plain:
  "CHR ''/'' \<notin> set s \<Longrightarrow> s \<noteq> [] \<Longrightarrow> s \<noteq> ''.'' \<Longrightarrow> path_append p s = (fst p, snd p @ [s])"
  by (simp add: path_append_def path_root_plain path_parts_plain)

lemma is_safe_basename_iff:
  "is_safe_basename name \<longleftrightarrow>
     name \<notin> {[], ''.'', ''..''} \<and> CHR ''/'' \<notin> set name \<and> chr_bslash \<notin> set name \<and> chr_nul \<notin> set name"
  by (auto simp: is_safe_basename_def path_of_def path_name_def path_parts_plain)

text \<open>A safe name, with a safe extension or none, is one more part below the directory it is put in.\<close>

definition dotted :: "string \<Rightarrow> string" where
  "dotted ext = (if ext \<noteq> [] \<and> \<not> startswith ext ''.'' then ''.'' @ ext else ext)"

lemma append_is_dot: "a \<noteq> [] \<Longrightarrow> b \<noteq> [] \<Longrightarrow> a @ b = ''..'' \<Longrightarrow> a = ''.'' \<and> b = ''.''"
  by (cases a) (auto simp: Cons_eq_append_conv append_eq_Cons_conv)

lemma safe_name_part:
  assumes "is_safe_basename name" "ext = [] \<or> is_safe_extension ext"
  shows "path_append p (name @ dotted ext) = (fst p, snd p @ [name @ dotted ext]) \<and>
         name @ dotted ext \<noteq> ''..''"
proof -
  from assms have n: "name \<notin> {[], ''.'', ''..''}" "CHR ''/'' \<notin> set name"
    by (auto simp: is_safe_basename_iff)
  from assms(2) have e: "CHR ''/'' \<notin> set (dotted ext)" "dotted ext \<noteq> ''.''"
    by (auto simp: is_safe_extension_def dotted_def split: if_splits)
  from n have "name @ dotted ext \<noteq> ''.''"
    by (auto simp: append_eq_Cons_conv)
  moreover have "name @ dotted ext \<noteq> ''..''"
    using n e append_is_dot [of name "dotted ext"] by (cases "dotted ext = []") auto
  ultimately show ?thesis using n e by (simp add: path_append_plain)
qed

end
