(* ===== verification/Runtime.thy ===== *)
theory Runtime
  imports Health_Server Registry State_Manager Reporter Paths
begin

text \<open>
  The pipeline lifecycle of \<open>AgentRuntime\<close>, \<open>src/link/app/runtime.py\<close>: building, starting and stopping
  pipelines, recovery at start-up, the hot swap of a configuration and the shutdown.

  The runtime is a record that the operations return updated.  Both locks of the class make an
  operation atomic with respect to the others, so an execution is a sequence of operations; deploy
  workers, which run beside them, are modelled in \<open>Deploy\<close>.  \<open>rt_shared\<close> lists the pipelines whose
  stored configuration is the very object in \<open>agent_config.pipelines\<close>: a mutation of its arguments in
  place is seen through both.  Reports are collected in the order they are emitted.

  Everything outside the program is a field of \<open>world\<close>: how a component's constructor, a thread, the
  disk or a server responds.  Each such question carries the tick of the runtime, the number of
  questions asked before, so the answers may change over time.
\<close>

record worker =
  wk_command :: string
  wk_cancelled :: bool
  wk_alive :: bool
  wk_response :: bool

record pipe_thread =
  pt_id :: string
  pt_source :: component
  pt_sink :: "component option"

record runtime =
  rt_config :: agent_config
  rt_state :: "state_manager option"
  rt_session :: bool
  rt_pipeline_configs :: "(string, pipeline_config) dict"
  rt_shared :: "string list"
  rt_pipelines :: "(string, pipe_thread) dict"
  rt_workers :: "(string, worker) dict"
  rt_running :: bool
  rt_shutdown_event :: bool
  rt_update_requested :: bool
  rt_config_restart_requested :: bool
  rt_health :: health_state
  rt_registry :: registry
  rt_files :: "ppath list"
  rt_queue :: "file_body option"
  rt_reports :: "report list"
  rt_posts :: "string list"
  rt_tick :: nat

record world =
  w_pd :: pydantic
  w_plugins :: plugin_env
  w_io :: "nat \<Rightarrow> sm_io"
  w_stops :: "nat \<Rightarrow> string \<Rightarrow> bool"
  w_now :: "nat \<Rightarrow> int"
  w_post :: "nat \<Rightarrow> string \<Rightarrow> nat option"
  w_frozen :: bool
  w_asset :: "nat \<Rightarrow> bool"
  w_unlink :: "nat \<Rightarrow> ppath \<Rightarrow> bool"
  w_rebuild :: "nat \<Rightarrow> agent_config \<Rightarrow> py_error option"
  w_set_order :: "string list \<Rightarrow> string list"
  w_queue_read :: "nat \<Rightarrow> bool"
  w_queue_write :: "nat \<Rightarrow> bool"
  w_invalid_text :: "jdict \<Rightarrow> string"
  w_cwd :: ppath

definition tick :: "runtime \<Rightarrow> runtime" where
  "tick rt = rt\<lparr>rt_tick := Suc (rt_tick rt)\<rparr>"

definition log_reports :: "report list \<Rightarrow> runtime \<Rightarrow> runtime" where
  "log_reports rs rt = rt\<lparr>rt_reports := rt_reports rt @ rs\<rparr>"

definition on_health :: "(health_state \<Rightarrow> health_state) \<Rightarrow> runtime \<Rightarrow> runtime" where
  "on_health f rt = rt\<lparr>rt_health := f (rt_health rt)\<rparr>"

text \<open>A call of the state manager, if there is one, and whether it raised.\<close>

definition with_state ::
    "world \<Rightarrow> (sm_io \<Rightarrow> state_manager \<Rightarrow> py_error option \<times> state_manager) \<Rightarrow> runtime \<Rightarrow> py_error option \<times> runtime" where
  "with_state W f rt =
     (case rt_state rt of
        None \<Rightarrow> (None, rt)
      | Some sm \<Rightarrow>
          (let (e, sm') = f (w_io W (rt_tick rt)) sm in (e, (tick rt)\<lparr>rt_state := Some sm'\<rparr>)))"

definition is_running :: "runtime \<Rightarrow> string \<Rightarrow> bool" where
  "is_running rt pid = (pid \<in> set (keys (rt_pipelines rt)))"

section \<open>Construction\<close>

text \<open>The first endpoint is recorded when the transport lists strings, as its schema requires.\<close>

definition init_runtime ::
    "world \<Rightarrow> string option \<Rightarrow> agent_config \<Rightarrow> state_manager option \<Rightarrow> bool \<Rightarrow> registry \<Rightarrow> ppath list \<Rightarrow>
     file_body option \<Rightarrow> runtime" where
  "init_runtime W version config sm session rg files queue =
     (let endpoint = (case ac_transport config of
                        None \<Rightarrow> None
                      | Some t \<Rightarrow> (case dget (tc_args t) ''endpoints'' of
                                      JArr (JStr e # _) \<Rightarrow> Some e | JStr (c # _) \<Rightarrow> Some [c] | _ \<Rightarrow> None));
          health = init_health version (w_now W 0);
          health' = (if session
                     then set_transport (map_option (\<lambda>t. str_transport (tc_type t)) (ac_transport config))
                            endpoint True health
                     else health)
      in \<lparr>rt_config = config, rt_state = sm, rt_session = session,
          rt_pipeline_configs = dict_of (map (\<lambda>p. (pc_id p, p)) (ac_pipelines config)),
          rt_shared = remdups (map pc_id (ac_pipelines config)),
          rt_pipelines = [], rt_workers = [], rt_running = True, rt_shutdown_event = False,
          rt_update_requested = False, rt_config_restart_requested = False, rt_health = health',
          rt_registry = rg, rt_files = files, rt_queue = queue, rt_reports = [], rt_posts = [], rt_tick = 0\<rparr>)"

section \<open>Starting and stopping a pipeline\<close>

definition create_component :: "world \<Rightarrow> generic_config \<Rightarrow> runtime \<Rightarrow> (py_error + component) \<times> runtime" where
  "create_component W conf rt =
     (let name = gc_type conf in
      if name \<noteq> ''command'' \<and> startswith name ''zenoh_'' \<and> \<not> rt_session rt then
        (Inl (RuntimeError (''Component '' @ quoted name @ '' requires Zenoh, but no active session was provided.'')), rt)
      else
        (let (inject, args) =
           (if name = ''command'' then (InjectCallback, AList.delete ''callback'' (gc_args conf))
            else if startswith name ''zenoh_'' then (InjectSession, AList.delete ''session'' (gc_args conf))
            else (NoInjection, gc_args conf)) in
         case get_component name (rt_registry rt) of
           Some cls \<Rightarrow>
             (let c = \<lparr>cm_class = cls, cm_args = args, cm_injected = inject\<rparr>; rg = rt_registry rt;
                  rt' = rt\<lparr>rt_registry := rg\<lparr>rg_tick := Suc (rg_tick rg)\<rparr>\<rparr> in
              case pe_instantiate (w_plugins W) (rg_tick rg) c of
                None \<Rightarrow> (Inr c, rt') | Some e \<Rightarrow> (Inl e, rt'))
         | None \<Rightarrow>
             (let (r, rg) = load_plugin (w_plugins W) name args inject (rt_registry rt) in
              (r, rt\<lparr>rt_registry := rg\<rparr>))))"

definition build_pipeline :: "world \<Rightarrow> pipeline_config \<Rightarrow> runtime \<Rightarrow> (py_error + pipe_thread) \<times> runtime" where
  "build_pipeline W p_conf rt =
     (case create_component W (pc_source p_conf) rt of
        (Inl e, rt1) \<Rightarrow> (Inl e, rt1)
      | (Inr source, rt1) \<Rightarrow>
          (case pc_sink p_conf of
             None \<Rightarrow> (Inr \<lparr>pt_id = pc_id p_conf, pt_source = source, pt_sink = None\<rparr>, rt1)
           | Some s \<Rightarrow>
               (case create_component W s rt1 of
                  (Inl e, rt2) \<Rightarrow> (Inl e, rt2)
                | (Inr sink, rt2) \<Rightarrow>
                    (Inr \<lparr>pt_id = pc_id p_conf, pt_source = source, pt_sink = Some sink\<rparr>, rt2))))"

definition stop_pipeline :: "world \<Rightarrow> string \<Rightarrow> runtime \<Rightarrow> bool \<times> runtime" where
  "stop_pipeline W pid rt =
     (case map_of (rt_pipelines rt) pid of
        None \<Rightarrow> (True, rt)
      | Some _ \<Rightarrow>
          if \<not> w_stops W (rt_tick rt) pid then (False, tick rt)
          else
            (True, snd (with_state W (\<lambda>io. set_pipeline_status io pid False)
                          ((tick rt)\<lparr>rt_pipelines := AList.delete pid (rt_pipelines rt)\<rparr>))))"

text \<open>
  The first section of \<open>_start_pipeline\<close>: a configuration passed in is validated and held aside, unless
  it equals the one that is running.
\<close>

datatype pending = Rejected | Unchanged | Pending "pipeline_config option"

definition pending_config :: "world \<Rightarrow> string \<Rightarrow> jdict option \<Rightarrow> runtime \<Rightarrow> pending" where
  "pending_config W pid config_data rt =
     (case config_data of
        None \<Rightarrow> Pending None
      | Some d \<Rightarrow>
          if d = [] then Pending None
          else
            (let d' = (if ''id'' \<in> set (keys d) then d else AList.update ''id'' (JStr pid) d) in
             case parse_pipeline (w_pd W) (JObj d') of
               None \<Rightarrow> Rejected
             | Some new_conf \<Rightarrow>
                 (case map_of (rt_pipeline_configs rt) pid of
                    Some current \<Rightarrow>
                      if is_running rt pid \<and> eq_pipeline new_conf current then Unchanged
                      else Pending (Some new_conf)
                  | None \<Rightarrow> Pending (Some new_conf))))"

definition set_config :: "string \<Rightarrow> pipeline_config \<Rightarrow> runtime \<Rightarrow> runtime" where
  "set_config pid c rt =
     rt\<lparr>rt_pipeline_configs := AList.update pid c (rt_pipeline_configs rt),
        rt_shared := filter (\<lambda>q. q \<noteq> pid) (rt_shared rt)\<rparr>"

definition commit_start :: "string \<Rightarrow> pipeline_config option \<Rightarrow> pipe_thread \<Rightarrow> runtime \<Rightarrow> runtime" where
  "commit_start pid pending pipe rt =
     (let rt' = (case pending of None \<Rightarrow> rt | Some c \<Rightarrow> set_config pid c rt) in
      rt'\<lparr>rt_pipelines := AList.update pid pipe (rt_pipelines rt')\<rparr>)"

definition persist_start :: "world \<Rightarrow> string \<Rightarrow> pipeline_config \<Rightarrow> runtime \<Rightarrow> runtime" where
  "persist_start W pid p_conf rt =
     (case with_state W (\<lambda>io. update_pipeline_config io p_conf) rt of
        (Some e, rt') \<Rightarrow> rt'
      | (None, rt') \<Rightarrow> snd (with_state W (\<lambda>io. set_pipeline_status io pid True) rt'))"

definition start_pipeline :: "world \<Rightarrow> string \<Rightarrow> jdict option \<Rightarrow> runtime \<Rightarrow> bool \<times> runtime" where
  "start_pipeline W pid config_data rt =
     (case pending_config W pid config_data rt of
        Rejected \<Rightarrow> (False, rt)
      | Unchanged \<Rightarrow> (True, rt)
      | Pending pending \<Rightarrow>
          (case (case pending of Some c \<Rightarrow> Some c | None \<Rightarrow> map_of (rt_pipeline_configs rt) pid) of
             None \<Rightarrow> (False, rt)
           | Some p_conf \<Rightarrow>
               (let (stopped, rt1) = (if is_running rt pid then stop_pipeline W pid rt else (True, rt)) in
                if \<not> stopped then (False, rt1)
                else case build_pipeline W p_conf rt1 of
                  (Inl e, rt2) \<Rightarrow> (False, rt2)
                | (Inr pipe, rt2) \<Rightarrow>
                    (True, persist_start W pid p_conf (commit_start pid pending pipe rt2)))))"

section \<open>Hot swap of a configuration\<close>

fun stop_removed :: "world \<Rightarrow> string list \<Rightarrow> runtime \<Rightarrow> py_error option \<times> runtime" where
  "stop_removed W [] rt = (None, rt)"
| "stop_removed W (pid # pids) rt =
     (case stop_pipeline W pid rt of
        (False, rt') \<Rightarrow> (Some (RuntimeError (''pipeline '' @ quoted pid @ '' failed to stop'')), rt')
      | (True, rt') \<Rightarrow> stop_removed W pids rt')"

fun swap_pipelines :: "world \<Rightarrow> pipeline_config list \<Rightarrow> runtime \<Rightarrow> py_error option \<times> runtime" where
  "swap_pipelines W [] rt = (None, rt)"
| "swap_pipelines W (p # ps) rt =
     (if pc_active p then
        (case start_pipeline W (pc_id p) (Some (dump_pipeline_fields p)) rt of
           (False, rt') \<Rightarrow> (Some (RuntimeError (''pipeline '' @ quoted (pc_id p) @ '' failed to start'')), rt')
         | (True, rt') \<Rightarrow> swap_pipelines W ps rt')
      else if is_running rt (pc_id p) then
        (case stop_pipeline W (pc_id p) rt of
           (False, rt') \<Rightarrow> (Some (RuntimeError (''pipeline '' @ quoted (pc_id p) @ '' failed to stop'')), rt')
         | (True, rt') \<Rightarrow> swap_pipelines W ps rt')
      else swap_pipelines W ps rt)"

definition pipeline_ids :: "agent_config \<Rightarrow> string list" where
  "pipeline_ids c = remdups (map pc_id (ac_pipelines c))"

definition diff_and_swap_pipelines ::
    "world \<Rightarrow> agent_config \<Rightarrow> agent_config \<Rightarrow> runtime \<Rightarrow> py_error option \<times> runtime" where
  "diff_and_swap_pipelines W old new rt =
     (case stop_removed W (w_set_order W (filter (\<lambda>i. i \<notin> set (pipeline_ids new)) (pipeline_ids old))) rt of
        (Some e, rt') \<Rightarrow> (Some e, rt')
      | (None, rt') \<Rightarrow> swap_pipelines W (ac_pipelines new) rt')"

definition apply_config :: "world \<Rightarrow> agent_config \<Rightarrow> agent_config \<Rightarrow> runtime \<Rightarrow> py_error option \<times> runtime" where
  "apply_config W target_cfg previous_cfg rt =
     (case diff_and_swap_pipelines W previous_cfg target_cfg rt of
        (Some e, rt') \<Rightarrow> (Some e, rt')
      | (None, rt') \<Rightarrow>
          (case w_rebuild W (rt_tick rt') target_cfg of
             Some e \<Rightarrow> (Some e, tick rt')
           | None \<Rightarrow>
               (None, (tick rt')\<lparr>rt_config := target_cfg,
                  rt_pipeline_configs := dict_of (map (\<lambda>p. (pc_id p, p)) (ac_pipelines target_cfg)),
                  rt_shared := pipeline_ids target_cfg\<rparr>)))"

section \<open>The model list and the shutdown\<close>

text \<open>\<open>_snapshot_models\<close>: the rows of \<open>GET /models\<close>.\<close>

definition model_row :: "runtime \<Rightarrow> string \<times> pipeline_config \<Rightarrow> jdict" where
  "model_row rt = (\<lambda>(pid, cfg).
     let args = gc_args (pc_source cfg) in
     [(''id'', JStr pid),
      (''alias'', or_else (dget args ''alias'') (JStr pid)),
      (''port'', dget args ''port''),
      (''host'', (case map_of args ''host'' of None \<Rightarrow> JStr ''127.0.0.1'' | Some h \<Rightarrow> h)),
      (''is_serving'', JBool (is_running rt pid \<and> dget args ''mode'' = JStr ''serve''))])"

definition snapshot_models :: "runtime \<Rightarrow> jdict list" where
  "snapshot_models rt =
     map (model_row rt)
       (filter (\<lambda>(pid, cfg). ''model_path'' \<in> set (keys (gc_args (pc_source cfg)))) (rt_pipeline_configs rt))"

definition signal_handler :: "runtime \<Rightarrow> runtime" where
  "signal_handler rt = rt\<lparr>rt_running := False, rt_shutdown_event := True\<rparr>"

text \<open>\<open>_shutdown\<close>: the joins have a timeout, so it ends whatever the threads do.\<close>

definition shutdown :: "runtime \<Rightarrow> runtime" where
  "shutdown rt =
     (let h = rt_health rt in
      rt\<lparr>rt_workers := map (\<lambda>(pid, w). (pid, w\<lparr>wk_cancelled := True\<rparr>)) (rt_workers rt),
         rt_pipelines := [],
         rt_health := (if hs_transport_type h \<noteq> None
                       then set_transport (hs_transport_type h) (hs_transport_endpoint h) False h else h)\<rparr>)"

section \<open>What the lifecycle operations leave alone\<close>

text \<open>
  The operations on pipelines emit no report, answer no command and touch neither the published
  configuration nor the flags of the main loop.
\<close>

definition quiet :: "runtime \<Rightarrow> runtime \<Rightarrow> bool" where
  "quiet rt rt' \<longleftrightarrow>
     rt_config rt' = rt_config rt \<and> rt_session rt' = rt_session rt \<and> rt_workers rt' = rt_workers rt \<and>
     rt_running rt' = rt_running rt \<and> rt_shutdown_event rt' = rt_shutdown_event rt \<and>
     rt_update_requested rt' = rt_update_requested rt \<and>
     rt_config_restart_requested rt' = rt_config_restart_requested rt \<and>
     rt_health rt' = rt_health rt \<and> rt_files rt' = rt_files rt \<and> rt_queue rt' = rt_queue rt \<and>
     rt_reports rt' = rt_reports rt \<and> rt_posts rt' = rt_posts rt"

lemma quiet_refl [simp, intro]: "quiet rt rt"
  by (simp add: quiet_def)

lemma quiet_trans [trans]: "quiet a b \<Longrightarrow> quiet b c \<Longrightarrow> quiet a c"
  by (simp add: quiet_def)

lemma quiet_tick [simp]: "quiet rt (tick rt)"
  by (simp add: quiet_def tick_def)

lemma tick_frame [simp]:
  "rt_pipelines (tick rt) = rt_pipelines rt" "rt_pipeline_configs (tick rt) = rt_pipeline_configs rt"
  "rt_shared (tick rt) = rt_shared rt" "rt_state (tick rt) = rt_state rt"
  "rt_registry (tick rt) = rt_registry rt" "rt_config (tick rt) = rt_config rt"
  by (simp_all add: tick_def)

lemma with_state_frame:
  assumes "with_state W f rt = (e, rt')"
  shows "quiet rt rt' \<and> rt_pipelines rt' = rt_pipelines rt \<and>
         rt_pipeline_configs rt' = rt_pipeline_configs rt \<and> rt_shared rt' = rt_shared rt \<and>
         rt_registry rt' = rt_registry rt"
  using assms by (auto simp: with_state_def quiet_def tick_def split: option.splits prod.splits)

lemma create_component_frame:
  assumes "create_component W g rt = (r, rt')"
  shows "quiet rt rt' \<and> rt_pipelines rt' = rt_pipelines rt \<and>
         rt_pipeline_configs rt' = rt_pipeline_configs rt \<and> rt_shared rt' = rt_shared rt \<and>
         rt_state rt' = rt_state rt"
  using assms
  by (auto simp: create_component_def quiet_def Let_def split: option.splits prod.splits if_splits)

lemma build_pipeline_frame:
  assumes "build_pipeline W c rt = (r, rt')"
  shows "quiet rt rt' \<and> rt_pipelines rt' = rt_pipelines rt \<and>
         rt_pipeline_configs rt' = rt_pipeline_configs rt \<and> rt_shared rt' = rt_shared rt \<and>
         rt_state rt' = rt_state rt"
  using assms
  by (auto simp: build_pipeline_def split: option.splits prod.splits sum.splits
      dest!: create_component_frame intro: quiet_trans)

lemma build_pipeline_id: "build_pipeline W c rt = (Inr p, rt') \<Longrightarrow> pt_id p = pc_id c"
  by (auto simp: build_pipeline_def split: option.splits prod.splits sum.splits)

lemma stop_pipeline_spec:
  assumes "stop_pipeline W pid rt = (ok, rt')"
  shows "quiet rt rt'" and "rt_pipeline_configs rt' = rt_pipeline_configs rt" and "rt_shared rt' = rt_shared rt"
    and "map_of (rt_pipelines rt') = (if ok then (map_of (rt_pipelines rt))(pid := None) else map_of (rt_pipelines rt))"
proof -
  have fr: "with_state W f ((tick rt)\<lparr>rt_pipelines := d\<rparr>) = (e, rt2) \<Longrightarrow>
      quiet rt rt2 \<and> rt_pipelines rt2 = d \<and> rt_pipeline_configs rt2 = rt_pipeline_configs rt \<and>
      rt_shared rt2 = rt_shared rt" for f d e rt2
    by (drule with_state_frame) (auto simp: quiet_def tick_def)
  obtain e rt2 where w: "with_state W (\<lambda>io. set_pipeline_status io pid False)
      ((tick rt)\<lparr>rt_pipelines := AList.delete pid (rt_pipelines rt)\<rparr>) = (e, rt2)" by fastforce
  have none: "map_of (rt_pipelines rt) pid = None \<Longrightarrow> (map_of (rt_pipelines rt))(pid := None) = map_of (rt_pipelines rt)"
    by (auto simp: fun_eq_iff)
  from assms w fr [OF w] none
  have "quiet rt rt' \<and> rt_pipeline_configs rt' = rt_pipeline_configs rt \<and> rt_shared rt' = rt_shared rt \<and>
    map_of (rt_pipelines rt') = (if ok then (map_of (rt_pipelines rt))(pid := None) else map_of (rt_pipelines rt))"
    by (auto simp: stop_pipeline_def delete_conv' split: option.splits if_splits)
  then show "quiet rt rt'" "rt_pipeline_configs rt' = rt_pipeline_configs rt" "rt_shared rt' = rt_shared rt"
    "map_of (rt_pipelines rt') = (if ok then (map_of (rt_pipelines rt))(pid := None) else map_of (rt_pipelines rt))"
    by blast+
qed

lemma is_running_iff: "is_running rt pid \<longleftrightarrow> map_of (rt_pipelines rt) pid \<noteq> None"
  by (auto simp: is_running_def map_of_eq_None_iff)

lemma stop_pipeline_idle: "\<not> is_running rt pid \<Longrightarrow> stop_pipeline W pid rt = (True, rt)"
  by (auto simp: stop_pipeline_def is_running_iff split: option.splits)

text \<open>A successful stop of a running pipeline leaves it inactive in the session.\<close>

lemma stop_pipeline_state:
  assumes "stop_pipeline W pid rt = (ok, rt')" "rt_state rt = Some sm" "sm_inv sm"
  shows "\<exists>sm'. rt_state rt' = Some sm' \<and> sm_inv sm' \<and>
     entry sm' = (if ok \<and> is_running rt pid
                  then (entry sm)(pid := map_option (set_active (JBool False)) (entry sm pid)) else entry sm)"
  using assms set_pipeline_status_wf [OF assms(3)]
  by (auto simp: stop_pipeline_def with_state_def is_running_iff case_prod_unfold Let_def
      split: option.splits if_splits)

lemma persist_start_frame:
  "quiet rt (persist_start W pid c rt) \<and> rt_pipelines (persist_start W pid c rt) = rt_pipelines rt \<and>
   rt_pipeline_configs (persist_start W pid c rt) = rt_pipeline_configs rt \<and>
   rt_shared (persist_start W pid c rt) = rt_shared rt"
proof -
  obtain e rt1 where 1: "with_state W (\<lambda>io. update_pipeline_config io c) rt = (e, rt1)" by fastforce
  obtain e2 rt2 where 2: "with_state W (\<lambda>io. set_pipeline_status io pid True) rt1 = (e2, rt2)" by fastforce
  from with_state_frame [OF 1] with_state_frame [OF 2] quiet_trans show ?thesis
    by (auto simp: persist_start_def 1 2 split: option.splits)
qed

lemma persist_start_state:
  assumes "rt_state rt = Some sm" "sm_inv sm" "pc_id c = pid"
  shows "\<exists>sm'. rt_state (persist_start W pid c rt) = Some sm' \<and> sm_inv sm' \<and>
     (\<forall>q. q \<noteq> pid \<longrightarrow> entry sm' q = entry sm q) \<and>
     entry sm' pid = Some (set_active (JBool True) (dump_pipeline c))"
proof -
  let ?io = "w_io W (rt_tick rt)" and ?io' = "w_io W (Suc (rt_tick rt))"
  let ?sm1 = "snd (update_pipeline_config ?io c sm)"
  let ?sm2 = "snd (set_pipeline_status ?io' pid True ?sm1)"
  note 1 = update_pipeline_config_wf [OF assms(2), of ?io c]
  note 2 = set_pipeline_status_wf [OF 1(2), of ?io' pid True]
  have "rt_state (persist_start W pid c rt) = Some ?sm2"
    using 1(1) assms(1)
    by (simp add: persist_start_def with_state_def case_prod_unfold tick_def Let_def)
  moreover have twice: "set_active a (set_active b (dump_pipeline c)) = set_active a (dump_pipeline c)" for a b
    by (simp add: dump_pipeline_def dump_pipeline_fields_def)
  have "entry ?sm2 pid = Some (set_active (JBool True) (dump_pipeline c))"
    "\<forall>q. q \<noteq> pid \<longrightarrow> entry ?sm2 q = entry sm q"
    using 2(3) 1(3) assms(3) by (auto simp: twice)
  ultimately show ?thesis using 2(2) by blast
qed

section \<open>The contract of start\<close>

text \<open>The configuration that a start would use: the one passed in, or the stored one.\<close>

definition chosen_config :: "string \<Rightarrow> pipeline_config option \<Rightarrow> runtime \<Rightarrow> pipeline_config option" where
  "chosen_config pid pending rt =
     (case pending of Some c \<Rightarrow> Some c | None \<Rightarrow> map_of (rt_pipeline_configs rt) pid)"

lemma start_pipeline_eq:
  "start_pipeline W pid cd rt =
     (case pending_config W pid cd rt of
        Rejected \<Rightarrow> (False, rt)
      | Unchanged \<Rightarrow> (True, rt)
      | Pending pending \<Rightarrow>
          (case chosen_config pid pending rt of
             None \<Rightarrow> (False, rt)
           | Some p_conf \<Rightarrow>
               (case stop_pipeline W pid rt of
                  (False, rt1) \<Rightarrow> (False, rt1)
                | (True, rt1) \<Rightarrow>
                    (case build_pipeline W p_conf rt1 of
                       (Inl e, rt2) \<Rightarrow> (False, rt2)
                     | (Inr pipe, rt2) \<Rightarrow>
                         (True, persist_start W pid p_conf (commit_start pid pending pipe rt2))))))"
proof -
  have "(if is_running rt pid then stop_pipeline W pid rt else (True, rt)) = stop_pipeline W pid rt"
    by (simp add: stop_pipeline_idle)
  then show ?thesis
    by (auto simp: start_pipeline_def chosen_config_def split: pending.splits option.splits prod.splits bool.splits)
qed

lemma start_pipelineE:
  assumes "start_pipeline W pid cd rt = (ok, rt')"
  obtains (refused) "\<not> ok" "rt' = rt"
  | (unchanged) "ok" "rt' = rt" "pending_config W pid cd rt = Unchanged"
  | (still_running) "\<not> ok" "stop_pipeline W pid rt = (False, rt')"
  | (build_failed) p_conf rt1 e where "\<not> ok" "stop_pipeline W pid rt = (True, rt1)"
      "build_pipeline W p_conf rt1 = (Inl e, rt')"
  | (started) pending p_conf rt1 rt2 pipe where "ok" "pending_config W pid cd rt = Pending pending"
      "chosen_config pid pending rt = Some p_conf" "stop_pipeline W pid rt = (True, rt1)"
      "build_pipeline W p_conf rt1 = (Inr pipe, rt2)"
      "rt' = persist_start W pid p_conf (commit_start pid pending pipe rt2)"
proof (cases "pending_config W pid cd rt")
  case (Pending pending)
  show ?thesis
  proof (cases "chosen_config pid pending rt")
    case None
    with Pending assms that(1) show ?thesis by (simp add: start_pipeline_eq)
  next
    case (Some p_conf)
    obtain stopped rt1 where st: "stop_pipeline W pid rt = (stopped, rt1)" by fastforce
    obtain r rt2 where b: "build_pipeline W p_conf rt1 = (r, rt2)" by fastforce
    show ?thesis
    proof (cases stopped)
      case False
      with Pending Some st assms that(3) show ?thesis by (simp add: start_pipeline_eq)
    next
      case True
      with Pending Some st b assms that(4,5) show ?thesis
        by (cases r) (simp_all add: start_pipeline_eq)
    qed
  qed
qed (use assms that(1,2) in \<open>simp_all add: start_pipeline_eq\<close>)

lemma commit_start_frame:
  "quiet rt (commit_start pid pending pipe rt)"
  "rt_state (commit_start pid pending pipe rt) = rt_state rt"
  "rt_pipelines (commit_start pid pending pipe rt) = AList.update pid pipe (rt_pipelines rt)"
  "rt_pipeline_configs (commit_start pid pending pipe rt) =
     (case pending of None \<Rightarrow> rt_pipeline_configs rt | Some c \<Rightarrow> AList.update pid c (rt_pipeline_configs rt))"
  by (simp_all add: commit_start_def Let_def set_config_def quiet_def split: option.splits)

lemma start_pipeline_quiet: "start_pipeline W pid cd rt = (ok, rt') \<Longrightarrow> quiet rt rt'"
proof (erule start_pipelineE)
  fix p_conf rt1 e
  assume "stop_pipeline W pid rt = (True, rt1)" "build_pipeline W p_conf rt1 = (Inl e, rt')"
  then show ?thesis using stop_pipeline_spec(1) build_pipeline_frame quiet_trans by blast
next
  fix pending p_conf rt1 rt2 pipe
  assume "stop_pipeline W pid rt = (True, rt1)" "build_pipeline W p_conf rt1 = (Inr pipe, rt2)"
    and rt': "rt' = persist_start W pid p_conf (commit_start pid pending pipe rt2)"
  then have "quiet rt rt2" using stop_pipeline_spec(1) build_pipeline_frame quiet_trans by blast
  also have "quiet rt2 (commit_start pid pending pipe rt2)" by (rule commit_start_frame)
  also have "quiet (commit_start pid pending pipe rt2) rt'" unfolding rt' using persist_start_frame by blast
  finally show ?thesis .
qed (auto dest: stop_pipeline_spec)

text \<open>A failed start: no configuration is replaced, and only the pipeline itself may have been stopped.\<close>

lemma start_pipeline_failed:
  assumes "start_pipeline W pid cd rt = (False, rt')"
  shows "rt_pipeline_configs rt' = rt_pipeline_configs rt \<and> rt_shared rt' = rt_shared rt \<and>
         (\<forall>q. q \<noteq> pid \<longrightarrow> map_of (rt_pipelines rt') q = map_of (rt_pipelines rt) q)"
  using assms
proof (rule start_pipelineE)
  fix p_conf rt1 e
  assume "stop_pipeline W pid rt = (True, rt1)" "build_pipeline W p_conf rt1 = (Inl e, rt')"
  then show ?thesis using stop_pipeline_spec [of W pid rt True rt1] build_pipeline_frame [of W p_conf rt1] by fastforce
qed (auto dest: stop_pipeline_spec)

text \<open>A successful start: the pipeline runs, and its configuration is the one that was passed in.\<close>

lemma start_pipeline_ok:
  assumes "start_pipeline W pid cd rt = (True, rt')"
  shows "is_running rt' pid \<and>
         (\<forall>q. q \<noteq> pid \<longrightarrow> map_of (rt_pipelines rt') q = map_of (rt_pipelines rt) q \<and>
                           map_of (rt_pipeline_configs rt') q = map_of (rt_pipeline_configs rt) q) \<and>
         (\<exists>c. map_of (rt_pipeline_configs rt') pid = Some c)"
  using assms
proof (rule start_pipelineE)
  assume "rt' = rt" "pending_config W pid cd rt = Unchanged"
  then show ?thesis by (auto simp: pending_config_def Let_def split: option.splits if_splits)
next
  fix pending p_conf rt1 rt2 pipe
  assume *: "chosen_config pid pending rt = Some p_conf"
    "stop_pipeline W pid rt = (True, rt1)" "build_pipeline W p_conf rt1 = (Inr pipe, rt2)"
    "rt' = persist_start W pid p_conf (commit_start pid pending pipe rt2)"
  let ?rt3 = "commit_start pid pending pipe rt2"
  from * have "rt_pipelines rt' = AList.update pid pipe (rt_pipelines rt2)"
    "rt_pipeline_configs rt' = rt_pipeline_configs ?rt3"
    using persist_start_frame [of ?rt3 W pid p_conf] by (simp_all add: commit_start_frame)
  with * stop_pipeline_spec [OF *(2)] build_pipeline_frame [OF *(3)] show ?thesis
    by (auto simp: is_running_iff py_dict commit_start_frame chosen_config_def split: option.splits)
qed auto

lemma pending_config_dump:
  assumes "pydantic_ok (w_pd W)"
  shows "pending_config W pid (Some (dump_pipeline_fields c)) rt =
    (case map_of (rt_pipeline_configs rt) pid of
       Some current \<Rightarrow> if is_running rt pid \<and> eq_pipeline c current then Unchanged else Pending (Some c)
     | None \<Rightarrow> Pending (Some c))"
  using parse_dump_pipeline_eq [OF assms, of c]
  by (simp add: pending_config_def dump_pipeline_def Let_def) (simp add: dump_pipeline_fields_def)

lemma start_pipeline_dump_ok:
  assumes "start_pipeline W pid (Some (dump_pipeline_fields c)) rt = (True, rt')" "pydantic_ok (w_pd W)"
  shows "\<exists>c'. map_of (rt_pipeline_configs rt') pid = Some c' \<and> (c' = c \<or> eq_pipeline c c')"
  using assms(1)
proof (rule start_pipelineE)
  assume "rt' = rt" "pending_config W pid (Some (dump_pipeline_fields c)) rt = Unchanged"
  then show ?thesis
    by (auto simp: pending_config_dump [OF assms(2)] split: option.splits if_splits)
next
  fix pending p_conf rt1 rt2 pipe
  assume "pending_config W pid (Some (dump_pipeline_fields c)) rt = Pending pending"
    and rt': "rt' = persist_start W pid p_conf (commit_start pid pending pipe rt2)"
  then have "pending = Some c"
    by (auto simp: pending_config_dump [OF assms(2)] split: option.splits if_splits)
  then show ?thesis
    using persist_start_frame [of "commit_start pid pending pipe rt2" W pid p_conf]
    by (auto simp: rt' commit_start_frame py_dict)
qed auto

section \<open>A sample world\<close>

text \<open>A world in which everything succeeds, and a runtime with one stopped model pipeline; the witnesses use them.\<close>

definition sample_plugins :: plugin_env where
  "sample_plugins =
     \<lparr>pe_frozen = False, pe_cwd = ''/a'', pe_parent = ''/'', pe_is_dir = (\<lambda>p. p = ''/a/plugins/language_model''),
      pe_exists = (\<lambda>p. p = ''/a/plugins/language_model/pyproject.toml''), pe_run = (\<lambda>_ _. True),
      pe_entry_points = (\<lambda>_. [\<lparr>ep_name = ''language_model'', ep_dist = None, ep_target = ''LanguageModel''\<rparr>]),
      pe_load = Inr, pe_instantiate = (\<lambda>_ _. None)\<rparr>"

definition sample_world :: world where
  "sample_world =
     \<lparr>w_pd = strict_pydantic, w_plugins = sample_plugins, w_io = (\<lambda>_. io_ok), w_stops = (\<lambda>_ _. True),
      w_now = int, w_post = (\<lambda>_ _. Some 200), w_frozen = False, w_asset = (\<lambda>_. True),
      w_unlink = (\<lambda>_ _. True), w_rebuild = (\<lambda>_ _. None), w_set_order = (\<lambda>xs. xs),
      w_queue_read = (\<lambda>_. True), w_queue_write = (\<lambda>_. True), w_invalid_text = (\<lambda>_. []), w_cwd = (''/'', [''a''])\<rparr>"

definition sample_runtime :: runtime where
  "sample_runtime =
     init_runtime sample_world None sample_config
       (Some (bootstrap io_ok ''2'' sample_config (fresh_manager []))) False
       \<lparr>rg_components = [(''clock_tick'', ''ClockTick'')], rg_installed = [], rg_log = [], rg_tick = 0\<rparr>
       [(''/'', [''a'', ''models'', ''a.gguf''])] None"

section \<open>Properties\<close>

text \<open>
  C36. A failed start is harmless to everything else: no stored configuration changes, so the previous
  working definition of the pipeline survives, no other pipeline is stopped, nothing is reported and
  the published configuration is the same.
\<close>

theorem failed_start_keeps_config:
  assumes "start_pipeline W pid cd rt = (False, rt')"
  shows "rt_pipeline_configs rt' = rt_pipeline_configs rt \<and> quiet rt rt' \<and>
         (\<forall>q. q \<noteq> pid \<longrightarrow> map_of (rt_pipelines rt') q = map_of (rt_pipelines rt) q)"
  using start_pipeline_failed [OF assms] start_pipeline_quiet [OF assms] by blast

theorem failed_start_keeps_config_witness:
  "fst (start_pipeline sample_world ''zz'' None sample_runtime) = False \<and>
   quiet sample_runtime (snd (start_pipeline sample_world ''zz'' None sample_runtime))"
proof -
  have f: "fst (start_pipeline sample_world ''zz'' None sample_runtime) = False" by code_simp
  then have "start_pipeline sample_world ''zz'' None sample_runtime =
      (False, snd (start_pipeline sample_world ''zz'' None sample_runtime))" by (metis prod.collapse)
  from failed_start_keeps_config [OF this] f show ?thesis by blast
qed

text \<open>
  A successful start: the pipeline is running, its stored configuration is the one the command
  carried (or one equal to it that was already running), every other pipeline and configuration is
  untouched, and nothing is reported.
\<close>

lemma start_pipeline_contract:
  assumes "start_pipeline W pid (Some (dump_pipeline_fields c)) rt = (True, rt')" "pydantic_ok (w_pd W)"
  shows "is_running rt' pid \<and> quiet rt rt' \<and>
         (\<exists>c'. map_of (rt_pipeline_configs rt') pid = Some c' \<and> (c' = c \<or> eq_pipeline c c')) \<and>
         (\<forall>q. q \<noteq> pid \<longrightarrow> map_of (rt_pipelines rt') q = map_of (rt_pipelines rt) q \<and>
                           map_of (rt_pipeline_configs rt') q = map_of (rt_pipeline_configs rt) q)"
  using start_pipeline_ok [OF assms(1)] start_pipeline_dump_ok [OF assms] start_pipeline_quiet [OF assms(1)] by blast

lemma start_pipeline_contract_witness:
  "is_running (snd (start_pipeline sample_world ''m'' (Some (dump_pipeline_fields sample_pipeline)) sample_runtime)) ''m''"
proof -
  let ?r = "start_pipeline sample_world ''m'' (Some (dump_pipeline_fields sample_pipeline)) sample_runtime"
  have "fst ?r" by code_simp
  then have "?r = (True, snd ?r)" by (metis prod.collapse)
  moreover have "pydantic_ok (w_pd sample_world)" by (simp add: sample_world_def)
  ultimately show ?thesis using start_pipeline_contract by blast
qed

text \<open>
  Stopping tells the truth: \<open>_stop_pipeline\<close> returns true exactly when the pipeline is no longer
  tracked as running; a thread that outlives the timeout stays tracked, and in both cases no other
  pipeline and no configuration is affected.
\<close>

lemma stop_pipeline_contract:
  assumes "stop_pipeline W pid rt = (ok, rt')"
  shows "(ok \<longleftrightarrow> \<not> is_running rt' pid) \<and> (\<not> ok \<longrightarrow> map_of (rt_pipelines rt') = map_of (rt_pipelines rt)) \<and>
         (\<forall>q. q \<noteq> pid \<longrightarrow> map_of (rt_pipelines rt') q = map_of (rt_pipelines rt) q) \<and>
         rt_pipeline_configs rt' = rt_pipeline_configs rt \<and> quiet rt rt'"
proof -
  note sp = stop_pipeline_spec [OF assms]
  have "\<not> ok \<Longrightarrow> is_running rt pid"
    using assms stop_pipeline_idle [of rt pid W] by auto
  then have "ok \<longleftrightarrow> \<not> is_running rt' pid"
    using sp(4) by (auto simp: is_running_iff)
  with sp show ?thesis by simp
qed

lemma stop_pipeline_contract_witness:
  "let rt = snd (start_pipeline sample_world ''m'' None sample_runtime);
       W = sample_world\<lparr>w_stops := (\<lambda>_ _. False)\<rparr> in
   fst (stop_pipeline W ''m'' rt) = False \<and> is_running (snd (stop_pipeline W ''m'' rt)) ''m''"
proof -
  let ?rt = "snd (start_pipeline sample_world ''m'' None sample_runtime)"
  let ?W = "sample_world\<lparr>w_stops := (\<lambda>_ _. False)\<rparr>"
  have f: "fst (stop_pipeline ?W ''m'' ?rt) = False" by code_simp
  then have "stop_pipeline ?W ''m'' ?rt = (False, snd (stop_pipeline ?W ''m'' ?rt))" by (metis prod.collapse)
  from stop_pipeline_contract [OF this] f show ?thesis by (simp add: Let_def)
qed

end
