(* ===== verification/Uninstall.thy ===== *)
theory Uninstall
  imports Runtime
begin

text \<open>
  Removal of a model, \<open>_uninstall_model\<close> of \<open>src/link/app/runtime.py\<close>, and the queue of removal reports
  that Control has not acknowledged yet (a JSON file that is rewritten through a temporary file, so a
  failed write leaves the old one).
\<close>

section \<open>Reporting a removal to Control\<close>

definition unreserved :: "char \<Rightarrow> bool" where
  "unreserved c = (is_alpha c \<or> is_digit c \<or> c \<in> set ''_.-~'')"

definition upper_hex :: "nat \<Rightarrow> char" where
  "upper_hex n = (if n < 10 then char_of (48 + n) else char_of (55 + n))"

definition percent :: "nat \<Rightarrow> string" where
  "percent n = [CHR ''%'', upper_hex (n div 16), upper_hex (n mod 16)]"

text \<open>\<open>quote(s, safe='')\<close>: a code point above 127 is two bytes in UTF-8.\<close>

definition quote_char :: "char \<Rightarrow> string" where
  "quote_char c =
     (let n = of_char c :: nat in
      if unreserved c then [c]
      else if n < 128 then percent n
      else percent (192 + n div 64) @ percent (128 + n mod 64))"

definition quote :: "string \<Rightarrow> string" where
  "quote s = concat (map quote_char s)"

text \<open>The address of a report, when the identity allows one to be sent.\<close>

definition uninstall_url :: "identity_config \<Rightarrow> string \<Rightarrow> string option" where
  "uninstall_url ident mid =
     (case (api_url ident, api_key ident) of
        (Some url, Some key) \<Rightarrow>
          if url = [] \<or> key = [] \<or> device_id ident = [] then None
          else
            (let base = rstrip_char (CHR ''/'') url in
             if \<not> startswith base ''https://'' then None
             else Some (base @ ''/agent/'' @ quote (device_id ident) @ ''/models/'' @ quote mid @ ''/uninstalled''))
      | _ \<Rightarrow> None)"

definition post_uninstall_report :: "world \<Rightarrow> string \<Rightarrow> runtime \<Rightarrow> bool \<times> runtime" where
  "post_uninstall_report W mid rt =
     (case uninstall_url (ac_identity (rt_config rt)) mid of
        None \<Rightarrow> (True, rt)
      | Some url \<Rightarrow>
          (w_post W (rt_tick rt) url \<in> {Some 200, Some 404}, (tick rt)\<lparr>rt_posts := rt_posts rt @ [url]\<rparr>))"

definition load_pending_uninstalls :: "world \<Rightarrow> runtime \<Rightarrow> string list" where
  "load_pending_uninstalls W rt =
     (if \<not> w_queue_read W (rt_tick rt) then []
      else case rt_queue rt of
        Some (Doc (JArr ids)) \<Rightarrow> List.map_filter p_str ids
      | _ \<Rightarrow> [])"

definition save_pending_uninstalls :: "world \<Rightarrow> string list \<Rightarrow> runtime \<Rightarrow> runtime" where
  "save_pending_uninstalls W ids rt =
     (if \<not> w_queue_write W (rt_tick rt) then tick rt
      else (tick rt)\<lparr>rt_queue := (if ids = [] then None else Some (Doc (JArr (map JStr ids))))\<rparr>)"

definition queue_pending_uninstall :: "world \<Rightarrow> string \<Rightarrow> runtime \<Rightarrow> runtime" where
  "queue_pending_uninstall W mid rt =
     (let ids = load_pending_uninstalls W rt in
      if mid \<in> set ids then rt else save_pending_uninstalls W (ids @ [mid]) rt)"

definition report_model_uninstalled_to_control :: "world \<Rightarrow> string \<Rightarrow> runtime \<Rightarrow> runtime" where
  "report_model_uninstalled_to_control W mid rt =
     (case post_uninstall_report W mid rt of
        (True, rt') \<Rightarrow> rt'
      | (False, rt') \<Rightarrow> queue_pending_uninstall W mid rt')"

text \<open>\<open>[m for m in ids if not self._post_uninstall_report(m)]\<close>.\<close>

fun resend :: "world \<Rightarrow> string list \<Rightarrow> runtime \<Rightarrow> string list \<times> runtime" where
  "resend W [] rt = ([], rt)"
| "resend W (m # ms) rt =
     (let (delivered, rt1) = post_uninstall_report W m rt; (rest, rt2) = resend W ms rt1 in
      (if delivered then rest else m # rest, rt2))"

definition flush_pending_uninstall_reports :: "world \<Rightarrow> runtime \<Rightarrow> runtime" where
  "flush_pending_uninstall_reports W rt =
     (let ids = load_pending_uninstalls W rt in
      if ids = [] then rt
      else (let (remaining, rt') = resend W ids rt in
            if remaining \<noteq> ids then save_pending_uninstalls W remaining rt' else rt'))"

section \<open>Removing a model\<close>

definition config_artifact :: "pipeline_config \<Rightarrow> ppath option" where
  "config_artifact cfg =
     (let mp = dget (gc_args (pc_source cfg)) ''model_path'' in
      if truthy mp then Some (path_of (py_str mp)) else None)"

text \<open>The path of the file to delete: from the configuration, or from the names the command carries.\<close>

definition artifact_path :: "world \<Rightarrow> string \<Rightarrow> string option \<Rightarrow> string option \<Rightarrow> runtime \<Rightarrow> ppath option" where
  "artifact_path W pid filename extension rt =
     (case Option.bind (map_of (rt_pipeline_configs rt) pid) config_artifact of
        Some p \<Rightarrow> Some p
      | None \<Rightarrow>
          (case filename of
             None \<Rightarrow> None
           | Some f \<Rightarrow>
               if f = [] then None
               else Some (path_append (path_append (w_cwd W) ''models'')
                            (f @ dotted (case extension of None \<Rightarrow> [] | Some e \<Rightarrow> e)))))"

definition shared_with :: "string \<Rightarrow> ppath \<Rightarrow> runtime \<Rightarrow> string option" where
  "shared_with pid artifact rt =
     map_option fst (find (\<lambda>(other, cfg). other \<noteq> pid \<and> config_artifact cfg = Some artifact) (rt_pipeline_configs rt))"

definition delete_artifact :: "world \<Rightarrow> ppath option \<Rightarrow> runtime \<Rightarrow> bool \<times> runtime" where
  "delete_artifact W artifact rt =
     (case artifact of
        None \<Rightarrow> (False, rt)
      | Some p \<Rightarrow>
          (let f = resolve_at (w_cwd W) p in
           if f \<in> set (rt_files rt) then
             (if w_unlink W (rt_tick rt) f
              then (True, (tick rt)\<lparr>rt_files := filter (\<lambda>g. g \<noteq> f) (rt_files rt)\<rparr>)
              else (False, tick rt))
           else (False, rt)))"

definition drop_config :: "string \<Rightarrow> runtime \<Rightarrow> runtime" where
  "drop_config pid rt =
     rt\<lparr>rt_pipeline_configs := AList.delete pid (rt_pipeline_configs rt),
        rt_shared := filter (\<lambda>q. q \<noteq> pid) (rt_shared rt)\<rparr>"

definition removed_kwargs :: jdict where
  "removed_kwargs =
     [(''installed'', JBool False), (''running'', JBool False), (''serving'', JBool False), (''pid'', JInt 0),
      (''serving_pid'', JInt 0), (''serving_port'', JInt 0)]"

text \<open>The part after the pipeline has been stopped.\<close>

definition remove_model ::
    "world \<Rightarrow> string \<Rightarrow> string \<Rightarrow> string option \<Rightarrow> string option \<Rightarrow> runtime \<Rightarrow> runtime" where
  "remove_model W cid pid filename extension rt =
     (let artifact = artifact_path W pid filename extension rt in
      case Option.bind artifact (\<lambda>a. shared_with pid a rt) of
        Some other \<Rightarrow>
          log_reports (report_command cid ''failed''
            (''Cannot remove '' @ quoted pid @ '': artifact '' @ quoted (path_name (the artifact)) @
             '' is also used by pipeline '' @ quoted other @ ''. Remove that one first and retry.'')) rt
      | None \<Rightarrow>
          (let rt1 = snd (with_state W (\<lambda>io. remove_pipeline io pid) (drop_config pid rt));
               (deleted, rt2) = delete_artifact W artifact rt1;
               suffix = (if deleted then '' (file deleted: '' @ path_name (the artifact) @ '')'' else []);
               rt3 = log_reports (report_model pid removed_kwargs @
                       report_command cid ''completed'' (''Pipeline '' @ quoted pid @ '' removed'' @ suffix)) rt2
           in if startswith cid ''loopback-'' then report_model_uninstalled_to_control W pid rt3 else rt3))"

definition uninstall_model ::
    "world \<Rightarrow> string \<Rightarrow> string \<Rightarrow> bool \<Rightarrow> string option \<Rightarrow> string option \<Rightarrow> runtime \<Rightarrow> runtime" where
  "uninstall_model W cid pid force_stop filename extension rt =
     (if is_running rt pid then
        (if \<not> force_stop then
           log_reports (report_command cid ''failed''
             (''Cannot uninstall '' @ quoted pid @ '': pipeline is running. Stop it first (STOP_MODEL_INFERENCE / STOP_SERVING) and retry.'')) rt
         else case stop_pipeline W pid rt of
           (False, rt1) \<Rightarrow>
             log_reports (report_command cid ''failed''
               (''Cannot uninstall '' @ quoted pid @ '': failed to stop running pipeline.'')) rt1
         | (True, rt1) \<Rightarrow> remove_model W cid pid filename extension rt1)
      else remove_model W cid pid filename extension rt)"

section \<open>Facts about the report queue\<close>

text \<open>What the queue file holds: the ids a reader gets from it.\<close>

definition pending_ids :: "runtime \<Rightarrow> string list" where
  "pending_ids rt =
     (case rt_queue rt of Some (Doc (JArr ids)) \<Rightarrow> List.map_filter p_str ids | _ \<Rightarrow> [])"

lemma map_filter_JStr [simp]: "List.map_filter p_str (map JStr ids) = ids"
  by (induction ids) (simp_all add: List.map_filter_simps)

lemma load_pending: "w_queue_read W (rt_tick rt) \<Longrightarrow> load_pending_uninstalls W rt = pending_ids rt"
  by (simp add: load_pending_uninstalls_def pending_ids_def)

lemma save_pending:
  "w_queue_write W (rt_tick rt) \<Longrightarrow> pending_ids (save_pending_uninstalls W ids rt) = ids"
  by (simp add: save_pending_uninstalls_def pending_ids_def)

lemma post_frame:
  assumes "post_uninstall_report W m rt = (ok, rt')"
  shows "rt_queue rt' = rt_queue rt \<and> rt_config rt' = rt_config rt"
  using assms by (auto simp: post_uninstall_report_def tick_def split: option.splits)

text \<open>A report is settled when it cannot be sent at all or a server answered 200 or 404.\<close>

definition settled :: "world \<Rightarrow> agent_config \<Rightarrow> string \<Rightarrow> bool" where
  "settled W cfg m \<longleftrightarrow>
     (case uninstall_url (ac_identity cfg) m of
        None \<Rightarrow> True
      | Some url \<Rightarrow> (\<exists>n. w_post W n url \<in> {Some 200, Some 404}))"

lemma resend_spec:
  assumes "resend W ms rt = (remaining, rt')"
  shows "rt_queue rt' = rt_queue rt \<and> rt_config rt' = rt_config rt \<and> set remaining \<subseteq> set ms \<and>
         (\<forall>m \<in> set ms. m \<in> set remaining \<or> settled W (rt_config rt) m)"
  using assms
proof (induction ms arbitrary: rt remaining rt')
  case (Cons m ms)
  obtain ok rt1 where p: "post_uninstall_report W m rt = (ok, rt1)" by fastforce
  obtain rest rt2 where r: "resend W ms rt1 = (rest, rt2)" by fastforce
  have rem: "remaining = (if ok then rest else m # rest)" "rt' = rt2"
    using Cons.prems p r by (auto split: if_splits)
  have "ok \<Longrightarrow> settled W (rt_config rt) m"
    using p by (auto simp: post_uninstall_report_def settled_def split: option.splits)
  with rem post_frame [OF p] Cons.IH [OF r] show ?case by auto
qed simp

lemma resend_order: "resend W ms rt = (remaining, rt') \<Longrightarrow> subseq remaining ms"
proof (induction ms arbitrary: rt remaining rt')
  case (Cons m ms)
  obtain ok rt1 where p: "post_uninstall_report W m rt = (ok, rt1)" by fastforce
  obtain rest rt2 where r: "resend W ms rt1 = (rest, rt2)" by fastforce
  from Cons.prems p r have "remaining = (if ok then rest else m # rest)" by (auto split: if_splits)
  with Cons.IH [OF r] show ?case by (auto intro: list_emb_Cons)
qed simp

lemma save_pending_config [simp]: "rt_config (save_pending_uninstalls W ids rt) = rt_config rt"
  by (simp add: save_pending_uninstalls_def tick_def)

lemma flush_pending_keeps:
  assumes "\<And>n. w_queue_read W n" "\<And>n. w_queue_write W n" "m \<in> set (pending_ids rt)"
    and "\<not> settled W (rt_config rt) m"
  shows "m \<in> set (pending_ids (flush_pending_uninstall_reports W rt)) \<and>
         rt_config (flush_pending_uninstall_reports W rt) = rt_config rt"
proof -
  obtain remaining rt' where r: "resend W (pending_ids rt) rt = (remaining, rt')" by fastforce
  from resend_spec [OF r] assms(3,4) have m: "m \<in> set remaining" "rt_config rt' = rt_config rt"
    and q: "rt_queue rt' = rt_queue rt" by auto
  from q have p: "pending_ids rt' = pending_ids rt" by (simp add: pending_ids_def)
  have "flush_pending_uninstall_reports W rt =
      (if remaining \<noteq> pending_ids rt then save_pending_uninstalls W remaining rt' else rt')"
    using assms(3) r by (auto simp: flush_pending_uninstall_reports_def load_pending [OF assms(1)] Let_def)
  with m p assms(3) show ?thesis by (simp add: save_pending [OF assms(2)])
qed

lemma report_removal_queues:
  assumes "\<And>n. w_queue_read W n" "\<And>n. w_queue_write W n" "\<not> settled W (rt_config rt) m"
  shows "m \<in> set (pending_ids (report_model_uninstalled_to_control W m rt)) \<and>
         rt_config (report_model_uninstalled_to_control W m rt) = rt_config rt"
proof -
  obtain ok rt1 where p: "post_uninstall_report W m rt = (ok, rt1)" by fastforce
  with assms(3) have "\<not> ok"
    by (auto simp: post_uninstall_report_def settled_def split: option.splits)
  with p have "report_model_uninstalled_to_control W m rt =
      (if m \<in> set (pending_ids rt1) then rt1 else save_pending_uninstalls W (pending_ids rt1 @ [m]) rt1)"
    by (simp add: report_model_uninstalled_to_control_def queue_pending_uninstall_def load_pending [OF assms(1)] Let_def)
  with post_frame [OF p] show ?thesis by (simp add: save_pending [OF assms(2)])
qed

section \<open>Facts about removal\<close>

lemma config_frame [simp]:
  "rt_files (log_reports rs rt) = rt_files rt" "rt_pipelines (log_reports rs rt) = rt_pipelines rt"
  "rt_pipeline_configs (log_reports rs rt) = rt_pipeline_configs rt"
  "rt_files (drop_config pid rt) = rt_files rt" "rt_pipelines (drop_config pid rt) = rt_pipelines rt"
  "rt_pipeline_configs (drop_config pid rt) = AList.delete pid (rt_pipeline_configs rt)"
  by (simp_all add: log_reports_def drop_config_def)

lemma queue_ops_frame:
  "rt_files (report_model_uninstalled_to_control W m rt) = rt_files rt \<and>
   rt_pipelines (report_model_uninstalled_to_control W m rt) = rt_pipelines rt \<and>
   rt_pipeline_configs (report_model_uninstalled_to_control W m rt) = rt_pipeline_configs rt \<and>
   rt_reports (report_model_uninstalled_to_control W m rt) = rt_reports rt"
  by (auto simp: report_model_uninstalled_to_control_def post_uninstall_report_def queue_pending_uninstall_def
      save_pending_uninstalls_def tick_def Let_def split: option.splits prod.splits bool.splits)

lemma delete_artifact_frame:
  assumes "delete_artifact W a rt = (del, rt')"
  shows "rt_pipelines rt' = rt_pipelines rt \<and> rt_pipeline_configs rt' = rt_pipeline_configs rt \<and>
         rt_reports rt' = rt_reports rt \<and> rt_config rt' = rt_config rt \<and>
         (rt_files rt' = rt_files rt \<or>
          (\<exists>p. a = Some p \<and> rt_files rt' = filter (\<lambda>g. g \<noteq> resolve_at (w_cwd W) p) (rt_files rt)))"
  using assms by (auto simp: delete_artifact_def Let_def tick_def split: option.splits if_splits)

lemma shared_with_None:
  assumes "shared_with pid a rt = None" "q \<noteq> pid" "map_of (rt_pipeline_configs rt) q = Some c"
  shows "config_artifact c \<noteq> Some a"
proof
  assume "config_artifact c = Some a"
  moreover have "(q, c) \<in> set (rt_pipeline_configs rt)" using assms(3) by (rule map_of_SomeD)
  ultimately show False using assms(1,2) by (force simp: shared_with_def find_None_iff)
qed

lemma remove_model_files:
  assumes rt': "rt' = remove_model W cid pid filename extension rt"
  shows "rt_files rt' = rt_files rt \<or>
    (\<exists>a. artifact_path W pid filename extension rt = Some a \<and>
         rt_files rt' = filter (\<lambda>g. g \<noteq> resolve_at (w_cwd W) a) (rt_files rt) \<and>
         (\<forall>q c. q \<noteq> pid \<longrightarrow> map_of (rt_pipeline_configs rt) q = Some c \<longrightarrow> config_artifact c \<noteq> Some a) \<and>
         map_of (rt_pipeline_configs rt') pid = None \<and> rt_pipelines rt' = rt_pipelines rt)"
proof -
  let ?a = "artifact_path W pid filename extension rt"
  show ?thesis
  proof (cases "Option.bind ?a (\<lambda>a. shared_with pid a rt)")
    case (Some other)
    then show ?thesis by (simp add: rt' remove_model_def)
  next
    case None
    obtain e rt1 where w: "with_state W (\<lambda>io. remove_pipeline io pid) (drop_config pid rt) = (e, rt1)" by fastforce
    obtain del rt2 where d: "delete_artifact W ?a rt1 = (del, rt2)" by fastforce
    note fr1 = with_state_frame [OF w] and fr2 = delete_artifact_frame [OF d]
    have files1: "rt_files rt1 = rt_files rt" using fr1 by (simp add: quiet_def)
    have same: "rt_files rt' = rt_files rt2 \<and> rt_pipelines rt' = rt_pipelines rt2 \<and>
        rt_pipeline_configs rt' = rt_pipeline_configs rt2"
      using None w d queue_ops_frame by (simp add: rt' remove_model_def Let_def)
    have nobody: "?a = Some a \<Longrightarrow> q \<noteq> pid \<Longrightarrow> map_of (rt_pipeline_configs rt) q = Some c \<Longrightarrow>
        config_artifact c \<noteq> Some a" for a q c
      using None shared_with_None [of pid a rt q c] by simp
    have "map_of (rt_pipeline_configs rt') pid = None" "rt_pipelines rt' = rt_pipelines rt"
      using same fr1 fr2 by (simp_all add: py_dict)
    with fr2 files1 same nobody show ?thesis by metis
  qed
qed

lemma artifact_path_configs:
  "rt_pipeline_configs rt1 = rt_pipeline_configs rt \<Longrightarrow>
   artifact_path W pid f e rt1 = artifact_path W pid f e rt"
  by (simp add: artifact_path_def)

section \<open>Properties\<close>

text \<open>
  C40. What an UNINSTALL_MODEL may delete: the files on disk either stay as they are, or exactly the
  artifact of the pipeline is removed; then no other deployed pipeline names that path, and the
  pipeline itself is neither configured nor running any more.
\<close>

theorem uninstall_deletes_only_artifact:
  assumes rt'_def: "rt' = uninstall_model W cid pid force filename extension rt"
  shows "rt_files rt' = rt_files rt \<or>
    (\<exists>a. artifact_path W pid filename extension rt = Some a \<and>
         rt_files rt' = filter (\<lambda>g. g \<noteq> resolve_at (w_cwd W) a) (rt_files rt) \<and>
         (\<forall>q c. q \<noteq> pid \<longrightarrow> map_of (rt_pipeline_configs rt) q = Some c \<longrightarrow> config_artifact c \<noteq> Some a) \<and>
         map_of (rt_pipeline_configs rt') pid = None \<and> \<not> is_running rt' pid)"
proof (cases "is_running rt pid")
  case False
  then have "rt' = remove_model W cid pid filename extension rt"
    by (simp add: rt'_def uninstall_model_def)
  from remove_model_files [OF this] False show ?thesis by (auto simp: is_running_def)
next
  case True
  obtain ok rt1 where st: "stop_pipeline W pid rt = (ok, rt1)" by fastforce
  note sp = stop_pipeline_spec [OF st]
  have files: "rt_files rt1 = rt_files rt" using sp(1) by (simp add: quiet_def)
  show ?thesis
  proof (cases "force \<and> ok")
    case False
    with True st files show ?thesis by (auto simp: rt'_def uninstall_model_def)
  next
    case both: True
    then have "rt' = remove_model W cid pid filename extension rt1"
      using True st by (simp add: rt'_def uninstall_model_def)
    moreover have "\<not> is_running rt1 pid" using sp(4) both by (simp add: is_running_iff)
    ultimately show ?thesis
      using remove_model_files [of rt' W cid pid filename extension rt1]
      unfolding artifact_path_configs [OF sp(2)] files sp(2) is_running_def by metis
  qed
qed

theorem uninstall_deletes_only_artifact_witness:
  "rt_files (uninstall_model sample_world ''c'' ''m'' False None None sample_runtime) = [] \<and>
   map_of (rt_pipeline_configs (uninstall_model sample_world ''c'' ''m'' False None None sample_runtime)) ''m'' = None"
proof -
  let ?rt = "uninstall_model sample_world ''c'' ''m'' False None None sample_runtime"
  have f: "rt_files ?rt = []" by code_simp
  have "rt_files sample_runtime \<noteq> []" by code_simp
  with uninstall_deletes_only_artifact [of ?rt sample_world "''c''" "''m''" False None None sample_runtime] f
  show ?thesis by auto
qed

text \<open>
  The names a command supplies cannot reach outside the models directory: for an orphaned model,
  a safe file name with a safe extension (or none) always denotes an entry directly in \<open>models\<close>
  below the working directory.
\<close>

lemma uninstall_fallback_contained:
  assumes "map_of (rt_pipeline_configs rt) pid = None"
    and "is_safe_basename f" "extension = None \<or> is_safe_extension (the extension)"
  shows "\<exists>name. artifact_path W pid (Some f) extension rt =
                  Some (fst (w_cwd W), snd (w_cwd W) @ [''models'', name]) \<and>
                name \<noteq> ''..'' \<and> CHR ''/'' \<notin> set name"
proof -
  let ?ext = "case extension of None \<Rightarrow> [] | Some e \<Rightarrow> e"
  have e: "?ext = [] \<or> is_safe_extension ?ext" using assms(3) by (cases extension) auto
  have f: "f \<noteq> []" "CHR ''/'' \<notin> set f" using assms(2) by (auto simp: is_safe_basename_iff)
  have "path_append (w_cwd W) ''models'' = (fst (w_cwd W), snd (w_cwd W) @ [''models''])"
    by (rule path_append_plain) simp_all
  with safe_name_part [OF assms(2) e, of "path_append (w_cwd W) ''models''"] f assms(1)
  have "artifact_path W pid (Some f) extension rt =
      Some (fst (w_cwd W), snd (w_cwd W) @ [''models'', f @ dotted ?ext])" "f @ dotted ?ext \<noteq> ''..''"
    by (simp_all add: artifact_path_def)
  moreover have "CHR ''/'' \<notin> set (f @ dotted ?ext)"
    using f e by (auto simp: is_safe_extension_def dotted_def split: if_splits)
  ultimately show ?thesis by blast
qed

lemma uninstall_fallback_contained_witness:
  "\<exists>name. artifact_path sample_world ''gone'' (Some ''llama'') (Some ''gguf'') sample_runtime =
            Some (''/'', [''a'', ''models'', name])"
proof -
  have "map_of (rt_pipeline_configs sample_runtime) ''gone'' = None" by code_simp
  moreover have "is_safe_basename ''llama''" by code_simp
  moreover have "Some ''gguf'' = None \<or> is_safe_extension (the (Some ''gguf''))" by code_simp
  ultimately have "\<exists>name. artifact_path sample_world ''gone'' (Some ''llama'') (Some ''gguf'') sample_runtime =
      Some (fst (w_cwd sample_world), snd (w_cwd sample_world) @ [''models'', name]) \<and> name \<noteq> ''..'' \<and> CHR ''/'' \<notin> set name"
    by (rule uninstall_fallback_contained)
  then show ?thesis by (auto simp: sample_world_def)
qed

text \<open>
  Removal reports are not lost: while Control has not acknowledged a local removal (and the
  report can be sent at all), the id stays in the queue through any number of retries, provided the
  queue file can be read and written.
\<close>

lemma removal_report_not_lost:
  assumes "\<And>n. w_queue_read W n" "\<And>n. w_queue_write W n" "\<not> settled W (rt_config rt) m"
  shows "m \<in> set (pending_ids ((flush_pending_uninstall_reports W ^^ k) (report_model_uninstalled_to_control W m rt)))"
proof -
  let ?rt = "\<lambda>k. (flush_pending_uninstall_reports W ^^ k) (report_model_uninstalled_to_control W m rt)"
  have "m \<in> set (pending_ids (?rt k)) \<and> rt_config (?rt k) = rt_config rt"
  proof (induction k)
    case 0
    then show ?case using report_removal_queues [OF assms] by simp
  next
    case (Suc k)
    then have "\<not> settled W (rt_config (?rt k)) m" using assms(3) by simp
    with flush_pending_keeps [OF assms(1,2), of m "?rt k"] Suc show ?case by simp
  qed
  then show ?thesis by blast
qed

definition offline_world :: world where
  "offline_world = sample_world\<lparr>w_post := (\<lambda>_ _. None)\<rparr>"

definition https_runtime :: runtime where
  "https_runtime = sample_runtime\<lparr>rt_config := sample_config\<lparr>ac_identity :=
     \<lparr>device_id = ''d'', device_name = ''n'', api_url = Some ''https://api.example'', api_key = Some ''k''\<rparr>\<rparr>\<rparr>"

lemma removal_report_not_lost_witness:
  "''m'' \<in> set (pending_ids ((flush_pending_uninstall_reports offline_world ^^ 3)
     (report_model_uninstalled_to_control offline_world ''m'' https_runtime)))"
proof (rule removal_report_not_lost)
  have "uninstall_url (ac_identity (rt_config https_runtime)) ''m'' \<noteq> None" by code_simp
  then show "\<not> settled offline_world (rt_config https_runtime) ''m''"
    by (auto simp: settled_def offline_world_def)
qed (simp_all add: offline_world_def sample_world_def)

text \<open>
  The guard compares paths, not files: the orphan fallback builds an absolute path, so a deployed
  pipeline that names the same file by a relative path does not protect it.  Whenever such a file
  exists, the uninstall deletes it although the other pipeline still refers to it.
\<close>

lemma uninstall_relative_path_unprotected:
  assumes "map_of (rt_pipeline_configs rt) pid = None" "\<not> is_running rt pid" "is_safe_basename f"
    and "fst (w_cwd W) \<noteq> []" "map_of (rt_pipeline_configs rt) q = Some c" "config_artifact c = Some ([], [''models'', f])"
    and "\<forall>p d. (p, d) \<in> set (rt_pipeline_configs rt) \<longrightarrow> (\<forall>a. config_artifact d = Some a \<longrightarrow> fst a = [])"
    and "(fst (w_cwd W), snd (w_cwd W) @ [''models'', f]) \<in> set (rt_files rt)" "\<And>n p. w_unlink W n p"
  shows "resolve_at (w_cwd W) ([], [''models'', f]) \<notin>
           set (rt_files (uninstall_model W cid pid force (Some f) None rt))"
proof -
  let ?a = "(fst (w_cwd W), snd (w_cwd W) @ [''models'', f])"
  have "f \<noteq> []" using assms(3) by (auto simp: is_safe_basename_iff)
  moreover have "path_append (w_cwd W) ''models'' = (fst (w_cwd W), snd (w_cwd W) @ [''models''])"
    by (rule path_append_plain) simp_all
  ultimately have a: "artifact_path W pid (Some f) None rt = Some ?a"
    using assms(1) safe_name_part [OF assms(3), of "[]" "path_append (w_cwd W) ''models''"]
    by (simp add: artifact_path_def dotted_def)
  have none: "shared_with pid ?a rt = None"
    using assms(4,7) by (auto simp: shared_with_def find_None_iff)
  obtain e rt1 where w: "with_state W (\<lambda>io. remove_pipeline io pid) (drop_config pid rt) = (e, rt1)" by fastforce
  have files1: "rt_files rt1 = rt_files rt" using with_state_frame [OF w] by (simp add: quiet_def)
  have res: "resolve_at (w_cwd W) ?a = ?a" "resolve_at (w_cwd W) ([], [''models'', f]) = ?a"
    using assms(4) by (simp_all add: resolve_at_def)
  obtain del rt2 where d: "delete_artifact W (Some ?a) rt1 = (del, rt2)" by fastforce
  then have "?a \<notin> set (rt_files rt2)"
    using assms(8,9) files1 res(1) by (auto simp: delete_artifact_def Let_def tick_def)
  then show ?thesis
    using assms(2) a none w d res queue_ops_frame
    by (simp add: uninstall_model_def remove_model_def Let_def)
qed

lemma uninstall_relative_path_unprotected_witness:
  "(''/'', [''a'', ''models'', ''a.gguf'']) \<in> set (rt_files sample_runtime) \<and>
   resolve_at (w_cwd sample_world) ([], [''models'', ''a.gguf'']) \<notin>
     set (rt_files (uninstall_model sample_world ''c'' ''orphan'' False (Some ''a.gguf'') None sample_runtime))"
proof
  show f: "(''/'', [''a'', ''models'', ''a.gguf'']) \<in> set (rt_files sample_runtime)" by code_simp
  have c: "rt_pipeline_configs sample_runtime = [(''m'', sample_pipeline)]" by code_simp
  have a: "config_artifact sample_pipeline = Some ([], [''models'', ''a.gguf''])" by code_simp
  show "resolve_at (w_cwd sample_world) ([], [''models'', ''a.gguf'']) \<notin>
     set (rt_files (uninstall_model sample_world ''c'' ''orphan'' False (Some ''a.gguf'') None sample_runtime))"
  proof (rule uninstall_relative_path_unprotected [of _ _ _ _ "''m''" sample_pipeline])
    show "\<not> is_running sample_runtime ''orphan''" by code_simp
    show "is_safe_basename ''a.gguf''" by code_simp
  qed (use f c a in \<open>simp_all add: sample_world_def\<close>)
qed

end
