(* ===== verification/Reconfigure.thy ===== *)
theory Reconfigure
  imports Runtime
begin

text \<open>
  Hot reconfiguration, \<open>apply_agent_config\<close> of \<open>src/link/app/reconfigure.py\<close>: validate, snapshot, swap,
  persist; on failure swap back and restore; if that fails too, persist the new configuration and ask
  for a restart.  The text of a validation error is the library's (\<open>w_invalid_text\<close>).  The report of the
  applied configuration to the backend is best effort and leaves no trace in the state.
\<close>

record apply_result =
  ar_ok :: bool
  ar_message :: string
  ar_scheduled_restart :: bool

definition identity_context :: "identity_config \<Rightarrow> jdict" where
  "identity_context i =
     [(''identity'', JObj [(''device_id'', JStr (device_id i)), (''device_name'', JStr (device_name i)),
                           (''api_key'', jopt (api_key i)), (''api_url'', jopt (api_url i))]),
      (''api_url'', jopt (api_url i))]"

definition resolve_fields :: "identity_config \<Rightarrow> jdict \<Rightarrow> jdict" where
  "resolve_fields i raw =
     (case resolve_templates (identity_context i) (JObj raw) of JObj d \<Rightarrow> d | _ \<Rightarrow> [])"

definition refuse :: "string \<Rightarrow> apply_result" where
  "refuse msg = \<lparr>ar_ok = False, ar_message = msg, ar_scheduled_restart = False\<rparr>"

text \<open>Steps 1 to 3: the configuration to apply, or why it is refused.\<close>

definition validate_config :: "world \<Rightarrow> jdict \<Rightarrow> agent_config \<Rightarrow> apply_result + agent_config" where
  "validate_config W raw current =
     (let cur_identity = ac_identity current; resolved = resolve_fields cur_identity raw;
          version = dget resolved ''version'' in
      if \<not> py_eq version (JFloat SCHEMA_VERSION)
      then Inl (refuse (''Unsupported version '' @ py_repr version))
      else case parse_agent_config (w_pd W) (JObj resolved) of
        None \<Rightarrow> Inl (refuse (''Invalid config: '' @ w_invalid_text W resolved))
      | Some new_cfg \<Rightarrow>
          if device_id (ac_identity new_cfg) \<noteq> device_id cur_identity
          then Inl (refuse (''Identity drift - device_id mismatch: expected '' @ repr_str (device_id cur_identity) @
                            '', got '' @ repr_str (device_id (ac_identity new_cfg))))
          else if \<not> eq_transport (ac_transport new_cfg) (ac_transport current)
          then Inl (refuse ''Transport change requires a restart, not hot-swappable'')
          else Inr new_cfg)"

text \<open>Step 5: swap, then persist; the first exception ends it.\<close>

definition apply_and_persist :: "world \<Rightarrow> agent_config \<Rightarrow> agent_config \<Rightarrow> runtime \<Rightarrow> py_error option \<times> runtime" where
  "apply_and_persist W new_cfg snapshot_cfg rt =
     (case apply_config W new_cfg snapshot_cfg rt of
        (Some e, rt1) \<Rightarrow> (Some e, rt1)
      | (None, rt1) \<Rightarrow> with_state W (\<lambda>io. update_full_config io new_cfg) rt1)"

definition restore_state :: "world \<Rightarrow> jdict option \<Rightarrow> runtime \<Rightarrow> runtime" where
  "restore_state W snap rt = snd (with_state W (\<lambda>io sm. (None, restore io snap sm)) rt)"

definition request_restart :: "runtime \<Rightarrow> runtime" where
  "request_restart rt = rt\<lparr>rt_config_restart_requested := True, rt_running := False, rt_shutdown_event := True\<rparr>"

definition apply_agent_config :: "world \<Rightarrow> jdict \<Rightarrow> runtime \<Rightarrow> apply_result \<times> runtime" where
  "apply_agent_config W raw rt =
     (case validate_config W raw (rt_config rt) of
        Inl r \<Rightarrow> (r, rt)
      | Inr new_cfg \<Rightarrow>
          (let snapshot_cfg = rt_config rt;
               snapshot_state = Option.bind (rt_state rt) snapshot in
           case apply_and_persist W new_cfg snapshot_cfg rt of
             (None, rt1) \<Rightarrow>
               (\<lparr>ar_ok = True,
                 ar_message = ''Applied - '' @ show_nat (length (ac_pipelines new_cfg)) @ '' pipeline(s)'',
                 ar_scheduled_restart = False\<rparr>, tick rt1)
           | (Some apply_err, rt1) \<Rightarrow>
               (case apply_config W snapshot_cfg new_cfg rt1 of
                  (None, rt2) \<Rightarrow>
                    (refuse (''Reverted after failure: '' @ str_error apply_err), restore_state W snapshot_state rt2)
                | (Some revert_err, rt2) \<Rightarrow>
                    (\<lparr>ar_ok = False,
                      ar_message = ''Apply + revert failed - restarting ('' @ str_error revert_err @ '')'',
                      ar_scheduled_restart = True\<rparr>,
                     request_restart (snd (with_state W (\<lambda>io. update_full_config io new_cfg) rt2))))))"

section \<open>Swapping pipelines\<close>

definition set_order_ok :: "world \<Rightarrow> bool" where
  "set_order_ok W \<longleftrightarrow> (\<forall>xs. set (w_set_order W xs) = set xs)"

lemma stop_removed_spec:
  assumes "stop_removed W pids rt = (e, rt')"
  shows "quiet rt rt' \<and> rt_pipeline_configs rt' = rt_pipeline_configs rt \<and>
         (\<forall>q. q \<notin> set pids \<longrightarrow> map_of (rt_pipelines rt') q = map_of (rt_pipelines rt) q) \<and>
         (e = None \<longrightarrow> (\<forall>q \<in> set pids. \<not> is_running rt' q)) \<and>
         (\<forall>q. \<not> is_running rt q \<longrightarrow> \<not> is_running rt' q)"
  using assms
proof (induction pids arbitrary: rt)
  case (Cons pid pids)
  obtain ok rt1 where st: "stop_pipeline W pid rt = (ok, rt1)" by fastforce
  note sp = stop_pipeline_spec [OF st]
  show ?case
  proof (cases ok)
    case False
    with Cons.prems st sp show ?thesis by (auto simp: is_running_iff)
  next
    case True
    with Cons.prems st have "stop_removed W pids rt1 = (e, rt')" by simp
    from Cons.IH [OF this] sp True quiet_trans show ?thesis
      by (auto simp: is_running_iff)
  qed
qed simp

lemma swap_step_frame:
  assumes "q \<noteq> pc_id p"
    and "(pc_active p \<and> start_pipeline W (pc_id p) cd rt = (ok, rt')) \<or> (stop_pipeline W (pc_id p) rt = (ok, rt'))"
  shows "map_of (rt_pipelines rt') q = map_of (rt_pipelines rt) q"
proof -
  have "map_of (rt_pipelines rt') q = map_of (rt_pipelines rt) q" if "start_pipeline W (pc_id p) cd rt = (ok, rt')"
    using that assms(1) start_pipeline_ok [of W "pc_id p" cd rt rt'] start_pipeline_failed [of W "pc_id p" cd rt rt']
    by (cases ok) auto
  with assms show ?thesis by (auto dest: stop_pipeline_spec)
qed

lemma swap_pipelines_spec:
  assumes "swap_pipelines W ps rt = (e, rt')"
  shows "quiet rt rt' \<and> (\<forall>q. q \<notin> pc_id ` set ps \<longrightarrow> map_of (rt_pipelines rt') q = map_of (rt_pipelines rt) q) \<and>
         (e = None \<longrightarrow> distinct (map pc_id ps) \<longrightarrow> (\<forall>p \<in> set ps. is_running rt' (pc_id p) = pc_active p))"
  using assms
proof (induction ps arbitrary: rt)
  case (Cons p ps)
  have step: ?case
    if rec: "swap_pipelines W ps rt1 = (e, rt')" and qt: "quiet rt rt1"
      and fr: "\<And>q. q \<noteq> pc_id p \<Longrightarrow> map_of (rt_pipelines rt1) q = map_of (rt_pipelines rt) q"
      and run: "is_running rt1 (pc_id p) = pc_active p" for rt1
    using Cons.IH [OF rec] qt fr run quiet_trans by (auto simp: is_running_iff)
  have halt: ?case
    if "e \<noteq> None" "quiet rt rt'" "\<And>q. q \<noteq> pc_id p \<Longrightarrow> map_of (rt_pipelines rt') q = map_of (rt_pipelines rt) q"
    using that by auto
  show ?case
  proof (cases "pc_active p")
    case True
    obtain ok rt1 where st: "start_pipeline W (pc_id p) (Some (dump_pipeline_fields p)) rt = (ok, rt1)" by fastforce
    have fr: "map_of (rt_pipelines rt1) q = map_of (rt_pipelines rt) q" if "q \<noteq> pc_id p" for q
      using swap_step_frame [OF that] True st by blast
    show ?thesis
    proof (cases ok)
      case False
      with True Cons.prems st have e: "e \<noteq> None" "rt1 = rt'" by auto
      show ?thesis by (rule halt) (use e fr start_pipeline_quiet [OF st] in auto)
    next
      case ok: True
      show ?thesis
      proof (rule step [OF _ start_pipeline_quiet [OF st] fr])
        show "swap_pipelines W ps rt1 = (e, rt')" using Cons.prems True st ok by simp
        show "is_running rt1 (pc_id p) = pc_active p" using start_pipeline_ok [of W "pc_id p" _ rt rt1] st ok True by simp
      qed
    qed
  next
    case inactive: False
    show ?thesis
    proof (cases "is_running rt (pc_id p)")
      case False
      show ?thesis by (rule step [of rt]) (use Cons.prems inactive False in auto)
    next
      case True
      obtain ok rt1 where st: "stop_pipeline W (pc_id p) rt = (ok, rt1)" by fastforce
      have fr: "map_of (rt_pipelines rt1) q = map_of (rt_pipelines rt) q" if "q \<noteq> pc_id p" for q
        using swap_step_frame [OF that] st by blast
      note sp = stop_pipeline_spec [OF st]
      show ?thesis
      proof (cases ok)
        case False
        with True inactive Cons.prems st have e: "e \<noteq> None" "rt1 = rt'" by auto
        show ?thesis by (rule halt) (use e fr sp(1) in auto)
      next
        case ok: True
        show ?thesis
          by (rule step [OF _ sp(1) fr]) (use Cons.prems inactive True st ok sp(4) in \<open>simp_all add: is_running_iff\<close>)
      qed
    qed
  qed
qed simp

section \<open>The hot swap\<close>

text \<open>What a swap keeps besides the configuration itself.\<close>

definition quiet_swap :: "runtime \<Rightarrow> runtime \<Rightarrow> bool" where
  "quiet_swap rt rt' \<longleftrightarrow> quiet (rt\<lparr>rt_config := rt_config rt'\<rparr>) rt'"

lemma quiet_swapI: "quiet rt rt' \<Longrightarrow> quiet_swap rt rt'"
  by (simp add: quiet_swap_def quiet_def)

lemma quiet_swap_trans: "quiet_swap a b \<Longrightarrow> quiet_swap b c \<Longrightarrow> quiet_swap a c"
  by (simp add: quiet_swap_def quiet_def)

lemma quiet_config: "quiet rt rt' \<Longrightarrow> rt_config rt' = rt_config rt"
  by (simp add: quiet_def)

definition published :: "agent_config \<Rightarrow> runtime \<Rightarrow> runtime" where
  "published target rt = (tick rt)\<lparr>rt_config := target,
     rt_pipeline_configs := dict_of (map (\<lambda>p. (pc_id p, p)) (ac_pipelines target)), rt_shared := pipeline_ids target\<rparr>"

lemma apply_config_eq:
  assumes "stop_removed W (w_set_order W (filter (\<lambda>i. i \<notin> set (pipeline_ids target)) (pipeline_ids previous))) rt = (e1, rt1)"
    and "swap_pipelines W (ac_pipelines target) rt1 = (e2, rt2)"
  shows "apply_config W target previous rt =
    (case e1 of Some x \<Rightarrow> (Some x, rt1) | None \<Rightarrow>
      (case e2 of Some x \<Rightarrow> (Some x, rt2) | None \<Rightarrow>
        (case w_rebuild W (rt_tick rt2) target of Some x \<Rightarrow> (Some x, tick rt2) | None \<Rightarrow> (None, published target rt2))))"
  using assms by (simp add: apply_config_def diff_and_swap_pipelines_def published_def split: option.split)

lemma apply_config_spec:
  assumes "apply_config W target previous rt = (e, rt')"
  shows "quiet_swap rt rt'" and "rt_config rt' = (if e = None then target else rt_config rt)"
    and "e = None \<Longrightarrow> rt_pipeline_configs rt' = dict_of (map (\<lambda>p. (pc_id p, p)) (ac_pipelines target))"
    and "e = None \<Longrightarrow> distinct_ids target \<Longrightarrow>
           \<forall>p \<in> set (ac_pipelines target). is_running rt' (pc_id p) = pc_active p"
    and "e = None \<Longrightarrow> set_order_ok W \<Longrightarrow> pid \<in> set (pipeline_ids previous) \<Longrightarrow>
           pid \<notin> set (pipeline_ids target) \<Longrightarrow> \<not> is_running rt' pid"
proof -
  let ?gone = "w_set_order W (filter (\<lambda>i. i \<notin> set (pipeline_ids target)) (pipeline_ids previous))"
  obtain e1 rt1 where s1: "stop_removed W ?gone rt = (e1, rt1)" by fastforce
  obtain e2 rt2 where s2: "swap_pipelines W (ac_pipelines target) rt1 = (e2, rt2)" by fastforce
  note sp1 = stop_removed_spec [OF s1] and sp2 = swap_pipelines_spec [OF s2]
  from sp1 have q1: "quiet rt rt1" by blast
  from q1 sp2 have q2: "quiet rt rt2" using quiet_trans by blast
  have res: "(e1 \<noteq> None \<and> e = e1 \<and> rt' = rt1) \<or> (e1 = None \<and> e2 \<noteq> None \<and> e = e2 \<and> rt' = rt2) \<or>
    (e1 = None \<and> e2 = None \<and> e \<noteq> None \<and> rt' = tick rt2) \<or>
    (e1 = None \<and> e2 = None \<and> e = None \<and> rt' = published target rt2)"
    using assms [unfolded apply_config_eq [OF s1 s2]]
    by (cases e1; cases e2; cases "w_rebuild W (rt_tick rt2) target") auto
  have q2t: "quiet rt (tick rt2)" using q2 quiet_tick quiet_trans by blast
  have qs: "quiet_swap rt (published target rt2)"
    using q2 by (simp add: quiet_swap_def quiet_def tick_def published_def)
  show "quiet_swap rt rt'" using res by (elim disjE conjE) (simp_all add: q1 q2 q2t qs quiet_swapI)
  show "rt_config rt' = (if e = None then target else rt_config rt)"
    using res quiet_config [OF q1] quiet_config [OF q2] by (elim disjE conjE) (auto simp: published_def)
  show "rt_pipeline_configs rt' = dict_of (map (\<lambda>p. (pc_id p, p)) (ac_pipelines target))" if "e = None"
    using res that by (auto simp: published_def)
  have ok: "e1 = None" "e2 = None" "rt_pipelines rt' = rt_pipelines rt2" if "e = None"
    using res that by (auto simp: published_def)
  show "\<forall>p \<in> set (ac_pipelines target). is_running rt' (pc_id p) = pc_active p" if "e = None" "distinct_ids target"
    using ok [OF that(1)] sp2 that(2) by (simp add: is_running_def distinct_ids_def)
  show "\<not> is_running rt' pid" if "e = None" "set_order_ok W" "pid \<in> set (pipeline_ids previous)"
    "pid \<notin> set (pipeline_ids target)"
  proof -
    have "pid \<in> set ?gone" using that by (simp add: set_order_ok_def)
    then have "\<not> is_running rt1 pid" using sp1 ok(1) [OF that(1)] by blast
    moreover have "pid \<notin> pc_id ` set (ac_pipelines target)" using that(4) by (simp add: pipeline_ids_def)
    ultimately show ?thesis using sp2 ok(3) [OF that(1)] by (simp add: is_running_iff)
  qed
qed

text \<open>A well-formed session stays well-formed through the swap.\<close>

definition sm_ok :: "runtime \<Rightarrow> bool" where
  "sm_ok rt \<longleftrightarrow> (case rt_state rt of None \<Rightarrow> True | Some sm \<Rightarrow> sm_inv sm)"

lemma sm_ok_with_state:
  assumes "with_state W f rt = (e, rt')" "sm_ok rt" "\<And>io sm. sm_inv sm \<Longrightarrow> sm_inv (snd (f io sm))"
  shows "sm_ok rt'"
  using assms by (auto simp: sm_ok_def with_state_def case_prod_unfold Let_def split: option.splits)

lemma sm_ok_cong: "rt_state rt' = rt_state rt \<Longrightarrow> sm_ok rt' = sm_ok rt"
  by (simp add: sm_ok_def)

lemma sm_ok_stop: "stop_pipeline W pid rt = (ok, rt') \<Longrightarrow> sm_ok rt \<Longrightarrow> sm_ok rt'"
  using stop_pipeline_state [of W pid rt ok rt']
  by (auto simp: sm_ok_def stop_pipeline_def with_state_def tick_def split: option.splits if_splits)

lemma sm_ok_persist: "sm_ok rt \<Longrightarrow> sm_ok (persist_start W pid c rt)"
proof -
  assume ok: "sm_ok rt"
  obtain e1 rt1 where 1: "with_state W (\<lambda>io. update_pipeline_config io c) rt = (e1, rt1)" by fastforce
  obtain e2 rt2 where 2: "with_state W (\<lambda>io. set_pipeline_status io pid True) rt1 = (e2, rt2)" by fastforce
  have "sm_ok rt1" using sm_ok_with_state [OF 1 ok] update_pipeline_config_wf(2) by blast
  moreover from sm_ok_with_state [OF 2 this] have "sm_ok rt2" using set_pipeline_status_wf(2) by blast
  ultimately show ?thesis by (simp add: persist_start_def 1 2 split: option.splits)
qed

lemma sm_ok_start: "start_pipeline W pid cd rt = (ok, rt') \<Longrightarrow> sm_ok rt \<Longrightarrow> sm_ok rt'"
proof (erule start_pipelineE)
  fix p_conf rt1 e
  assume "sm_ok rt" "stop_pipeline W pid rt = (True, rt1)" "build_pipeline W p_conf rt1 = (Inl e, rt')"
  then show ?thesis using sm_ok_stop build_pipeline_frame [of W p_conf rt1 "Inl e" rt'] sm_ok_cong by metis
next
  fix pending p_conf rt1 rt2 pipe
  assume "sm_ok rt" "stop_pipeline W pid rt = (True, rt1)" "build_pipeline W p_conf rt1 = (Inr pipe, rt2)"
    and rt': "rt' = persist_start W pid p_conf (commit_start pid pending pipe rt2)"
  then have "sm_ok rt2" using sm_ok_stop build_pipeline_frame [of W p_conf rt1 "Inr pipe" rt2] sm_ok_cong by metis
  then have "sm_ok (commit_start pid pending pipe rt2)" using sm_ok_cong commit_start_frame(2) by metis
  then show ?thesis unfolding rt' by (rule sm_ok_persist)
qed (auto intro: sm_ok_stop)

lemma sm_ok_stop_removed: "stop_removed W pids rt = (e, rt') \<Longrightarrow> sm_ok rt \<Longrightarrow> sm_ok rt'"
proof (induction pids arbitrary: rt)
  case (Cons pid pids)
  obtain ok rt1 where st: "stop_pipeline W pid rt = (ok, rt1)" by fastforce
  from Cons sm_ok_stop [OF st] st show ?case by (cases ok) auto
qed simp

lemma sm_ok_swap: "swap_pipelines W ps rt = (e, rt') \<Longrightarrow> sm_ok rt \<Longrightarrow> sm_ok rt'"
proof (induction ps arbitrary: rt)
  case (Cons p ps)
  obtain ok rt1 where st: "start_pipeline W (pc_id p) (Some (dump_pipeline_fields p)) rt = (ok, rt1)" by fastforce
  obtain ok2 rt2 where sp: "stop_pipeline W (pc_id p) rt = (ok2, rt2)" by fastforce
  from Cons sm_ok_start [OF st] sm_ok_stop [OF sp] st sp show ?case
    by (cases "pc_active p"; cases "is_running rt (pc_id p)"; cases ok; cases ok2) auto
qed simp

lemma sm_ok_apply: "apply_config W target previous rt = (e, rt') \<Longrightarrow> sm_ok rt \<Longrightarrow> sm_ok rt'"
proof -
  assume a: "apply_config W target previous rt = (e, rt')" and ok: "sm_ok rt"
  obtain e1 rt1 where s1: "stop_removed W (w_set_order W (filter (\<lambda>i. i \<notin> set (pipeline_ids target)) (pipeline_ids previous))) rt = (e1, rt1)"
    by fastforce
  obtain e2 rt2 where s2: "swap_pipelines W (ac_pipelines target) rt1 = (e2, rt2)" by fastforce
  from sm_ok_stop_removed [OF s1 ok] sm_ok_swap [OF s2] have "sm_ok rt1" "sm_ok rt2" by auto
  with a [unfolded apply_config_eq [OF s1 s2]] show ?thesis
    by (cases e1; cases e2; cases "w_rebuild W (rt_tick rt2) target") (auto simp: sm_ok_def published_def)
qed

section \<open>The outcomes of a reconfiguration\<close>

lemma validate_configD:
  assumes "validate_config W raw cur = Inr new"
  shows "device_id (ac_identity new) = device_id (ac_identity cur)"
    and "eq_transport (ac_transport new) (ac_transport cur)"
    and "parse_agent_config (w_pd W) (JObj (resolve_fields (ac_identity cur) raw)) = Some new"
  using assms by (auto simp: validate_config_def Let_def split: if_splits option.splits)

lemma validate_config_refusal: "validate_config W raw cur = Inl r \<Longrightarrow> \<not> ar_ok r \<and> \<not> ar_scheduled_restart r"
  by (auto simp: validate_config_def refuse_def Let_def split: if_splits option.splits)

lemma apply_agent_configE:
  assumes "apply_agent_config W raw rt = (r, rt')"
  obtains (refused) "validate_config W raw (rt_config rt) = Inl r" "rt' = rt"
  | (applied) new rt1 rt2 where "validate_config W raw (rt_config rt) = Inr new"
      "apply_config W new (rt_config rt) rt = (None, rt1)"
      "with_state W (\<lambda>io. update_full_config io new) rt1 = (None, rt2)" "rt' = tick rt2"
      "ar_ok r" "\<not> ar_scheduled_restart r"
  | (reverted) new e rt1 rt2 where "validate_config W raw (rt_config rt) = Inr new"
      "apply_and_persist W new (rt_config rt) rt = (Some e, rt1)"
      "apply_config W (rt_config rt) new rt1 = (None, rt2)"
      "rt' = restore_state W (Option.bind (rt_state rt) snapshot) rt2"
      "\<not> ar_ok r" "\<not> ar_scheduled_restart r"
  | (restart) new e e2 rt1 rt2 where "validate_config W raw (rt_config rt) = Inr new"
      "apply_and_persist W new (rt_config rt) rt = (Some e, rt1)"
      "apply_config W (rt_config rt) new rt1 = (Some e2, rt2)"
      "rt' = request_restart (snd (with_state W (\<lambda>io. update_full_config io new) rt2))"
      "\<not> ar_ok r" "ar_scheduled_restart r"
proof (cases "validate_config W raw (rt_config rt)")
  case (Inl r')
  then have "apply_agent_config W raw rt = (r', rt)" by (simp add: apply_agent_config_def)
  with assms have "r = r'" "rt' = rt" by simp_all
  with that(1) Inl show ?thesis by blast
next
  case (Inr new)
  obtain e rt1 where ap: "apply_and_persist W new (rt_config rt) rt = (e, rt1)" by fastforce
  obtain e2 rt2 where rv: "apply_config W (rt_config rt) new rt1 = (e2, rt2)" by fastforce
  show ?thesis
  proof (cases e)
    case None
    obtain e0 rt0 where a: "apply_config W new (rt_config rt) rt = (e0, rt0)" by fastforce
    have "e0 = None"
    proof (rule ccontr)
      assume "e0 \<noteq> None"
      then have "fst (apply_and_persist W new (rt_config rt) rt) \<noteq> None" by (auto simp: apply_and_persist_def a)
      then show False by (simp add: ap None)
    qed
    moreover have "with_state W (\<lambda>io. update_full_config io new) rt0 = (None, rt1)"
      using ap unfolding apply_and_persist_def by (simp add: a None \<open>e0 = None\<close>)
    moreover have "rt' = tick rt1" "ar_ok r" "\<not> ar_scheduled_restart r"
      using assms unfolding apply_agent_config_def by (auto simp: Inr ap None)
    ultimately show ?thesis using that(2) [OF Inr] a by blast
  next
    case (Some x)
    show ?thesis
    proof (cases e2)
      case None
      then have "rt' = restore_state W (Option.bind (rt_state rt) snapshot) rt2" "\<not> ar_ok r" "\<not> ar_scheduled_restart r"
        using assms unfolding apply_agent_config_def by (auto simp: Inr ap rv Some refuse_def)
      then show ?thesis using that(3) [OF Inr] ap rv Some None by blast
    next
      case (Some y)
      then have "rt' = request_restart (snd (with_state W (\<lambda>io. update_full_config io new) rt2))"
        "\<not> ar_ok r" "ar_scheduled_restart r"
        using assms unfolding apply_agent_config_def by (auto simp: Inr ap rv \<open>e = Some x\<close>)
      then show ?thesis using that(4) [OF Inr] ap rv \<open>e = Some x\<close> Some by blast
    qed
  qed
qed

lemma apply_and_persist_frame:
  assumes "apply_and_persist W new old rt = (e, rt1)"
  shows "quiet_swap rt rt1 \<and> (sm_ok rt \<longrightarrow> distinct_ids new \<longrightarrow> sm_ok rt1)"
proof -
  obtain e0 rt0 where a: "apply_config W new old rt = (e0, rt0)" by fastforce
  obtain e1 rt1' where w: "with_state W (\<lambda>io. update_full_config io new) rt0 = (e1, rt1')" by fastforce
  have "quiet_swap rt rt1'"
    using apply_config_spec(1) [OF a] with_state_frame [OF w] quiet_swapI quiet_swap_trans by blast
  moreover have "sm_ok rt \<Longrightarrow> distinct_ids new \<Longrightarrow> sm_ok rt1'"
    using sm_ok_with_state [OF w] sm_ok_apply [OF a] update_full_config_wf by blast
  ultimately show ?thesis using assms a w apply_config_spec(1) [OF a] sm_ok_apply [OF a]
    by (auto simp: apply_and_persist_def split: option.splits)
qed

lemma restore_cache:
  assumes "rt_state rt = Some sm" "sm_cache sm = Some d" "rt_state rt2 \<noteq> None"
  shows "\<exists>sm'. rt_state (restore_state W (Option.bind (rt_state rt) snapshot) rt2) = Some sm' \<and> sm_cache sm' = Some d"
  using assms by (auto simp: restore_state_def with_state_def snapshot_def restore_def Let_def)

lemma restore_frame:
  "quiet rt (restore_state W snap rt) \<and> rt_pipelines (restore_state W snap rt) = rt_pipelines rt \<and>
   rt_pipeline_configs (restore_state W snap rt) = rt_pipeline_configs rt"
  unfolding restore_state_def
  using with_state_frame [of W "\<lambda>io sm. (None, restore io snap sm)" rt] by (metis prod.collapse)

lemma with_state_None: "with_state W f rt = (e, rt') \<Longrightarrow> rt_state rt' = None \<longleftrightarrow> rt_state rt = None"
  by (auto simp: with_state_def split: option.splits prod.splits)

lemma apply_config_state_None:
  assumes "apply_config W target previous rt = (e, rt')" "rt_state rt \<noteq> None"
  shows "rt_state rt' \<noteq> None"
proof -
  have stop: "stop_pipeline W pid rt = (ok, rt') \<Longrightarrow> rt_state rt' = None \<longleftrightarrow> rt_state rt = None" for pid ok rt rt'
    by (auto simp: stop_pipeline_def with_state_def split: option.splits if_splits prod.splits)
  have persist: "rt_state (persist_start W pid c rt) = None \<longleftrightarrow> rt_state rt = None" for pid c rt
  proof -
    obtain e1 rt1 where 1: "with_state W (\<lambda>io. update_pipeline_config io c) rt = (e1, rt1)" by fastforce
    obtain e2 rt2 where 2: "with_state W (\<lambda>io. set_pipeline_status io pid True) rt1 = (e2, rt2)" by fastforce
    from with_state_None [OF 1] with_state_None [OF 2] show ?thesis
      by (simp add: persist_start_def 1 2 split: option.split)
  qed
  have start: "rt_state rt' = None \<longleftrightarrow> rt_state rt = None" if "start_pipeline W pid cd rt = (ok, rt')" for pid cd ok rt rt'
    using that
  proof (rule start_pipelineE)
    fix p_conf rt1 e
    assume "stop_pipeline W pid rt = (True, rt1)" "build_pipeline W p_conf rt1 = (Inl e, rt')"
    then show ?thesis using stop [of pid rt True rt1] build_pipeline_frame [of W p_conf rt1 "Inl e" rt'] by simp
  next
    fix pending p_conf rt1 rt2 pipe
    assume "stop_pipeline W pid rt = (True, rt1)" "build_pipeline W p_conf rt1 = (Inr pipe, rt2)"
      "rt' = persist_start W pid p_conf (commit_start pid pending pipe rt2)"
    then show ?thesis using stop [of pid rt True rt1] build_pipeline_frame [of W p_conf rt1 "Inr pipe" rt2] persist
      by (simp add: commit_start_frame)
  qed (auto dest: stop)
  have removed: "stop_removed W pids rt = (e, rt') \<Longrightarrow> rt_state rt' = None \<longleftrightarrow> rt_state rt = None" for pids e rt rt'
    by (induction pids arbitrary: rt) (auto split: prod.splits bool.splits dest: stop)
  have swap: "swap_pipelines W ps rt = (e, rt') \<Longrightarrow> rt_state rt' = None \<longleftrightarrow> rt_state rt = None" for ps e rt rt'
    by (induction ps arbitrary: rt) (auto split: prod.splits bool.splits if_splits dest: stop start)
  obtain e1 rt1 where s1: "stop_removed W (w_set_order W (filter (\<lambda>i. i \<notin> set (pipeline_ids target)) (pipeline_ids previous))) rt = (e1, rt1)"
    by fastforce
  obtain e2 rt2 where s2: "swap_pipelines W (ac_pipelines target) rt1 = (e2, rt2)" by fastforce
  from assms(1) [unfolded apply_config_eq [OF s1 s2]] removed [OF s1] swap [OF s2] assms(2) show ?thesis
    by (cases e1; cases e2; cases "w_rebuild W (rt_tick rt2) target") (auto simp: published_def)
qed

section \<open>Properties\<close>

text \<open>
  Identity and transport are immutable under hot reconfiguration: whatever configuration arrives
  and however the attempt ends, the device id stays and the transport of the published configuration
  equals the one the live session was built from.
\<close>

lemma reconfigure_keeps_identity:
  assumes "apply_agent_config W raw rt = (r, rt')"
  shows "device_id (ac_identity (rt_config rt')) = device_id (ac_identity (rt_config rt)) \<and>
         (rt_config rt' = rt_config rt \<or> eq_transport (ac_transport (rt_config rt')) (ac_transport (rt_config rt)))"
  using assms
proof (rule apply_agent_configE)
  fix new rt1 rt2
  assume v: "validate_config W raw (rt_config rt) = Inr new" and a: "apply_config W new (rt_config rt) rt = (None, rt1)"
    and w: "with_state W (\<lambda>io. update_full_config io new) rt1 = (None, rt2)" and rt': "rt' = tick rt2"
  have "rt_config rt' = new"
    using apply_config_spec(2) [OF a] with_state_frame [OF w] quiet_config rt' by fastforce
  then show ?thesis using validate_configD [OF v] by simp
next
  fix new e rt1 rt2
  assume a: "apply_config W (rt_config rt) new rt1 = (None, rt2)"
    and rt': "rt' = restore_state W (Option.bind (rt_state rt) snapshot) rt2"
  have "rt_config rt' = rt_config rt"
    using apply_config_spec(2) [OF a] restore_frame [of rt2] quiet_config rt' by fastforce
  then show ?thesis by simp
next
  fix new e e2 rt1 rt2
  assume v: "validate_config W raw (rt_config rt) = Inr new"
    and ap: "apply_and_persist W new (rt_config rt) rt = (Some e, rt1)"
    and a: "apply_config W (rt_config rt) new rt1 = (Some e2, rt2)"
    and rt': "rt' = request_restart (snd (with_state W (\<lambda>io. update_full_config io new) rt2))"
  obtain e0 rt0 where a0: "apply_config W new (rt_config rt) rt = (e0, rt0)" by fastforce
  obtain e3 rt3 where w: "with_state W (\<lambda>io. update_full_config io new) rt0 = (e3, rt3)" by fastforce
  have "rt_config rt1 \<in> {new, rt_config rt}"
    using ap apply_config_spec(2) [OF a0] quiet_config [of rt0 rt3] with_state_frame [OF w]
    by (auto simp: apply_and_persist_def a0 w split: option.splits if_splits)
  moreover obtain e4 rt4 where w4: "with_state W (\<lambda>io. update_full_config io new) rt2 = (e4, rt4)" by fastforce
  have "rt_config rt' = rt_config rt1"
    using apply_config_spec(2) [OF a] quiet_config [of rt2 rt4] with_state_frame [OF w4]
    by (simp add: rt' w4 request_restart_def)
  ultimately show ?thesis using validate_configD [OF v] by auto
qed simp

lemma reconfigure_keeps_identity_witness:
  "device_id (ac_identity (rt_config (snd (apply_agent_config sample_world
     (dump_agent_fields (sample_config\<lparr>ac_pipelines := []\<rparr>)) sample_runtime)))) = ''d''"
proof -
  have "device_id (ac_identity (rt_config sample_runtime)) = ''d''" by code_simp
  with reconfigure_keeps_identity [OF prod.collapse [symmetric], of sample_world
    "dump_agent_fields (sample_config\<lparr>ac_pipelines := []\<rparr>)" sample_runtime] show ?thesis by simp
qed



text \<open>
  C39. A failed reconfiguration that was reverted leaves the old configuration published and the
  session as it was before the attempt; the pipelines of the old configuration run exactly when it
  marks them active.
\<close>

theorem reconfigure_reverted:
  assumes "apply_agent_config W raw rt = (r, rt')" "validate_config W raw (rt_config rt) = Inr new"
    and "\<not> ar_ok r" "\<not> ar_scheduled_restart r" "distinct_ids (rt_config rt)"
    and "rt_state rt = Some sm" "sm_cache sm = Some d"
  shows "rt_config rt' = rt_config rt \<and> (\<exists>sm'. rt_state rt' = Some sm' \<and> sm_cache sm' = Some d) \<and>
         (\<forall>p \<in> set (ac_pipelines (rt_config rt)). is_running rt' (pc_id p) = pc_active p) \<and>
         rt_pipeline_configs rt' = dict_of (map (\<lambda>p. (pc_id p, p)) (ac_pipelines (rt_config rt)))"
  using assms(1)
proof (rule apply_agent_configE)
  fix new' e rt1 rt2
  assume ap: "apply_and_persist W new' (rt_config rt) rt = (Some e, rt1)"
    and a: "apply_config W (rt_config rt) new' rt1 = (None, rt2)"
    and rt': "rt' = restore_state W (Option.bind (rt_state rt) snapshot) rt2"
  note fr = restore_frame [of rt2 W "Option.bind (rt_state rt) snapshot", folded rt']
  have cfg: "rt_config rt' = rt_config rt" using apply_config_spec(2) [OF a] fr quiet_config by fastforce
  have run: "is_running rt' = is_running rt2" using fr by (simp add: fun_eq_iff is_running_def)
  obtain e0 rt0 where a0: "apply_config W new' (rt_config rt) rt = (e0, rt0)" by fastforce
  obtain e3 rt3 where w: "with_state W (\<lambda>io. update_full_config io new') rt0 = (e3, rt3)" by fastforce
  have "rt_state rt1 \<noteq> None"
    using ap apply_config_state_None [OF a0] with_state_None [OF w] assms(6)
    by (auto simp: apply_and_persist_def a0 w split: option.splits)
  then have "rt_state rt2 \<noteq> None" using apply_config_state_None [OF a] by blast
  from restore_cache [OF assms(6,7) this, of W] cfg run fr apply_config_spec(3,4) [OF a] assms(5)
  show ?thesis by (simp add: rt')
qed (use assms(2,3,4) in auto)

theorem reconfigure_reverted_witness:
  "let W = sample_world\<lparr>w_rebuild := (\<lambda>n _. if n = 0 then Some (RuntimeError ''handler'') else None)\<rparr> in
   rt_config (snd (apply_agent_config W (dump_agent_fields (sample_config\<lparr>ac_pipelines := []\<rparr>)) sample_runtime)) = sample_config"
proof -
  let ?W = "sample_world\<lparr>w_rebuild := (\<lambda>n _. if n = 0 then Some (RuntimeError ''handler'') else None)\<rparr>"
  let ?raw = "dump_agent_fields (sample_config\<lparr>ac_pipelines := []\<rparr>)"
  let ?res = "apply_agent_config ?W ?raw sample_runtime"
  have st: "rt_state sample_runtime = Some (bootstrap io_ok ''2'' sample_config (fresh_manager []))"
    by (simp add: sample_runtime_def init_runtime_def Let_def)
  have cache: "sm_cache (bootstrap io_ok ''2'' sample_config (fresh_manager [])) = Some (dump_agent_fields sample_config)"
    by code_simp
  have cfg: "rt_config sample_runtime = sample_config" by (simp add: sample_runtime_def init_runtime_def Let_def)
  have v: "validate_config ?W ?raw (rt_config sample_runtime) = Inr (sample_config\<lparr>ac_pipelines := []\<rparr>)" by code_simp
  have r: "\<not> ar_ok (fst ?res)" "\<not> ar_scheduled_restart (fst ?res)" "distinct_ids (rt_config sample_runtime)" by code_simp+
  show ?thesis
    using reconfigure_reverted [OF prod.collapse [symmetric] v r st cache] cfg by (simp add: Let_def)
qed

text \<open>
  When applying and reverting both fail, the agent asks for a restart: the main loop is told to
  stop, the restart flag is set, and the session holds the new configuration, which the restarted
  process will load.
\<close>

lemma reconfigure_restart:
  assumes "apply_agent_config W raw rt = (r, rt')" "ar_scheduled_restart r"
    and "validate_config W raw (rt_config rt) = Inr new" "distinct_ids new"
    and "rt_state rt = Some sm" "sm_inv sm"
  shows "\<not> rt_running rt' \<and> rt_shutdown_event rt' \<and> rt_config_restart_requested rt' \<and>
         (\<exists>sm'. rt_state rt' = Some sm' \<and> sm_inv sm' \<and>
            (\<forall>pid. entry sm' pid \<noteq> None \<longleftrightarrow> pid \<in> set (pipeline_ids new)))"
  using assms(1)
proof (rule apply_agent_configE)
  fix new' e e2 rt1 rt2
  assume v: "validate_config W raw (rt_config rt) = Inr new'"
    and ap: "apply_and_persist W new' (rt_config rt) rt = (Some e, rt1)"
    and a: "apply_config W (rt_config rt) new' rt1 = (Some e2, rt2)"
    and rt': "rt' = request_restart (snd (with_state W (\<lambda>io. update_full_config io new') rt2))"
  have new: "new' = new" using v assms(3) by simp
  obtain e0 rt0 where a0: "apply_config W new' (rt_config rt) rt = (e0, rt0)" by fastforce
  obtain e3 rt3 where w: "with_state W (\<lambda>io. update_full_config io new') rt0 = (e3, rt3)" by fastforce
  have "rt_state rt1 \<noteq> None"
    using ap apply_config_state_None [OF a0] with_state_None [OF w] assms(5)
    by (auto simp: apply_and_persist_def a0 w split: option.splits)
  moreover have "sm_ok rt1" using apply_and_persist_frame [OF ap] assms(4-6) new by (simp add: sm_ok_def)
  ultimately obtain sm2 where sm2: "rt_state rt2 = Some sm2" "sm_inv sm2"
    using apply_config_state_None [OF a] sm_ok_apply [OF a] by (auto simp: sm_ok_def)
  let ?io = "w_io W (rt_tick rt2)"
  have "rt_state rt' = Some (snd (update_full_config ?io new sm2))"
    using sm2 by (simp add: rt' new request_restart_def with_state_def case_prod_unfold Let_def)
  moreover have "entry (snd (update_full_config ?io new sm2)) pid \<noteq> None \<longleftrightarrow> pid \<in> set (pipeline_ids new)" for pid
    using update_full_config_wf(3) [OF sm2(2) assms(4), of ?io pid]
    by (auto simp: pipeline_ids_def find_None_iff)
  moreover note update_full_config_wf(2) [OF sm2(2) assms(4), of ?io]
  ultimately show ?thesis by (simp add: rt' request_restart_def)
qed (use assms(2,3) in auto)

lemma reconfigure_restart_witness:
  "let W = sample_world\<lparr>w_rebuild := (\<lambda>n _. Some (RuntimeError ''handler''))\<rparr> in
   rt_config_restart_requested (snd (apply_agent_config W (dump_agent_fields (sample_config\<lparr>ac_pipelines := []\<rparr>)) sample_runtime))"
proof -
  let ?W = "sample_world\<lparr>w_rebuild := (\<lambda>n _. Some (RuntimeError ''handler''))\<rparr>"
  let ?raw = "dump_agent_fields (sample_config\<lparr>ac_pipelines := []\<rparr>)"
  let ?res = "apply_agent_config ?W ?raw sample_runtime"
  have st: "rt_state sample_runtime = Some (bootstrap io_ok ''2'' sample_config (fresh_manager []))"
    by (simp add: sample_runtime_def init_runtime_def Let_def)
  have r: "ar_scheduled_restart (fst ?res)" by code_simp
  have v: "validate_config ?W ?raw (rt_config sample_runtime) = Inr (sample_config\<lparr>ac_pipelines := []\<rparr>)" by code_simp
  have d: "distinct_ids (sample_config\<lparr>ac_pipelines := []\<rparr>)" by code_simp
  have "sm_inv (bootstrap io_ok ''2'' sample_config (fresh_manager []))" by code_simp
  with reconfigure_restart [OF prod.collapse [symmetric] r v d st] show ?thesis by (simp add: Let_def)
qed

end
