(* ===== verification/Recovery.thy ===== *)
theory Recovery
  imports Uninstall Reconfigure
begin

text \<open>
  \<open>AgentRuntime.run\<close>: recovery of the saved session, the re-announcement of what runs, the main loop
  and the end.  An exception of the recovery section escapes \<open>run\<close> before the main loop starts.
\<close>

section \<open>Recovery\<close>

fun recover_configs :: "world \<Rightarrow> json list \<Rightarrow> runtime \<Rightarrow> runtime" where
  "recover_configs W [] rt = rt"
| "recover_configs W (p # ps) rt =
     recover_configs W ps
       (case parse_pipeline (w_pd W) p of None \<Rightarrow> rt | Some c \<Rightarrow> set_config (pc_id c) c rt)"

text \<open>The ids to start: active entries whose id is configured; an unhashable id raises.\<close>

fun to_start :: "json list \<Rightarrow> runtime \<Rightarrow> py_error + string list" where
  "to_start [] rt = Inr []"
| "to_start (p # ps) rt =
     (case get_default p ''active'' (JBool False) of
        Inl e \<Rightarrow> Inl e
      | Inr a \<Rightarrow>
          if \<not> truthy a then to_start ps rt
          else (case get_default p ''id'' JNull of
                  Inl e \<Rightarrow> Inl e
                | Inr (JStr i) \<Rightarrow>
                    if i \<in> set (keys (rt_pipeline_configs rt)) then map_sum id (Cons i) (to_start ps rt)
                    else to_start ps rt
                | Inr (JArr _) \<Rightarrow> Inl (TypeError (''unhashable type: '' @ quoted ''list''))
                | Inr (JObj _) \<Rightarrow> Inl (TypeError (''unhashable type: '' @ quoted ''dict''))
                | Inr _ \<Rightarrow> to_start ps rt))"

definition announce :: "string \<Rightarrow> runtime \<Rightarrow> runtime" where
  "announce pid rt =
     (let args = (case map_of (rt_pipeline_configs rt) pid of None \<Rightarrow> [] | Some c \<Rightarrow> gc_args (pc_source c)) in
      if dget args ''mode'' = JStr ''serve'' then
        on_health (set_serving (Some pid))
          (log_reports (report_model pid (model_kwargs False 0 True 1
             (case map_of args ''port'' of None \<Rightarrow> JInt 0 | Some v \<Rightarrow> v))) rt)
      else if truthy (dget args ''model_path'') then
        log_reports (report_model pid (model_kwargs True 1 False 0 (JInt 0))) rt
      else rt)"

fun restart_active :: "world \<Rightarrow> string list \<Rightarrow> runtime \<Rightarrow> runtime" where
  "restart_active W [] rt = rt"
| "restart_active W (pid # pids) rt =
     (case start_pipeline W pid None rt of
        (started, rt') \<Rightarrow> restart_active W pids (if started then announce pid rt' else rt'))"

definition recover :: "world \<Rightarrow> runtime \<Rightarrow> py_error option \<times> runtime" where
  "recover W rt =
     (case rt_state rt of
        None \<Rightarrow> (None, rt)
      | Some sm \<Rightarrow>
          (let (saved, sm') = load_state (w_io W (rt_tick rt)) None sm;
               rt1 = (tick rt)\<lparr>rt_state := Some sm'\<rparr> in
           case saved of
             None \<Rightarrow> (None, rt1)
           | Some d \<Rightarrow>
               if d = [] then (None, rt1)
               else (case iterate (cached_pipelines d) of
                       Inl e \<Rightarrow> (Some e, rt1)
                     | Inr raw \<Rightarrow>
                         (let rt2 = recover_configs W raw rt1 in
                          case to_start raw rt2 of
                            Inl e \<Rightarrow> (Some e, rt2)
                          | Inr pids \<Rightarrow> (None, restart_active W pids rt2)))))"

section \<open>The main loop\<close>

definition PENDING_REPORT_RETRY :: int where
  "PENDING_REPORT_RETRY = 60 * NANOS"

text \<open>
  One pass of the loop per element: whether the shutdown event was set while it waited, and the clock
  it read after a timeout.  \<open>last_flush\<close> is the time of the last flush; the result says whether the loop
  ended.
\<close>

fun main_loop :: "world \<Rightarrow> int \<Rightarrow> (bool \<times> int) list \<Rightarrow> runtime \<Rightarrow> bool \<times> runtime" where
  "main_loop W last_flush [] rt = (\<not> rt_running rt, rt)"
| "main_loop W last_flush ((signalled, now) # ticks) rt =
     (if \<not> rt_running rt \<or> signalled then (True, rt)
      else if PENDING_REPORT_RETRY \<le> now - last_flush
      then main_loop W now ticks (flush_pending_uninstall_reports W rt)
      else main_loop W last_flush ticks rt)"

definition start_up :: "world \<Rightarrow> runtime \<Rightarrow> py_error option \<times> runtime" where
  "start_up W rt =
     (case recover W rt of
        (Some e, rt') \<Rightarrow> (Some e, rt')
      | (None, rt') \<Rightarrow> (None, flush_pending_uninstall_reports W (log_reports (report_lifecycle ''online'') rt')))"

definition run :: "world \<Rightarrow> int \<Rightarrow> (bool \<times> int) list \<Rightarrow> runtime \<Rightarrow> py_error option \<times> bool \<times> runtime" where
  "run W last_flush ticks rt =
     (case start_up W rt of
        (Some e, rt') \<Rightarrow> (Some e, False, rt')
      | (None, rt') \<Rightarrow>
          (let (ended, rt'') = main_loop W last_flush ticks rt' in
           (None, ended, if ended then log_reports (report_lifecycle ''offline'') (shutdown rt'') else rt'')))"

section \<open>The session follows the pipelines\<close>

text \<open>
  Stored configurations are filed under their own id, the session is well-formed, and every running
  pipeline is stored as active.
\<close>

definition keyed :: "runtime \<Rightarrow> bool" where
  "keyed rt \<longleftrightarrow> (\<forall>pid c. map_of (rt_pipeline_configs rt) pid = Some c \<longrightarrow> pc_id c = pid)"

definition active_in :: "state_manager \<Rightarrow> string \<Rightarrow> bool" where
  "active_in sm pid \<longleftrightarrow> (\<exists>c. pc_id c = pid \<and> pc_active c \<and> entry sm pid = Some (dump_pipeline c))"

definition lifecycle_inv :: "runtime \<Rightarrow> bool" where
  "lifecycle_inv rt \<longleftrightarrow> keyed rt \<and>
     (\<exists>sm. rt_state rt = Some sm \<and> sm_inv sm \<and> (\<forall>pid. is_running rt pid \<longrightarrow> active_in sm pid))"

datatype lifecycle_op =
    OpStart string "pipeline_config option"
  | OpStop string
  | OpSwap agent_config agent_config
  | OpStore pipeline_config
      \<comment> \<open>the commit of a deploy, and an update of a pipeline that does not run\<close>

definition store_config :: "world \<Rightarrow> pipeline_config \<Rightarrow> runtime \<Rightarrow> runtime" where
  "store_config W c rt =
     snd (with_state W (\<lambda>io. update_pipeline_config io c) (set_config (pc_id c) c rt))"

fun lifecycle_step :: "world \<Rightarrow> lifecycle_op \<Rightarrow> runtime \<Rightarrow> runtime" where
  "lifecycle_step W (OpStart pid c) rt = snd (start_pipeline W pid (map_option dump_pipeline_fields c) rt)"
| "lifecycle_step W (OpStop pid) rt = snd (stop_pipeline W pid rt)"
| "lifecycle_step W (OpSwap target previous) rt = snd (apply_config W target previous rt)"
| "lifecycle_step W (OpStore c) rt = store_config W c rt"

text \<open>The ids of a start command agree; this is what DEPLOY_MODEL and UPDATE_PIPELINE check.\<close>

fun lifecycle_ok :: "lifecycle_op \<Rightarrow> bool" where
  "lifecycle_ok (OpStart pid (Some c)) = (pc_id c = pid)"
| "lifecycle_ok _ = True"

lemma keyed_set_config: "keyed rt \<Longrightarrow> keyed (set_config (pc_id c) c rt)"
  by (simp add: keyed_def set_config_def py_dict)

lemma set_active_dump: "set_active (JBool b) (dump_pipeline c) = dump_pipeline (c\<lparr>pc_active := b\<rparr>)"
  by (simp add: dump_pipeline_def dump_pipeline_fields_def)

lemma get_active_dump [simp]: "get_active (dump_pipeline c) = JBool (pc_active c)"
  by (simp add: dump_pipeline_def dump_pipeline_fields_def)

lemma active_set:
  "entry sm' (pc_id c) = Some (set_active (JBool True) (dump_pipeline c)) \<Longrightarrow> active_in sm' (pc_id c)"
  unfolding active_in_def set_active_dump by (rule exI [of _ "c\<lparr>pc_active := True\<rparr>"]) simp

lemma pending_config_None: "pending_config W pid None rt = Pending None"
  by (simp add: pending_config_def)

lemma stop_lifecycle:
  assumes "stop_pipeline W pid rt = (ok, rt')" "lifecycle_inv rt"
  shows "lifecycle_inv rt'"
proof -
  from assms(2) obtain sm where sm: "rt_state rt = Some sm" "sm_inv sm"
    "\<And>q. is_running rt q \<Longrightarrow> active_in sm q" and k: "keyed rt" unfolding lifecycle_inv_def by blast
  obtain sm' where sm': "rt_state rt' = Some sm'" "sm_inv sm'"
    "entry sm' = (if ok \<and> is_running rt pid
       then (entry sm)(pid := map_option (set_active (JBool False)) (entry sm pid)) else entry sm)"
    using stop_pipeline_state [OF assms(1) sm(1,2)] by blast
  note sp = stop_pipeline_spec [OF assms(1)]
  have "active_in sm' q" if "is_running rt' q" for q
  proof -
    from that sp(4) have "is_running rt q" "ok \<Longrightarrow> q \<noteq> pid" by (auto simp: is_running_iff split: if_splits)
    with sm(3) sm'(3) show ?thesis by (auto simp: active_in_def)
  qed
  with sm' k sp(2) show ?thesis by (auto simp: lifecycle_inv_def keyed_def)
qed

lemma build_lifecycle: "build_pipeline W c rt = (r, rt') \<Longrightarrow> lifecycle_inv rt \<Longrightarrow> lifecycle_inv rt'"
  by (drule build_pipeline_frame) (auto simp: lifecycle_inv_def keyed_def is_running_def)

lemma start_lifecycle:
  assumes "start_pipeline W pid (map_option dump_pipeline_fields c) rt = (ok, rt')" "lifecycle_inv rt"
    and "pydantic_ok (w_pd W)" "\<And>x. c = Some x \<Longrightarrow> pc_id x = pid"
  shows "lifecycle_inv rt'"
  using assms(1)
proof (rule start_pipelineE)
  fix p_conf rt1 e
  assume "stop_pipeline W pid rt = (True, rt1)" "build_pipeline W p_conf rt1 = (Inl e, rt')"
  then show ?thesis using stop_lifecycle build_lifecycle assms(2) by blast
next
  fix pending p_conf rt1 rt2 pipe
  assume p: "pending_config W pid (map_option dump_pipeline_fields c) rt = Pending pending"
    "chosen_config pid pending rt = Some p_conf"
    and st: "stop_pipeline W pid rt = (True, rt1)" and b: "build_pipeline W p_conf rt1 = (Inr pipe, rt2)"
    and rt': "rt' = persist_start W pid p_conf (commit_start pid pending pipe rt2)"
  let ?rt3 = "commit_start pid pending pipe rt2"
  have inv2: "lifecycle_inv rt2" using stop_lifecycle [OF st assms(2)] build_lifecycle [OF b] by blast
  have pend: "pending = c"
    using p(1) by (cases c) (auto simp: pending_config_dump [OF assms(3)] pending_config_None split: option.splits if_splits)
  have id: "pc_id p_conf = pid"
    using p(2) pend assms(2,4) by (auto simp: chosen_config_def lifecycle_inv_def keyed_def split: option.splits)
  have k3: "keyed ?rt3"
    using inv2 pend assms(4) by (auto simp: lifecycle_inv_def keyed_def commit_start_frame py_dict split: option.splits)
  obtain sm2 where sm2: "rt_state ?rt3 = Some sm2" "sm_inv sm2" "\<And>q. is_running rt2 q \<Longrightarrow> active_in sm2 q"
    using inv2 by (auto simp: lifecycle_inv_def commit_start_frame)
  obtain sm3 where sm3: "rt_state rt' = Some sm3" "sm_inv sm3" "\<And>q. q \<noteq> pid \<Longrightarrow> entry sm3 q = entry sm2 q"
    "entry sm3 pid = Some (set_active (JBool True) (dump_pipeline p_conf))"
    using persist_start_state [OF sm2(1,2) id] unfolding rt' by blast
  note fr = persist_start_frame [of ?rt3 W pid p_conf, folded rt']
  have "active_in sm3 q" if "is_running rt' q" for q
  proof (cases "q = pid")
    case True
    with sm3(4) id active_set [of sm3 p_conf] show ?thesis by simp
  next
    case False
    with that fr have "is_running rt2 q" by (auto simp: is_running_iff commit_start_frame py_dict)
    with sm2(3) sm3(3) False show ?thesis by (simp add: active_in_def)
  qed
  with sm3(1,2) k3 fr show ?thesis by (auto simp: lifecycle_inv_def keyed_def)
qed (use assms(2) stop_lifecycle in auto)

lemma store_lifecycle: "lifecycle_inv rt \<Longrightarrow> lifecycle_inv (store_config W c rt)"
proof -
  assume inv: "lifecycle_inv rt"
  then obtain sm where sm: "rt_state rt = Some sm" "sm_inv sm" "\<And>q. is_running rt q \<Longrightarrow> active_in sm q"
    and k: "keyed rt" unfolding lifecycle_inv_def by blast
  let ?rt = "set_config (pc_id c) c rt"
  obtain e rt' where w: "with_state W (\<lambda>io. update_pipeline_config io c) ?rt = (e, rt')" by fastforce
  let ?sm = "snd (update_pipeline_config (w_io W (rt_tick rt)) c sm)"
  note wf = update_pipeline_config_wf [OF sm(2), of "w_io W (rt_tick rt)" c]
  have st: "rt_state rt' = Some ?sm"
    using w sm(1) by (auto simp: with_state_def set_config_def case_prod_unfold Let_def)
  have "active_in ?sm q" if "is_running rt' q" for q
  proof -
    have "is_running rt q" using that with_state_frame [OF w] by (simp add: is_running_def set_config_def)
    from sm(3) [OF this] obtain c0 where c0: "pc_id c0 = q" "pc_active c0" "entry sm q = Some (dump_pipeline c0)"
      by (auto simp: active_in_def)
    show ?thesis
    proof (cases "q = pc_id c")
      case True
      with c0 have "entry ?sm (pc_id c) = Some (set_active (JBool True) (dump_pipeline c))" by (simp add: wf(3))
      with active_set True show ?thesis by blast
    next
      case False
      then have "entry ?sm q = entry sm q" by (simp add: wf(3))
      with c0 show ?thesis unfolding active_in_def by (intro exI [of _ c0]) simp
    qed
  qed
  moreover have "keyed rt'"
    using keyed_set_config [OF k, of c] with_state_frame [OF w] unfolding keyed_def by metis
  moreover have "store_config W c rt = rt'" by (simp add: store_config_def w)
  ultimately show ?thesis unfolding lifecycle_inv_def using st wf(2) by blast
qed

lemma stop_removed_lifecycle: "stop_removed W pids rt = (e, rt') \<Longrightarrow> lifecycle_inv rt \<Longrightarrow> lifecycle_inv rt'"
proof (induction pids arbitrary: rt)
  case (Cons pid pids)
  obtain ok rt1 where st: "stop_pipeline W pid rt = (ok, rt1)" by fastforce
  from Cons stop_lifecycle [OF st] st show ?case by (cases ok) auto
qed simp

lemma swap_lifecycle:
  "pydantic_ok (w_pd W) \<Longrightarrow> swap_pipelines W ps rt = (e, rt') \<Longrightarrow> lifecycle_inv rt \<Longrightarrow> lifecycle_inv rt'"
proof (induction ps arbitrary: rt)
  case (Cons p ps)
  obtain ok rt1 where st: "start_pipeline W (pc_id p) (map_option dump_pipeline_fields (Some p)) rt = (ok, rt1)" by fastforce
  obtain ok2 rt2 where sp: "stop_pipeline W (pc_id p) rt = (ok2, rt2)" by fastforce
  from start_lifecycle [OF st Cons.prems(3,1)] have "lifecycle_inv rt1" by simp
  with Cons st stop_lifecycle [OF sp Cons.prems(3)] sp show ?case
    by (cases "pc_active p"; cases "is_running rt (pc_id p)"; cases ok; cases ok2) auto
qed simp

lemma apply_lifecycle:
  assumes "apply_config W target previous rt = (e, rt')" "lifecycle_inv rt" "pydantic_ok (w_pd W)"
  shows "lifecycle_inv rt'"
proof -
  obtain e1 rt1 where s1: "stop_removed W (w_set_order W (filter (\<lambda>i. i \<notin> set (pipeline_ids target)) (pipeline_ids previous))) rt = (e1, rt1)"
    by fastforce
  obtain e2 rt2 where s2: "swap_pipelines W (ac_pipelines target) rt1 = (e2, rt2)" by fastforce
  have i1: "lifecycle_inv rt1" using stop_removed_lifecycle [OF s1 assms(2)] .
  have i2: "lifecycle_inv rt2" using swap_lifecycle [OF assms(3) s2 i1] .
  have "keyed (published target rt2)"
    by (auto simp: keyed_def published_def dict_of_get rev_map dest!: map_of_SomeD)
  then have "lifecycle_inv (published target rt2)" "lifecycle_inv (tick rt2)"
    using i2 by (auto simp: lifecycle_inv_def published_def is_running_def keyed_def)
  with assms(1) [unfolded apply_config_eq [OF s1 s2]] i1 i2 show ?thesis
    by (cases e1; cases e2; cases "w_rebuild W (rt_tick rt2) target") auto
qed

lemma lifecycle_step_inv:
  assumes "lifecycle_inv rt" "pydantic_ok (w_pd W)" "lifecycle_ok op"
  shows "lifecycle_inv (lifecycle_step W op rt)"
proof (cases op)
  case (OpStart pid c)
  then have "\<And>x. c = Some x \<Longrightarrow> pc_id x = pid" using assms(3) by auto
  with start_lifecycle [OF prod.collapse [symmetric] assms(1,2)] OpStart show ?thesis by simp
next
  case (OpSwap target previous)
  with apply_lifecycle [OF prod.collapse [symmetric] assms(1,2)] show ?thesis by simp
qed (use assms(1) stop_lifecycle [OF prod.collapse [symmetric]] store_lifecycle in simp_all)

definition lifecycle_run :: "world \<Rightarrow> lifecycle_op list \<Rightarrow> runtime \<Rightarrow> runtime" where
  "lifecycle_run W ops rt = fold (lifecycle_step W) ops rt"

lemma lifecycle_run_inv:
  "lifecycle_inv rt \<Longrightarrow> pydantic_ok (w_pd W) \<Longrightarrow> list_all lifecycle_ok ops \<Longrightarrow> lifecycle_inv (lifecycle_run W ops rt)"
  unfolding lifecycle_run_def by (induction ops arbitrary: rt) (simp_all add: lifecycle_step_inv)

section \<open>What a restart brings back\<close>

lemma parse_pipe_id: "parse_pipeline pd p = Some c \<Longrightarrow> pipe_id p = Some (pc_id c)"
  by (cases p) (auto simp: parse_pipeline_def model_fields split: bind_splits option.splits json.splits elim!: p_str.elims)

lemma recover_configs_other:
  "Some i \<notin> set (map pipe_id ps) \<Longrightarrow>
   map_of (rt_pipeline_configs (recover_configs W ps rt)) i = map_of (rt_pipeline_configs rt) i"
  by (induction ps arbitrary: rt)
    (auto simp: set_config_def py_dict split: option.splits dest: parse_pipe_id)

lemma recover_configs_get:
  assumes "pydantic_ok (w_pd W)" "wf_pipes ps" "dump_pipeline c \<in> set ps"
  shows "map_of (rt_pipeline_configs (recover_configs W ps rt)) (pc_id c) = Some c"
  using assms(2,3)
proof (induction ps arbitrary: rt)
  case (Cons p ps)
  show ?case
  proof (cases "p = dump_pipeline c")
    case True
    with Cons.prems(1) have "Some (pc_id c) \<notin> set (map pipe_id ps)" by auto
    then show ?thesis
      by (simp add: True recover_configs_other parse_dump_pipeline_eq [OF assms(1)] set_config_def py_dict)
  next
    case False
    with Cons show ?thesis by auto
  qed
qed simp

lemma recover_configs_frame:
  "rt_pipelines (recover_configs W ps rt) = rt_pipelines rt"
  by (induction ps arbitrary: rt) (auto simp: set_config_def split: option.splits)

lemma to_start_wf:
  assumes "wf_pipes ps"
  shows "\<exists>pids. to_start ps rt = Inr pids \<and> set pids \<subseteq> set (keys (rt_pipeline_configs rt)) \<and>
    (\<forall>c. dump_pipeline c \<in> set ps \<and> pc_active c \<and> pc_id c \<in> set (keys (rt_pipeline_configs rt)) \<longrightarrow> pc_id c \<in> set pids)"
  using assms
proof (induction ps)
  case (Cons p ps)
  then obtain pids where IH: "to_start ps rt = Inr pids" "set pids \<subseteq> set (keys (rt_pipeline_configs rt))"
    "\<And>c. dump_pipeline c \<in> set ps \<Longrightarrow> pc_active c \<Longrightarrow> pc_id c \<in> set (keys (rt_pipeline_configs rt)) \<Longrightarrow> pc_id c \<in> set pids"
    by auto
  from Cons.prems obtain i where i: "pipe_id p = Some i" by auto
  then obtain q where q: "p = JObj q" "map_of q ''id'' = Some (JStr i)"
    by (cases p) (auto split: option.splits json.splits)
  let ?here = "truthy (get_active p) \<and> i \<in> set (keys (rt_pipeline_configs rt))"
  have ts: "to_start (p # ps) rt = Inr (if ?here then i # pids else pids)"
    using q IH(1) by (auto split: option.splits)
  have "pc_id c \<in> set (if ?here then i # pids else pids)"
    if "dump_pipeline c \<in> set (p # ps)" "pc_active c" "pc_id c \<in> set (keys (rt_pipeline_configs rt))" for c
  proof (cases "p = dump_pipeline c")
    case True
    with i that show ?thesis by simp
  next
    case False
    with that IH(3) show ?thesis by auto
  qed
  with ts IH(2) show ?case by auto
qed simp

text \<open>The components of a configuration can be built whenever they are asked for.\<close>

definition buildable :: "world \<Rightarrow> pipeline_config \<Rightarrow> bool" where
  "buildable W c \<longleftrightarrow> (\<forall>rt. \<exists>p rt'. build_pipeline W c rt = (Inr p, rt'))"

lemma buildable_start:
  assumes "buildable W c" "\<And>n q. w_stops W n q" "map_of (rt_pipeline_configs rt) pid = Some c"
  shows "\<exists>rt'. start_pipeline W pid None rt = (True, rt') \<and> map_of (rt_pipeline_configs rt') pid = Some c"
proof -
  obtain ok rt1 where st: "stop_pipeline W pid rt = (ok, rt1)" by fastforce
  have ok using st assms(2) by (auto simp: stop_pipeline_def split: option.splits)
  moreover obtain p rt2 where b: "build_pipeline W c rt1 = (Inr p, rt2)" using assms(1) buildable_def by blast
  ultimately have "start_pipeline W pid None rt = (True, persist_start W pid c (commit_start pid None p rt2))"
    using assms(3) st by (simp add: start_pipeline_eq pending_config_None chosen_config_def)
  moreover have "rt_pipeline_configs (persist_start W pid c (commit_start pid None p rt2)) = rt_pipeline_configs rt"
    using persist_start_frame [of "commit_start pid None p rt2" W pid c] stop_pipeline_spec(2) [OF st] build_pipeline_frame [OF b]
    by (simp add: commit_start_frame)
  ultimately show ?thesis using assms(3) by auto
qed

lemma announce_frame:
  "rt_pipelines (announce pid rt) = rt_pipelines rt" "rt_pipeline_configs (announce pid rt) = rt_pipeline_configs rt"
  by (simp_all add: announce_def Let_def on_health_def log_reports_def)

lemma restart_active_running:
  assumes "buildable W c" "\<And>n q. w_stops W n q" "map_of (rt_pipeline_configs rt) pid = Some c"
  shows "pid \<in> set pids \<or> is_running rt pid \<Longrightarrow> is_running (restart_active W pids rt) pid"
  using assms(3)
proof (induction pids arbitrary: rt)
  case (Cons q pids)
  obtain ok rt1 where st: "start_pipeline W q None rt = (ok, rt1)" by fastforce
  let ?rt = "if ok then announce q rt1 else rt1"
  have fr: "rt_pipelines ?rt = rt_pipelines rt1" "rt_pipeline_configs ?rt = rt_pipeline_configs rt1"
    by (simp_all add: announce_frame)
  have "(pid \<in> set pids \<or> is_running ?rt pid) \<and> map_of (rt_pipeline_configs ?rt) pid = Some c"
  proof (cases "q = pid")
    case True
    then have "ok" "map_of (rt_pipeline_configs rt1) pid = Some c"
      using buildable_start [OF assms(1,2) Cons.prems(2)] st by auto
    moreover have "is_running rt1 pid" using start_pipeline_ok [of W q None rt rt1] st True \<open>ok\<close> by simp
    ultimately show ?thesis unfolding is_running_def fr by blast
  next
    case False
    have "map_of (rt_pipelines rt1) pid = map_of (rt_pipelines rt) pid \<and>
        map_of (rt_pipeline_configs rt1) pid = map_of (rt_pipeline_configs rt) pid"
      using start_pipeline_ok [of W q None rt rt1] start_pipeline_failed [of W q None rt rt1] st False by (cases ok) auto
    with Cons.prems False show ?thesis unfolding is_running_iff fr by auto
  qed
  with Cons.IH [of ?rt] st show ?case by simp
qed simp

lemma recover_running:
  assumes "recoverable sm" "active_in sm pid" "pydantic_ok (w_pd W)" "\<And>n q. w_stops W n q"
    and "\<And>c. entry sm pid = Some (dump_pipeline c) \<Longrightarrow> buildable W c"
    and "rt_state rt0 = Some (fresh_manager (sm_disk sm))"
  shows "fst (recover W rt0) = None \<and> is_running (snd (recover W rt0)) pid"
proof -
  obtain d where d: "sm_cache sm = Some d" "wf_cache d" "d \<noteq> []"
    using assms(1) wf_cache_nonempty by (auto simp: recoverable_def sm_inv_def split: option.splits)
  then obtain ps where ps: "cached_pipelines d = JArr ps" "wf_pipes ps"
    by (auto simp: wf_cache_def pipes_of_def split: option.splits json.splits)
  obtain c where c: "pc_id c = pid" "pc_active c" "entry sm pid = Some (dump_pipeline c)"
    using assms(2) by (auto simp: active_in_def)
  have mem: "dump_pipeline c \<in> set ps"
    using c(3) d(1) ps(1) find_holds by (fastforce simp: entry_def pipes_of_def entry_in_def)
  obtain sm1 where ld: "load_state (w_io W (rt_tick rt0)) None (fresh_manager (sm_disk sm)) = (Some d, sm1)"
    using recoverable_load [OF assms(1), of "w_io W (rt_tick rt0)"] d(1) by (metis prod.collapse)
  define rt1 where "rt1 = (tick rt0)\<lparr>rt_state := Some sm1\<rparr>"
  define rt2 where "rt2 = recover_configs W ps rt1"
  have cfg: "map_of (rt_pipeline_configs rt2) pid = Some c"
    using recover_configs_get [OF assms(3) ps(2) mem] c(1) by (simp add: rt2_def)
  then have key: "pid \<in> set (keys (rt_pipeline_configs rt2))" by (metis map_of_eq_None_iff option.distinct(1) set_map)
  obtain pids where pids: "to_start ps rt2 = Inr pids" "set pids \<subseteq> set (keys (rt_pipeline_configs rt2))" "pid \<in> set pids"
    using to_start_wf [OF ps(2), of rt2] mem c key by blast
  have "recover W rt0 = (None, restart_active W pids rt2)"
    using assms(6) ld d(3) ps(1) pids(1) by (simp add: recover_def rt1_def rt2_def)
  moreover have "is_running (restart_active W pids rt2) pid"
    using restart_active_running [OF assms(5) [OF c(3)] assms(4) cfg] pids(3) by blast
  ultimately show ?thesis by simp
qed

section \<open>Properties\<close>


lemma sample_lifecycle_inv: "lifecycle_inv sample_runtime"
proof -
  have "rt_state sample_runtime = Some (bootstrap io_ok ''2'' sample_config (fresh_manager []))"
    by (simp add: sample_runtime_def init_runtime_def Let_def)
  moreover have "sm_inv (bootstrap io_ok ''2'' sample_config (fresh_manager []))" by code_simp
  moreover have "rt_pipelines sample_runtime = []" by code_simp
  moreover have "rt_pipeline_configs sample_runtime = [(''m'', sample_pipeline)]" by code_simp
  moreover have "pc_id sample_pipeline = ''m''" by code_simp
  ultimately show ?thesis by (simp add: lifecycle_inv_def keyed_def is_running_def)
qed



lemma sample_buildable: "gc_type (pc_source c) = ''language_model'' \<Longrightarrow> pc_sink c = None \<Longrightarrow> buildable sample_world c"
  by (auto simp: buildable_def build_pipeline_def create_component_def Let_def sample_world_def sample_plugins_def
      load_plugin_def find_plugin_dir_def path_join_def install_plugin_dependencies_def install_defs
      get_entry_point_class_def entry_point_matches_def split: option.splits)


end
