(* ===== verification/Deploy.thy ===== *)
theory Deploy
  imports Runtime
begin

text \<open>
  The deploy worker, \<open>_deploy_worker\<close>, \<open>_download_and_publish\<close> and \<open>_commit_deploy\<close> of
  \<open>src/link/app/runtime.py\<close>.  The worker runs in a thread of its own; the one thing that can reach it
  from outside is its cancel event.  The event is set once and never cleared, so a run is determined
  by the first of the worker's checks that sees it set: \<open>dv_cancel\<close> is that number, and quantifying
  over it covers every moment at which a cancel (or a shutdown) can arrive.

  A \<open>delivery\<close> holds what the outside does in one run: how the request starts, the announced length,
  the chunks that arrive, the error that may end the stream, and whether the file operations work.
  \<open>dv_pct\<close> is the value of \<open>int((done / total) * 100)\<close> in the machine's floating-point arithmetic; it
  only fills progress reports.
\<close>

record delivery =
  dv_cancel :: "nat option"
  dv_mkdir :: "py_error option"
  dv_open :: "py_error option"
  dv_total :: int
  dv_chunks :: "string list"
  dv_break :: "py_error option"
  dv_unlink :: bool
  dv_replace :: "py_error option"
  dv_pct :: "int \<Rightarrow> int \<Rightarrow> int"

text \<open>The two files of a deploy: the staged download and the published model.\<close>

record deploy_files =
  df_partial :: "string option"
  df_target :: "string option"

definition cancel_seen :: "delivery \<Rightarrow> nat \<Rightarrow> bool" where
  "cancel_seen d i = (case dv_cancel d of None \<Rightarrow> False | Some k \<Rightarrow> k \<le> i)"

definition progress :: "world \<Rightarrow> deploy_command \<Rightarrow> string \<Rightarrow> int \<Rightarrow> runtime \<Rightarrow> runtime" where
  "progress W cmd stage pct rt =
     on_health (set_deployment_progress (w_now W (rt_tick rt)) (dc_pipeline_id cmd) stage pct (Some (dc_model_name cmd))) rt"

definition report_progress :: "deploy_command \<Rightarrow> string \<Rightarrow> int \<Rightarrow> int \<Rightarrow> int \<Rightarrow> runtime \<Rightarrow> runtime" where
  "report_progress cmd stage pct bytes_done total_bytes rt =
     log_reports (report_deployment_progress (dc_pipeline_id cmd) stage pct bytes_done total_bytes) rt"

definition fail_command :: "world \<Rightarrow> deploy_command \<Rightarrow> string \<Rightarrow> runtime \<Rightarrow> runtime" where
  "fail_command W cmd msg rt =
     progress W cmd ''completed'' 0 (log_reports (report_command (dc_id cmd) ''failed'' msg) rt)"

definition report_cancelled :: "world \<Rightarrow> deploy_command \<Rightarrow> runtime \<Rightarrow> runtime" where
  "report_cancelled W cmd rt =
     log_reports (report_command (dc_id cmd) ''failed'' ''cancelled'')
       (progress W cmd ''completed'' 0 (report_progress cmd ''cancelled'' 0 0 0 rt))"

definition cleanup_partial :: "delivery \<Rightarrow> deploy_files \<Rightarrow> deploy_files" where
  "cleanup_partial d fs = (if dv_unlink d then fs\<lparr>df_partial := None\<rparr> else fs)"

section \<open>The download\<close>

text \<open>
  The chunk loop.  \<open>i\<close> numbers the cancel check of the next chunk, \<open>acc\<close> is what has been written.
  The result is whether the loop was left by a cancel, the bytes written and the runtime.
\<close>

fun receive ::
    "world \<Rightarrow> delivery \<Rightarrow> deploy_command \<Rightarrow> nat \<Rightarrow> int \<Rightarrow> string \<Rightarrow> string list \<Rightarrow> runtime \<Rightarrow> bool \<times> string \<times> runtime" where
  "receive W d cmd i last_reported acc [] rt = (False, acc, rt)"
| "receive W d cmd i last_reported acc (chunk # chunks) rt =
     (if cancel_seen d i then (True, acc, rt)
      else
        (let acc' = acc @ chunk; bytes = int (length acc'); total_bytes = dv_total d;
             pct = dv_pct d bytes total_bytes in
         if total_bytes \<noteq> 0 \<and> last_reported + 5 \<le> pct
         then receive W d cmd (Suc i) pct acc' chunks
                (progress W cmd ''downloading'' pct (report_progress cmd ''downloading'' pct bytes total_bytes rt))
         else receive W d cmd (Suc i) last_reported acc' chunks rt))"

text \<open>
  \<open>_download_and_publish\<close>.  Check 0 is the one of the worker, checks 1 to \<open>n\<close> are those of the chunks,
  check \<open>n + 1\<close> is the one in the handler of an exception or the one before the rename; when the
  request fails before the first chunk, check 1 is the one in the handler.
\<close>

definition publish_check :: "delivery \<Rightarrow> nat" where
  "publish_check d = Suc (length (dv_chunks d))"

definition download_and_publish ::
    "world \<Rightarrow> delivery \<Rightarrow> deploy_command \<Rightarrow> runtime \<times> deploy_files \<Rightarrow> py_error option \<times> bool \<times> runtime \<times> deploy_files" where
  "download_and_publish W d cmd = (\<lambda>(rt, fs0).
     let fs = (if df_partial fs0 \<noteq> None then cleanup_partial d fs0 else fs0) in
     case dv_open d of
       Some e \<Rightarrow>
         if cancel_seen d 1
         then (None, False, report_cancelled W cmd rt, cleanup_partial d fs)
         else (None, False, fail_command W cmd (''Failed to download model: '' @ str_error e) rt, cleanup_partial d fs)
     | None \<Rightarrow>
         (let rt1 = progress W cmd ''downloading'' 0 (report_progress cmd ''downloading'' 0 0 (dv_total d) rt);
              (cancelled, content, rt2) = receive W d cmd 1 (- 1) [] (dv_chunks d) rt1;
              fs1 = fs\<lparr>df_partial := Some content\<rparr>;
              bytes = int (length content) in
          if cancelled then (None, False, report_cancelled W cmd rt2, cleanup_partial d fs1)
          else case dv_break d of
            Some e \<Rightarrow>
              if cancel_seen d (publish_check d)
              then (None, False, report_cancelled W cmd rt2, cleanup_partial d fs1)
              else (None, False, fail_command W cmd (''Failed to download model: '' @ str_error e) rt2, cleanup_partial d fs1)
          | None \<Rightarrow>
              if dv_total d \<noteq> 0 \<and> bytes \<noteq> dv_total d
              then (None, False,
                    fail_command W cmd (''incomplete download: '' @ show_int bytes @ ''/'' @ show_int (dv_total d) @ '' bytes'') rt2,
                    cleanup_partial d fs1)
              else if cancel_seen d (publish_check d)
              then (None, False, report_cancelled W cmd rt2, cleanup_partial d fs1)
              else case dv_replace d of
                Some e \<Rightarrow> (Some e, False, rt2, fs1)
              | None \<Rightarrow> (None, True, rt2, \<lparr>df_partial = None, df_target = Some content\<rparr>)))"

section \<open>Commit and the worker\<close>

definition commit_check :: "delivery \<Rightarrow> bool \<Rightarrow> nat" where
  "commit_check d cached = (if cached then 1 else Suc (publish_check d))"

definition commit_deploy :: "world \<Rightarrow> delivery \<Rightarrow> bool \<Rightarrow> deploy_command \<Rightarrow> runtime \<Rightarrow> bool \<times> runtime" where
  "commit_deploy W d cached cmd rt =
     (let rt1 = progress W cmd ''configuring'' 95 (report_progress cmd ''configuring'' 95 0 0 rt) in
      if cancel_seen d (commit_check d cached) then (False, rt1)
      else (True, snd (with_state W (\<lambda>io. update_pipeline_config io (dc_config cmd))
                         (set_config (dc_pipeline_id cmd) (dc_config cmd) rt1))))"

text \<open>An empty model name makes the target the models directory, which exists.\<close>

definition target_exists :: "deploy_command \<Rightarrow> deploy_files \<Rightarrow> bool" where
  "target_exists cmd fs = (dc_model_name cmd = [] \<or> df_target fs \<noteq> None)"

definition finish_deploy :: "world \<Rightarrow> delivery \<Rightarrow> bool \<Rightarrow> deploy_command \<Rightarrow> runtime \<Rightarrow> runtime" where
  "finish_deploy W d cached cmd rt =
     (case commit_deploy W d cached cmd rt of
        (False, rt1) \<Rightarrow> report_cancelled W cmd rt1
      | (True, rt1) \<Rightarrow>
          log_reports (report_command (dc_id cmd) ''completed'' (''Model '' @ dc_model_name cmd @ '' deployed successfully.''))
            (progress W cmd ''completed'' 100 (report_progress cmd ''completed'' 100 0 0 rt1)))"

definition deploy_body :: "world \<Rightarrow> delivery \<Rightarrow> deploy_command \<Rightarrow> runtime \<times> deploy_files \<Rightarrow> runtime \<times> deploy_files" where
  "deploy_body W d cmd = (\<lambda>(rt, fs).
     case dv_mkdir d of
       Some e \<Rightarrow> (fail_command W cmd (str_error e) rt, fs)
     | None \<Rightarrow>
         if cancel_seen d 0 then (report_cancelled W cmd rt, fs)
         else if target_exists cmd fs then (finish_deploy W d True cmd rt, fs)
         else
           (case download_and_publish W d cmd (rt, fs) of
              (Some e, _, rt1, fs1) \<Rightarrow> (fail_command W cmd (str_error e) rt1, fs1)
            | (None, False, rt1, fs1) \<Rightarrow> (rt1, fs1)
            | (None, True, rt1, fs1) \<Rightarrow> (finish_deploy W d False cmd rt1, fs1)))"

definition unregister_worker :: "deploy_command \<Rightarrow> runtime \<Rightarrow> runtime" where
  "unregister_worker cmd rt =
     (case map_of (rt_workers rt) (dc_pipeline_id cmd) of
        Some w \<Rightarrow>
          if wk_command w = dc_id cmd
          then rt\<lparr>rt_workers := AList.delete (dc_pipeline_id cmd) (rt_workers rt)\<rparr> else rt
      | None \<Rightarrow> rt)"

definition deploy_worker :: "world \<Rightarrow> delivery \<Rightarrow> deploy_command \<Rightarrow> runtime \<times> deploy_files \<Rightarrow> runtime \<times> deploy_files" where
  "deploy_worker W d cmd = (\<lambda>s. let (rt, fs) = deploy_body W d cmd s in (unregister_worker cmd rt, fs))"

section \<open>Dispatch and cancellation\<close>

definition deploy_model :: "deploy_command \<Rightarrow> runtime \<Rightarrow> runtime" where
  "deploy_model cmd rt =
     (if pc_id (dc_config cmd) \<noteq> dc_pipeline_id cmd
      then log_reports (report_command (dc_id cmd) ''failed'' ''Pipeline id mismatch'') rt
      else if dc_model_name cmd \<noteq> [] \<and> \<not> is_safe_basename (dc_model_name cmd)
      then log_reports (report_command (dc_id cmd) ''failed'' ''Invalid model_name'') rt
      else
        (let register = rt\<lparr>rt_workers := AList.update (dc_pipeline_id cmd)
               \<lparr>wk_command = dc_id cmd, wk_cancelled = False, wk_alive = True, wk_response = False\<rparr> (rt_workers rt)\<rparr> in
         case map_of (rt_workers rt) (dc_pipeline_id cmd) of
           Some w \<Rightarrow>
             if wk_alive w
             then log_reports (report_command (dc_id cmd) ''failed''
                    (''Deploy already in progress for pipeline '' @ quoted (dc_pipeline_id cmd) @
                     '' (command '' @ quoted (wk_command w) @ ''). Send CANCEL_DEPLOY first.'')) rt
             else register
         | None \<Rightarrow> register))"

definition attach_response :: "string \<Rightarrow> string \<Rightarrow> bool \<Rightarrow> runtime \<Rightarrow> runtime" where
  "attach_response pid cid response rt =
     (case map_of (rt_workers rt) pid of
        Some w \<Rightarrow>
          if wk_command w = cid
          then rt\<lparr>rt_workers := AList.update pid (w\<lparr>wk_response := response\<rparr>) (rt_workers rt)\<rparr> else rt
      | None \<Rightarrow> rt)"

definition cancel_deploy :: "string \<Rightarrow> string \<Rightarrow> runtime \<Rightarrow> runtime" where
  "cancel_deploy cid pid rt =
     (case map_of (rt_workers rt) pid of
        None \<Rightarrow>
          log_reports (report_command cid ''completed'' (''No active deploy for pipeline '' @ quoted pid)) rt
      | Some w \<Rightarrow>
          if \<not> wk_alive w
          then log_reports (report_command cid ''completed'' (''No active deploy for pipeline '' @ quoted pid)) rt
          else log_reports (report_command cid ''completed'' (''Cancel signal sent to deploy '' @ quoted (wk_command w)))
                 (rt\<lparr>rt_workers := AList.update pid (w\<lparr>wk_cancelled := True\<rparr>) (rt_workers rt)\<rparr>))"

section \<open>The cancel event\<close>

text \<open>
  What the worker relies on: once a check has seen the event, every later one does.  A phase that
  passed a check therefore passed all the checks before it.
\<close>

locale cancel_token =
  fixes seen :: "nat \<Rightarrow> bool"
  assumes sticky: "seen i \<Longrightarrow> i \<le> j \<Longrightarrow> seen j"
begin

lemma passed_earlier: "\<not> seen j \<Longrightarrow> i \<le> j \<Longrightarrow> \<not> seen i"
  using sticky by blast

lemma first_seen: "seen j \<Longrightarrow> \<exists>k \<le> j. seen k \<and> (\<forall>i < k. \<not> seen i)"
  by (rule exI [of _ "LEAST k. seen k"]) (auto intro: LeastI Least_le dest: not_less_Least)

end

interpretation deploy_token: cancel_token "cancel_seen d" for d
  by unfold_locales (auto simp: cancel_seen_def split: option.splits)

section \<open>What the phases leave alone\<close>

text \<open>Reporting touches the report log and the health state, nothing else.\<close>

definition reporting :: "runtime \<Rightarrow> runtime \<Rightarrow> bool" where
  "reporting rt rt' \<longleftrightarrow> rt' = rt\<lparr>rt_reports := rt_reports rt', rt_health := rt_health rt'\<rparr>"

lemma reporting_refl [simp]: "reporting rt rt"
  by (simp add: reporting_def)

lemma reporting_trans: "reporting a b \<Longrightarrow> reporting b c \<Longrightarrow> reporting a c"
proof -
  assume ab: "reporting a b" and bc: "reporting b c"
  from bc have "c = b\<lparr>rt_reports := rt_reports c, rt_health := rt_health c\<rparr>" by (simp add: reporting_def)
  also have "\<dots> = (a\<lparr>rt_reports := rt_reports b, rt_health := rt_health b\<rparr>)\<lparr>rt_reports := rt_reports c, rt_health := rt_health c\<rparr>"
    using ab unfolding reporting_def by metis
  finally show "reporting a c" by (simp add: reporting_def)
qed

lemma reporting_frame:
  assumes "reporting rt rt'"
  shows "rt_pipeline_configs rt' = rt_pipeline_configs rt" "rt_pipelines rt' = rt_pipelines rt"
    "rt_config rt' = rt_config rt" "rt_workers rt' = rt_workers rt" "rt_state rt' = rt_state rt"
proof -
  obtain rs h where "rt' = rt\<lparr>rt_reports := rs, rt_health := h\<rparr>" using assms unfolding reporting_def by blast
  then show "rt_pipeline_configs rt' = rt_pipeline_configs rt" "rt_pipelines rt' = rt_pipelines rt"
    "rt_config rt' = rt_config rt" "rt_workers rt' = rt_workers rt" "rt_state rt' = rt_state rt" by simp_all
qed

text \<open>The command reports in the log.\<close>

fun is_command_report :: "report \<Rightarrow> bool" where
  "is_command_report (CommandReport _ _ _) = True"
| "is_command_report _ = False"

definition command_reports :: "runtime \<Rightarrow> report list" where
  "command_reports rt = filter is_command_report (rt_reports rt)"

lemma log_reports_reporting: "reporting rt (log_reports rs rt)"
  by (simp add: reporting_def log_reports_def)

lemma progress_reporting: "reporting rt (progress W cmd st pct rt)"
  by (simp add: reporting_def progress_def on_health_def)

lemma report_progress_reporting: "reporting rt (report_progress cmd st pct a b rt)"
  by (simp add: report_progress_def log_reports_reporting)

lemmas reporting_steps = log_reports_reporting progress_reporting report_progress_reporting

lemma fail_reporting: "reporting rt (fail_command W cmd msg rt)"
  by (simp add: fail_command_def reporting_def log_reports_def progress_def on_health_def)

lemma cancelled_reporting: "reporting rt (report_cancelled W cmd rt)"
  by (simp add: report_cancelled_def reporting_def log_reports_def progress_def on_health_def report_progress_def)

lemma command_reports_log: "command_reports (log_reports rs rt) = command_reports rt @ filter is_command_report rs"
  by (simp add: command_reports_def log_reports_def)

lemma command_reports_progress [simp]:
  "command_reports (progress W cmd st pct rt) = command_reports rt"
  "command_reports (report_progress cmd st pct a b rt) = command_reports rt"
  by (simp_all add: command_reports_def progress_def on_health_def report_progress_def log_reports_def
      report_deployment_progress_def)

lemma command_reports_command: "filter is_command_report (report_command cid st msg) = report_command cid st msg"
  by (simp add: report_command_def)

lemma command_reports_end [simp]:
  "command_reports (fail_command W cmd msg rt) = command_reports rt @ report_command (dc_id cmd) ''failed'' msg"
  "command_reports (report_cancelled W cmd rt) = command_reports rt @ report_command (dc_id cmd) ''failed'' ''cancelled''"
  by (simp_all add: fail_command_def report_cancelled_def command_reports_log command_reports_command)

lemma receive_spec:
  assumes "receive W d cmd i last_reported acc chunks rt = (cancelled, content, rt')"
  shows "reporting rt rt' \<and> command_reports rt' = command_reports rt \<and>
         (\<not> cancelled \<longrightarrow> content = acc @ concat chunks \<and> (\<forall>j < length chunks. \<not> cancel_seen d (i + j)))"
  using assms
proof (induction W d cmd i last_reported acc chunks rt rule: receive.induct)
  case (2 W d cmd i last_reported acc chunk chunks rt)
  let ?acc = "acc @ chunk"
  let ?pct = "dv_pct d (int (length ?acc)) (dv_total d)"
  let ?rt = "progress W cmd ''downloading'' ?pct (report_progress cmd ''downloading'' ?pct (int (length ?acc)) (dv_total d) rt)"
  have rep: "reporting rt ?rt" "command_reports ?rt = command_reports rt"
    by (simp_all add: reporting_def log_reports_def progress_def on_health_def report_progress_def)
      (simp add: command_reports_def report_deployment_progress_def)
  show ?case
  proof (cases "cancel_seen d i")
    case True
    with "2.prems" show ?thesis by simp
  next
    case False
    have all: "(\<forall>j < length chunks. \<not> cancel_seen d (Suc i + j)) \<Longrightarrow>
        (\<forall>j < length (chunk # chunks). \<not> cancel_seen d (i + j))"
      using False by (simp add: All_less_Suc2)
    show ?thesis
    proof (cases "dv_total d \<noteq> 0 \<and> last_reported + 5 \<le> ?pct")
      case True
      with "2.prems" False have "receive W d cmd (Suc i) ?pct ?acc chunks ?rt = (cancelled, content, rt')"
        by (simp add: Let_def)
      from "2.IH"(1) [OF False refl refl refl refl True this] rep all reporting_trans show ?thesis by auto
    next
      case skip: False
      with "2.prems" False have "receive W d cmd (Suc i) last_reported ?acc chunks rt = (cancelled, content, rt')"
        by (auto simp: Let_def)
      from "2.IH"(2) [OF False refl refl refl refl skip this] all show ?thesis by auto
    qed
  qed
qed simp

section \<open>The phases\<close>

text \<open>
  The three ways \<open>_download_and_publish\<close> ends: the whole stream is published, a failure or a cancel
  is reported and nothing is published, or the rename raises.
\<close>

definition published_ok :: "delivery \<Rightarrow> deploy_files \<Rightarrow> bool" where
  "published_ok d fs \<longleftrightarrow> fs = \<lparr>df_partial = None, df_target = Some (concat (dv_chunks d))\<rparr> \<and>
     (dv_total d \<noteq> 0 \<longrightarrow> int (length (concat (dv_chunks d))) = dv_total d) \<and>
     dv_open d = None \<and> dv_break d = None \<and> \<not> cancel_seen d (publish_check d)"

definition staged_only :: "delivery \<Rightarrow> deploy_files \<Rightarrow> deploy_files \<Rightarrow> bool" where
  "staged_only d fs fs' \<longleftrightarrow> df_target fs' = df_target fs \<and> (dv_unlink d \<and> dv_replace d = None \<longrightarrow> df_partial fs' = None)"

lemma cleanup_staged: "df_target fs1 = df_target fs \<Longrightarrow> staged_only d fs (cleanup_partial d fs1)"
  by (simp add: staged_only_def cleanup_partial_def)

lemma download_outcome:
  assumes "download_and_publish W d cmd (rt, fs) = (err, ok, rt', fs')"
  shows "reporting rt rt' \<and>
    (err = None \<and> ok \<and> command_reports rt' = command_reports rt \<and> published_ok d fs' \<or>
     err = None \<and> \<not> ok \<and> staged_only d fs fs' \<and>
       (\<exists>msg. command_reports rt' = command_reports rt @ report_command (dc_id cmd) ''failed'' msg) \<or>
     err \<noteq> None \<and> staged_only d fs fs' \<and> command_reports rt' = command_reports rt)"
proof -
  define fs0 where "fs0 = (if df_partial fs \<noteq> None then cleanup_partial d fs else fs)"
  have t0: "df_target fs0 = df_target fs" by (simp add: fs0_def cleanup_partial_def)
  define rt1 where "rt1 = progress W cmd ''downloading'' 0 (report_progress cmd ''downloading'' 0 0 (dv_total d) rt)"
  have r1: "reporting rt rt1" "command_reports rt1 = command_reports rt"
    by (simp add: rt1_def reporting_def log_reports_def progress_def on_health_def report_progress_def)
      (simp add: rt1_def)
  obtain cancelled content rt2 where rc: "receive W d cmd 1 (- 1) [] (dv_chunks d) rt1 = (cancelled, content, rt2)"
    by (metis prod_cases3)
  note rs = receive_spec [OF rc]
  have r2: "reporting rt rt2" "command_reports rt2 = command_reports rt" using r1 rs reporting_trans by auto
  have rep: "reporting rt (fail_command W cmd msg rt)" "reporting rt (report_cancelled W cmd rt)"
    "reporting rt (fail_command W cmd msg rt2)" "reporting rt (report_cancelled W cmd rt2)" for msg
    using fail_reporting cancelled_reporting r2(1) reporting_trans by blast+
  show ?thesis
  proof (cases "dv_open d")
    case (Some e)
    note eq = assms [unfolded download_and_publish_def Let_def prod.case Some option.case, folded fs0_def]
    show ?thesis using eq rep cleanup_staged [OF t0, of d] by (auto split: if_splits)
  next
    case None
    note eq = assms [unfolded download_and_publish_def Let_def prod.case None option.case, folded fs0_def rt1_def, unfolded rc prod.case]
    have t1: "df_target (fs0\<lparr>df_partial := Some content\<rparr>) = df_target fs" using t0 by simp
    have pub: "published_ok d \<lparr>df_partial = None, df_target = Some content\<rparr>"
      if "\<not> cancelled" "dv_break d = None" "\<not> (dv_total d \<noteq> 0 \<and> int (length content) \<noteq> dv_total d)"
        "\<not> cancel_seen d (publish_check d)"
      using that rs None by (auto simp: published_ok_def)
    show ?thesis
      using eq rep r2 pub cleanup_staged [OF t1, of d] t1
      by (auto simp: staged_only_def split: if_splits option.splits)
  qed
qed

text \<open>The three ways the worker ends.\<close>

definition committed :: "world \<Rightarrow> deploy_command \<Rightarrow> runtime \<Rightarrow> runtime \<Rightarrow> bool" where
  "committed W cmd rt rt' \<longleftrightarrow>
     rt_pipeline_configs rt' = AList.update (dc_pipeline_id cmd) (dc_config cmd) (rt_pipeline_configs rt) \<and>
     (\<exists>msg. command_reports rt' = command_reports rt @ report_command (dc_id cmd) ''completed'' msg)"

definition abandoned :: "deploy_command \<Rightarrow> runtime \<Rightarrow> runtime \<Rightarrow> bool" where
  "abandoned cmd rt rt' \<longleftrightarrow>
     rt_pipeline_configs rt' = rt_pipeline_configs rt \<and> rt_state rt' = rt_state rt \<and>
     (\<exists>msg. command_reports rt' = command_reports rt @ report_command (dc_id cmd) ''failed'' msg)"

lemma abandonedI:
  "reporting rt rt' \<Longrightarrow> command_reports rt' = command_reports rt @ report_command (dc_id cmd) ''failed'' msg \<Longrightarrow> abandoned cmd rt rt'"
  using reporting_frame by (auto simp: abandoned_def)

lemma finish_outcome:
  assumes "finish_deploy W d cached cmd rt = rt'"
  shows "rt_pipelines rt' = rt_pipelines rt \<and>
    (if cancel_seen d (commit_check d cached) then abandoned cmd rt rt' else committed W cmd rt rt')"
proof -
  define rt1 where "rt1 = progress W cmd ''configuring'' 95 (report_progress cmd ''configuring'' 95 0 0 rt)"
  have r1: "reporting rt rt1"
    by (simp add: rt1_def reporting_def log_reports_def progress_def on_health_def report_progress_def)
  have c1: "command_reports rt1 = command_reports rt" by (simp add: rt1_def)
  show ?thesis
  proof (cases "cancel_seen d (commit_check d cached)")
    case True
    then have rt': "rt' = report_cancelled W cmd rt1"
      using assms by (simp add: finish_deploy_def commit_deploy_def rt1_def Let_def)
    have "reporting rt rt'" unfolding rt' using r1 cancelled_reporting reporting_trans by blast
    with rt' c1 True reporting_frame [OF this] show ?thesis by (auto intro: abandonedI)
  next
    case False
    obtain e rt2 where w: "with_state W (\<lambda>io. update_pipeline_config io (dc_config cmd))
        (set_config (dc_pipeline_id cmd) (dc_config cmd) rt1) = (e, rt2)" by fastforce
    note fr = with_state_frame [OF w]
    have rt': "rt' = log_reports (report_command (dc_id cmd) ''completed'' (''Model '' @ dc_model_name cmd @ '' deployed successfully.''))
            (progress W cmd ''completed'' 100 (report_progress cmd ''completed'' 100 0 0 rt2))"
      using assms False w by (simp add: finish_deploy_def commit_deploy_def rt1_def [symmetric] Let_def)
    have "reporting rt2 rt'"
      unfolding rt' by (simp add: reporting_def log_reports_def progress_def on_health_def report_progress_def)
    note fr' = reporting_frame [OF this]
    have "command_reports rt2 = command_reports rt1" using fr by (simp add: command_reports_def quiet_def set_config_def)
    then have "command_reports rt' = command_reports rt @ report_command (dc_id cmd) ''completed'' (''Model '' @ dc_model_name cmd @ '' deployed successfully.'')"
      by (simp add: rt' command_reports_log command_reports_command c1)
    with fr fr' reporting_frame [OF r1] False show ?thesis by (auto simp: committed_def set_config_def)
  qed
qed

lemma deploy_body_outcome:
  assumes "deploy_body W d cmd (rt, fs) = (rt', fs')"
  shows "(committed W cmd rt rt' \<and> dv_mkdir d = None \<and>
            (target_exists cmd fs \<and> fs' = fs \<and> \<not> cancel_seen d 1 \<or>
             \<not> target_exists cmd fs \<and> published_ok d fs' \<and> \<not> cancel_seen d (Suc (publish_check d)))) \<or>
         (abandoned cmd rt rt' \<and> (fs' = fs \<or> staged_only d fs fs' \<or> published_ok d fs'))"
proof -
  obtain err ok rt1 fs1 where dl: "download_and_publish W d cmd (rt, fs) = (err, ok, rt1, fs1)" by (metis prod_cases4)
  note out = download_outcome [OF dl]
  have fail: "abandoned cmd rt (fail_command W cmd msg rt)" "abandoned cmd rt (report_cancelled W cmd rt)" for msg
    using abandonedI [OF fail_reporting] abandonedI [OF cancelled_reporting] by simp_all
  have fin: "finish_deploy W d cached cmd rt0 = rt' \<Longrightarrow> reporting rt rt0 \<Longrightarrow> command_reports rt0 = command_reports rt \<Longrightarrow>
      (if cancel_seen d (commit_check d cached) then abandoned cmd rt rt' else committed W cmd rt rt')" for cached rt0
    using finish_outcome [of W d cached cmd rt0 rt'] reporting_frame [of rt rt0]
    by (auto simp: abandoned_def committed_def)
  show ?thesis
  proof (cases "dv_mkdir d \<noteq> None \<or> cancel_seen d 0")
    case True
    with assms fail show ?thesis by (auto simp: deploy_body_def split: option.splits)
  next
    case go: False
    show ?thesis
    proof (cases "target_exists cmd fs")
      case True
      with assms go have "finish_deploy W d True cmd rt = rt'" "fs' = fs" by (auto simp: deploy_body_def)
      from fin [OF this(1)] this(2) True go show ?thesis by (simp add: commit_check_def split: if_splits)
    next
      case False
      consider (raised) e where "err = Some e" | (ended) "err = None" "\<not> ok" | (published) "err = None" "ok" by blast
      then show ?thesis
      proof cases
        case raised
        with assms go False dl have rt': "rt' = fail_command W cmd (str_error e) rt1" "fs' = fs1"
          by (auto simp: deploy_body_def)
        have "abandoned cmd rt rt'"
          by (rule abandonedI [of _ _ _ "str_error e"]) (use out raised rt' fail_reporting reporting_trans in auto)
        with out raised rt' show ?thesis by auto
      next
        case ended
        with assms go False dl have "rt' = rt1" "fs' = fs1" by (auto simp: deploy_body_def)
        with out ended abandonedI show ?thesis by blast
      next
        case published
        with assms go False dl have rt': "finish_deploy W d False cmd rt1 = rt'" "fs' = fs1" by (auto simp: deploy_body_def)
        have pub: "published_ok d fs'" "reporting rt rt1" "command_reports rt1 = command_reports rt"
          using out published rt' by auto
        from fin [OF rt'(1) pub(2,3)] pub(1) False go show ?thesis by (simp add: commit_check_def split: if_splits)
      qed
    qed
  qed
qed

lemma unregister_frame:
  "rt_pipeline_configs (unregister_worker cmd rt) = rt_pipeline_configs rt"
  "rt_state (unregister_worker cmd rt) = rt_state rt"
  "command_reports (unregister_worker cmd rt) = command_reports rt"
  by (auto simp: unregister_worker_def command_reports_def split: option.splits)

lemma deploy_worker_outcome:
  assumes "deploy_worker W d cmd (rt, fs) = (rt', fs')"
  shows "(committed W cmd rt rt' \<and> dv_mkdir d = None \<and>
            (target_exists cmd fs \<and> fs' = fs \<and> \<not> cancel_seen d 1 \<or>
             \<not> target_exists cmd fs \<and> published_ok d fs' \<and> \<not> cancel_seen d (Suc (publish_check d)))) \<or>
         (abandoned cmd rt rt' \<and> (fs' = fs \<or> staged_only d fs fs' \<or> published_ok d fs'))"
proof -
  obtain rt1 fs1 where b1: "deploy_body W d cmd (rt, fs) = (rt1, fs1)" by fastforce
  then have b: "deploy_body W d cmd (rt, fs) = (rt1, fs')" and rt': "rt' = unregister_worker cmd rt1"
    using assms by (simp_all add: deploy_worker_def)
  from deploy_body_outcome [OF b] show ?thesis
    by (simp add: rt' committed_def abandoned_def unregister_frame)
qed

section \<open>Properties\<close>

definition sample_deploy :: deploy_command where
  "sample_deploy = \<lparr>dc_id = ''c1'', dc_pipeline_id = ''p'', dc_model_name = ''x.gguf'', dc_config = sample_pipeline\<lparr>pc_id := ''p''\<rparr>\<rparr>"

definition sample_delivery :: delivery where
  "sample_delivery = \<lparr>dv_cancel = None, dv_mkdir = None, dv_open = None, dv_total = 3, dv_chunks = [''ab'', ''c''],
     dv_break = None, dv_unlink = True, dv_replace = None, dv_pct = (\<lambda>a b. a * 100 div b)\<rparr>"

definition no_files :: deploy_files where
  "no_files = \<lparr>df_partial = None, df_target = None\<rparr>"

text \<open>
  Every run of a deploy worker ends with exactly one report for its command, whatever the
  network, the disk and a cancel do; it says \<open>completed\<close> exactly when the configuration was
  committed, and on \<open>failed\<close> neither the stored configurations nor the session have changed.
\<close>

lemma deploy_reports_once:
  assumes "deploy_worker W d cmd (rt, fs) = (rt', fs')" "dc_id cmd \<noteq> []"
  shows "\<exists>st msg. command_reports rt' = command_reports rt @ [CommandReport (dc_id cmd) st msg] \<and>
    (st = ''completed'' \<and>
       rt_pipeline_configs rt' = AList.update (dc_pipeline_id cmd) (dc_config cmd) (rt_pipeline_configs rt) \<or>
     st = ''failed'' \<and> rt_pipeline_configs rt' = rt_pipeline_configs rt \<and> rt_state rt' = rt_state rt)"
proof -
  from deploy_worker_outcome [OF assms(1)] consider "committed W cmd rt rt'" | "abandoned cmd rt rt'" by blast
  then show ?thesis
    by cases (use assms(2) in \<open>auto simp: committed_def abandoned_def report_command_def\<close>)
qed

lemma deploy_reports_once_witness:
  "\<exists>st msg. command_reports (fst (deploy_worker sample_world (sample_delivery\<lparr>dv_chunks := [''ab'']\<rparr>) sample_deploy (sample_runtime, no_files))) =
     command_reports sample_runtime @ [CommandReport ''c1'' st msg]"
proof -
  have "dc_id sample_deploy \<noteq> []" by (simp add: sample_deploy_def)
  from deploy_reports_once [OF prod.collapse [symmetric] this, of sample_world "sample_delivery\<lparr>dv_chunks := [''ab'']\<rparr>" sample_runtime no_files]
  show ?thesis by (auto simp: sample_deploy_def)
qed

text \<open>
  C6. A cancel is respected at every point up to the commit: if the cancel event is set before the
  check under the commit lock, however late, the pipeline is not configured and the command is
  reported failed; and if it is set before the rename, the model file is not published.
\<close>

theorem deploy_cancel_respected:
  assumes "deploy_worker W d cmd (rt, fs) = (rt', fs')" "dv_cancel d = Some k"
    and "k \<le> (if target_exists cmd fs then 1 else Suc (publish_check d))"
  shows "rt_pipeline_configs rt' = rt_pipeline_configs rt \<and> rt_state rt' = rt_state rt \<and>
         (\<exists>msg. command_reports rt' = command_reports rt @ report_command (dc_id cmd) ''failed'' msg) \<and>
         (k \<le> publish_check d \<longrightarrow> df_target fs' = df_target fs)"
proof -
  have seen: "cancel_seen d (if target_exists cmd fs then 1 else Suc (publish_check d))"
    using assms(2,3) by (simp add: cancel_seen_def)
  from deploy_worker_outcome [OF assms(1)] seen
  have ab: "abandoned cmd rt rt'" "fs' = fs \<or> staged_only d fs fs' \<or> published_ok d fs'" by auto
  moreover have "\<not> published_ok d fs'" if "k \<le> publish_check d"
    using that assms(2) by (simp add: published_ok_def cancel_seen_def)
  ultimately show ?thesis by (auto simp: abandoned_def staged_only_def)
qed

theorem deploy_cancel_respected_witness:
  "df_target (snd (deploy_worker sample_world (sample_delivery\<lparr>dv_cancel := Some 3\<rparr>) sample_deploy (sample_runtime, no_files))) = None"
proof -
  let ?d = "sample_delivery\<lparr>dv_cancel := Some 3\<rparr>"
  have c: "dv_cancel ?d = Some 3" by simp
  have k: "3 \<le> (if target_exists sample_deploy no_files then 1 else Suc (publish_check ?d))" by code_simp
  have "3 \<le> publish_check ?d" by code_simp
  with deploy_cancel_respected [OF prod.collapse [symmetric] c k, of sample_world sample_runtime] show ?thesis
    by (simp add: no_files_def)
qed

text \<open>
  C35. A published model is a complete download: if the worker changed the model file, the file holds
  exactly the bytes of the stream in order, their number is the announced length (when one was
  announced), the stream ended without an error and nothing is left of the staging file.
\<close>

theorem deploy_published_complete:
  assumes "deploy_worker W d cmd (rt, fs) = (rt', fs')" "df_target fs' \<noteq> df_target fs"
  shows "df_target fs' = Some (concat (dv_chunks d)) \<and> df_partial fs' = None \<and>
         (dv_total d \<noteq> 0 \<longrightarrow> int (length (concat (dv_chunks d))) = dv_total d) \<and> dv_break d = None"
  using deploy_worker_outcome [OF assms(1)] assms(2) by (auto simp: published_ok_def staged_only_def)

theorem deploy_published_complete_witness:
  "df_target (snd (deploy_worker sample_world sample_delivery sample_deploy (sample_runtime, no_files))) = Some ''abc''"
proof -
  let ?r = "deploy_worker sample_world sample_delivery sample_deploy (sample_runtime, no_files)"
  have "df_target (snd ?r) \<noteq> df_target no_files" by code_simp
  from deploy_published_complete [OF prod.collapse [symmetric] this] show ?thesis by (simp add: sample_delivery_def)
qed

text \<open>
  No debris: when the file operations work, a worker that finds no staging file leaves none behind,
  on success, on failure and after a cancel.
\<close>

lemma deploy_no_partial_left:
  assumes "deploy_worker W d cmd (rt, fs) = (rt', fs')" "df_partial fs = None" "dv_unlink d" "dv_replace d = None"
  shows "df_partial fs' = None"
  using deploy_worker_outcome [OF assms(1)] assms(2-4) by (auto simp: published_ok_def staged_only_def)

lemma deploy_no_partial_left_witness:
  "df_partial (snd (deploy_worker sample_world (sample_delivery\<lparr>dv_break := Some (OSError ''reset'')\<rparr>) sample_deploy (sample_runtime, no_files))) = None"
  by (rule deploy_no_partial_left [OF prod.collapse [symmetric]]) (simp_all add: no_files_def sample_delivery_def)

end
