(* ===== verification/Dispatch.thy ===== *)
theory Dispatch
  imports Recovery Deploy
begin

text \<open>
  Command dispatch, \<open>AgentRuntime.handle_command\<close> of \<open>src/link/app/runtime.py\<close>: placeholders are
  resolved, the command is validated against the schema and acted upon; an exception of an action is
  turned into a \<open>failed\<close> report.  An accepted DEPLOY_MODEL only registers its worker, whose run is the
  subject of \<open>Deploy\<close>.
\<close>

section \<open>The actions\<close>

definition report_result :: "string \<Rightarrow> bool \<Rightarrow> string \<Rightarrow> string \<Rightarrow> runtime \<Rightarrow> runtime" where
  "report_result cid ok good bad rt =
     log_reports (if ok then report_command cid ''completed'' good else report_command cid ''failed'' bad) rt"

definition start_model :: "world \<Rightarrow> string \<Rightarrow> string \<Rightarrow> pipeline_config \<Rightarrow> runtime \<Rightarrow> runtime" where
  "start_model W cid pid c rt =
     (let (ok, rt') = start_pipeline W pid (Some (dump_pipeline_fields c)) rt in
      report_result cid ok (''Pipeline '' @ pid @ '' started'') (''Failed to start '' @ pid) rt')"

definition start_model_inference :: "world \<Rightarrow> string \<Rightarrow> string \<Rightarrow> runtime \<Rightarrow> runtime" where
  "start_model_inference W cid pid rt =
     (let (ok, rt1) = start_pipeline W pid None rt;
          rt2 = report_result cid ok (''Inference started for '' @ pid) (''Failed to start '' @ pid) rt1 in
      if ok then log_reports (report_model pid (model_kwargs True 1 False 0 (JInt 0))) rt2 else rt2)"

definition stop_model_inference :: "world \<Rightarrow> string \<Rightarrow> string \<Rightarrow> runtime \<Rightarrow> runtime" where
  "stop_model_inference W cid pid rt =
     (let (ok, rt1) = stop_pipeline W pid rt;
          rt2 = report_result cid ok (''Inference stopped for '' @ pid) (''Failed to stop '' @ pid) rt1 in
      if ok then log_reports (report_model pid (model_kwargs False 0 False 0 (JInt 0))) rt2 else rt2)"

text \<open>The in-place update of the arguments, which is seen through \<open>agent_config\<close> when the object is shared.\<close>

definition serving_args :: "serving_command \<Rightarrow> jdict \<Rightarrow> jdict" where
  "serving_args cmd args =
     fold (\<lambda>(k, v). AList.update k v)
       [(''mode'', JStr ''serve''), (''port'', JInt (sv_port cmd)), (''host'', JStr (sv_host cmd)),
        (''alias'', JStr (sv_model_display_name cmd))] args"

definition with_serving_args :: "serving_command \<Rightarrow> pipeline_config \<Rightarrow> pipeline_config" where
  "with_serving_args cmd c = c\<lparr>pc_source := (pc_source c)\<lparr>gc_args := serving_args cmd (gc_args (pc_source c))\<rparr>\<rparr>"

fun update_last :: "string \<Rightarrow> pipeline_config \<Rightarrow> pipeline_config list \<Rightarrow> pipeline_config list" where
  "update_last pid c [] = []"
| "update_last pid c (p # ps) =
     (if pc_id p = pid \<and> pid \<notin> pc_id ` set ps then c # ps else p # update_last pid c ps)"

definition mutate_config :: "serving_command \<Rightarrow> pipeline_config \<Rightarrow> runtime \<Rightarrow> runtime" where
  "mutate_config cmd c rt =
     (let c' = with_serving_args cmd c; pid = sv_pipeline_id cmd; cfg = rt_config rt in
      rt\<lparr>rt_pipeline_configs := AList.update pid c' (rt_pipeline_configs rt),
         rt_config := (if pid \<in> set (rt_shared rt)
                       then cfg\<lparr>ac_pipelines := update_last pid c' (ac_pipelines cfg)\<rparr> else cfg)\<rparr>)"

definition start_serving :: "world \<Rightarrow> serving_command \<Rightarrow> runtime \<Rightarrow> py_error option \<times> runtime" where
  "start_serving W cmd rt =
     (let cid = sv_id cmd; pid = sv_pipeline_id cmd in
      case map_of (rt_pipeline_configs rt) pid of
        None \<Rightarrow>
          (None, log_reports (report_command cid ''failed'' (''Cannot serve '' @ quoted pid @ '': Pipeline not found/deployed.'')) rt)
      | Some c \<Rightarrow>
          (case with_state W (\<lambda>io. update_pipeline_config io (with_serving_args cmd c)) (mutate_config cmd c rt) of
             (Some e, rt1) \<Rightarrow> (Some e, rt1)
           | (None, rt1) \<Rightarrow>
               (let (ok, rt2) = start_pipeline W pid None rt1;
                    rt3 = report_result cid ok
                            (''Serving started for '' @ pid @ '' on '' @ sv_host cmd @ '':'' @ show_int (sv_port cmd))
                            (''Failed to start serving '' @ pid) rt2 in
                (None,
                 if ok
                 then on_health (set_serving (Some pid))
                        (log_reports (report_model pid (model_kwargs False 0 True 1 (JInt (sv_port cmd)))) rt3)
                 else rt3))))"

definition stop_serving :: "world \<Rightarrow> string \<Rightarrow> string \<Rightarrow> runtime \<Rightarrow> runtime" where
  "stop_serving W cid pid rt =
     (let (ok, rt1) = stop_pipeline W pid rt;
          rt2 = report_result cid ok (''Serving stopped for '' @ pid) (''Failed to stop '' @ pid) rt1 in
      if ok then
        (let rt3 = log_reports (report_model pid (model_kwargs False 0 False 0 (JInt 0))) rt2 in
         if hs_model_id (rt_health rt3) = Some pid then on_health (set_serving None) rt3 else rt3)
      else rt2)"

definition nonempty :: "string option \<Rightarrow> string option" where
  "nonempty s = (case s of None \<Rightarrow> None | Some x \<Rightarrow> if x = [] then None else Some x)"

definition uninstall_command_action :: "world \<Rightarrow> uninstall_command \<Rightarrow> runtime \<Rightarrow> runtime" where
  "uninstall_command_action W cmd rt =
     (case nonempty (un_filename_on_server cmd) of
        Some f \<Rightarrow>
          if \<not> is_safe_basename f
          then log_reports (report_command (un_id cmd) ''failed'' ''Invalid filename_on_server'') rt
          else (case nonempty (un_file_extension cmd) of
                  Some e \<Rightarrow>
                    if \<not> is_safe_extension e
                    then log_reports (report_command (un_id cmd) ''failed'' ''Invalid file_extension'') rt
                    else uninstall_model W (un_id cmd) (un_pipeline_id cmd) (un_force_stop cmd) (Some f) (Some e) rt
                | None \<Rightarrow> uninstall_model W (un_id cmd) (un_pipeline_id cmd) (un_force_stop cmd) (Some f) None rt)
      | None \<Rightarrow>
          (case nonempty (un_file_extension cmd) of
             Some e \<Rightarrow>
               if \<not> is_safe_extension e
               then log_reports (report_command (un_id cmd) ''failed'' ''Invalid file_extension'') rt
               else uninstall_model W (un_id cmd) (un_pipeline_id cmd) (un_force_stop cmd) None (Some e) rt
           | None \<Rightarrow> uninstall_model W (un_id cmd) (un_pipeline_id cmd) (un_force_stop cmd) None None rt))"

definition update_pipeline :: "world \<Rightarrow> string \<Rightarrow> string \<Rightarrow> pipeline_config \<Rightarrow> runtime \<Rightarrow> runtime" where
  "update_pipeline W cid pid c rt =
     (if pc_id c \<noteq> pid then log_reports (report_command cid ''failed'' ''Pipeline id mismatch'') rt
      else
        (let (ok, rt') =
           (if is_running rt pid then start_pipeline W pid (Some (dump_pipeline_fields c)) rt
            else (True, snd (with_state W (\<lambda>io. update_pipeline_config io c) (set_config pid c rt)))) in
         report_result cid ok (''Pipeline '' @ quoted pid @ '' updated'') (''Failed to update pipeline '' @ quoted pid) rt'))"

definition can_update_agent :: "world \<Rightarrow> runtime \<Rightarrow> bool" where
  "can_update_agent W rt = (\<not> (w_frozen W \<and> \<not> w_asset W (rt_tick rt)))"

definition update_agent :: "world \<Rightarrow> string \<Rightarrow> runtime \<Rightarrow> runtime" where
  "update_agent W cid rt =
     (if \<not> can_update_agent W rt
      then log_reports (report_command cid ''failed'' ''No installable update asset available yet'') rt
      else (log_reports (report_command cid ''completed'' ''Update accepted - restarting.'') rt)
             \<lparr>rt_update_requested := True, rt_running := False, rt_shutdown_event := True\<rparr>)"

definition update_agent_config :: "world \<Rightarrow> string \<Rightarrow> agent_config \<Rightarrow> runtime \<Rightarrow> runtime" where
  "update_agent_config W cid cfg rt =
     (let (r, rt') = apply_agent_config W (dump_agent_fields cfg) rt in
      log_reports (report_command cid (if ar_ok r \<or> ar_scheduled_restart r then ''completed'' else ''failed'') (ar_message r)) rt')"

section \<open>Dispatch\<close>

fun dispatch :: "world \<Rightarrow> command \<Rightarrow> runtime \<Rightarrow> py_error option \<times> runtime" where
  "dispatch W (DeployModel c) rt = (None, deploy_model c rt)"
| "dispatch W (CancelDeploy cid pid) rt = (None, cancel_deploy cid pid rt)"
| "dispatch W (StartModel cid pid c) rt = (None, start_model W cid pid c rt)"
| "dispatch W (StartModelInference cid pid) rt = (None, start_model_inference W cid pid rt)"
| "dispatch W (StopModelInference cid pid) rt = (None, stop_model_inference W cid pid rt)"
| "dispatch W (StartServing c) rt = start_serving W c rt"
| "dispatch W (StopServing cid pid) rt = (None, stop_serving W cid pid rt)"
| "dispatch W (UninstallModel c) rt = (None, uninstall_command_action W c rt)"
| "dispatch W (UpdatePipeline cid pid c) rt = (None, update_pipeline W cid pid c rt)"
| "dispatch W (Status cid) rt = (None, rt)"
| "dispatch W (UpdateAgent cid) rt = (None, update_agent W cid rt)"
| "dispatch W (UpdateAgentConfig cid cfg) rt = (None, update_agent_config W cid cfg rt)"

definition resolve_command :: "world \<Rightarrow> jdict \<Rightarrow> runtime \<Rightarrow> command option" where
  "resolve_command W data rt =
     parse_command (w_pd W) (JObj (resolve_fields (ac_identity (rt_config rt)) data))"

definition handle_command :: "world \<Rightarrow> jdict \<Rightarrow> runtime \<Rightarrow> runtime" where
  "handle_command W data rt =
     (case resolve_command W data rt of
        None \<Rightarrow>
          (case dget data ''id'' of
             JStr cid \<Rightarrow> log_reports (report_command cid ''failed'' ''Invalid command payload'') rt
           | _ \<Rightarrow> rt)
      | Some cmd \<Rightarrow>
          (case dispatch W cmd rt of
             (None, rt') \<Rightarrow> rt'
           | (Some e, rt') \<Rightarrow> log_reports (report_command (cmd_id cmd) ''failed'' (str_error e)) rt'))"

section \<open>One answer per command\<close>

text \<open>The operation added one report for the command to the log, and it is its verdict.\<close>

definition answered :: "string \<Rightarrow> runtime \<Rightarrow> runtime \<Rightarrow> bool" where
  "answered cid rt rt' \<longleftrightarrow>
     (\<exists>st msg. command_reports rt' = command_reports rt @ report_command cid st msg \<and> st \<in> {''completed'', ''failed''})"

lemma quiet_reports: "quiet rt rt' \<Longrightarrow> command_reports rt' = command_reports rt"
  by (simp add: quiet_def command_reports_def)

lemma quiet_swap_reports: "quiet_swap rt rt' \<Longrightarrow> command_reports rt' = command_reports rt"
  by (simp add: quiet_swap_def quiet_def command_reports_def)

lemma command_reports_other [simp]:
  "command_reports (log_reports (report_model pid kw) rt) = command_reports rt"
  "command_reports (on_health f rt) = command_reports rt"
  by (simp_all add: command_reports_def log_reports_def report_model_def on_health_def Let_def)

lemma command_reports_answer [simp]:
  "command_reports (log_reports (report_command cid st msg) rt) = command_reports rt @ report_command cid st msg"
  by (simp add: command_reports_log command_reports_command)

lemma answered_log: "command_reports rt1 = command_reports rt \<Longrightarrow> st \<in> {''completed'', ''failed''} \<Longrightarrow>
   answered cid rt (log_reports (report_command cid st msg) rt1)"
  by (auto simp: answered_def)

lemma answered_result: "command_reports rt1 = command_reports rt \<Longrightarrow> answered cid rt (report_result cid ok good bad rt1)"
  by (auto simp: report_result_def answered_def)

lemma answered_other [simp]:
  "answered cid rt (log_reports (report_model pid kw) rt1) = answered cid rt rt1"
  "answered cid rt (on_health f rt1) = answered cid rt rt1"
  by (simp_all add: answered_def)

lemma answered_start_model: "answered cid rt (start_model W cid pid c rt)"
proof -
  obtain ok rt' where st: "start_pipeline W pid (Some (dump_pipeline_fields c)) rt = (ok, rt')" by fastforce
  from answered_result [OF quiet_reports [OF start_pipeline_quiet [OF st]]] show ?thesis by (simp add: start_model_def st)
qed

lemma answered_start_inference: "answered cid rt (start_model_inference W cid pid rt)"
proof -
  obtain ok rt' where st: "start_pipeline W pid None rt = (ok, rt')" by fastforce
  from answered_result [OF quiet_reports [OF start_pipeline_quiet [OF st]]] show ?thesis
    by (simp add: start_model_inference_def st Let_def)
qed

lemma answered_stop:
  "answered cid rt (stop_model_inference W cid pid rt)" "answered cid rt (stop_serving W cid pid rt)"
proof -
  obtain ok rt' where st: "stop_pipeline W pid rt = (ok, rt')" by fastforce
  from answered_result [OF quiet_reports [OF stop_pipeline_spec(1) [OF st]]]
  show "answered cid rt (stop_model_inference W cid pid rt)" "answered cid rt (stop_serving W cid pid rt)"
    by (simp_all add: stop_model_inference_def stop_serving_def st Let_def)
qed

lemma mutate_config_reports: "command_reports (mutate_config cmd c rt) = command_reports rt"
  by (simp add: mutate_config_def Let_def command_reports_def)

lemma start_serving_answer:
  assumes "start_serving W cmd rt = (e, rt')"
  shows "if e = None then answered (sv_id cmd) rt rt' else command_reports rt' = command_reports rt"
proof (cases "map_of (rt_pipeline_configs rt) (sv_pipeline_id cmd)")
  case None
  with assms show ?thesis by (auto simp: start_serving_def intro: answered_log)
next
  case (Some c)
  obtain e1 rt1 where w: "with_state W (\<lambda>io. update_pipeline_config io (with_serving_args cmd c)) (mutate_config cmd c rt) = (e1, rt1)"
    by fastforce
  have r1: "command_reports rt1 = command_reports rt"
    using with_state_frame [OF w] quiet_reports mutate_config_reports by metis
  obtain ok rt2 where st: "start_pipeline W (sv_pipeline_id cmd) None rt1 = (ok, rt2)" by fastforce
  have r2: "command_reports rt2 = command_reports rt" using quiet_reports [OF start_pipeline_quiet [OF st]] r1 by simp
  note a = answered_result [OF r2]
  note eq = assms [unfolded start_serving_def Let_def Some option.case w prod.case]
  show ?thesis
  proof (cases e1)
    case None
    from eq [unfolded None option.case st prod.case] a show ?thesis by (auto split: if_splits)
  next
    case (Some x)
    from eq [unfolded Some option.case] r1 show ?thesis by auto
  qed
qed

lemma answered_remove_model: "answered cid rt (remove_model W cid pid f e rt)"
proof -
  let ?a = "artifact_path W pid f e rt"
  show ?thesis
  proof (cases "Option.bind ?a (\<lambda>a. shared_with pid a rt)")
    case (Some other)
    then show ?thesis by (simp add: remove_model_def answered_log)
  next
    case None
    obtain e1 rt1 where w: "with_state W (\<lambda>io. remove_pipeline io pid) (drop_config pid rt) = (e1, rt1)" by fastforce
    obtain del rt2 where d: "delete_artifact W ?a rt1 = (del, rt2)" by fastforce
    have "command_reports rt2 = command_reports rt"
      using delete_artifact_frame [OF d] with_state_frame [OF w] by (simp add: command_reports_def quiet_def drop_config_def)
    moreover have "command_reports (report_model_uninstalled_to_control W pid x) = command_reports x" for x
      using queue_ops_frame [of W pid x] by (simp add: command_reports_def)
    ultimately show ?thesis
      using None by (auto simp: remove_model_def w d Let_def answered_def command_reports_log command_reports_command
          report_model_def)
  qed
qed

lemma answered_uninstall: "answered cid rt (uninstall_model W cid pid force f e rt)"
proof -
  obtain ok rt1 where st: "stop_pipeline W pid rt = (ok, rt1)" by fastforce
  have r: "command_reports rt1 = command_reports rt" using quiet_reports [OF stop_pipeline_spec(1) [OF st]] .
  have "answered cid rt (remove_model W cid pid f e rt1)"
    using answered_remove_model [of cid rt1] r by (simp add: answered_def)
  with answered_remove_model r show ?thesis
    by (auto simp: uninstall_model_def st answered_log split: bool.splits)
qed

lemma answered_uninstall_command: "answered (un_id cmd) rt (uninstall_command_action W cmd rt)"
  using answered_uninstall answered_log [of rt rt]
  by (auto simp: uninstall_command_action_def split: option.splits)

lemma answered_update_pipeline: "answered cid rt (update_pipeline W cid pid c rt)"
proof -
  obtain ok rt1 where st: "start_pipeline W pid (Some (dump_pipeline_fields c)) rt = (ok, rt1)" by fastforce
  obtain e rt2 where w: "with_state W (\<lambda>io. update_pipeline_config io c) (set_config pid c rt) = (e, rt2)" by fastforce
  have "command_reports rt2 = command_reports rt"
    using with_state_frame [OF w] by (simp add: command_reports_def quiet_def set_config_def)
  with answered_result quiet_reports [OF start_pipeline_quiet [OF st]] show ?thesis
    by (auto simp: update_pipeline_def st w answered_log)
qed

lemma apply_agent_config_reports: "apply_agent_config W raw rt = (r, rt') \<Longrightarrow> command_reports rt' = command_reports rt"
proof (erule apply_agent_configE)
  fix new rt1 rt2
  assume "apply_config W new (rt_config rt) rt = (None, rt1)"
    "with_state W (\<lambda>io. update_full_config io new) rt1 = (None, rt2)" "rt' = tick rt2"
  then show ?thesis using quiet_swap_reports [OF apply_config_spec(1)] with_state_frame quiet_reports
    by (metis quiet_tick)
next
  fix new e rt1 rt2
  assume "apply_and_persist W new (rt_config rt) rt = (Some e, rt1)" "apply_config W (rt_config rt) new rt1 = (None, rt2)"
    "rt' = restore_state W (Option.bind (rt_state rt) snapshot) rt2"
  then show ?thesis using quiet_swap_reports apply_config_spec(1) apply_and_persist_frame restore_frame quiet_reports
    by metis
next
  fix new e e2 rt1 rt2
  assume a: "apply_and_persist W new (rt_config rt) rt = (Some e, rt1)" "apply_config W (rt_config rt) new rt1 = (Some e2, rt2)"
    and rt': "rt' = request_restart (snd (with_state W (\<lambda>io. update_full_config io new) rt2))"
  obtain e3 rt3 where w: "with_state W (\<lambda>io. update_full_config io new) rt2 = (e3, rt3)" by fastforce
  have "command_reports rt3 = command_reports rt"
    using a w quiet_swap_reports apply_config_spec(1) apply_and_persist_frame with_state_frame quiet_reports by metis
  then show ?thesis by (simp add: rt' w request_restart_def command_reports_def)
qed simp

lemma answered_update_config: "answered cid rt (update_agent_config W cid cfg rt)"
proof -
  obtain r rt' where a: "apply_agent_config W (dump_agent_fields cfg) rt = (r, rt')" by fastforce
  from answered_log [OF apply_agent_config_reports [OF a]] show ?thesis by (auto simp: update_agent_config_def a)
qed

lemma answered_update_agent: "answered cid rt (update_agent W cid rt)"
  by (auto simp: update_agent_def answered_def command_reports_def log_reports_def report_command_def)

lemma answered_cancel: "answered cid rt (cancel_deploy cid pid rt)"
  by (auto simp: cancel_deploy_def answered_def split: option.splits)
    (auto simp: command_reports_def log_reports_def report_command_def)

text \<open>A DEPLOY_MODEL is either answered at once or its worker is registered, alive and not cancelled.\<close>

definition accepted :: "deploy_command \<Rightarrow> runtime \<Rightarrow> runtime \<Rightarrow> bool" where
  "accepted c rt rt' \<longleftrightarrow> command_reports rt' = command_reports rt \<and>
     (\<exists>w. map_of (rt_workers rt') (dc_pipeline_id c) = Some w \<and> wk_command w = dc_id c \<and> wk_alive w \<and> \<not> wk_cancelled w) \<and>
     pc_id (dc_config c) = dc_pipeline_id c \<and> (dc_model_name c = [] \<or> is_safe_basename (dc_model_name c)) \<and>
     (\<forall>w. map_of (rt_workers rt) (dc_pipeline_id c) = Some w \<longrightarrow> \<not> wk_alive w)"

lemma deploy_model_answer: "answered (dc_id c) rt (deploy_model c rt) \<or> accepted c rt (deploy_model c rt)"
proof -
  let ?w = "\<lparr>wk_command = dc_id c, wk_cancelled = False, wk_alive = True, wk_response = False\<rparr>"
  let ?rt = "rt\<lparr>rt_workers := AList.update (dc_pipeline_id c) ?w (rt_workers rt)\<rparr>"
  have "answered (dc_id c) rt (deploy_model c rt) \<or>
    (deploy_model c rt = ?rt \<and> pc_id (dc_config c) = dc_pipeline_id c \<and>
     (dc_model_name c = [] \<or> is_safe_basename (dc_model_name c)) \<and>
     (\<forall>w. map_of (rt_workers rt) (dc_pipeline_id c) = Some w \<longrightarrow> \<not> wk_alive w))"
    by (auto simp: deploy_model_def Let_def answered_log split: option.splits)
  then show ?thesis by (auto simp: accepted_def command_reports_def py_dict)
qed

lemma dispatch_answer:
  assumes "dispatch W cmd rt = (e, rt')" "\<And>c. cmd = DeployModel c \<Longrightarrow> \<not> accepted c rt rt'" "\<And>i. cmd \<noteq> Status i"
  shows "if e = None then answered (cmd_id cmd) rt rt' else command_reports rt' = command_reports rt"
proof (cases cmd)
  case (DeployModel c)
  with assms(1,2) deploy_model_answer [of c rt] show ?thesis by auto
next
  case (StartServing c)
  with assms(1) start_serving_answer [of W c rt e rt'] show ?thesis by simp
qed (use assms(1,3) answered_cancel answered_start_model answered_start_inference answered_stop answered_uninstall_command
      answered_update_pipeline answered_update_agent answered_update_config in auto)

lemma sample_resolves:
  "resolve_command sample_world (command_wire (StopServing ''c'' ''m'')) sample_runtime = Some (StopServing ''c'' ''m'')"
  by code_simp

text \<open>The session after a start whose configuration carries another id than the pipeline's.\<close>

lemma mismatched_start:
  assumes "start_pipeline W pid (Some (dump_pipeline_fields c)) rt = (True, rt')" "pydantic_ok (w_pd W)"
    and "\<not> is_running rt pid" "pc_id c \<noteq> pid" "rt_state rt = Some sm" "sm_inv sm" "entry sm pid = None"
  shows "is_running rt' pid \<and> (\<exists>sm'. rt_state rt' = Some sm' \<and> entry sm' pid = None)"
  using assms(1)
proof (rule start_pipelineE)
  assume "pending_config W pid (Some (dump_pipeline_fields c)) rt = Unchanged"
  with assms(3) show ?thesis by (auto simp: pending_config_dump [OF assms(2)] split: option.splits)
next
  fix pending p_conf rt1 rt2 pipe
  assume p: "pending_config W pid (Some (dump_pipeline_fields c)) rt = Pending pending"
    "chosen_config pid pending rt = Some p_conf"
    and st: "stop_pipeline W pid rt = (True, rt1)" and b: "build_pipeline W p_conf rt1 = (Inr pipe, rt2)"
    and rt': "rt' = persist_start W pid p_conf (commit_start pid pending pipe rt2)"
  have "pending = Some c" using p(1) by (auto simp: pending_config_dump [OF assms(2)] split: option.splits if_splits)
  with p(2) have pc: "p_conf = c" by (simp add: chosen_config_def)
  let ?rt3 = "commit_start pid pending pipe rt2"
  have "rt1 = rt" using st stop_pipeline_idle [OF assms(3), of W] by simp
  then have st3: "rt_state ?rt3 = Some sm" using build_pipeline_frame [OF b] assms(5) by (simp add: commit_start_frame)
  let ?io = "w_io W (rt_tick ?rt3)" and ?io' = "w_io W (Suc (rt_tick ?rt3))"
  let ?sm1 = "snd (update_pipeline_config ?io c sm)"
  note wf1 = update_pipeline_config_wf [OF assms(6), of ?io c]
  note wf2 = set_pipeline_status_wf [OF wf1(2), of ?io' pid True]
  have "rt_state rt' = Some (snd (set_pipeline_status ?io' pid True ?sm1))"
    using wf1(1) st3 by (simp add: rt' pc persist_start_def with_state_def case_prod_unfold Let_def tick_def)
  moreover have "entry (snd (set_pipeline_status ?io' pid True ?sm1)) pid = None"
    using wf2(3) wf1(3) assms(4,7) by simp
  ultimately show ?thesis using start_pipeline_ok [OF assms(1)] by blast
qed simp_all

lemma remove_model_health: "rt_health (remove_model W cid pid f e rt) = rt_health rt"
proof -
  obtain e1 rt1 where w: "with_state W (\<lambda>io. remove_pipeline io pid) (drop_config pid rt) = (e1, rt1)" by fastforce
  obtain del rt2 where d: "delete_artifact W (artifact_path W pid f e rt) rt1 = (del, rt2)" by fastforce
  have "rt_health rt2 = rt_health rt"
    using d with_state_frame [OF w]
    by (auto simp: delete_artifact_def Let_def tick_def quiet_def drop_config_def split: option.splits if_splits)
  moreover have "rt_health (report_model_uninstalled_to_control W pid x) = rt_health x" for x
    by (auto simp: report_model_uninstalled_to_control_def post_uninstall_report_def queue_pending_uninstall_def
        save_pending_uninstalls_def tick_def Let_def split: option.splits prod.splits bool.splits)
  ultimately show ?thesis by (auto simp: remove_model_def w d Let_def log_reports_def split: option.splits)
qed

lemma uninstall_model_health: "rt_health (uninstall_model W cid pid force f e rt) = rt_health rt"
proof -
  obtain ok rt1 where st: "stop_pipeline W pid rt = (ok, rt1)" by fastforce
  have "rt_health rt1 = rt_health rt" using stop_pipeline_spec(1) [OF st] by (simp add: quiet_def)
  then show ?thesis by (auto simp: uninstall_model_def st remove_model_health log_reports_def split: bool.splits)
qed

section \<open>Properties\<close>

text \<open>
  C2. Every command is answered exactly once: a command the schema accepts, other than STATUS and a
  DEPLOY_MODEL that was handed to a worker, adds exactly one report under its own id to the log, and
  the report says \<open>completed\<close> or \<open>failed\<close>, whatever the action raises.
\<close>

theorem command_answered_once:
  assumes "resolve_command W data rt = Some cmd" "cmd_id cmd \<noteq> []" "\<And>i. cmd \<noteq> Status i"
    and "\<And>c. cmd = DeployModel c \<Longrightarrow> \<not> accepted c rt (handle_command W data rt)"
  shows "\<exists>st msg. command_reports (handle_command W data rt) = command_reports rt @ [CommandReport (cmd_id cmd) st msg] \<and>
                  st \<in> {''completed'', ''failed''}"
proof -
  obtain e rt' where d: "dispatch W cmd rt = (e, rt')" by fastforce
  have h: "handle_command W data rt =
      (case e of None \<Rightarrow> rt' | Some x \<Rightarrow> log_reports (report_command (cmd_id cmd) ''failed'' (str_error x)) rt')"
    by (simp add: handle_command_def assms(1) d split: option.split)
  have acc: "\<not> accepted c rt rt'" if "cmd = DeployModel c" for c
    using assms(4) [OF that] h d that by auto
  from dispatch_answer [OF d acc assms(3)] have "answered (cmd_id cmd) rt (handle_command W data rt)"
    by (cases e) (auto simp: h intro: answered_log)
  with assms(2) show ?thesis by (auto simp: answered_def report_command_def)
qed

theorem command_answered_once_witness:
  "\<exists>st msg. command_reports (handle_command sample_world (command_wire (StopServing ''c'' ''m'')) sample_runtime) =
     command_reports sample_runtime @ [CommandReport ''c'' st msg]"
  using command_answered_once [OF sample_resolves] by auto

text \<open>
  An invalid command has no effect: if the schema rejects the resolved payload, the state is the
  one before, except that a payload with a string id is reported failed under that id.
\<close>

lemma invalid_command_harmless:
  assumes "resolve_command W data rt = None"
  shows "reporting rt (handle_command W data rt) \<and>
         command_reports (handle_command W data rt) =
           command_reports rt @ (case map_of data ''id'' of
              Some (JStr cid) \<Rightarrow> report_command cid ''failed'' ''Invalid command payload'' | _ \<Rightarrow> [])"
  using assms
  by (auto simp: handle_command_def dget_def log_reports_reporting split: option.splits json.splits)

lemma invalid_command_harmless_witness:
  "reporting sample_runtime (handle_command sample_world [(''id'', JStr ''c''), (''type'', JStr ''NOPE'')] sample_runtime)"
proof -
  have "resolve_command sample_world [(''id'', JStr ''c''), (''type'', JStr ''NOPE'')] sample_runtime = None" by code_simp
  from invalid_command_harmless [OF this] show ?thesis by blast
qed

text \<open>
  START_MODEL does not check that the configuration names the pipeline it is started under, which
  DEPLOY_MODEL and UPDATE_PIPELINE do.  With another id in the configuration the pipeline runs and the
  command is reported completed, but the session has no entry for it, so a restart does not bring it
  back.
\<close>

lemma start_model_mismatch_unrecorded:
  assumes "resolve_command W data rt = Some (StartModel cid pid c)" "cid \<noteq> []"
    and "fst (start_pipeline W pid (Some (dump_pipeline_fields c)) rt)" "pydantic_ok (w_pd W)"
    and "\<not> is_running rt pid" "pc_id c \<noteq> pid" "rt_state rt = Some sm" "sm_inv sm" "entry sm pid = None"
  shows "is_running (handle_command W data rt) pid \<and>
         (\<exists>sm'. rt_state (handle_command W data rt) = Some sm' \<and> entry sm' pid = None) \<and>
         (\<exists>msg. last (rt_reports (handle_command W data rt)) = CommandReport cid ''completed'' msg)"
proof -
  obtain rt' where st: "start_pipeline W pid (Some (dump_pipeline_fields c)) rt = (True, rt')"
    using assms(3) by (metis (full_types) prod.collapse)
  have h: "handle_command W data rt = log_reports (report_command cid ''completed'' (''Pipeline '' @ pid @ '' started'')) rt'"
    by (simp add: handle_command_def assms(1) start_model_def st report_result_def)
  from mismatched_start [OF st assms(4-9)] assms(2) show ?thesis
    by (simp add: h is_running_def log_reports_def report_command_def)
qed

lemma start_model_mismatch_unrecorded_witness:
  "is_running (handle_command sample_world (command_wire (StartModel ''c'' ''other'' sample_pipeline)) sample_runtime) ''other''"
proof -
  have st: "rt_state sample_runtime = Some (bootstrap io_ok ''2'' sample_config (fresh_manager []))"
    by (simp add: sample_runtime_def init_runtime_def Let_def)
  have r: "resolve_command sample_world (command_wire (StartModel ''c'' ''other'' sample_pipeline)) sample_runtime =
      Some (StartModel ''c'' ''other'' sample_pipeline)" by code_simp
  have f: "fst (start_pipeline sample_world ''other'' (Some (dump_pipeline_fields sample_pipeline)) sample_runtime)" by code_simp
  have n: "\<not> is_running sample_runtime ''other''" "pc_id sample_pipeline \<noteq> ''other''" by code_simp+
  have i: "sm_inv (bootstrap io_ok ''2'' sample_config (fresh_manager []))"
    "entry (bootstrap io_ok ''2'' sample_config (fresh_manager [])) ''other'' = None" by code_simp+
  have pd: "pydantic_ok (w_pd sample_world)" by (simp add: sample_world_def)
  from start_model_mismatch_unrecorded [OF r _ f pd n st i] show ?thesis by simp
qed

text \<open>
  Removing a model does not clear the serving flag: STOP_SERVING resets it, but a forced
  UNINSTALL_MODEL of the model that is being served stops and removes the pipeline and leaves
  \<open>/healthz\<close> reporting that it is still served.
\<close>

lemma uninstall_leaves_serving_flag:
  assumes "hs_currently_serving (rt_health rt)" "hs_model_id (rt_health rt) = Some pid"
  shows "hs_currently_serving (rt_health (uninstall_model W cid pid force f e rt)) \<and>
         hs_model_id (rt_health (uninstall_model W cid pid force f e rt)) = Some pid"
  using assms by (simp add: uninstall_model_health)

lemma uninstall_leaves_serving_flag_witness:
  "let rt = handle_command sample_world
       (command_wire (StartServing \<lparr>sv_id = ''c'', sv_pipeline_id = ''m'', sv_port = 1, sv_host = ''h'', sv_model_display_name = ''m''\<rparr>)) sample_runtime;
       rt' = uninstall_model sample_world ''loopback-1'' ''m'' True None None rt in
   \<not> is_running rt' ''m'' \<and> map_of (rt_pipeline_configs rt') ''m'' = None \<and> hs_model_id (rt_health rt') = Some ''m''"
proof -
  let ?rt = "handle_command sample_world
       (command_wire (StartServing \<lparr>sv_id = ''c'', sv_pipeline_id = ''m'', sv_port = 1, sv_host = ''h'', sv_model_display_name = ''m''\<rparr>)) sample_runtime"
  have s: "hs_currently_serving (rt_health ?rt)" "hs_model_id (rt_health ?rt) = Some ''m''" by code_simp+
  have n: "\<not> is_running (uninstall_model sample_world ''loopback-1'' ''m'' True None None ?rt) ''m''"
    "map_of (rt_pipeline_configs (uninstall_model sample_world ''loopback-1'' ''m'' True None None ?rt)) ''m'' = None"
    by code_simp+
  from uninstall_leaves_serving_flag [OF s, of sample_world "''loopback-1''" True None None] n show ?thesis by (simp add: Let_def)
qed

end
