(* ===== verification/Files.thy ===== *)
theory Files
  imports Paths
begin

text \<open>
  A file system as the updater and the archive extractor use it: a finite map from absolute
  paths (lists of names) to files, directories and symbolic links, POSIX path resolution
  (\<open>walk\<close>, which follows at most forty links, the limit Linux puts on one lookup), and the
  operations of \<open>pathlib\<close>, \<open>os\<close> and \<open>shutil\<close> the sources call.  An operation gives \<open>None\<close>
  where Python raises \<open>OSError\<close>.  Permissions and full disks are not part of the model.

  The facts that matter to the clients are frame facts: \<open>same_outside D fs fs'\<close> says that two file
  systems differ below the directory \<open>D\<close> only, and every mutation below a canonical directory whose
  links are tame (relative, without \<open>..\<close>) stays there.
\<close>

named_theorems fs_simps

type_synonym apath = "string list"

datatype entry = EFile string | EDir int | ELink string

type_synonym fs = "(apath, entry) dict"

section \<open>Lookup and path resolution\<close>

definition node :: "fs \<Rightarrow> apath \<Rightarrow> entry option" where
  "node fs p = (if p = [] then Some (EDir 0) else map_of fs p)"

fun is_dir_entry :: "entry option \<Rightarrow> bool" where
  "is_dir_entry (Some (EDir _)) = True"
| "is_dir_entry _ = False"

fun is_file_entry :: "entry option \<Rightarrow> bool" where
  "is_file_entry (Some (EFile _)) = True"
| "is_file_entry _ = False"

fun is_link_entry :: "entry option \<Rightarrow> bool" where
  "is_link_entry (Some (ELink _)) = True"
| "is_link_entry _ = False"

fun walk :: "nat \<Rightarrow> fs \<Rightarrow> apath \<Rightarrow> string list \<Rightarrow> apath option" where
  "walk n fs cur [] = Some cur"
| "walk n fs cur (c # cs) =
     (if c = ''..'' then walk n fs (butlast cur) cs
      else case node fs (cur @ [c]) of
             Some (ELink t) \<Rightarrow>
               (case n of 0 \<Rightarrow> None
                | Suc m \<Rightarrow> walk m fs (if startswith t ''/'' then [] else cur) (path_parts t @ cs))
           | Some (EDir _) \<Rightarrow> walk n fs (cur @ [c]) cs
           | _ \<Rightarrow> (if cs = [] then Some (cur @ [c]) else None))"

definition realpath :: "fs \<Rightarrow> apath \<Rightarrow> apath option" where
  "realpath fs p = walk 40 fs [] p"

definition stat :: "fs \<Rightarrow> apath \<Rightarrow> entry option" where
  "stat fs p = (case realpath fs p of None \<Rightarrow> None | Some q \<Rightarrow> node fs q)"

text \<open>The directory entry a path names, its last component not followed.\<close>

definition lpath :: "fs \<Rightarrow> apath \<Rightarrow> apath option" where
  "lpath fs p =
     (if p = [] then Some []
      else case realpath fs (butlast p) of
             None \<Rightarrow> None
           | Some d \<Rightarrow>
               if \<not> is_dir_entry (node fs d) then None
               else if last p = ''..'' then Some (butlast d) else Some (d @ [last p]))"

definition lstat :: "fs \<Rightarrow> apath \<Rightarrow> entry option" where
  "lstat fs p = (case lpath fs p of None \<Rightarrow> None | Some q \<Rightarrow> node fs q)"

text \<open>\<open>p.is_dir()\<close>, \<open>p.is_file()\<close>, \<open>p.is_symlink()\<close>, \<open>p.exists()\<close>.\<close>

definition is_dir :: "fs \<Rightarrow> apath \<Rightarrow> bool" where
  "is_dir fs p = is_dir_entry (stat fs p)"

definition is_file :: "fs \<Rightarrow> apath \<Rightarrow> bool" where
  "is_file fs p = is_file_entry (stat fs p)"

definition is_symlink :: "fs \<Rightarrow> apath \<Rightarrow> bool" where
  "is_symlink fs p = is_link_entry (lstat fs p)"

definition path_exists :: "fs \<Rightarrow> apath \<Rightarrow> bool" where
  "path_exists fs p = (stat fs p \<noteq> None)"

definition read_text :: "fs \<Rightarrow> apath \<Rightarrow> string option" where
  "read_text fs p = (case stat fs p of Some (EFile s) \<Rightarrow> Some s | _ \<Rightarrow> None)"

definition readlink :: "fs \<Rightarrow> apath \<Rightarrow> string option" where
  "readlink fs p = (case lstat fs p of Some (ELink t) \<Rightarrow> Some t | _ \<Rightarrow> None)"

text \<open>\<open>p.iterdir()\<close>, as names, and \<open>p.rglob(name)\<close> for a name without wildcards.\<close>

definition child_names :: "fs \<Rightarrow> apath \<Rightarrow> string list" where
  "child_names fs d = map (\<lambda>e. last (fst e)) (filter (\<lambda>e. fst e \<noteq> [] \<and> last (fst e) \<noteq> ''..'' \<and> butlast (fst e) = d) fs)"

definition iterdir :: "fs \<Rightarrow> apath \<Rightarrow> string list" where
  "iterdir fs p = (case realpath fs p of None \<Rightarrow> [] | Some d \<Rightarrow> child_names fs d)"

definition rglob :: "fs \<Rightarrow> apath \<Rightarrow> string \<Rightarrow> apath list" where
  "rglob fs p name =
     (case realpath fs p of
        None \<Rightarrow> []
      | Some d \<Rightarrow>
          map (\<lambda>e. p @ drop (length d) (fst e))
            (filter (\<lambda>e. strict_prefix d (fst e) \<and> ''..'' \<notin> set (fst e) \<and> last (fst e) = name) fs))"

section \<open>Mutations\<close>

definition put :: "apath \<Rightarrow> entry \<Rightarrow> fs \<Rightarrow> fs" where
  "put p e fs = AList.update p e fs"

text \<open>Everything at and below a path.\<close>

definition drop_tree :: "apath \<Rightarrow> fs \<Rightarrow> fs" where
  "drop_tree p fs = filter (\<lambda>e. \<not> prefix p (fst e)) fs"

definition graft :: "apath \<Rightarrow> apath \<Rightarrow> fs \<Rightarrow> fs" where
  "graft a b fs = map (\<lambda>e. (b @ drop (length a) (fst e), snd e)) (filter (\<lambda>e. prefix a (fst e)) fs)"

text \<open>\<open>os.mkdir\<close> of every missing directory on the way, as \<open>mkdir(parents=True, exist_ok=True)\<close>.\<close>

fun mkdirs_from :: "fs \<Rightarrow> apath \<Rightarrow> string list \<Rightarrow> fs option" where
  "mkdirs_from fs cur [] = Some fs"
| "mkdirs_from fs cur (c # cs) =
     (case stat fs (cur @ [c]) of
        Some (EDir _) \<Rightarrow> mkdirs_from fs (cur @ [c]) cs
      | Some _ \<Rightarrow> None
      | None \<Rightarrow>
          (case lpath fs (cur @ [c]) of
             None \<Rightarrow> None
           | Some q \<Rightarrow>
               (if node fs q = None then mkdirs_from (put q (EDir 0) fs) (cur @ [c]) cs else None)))"

definition mkdirs :: "fs \<Rightarrow> apath \<Rightarrow> fs option" where
  "mkdirs fs p = mkdirs_from fs [] p"

text \<open>\<open>open(p, "w")\<close> followed by one write: the file the path resolves to is replaced.\<close>

definition write_text :: "fs \<Rightarrow> apath \<Rightarrow> string \<Rightarrow> fs option" where
  "write_text fs p s =
     (case realpath fs p of
        None \<Rightarrow> None
      | Some q \<Rightarrow>
          if q = [] \<or> is_dir_entry (node fs q) \<or> \<not> is_dir_entry (node fs (butlast q)) then None
          else Some (put q (EFile s) fs))"

definition unlink :: "fs \<Rightarrow> apath \<Rightarrow> fs option" where
  "unlink fs p =
     (case lpath fs p of
        None \<Rightarrow> None
      | Some q \<Rightarrow>
          (case node fs q of
             None \<Rightarrow> None
           | Some (EDir _) \<Rightarrow> None
           | Some _ \<Rightarrow> Some (AList.delete q fs)))"

definition symlink :: "fs \<Rightarrow> apath \<Rightarrow> string \<Rightarrow> fs option" where
  "symlink fs p t =
     (case lpath fs p of
        None \<Rightarrow> None
      | Some q \<Rightarrow> (if t \<noteq> [] \<and> node fs q = None then Some (put q (ELink t) fs) else None))"

text \<open>\<open>shutil.rmtree(p)\<close>: a symbolic link or a path that is not a directory raises.\<close>

definition rmtree :: "fs \<Rightarrow> apath \<Rightarrow> fs option" where
  "rmtree fs p =
     (case lpath fs p of
        None \<Rightarrow> None
      | Some q \<Rightarrow> (if is_dir_entry (node fs q) then Some (drop_tree q fs) else None))"

text \<open>\<open>os.replace(a, b)\<close>, that is rename(2).\<close>

definition os_replace :: "fs \<Rightarrow> apath \<Rightarrow> apath \<Rightarrow> fs option" where
  "os_replace fs a b =
     (case (lpath fs a, lpath fs b) of
        (Some p, Some q) \<Rightarrow>
          (if node fs p = None then None
           else if p = q then Some fs
           else if prefix p q \<or> prefix q p then None
           else if is_dir_entry (node fs q) \<noteq> is_dir_entry (node fs p) \<and> node fs q \<noteq> None then None
           else if is_dir_entry (node fs q) \<and> child_names fs q \<noteq> [] then None
           else Some (graft p q fs @ drop_tree p (drop_tree q fs)))
      | _ \<Rightarrow> None)"

section \<open>Lookup after a mutation\<close>

lemma map_of_filter_key: "map_of (filter (\<lambda>e. P (fst e)) xs) k = (if P k then map_of xs k else None)"
  by (induction xs) auto

lemma node_put [fs_simps]: "p \<noteq> [] \<Longrightarrow> node (put p e fs) q = (if q = p then Some e else node fs q)"
  by (auto simp: node_def put_def update_conv)

lemma node_delete [fs_simps]: "p \<noteq> [] \<Longrightarrow> node (AList.delete p fs) q = (if q = p then None else node fs q)"
  by (auto simp: node_def delete_conv)

lemma node_drop_tree [fs_simps]:
  "p \<noteq> [] \<Longrightarrow> node (drop_tree p fs) q = (if prefix p q then None else node fs q)"
  by (auto simp: node_def drop_tree_def map_of_filter_key [where P = "\<lambda>x. \<not> prefix p x"])

lemma map_of_graft: "map_of (graft a b fs) q = (if prefix b q then map_of fs (a @ drop (length b) q) else None)"
proof (induction fs)
  case (Cons e fs)
  have "prefix a (fst e) \<Longrightarrow> (b @ drop (length a) (fst e) = q) = (prefix b q \<and> a @ drop (length b) q = fst e)"
    by (auto simp: prefix_def)
  moreover have "a @ drop (length b) q = fst e \<Longrightarrow> prefix a (fst e)" by (metis prefixI)
  ultimately show ?case using Cons by (auto simp: graft_def)
qed (simp add: graft_def)

lemma node_graft_append:
  "b \<noteq> [] \<Longrightarrow> node (graft a b fs @ rest) q =
     (if prefix b q \<and> map_of fs (a @ drop (length b) q) \<noteq> None
      then map_of fs (a @ drop (length b) q) else node rest q)"
  by (auto simp: node_def map_of_graft map_add_def split: option.splits)

lemma node_moved [fs_simps]:
  assumes "p \<noteq> []" "q \<noteq> []" "\<not> prefix p q" "\<not> prefix q p"
  shows "node (graft p q fs @ drop_tree p (drop_tree q fs)) r =
     (if prefix q r then node fs (p @ drop (length q) r)
      else if prefix p r then None else node fs r)"
  using assms by (auto simp: node_graft_append node_drop_tree) (auto simp: node_def)

section \<open>Canonical directories\<close>

text \<open>
  A canonical path: no component is \<open>..\<close> and every step is a directory (not a link).  The install
  root is one, since it comes from \<open>Path(sys.executable).resolve()\<close>.
\<close>

definition canonical :: "fs \<Rightarrow> apath \<Rightarrow> bool" where
  "canonical fs D = (''..'' \<notin> set D \<and> (\<forall>k \<le> length D. is_dir_entry (node fs (take k D))))"

definition same_outside :: "apath \<Rightarrow> fs \<Rightarrow> fs \<Rightarrow> bool" where
  "same_outside D fs fs' = (\<forall>q. \<not> strict_prefix D q \<longrightarrow> node fs' q = node fs q)"

lemma same_outside_refl [simp]: "same_outside D fs fs"
  by (simp add: same_outside_def)

lemma same_outside_trans [trans]:
  "same_outside D a b \<Longrightarrow> same_outside D b c \<Longrightarrow> same_outside D a c"
  by (simp add: same_outside_def)

lemma same_outside_mono: "same_outside E a b \<Longrightarrow> prefix D E \<Longrightarrow> same_outside D a b"
  unfolding same_outside_def by (meson prefix_order.le_less_trans)

lemma prefix_not_below: "prefix q D \<Longrightarrow> \<not> strict_prefix D q"
  by (meson prefix_order.leD)

lemma same_outside_node: "same_outside D a b \<Longrightarrow> prefix q D \<Longrightarrow> node b q = node a q"
  unfolding same_outside_def using prefix_not_below by blast

lemma same_outside_canonical:
  assumes "same_outside D a b" "canonical a D" shows "canonical b D"
  using assms(2) same_outside_node [OF assms(1) take_is_prefix] unfolding canonical_def by auto

lemma canonical_node: "canonical fs D \<Longrightarrow> is_dir_entry (node fs D)"
  unfolding canonical_def by (metis order_refl take_all)

lemma canonical_prefix:
  assumes "canonical fs (D @ E)" shows "canonical fs D"
proof -
  have "is_dir_entry (node fs (take k D))" if "k \<le> length D" for k
    using assms [unfolded canonical_def] that by (auto dest!: conjunct2 spec [of _ k])
  with assms show ?thesis by (simp add: canonical_def)
qed

lemma canonical_Snoc:
  "canonical fs (D @ [c]) \<longleftrightarrow> canonical fs D \<and> c \<noteq> ''..'' \<and> is_dir_entry (node fs (D @ [c]))"
  unfolding canonical_def by (auto simp: le_Suc_eq)

lemma canonical_Nil [simp]: "canonical fs []"
  by (simp add: canonical_def node_def)

lemma walk_dirs:
  assumes "''..'' \<notin> set ds" "\<forall>k \<le> length ds. is_dir_entry (node fs (cur @ take k ds))"
  shows "walk n fs cur (ds @ cs) = walk n fs (cur @ ds) cs"
  using assms
proof (induction ds arbitrary: cur)
  case Nil
  then show ?case by simp
next
  case (Cons d ds)
  have "is_dir_entry (node fs (cur @ [d]))"
    using Cons.prems(2) [rule_format, of 1] by simp
  then obtain m where m: "node fs (cur @ [d]) = Some (EDir m)"
    by (cases "node fs (cur @ [d])" rule: is_dir_entry.cases) auto
  have "is_dir_entry (node fs ((cur @ [d]) @ take k ds))" if "k \<le> length ds" for k
    using Cons.prems(2) [rule_format, of "Suc k"] that by simp
  with Cons.IH [of "cur @ [d]"] Cons.prems(1) have "walk n fs (cur @ [d]) (ds @ cs) = walk n fs (cur @ d # ds) cs"
    by simp
  with m Cons.prems(1) show ?case by auto
qed

lemma walk_canonical: "canonical fs D \<Longrightarrow> walk n fs [] (D @ cs) = walk n fs D cs"
  using walk_dirs [of D fs "[]" n cs] by (simp add: canonical_def)

lemma realpath_canonical: "canonical fs D \<Longrightarrow> realpath fs D = Some D"
  using walk_canonical [of fs D 40 "[]"] by (simp add: realpath_def)

lemma lpath_canonical: "canonical fs D \<Longrightarrow> c \<noteq> ''..'' \<Longrightarrow> lpath fs (D @ [c]) = Some (D @ [c])"
  by (simp add: lpath_def realpath_canonical canonical_node)

lemma lstat_canonical: "canonical fs D \<Longrightarrow> c \<noteq> ''..'' \<Longrightarrow> lstat fs (D @ [c]) = node fs (D @ [c])"
  by (simp add: lstat_def lpath_canonical)

lemma realpath_plain:
  assumes "canonical fs D" "c \<noteq> ''..''" "\<not> is_link_entry (node fs (D @ [c]))"
  shows "realpath fs (D @ [c]) = Some (D @ [c])"
  using assms walk_canonical [of fs D 40 "[c]"]
  by (auto simp: realpath_def split: option.splits entry.splits)

lemma stat_plain:
  "canonical fs D \<Longrightarrow> c \<noteq> ''..'' \<Longrightarrow> \<not> is_link_entry (node fs (D @ [c])) \<Longrightarrow>
   stat fs (D @ [c]) = node fs (D @ [c])"
  by (simp add: stat_def realpath_plain)

lemmas canonical_lookup = realpath_canonical lpath_canonical lstat_canonical realpath_plain stat_plain

section \<open>Tame links\<close>

text \<open>Below \<open>D\<close> every link is relative and free of \<open>..\<close>, so a walk that is below \<open>D\<close> stays there.\<close>

definition tame_target :: "string \<Rightarrow> bool" where
  "tame_target t = (\<not> startswith t ''/'' \<and> ''..'' \<notin> set (path_parts t))"

definition tame :: "apath \<Rightarrow> fs \<Rightarrow> bool" where
  "tame D fs = (\<forall>q t. prefix D q \<longrightarrow> node fs q = Some (ELink t) \<longrightarrow> tame_target t)"

lemma tame_put:
  "tame D fs \<Longrightarrow> p \<noteq> [] \<Longrightarrow> (\<And>t. e = ELink t \<Longrightarrow> tame_target t) \<Longrightarrow> tame D (put p e fs)"
  by (auto simp: tame_def node_put)

lemma walk_stays:
  "walk n fs cur cs = Some q \<Longrightarrow> tame D fs \<Longrightarrow> prefix D cur \<Longrightarrow> ''..'' \<notin> set cs \<Longrightarrow> prefix D q"
proof (induction n fs cur cs rule: walk.induct)
  case (2 n fs cur c cs)
  have below: "prefix D (cur @ [c])" using 2(6) by simp
  show ?case
  proof (cases "node fs (cur @ [c])")
    case None
    with 2(4,7) below show ?thesis by (auto split: if_splits)
  next
    case (Some e)
    show ?thesis
    proof (cases e)
      case (EFile s)
      with Some 2 below show ?thesis by (auto split: if_splits)
    next
      case (EDir m)
      with Some 2 below show ?thesis by (auto split: if_splits)
    next
      case (ELink t)
      with Some below 2(5) have t: "tame_target t" unfolding tame_def by blast
      from Some ELink 2(4,7) obtain m where "n = Suc m" by (auto split: nat.splits)
      with Some ELink 2 t show ?thesis by (auto simp: tame_target_def)
    qed
  qed
qed auto

section \<open>Mutations below a canonical directory\<close>

text \<open>The contract of a mutation: it fails, or only entries strictly below \<open>D\<close> changed and the links stay tame.\<close>

definition stays :: "apath \<Rightarrow> fs \<Rightarrow> fs option \<Rightarrow> bool" where
  "stays D fs r = (case r of None \<Rightarrow> True | Some fs' \<Rightarrow> same_outside D fs fs' \<and> tame D fs')"

definition guarded :: "apath \<Rightarrow> fs \<Rightarrow> bool" where
  "guarded D fs = (canonical fs D \<and> tame D fs)"

lemma stays_None [simp]: "stays D fs None"
  by (simp add: stays_def)

lemma stays_Some: "stays D fs (Some fs') \<longleftrightarrow> same_outside D fs fs' \<and> tame D fs'"
  by (simp add: stays_def)

lemma stays_guarded: "stays D fs (Some fs') \<Longrightarrow> guarded D fs \<Longrightarrow> guarded D fs'"
  by (auto simp: stays_Some guarded_def intro: same_outside_canonical)

lemma realpath_below:
  assumes "guarded D fs" "realpath fs (D @ cs) = Some q" "''..'' \<notin> set cs"
  shows "prefix D q"
  using assms walk_stays [of 40 fs D cs q D] walk_canonical [of fs D 40 cs]
  by (simp add: guarded_def realpath_def)

lemma butlast_append_ne: "cs \<noteq> [] \<Longrightarrow> butlast (D @ cs) = D @ butlast cs"
  by (simp add: butlast_append)

lemma lpath_below:
  assumes "guarded D fs" "lpath fs (D @ cs) = Some q" "''..'' \<notin> set cs" "cs \<noteq> []"
  shows "strict_prefix D q"
proof -
  from assms(3,4) have "last cs \<noteq> ''..''" "''..'' \<notin> set (butlast cs)"
    by (metis last_in_set, meson in_set_butlastD)
  with assms obtain d where "realpath fs (D @ butlast cs) = Some d" "q = d @ [last cs]"
    by (auto simp: lpath_def butlast_append_ne split: option.splits if_splits)
  with realpath_below [OF assms(1)] \<open>''..'' \<notin> set (butlast cs)\<close> show ?thesis
    by (metis prefix_order.le_less_trans strict_prefixI' append_Nil2 append_Cons)
qed

lemma strict_prefix_snoc [simp]: "strict_prefix P (P @ [c])"
  by (simp add: strict_prefix_def)

lemma strict_prefix_ne_Nil: "strict_prefix D q \<Longrightarrow> q \<noteq> []"
  by auto

lemma same_outside_put: "strict_prefix D q \<Longrightarrow> same_outside D fs (put q e fs)"
  by (frule strict_prefix_ne_Nil) (auto simp: same_outside_def node_put)

lemma same_outside_delete: "strict_prefix D q \<Longrightarrow> same_outside D fs (AList.delete q fs)"
  by (frule strict_prefix_ne_Nil) (auto simp: same_outside_def node_delete)

lemma same_outside_drop_tree: "strict_prefix D q \<Longrightarrow> same_outside D fs (drop_tree q fs)"
  by (frule strict_prefix_ne_Nil)
    (auto simp: same_outside_def node_drop_tree dest: prefix_order.less_le_trans)

lemma tame_delete: "tame D fs \<Longrightarrow> q \<noteq> [] \<Longrightarrow> tame D (AList.delete q fs)"
  by (auto simp: tame_def node_delete)

lemma tame_drop_tree: "tame D fs \<Longrightarrow> q \<noteq> [] \<Longrightarrow> tame D (drop_tree q fs)"
  by (auto simp: tame_def node_drop_tree)

lemma stays_put:
  "strict_prefix D q \<Longrightarrow> tame D fs \<Longrightarrow> (\<And>t. e = ELink t \<Longrightarrow> tame_target t) \<Longrightarrow>
   stays D fs (Some (put q e fs))"
  by (simp add: stays_Some same_outside_put tame_put strict_prefix_ne_Nil)

lemma write_text_stays:
  assumes "guarded D fs" "''..'' \<notin> set cs"
  shows "stays D fs (write_text fs (D @ cs) s)"
proof (cases "write_text fs (D @ cs) s")
  case (Some fs')
  then obtain q where q: "realpath fs (D @ cs) = Some q" "\<not> is_dir_entry (node fs q)" "fs' = put q (EFile s) fs"
    by (auto simp: write_text_def split: option.splits if_splits)
  from assms(1) have "is_dir_entry (node fs D)" by (simp add: guarded_def canonical_node)
  with q realpath_below [OF assms(1) q(1) assms(2)] have "strict_prefix D q"
    by (metis prefix_order.le_imp_less_or_eq)
  with assms(1) q(3) Some show ?thesis by (auto simp: guarded_def intro: stays_put)
qed simp

lemma unlink_stays:
  assumes "guarded D fs" "''..'' \<notin> set cs" "cs \<noteq> []"
  shows "stays D fs (unlink fs (D @ cs))"
proof (cases "unlink fs (D @ cs)")
  case (Some fs')
  then obtain q where q: "lpath fs (D @ cs) = Some q" "fs' = AList.delete q fs"
    by (auto simp: unlink_def split: option.splits entry.splits)
  from lpath_below [OF assms(1) q(1) assms(2,3)] assms(1) q(2) Some show ?thesis
    by (simp add: stays_Some guarded_def same_outside_delete tame_delete strict_prefix_ne_Nil)
qed simp

lemma symlink_stays:
  assumes "guarded D fs" "''..'' \<notin> set cs" "cs \<noteq> []" "tame_target t"
  shows "stays D fs (symlink fs (D @ cs) t)"
proof (cases "symlink fs (D @ cs) t")
  case (Some fs')
  then obtain q where q: "lpath fs (D @ cs) = Some q" "fs' = put q (ELink t) fs"
    by (auto simp: symlink_def split: option.splits if_splits)
  from lpath_below [OF assms(1) q(1) assms(2,3)] assms(1,4) q(2) Some show ?thesis
    by (auto simp: guarded_def intro: stays_put)
qed simp

lemma rmtree_stays:
  assumes "guarded D fs" "''..'' \<notin> set cs" "cs \<noteq> []"
  shows "stays D fs (rmtree fs (D @ cs))"
proof (cases "rmtree fs (D @ cs)")
  case (Some fs')
  then obtain q where q: "lpath fs (D @ cs) = Some q" "fs' = drop_tree q fs"
    by (auto simp: rmtree_def split: option.splits if_splits)
  from lpath_below [OF assms(1) q(1) assms(2,3)] assms(1) q(2) Some show ?thesis
    by (simp add: stays_Some guarded_def same_outside_drop_tree tame_drop_tree strict_prefix_ne_Nil)
qed simp

lemma mkdirs_from_stays:
  "guarded D fs \<Longrightarrow> ''..'' \<notin> set ds \<Longrightarrow> ''..'' \<notin> set cs \<Longrightarrow> stays D fs (mkdirs_from fs (D @ ds) cs)"
proof (induction cs arbitrary: fs ds)
  case Nil
  then show ?case by (simp add: stays_Some guarded_def)
next
  case (Cons c cs)
  have step: "stays D fs' (mkdirs_from fs' (D @ (ds @ [c])) cs)" if "guarded D fs'" for fs'
    using that Cons.prems by (intro Cons.IH) auto
  show ?case
  proof (cases "stat fs (D @ ds @ [c])")
    case None
    show ?thesis
    proof (cases "lpath fs (D @ ds @ [c])")
      case (Some q)
      with Cons.prems lpath_below [of D fs "ds @ [c]" q] have "strict_prefix D q" by auto
      with Cons.prems have put: "stays D fs (Some (put q (EDir 0) fs))"
        by (auto simp: guarded_def intro: stays_put)
      from step [OF stays_guarded [OF put Cons.prems(1)]] put Some None show ?thesis
        by (auto simp: stays_def intro: same_outside_trans split: option.splits)
    qed (simp add: None)
  next
    case (Some e)
    with step [OF Cons.prems(1)] show ?thesis by (cases e) auto
  qed
qed

lemma mkdirs_canonical: "canonical fs D \<Longrightarrow> mkdirs fs (D @ cs) = mkdirs_from fs D cs"
proof (induction D arbitrary: cs rule: rev_induct)
  case Nil
  then show ?case by (simp add: mkdirs_def)
next
  case (snoc d D)
  then have "canonical fs D" "d \<noteq> ''..''" "is_dir_entry (node fs (D @ [d]))" by (auto simp: canonical_Snoc)
  moreover from this(3) obtain m where m: "node fs (D @ [d]) = Some (EDir m)"
    by (cases "node fs (D @ [d])" rule: is_dir_entry.cases) auto
  ultimately have "stat fs (D @ [d]) = Some (EDir m)" by (simp add: stat_plain)
  with snoc.IH [of "d # cs"] \<open>canonical fs D\<close> show ?case by simp
qed

lemma mkdirs_stays: "guarded D fs \<Longrightarrow> ''..'' \<notin> set cs \<Longrightarrow> stays D fs (mkdirs fs (D @ cs))"
  using mkdirs_from_stays [of D fs "[]" cs] by (simp add: mkdirs_canonical guarded_def)

lemma same_outside_move:
  assumes "strict_prefix D p" "strict_prefix D q" "\<not> prefix p q" "\<not> prefix q p"
  shows "same_outside D fs (graft p q fs @ drop_tree p (drop_tree q fs))"
  unfolding same_outside_def
proof (intro allI impI)
  fix r assume r: "\<not> strict_prefix D r"
  have "\<not> prefix p r" "\<not> prefix q r" using assms(1,2) r by (meson prefix_order.less_le_trans)+
  with assms(3,4) strict_prefix_ne_Nil [OF assms(1)] strict_prefix_ne_Nil [OF assms(2)]
  show "node (graft p q fs @ drop_tree p (drop_tree q fs)) r = node fs r"
    by (simp add: node_moved)
qed

lemma prefix_append_drop: "prefix D p \<Longrightarrow> prefix D (p @ x)"
  by auto

lemma os_replace_stays:
  assumes "guarded D fs" "''..'' \<notin> set as" "as \<noteq> []" "''..'' \<notin> set bs" "bs \<noteq> []"
  shows "stays D fs (os_replace fs (D @ as) (D @ bs))"
proof (cases "os_replace fs (D @ as) (D @ bs)")
  case (Some fs')
  then obtain p q where pq: "lpath fs (D @ as) = Some p" "lpath fs (D @ bs) = Some q"
    and res: "fs' = fs \<or> \<not> prefix p q \<and> \<not> prefix q p \<and> fs' = graft p q fs @ drop_tree p (drop_tree q fs)"
    by (auto simp: os_replace_def split: option.splits if_splits)
  have D: "strict_prefix D p" "strict_prefix D q"
    using lpath_below assms pq by blast+
  have "tame D fs'" if "\<not> prefix p q" "\<not> prefix q p" "fs' = graft p q fs @ drop_tree p (drop_tree q fs)"
  proof -
    have "node fs r = Some (ELink t) \<Longrightarrow> prefix D r \<Longrightarrow> tame_target t" for r t
      using assms(1) by (auto simp: guarded_def tame_def)
    moreover have "prefix D (p @ x)" for x using D(1) by (simp add: strict_prefix_def)
    ultimately show ?thesis
      using that strict_prefix_ne_Nil [OF D(1)] strict_prefix_ne_Nil [OF D(2)]
      by (auto simp: tame_def node_moved split: if_splits)
  qed
  with res assms(1) D Some show ?thesis
    by (auto simp: stays_Some guarded_def intro: same_outside_move)
qed simp

lemmas fs_stays = write_text_stays unlink_stays symlink_stays rmtree_stays mkdirs_stays os_replace_stays

end
