(* ===== verification/Archive.thy ===== *)
theory Archive
  imports Files Urls
begin

text \<open>
  \<open>utils/archive.py\<close>: the extraction of release archives and provisioned binaries.  The bytes of
  an archive are decoded by two parameters, \<open>untar\<close> and \<open>unzip\<close> (\<open>None\<close> when \<open>tarfile\<close> or \<open>zipfile\<close>
  cannot read it); what the members do to the disk is modelled: \<open>tarfile\<close> with the \<open>data\<close> filter,
  which writes through links that are already there, and \<open>zipfile\<close>, which writes plain files.

  The main fact is that an extraction changes nothing outside its destination, whatever the
  members are and however their links point at each other.
\<close>

datatype arc_error = UnsafeArchiveEntry | UnknownArchiveType | BadArchive | ArchiveOSError

datatype member_kind = MFile string | MDir | MSym string | MHard string | MSpecial

type_synonym member = "string \<times> member_kind"

section \<open>Refusing unsafe names\<close>

text \<open>
  \<open>(^[/\\])|(^[A-Za-z]:)|((^|[/\\])\.\.([/\\]|$))\<close>: a leading separator, a drive letter, or a \<open>..\<close>
  between separators of either style; \<open>$\<close> also matches before a final newline.
\<close>

definition is_sep :: "char \<Rightarrow> bool" where
  "is_sep c = (c = CHR ''/'' \<or> c = chr_bslash)"

definition name_segments :: "string \<Rightarrow> string list" where
  "name_segments name = split_char (CHR ''/'') (map (\<lambda>c. if c = chr_bslash then CHR ''/'' else c) name)"

fun drive_rooted :: "string \<Rightarrow> bool" where
  "drive_rooted (a # b # _) = (is_alpha a \<and> b = CHR '':'')"
| "drive_rooted _ = False"

definition unsafe_name :: "string \<Rightarrow> bool" where
  "unsafe_name name =
     ((name \<noteq> [] \<and> is_sep (hd name)) \<or> drive_rooted name \<or> ''..'' \<in> set (name_segments name) \<or>
      last (name_segments name) = ''..'' @ [chr_nl])"

fun link_target :: "member_kind \<Rightarrow> string option" where
  "link_target (MSym t) = Some t"
| "link_target (MHard t) = Some t"
| "link_target _ = None"

definition refused :: "member \<Rightarrow> bool" where
  "refused m = (unsafe_name (fst m) \<or> (case link_target (snd m) of None \<Rightarrow> False | Some t \<Rightarrow> unsafe_name t))"

section \<open>Writing the members\<close>

text \<open>
  The \<open>data\<close> filter: special files, and names or links that resolve outside the destination, are
  refused.  A path that does not resolve continues lexically, which stays below the destination
  for a name without \<open>..\<close>.
\<close>

definition escapes :: "fs \<Rightarrow> apath \<Rightarrow> apath \<Rightarrow> bool" where
  "escapes fs D p = (case realpath fs p of None \<Rightarrow> False | Some q \<Rightarrow> \<not> prefix D q)"

definition data_filter_refuses :: "fs \<Rightarrow> apath \<Rightarrow> member \<Rightarrow> bool" where
  "data_filter_refuses fs D m =
     (let parts = path_parts (fst m) in
      escapes fs D (D @ parts) \<or>
      (case snd m of
         MSym t \<Rightarrow> escapes fs D (D @ butlast parts @ path_parts t)
       | MHard t \<Rightarrow> escapes fs D (D @ path_parts t)
       | MSpecial \<Rightarrow> True
       | _ \<Rightarrow> False))"

definition replace_link :: "fs \<Rightarrow> apath \<Rightarrow> string \<Rightarrow> fs option" where
  "replace_link fs p t =
     (if lstat fs p \<noteq> None
      then (case unlink fs p of None \<Rightarrow> None | Some fs1 \<Rightarrow> symlink fs1 p t)
      else symlink fs p t)"

text \<open>
  A hard link gets the contents of the file it names; when that file is not on disk, \<open>tarfile\<close>
  extracts the member of that name in its place.
\<close>

definition find_member :: "member list \<Rightarrow> string \<Rightarrow> string option" where
  "find_member ms t =
     (case find (\<lambda>m. path_parts (fst m) = path_parts t) (rev ms) of
        Some (_, MFile s) \<Rightarrow> Some s
      | _ \<Rightarrow> None)"

definition hard_link :: "member list \<Rightarrow> fs \<Rightarrow> apath \<Rightarrow> apath \<Rightarrow> string \<Rightarrow> fs option" where
  "hard_link ms fs D p t =
     (case stat fs (D @ path_parts t) of
        Some (EFile s) \<Rightarrow> (if lstat fs p = None then write_text fs p s else None)
      | Some _ \<Rightarrow> None
      | None \<Rightarrow>
          (case find_member ms t of
             None \<Rightarrow> None
           | Some s \<Rightarrow> write_text fs p s))"

definition extract_member :: "member list \<Rightarrow> apath \<Rightarrow> fs \<Rightarrow> member \<Rightarrow> fs option" where
  "extract_member ms D fs m =
     (let p = D @ path_parts (fst m) in
      if data_filter_refuses fs D m then None
      else case mkdirs fs (D @ butlast (path_parts (fst m))) of
             None \<Rightarrow> None
           | Some fs1 \<Rightarrow>
               (case snd m of
                  MFile s \<Rightarrow> write_text fs1 p s
                | MDir \<Rightarrow> mkdirs fs1 p
                | MSym t \<Rightarrow> (if path_parts (fst m) = [] then None else replace_link fs1 p t)
                | MHard t \<Rightarrow> hard_link ms fs1 D p t
                | MSpecial \<Rightarrow> None))"

text \<open>\<open>extractall\<close> stops at the first member that fails; what was written stays.\<close>

fun extract_all :: "(fs \<Rightarrow> 'm \<Rightarrow> fs option) \<Rightarrow> fs \<Rightarrow> 'm list \<Rightarrow> arc_error option \<times> fs" where
  "extract_all f fs [] = (None, fs)"
| "extract_all f fs (m # ms) =
     (case f fs m of
        None \<Rightarrow> (Some ArchiveOSError, fs)
      | Some fs1 \<Rightarrow> extract_all f fs1 ms)"

definition extract_tar :: "(string \<Rightarrow> member list option) \<Rightarrow> fs \<Rightarrow> string \<Rightarrow> apath \<Rightarrow> arc_error option \<times> fs" where
  "extract_tar untar fs bytes D =
     (case untar bytes of
        None \<Rightarrow> (Some BadArchive, fs)
      | Some ms \<Rightarrow>
          if list_ex refused ms then (Some UnsafeArchiveEntry, fs)
          else extract_all (extract_member ms D) fs ms)"

text \<open>\<open>ZipFile._extract_member\<close>: empty, dot and dot-dot components are dropped from the name.\<close>

definition extract_zip_member :: "apath \<Rightarrow> fs \<Rightarrow> string \<times> string \<Rightarrow> fs option" where
  "extract_zip_member D fs m =
     (let parts = filter (\<lambda>w. w \<noteq> ''..'') (path_parts (fst m)); p = D @ parts in
      case mkdirs fs (D @ butlast parts) of
        None \<Rightarrow> None
      | Some fs1 \<Rightarrow> (if endswith (fst m) ''/'' then mkdirs fs1 p else write_text fs1 p (snd m)))"

definition extract_zip ::
    "(string \<Rightarrow> (string \<times> string) list option) \<Rightarrow> fs \<Rightarrow> string \<Rightarrow> apath \<Rightarrow> arc_error option \<times> fs" where
  "extract_zip unzip fs bytes D =
     (case unzip bytes of
        None \<Rightarrow> (Some BadArchive, fs)
      | Some ms \<Rightarrow>
          if list_ex (\<lambda>m. unsafe_name (fst m)) ms then (Some UnsafeArchiveEntry, fs)
          else extract_all (extract_zip_member D) fs ms)"

definition extract_archive ::
    "(string \<Rightarrow> member list option) \<Rightarrow> (string \<Rightarrow> (string \<times> string) list option) \<Rightarrow>
     fs \<Rightarrow> apath \<Rightarrow> apath \<Rightarrow> arc_error option \<times> fs" where
  "extract_archive untar unzip fs archive D =
     (case mkdirs fs D of
        None \<Rightarrow> (Some ArchiveOSError, fs)
      | Some fs1 \<Rightarrow>
          let name = py_lower (last archive) in
          (case read_text fs1 archive of
             None \<Rightarrow>
               (if endswith name ''.tar.gz'' \<or> endswith name ''.tgz'' \<or> endswith name ''.zip''
                then (Some ArchiveOSError, fs1) else (Some UnknownArchiveType, fs1))
           | Some bytes \<Rightarrow>
               if endswith name ''.tar.gz'' \<or> endswith name ''.tgz'' then extract_tar untar fs1 bytes D
               else if endswith name ''.zip'' then extract_zip unzip fs1 bytes D
               else (Some UnknownArchiveType, fs1)))"

section \<open>A name that is not refused stays below the destination\<close>

lemma split_char_map:
  assumes "f c = c"
  shows "split_char c (map f s) = concat (map (\<lambda>w. split_char c (map f w)) (split_char c s))"
proof (induction s)
  case (Cons x xs)
  obtain w ws where w: "split_char c xs = w # ws" by (cases "split_char c xs") auto
  obtain v vs where v: "split_char c (map f w) = v # vs" by (cases "split_char c (map f w)") auto
  with w Cons assms show ?case by auto
qed simp

lemma segment_kept:
  assumes "w \<in> set (split_char (CHR ''/'') s)" "chr_bslash \<notin> set w"
  shows "w \<in> set (name_segments s)"
proof -
  let ?f = "\<lambda>c. if c = chr_bslash then CHR ''/'' else c"
  from assms have "map ?f w = w" by (intro map_idI) auto
  moreover have "CHR ''/'' \<notin> set w" using assms(1) split_char_parts_no_sep by blast
  ultimately have "w \<in> set (split_char (CHR ''/'') (map ?f w))" by (simp add: split_char_no_sep)
  with assms(1) show ?thesis unfolding name_segments_def by (subst split_char_map) auto
qed

lemma safe_name_tame: "\<not> unsafe_name s \<Longrightarrow> tame_target s"
  using segment_kept [of "''..''" s]
  by (cases s) (auto simp: unsafe_name_def tame_target_def path_parts_def is_sep_def)

lemma safe_name_parts: "\<not> unsafe_name s \<Longrightarrow> ''..'' \<notin> set (path_parts s)"
  using safe_name_tame by (simp add: tame_target_def)

lemma notin_butlast: "x \<notin> set xs \<Longrightarrow> x \<notin> set (butlast xs)"
  by (meson in_set_butlastD)

section \<open>Extraction keeps to its destination\<close>

lemma stays_step:
  assumes "guarded D fs" "stays D fs (Some fs1)" "guarded D fs1 \<Longrightarrow> stays D fs1 r"
  shows "stays D fs r"
  using assms(2) assms(3) [OF stays_guarded [OF assms(2,1)]]
  by (auto simp: stays_def intro: same_outside_trans split: option.splits)

lemma replace_link_stays:
  assumes "guarded D fs" "''..'' \<notin> set cs" "cs \<noteq> []" "tame_target t"
  shows "stays D fs (replace_link fs (D @ cs) t)"
proof (cases "lstat fs (D @ cs) = None")
  case True
  with symlink_stays [OF assms] show ?thesis by (simp add: replace_link_def)
next
  case False
  show ?thesis
  proof (cases "unlink fs (D @ cs)")
    case (Some fs1)
    with unlink_stays [OF assms(1-3)] have "stays D fs (Some fs1)" by simp
    from stays_step [OF assms(1) this symlink_stays [OF _ assms(2-4)]] False Some show ?thesis
      by (simp add: replace_link_def)
  qed (use False in \<open>simp add: replace_link_def\<close>)
qed

text \<open>
  The destination is \<open>G @ es\<close>, with \<open>G\<close> the guarded directory: the destination itself, or a directory
  above it that nothing may leave.
\<close>

lemma hard_link_stays:
  "guarded G fs \<Longrightarrow> ''..'' \<notin> set cs \<Longrightarrow> stays G fs (hard_link ms fs D (G @ cs) t)"
  by (auto simp: hard_link_def write_text_stays split: option.splits entry.splits)

lemma extract_member_stays:
  assumes "guarded G fs" "''..'' \<notin> set es" "\<not> refused m"
  shows "stays G fs (extract_member ms (G @ es) fs m)"
proof -
  let ?cs = "path_parts (fst m)"
  from assms(3) have cs: "''..'' \<notin> set ?cs" by (simp add: refused_def safe_name_parts)
  with assms(2) have ecs: "''..'' \<notin> set (es @ ?cs)" "''..'' \<notin> set (es @ butlast ?cs)"
    by (auto dest: in_set_butlastD)
  show ?thesis
  proof (cases "mkdirs fs (G @ es @ butlast ?cs)")
    case (Some fs1)
    with mkdirs_stays [OF assms(1) ecs(2)] have fs1: "stays G fs (Some fs1)" by simp
    have "stays G fs1 (body fs1)" if "guarded G fs1"
      and "body = (\<lambda>fs1. case snd m of MFile s \<Rightarrow> write_text fs1 (G @ es @ ?cs) s
             | MDir \<Rightarrow> mkdirs fs1 (G @ es @ ?cs)
             | MSym t \<Rightarrow> (if ?cs = [] then None else replace_link fs1 (G @ es @ ?cs) t)
             | MHard t \<Rightarrow> hard_link ms fs1 (G @ es) (G @ es @ ?cs) t
             | MSpecial \<Rightarrow> None)" for body
      using that ecs(1) assms(3)
      by (cases "snd m")
        (auto simp: write_text_stays mkdirs_stays replace_link_stays hard_link_stays refused_def safe_name_tame)
    from stays_step [OF assms(1) fs1 this [OF _ refl]] Some show ?thesis
      by (simp add: extract_member_def Let_def)
  qed (simp add: extract_member_def Let_def)
qed

lemma extract_zip_member_stays:
  assumes "guarded G fs" "''..'' \<notin> set es"
  shows "stays G fs (extract_zip_member (G @ es) fs m)"
proof -
  let ?cs = "filter (\<lambda>w. w \<noteq> ''..'') (path_parts (fst m))"
  have ecs: "''..'' \<notin> set (es @ ?cs)" "''..'' \<notin> set (es @ butlast ?cs)"
    using assms(2) by (auto dest: in_set_butlastD)
  show ?thesis
  proof (cases "mkdirs fs (G @ es @ butlast ?cs)")
    case (Some fs1)
    with mkdirs_stays [OF assms(1) ecs(2)] have fs1: "stays G fs (Some fs1)" by simp
    have "stays G fs1 (if b then mkdirs fs1 (G @ es @ ?cs) else write_text fs1 (G @ es @ ?cs) s)"
      if "guarded G fs1" for b s
      using write_text_stays [OF that ecs(1)] mkdirs_stays [OF that ecs(1)] by simp
    from stays_step [OF assms(1) fs1 this] Some show ?thesis
      by (simp add: extract_zip_member_def Let_def)
  qed (simp add: extract_zip_member_def Let_def)
qed

lemma extract_all_stays:
  assumes "guarded G fs" "\<And>fs m. guarded G fs \<Longrightarrow> m \<in> set ms \<Longrightarrow> stays G fs (f fs m)"
  shows "stays G fs (Some (snd (extract_all f fs ms)))"
  using assms
proof (induction ms arbitrary: fs)
  case Nil
  then show ?case by (simp add: stays_Some guarded_def)
next
  case (Cons m ms)
  show ?case
  proof (cases "f fs m")
    case None
    with Cons.prems show ?thesis by (simp add: stays_Some guarded_def)
  next
    case (Some fs1)
    with Cons.prems(2) [of fs m] Cons.prems(1) have "stays G fs (Some fs1)" by simp
    from stays_step [OF Cons.prems(1) this Cons.IH] Cons.prems(2) Some show ?thesis by simp
  qed
qed

lemma extract_tar_stays:
  assumes "guarded G fs" "''..'' \<notin> set es"
  shows "stays G fs (Some (snd (extract_tar untar fs bytes (G @ es))))"
  using assms extract_all_stays [OF assms(1), of _ "extract_member _ (G @ es)"] extract_member_stays
  by (auto simp: extract_tar_def list_ex_iff stays_Some guarded_def split: option.splits)

lemma extract_zip_stays:
  assumes "guarded G fs" "''..'' \<notin> set es"
  shows "stays G fs (Some (snd (extract_zip unzip fs bytes (G @ es))))"
  using assms extract_all_stays [OF assms(1), of _ "extract_zip_member (G @ es)"] extract_zip_member_stays
  by (auto simp: extract_zip_def stays_Some guarded_def split: option.splits)

lemma extract_archive_stays:
  assumes "guarded G fs" "''..'' \<notin> set es"
  shows "stays G fs (Some (snd (extract_archive untar unzip fs a (G @ es))))"
proof (cases "mkdirs fs (G @ es)")
  case None
  with assms show ?thesis by (simp add: extract_archive_def stays_Some guarded_def)
next
  case (Some fs1)
  with mkdirs_stays [OF assms] have st: "stays G fs (Some fs1)" by simp
  have "stays G fs1 (Some (snd (extract_archive untar unzip fs a (G @ es))))" if g: "guarded G fs1"
    using extract_tar_stays [OF g assms(2)] extract_zip_stays [OF g assms(2)] g Some
    by (simp add: extract_archive_def Let_def stays_Some guarded_def split: option.splits)
  from stays_step [OF assms(1) st this] show ?thesis .
qed

text \<open>
  The destination need not exist yet: its parent is a canonical directory, nothing in the way is a
  link, and links left below it by an earlier extraction are tame.
\<close>

definition fresh_below :: "apath \<Rightarrow> string \<Rightarrow> fs \<Rightarrow> bool" where
  "fresh_below P c fs = (canonical fs P \<and> c \<noteq> ''..'' \<and> \<not> is_link_entry (node fs (P @ [c])) \<and> tame (P @ [c]) fs)"

lemma mkdirs_fresh:
  assumes "fresh_below P c fs" "mkdirs fs (P @ [c]) = Some fs1"
  shows "guarded (P @ [c]) fs1 \<and> (fs1 = fs \<or> node fs (P @ [c]) = None \<and> fs1 = put (P @ [c]) (EDir 0) fs)"
proof -
  from assms(1) have c: "canonical fs P" "c \<noteq> ''..''" "\<not> is_link_entry (node fs (P @ [c]))" "tame (P @ [c]) fs"
    by (auto simp: fresh_below_def)
  have m: "mkdirs_from fs P [c] = Some fs1" using assms(2) mkdirs_canonical [OF c(1)] by simp
  show ?thesis
  proof (cases "node fs (P @ [c])")
    case None
    with m c have fs1: "fs1 = put (P @ [c]) (EDir 0) fs" by (simp add: stat_plain lpath_canonical)
    have "canonical fs1 P"
      using c(1) same_outside_put [of P "P @ [c]" fs "EDir 0"] same_outside_canonical fs1 by simp
    moreover have "tame (P @ [c]) fs1" unfolding fs1 by (rule tame_put [OF c(4)]) simp_all
    ultimately have "guarded (P @ [c]) fs1"
      using c fs1 by (simp add: guarded_def canonical_Snoc node_put)
    with None fs1 show ?thesis by simp
  next
    case (Some e)
    with m c obtain k where "e = EDir k" "fs1 = fs" by (cases e) (auto simp: stat_plain)
    with Some c show ?thesis by (simp add: guarded_def canonical_Snoc)
  qed
qed

lemma extract_archive_outcome:
  assumes "fresh_below P c fs"
  shows "(\<forall>q. \<not> prefix (P @ [c]) q \<longrightarrow> node (snd (extract_archive untar unzip fs a (P @ [c]))) q = node fs q) \<and>
         fresh_below P c (snd (extract_archive untar unzip fs a (P @ [c])))"
proof (cases "mkdirs fs (P @ [c])")
  case None
  with assms show ?thesis by (simp add: extract_archive_def)
next
  case (Some fs1)
  let ?D = "P @ [c]" and ?out = "snd (extract_archive untar unzip fs a (P @ [c]))"
  from mkdirs_fresh [OF assms Some] have g: "guarded ?D fs1"
    and fs1: "fs1 = fs \<or> node fs ?D = None \<and> fs1 = put ?D (EDir 0) fs" by auto
  have refl: "stays ?D fs1 (Some fs1)" using g by (simp add: stays_Some guarded_def)
  have st: "stays ?D fs1 (Some ?out)"
    using refl extract_tar_stays [OF g, of "[]"] extract_zip_stays [OF g, of "[]"] Some
    by (simp add: extract_archive_def Let_def split: option.splits)
  have "node ?out q = node fs q" if "\<not> prefix ?D q" for q
    using st fs1 that by (auto simp: stays_Some same_outside_def strict_prefix_def node_put)
  moreover from stays_guarded [OF st g] have "fresh_below P c ?out"
    using canonical_node [of ?out ?D]
    by (cases "node ?out ?D" rule: is_link_entry.cases) (auto simp: guarded_def fresh_below_def canonical_Snoc)
  ultimately show ?thesis by blast
qed

text \<open>
  C16. Extracting an archive changes nothing outside the destination directory: whatever names,
  symbolic links, hard links and duplicates the archive contains, and whether the extraction succeeds or stops
  half way, every path that is not at or below the destination has the same contents afterwards.
  The destination lies in a directory without links on the way, is itself not a link, and holds
  no absolute or parent-relative links from before.
\<close>

theorem extract_contained:
  assumes "canonical fs P" "c \<noteq> ''..''" "\<not> is_link_entry (node fs (P @ [c]))" "tame (P @ [c]) fs"
    and "\<not> prefix (P @ [c]) q"
  shows "node (snd (extract_archive untar unzip fs archive (P @ [c]))) q = node fs q"
  using extract_archive_outcome [of P c fs] assms by (simp add: fresh_below_def)

definition sample_archive_fs :: fs where
  "sample_archive_fs =
     [([''r''], EDir 0), ([''r'', ''x.tgz''], EFile ''bytes''), ([''r'', ''d''], EDir 0), ([''secret''], EFile ''s'')]"

definition sample_untar :: "string \<Rightarrow> member list option" where
  "sample_untar bytes = Some [(''a'', MSym ''b''), (''b'', MDir), (''a/f'', MFile ''new'')]"

lemma tame_Nil: "(\<And>p t. (p, ELink t) \<notin> set fs) \<Longrightarrow> tame D fs"
  by (auto simp: tame_def node_def dest: map_of_SomeD split: if_splits)

lemma sample_archive_fs_ok:
  "canonical sample_archive_fs [''r'']" "\<not> is_link_entry (node sample_archive_fs ([''r''] @ [''d'']))"
  "tame ([''r''] @ [''d'']) sample_archive_fs" "node sample_archive_fs [''secret''] = Some (EFile ''s'')"
proof -
  show "canonical sample_archive_fs [''r'']"
    using canonical_Snoc [of sample_archive_fs "[]" "''r''"] by (simp add: sample_archive_fs_def node_def)
  show "tame ([''r''] @ [''d'']) sample_archive_fs" by (rule tame_Nil) (simp add: sample_archive_fs_def)
qed (simp_all add: sample_archive_fs_def node_def)

theorem extract_contained_witness:
  "node (snd (extract_archive sample_untar (\<lambda>_. None) sample_archive_fs [''r'', ''x.tgz''] ([''r''] @ [''d'']))) [''secret'']
     = Some (EFile ''s'') \<and>
   node (snd (extract_archive sample_untar (\<lambda>_. None) sample_archive_fs [''r'', ''x.tgz''] ([''r''] @ [''d''])))
       [''r'', ''d'', ''b'', ''f''] = Some (EFile ''new'')"
proof
  show "node (snd (extract_archive sample_untar (\<lambda>_. None) sample_archive_fs [''r'', ''x.tgz''] ([''r''] @ [''d'']))) [''secret'']
     = Some (EFile ''s'')"
    by (rule extract_contained [OF sample_archive_fs_ok(1) _ sample_archive_fs_ok(2,3), THEN trans, OF _ _ sample_archive_fs_ok(4)]) simp_all
qed code_simp

end
