(* ===== verification/Steps.thy ===== *)
theory Steps
  imports Prelude
begin

text \<open>
  Steps: a function from a state to a result (a value, or the exception) and the new state.  \<open>seq\<close>
  composes steps the way statements follow each other, an exception ending the sequence.  The
  updater, the artifact store, onboarding and the command line are written with them, each on the
  state of its own host; the rules about \<open>triple\<close> and \<open>seqE\<close> carry the proofs about sequences.
\<close>

section \<open>Steps\<close>

type_synonym ('s, 'e, 'a) stm = "'s \<Rightarrow> ('e + 'a) \<times> 's"

definition ret :: "'a \<Rightarrow> ('s, 'e, 'a) stm" where
  "ret x h = (Inr x, h)"

definition raise :: "'e \<Rightarrow> ('s, 'e, 'a) stm" where
  "raise e h = (Inl e, h)"

definition seq :: "('s, 'e, 'a) stm \<Rightarrow> ('a \<Rightarrow> ('s, 'e, 'b) stm) \<Rightarrow> ('s, 'e, 'b) stm" where
  "seq m k h = (case m h of (Inl e, h1) \<Rightarrow> (Inl e, h1) | (Inr x, h1) \<Rightarrow> k x h1)"

definition ensure :: "bool \<Rightarrow> 'e \<Rightarrow> ('s, 'e, unit) stm" where
  "ensure b e = (if b then ret () else raise e)"

text \<open>\<open>try: ... except Exception: log\<close>, and a handler for one exception class.\<close>

definition swallow :: "('s, 'e, unit) stm \<Rightarrow> ('s, 'e, unit) stm" where
  "swallow m h = (Inr (), snd (m h))"

definition handle :: "'e \<Rightarrow> ('s, 'e, 'a) stm \<Rightarrow> ('s, 'e, 'a) stm \<Rightarrow> ('s, 'e, 'a) stm" where
  "handle e m k h = (case m h of (Inl e', h1) \<Rightarrow> if e' = e then k h1 else (Inl e', h1) | r \<Rightarrow> r)"

section \<open>Invariants of a sequence\<close>

definition triple :: "('s \<Rightarrow> bool) \<Rightarrow> ('s, 'e, 'a) stm \<Rightarrow> ('a \<Rightarrow> bool) \<Rightarrow> bool" where
  "triple I m Q = (\<forall>h. I h \<longrightarrow> I (snd (m h)) \<and> (\<forall>x. fst (m h) = Inr x \<longrightarrow> Q x))"

lemma triple_seq:
  assumes "triple I m Q" "\<And>x. Q x \<Longrightarrow> triple I (k x) R"
  shows "triple I (seq m k) R"
proof -
  have "I (snd (seq m k h)) \<and> (\<forall>y. fst (seq m k h) = Inr y \<longrightarrow> R y)" if "I h" for h
  proof (cases "m h")
    case (Pair r h1)
    with assms(1) that have "I h1" "\<And>x. r = Inr x \<Longrightarrow> Q x" unfolding triple_def by (metis fst_conv snd_conv)+
    with assms(2) Pair show ?thesis by (cases r) (auto simp: seq_def triple_def)
  qed
  then show ?thesis by (simp add: triple_def)
qed

lemma triple_ret: "Q x \<Longrightarrow> triple I (ret x) Q"
  by (simp add: triple_def ret_def)

lemma triple_raise: "triple I (raise e) Q"
  by (simp add: triple_def raise_def)

lemma triple_ensure: "(b \<Longrightarrow> Q ()) \<Longrightarrow> triple I (ensure b e) Q"
  by (simp add: ensure_def triple_ret triple_raise)

lemma triple_handle: "triple I m Q \<Longrightarrow> triple I k Q \<Longrightarrow> triple I (handle e m k) Q"
  by (fastforce simp: triple_def handle_def split: prod.splits sum.splits)

lemma triple_swallow: "triple I m Q \<Longrightarrow> triple I (swallow m) (\<lambda>_. True)"
  by (auto simp: triple_def swallow_def)

lemma triple_weaken: "triple I m Q \<Longrightarrow> (\<And>x. Q x \<Longrightarrow> R x) \<Longrightarrow> triple I m R"
  by (auto simp: triple_def)

lemma triple_use: "triple I m Q \<Longrightarrow> I h \<Longrightarrow> m h = (Inr x, h') \<Longrightarrow> Q x \<and> I h'"
  unfolding triple_def by (metis fst_conv snd_conv)

section \<open>Runs of a sequence\<close>

text \<open>A run of two steps in sequence.\<close>

lemma seqE:
  assumes "seq m k h = (r, h')"
  obtains (first) e where "m h = (Inl e, h')" "r = Inl e" | (both) x h1 where "m h = (Inr x, h1)" "k x h1 = (r, h')"
  using assms by (auto simp: seq_def split: prod.splits sum.splits)

lemma seq_ret: "seq (ret x) k = k x"
  by (simp add: fun_eq_iff seq_def ret_def)

lemma seq_raise: "seq (raise e) k h = (Inl e, h)"
  by (simp add: seq_def raise_def)

lemma seq_swallow: "seq (swallow m) k h = k () (snd (m h))"
  by (simp add: seq_def swallow_def)

lemma seq_assoc: "seq (seq m k) l = seq m (\<lambda>x. seq (k x) l)"
  by (simp add: fun_eq_iff seq_def split: prod.split sum.split)

end
