(* ===== verification/Updater.thy ===== *)
theory Updater
  imports Archive Json Steps
begin

text \<open>
  \<open>app/updater.py\<close>, first half: which release an installation updates to, and how its archive is
  fetched and checked, as steps (\<open>Steps\<close>) on the state of the host.

  What is not in the repository is a parameter of the site: the answers of the network (one per
  request, in the order of the requests), SHA-256, the decoders of \<open>tarfile\<close>, \<open>zipfile\<close> and \<open>json\<close>, and the
  exit of the processes the updater runs.
\<close>

section \<open>State, errors, steps\<close>

datatype upd_error =
    InstallRootNotFound
  | ManifestMalformed
  | ReleaseNotFound
  | DownloadFailed
  | VerifyFailed
  | ExtractRefused
  | HealthCheckFailed
  | BundleUpdateError
  | Uncaught

text \<open>
  \<open>Uncaught\<close> stands for every exception that is not a \<open>BundleUpdateError\<close>: \<open>OSError\<close>, \<open>KeyError\<close>,
  \<open>ValueError\<close> and the like.
\<close>

record http_reply =
  hr_status :: int
  hr_content_length :: "string option"
  hr_chunks :: "string list"
  hr_broken :: bool

definition hr_text :: "http_reply \<Rightarrow> string" where
  "hr_text r = concat (hr_chunks r)"

datatype proc_result = Exited int | TimedOut | NotExecutable

record site =
  st_frozen :: bool
  st_platform :: string
  st_machine :: string
  st_executable :: apath
  st_home :: apath
  st_env :: "string \<Rightarrow> string option"
  st_get :: "nat \<Rightarrow> string \<Rightarrow> nat \<Rightarrow> http_reply option"
  st_loads :: "string \<Rightarrow> json option"
  st_sha256 :: "string \<Rightarrow> string"
  st_untar :: "string \<Rightarrow> member list option"
  st_unzip :: "string \<Rightarrow> (string \<times> string) list option"
  st_self_check :: "apath \<Rightarrow> proc_result"
  st_codesign :: "apath \<Rightarrow> proc_result"
  st_locked :: "apath \<Rightarrow> bool"

record host =
  h_fs :: fs
  h_log :: "string list"
  h_now :: int
  h_relaunched :: "string list"

type_synonym ('e, 'a) stepx = "(host, 'e, 'a) stm"
type_synonym 'a step = "(upd_error, 'a) stepx"

definition asks :: "(fs \<Rightarrow> 'a) \<Rightarrow> ('e, 'a) stepx" where
  "asks f h = (Inr (f (h_fs h)), h)"

text \<open>A change of the file system, and the error it raises when it fails.\<close>

definition change_or :: "'e \<Rightarrow> (fs \<Rightarrow> fs option) \<Rightarrow> ('e, unit) stepx" where
  "change_or e f h = (case f (h_fs h) of None \<Rightarrow> (Inl e, h) | Some fs' \<Rightarrow> (Inr (), h\<lparr>h_fs := fs'\<rparr>))"

abbreviation change :: "(fs \<Rightarrow> fs option) \<Rightarrow> unit step" where
  "change \<equiv> change_or Uncaught"

text \<open>\<open>http.get(url)\<close>, with the start of a \<open>Range\<close> header; \<open>None\<close> is a \<open>RequestException\<close>.\<close>

definition http_get :: "site \<Rightarrow> string \<Rightarrow> nat \<Rightarrow> ('e, http_reply option) stepx" where
  "http_get st url start h =
     (Inr (st_get st (length (h_log h)) url start), h\<lparr>h_log := h_log h @ [url]\<rparr>)"

text \<open>\<open>raise_for_status()\<close> raises for the 4xx and 5xx answers.\<close>

definition get_checked :: "site \<Rightarrow> string \<Rightarrow> http_reply option step" where
  "get_checked st url =
     seq (http_get st url 0) (\<lambda>r.
     ret (case r of None \<Rightarrow> None
          | Some a \<Rightarrow> if 400 \<le> hr_status a \<and> hr_status a < 600 then None
                      else if hr_broken a then None else Some a))"

fun of_py :: "py_error + 'a \<Rightarrow> 'a step" where
  "of_py (Inl e) = raise Uncaught"
| "of_py (Inr x) = ret x"

section \<open>Rules for sequences of steps\<close>

lemma triple_asks: "(\<And>h. I h \<Longrightarrow> Q (f (h_fs h))) \<Longrightarrow> triple I (asks f) Q"
  by (simp add: triple_def asks_def)

lemma triple_change:
  "(\<And>h fs'. I h \<Longrightarrow> f (h_fs h) = Some fs' \<Longrightarrow> I (h\<lparr>h_fs := fs'\<rparr>)) \<Longrightarrow> Q () \<Longrightarrow> triple I (change_or e f) Q"
  by (auto simp: triple_def change_or_def split: option.splits)

lemma triple_of_py: "(\<And>x. r = Inr x \<Longrightarrow> Q x) \<Longrightarrow> triple I (of_py r) Q"
  by (cases r) (simp_all add: triple_ret triple_raise)

text \<open>An invariant of the file system alone is not touched by the network.\<close>

definition on_fs :: "(fs \<Rightarrow> bool) \<Rightarrow> host \<Rightarrow> bool" where
  "on_fs P h = P (h_fs h)"

lemma triple_http_get:
  "(\<And>n. Q (st_get st n url start)) \<Longrightarrow> triple (on_fs P) (http_get st url start) Q"
  by (simp add: triple_def http_get_def on_fs_def)

text \<open>A reply that \<open>get_checked\<close> accepts is one the network gave.\<close>

definition served :: "site \<Rightarrow> http_reply \<Rightarrow> bool" where
  "served st a = (\<exists>n url. st_get st n url 0 = Some a)"

lemma triple_get_checked:
  "triple (on_fs P) (get_checked st url) (\<lambda>r. \<forall>a. r = Some a \<longrightarrow> served st a)"
  unfolding get_checked_def
  by (rule triple_seq [OF triple_http_get [where Q = "\<lambda>r. \<forall>a. r = Some a \<longrightarrow> served st a"]])
    (auto simp: served_def intro!: triple_ret split: option.splits)

lemma triple_each:
  "(\<And>fs. P fs \<Longrightarrow> triple (on_fs (\<lambda>x. x = fs)) m (Q fs)) \<Longrightarrow> triple (on_fs P) m (\<lambda>x. \<exists>fs. Q fs x)"
  unfolding triple_def on_fs_def by metis

lemma triple_skip: "(\<And>x. triple I (k x) Q) \<Longrightarrow> triple I (seq (asks f) k) Q"
  by (rule triple_seq [OF triple_asks [where Q = "\<lambda>_. True"]]) auto

lemmas triple_rules = triple_ret triple_raise triple_ensure triple_of_py

text \<open>One step of a sequence.\<close>

lemma seq_asks: "seq (asks f) k h = k (f (h_fs h)) h"
  by (simp add: seq_def asks_def)

lemma seq_change: "seq (change_or e g) k h = (case g (h_fs h) of None \<Rightarrow> (Inl e, h) | Some fs \<Rightarrow> k () (h\<lparr>h_fs := fs\<rparr>))"
  by (simp add: seq_def change_or_def split: option.split)

lemmas seq_steps = seq_ret seq_raise seq_asks seq_change

text \<open>
  The interface between the steps that fetch and unpack and the invariants they keep: a zone
  that is guarded, and an invariant that any change strictly inside the zone keeps.
\<close>

locale write_zone =
  fixes zone :: apath and inv :: "fs \<Rightarrow> bool"
  assumes inv_guarded: "inv fs \<Longrightarrow> guarded zone fs"
    and inv_stays: "inv fs \<Longrightarrow> stays zone fs (Some fs') \<Longrightarrow> inv fs'"
begin

lemma triple_zone:
  assumes "\<And>fs. guarded zone fs \<Longrightarrow> stays zone fs (f fs)" "Q ()"
  shows "triple (on_fs inv) (change_or e f) Q"
proof (rule triple_change)
  fix h fs' assume h: "on_fs inv h" "f (h_fs h) = Some fs'"
  then have "stays zone (h_fs h) (Some fs')"
    using assms(1) [OF inv_guarded, of "h_fs h"] by (simp add: on_fs_def)
  with h show "on_fs inv (h\<lparr>h_fs := fs'\<rparr>)"
    by (auto simp: on_fs_def intro: inv_stays)
qed (rule assms(2))

end

section \<open>Which release\<close>

record release_info =
  ri_version :: string
  ri_tag :: string
  ri_asset_name :: string
  ri_download_url :: string
  ri_sha256_url :: "string option"
  ri_checksums_url :: "string option"

definition DEFAULT_RELEASES_REPO :: string where
  "DEFAULT_RELEASES_REPO = ''locai-co-uk/locai-link''"

definition platform_tag :: "site \<Rightarrow> string" where
  "platform_tag st =
     (let os = (case map_of [(''linux'', ''linux''), (''darwin'', ''macos''), (''win32'', ''windows'')] (st_platform st)
                of None \<Rightarrow> st_platform st | Some t \<Rightarrow> t);
          machine = py_lower (st_machine st);
          arch = (case map_of [(''x86_64'', ''x64''), (''amd64'', ''x64''), (''arm64'', ''arm64''), (''aarch64'', ''arm64'')] machine
                  of None \<Rightarrow> machine | Some t \<Rightarrow> t)
      in os @ ''-'' @ arch)"

definition env_set :: "site \<Rightarrow> string \<Rightarrow> bool" where
  "env_set st k = (case st_env st k of None \<Rightarrow> False | Some v \<Rightarrow> v \<noteq> [])"

definition ota_overrides_allowed :: "site \<Rightarrow> bool" where
  "ota_overrides_allowed st = (\<not> st_frozen st \<or> env_set st ''LOCAI_ALLOW_OTA_OVERRIDES'')"

text \<open>\<open>a or b\<close> for optional strings.\<close>

definition or_str :: "string option \<Rightarrow> string option \<Rightarrow> string option" where
  "or_str a b = (case a of None \<Rightarrow> b | Some s \<Rightarrow> if s = [] then b else Some s)"

text \<open>
  The two patterns of \<open>_pick_assets\<close>: the stem and the platform, optionally the version, and an
  archive extension; \<open>$\<close> also matches before a final newline.
\<close>

definition matches_asset :: "string \<Rightarrow> string \<Rightarrow> string \<Rightarrow> string \<Rightarrow> string \<Rightarrow> bool" where
  "matches_asset stem version ptag sfx name =
     (let base = stem @ ''-'' @ ptag; body = (if endswith name [chr_nl] then butlast name else name) in
      list_ex (\<lambda>n. n = name \<or> n = body)
        [v @ e @ sfx. v \<leftarrow> [base, base @ ''-v'' @ version], e \<leftarrow> [''.tar.gz'', ''.zip'']])"

text \<open>\<open>a.get("name") or ""\<close>, which the patterns need to be a string.\<close>

definition asset_label :: "json \<Rightarrow> py_error + string" where
  "asset_label a =
     (case get_default a ''name'' JNull of
        Inl e \<Rightarrow> Inl e
      | Inr v \<Rightarrow> if \<not> truthy v then Inr []
                 else (case v of JStr s \<Rightarrow> Inr s | _ \<Rightarrow> Inl (TypeError ''expected string or bytes-like object'')))"

fun pick_assets ::
    "string \<Rightarrow> string \<Rightarrow> string \<Rightarrow> json option \<Rightarrow> json option \<Rightarrow> json list \<Rightarrow> py_error + (json option \<times> json option)" where
  "pick_assets stem version ptag b s [] = Inr (b, s)"
| "pick_assets stem version ptag b s (a # as) =
     (case asset_label a of
        Inl e \<Rightarrow> Inl e
      | Inr name \<Rightarrow>
          if matches_asset stem version ptag [] name \<and> b = None
          then pick_assets stem version ptag (Some a) s as
          else if matches_asset stem version ptag ''.sha256'' name \<and> s = None
          then pick_assets stem version ptag b (Some a) as
          else pick_assets stem version ptag b s as)"

definition is_checksums :: "json \<Rightarrow> bool" where
  "is_checksums a = (case asset_label a of Inl _ \<Rightarrow> False | Inr n \<Rightarrow> py_lower n = ''checksums.txt'')"

fun field_str :: "string \<Rightarrow> json \<Rightarrow> py_error + string" where
  "field_str k a = (case subscript a k of Inl e \<Rightarrow> Inl e | Inr v \<Rightarrow> Inr (py_str v))"

fun opt_field_str :: "string \<Rightarrow> json option \<Rightarrow> py_error + string option" where
  "opt_field_str k None = Inr None"
| "opt_field_str k (Some a) =
     (if truthy a then (case field_str k a of Inl e \<Rightarrow> Inl e | Inr s \<Rightarrow> Inr (Some s)) else Inr None)"

text \<open>What is done with the payload of the releases API.\<close>

definition release_of :: "string \<Rightarrow> string \<Rightarrow> json \<Rightarrow> release_info step" where
  "release_of stem ptag payload =
     seq (of_py (get_default payload ''tag_name'' JNull)) (\<lambda>t.
     let tag = (if truthy t then py_str t else []) in
     seq (ensure (tag \<noteq> []) ReleaseNotFound) (\<lambda>_.
     let version = lstrip_char (CHR ''v'') tag in
     seq (of_py (get_default payload ''assets'' JNull)) (\<lambda>as.
     seq (of_py (if truthy as then iterate as else Inr [])) (\<lambda>assets.
     seq (of_py (pick_assets stem version ptag None None assets)) (\<lambda>(bundle, sha).
     (case bundle of
        None \<Rightarrow> raise ReleaseNotFound
      | Some b \<Rightarrow>
          seq (of_py (field_str ''name'' b)) (\<lambda>name.
          seq (of_py (field_str ''browser_download_url'' b)) (\<lambda>url.
          seq (of_py (opt_field_str ''browser_download_url'' sha)) (\<lambda>sha_url.
          seq (of_py (opt_field_str ''browser_download_url'' (find is_checksums assets))) (\<lambda>sums_url.
          ret \<lparr>ri_version = version, ri_tag = tag, ri_asset_name = name, ri_download_url = url,
               ri_sha256_url = sha_url, ri_checksums_url = sums_url\<rparr>))))))))))"

definition latest_release_for :: "site \<Rightarrow> string \<Rightarrow> string option \<Rightarrow> string option \<Rightarrow> release_info step" where
  "latest_release_for st stem repo api_base =
     (let allow_env = ota_overrides_allowed st;
          env = (\<lambda>k. if allow_env then st_env st k else None);
          repo' = the (or_str (or_str repo (env ''LOCAI_RELEASES_REPO'')) (Some DEFAULT_RELEASES_REPO));
          base = the (or_str (or_str api_base (env ''LOCAI_RELEASES_API_BASE'')) (Some ''https://api.github.com''))
      in if \<not> allow_env \<and> \<not> startswith base ''https://'' then raise ReleaseNotFound
         else seq (get_checked st (rstrip_char (CHR ''/'') base @ ''/repos/'' @ repo' @ ''/releases/latest'')) (\<lambda>r.
           (case r of
              None \<Rightarrow> raise ReleaseNotFound
            | Some a \<Rightarrow>
                (case st_loads st (hr_text a) of
                   None \<Rightarrow> raise Uncaught
                 | Some payload \<Rightarrow> release_of stem (platform_tag st) payload))))"

section \<open>Download\<close>

definition with_partial :: "apath \<Rightarrow> apath" where
  "with_partial dest = butlast dest @ [last dest @ ''.partial'']"

text \<open>The bytes an attempt finds in the partial file, and the part of them a reply leaves in place.\<close>

definition on_disk :: "apath \<Rightarrow> fs \<Rightarrow> string" where
  "on_disk p fs = (if is_file fs p then the (read_text fs p) else [])"

definition kept_bytes :: "http_reply \<Rightarrow> string \<Rightarrow> string" where
  "kept_bytes a old = (if hr_status a = 206 \<and> old \<noteq> [] then old else [])"

text \<open>
  One attempt.  \<open>Inr True\<close> is a completed body, \<open>Inr False\<close> an exception the loop retries; the
  bytes that arrived before a broken stream are in the partial file.
\<close>

definition download_attempt :: "site \<Rightarrow> string \<Rightarrow> apath \<Rightarrow> bool step" where
  "download_attempt st url partial =
     seq (asks (on_disk partial)) (\<lambda>old.
     seq (http_get st url (length old)) (\<lambda>r.
     (case r of
        None \<Rightarrow> ret False
      | Some a \<Rightarrow>
          if hr_status a \<noteq> 200 \<and> hr_status a \<noteq> 206 then ret False
          else
            (case (case hr_content_length a of None \<Rightarrow> Some 0 | Some s \<Rightarrow> if s = [] then Some 0 else py_int s) of
               None \<Rightarrow> raise Uncaught
             | Some _ \<Rightarrow>
                 seq (change (\<lambda>fs. write_text fs partial (kept_bytes a old @ concat (hr_chunks a)))) (\<lambda>_.
                 ret (\<not> hr_broken a))))))"

fun download_loop :: "site \<Rightarrow> string \<Rightarrow> apath \<Rightarrow> nat \<Rightarrow> apath step" where
  "download_loop st url dest 0 = raise DownloadFailed"
| "download_loop st url dest (Suc n) =
     seq (download_attempt st url (with_partial dest)) (\<lambda>ok.
     if ok then seq (change (\<lambda>fs. os_replace fs (with_partial dest) dest)) (\<lambda>_. ret dest)
     else download_loop st url dest n)"

definition download :: "site \<Rightarrow> string \<Rightarrow> apath \<Rightarrow> apath step" where
  "download st url dest =
     seq (change (\<lambda>fs. mkdirs fs (butlast dest))) (\<lambda>_. download_loop st url dest 3)"

section \<open>Verify\<close>

definition is_hex :: "char \<Rightarrow> bool" where
  "is_hex c = (is_digit c \<or> (let n = of_char (lower_char c) :: nat in 97 \<le> n \<and> n \<le> 102))"

definition is_digest :: "string \<Rightarrow> bool" where
  "is_digest s = (length s = 64 \<and> list_all is_hex s)"

definition fetch_sha256 :: "site \<Rightarrow> string \<Rightarrow> string step" where
  "fetch_sha256 st url =
     seq (get_checked st url) (\<lambda>r.
     (case r of
        None \<Rightarrow> raise VerifyFailed
      | Some a \<Rightarrow>
          let body = py_strip (hr_text a) in
          if body = [] then raise VerifyFailed
          else (case split_ws body of
                  [] \<Rightarrow> raise VerifyFailed
                | tok # _ \<Rightarrow> if is_digest tok then ret tok else raise VerifyFailed)))"

text \<open>\<open>str.splitlines\<close>: the line boundaries below code point 256.\<close>

definition is_line_break :: "char \<Rightarrow> bool" where
  "is_line_break c = (let n = of_char c :: nat in (10 \<le> n \<and> n \<le> 13) \<or> (28 \<le> n \<and> n \<le> 30) \<or> n = 133)"

fun line_words_acc :: "string \<Rightarrow> string \<Rightarrow> string list list" where
  "line_words_acc w [] = [split_ws (rev w)]"
| "line_words_acc w (x # xs) =
     (if is_line_break x then split_ws (rev w) # line_words_acc [] xs else line_words_acc (x # w) xs)"

text \<open>The words of each line; the empty lines a pair \<open>\r\n\<close> adds have no words.\<close>

definition line_words :: "string \<Rightarrow> string list list" where
  "line_words s = line_words_acc [] s"

definition checksum_name :: "string \<Rightarrow> string" where
  "checksum_name tok = (let s = lstrip_char (CHR ''*'') tok in if startswith s ''./'' then drop 2 s else s)"

fun find_checksum :: "string \<Rightarrow> string list list \<Rightarrow> string option" where
  "find_checksum asset [] = None"
| "find_checksum asset (toks # lines) =
     (if length toks < 2 then find_checksum asset lines
      else if checksum_name (last toks) = asset \<and> is_digest (hd toks) then Some (hd toks)
      else find_checksum asset lines)"

definition sha256_from_checksums :: "site \<Rightarrow> string \<Rightarrow> string \<Rightarrow> string step" where
  "sha256_from_checksums st url asset =
     seq (get_checked st url) (\<lambda>r.
     (case r of
        None \<Rightarrow> raise VerifyFailed
      | Some a \<Rightarrow>
          (case find_checksum asset (line_words (hr_text a)) of
             None \<Rightarrow> raise VerifyFailed
           | Some d \<Rightarrow> ret d)))"

definition hash_sha256 :: "site \<Rightarrow> apath \<Rightarrow> string step" where
  "hash_sha256 st p =
     seq (asks (\<lambda>fs. read_text fs p)) (\<lambda>c.
     (case c of None \<Rightarrow> raise Uncaught | Some bytes \<Rightarrow> ret (st_sha256 st bytes)))"

text \<open>The result of \<open>verify\<close> is the digest it compared with, for the properties to speak of.\<close>

definition verify :: "site \<Rightarrow> apath \<Rightarrow> string option \<Rightarrow> string option \<Rightarrow> string step" where
  "verify st p expected url =
     (if expected = None \<and> url = None then raise VerifyFailed
      else seq (case expected of Some d \<Rightarrow> ret d
                | None \<Rightarrow> fetch_sha256 st (case url of None \<Rightarrow> [] | Some u \<Rightarrow> u)) (\<lambda>d.
           seq (hash_sha256 st p) (\<lambda>actual.
           seq (ensure (py_lower actual = py_lower d) VerifyFailed) (\<lambda>_. ret d))))"

text \<open>
  The choice of \<open>swap_bundle\<close>: the release-wide \<open>checksums.txt\<close> when the release has one and it
  lists the asset, else the sidecar of the asset.
\<close>

definition verify_release :: "site \<Rightarrow> release_info \<Rightarrow> apath \<Rightarrow> string step" where
  "verify_release st rel archive =
     seq (case ri_checksums_url rel of
            None \<Rightarrow> ret None
          | Some u \<Rightarrow>
              if u = [] then ret None
              else handle VerifyFailed
                     (seq (sha256_from_checksums st u (ri_asset_name rel)) (\<lambda>d. ret (Some d)))
                     (ret None)) (\<lambda>expected.
     (case expected of
        Some d \<Rightarrow> if d \<noteq> [] then verify st archive (Some d) None else verify st archive None (ri_sha256_url rel)
      | None \<Rightarrow> verify st archive None (ri_sha256_url rel)))"

section \<open>Where a production device looks for releases\<close>

lemma seq_log:
  assumes "\<And>x h. h_log (snd (k x h)) = h_log h"
  shows "h_log (snd (seq m k h)) = h_log (snd (m h))"
  by (cases "m h") (auto simp: seq_def assms split: sum.splits)

lemma silent_steps [simp]:
  "h_log (snd (ret x h)) = h_log h" "h_log (snd (raise e h)) = h_log h"
  "h_log (snd (ensure b e h)) = h_log h" "h_log (snd (of_py r h)) = h_log h"
  by (simp_all add: ret_def raise_def ensure_def) (cases r; simp add: ret_def raise_def)

lemma release_of_log: "h_log (snd (release_of stem ptag payload h)) = h_log h"
  unfolding release_of_def Let_def
  by (simp add: seq_log split: prod.splits option.splits)

lemma get_checked_log: "h_log (snd (get_checked st url h)) = h_log h @ [url]"
  by (simp add: get_checked_def seq_log) (simp add: http_get_def)

text \<open>
  C19. A production bundle cannot be redirected: on a frozen installation without the explicit
  opt-in, the lookup of the latest release sends exactly one request, to the releases API of
  the official repository over https, whatever the other environment variables say, and its result does
  not depend on them either.
\<close>

theorem production_release_source:
  assumes "st_frozen st" "\<not> env_set st ''LOCAI_ALLOW_OTA_OVERRIDES''"
  shows "h_log (snd (latest_release_for st stem None None h)) =
           h_log h @ [''https://api.github.com/repos/locai-co-uk/locai-link/releases/latest''] \<and>
         (env' ''LOCAI_ALLOW_OTA_OVERRIDES'' = None \<longrightarrow>
            latest_release_for (st\<lparr>st_env := env'\<rparr>) stem None None h = latest_release_for st stem None None h)"
proof
  let ?url = "''https://api.github.com/repos/locai-co-uk/locai-link/releases/latest''"
  have plain: "latest_release_for st' stem None None =
      seq (get_checked st' ?url) (\<lambda>r. case r of None \<Rightarrow> raise ReleaseNotFound
        | Some a \<Rightarrow> (case st_loads st' (hr_text a) of None \<Rightarrow> raise Uncaught
                     | Some payload \<Rightarrow> release_of stem (platform_tag st') payload))"
    if "st_frozen st'" "\<not> env_set st' ''LOCAI_ALLOW_OTA_OVERRIDES''" for st' :: site
    using that by (simp add: latest_release_for_def ota_overrides_allowed_def or_str_def
        DEFAULT_RELEASES_REPO_def rstrip_char_def Let_def)
  show "h_log (snd (latest_release_for st stem None None h)) = h_log h @ [?url]"
    unfolding plain [OF assms]
    by (subst seq_log) (simp_all add: get_checked_log release_of_log split: option.splits)
  show "env' ''LOCAI_ALLOW_OTA_OVERRIDES'' = None \<longrightarrow>
          latest_release_for (st\<lparr>st_env := env'\<rparr>) stem None None h = latest_release_for st stem None None h"
  proof
    assume "env' ''LOCAI_ALLOW_OTA_OVERRIDES'' = None"
    then have e: "\<not> env_set (st\<lparr>st_env := env'\<rparr>) ''LOCAI_ALLOW_OTA_OVERRIDES''" by (simp add: env_set_def)
    have f: "st_frozen (st\<lparr>st_env := env'\<rparr>)" using assms(1) by simp
    have same: "get_checked (st\<lparr>st_env := env'\<rparr>) = get_checked st"
      "platform_tag (st\<lparr>st_env := env'\<rparr>) = platform_tag st" "st_loads (st\<lparr>st_env := env'\<rparr>) = st_loads st"
      by (simp_all add: get_checked_def [abs_def] http_get_def [abs_def] platform_tag_def)
    have "latest_release_for (st\<lparr>st_env := env'\<rparr>) stem None None = latest_release_for st stem None None"
      unfolding plain [OF f e] plain [OF assms] same ..
    then show "latest_release_for (st\<lparr>st_env := env'\<rparr>) stem None None h = latest_release_for st stem None None h"
      by simp
  qed
qed

definition sample_site :: site where
  "sample_site =
     \<lparr>st_frozen = True, st_platform = ''linux'', st_machine = ''x86_64'', st_executable = [''r'', ''exe''],
      st_home = [''home''],
      st_env = (\<lambda>k. if k = ''LOCAI_RELEASES_API_BASE'' then Some ''http://evil'' else None),
      st_get = (\<lambda>n url start. None), st_loads = (\<lambda>s. None), st_sha256 = (\<lambda>s. s),
      st_untar = (\<lambda>s. None), st_unzip = (\<lambda>s. None), st_self_check = (\<lambda>p. Exited 0),
      st_codesign = (\<lambda>p. Exited 0), st_locked = (\<lambda>p. False)\<rparr>"

definition sample_host :: host where
  "sample_host = \<lparr>h_fs = [], h_log = [], h_now = 0, h_relaunched = []\<rparr>"

theorem production_release_source_witness:
  "h_log (snd (latest_release_for sample_site ''locai-link'' None None sample_host)) =
     [''https://api.github.com/repos/locai-co-uk/locai-link/releases/latest'']"
proof -
  have "st_frozen sample_site" "\<not> env_set sample_site ''LOCAI_ALLOW_OTA_OVERRIDES''" "h_log sample_host = []"
    by (simp_all add: sample_site_def env_set_def sample_host_def)
  from production_release_source [OF this(1,2), THEN conjunct1, of "''locai-link''" sample_host] this(3)
  show ?thesis by simp
qed

section \<open>A download that is resumed\<close>

text \<open>
  A server that follows the HTTP specification for one body: 200 delivers it from the start, 206 from
  the requested offset, a broken stream delivers a prefix of that; lengths are numbers.
\<close>

definition delivers :: "string \<Rightarrow> http_reply \<Rightarrow> bool" where
  "delivers expect a =
     (if hr_broken a then prefix (concat (hr_chunks a)) expect else concat (hr_chunks a) = expect)"

definition good_length :: "http_reply \<Rightarrow> bool" where
  "good_length a = (case hr_content_length a of None \<Rightarrow> True | Some s \<Rightarrow> s = [] \<or> py_int s \<noteq> None)"

definition serves :: "site \<Rightarrow> string \<Rightarrow> string \<Rightarrow> bool" where
  "serves st url content =
     (\<forall>n start a. st_get st n url start = Some a \<longrightarrow>
        (hr_status a = 200 \<longrightarrow> delivers content a) \<and>
        (hr_status a = 206 \<longrightarrow> delivers (drop start content) a) \<and> good_length a)"

text \<open>The destination and its partial file are not directories or links, and the partial is a prefix of the body.\<close>

definition resumable :: "apath \<Rightarrow> string \<Rightarrow> string \<Rightarrow> fs \<Rightarrow> bool" where
  "resumable D c content fs =
     (canonical fs D \<and> c \<noteq> ''..'' \<and> c \<noteq> [] \<and>
      \<not> is_dir_entry (node fs (D @ [c])) \<and> \<not> is_link_entry (node fs (D @ [c])) \<and>
      (case node fs (D @ [c @ ''.partial'']) of
         None \<Rightarrow> True | Some (EFile s) \<Rightarrow> prefix s content | _ \<Rightarrow> False))"

lemma partial_name: "c \<noteq> [] \<Longrightarrow> c @ ''.partial'' \<noteq> ''..'' \<and> c @ ''.partial'' \<noteq> c"
  by (cases c) auto

lemma resumable_lookup:
  assumes "resumable D c content fs"
  defines "p \<equiv> D @ [c @ ''.partial'']"
  shows "realpath fs p = Some p" "stat fs p = node fs p" "lpath fs p = Some p" "lpath fs (D @ [c]) = Some (D @ [c])"
    "node fs p = None \<or> (\<exists>s. node fs p = Some (EFile s) \<and> prefix s content)"
proof -
  from assms show "node fs p = None \<or> (\<exists>s. node fs p = Some (EFile s) \<and> prefix s content)"
    by (auto simp: resumable_def split: option.splits entry.splits)
  then have "\<not> is_link_entry (node fs p)" by auto
  moreover from assms have "canonical fs D" "c @ ''.partial'' \<noteq> ''..''" "c \<noteq> ''..''"
    by (auto simp: resumable_def partial_name)
  ultimately show "realpath fs p = Some p" "stat fs p = node fs p" "lpath fs p = Some p"
    "lpath fs (D @ [c]) = Some (D @ [c])"
    by (simp_all add: p_def canonical_lookup)
qed

lemma with_partial_snoc [simp]: "with_partial (D @ [c]) = D @ [c @ ''.partial'']"
  by (simp add: with_partial_def)

lemma resumable_put:
  assumes "resumable D c content fs" "prefix s content"
  shows "resumable D c content (put (D @ [c @ ''.partial'']) (EFile s) fs)"
  using assms partial_name [of c] same_outside_canonical [OF same_outside_put [OF strict_prefix_snoc]]
  by (auto simp: resumable_def node_put)

lemma on_disk_prefix: "resumable D c content fs \<Longrightarrow> prefix (on_disk (D @ [c @ ''.partial'']) fs) content"
  using resumable_lookup(2,5) [of D c content fs] by (auto simp: on_disk_def is_file_def read_text_def)

lemma prefix_drop_append:
  assumes "prefix s content" "prefix t (drop (length s) content)" shows "prefix (s @ t) content"
  using assms by (auto simp: prefix_def)

lemma attempt_bytes:
  assumes "serves st url content" "st_get st n url (length old) = Some a" "prefix old content"
    "hr_status a = 200 \<or> hr_status a = 206"
  shows "prefix (kept_bytes a old @ concat (hr_chunks a)) content \<and>
         (\<not> hr_broken a \<longrightarrow> kept_bytes a old @ concat (hr_chunks a) = content) \<and> good_length a"
proof -
  from assms(1,2) have d: "hr_status a = 200 \<Longrightarrow> delivers content a"
    "hr_status a = 206 \<Longrightarrow> delivers (drop (length old) content) a" "good_length a"
    unfolding serves_def by blast+
  from assms(3) obtain rest where "content = old @ rest" by (auto simp: prefix_def)
  with d assms(4) show ?thesis
    by (cases "old = []") (auto simp: delivers_def kept_bytes_def split: if_splits)
qed

text \<open>The request in position \<open>n\<close> is answered in full, whatever the offset.\<close>

definition completes :: "site \<Rightarrow> string \<Rightarrow> nat \<Rightarrow> bool" where
  "completes st url n = (\<forall>start. \<exists>a. st_get st n url start = Some a \<and> hr_status a \<in> {200, 206} \<and> \<not> hr_broken a)"

lemma attempt_steps:
  assumes "resumable D c content (h_fs h)" "serves st url content"
  shows "\<exists>ok h1. download_attempt st url (D @ [c @ ''.partial'']) h = (Inr ok, h1) \<and>
     resumable D c content (h_fs h1) \<and> h_log h1 = h_log h @ [url] \<and>
     (ok \<longrightarrow> node (h_fs h1) (D @ [c @ ''.partial'']) = Some (EFile content)) \<and>
     (completes st url (length (h_log h)) \<longrightarrow> ok)"
proof -
  let ?p = "D @ [c @ ''.partial'']" and ?fs = "h_fs h"
  let ?old = "on_disk ?p ?fs" and ?n = "length (h_log h)"
  let ?h = "h\<lparr>h_log := h_log h @ [url]\<rparr>"
  note look = resumable_lookup [OF assms(1)]
  show ?thesis
  proof (cases "\<exists>a. st_get st ?n url (length ?old) = Some a \<and> hr_status a \<in> {200, 206}")
    case False
    then have "download_attempt st url ?p h = (Inr False, ?h)"
      by (auto simp: download_attempt_def seq_def asks_def http_get_def ret_def split: option.splits)
    moreover have "\<not> completes st url ?n" using False unfolding completes_def by blast
    ultimately show ?thesis using assms(1) by auto
  next
    case True
    then obtain a where a: "st_get st ?n url (length ?old) = Some a" "hr_status a = 200 \<or> hr_status a = 206" by auto
    let ?new = "kept_bytes a ?old @ concat (hr_chunks a)" and ?fs1 = "put ?p (EFile (kept_bytes a ?old @ concat (hr_chunks a))) ?fs"
    from attempt_bytes [OF assms(2) a(1) on_disk_prefix [OF assms(1)] a(2)]
    have new: "prefix ?new content" "\<not> hr_broken a \<Longrightarrow> ?new = content" and len: "good_length a" by auto
    have "is_dir_entry (node ?fs D)" using assms(1) by (simp add: resumable_def canonical_node)
    with look have "write_text ?fs ?p ?new = Some ?fs1"
      by (auto simp: write_text_def)
    with a len have "download_attempt st url ?p h = (Inr (\<not> hr_broken a), ?h\<lparr>h_fs := ?fs1\<rparr>)"
      by (auto simp: download_attempt_def seq_def asks_def http_get_def ret_def change_or_def
          good_length_def split: option.splits)
    moreover have "completes st url ?n \<Longrightarrow> \<not> hr_broken a" using a(1) unfolding completes_def by (metis option.inject)
    ultimately show ?thesis using resumable_put [OF assms(1) new(1)] new(2) by (auto simp: node_put)
  qed
qed

lemma publish_partial:
  assumes "resumable D c content fs" "node fs (D @ [c @ ''.partial'']) = Some (EFile content)"
  shows "\<exists>fs'. os_replace fs (D @ [c @ ''.partial'']) (D @ [c]) = Some fs' \<and> read_text fs' (D @ [c]) = Some content"
proof -
  let ?p = "D @ [c @ ''.partial'']" and ?q = "D @ [c]"
  let ?fs = "graft ?p ?q fs @ drop_tree ?p (drop_tree ?q fs)"
  note look = resumable_lookup [OF assms(1)]
  from assms(1) partial_name [of c] have np: "\<not> prefix ?p ?q" "\<not> prefix ?q ?p" "c \<noteq> ''..''" by (auto simp: resumable_def)
  from assms(1) have "\<not> is_dir_entry (node fs ?q)" by (simp add: resumable_def)
  with assms(2) look(3,4) np(1,2) have rep: "os_replace fs ?p ?q = Some ?fs"
    by (simp add: os_replace_def)
  have n: "node ?fs ?q = Some (EFile content)"
    using np assms(2) by (simp add: node_moved)
  have "same_outside D fs ?fs" by (rule same_outside_move) (use np in simp_all)
  with assms(1) have "canonical ?fs D" by (auto simp: resumable_def intro: same_outside_canonical)
  with n np have "read_text ?fs ?q = Some content" by (simp add: read_text_def stat_plain)
  with rep show ?thesis by blast
qed

lemma download_loop_delivers:
  assumes "resumable D c content (h_fs h)" "serves st url content" "k < n" "completes st url (length (h_log h) + k)"
  shows "\<exists>h1. download_loop st url (D @ [c]) n h = (Inr (D @ [c]), h1) \<and> read_text (h_fs h1) (D @ [c]) = Some content"
  using assms
proof (induction n arbitrary: h k)
  case (Suc n)
  from attempt_steps [OF Suc.prems(1,2)] obtain ok h1 where
    att: "download_attempt st url (D @ [c @ ''.partial'']) h = (Inr ok, h1)" "resumable D c content (h_fs h1)"
      "h_log h1 = h_log h @ [url]" "ok \<Longrightarrow> node (h_fs h1) (D @ [c @ ''.partial'']) = Some (EFile content)"
      "completes st url (length (h_log h)) \<Longrightarrow> ok"
    by blast
  show ?case
  proof (cases ok)
    case True
    with att publish_partial [OF att(2) att(4)] show ?thesis
      by (auto simp: seq_def change_or_def ret_def)
  next
    case False
    with att(5) Suc.prems(3,4) obtain j where "k = Suc j" by (cases k) auto
    with Suc.prems Suc.IH [OF att(2) Suc.prems(2), of j] att(1,3) False show ?thesis by (simp add: seq_def)
  qed
qed simp


definition partial_reply :: "nat \<Rightarrow> string \<Rightarrow> http_reply" where
  "partial_reply start body =
     \<lparr>hr_status = 206, hr_content_length = None, hr_chunks = [drop start body], hr_broken = False\<rparr>"

definition resume_site :: site where
  "resume_site = sample_site\<lparr>st_get := \<lambda>n url start. if n = 0 then None else Some (partial_reply start ''abcd'')\<rparr>"

definition strict_site :: site where
  "strict_site = sample_site\<lparr>st_get := \<lambda>n url start. Some
     (if 4 \<le> start then (partial_reply start ''abcd'')\<lparr>hr_status := 416\<rparr> else partial_reply start ''abcd'')\<rparr>"

definition resume_host :: "string \<Rightarrow> host" where
  "resume_host left = sample_host\<lparr>h_fs := [([''r''], EDir 0), ([''r'', ''x.partial''], EFile left)]\<rparr>"

lemma resume_host_resumable: "prefix left ''abcd'' \<Longrightarrow> resumable [''r''] ''x'' ''abcd'' (h_fs (resume_host left))"
  using canonical_Snoc [of "h_fs (resume_host left)" "[]" "''r''"]
  by (simp add: resumable_def resume_host_def node_def)


section \<open>A partial file that is already complete\<close>

lemma refused_loop:
  assumes "\<And>n a. st_get st n url (length (on_disk (with_partial dest) (h_fs h))) = Some a \<Longrightarrow>
             hr_status a \<noteq> 200 \<and> hr_status a \<noteq> 206"
  shows "\<exists>h1. download_loop st url dest k h = (Inl DownloadFailed, h1) \<and> h_fs h1 = h_fs h"
  using assms
proof (induction k arbitrary: h)
  case (Suc k)
  let ?h = "h\<lparr>h_log := h_log h @ [url]\<rparr>"
  have "download_attempt st url (with_partial dest) h = (Inr False, ?h)"
    using Suc.prems by (auto simp: download_attempt_def seq_def asks_def http_get_def ret_def split: option.splits)
  with Suc.IH [of ?h] Suc.prems show ?case by (simp add: seq_def)
qed (simp add: raise_def)

text \<open>
  A partial file that already holds the whole body blocks every later download of it: the
  range request then starts at the end of the body, a server that follows HTTP answers 416, every
  attempt fails the same way, and the partial file is left as it was, so the next run meets the
  same state.  (A stream that breaks after its last byte, or a crash before the rename, leaves
  such a file.)
\<close>

lemma complete_partial_blocks:
  assumes "resumable D c content (h_fs h)" "node (h_fs h) (D @ [c @ ''.partial'']) = Some (EFile content)"
    and "\<forall>n a. st_get st n url (length content) = Some a \<longrightarrow> hr_status a = 416"
  shows "\<exists>h1. download st url (D @ [c]) h = (Inl DownloadFailed, h1) \<and> h_fs h1 = h_fs h"
proof -
  have "mkdirs (h_fs h) D = Some (h_fs h)"
    using mkdirs_canonical [of "h_fs h" D "[]"] assms(1) by (simp add: resumable_def)
  moreover have "on_disk (D @ [c @ ''.partial'']) (h_fs h) = content"
    using assms(2) resumable_lookup(2) [OF assms(1)] by (simp add: on_disk_def is_file_def read_text_def)
  ultimately show ?thesis
    using refused_loop [of st url "D @ [c]" h 3] assms(3) by (simp add: download_def seq_def change_or_def)
qed

lemma complete_partial_blocks_witness:
  "\<exists>h1. download strict_site ''u'' ([''r''] @ [''x'']) (resume_host ''abcd'') = (Inl DownloadFailed, h1) \<and>
        h_fs h1 = h_fs (resume_host ''abcd'')"
proof (rule complete_partial_blocks [OF resume_host_resumable])
  show "node (h_fs (resume_host ''abcd'')) ([''r''] @ [''x'' @ ''.partial'']) = Some (EFile ''abcd'')"
    by (simp add: resume_host_def node_def)
  show "\<forall>n a. st_get strict_site n ''u'' (length ''abcd'') = Some a \<longrightarrow> hr_status a = 416"
    by (simp add: strict_site_def)
qed simp

section \<open>What verify accepts\<close>

text \<open>A digest the release publishes for an asset: in a line of a checksum file, or alone in its sidecar.\<close>

definition published :: "site \<Rightarrow> string \<Rightarrow> string \<Rightarrow> bool" where
  "published st asset d =
     (is_digest d \<and> (\<exists>a. served st a \<and>
        ((\<exists>l \<in> set (line_words (hr_text a)). 2 \<le> length l \<and> checksum_name (last l) = asset \<and> hd l = d) \<or>
         (\<exists>rest. split_ws (py_strip (hr_text a)) = d # rest))))"

lemma find_checksum_Some:
  "find_checksum asset ls = Some d \<Longrightarrow>
   is_digest d \<and> (\<exists>l \<in> set ls. 2 \<le> length l \<and> checksum_name (last l) = asset \<and> hd l = d)"
  by (induction ls) (auto split: if_splits)

lemma publishedI:
  "served st a \<Longrightarrow> find_checksum asset (line_words (hr_text a)) = Some d \<Longrightarrow> published st asset d"
  "served st a \<Longrightarrow> is_digest d \<Longrightarrow> split_ws (py_strip (hr_text a)) = d # rest \<Longrightarrow> published st asset d"
  unfolding published_def using find_checksum_Some by blast+

lemma sha256_from_checksums_triple:
  "triple (on_fs P) (sha256_from_checksums st url asset) (published st asset)"
  unfolding sha256_from_checksums_def
  by (rule triple_seq [OF triple_get_checked])
    (auto intro!: triple_rules intro: publishedI split: option.splits)

lemma fetch_sha256_triple: "triple (on_fs P) (fetch_sha256 st url) (published st asset)"
  unfolding fetch_sha256_def
  by (rule triple_seq [OF triple_get_checked])
    (auto intro!: triple_rules intro: publishedI simp: Let_def split: option.splits list.splits)

definition hashes_to :: "site \<Rightarrow> fs \<Rightarrow> apath \<Rightarrow> string \<Rightarrow> bool" where
  "hashes_to st fs p d = (\<exists>bytes. read_text fs p = Some bytes \<and> py_lower (st_sha256 st bytes) = py_lower d)"

lemma hash_sha256_triple:
  "triple (on_fs (\<lambda>fs. fs = fs0)) (hash_sha256 st p)
     (\<lambda>x. \<exists>bytes. read_text fs0 p = Some bytes \<and> x = st_sha256 st bytes)"
  unfolding hash_sha256_def
  by (rule triple_seq [OF triple_asks [where Q = "\<lambda>c. c = read_text fs0 p"]])
    (auto simp: on_fs_def intro!: triple_rules split: option.splits)

lemma verify_triple:
  assumes "\<And>d. expected = Some d \<Longrightarrow> published st asset d"
  shows "triple (on_fs (\<lambda>fs. fs = fs0)) (verify st p expected url) (\<lambda>d. published st asset d \<and> hashes_to st fs0 p d)"
proof -
  have digest: "triple (on_fs (\<lambda>fs. fs = fs0))
     (case expected of Some d \<Rightarrow> ret d | None \<Rightarrow> fetch_sha256 st (case url of None \<Rightarrow> [] | Some u \<Rightarrow> u)) (published st asset)"
    using assms fetch_sha256_triple by (cases expected) (auto intro: triple_ret)
  show ?thesis
    unfolding verify_def
    by (auto intro!: triple_raise triple_seq [OF digest] triple_seq [OF hash_sha256_triple]
        triple_seq [OF triple_ensure [where Q = "\<lambda>_. py_lower _ = py_lower _"]] triple_ret simp: hashes_to_def)
qed

lemma verify_release_triple:
  "triple (on_fs (\<lambda>fs. fs = fs0)) (verify_release st rel archive)
     (\<lambda>d. published st (ri_asset_name rel) d \<and> hashes_to st fs0 archive d)"
proof -
  let ?Q = "\<lambda>e. \<forall>d. e = Some d \<longrightarrow> published st (ri_asset_name rel) d"
  have "triple (on_fs (\<lambda>fs. fs = fs0))
     (handle VerifyFailed (seq (sha256_from_checksums st u (ri_asset_name rel)) (\<lambda>d. ret (Some d))) (ret None)) ?Q" for u
    by (rule triple_handle) (auto intro!: triple_seq [OF sha256_from_checksums_triple] triple_ret)
  then have "triple (on_fs (\<lambda>fs. fs = fs0))
     (case ri_checksums_url rel of None \<Rightarrow> ret None
      | Some u \<Rightarrow> if u = [] then ret None
          else handle VerifyFailed (seq (sha256_from_checksums st u (ri_asset_name rel)) (\<lambda>d. ret (Some d))) (ret None)) ?Q"
    by (auto intro: triple_ret split: option.splits)
  then show ?thesis
    unfolding verify_release_def
    by (rule triple_seq) (auto intro!: verify_triple split: option.splits)
qed

end
