(* ===== verification/Bundle.thy ===== *)
theory Bundle
  imports Updater Urls
begin

text \<open>
  \<open>app/updater.py\<close>, second half: the installation on disk.  An installation root holds one
  directory per version under \<open>versions\<close>, and two pointers, \<open>current\<close> and \<open>previous\<close>, each either a
  symbolic link or a small text file.  \<open>swap_bundle\<close> is the whole update: fetch, check, unpack, probe,
  flip the pointers, clean up.

  The lemmas on \<open>write_pointer\<close> describe the slots of the root directory after a pointer was written;
  the pointer protocol is then refined to the abstract pair of versions (\<open>abs_flip\<close>).
\<close>

section \<open>Layout\<close>

definition VERSIONS_DIR :: string where "VERSIONS_DIR = ''versions''"
definition STAGING_DIR :: string where "STAGING_DIR = ''staging''"
definition CURRENT_LINK :: string where "CURRENT_LINK = ''current''"
definition PREVIOUS_LINK :: string where "PREVIOUS_LINK = ''previous''"
definition CURRENT_POINTER_FILE :: string where "CURRENT_POINTER_FILE = ''CURRENT''"
definition PREVIOUS_POINTER_FILE :: string where "PREVIOUS_POINTER_FILE = ''PREVIOUS''"
definition UPDATE_PENDING_STAMP :: string where "UPDATE_PENDING_STAMP = ''.update-pending''"

lemmas layout_names = VERSIONS_DIR_def STAGING_DIR_def CURRENT_LINK_def PREVIOUS_LINK_def
  CURRENT_POINTER_FILE_def PREVIOUS_POINTER_FILE_def UPDATE_PENDING_STAMP_def

definition RUNTIME_BINARY :: "site \<Rightarrow> string" where
  "RUNTIME_BINARY st = (if st_platform st = ''win32'' then ''locai-link-runtime.exe'' else ''locai-link-runtime'')"

text \<open>\<open>p / s\<close> on absolute paths.\<close>

definition join :: "apath \<Rightarrow> string \<Rightarrow> apath" where
  "join p s = (if startswith s ''/'' then path_parts s else p @ path_parts s)"

record manifest =
  mf_manifest_version :: int
  mf_asset_name :: string
  mf_version :: string
  mf_git_sha :: string
  mf_built_at :: string
  mf_plugins :: "json list"
  mf_apps :: "(string, string) dict"

definition is_root_dir :: "fs \<Rightarrow> apath \<Rightarrow> bool" where
  "is_root_dir fs d =
     (path_exists fs (d @ [CURRENT_LINK]) \<or> is_file fs (d @ [CURRENT_POINTER_FILE]) \<or> is_dir fs (d @ [VERSIONS_DIR]))"

definition discover_install_root :: "site \<Rightarrow> apath step" where
  "discover_install_root st =
     seq (asks (\<lambda>fs.
       let start = st_executable st; here = (if is_dir fs start then start else butlast start) in
       find (is_root_dir fs) (rev (prefixes here)))) (\<lambda>r.
     (case r of None \<Rightarrow> raise InstallRootNotFound | Some d \<Rightarrow> ret d))"

section \<open>Pointers\<close>

definition resolve_pointer :: "fs \<Rightarrow> apath \<Rightarrow> string \<Rightarrow> string \<Rightarrow> apath option" where
  "resolve_pointer fs root link_name file_name =
     (let link = root @ [link_name]; pointer = root @ [file_name] in
      case (if is_symlink fs link \<or> is_dir fs link
            then (case realpath fs link of
                    None \<Rightarrow> None
                  | Some q \<Rightarrow> if is_dir_entry (node fs q) then Some q else None)
            else None) of
        Some q \<Rightarrow> Some q
      | None \<Rightarrow>
          (if is_file fs pointer
           then (let target = join (root @ [VERSIONS_DIR]) (py_strip (the (read_text fs pointer))) in
                 if is_dir fs target then Some target else None)
           else None))"

definition resolve_current :: "fs \<Rightarrow> apath \<Rightarrow> apath option" where
  "resolve_current fs root = resolve_pointer fs root CURRENT_LINK CURRENT_POINTER_FILE"

definition install_uses_symlink :: "site \<Rightarrow> fs \<Rightarrow> apath \<Rightarrow> bool" where
  "install_uses_symlink st fs root =
     (if is_symlink fs (root @ [CURRENT_LINK]) then True
      else if is_file fs (root @ [CURRENT_POINTER_FILE]) then False
      else st_platform st \<noteq> ''win32'')"

definition read_pointer_version :: "fs \<Rightarrow> apath \<Rightarrow> string \<Rightarrow> string \<Rightarrow> string option" where
  "read_pointer_version fs root link_name file_name =
     (if is_symlink fs (root @ [link_name])
      then Some (path_name (path_of (the (readlink fs (root @ [link_name])))))
      else if is_file fs (root @ [file_name])
      then (let s = py_strip (the (read_text fs (root @ [file_name]))) in if s = [] then None else Some s)
      else None)"

definition unlink_stale :: "apath \<Rightarrow> fs \<Rightarrow> fs option" where
  "unlink_stale p fs = (if path_exists fs p \<or> is_symlink fs p then unlink fs p else Some fs)"

definition unlink_file :: "apath \<Rightarrow> fs \<Rightarrow> fs option" where
  "unlink_file p fs = (if is_file fs p then unlink fs p else Some fs)"

definition unlink_link :: "apath \<Rightarrow> fs \<Rightarrow> fs option" where
  "unlink_link p fs = (if is_symlink fs p then unlink fs p else Some fs)"

definition pointer_target :: "string \<Rightarrow> string" where
  "pointer_target version = (if startswith version ''/'' then version else VERSIONS_DIR @ ''/'' @ version)"

text \<open>
  The link is made in a fresh temporary directory first, which is gone when the function returns;
  what stays is the staged link, moved over the pointer.
\<close>

definition write_link :: "apath \<Rightarrow> string \<Rightarrow> string \<Rightarrow> string \<Rightarrow> unit step" where
  "write_link root link_name file_name version =
     (let staged = root @ [''.'' @ link_name @ ''.tmp''] in
      seq (change (unlink_stale staged)) (\<lambda>_.
      seq (change (\<lambda>fs. symlink fs staged (pointer_target version))) (\<lambda>_.
      seq (change (\<lambda>fs. os_replace fs staged (root @ [link_name]))) (\<lambda>_.
      change (unlink_file (root @ [file_name]))))))"

definition write_pointer_file :: "apath \<Rightarrow> string \<Rightarrow> string \<Rightarrow> string \<Rightarrow> unit step" where
  "write_pointer_file root link_name file_name version =
     (let tmp = root @ [file_name @ ''.tmp''] in
      seq (change (\<lambda>fs. write_text fs tmp (version @ [chr_nl]))) (\<lambda>_.
      seq (change (\<lambda>fs. os_replace fs tmp (root @ [file_name]))) (\<lambda>_.
      change (unlink_link (root @ [link_name])))))"

definition write_pointer :: "apath \<Rightarrow> string \<Rightarrow> string \<Rightarrow> string \<Rightarrow> bool \<Rightarrow> unit step" where
  "write_pointer root link_name file_name version use_symlink =
     (if use_symlink then write_link root link_name file_name version
      else write_pointer_file root link_name file_name version)"

definition flip_current :: "site \<Rightarrow> apath \<Rightarrow> string \<Rightarrow> unit step" where
  "flip_current st root new_version =
     seq (asks (\<lambda>fs. is_dir fs (join (root @ [VERSIONS_DIR]) new_version))) (\<lambda>ok.
     seq (ensure ok BundleUpdateError) (\<lambda>_.
     seq (asks (\<lambda>fs. install_uses_symlink st fs root)) (\<lambda>use_symlink.
     seq (asks (\<lambda>fs. read_pointer_version fs root CURRENT_LINK CURRENT_POINTER_FILE)) (\<lambda>old.
     seq (write_pointer root CURRENT_LINK CURRENT_POINTER_FILE new_version use_symlink) (\<lambda>_.
     (case old of
        None \<Rightarrow> ret ()
      | Some o' \<Rightarrow>
          if o' \<noteq> [] \<and> o' \<noteq> new_version
          then write_pointer root PREVIOUS_LINK PREVIOUS_POINTER_FILE o' use_symlink
          else ret ()))))))"

section \<open>Manifest\<close>

text \<open>A missing key is a malformed manifest; any other exception passes through.\<close>

definition required :: "json \<Rightarrow> string \<Rightarrow> json step" where
  "required data k =
     (case subscript data k of
        Inr v \<Rightarrow> ret v
      | Inl (KeyError _) \<Rightarrow> raise ManifestMalformed
      | Inl _ \<Rightarrow> raise Uncaught)"

definition parse_manifest :: "json \<Rightarrow> manifest step" where
  "parse_manifest data =
     seq (required data ''manifest_version'') (\<lambda>mv.
     (case json_int mv of
        None \<Rightarrow> raise Uncaught
      | Some i \<Rightarrow>
     seq (required data ''asset_name'') (\<lambda>an.
     seq (required data ''version'') (\<lambda>v.
     seq (of_py (get_default data ''git_sha'' (JStr []))) (\<lambda>sha.
     seq (of_py (get_default data ''built_at'' (JStr []))) (\<lambda>built.
     seq (of_py (get_default data ''plugins'' (JArr []))) (\<lambda>pl.
     seq (of_py (iterate pl)) (\<lambda>plugins.
     seq (of_py (get_default data ''apps'' JNull)) (\<lambda>apps.
     (case (if truthy apps then apps else JObj []) of
        JObj d \<Rightarrow>
          ret \<lparr>mf_manifest_version = i, mf_asset_name = py_str an, mf_version = py_str v,
               mf_git_sha = py_str sha, mf_built_at = py_str built, mf_plugins = plugins,
               mf_apps = map (\<lambda>(k, x). (k, py_str x)) d\<rparr>
      | _ \<Rightarrow> raise Uncaught))))))))))"

definition read_manifest :: "site \<Rightarrow> apath \<Rightarrow> manifest step" where
  "read_manifest st root =
     seq (asks (\<lambda>fs. resolve_current fs root)) (\<lambda>cur.
     (case cur of
        None \<Rightarrow> raise InstallRootNotFound
      | Some d \<Rightarrow>
          seq (asks (\<lambda>fs. if is_file fs (d @ [''manifest.json'']) then read_text fs (d @ [''manifest.json'']) else None)) (\<lambda>c.
          (case c of
             None \<Rightarrow> raise ManifestMalformed
           | Some text \<Rightarrow>
               (case st_loads st text of
                  None \<Rightarrow> raise ManifestMalformed
                | Some data \<Rightarrow> parse_manifest data)))))"

section \<open>Health check, garbage collection, staging\<close>

definition health_check :: "site \<Rightarrow> fs \<Rightarrow> apath \<Rightarrow> bool" where
  "health_check st fs runtime = (is_file fs runtime \<and> st_self_check st runtime = Exited 0)"

definition mtime :: "fs \<Rightarrow> apath \<Rightarrow> int" where
  "mtime fs p = (case stat fs p of Some (EDir t) \<Rightarrow> t | _ \<Rightarrow> 0)"

text \<open>The versions that may be removed, newest first, and the ones that stay.\<close>

definition gc_candidates :: "fs \<Rightarrow> apath \<Rightarrow> string list" where
  "gc_candidates fs vdir =
     sort_key (\<lambda>n. - mtime fs (vdir @ [n]))
       (filter (\<lambda>n. is_dir fs (vdir @ [n]) \<and> \<not> endswith n ''.tmp'') (iterdir fs vdir))"

fun gc_keepers :: "nat \<Rightarrow> string list \<Rightarrow> string list \<Rightarrow> string list" where
  "gc_keepers keep ks [] = ks"
| "gc_keepers keep ks (c # cs) = (if keep \<le> length ks then ks else gc_keepers keep (List.insert c ks) cs)"

fun gc_remove :: "site \<Rightarrow> apath \<Rightarrow> string list \<Rightarrow> string list \<Rightarrow> fs \<Rightarrow> string list \<times> fs" where
  "gc_remove st vdir ks [] fs = ([], fs)"
| "gc_remove st vdir ks (c # cs) fs =
     (if c \<in> set ks then gc_remove st vdir ks cs fs
      else case (if st_locked st (vdir @ [c]) then None else rmtree fs (vdir @ [c])) of
             None \<Rightarrow> gc_remove st vdir ks cs fs
           | Some fs1 \<Rightarrow> (let (removed, fs2) = gc_remove st vdir ks cs fs1 in (c # removed, fs2)))"

definition opt_list :: "string option \<Rightarrow> string list" where
  "opt_list v = (case v of None \<Rightarrow> [] | Some s \<Rightarrow> if s = [] then [] else [s])"

definition pinned :: "fs \<Rightarrow> apath \<Rightarrow> string list" where
  "pinned fs root =
     remdups (opt_list (read_pointer_version fs root CURRENT_LINK CURRENT_POINTER_FILE) @
              opt_list (read_pointer_version fs root PREVIOUS_LINK PREVIOUS_POINTER_FILE))"

definition gc_old_versions :: "site \<Rightarrow> apath \<Rightarrow> nat \<Rightarrow> fs \<Rightarrow> string list \<times> fs" where
  "gc_old_versions st root keep fs =
     (let vdir = root @ [VERSIONS_DIR] in
      if \<not> is_dir fs vdir then ([], fs)
      else let candidates = gc_candidates fs vdir in
           gc_remove st vdir (gc_keepers keep (pinned fs root) candidates) candidates fs)"

definition gc_step :: "site \<Rightarrow> apath \<Rightarrow> unit step" where
  "gc_step st root h = (Inr (), h\<lparr>h_fs := snd (gc_old_versions st root 2 (h_fs h))\<rparr>)"

definition staging_path :: "apath \<Rightarrow> apath step" where
  "staging_path root =
     seq (change (\<lambda>fs. mkdirs fs (root @ [STAGING_DIR]))) (\<lambda>_. ret (root @ [STAGING_DIR]))"

text \<open>\<open>shutil.rmtree(p, ignore_errors=True)\<close> on a path that exists.\<close>

definition rmtree_quiet :: "apath \<Rightarrow> fs \<Rightarrow> fs option" where
  "rmtree_quiet p fs =
     (if path_exists fs p then (case rmtree fs p of None \<Rightarrow> Some fs | Some fs1 \<Rightarrow> Some fs1) else Some fs)"

definition clear_staging :: "apath \<Rightarrow> unit step" where
  "clear_staging root = change (rmtree_quiet (root @ [STAGING_DIR]))"

section \<open>The payload of a release\<close>

definition extract_to :: "site \<Rightarrow> apath \<Rightarrow> apath \<Rightarrow> unit step" where
  "extract_to st archive dest h =
     (case extract_archive (st_untar st) (st_unzip st) (h_fs h) archive dest of
        (None, fs1) \<Rightarrow> (Inr (), h\<lparr>h_fs := fs1\<rparr>)
      | (Some e, fs1) \<Rightarrow>
          (Inl (if e = UnsafeArchiveEntry \<or> e = UnknownArchiveType then ExtractRefused else Uncaught), h\<lparr>h_fs := fs1\<rparr>))"

definition sub_dirs :: "fs \<Rightarrow> apath \<Rightarrow> apath list" where
  "sub_dirs fs d = filter (is_dir fs) (map (\<lambda>n. d @ [n]) (iterdir fs d))"

definition locate_versioned_payload :: "site \<Rightarrow> apath \<Rightarrow> fs \<Rightarrow> apath option" where
  "locate_versioned_payload st staging fs =
     (let runtimes = map butlast (filter (is_file fs) (rglob fs staging (RUNTIME_BINARY st)));
          versions_dir = staging @ [VERSIONS_DIR] in
      if length runtimes = 1 then Some (hd runtimes)
      else if 1 < length runtimes then None
      else if is_dir fs versions_dir
      then (let children = sub_dirs fs versions_dir in if length children = 1 then Some (hd children) else None)
      else (let top_dirs = sub_dirs fs staging in if length top_dirs = 1 then Some (hd top_dirs) else None))"

definition verify_extracted_macos :: "site \<Rightarrow> apath \<Rightarrow> unit step" where
  "verify_extracted_macos st dir =
     (if st_platform st \<noteq> ''darwin'' then ret ()
      else seq (asks (\<lambda>fs. path_exists fs (dir @ [RUNTIME_BINARY st]))) (\<lambda>there.
           if \<not> there then ret ()
           else ensure (st_codesign st (dir @ [RUNTIME_BINARY st]) = Exited 0) VerifyFailed))"

section \<open>UI apps and leftovers\<close>

definition APP_COMPANION :: string where "APP_COMPANION = ''companion''"

definition ui_app_payload_name :: "site \<Rightarrow> string \<Rightarrow> string option" where
  "ui_app_payload_name st key =
     (if key \<noteq> APP_COMPANION then None
      else if st_platform st = ''darwin'' then Some ''Locai Link.app''
      else if st_platform st = ''win32'' then Some ''companion.exe''
      else Some ''companion'')"

definition ui_app_destinations :: "site \<Rightarrow> string \<Rightarrow> apath \<Rightarrow> apath list" where
  "ui_app_destinations st key root = (if st_platform st = ''darwin'' then [root @ [''Locai Link.app'']] else [])"

definition rm_path :: "apath \<Rightarrow> fs \<Rightarrow> fs option" where
  "rm_path p fs =
     (if is_dir fs p \<and> \<not> is_symlink fs p then rmtree_quiet p fs
      else if path_exists fs p \<or> is_symlink fs p then unlink fs p
      else Some fs)"

definition legacy_targets :: "site \<Rightarrow> apath \<Rightarrow> apath list" where
  "legacy_targets st root =
     (if st_platform st = ''darwin''
      then [root @ [''Setup Assistant.app''], [''Applications'', ''Locai Setup Assistant.app'']]
      else if startswith (st_platform st) ''linux''
      then [root @ [''setup-assistant''],
            st_home st @ [''.local'', ''share'', ''applications'', ''locai-setup-assistant.desktop'']]
      else [])"

definition remove_quietly :: "apath \<Rightarrow> fs \<Rightarrow> fs" where
  "remove_quietly p fs =
     (if path_exists fs p \<or> is_symlink fs p then (case rm_path p fs of None \<Rightarrow> fs | Some fs1 \<Rightarrow> fs1) else fs)"

definition remove_legacy_setup_assistant :: "site \<Rightarrow> apath \<Rightarrow> unit step" where
  "remove_legacy_setup_assistant st root h =
     (Inr (), h\<lparr>h_fs := fold remove_quietly (legacy_targets st root) (h_fs h)\<rparr>)"

text \<open>The shallowest entry of that name.\<close>

definition locate_in_payload :: "fs \<Rightarrow> apath \<Rightarrow> string \<Rightarrow> apath option" where
  "locate_in_payload fs staging name =
     (case sort_key length (rglob fs staging name) of [] \<Rightarrow> None | p # _ \<Rightarrow> Some p)"

text \<open>\<open>shutil.copytree\<close>, \<open>ditto\<close> and \<open>shutil.copy2\<close> onto a name that is free.\<close>

definition copy_onto :: "apath \<Rightarrow> apath \<Rightarrow> fs \<Rightarrow> fs option" where
  "copy_onto src dst fs =
     (case (realpath fs src, lpath fs dst) of
        (Some p, Some q) \<Rightarrow> (if node fs p = None \<or> node fs q \<noteq> None \<or> prefix p q then None else Some (graft p q fs @ fs))
      | _ \<Rightarrow> None)"

definition install_app :: "apath \<Rightarrow> apath \<Rightarrow> unit step" where
  "install_app src dest =
     (let tmp = butlast dest @ [''.'' @ last dest @ ''.new'']; backup = butlast dest @ [''.'' @ last dest @ ''.old''] in
      seq (change (\<lambda>fs. mkdirs fs (butlast dest))) (\<lambda>_.
      seq (change (rm_path tmp)) (\<lambda>_.
      seq (change (copy_onto src tmp)) (\<lambda>_.
      handle Uncaught (change (\<lambda>fs. os_replace fs tmp dest))
        (seq (change (rm_path backup)) (\<lambda>_.
         seq (change (\<lambda>fs. if path_exists fs dest \<or> is_symlink fs dest then os_replace fs dest backup else Some fs)) (\<lambda>_.
         seq (change (\<lambda>fs. os_replace fs tmp dest)) (\<lambda>_. change (rm_path backup)))))))))"

definition verify_app_signature :: "site \<Rightarrow> apath \<Rightarrow> unit step" where
  "verify_app_signature st app =
     (if st_platform st \<noteq> ''darwin'' then ret () else ensure (st_codesign st app = Exited 0) Uncaught)"

text \<open>\<open>_harden_swapped_app\<close>: stripping the quarantine attribute leaves the entries as they are.\<close>

definition harden_swapped_app :: "site \<Rightarrow> apath \<Rightarrow> unit step" where
  "harden_swapped_app st dest = verify_app_signature st dest"

text \<open>\<open>try\<close> one destination; the result says whether it worked.\<close>

definition attempt :: "unit step \<Rightarrow> bool step" where
  "attempt m h = (case m h of (Inl _, h1) \<Rightarrow> (Inr False, h1) | (Inr _, h1) \<Rightarrow> (Inr True, h1))"

fun install_all :: "site \<Rightarrow> apath \<Rightarrow> apath list \<Rightarrow> bool step" where
  "install_all st src [] = ret False"
| "install_all st src (d # ds) =
     seq (attempt (seq (install_app src d) (\<lambda>_. harden_swapped_app st d))) (\<lambda>ok.
     seq (install_all st src ds) (\<lambda>oks. ret (ok \<or> oks)))"

definition swap_ui_app :: "site \<Rightarrow> apath \<Rightarrow> apath \<Rightarrow> string \<Rightarrow> bool step" where
  "swap_ui_app st staging root key =
     (let dests = ui_app_destinations st key root in
      if dests = [] then ret False
      else (case ui_app_payload_name st key of
              None \<Rightarrow> raise Uncaught
            | Some name \<Rightarrow>
                seq (asks (\<lambda>fs. locate_in_payload fs staging name)) (\<lambda>src.
                (case src of
                   None \<Rightarrow> ret False
                 | Some s \<Rightarrow> seq (verify_app_signature st s) (\<lambda>_. install_all st s dests)))))"

fun swap_changed_ui_apps ::
    "site \<Rightarrow> apath \<Rightarrow> apath \<Rightarrow> (string, string) dict \<Rightarrow> (string, string) dict \<Rightarrow> string list step" where
  "swap_changed_ui_apps st staging root old_apps [] = ret []"
| "swap_changed_ui_apps st staging root old_apps ((key, new_hash) # rest) =
     (if map_of old_apps key = Some new_hash then swap_changed_ui_apps st staging root old_apps rest
      else seq (handle Uncaught (swap_ui_app st staging root key) (ret False)) (\<lambda>ok.
           seq (swap_changed_ui_apps st staging root old_apps rest) (\<lambda>keys.
           ret (if ok then key # keys else keys))))"

text \<open>\<open>_restart_ui_app\<close>: the relaunch is recorded; on Windows and for other keys nothing happens.\<close>

definition restart_ui_app :: "site \<Rightarrow> string \<Rightarrow> unit step" where
  "restart_ui_app st key h =
     (Inr (), if key = APP_COMPANION \<and> (st_platform st = ''darwin'' \<or> startswith (st_platform st) ''linux'')
              then h\<lparr>h_relaunched := h_relaunched h @ [key]\<rparr> else h)"

fun restart_ui_apps :: "site \<Rightarrow> string list \<Rightarrow> unit step" where
  "restart_ui_apps st [] = ret ()"
| "restart_ui_apps st (k # ks) = seq (restart_ui_app st k) (\<lambda>_. restart_ui_apps st ks)"

definition update_ui_apps :: "site \<Rightarrow> apath \<Rightarrow> apath \<Rightarrow> (string, string) dict \<Rightarrow> unit step" where
  "update_ui_apps st extract_dir root old_apps =
     swallow (
       seq (read_manifest st root) (\<lambda>m.
       seq (swap_changed_ui_apps st extract_dir root old_apps (mf_apps m)) (\<lambda>swapped.
       restart_ui_apps st swapped)))"

section \<open>The update\<close>

definition write_update_pending :: "apath \<Rightarrow> string \<Rightarrow> unit step" where
  "write_update_pending root previous_version h =
     seq (change (\<lambda>fs. write_text fs (root @ [UPDATE_PENDING_STAMP @ ''.tmp''])
                         (show_int (h_now h) @ [chr_nl] @ previous_version @ [chr_nl]))) (\<lambda>_.
     change (\<lambda>fs. os_replace fs (root @ [UPDATE_PENDING_STAMP @ ''.tmp'']) (root @ [UPDATE_PENDING_STAMP]))) h"

text \<open>
  From the download to the health check: the new version is on disk, the pointers are untouched.
  The payload is moved out of the staging directory, over what was there of that version.
\<close>

definition place_payload :: "apath \<Rightarrow> apath \<Rightarrow> unit step" where
  "place_payload p target =
     seq (change (\<lambda>fs. if path_exists fs target then rmtree fs target else Some fs)) (\<lambda>_.
     change (\<lambda>fs. os_replace fs p target))"

definition unpack_release :: "site \<Rightarrow> apath \<Rightarrow> release_info \<Rightarrow> apath \<Rightarrow> apath \<Rightarrow> unit step" where
  "unpack_release st root rel archive extract_dir =
     (let target = join (root @ [VERSIONS_DIR]) (ri_version rel) in
      seq (change (rmtree_quiet extract_dir)) (\<lambda>_.
      seq (extract_to st archive extract_dir) (\<lambda>_.
      seq (asks (locate_versioned_payload st extract_dir)) (\<lambda>payload.
      (case payload of
         None \<Rightarrow> raise BundleUpdateError
       | Some p \<Rightarrow> place_payload p target)))))"

definition probe_release :: "site \<Rightarrow> apath \<Rightarrow> unit step" where
  "probe_release st target =
     seq (verify_extracted_macos st target) (\<lambda>_.
     seq (asks (\<lambda>fs. health_check st fs (target @ [RUNTIME_BINARY st]))) (\<lambda>healthy.
     if healthy then ret ()
     else seq (change (rmtree_quiet target)) (\<lambda>_. raise HealthCheckFailed)))"

definition stage_release :: "site \<Rightarrow> apath \<Rightarrow> release_info \<Rightarrow> apath step" where
  "stage_release st root rel =
     seq (staging_path root) (\<lambda>staging.
     seq (download st (ri_download_url rel) (join staging (ri_asset_name rel))) (\<lambda>archive.
     seq (verify_release st rel archive) (\<lambda>_.
     seq (unpack_release st root rel archive (staging @ [''extracted''])) (\<lambda>_.
     seq (probe_release st (join (root @ [VERSIONS_DIR]) (ri_version rel))) (\<lambda>_.
     ret (staging @ [''extracted'']))))))"

definition finish_swap :: "site \<Rightarrow> apath \<Rightarrow> manifest \<Rightarrow> release_info \<Rightarrow> apath \<Rightarrow> bool step" where
  "finish_swap st root mf rel extract_dir =
     seq (flip_current st root (ri_version rel)) (\<lambda>_.
     seq (write_update_pending root (mf_version mf)) (\<lambda>_.
     seq (update_ui_apps st extract_dir root (mf_apps mf)) (\<lambda>_.
     seq (remove_legacy_setup_assistant st root) (\<lambda>_.
     seq (gc_step st root) (\<lambda>_.
     seq (clear_staging root) (\<lambda>_.
     ret True))))))"

definition swap_bundle :: "site \<Rightarrow> apath option \<Rightarrow> bool step" where
  "swap_bundle st install_root =
     seq (case install_root of None \<Rightarrow> discover_install_root st | Some r \<Rightarrow> ret r) (\<lambda>root.
     seq (read_manifest st root) (\<lambda>mf.
     seq (latest_release_for st (mf_asset_name mf) None None) (\<lambda>rel.
     if ri_version rel = mf_version mf then ret False
     else seq (stage_release st root rel) (\<lambda>extract_dir. finish_swap st root mf rel extract_dir))))"

section \<open>The pointers after a write\<close>

abbreviation slot :: "fs \<Rightarrow> apath \<Rightarrow> string \<Rightarrow> entry option" where
  "slot fs root n \<equiv> node fs (root @ [n])"

text \<open>
  The names the pointers use in the root directory: links, their staged form, files, their
  temporary form.  A well-formed root has nothing but links in the first two and nothing but
  files in the others.
\<close>

definition link_or_none :: "entry option \<Rightarrow> bool" where
  "link_or_none e = (e = None \<or> is_link_entry e)"

definition file_or_none :: "entry option \<Rightarrow> bool" where
  "file_or_none e = (e = None \<or> is_file_entry e)"

definition pointer_slots :: "fs \<Rightarrow> apath \<Rightarrow> bool" where
  "pointer_slots fs root =
     (canonical fs (root @ [VERSIONS_DIR]) \<and>
      (\<forall>n \<in> {''current'', ''previous'', ''.current.tmp'', ''.previous.tmp''}. link_or_none (slot fs root n)) \<and>
      (\<forall>n \<in> {''CURRENT'', ''PREVIOUS'', ''CURRENT.tmp'', ''PREVIOUS.tmp''}. file_or_none (slot fs root n)))"

text \<open>A version or asset name that is one path component, without surrounding whitespace.\<close>

definition plain_name :: "string \<Rightarrow> bool" where
  "plain_name s = (is_safe_basename s \<and> py_strip s = s)"

text \<open>\<open>same_versions\<close>: nothing under \<open>versions\<close> and nothing outside the root differs.\<close>

definition same_versions :: "apath \<Rightarrow> fs \<Rightarrow> fs \<Rightarrow> bool" where
  "same_versions root fs fs' =
     (same_outside root fs fs' \<and> (\<forall>q. prefix (root @ [VERSIONS_DIR]) q \<longrightarrow> node fs' q = node fs q))"

lemma same_versions_trans: "same_versions root a b \<Longrightarrow> same_versions root b c \<Longrightarrow> same_versions root a c"
  by (auto simp: same_versions_def intro: same_outside_trans)

lemma same_versions_canonical:
  assumes "same_versions root a b" "canonical a (root @ [VERSIONS_DIR])"
  shows "canonical b (root @ [VERSIONS_DIR])"
  using assms same_outside_canonical [of root a b] by (simp add: same_versions_def canonical_Snoc)

lemma not_prefix_sibling: "n \<noteq> m \<Longrightarrow> \<not> prefix (root @ [n]) (root @ m # x)"
  by auto

lemma put_slot:
  assumes "n \<noteq> VERSIONS_DIR"
  shows "slot (put (root @ [n]) e fs) root m = (if m = n then Some e else slot fs root m)"
    "same_versions root fs (put (root @ [n]) e fs)"
  using assms by (auto simp: node_put same_versions_def same_outside_put)

lemma delete_slot:
  assumes "n \<noteq> VERSIONS_DIR"
  shows "slot (AList.delete (root @ [n]) fs) root m = (if m = n then None else slot fs root m)"
    "same_versions root fs (AList.delete (root @ [n]) fs)"
  using assms by (auto simp: node_delete same_versions_def same_outside_delete)

lemma move_slot:
  fixes root :: apath and fs :: fs
  assumes "a \<noteq> b" "a \<noteq> VERSIONS_DIR" "b \<noteq> VERSIONS_DIR"
  defines "fs' \<equiv> graft (root @ [a]) (root @ [b]) fs @ drop_tree (root @ [a]) (drop_tree (root @ [b]) fs)"
  shows "slot fs' root m = (if m = b then slot fs root a else if m = a then None else slot fs root m)"
    "same_versions root fs fs'"
proof -
  show "slot fs' root m = (if m = b then slot fs root a else if m = a then None else slot fs root m)"
    using assms by (auto simp: node_moved)
  have "same_outside root fs fs'" unfolding fs'_def by (rule same_outside_move) (use assms in auto)
  moreover have "node fs' q = node fs q" if "prefix (root @ [VERSIONS_DIR]) q" for q
  proof -
    from that obtain x where "q = root @ VERSIONS_DIR # x" by (auto simp: prefix_def)
    with assms show ?thesis by (simp add: node_moved)
  qed
  ultimately show "same_versions root fs fs'" by (simp add: same_versions_def)
qed

lemma replace_slot:
  assumes "canonical fs root" "a \<noteq> ''..''" "b \<noteq> ''..''" "a \<noteq> b" "slot fs root a \<noteq> None"
    "\<not> is_dir_entry (slot fs root a)" "\<not> is_dir_entry (slot fs root b)"
  shows "os_replace fs (root @ [a]) (root @ [b]) =
     Some (graft (root @ [a]) (root @ [b]) fs @ drop_tree (root @ [a]) (drop_tree (root @ [b]) fs))"
  using assms by (simp add: os_replace_def lpath_canonical)

text \<open>The effect of writing a pointer in its two shapes, on the slots of the root.\<close>

definition link_entry :: "string \<Rightarrow> entry" where
  "link_entry v = ELink (VERSIONS_DIR @ ''/'' @ v)"

lemma change_Some: "f (h_fs h) = Some fs' \<Longrightarrow> change f h = (Inr (), h\<lparr>h_fs := fs'\<rparr>)"
  by (simp add: change_or_def)

lemma unlink_slot:
  assumes "canonical fs root" "n \<noteq> ''..''" "slot fs root n \<noteq> None" "\<not> is_dir_entry (slot fs root n)"
  shows "unlink fs (root @ [n]) = Some (AList.delete (root @ [n]) fs)"
  using assms by (cases "slot fs root n" rule: is_dir_entry.cases) (auto simp: unlink_def lpath_canonical)

lemma symlink_slot:
  "canonical fs root \<Longrightarrow> n \<noteq> ''..'' \<Longrightarrow> slot fs root n = None \<Longrightarrow>
   t \<noteq> [] \<Longrightarrow> symlink fs (root @ [n]) t = Some (put (root @ [n]) (ELink t) fs)"
  by (simp add: symlink_def lpath_canonical)

lemma is_symlink_slot:
  "canonical fs root \<Longrightarrow> n \<noteq> ''..'' \<Longrightarrow> is_symlink fs (root @ [n]) = is_link_entry (slot fs root n)"
  by (simp add: is_symlink_def lstat_canonical)

lemma is_file_slot:
  "canonical fs root \<Longrightarrow> n \<noteq> ''..'' \<Longrightarrow> \<not> is_link_entry (slot fs root n) \<Longrightarrow>
   is_file fs (root @ [n]) = is_file_entry (slot fs root n)"
  by (simp add: is_file_def stat_plain)

lemma entry_kinds:
  "link_or_none e \<Longrightarrow> \<not> is_dir_entry e" "file_or_none e \<Longrightarrow> \<not> is_dir_entry e" "file_or_none e \<Longrightarrow> \<not> is_link_entry e"
  "link_or_none e \<Longrightarrow> \<not> is_link_entry e \<Longrightarrow> e = None" "file_or_none e \<Longrightarrow> \<not> is_file_entry e \<Longrightarrow> e = None"
  by (cases e rule: is_dir_entry.cases; simp add: link_or_none_def file_or_none_def)+

lemma write_link_slots:
  assumes root: "canonical (h_fs h) root" and v: "\<not> startswith v ''/''"
    and names: "staged = ''.'' @ link @ ''.tmp''" "distinct [staged, link, file', VERSIONS_DIR, ''..'']"
    and slots: "link_or_none (slot (h_fs h) root staged)" "link_or_none (slot (h_fs h) root link)"
      "file_or_none (slot (h_fs h) root file')"
  shows "\<exists>fs'. write_link root link file' v h = (Inr (), h\<lparr>h_fs := fs'\<rparr>) \<and> same_versions root (h_fs h) fs' \<and>
     (\<forall>n. slot fs' root n = (if n = link then Some (link_entry v) else if n = staged \<or> n = file' then None
                             else slot (h_fs h) root n))"
proof -
  let ?fs = "h_fs h" and ?s = "root @ [staged]" and ?f = "root @ [file']"
  have can: "canonical fs root" if "same_versions root ?fs fs" for fs
    using that root same_outside_canonical by (auto simp: same_versions_def)
  \<comment> \<open>drop a leftover of the staged link\<close>
  define fs1 where "fs1 = (if slot ?fs root staged = None then ?fs else AList.delete ?s ?fs)"
  have one: "unlink_stale ?s ?fs = Some fs1"
  proof (cases "slot ?fs root staged = None")
    case True
    with root names show ?thesis by (simp add: unlink_stale_def path_exists_def stat_plain is_symlink_slot fs1_def)
  next
    case False
    with slots(1) have "is_link_entry (slot ?fs root staged)" by (auto simp: link_or_none_def)
    moreover from this have "\<not> is_dir_entry (slot ?fs root staged)"
      by (cases "slot ?fs root staged" rule: is_link_entry.cases) auto
    ultimately have "is_symlink ?fs ?s" "unlink ?fs ?s = Some (AList.delete ?s ?fs)"
      using False root names by (auto simp: is_symlink_slot intro!: unlink_slot)
    with False show ?thesis by (auto simp: unlink_stale_def fs1_def)
  qed
  have s1: "same_versions root ?fs fs1" "\<And>n. slot fs1 root n = (if n = staged then None else slot ?fs root n)"
    using names delete_slot [of staged root ?fs] by (auto simp: fs1_def same_versions_def)
  define fs2 where "fs2 = put ?s (link_entry v) fs1"
  have two: "symlink fs1 ?s (VERSIONS_DIR @ ''/'' @ v) = Some fs2"
    using names s1(2) can [OF s1(1)] by (simp add: symlink_slot fs2_def link_entry_def)
  have s2: "same_versions root ?fs fs2" "\<And>n. slot fs2 root n = (if n = staged then Some (link_entry v) else slot ?fs root n)"
    using names s1 put_slot [where n = staged and root = root and e = "link_entry v" and fs = fs1] by (auto simp: fs2_def intro: same_versions_trans)
  define fs3 where "fs3 = graft ?s (root @ [link]) fs2 @ drop_tree ?s (drop_tree (root @ [link]) fs2)"
  have three: "os_replace fs2 ?s (root @ [link]) = Some fs3"
    unfolding fs3_def using names s2 can [OF s2(1)] entry_kinds(1) [OF slots(2)]
    by (intro replace_slot) (auto simp: link_entry_def)
  have s3: "same_versions root ?fs fs3"
    "\<And>n. slot fs3 root n = (if n = link then Some (link_entry v) else if n = staged then None else slot ?fs root n)"
    using names s2 move_slot [of staged link root fs2] by (auto simp: fs3_def intro: same_versions_trans)
  \<comment> \<open>drop the pointer file of the other shape\<close>
  define fs4 where "fs4 = (if slot ?fs root file' = None then fs3 else AList.delete ?f fs3)"
  have f: "slot fs3 root file' = slot ?fs root file'" using names s3(2) by auto
  have four: "unlink_file ?f fs3 = Some fs4"
  proof (cases "slot ?fs root file' = None")
    case True
    with f names can [OF s3(1)] show ?thesis by (simp add: unlink_file_def is_file_slot fs4_def)
  next
    case False
    with slots(3) have "is_file_entry (slot ?fs root file')" by (auto simp: file_or_none_def)
    with False f names can [OF s3(1)] entry_kinds(2,3) [OF slots(3)]
    have "is_file fs3 ?f" "unlink fs3 ?f = Some (AList.delete ?f fs3)"
      by (auto simp: is_file_slot intro!: unlink_slot)
    with False show ?thesis by (auto simp: unlink_file_def fs4_def)
  qed
  have s4: "same_versions root ?fs fs4"
    "\<And>n. slot fs4 root n = (if n = link then Some (link_entry v) else if n = staged \<or> n = file' then None else slot ?fs root n)"
    using names s3 delete_slot [of file' root fs3] by (auto simp: fs4_def intro: same_versions_trans)
  have "write_link root link file' v h = (Inr (), h\<lparr>h_fs := fs4\<rparr>)"
    using one two three four v names(1) by (simp add: write_link_def pointer_target_def Let_def seq_def change_Some)
  with s4 show ?thesis by blast
qed

lemma write_text_slot:
  assumes "canonical fs root" "n \<noteq> ''..''" "file_or_none (slot fs root n)"
  shows "write_text fs (root @ [n]) s = Some (put (root @ [n]) (EFile s) fs)"
  using assms entry_kinds(2,3) [OF assms(3)] canonical_node [OF assms(1)]
  by (simp add: write_text_def realpath_plain)

lemma write_file_slots:
  assumes root: "canonical (h_fs h) root"
    and names: "tmp = file' @ ''.tmp''" "distinct [tmp, link, file', VERSIONS_DIR, ''..'']"
    and slots: "file_or_none (slot (h_fs h) root tmp)" "link_or_none (slot (h_fs h) root link)"
      "file_or_none (slot (h_fs h) root file')"
  shows "\<exists>fs'. write_pointer_file root link file' v h = (Inr (), h\<lparr>h_fs := fs'\<rparr>) \<and> same_versions root (h_fs h) fs' \<and>
     (\<forall>n. slot fs' root n = (if n = file' then Some (EFile (v @ [chr_nl])) else if n = tmp \<or> n = link then None
                             else slot (h_fs h) root n))"
proof -
  let ?fs = "h_fs h" and ?t = "root @ [tmp]" and ?l = "root @ [link]" and ?e = "EFile (v @ [chr_nl])"
  have can: "canonical fs root" if "same_versions root ?fs fs" for fs
    using that root same_outside_canonical by (auto simp: same_versions_def)
  define fs1 where "fs1 = put ?t ?e ?fs"
  have one: "write_text ?fs ?t (v @ [chr_nl]) = Some fs1"
    using root names slots by (simp add: write_text_slot fs1_def)
  have s1: "same_versions root ?fs fs1" "\<And>n. slot fs1 root n = (if n = tmp then Some ?e else slot ?fs root n)"
    using names put_slot [where n = tmp and root = root and e = ?e and fs = ?fs] by (auto simp: fs1_def)
  define fs2 where "fs2 = graft ?t (root @ [file']) fs1 @ drop_tree ?t (drop_tree (root @ [file']) fs1)"
  have two: "os_replace fs1 ?t (root @ [file']) = Some fs2"
    unfolding fs2_def using names s1 can [OF s1(1)] entry_kinds(2) [OF slots(3)]
    by (intro replace_slot) auto
  have s2: "same_versions root ?fs fs2"
    "\<And>n. slot fs2 root n = (if n = file' then Some ?e else if n = tmp then None else slot ?fs root n)"
    using names s1 move_slot [of tmp file' root fs1] by (auto simp: fs2_def intro: same_versions_trans)
  define fs3 where "fs3 = (if slot ?fs root link = None then fs2 else AList.delete ?l fs2)"
  have l: "slot fs2 root link = slot ?fs root link" using names s2(2) by auto
  have three: "unlink_link ?l fs2 = Some fs3"
  proof (cases "slot ?fs root link = None")
    case True
    with l names can [OF s2(1)] show ?thesis by (simp add: unlink_link_def is_symlink_slot fs3_def)
  next
    case False
    with slots(2) have "is_link_entry (slot ?fs root link)" by (auto simp: link_or_none_def)
    with False l names can [OF s2(1)] entry_kinds(1) [OF slots(2)]
    have "is_symlink fs2 ?l" "unlink fs2 ?l = Some (AList.delete ?l fs2)"
      by (auto simp: is_symlink_slot intro!: unlink_slot)
    with False show ?thesis by (auto simp: unlink_link_def fs3_def)
  qed
  have s3: "same_versions root ?fs fs3"
    "\<And>n. slot fs3 root n = (if n = file' then Some ?e else if n = tmp \<or> n = link then None else slot ?fs root n)"
    using names s2 delete_slot [of link root fs2] by (auto simp: fs3_def intro: same_versions_trans)
  have "write_pointer_file root link file' v h = (Inr (), h\<lparr>h_fs := fs3\<rparr>)"
    using one two three names(1) by (simp add: write_pointer_file_def Let_def seq_def change_Some)
  with s3 show ?thesis by blast
qed

section \<open>The pointer protocol refines a pair of versions\<close>

text \<open>
  The abstract state: the version that runs and the version to roll back to.  Flipping moves the
  running version to the second place, unless it is the new one already.
\<close>

type_synonym versions = "string option \<times> string option"

definition abs_versions :: "fs \<Rightarrow> apath \<Rightarrow> versions" where
  "abs_versions fs root =
     (read_pointer_version fs root CURRENT_LINK CURRENT_POINTER_FILE,
      read_pointer_version fs root PREVIOUS_LINK PREVIOUS_POINTER_FILE)"

definition abs_flip :: "string \<Rightarrow> versions \<Rightarrow> versions" where
  "abs_flip v s = (Some v, if fst s \<noteq> None \<and> fst s \<noteq> Some v then fst s else snd s)"

text \<open>What a pointer says, from its two slots.\<close>

definition slot_version :: "entry option \<Rightarrow> entry option \<Rightarrow> string option" where
  "slot_version l f =
     (case l of
        Some (ELink t) \<Rightarrow> Some (path_name (path_of t))
      | _ \<Rightarrow> (case f of Some (EFile s) \<Rightarrow> if py_strip s = [] then None else Some (py_strip s) | _ \<Rightarrow> None))"

lemma read_pointer_slots:
  assumes "canonical fs root" "l \<noteq> ''..''" "f \<noteq> ''..''" "link_or_none (slot fs root l)" "file_or_none (slot fs root f)"
  shows "read_pointer_version fs root l f = slot_version (slot fs root l) (slot fs root f)"
proof (cases "is_link_entry (slot fs root l)")
  case True
  then obtain t where "slot fs root l = Some (ELink t)"
    by (cases "slot fs root l" rule: is_link_entry.cases) auto
  with assms show ?thesis by (simp add: read_pointer_version_def is_symlink_slot readlink_def lstat_canonical slot_version_def)
next
  case False
  with assms(4) have none: "slot fs root l = None" by (rule entry_kinds(4))
  have st: "stat fs (root @ [f]) = slot fs root f"
    using assms entry_kinds(3) [OF assms(5)] by (simp add: stat_plain)
  show ?thesis
  proof (cases "is_file_entry (slot fs root f)")
    case True
    then obtain s where s: "slot fs root f = Some (EFile s)" by (cases "slot fs root f" rule: is_file_entry.cases) auto
    with none st assms show ?thesis
      by (simp add: read_pointer_version_def is_symlink_slot is_file_def read_text_def slot_version_def Let_def)
  next
    case no: False
    with assms(5) have "slot fs root f = None" by (rule entry_kinds(5))
    with none st assms show ?thesis
      by (simp add: read_pointer_version_def is_symlink_slot is_file_def slot_version_def)
  qed
qed

lemma plain_nameD:
  assumes "plain_name v"
  shows "v \<noteq> []" "v \<noteq> ''..''" "\<not> startswith v ''/''" "path_parts v = [v]" "py_strip (v @ [chr_nl]) = v"
    "join p v = p @ [v]" "path_name (path_of (VERSIONS_DIR @ ''/'' @ v)) = v" "path_parts (VERSIONS_DIR @ ''/'' @ v) = [VERSIONS_DIR, v]"
proof -
  from assms have v: "v \<noteq> []" "v \<noteq> ''.''" "v \<noteq> ''..''" "CHR ''/'' \<notin> set v" "py_strip v = v"
    by (auto simp: plain_name_def is_safe_basename_iff)
  then show "v \<noteq> []" "v \<noteq> ''..''" "\<not> startswith v ''/''" "path_parts v = [v]"
    by (cases v; auto simp: path_parts_plain)+
  then show "join p v = p @ [v]" by (simp add: join_def)
  show parts: "path_parts (VERSIONS_DIR @ ''/'' @ v) = [VERSIONS_DIR, v]"
    using v split_char_append_sep [of "CHR ''/''" VERSIONS_DIR v]
    by (simp add: path_parts_def split_char_no_sep VERSIONS_DIR_def)
  then show "path_name (path_of (VERSIONS_DIR @ ''/'' @ v)) = v" by (simp add: path_name_def path_of_def)
  have "is_space chr_nl" by (simp add: is_space_def)
  moreover have "dropWhile is_space v \<noteq> []"
  proof
    assume "dropWhile is_space v = []"
    with v(1,5) show False by (simp only: strip_by_def) simp
  qed
  moreover have "dropWhile is_space (v @ [chr_nl]) = dropWhile is_space v @ [chr_nl]"
    using \<open>dropWhile is_space v \<noteq> []\<close> by (simp add: dropWhile_append dropWhile_eq_Nil_conv)
  ultimately show "py_strip (v @ [chr_nl]) = v" using v(5) by (simp add: strip_by_def)
qed

text \<open>The two pointers, as pairs of slot names, and what writing one of them does.\<close>

definition pointer_pair :: "string \<Rightarrow> string \<Rightarrow> bool" where
  "pointer_pair l f = ((l, f) = (CURRENT_LINK, CURRENT_POINTER_FILE) \<or> (l, f) = (PREVIOUS_LINK, PREVIOUS_POINTER_FILE))"

definition pointer_written :: "bool \<Rightarrow> string \<Rightarrow> fs \<Rightarrow> apath \<Rightarrow> string \<Rightarrow> string \<Rightarrow> bool" where
  "pointer_written slnk v fs root l f =
     (if slnk then slot fs root l = Some (link_entry v) \<and> slot fs root f = None
      else slot fs root l = None \<and> slot fs root f = Some (EFile (v @ [chr_nl])))"

lemma pointer_slots_root: "pointer_slots fs root \<Longrightarrow> canonical fs root"
  unfolding pointer_slots_def using canonical_prefix by blast

lemma pointer_slots_pair:
  assumes "pointer_slots fs root" "pointer_pair l f"
  shows "link_or_none (slot fs root l)" "file_or_none (slot fs root f)" "link_or_none (slot fs root (''.'' @ l @ ''.tmp''))"
    "file_or_none (slot fs root (f @ ''.tmp''))" "l \<noteq> ''..''" "f \<noteq> ''..''"
  using assms by (auto simp: pointer_slots_def pointer_pair_def layout_names)

lemma write_pointer_effect:
  assumes "pointer_slots (h_fs h) root" "plain_name v" "pointer_pair l f"
  shows "\<exists>fs'. write_pointer root l f v slnk h = (Inr (), h\<lparr>h_fs := fs'\<rparr>) \<and> same_versions root (h_fs h) fs' \<and>
     pointer_slots fs' root \<and> pointer_written slnk v fs' root l f \<and>
     (\<forall>l' f'. pointer_pair l' f' \<longrightarrow> l' \<noteq> l \<longrightarrow> slot fs' root l' = slot (h_fs h) root l' \<and> slot fs' root f' = slot (h_fs h) root f')"
proof -
  note pair = pointer_slots_pair [OF assms(1,3)]
  let ?links = "{''current'', ''previous'', ''.current.tmp'', ''.previous.tmp''}"
  let ?files = "{''CURRENT'', ''PREVIOUS'', ''CURRENT.tmp'', ''PREVIOUS.tmp''}"
  have lf: "f \<notin> ?links" "l \<notin> ?files" using assms(3) by (auto simp: pointer_pair_def layout_names)
  have old: "\<And>n. n \<in> ?links \<Longrightarrow> link_or_none (slot (h_fs h) root n)"
    "\<And>n. n \<in> ?files \<Longrightarrow> file_or_none (slot (h_fs h) root n)" "canonical (h_fs h) (root @ [VERSIONS_DIR])"
    using assms(1) by (simp_all only: pointer_slots_def)
  have keep: "pointer_slots fs' root"
    if sv: "same_versions root (h_fs h) fs'"
      and sl: "\<And>n. slot fs' root n = (if n = x then Some e else if n = y \<or> n = z then None else slot (h_fs h) root n)"
      and x: "x = l \<and> is_link_entry (Some e) \<or> x = f \<and> is_file_entry (Some e)" for fs' x y z e
  proof -
    have "link_or_none (slot fs' root n)" if "n \<in> ?links" for n
    proof (cases "n = x")
      case True
      with x that lf(1) have "is_link_entry (Some e)" by metis
      with True sl show ?thesis by (simp add: link_or_none_def)
    qed (use old(1) [OF that] sl [of n] in \<open>simp add: link_or_none_def\<close>)
    moreover have "file_or_none (slot fs' root n)" if "n \<in> ?files" for n
    proof (cases "n = x")
      case True
      with x that lf(2) have "is_file_entry (Some e)" by metis
      with True sl show ?thesis by (simp add: file_or_none_def)
    qed (use old(2) [OF that] sl [of n] in \<open>simp add: file_or_none_def\<close>)
    ultimately show ?thesis
      unfolding pointer_slots_def using same_versions_canonical [OF sv old(3)] by blast
  qed
  show ?thesis
  proof (cases slnk)
    case True
    have "distinct [''.'' @ l @ ''.tmp'', l, f, VERSIONS_DIR, ''..'']"
      using assms(3) by (auto simp: pointer_pair_def layout_names)
    from write_link_slots [OF pointer_slots_root [OF assms(1)] plain_nameD(3) [OF assms(2)] refl this pair(3,1,2)]
    obtain fs' where "write_link root l f v h = (Inr (), h\<lparr>h_fs := fs'\<rparr>)" and sv: "same_versions root (h_fs h) fs'"
      and sl: "\<And>n. slot fs' root n = (if n = l then Some (link_entry v) else if n = ''.'' @ l @ ''.tmp'' \<or> n = f then None
                             else slot (h_fs h) root n)" by blast
    moreover have "pointer_slots fs' root" by (rule keep [OF sv sl]) (simp add: link_entry_def)
    ultimately show ?thesis using True assms(3)
      by (auto simp: write_pointer_def pointer_written_def pointer_pair_def layout_names)
  next
    case False
    have "distinct [f @ ''.tmp'', l, f, VERSIONS_DIR, ''..'']"
      using assms(3) by (auto simp: pointer_pair_def layout_names)
    from write_file_slots [OF pointer_slots_root [OF assms(1)] refl this pair(4,1,2)]
    obtain fs' where "write_pointer_file root l f v h = (Inr (), h\<lparr>h_fs := fs'\<rparr>)" and sv: "same_versions root (h_fs h) fs'"
      and sl: "\<And>n. slot fs' root n = (if n = f then Some (EFile (v @ [chr_nl])) else if n = f @ ''.tmp'' \<or> n = l then None
                             else slot (h_fs h) root n)" by blast
    moreover have "pointer_slots fs' root" by (rule keep [OF sv sl]) simp
    ultimately show ?thesis using False assms(3)
      by (auto simp: write_pointer_def pointer_written_def pointer_pair_def layout_names)
  qed
qed

lemma pair_names [simp]: "pointer_pair CURRENT_LINK CURRENT_POINTER_FILE" "pointer_pair PREVIOUS_LINK PREVIOUS_POINTER_FILE"
  by (simp_all add: pointer_pair_def)

lemma read_pair:
  "pointer_slots fs root \<Longrightarrow> pointer_pair l f \<Longrightarrow>
   read_pointer_version fs root l f = slot_version (slot fs root l) (slot fs root f)"
  by (rule read_pointer_slots) (simp_all add: pointer_slots_pair pointer_slots_root)

lemma written_version: "plain_name v \<Longrightarrow> pointer_written slnk v fs root l f \<Longrightarrow> slot_version (slot fs root l) (slot fs root f) = Some v"
  using plain_nameD [of v] by (auto simp: pointer_written_def slot_version_def link_entry_def split: if_splits)

text \<open>Following a freshly written current pointer leads to the version's directory.\<close>

lemma written_resolves:
  assumes slots: "pointer_slots fs root" and v: "plain_name v" and w: "pointer_written slnk v fs root CURRENT_LINK CURRENT_POINTER_FILE"
    and dir: "is_dir_entry (node fs (root @ [VERSIONS_DIR, v]))"
  shows "resolve_current fs root = Some (root @ [VERSIONS_DIR, v])"
proof -
  note pv = plain_nameD [OF v] and pair = pointer_slots_pair [OF slots pair_names(1)]
  from slots have ver: "canonical fs (root @ [VERSIONS_DIR])" by (simp add: pointer_slots_def)
  have target: "canonical fs ((root @ [VERSIONS_DIR]) @ [v])" using ver dir pv by (subst canonical_Snoc) simp
  note root = pointer_slots_root [OF slots]
  show ?thesis
  proof (cases slnk)
    case True
    with w have l: "slot fs root CURRENT_LINK = Some (link_entry v)" by (simp add: pointer_written_def)
    have "walk 39 fs root [VERSIONS_DIR, v] = Some (root @ [VERSIONS_DIR, v])"
      using walk_canonical [OF target, of 39 "[]"] walk_canonical [OF root, of 39 "[VERSIONS_DIR, v]"] by simp
    moreover have "walk 40 fs root [CURRENT_LINK] = walk 39 fs root [VERSIONS_DIR, v]"
      using l pair(5) pv by (simp add: link_entry_def VERSIONS_DIR_def)
    ultimately have "realpath fs (root @ [CURRENT_LINK]) = Some (root @ [VERSIONS_DIR, v])"
      using walk_canonical [OF root, of 40 "[CURRENT_LINK]"] by (simp add: realpath_def)
    moreover have "is_symlink fs (root @ [CURRENT_LINK])" using l pair(5) root by (simp add: is_symlink_slot link_entry_def)
    ultimately show ?thesis using dir by (simp add: resolve_current_def resolve_pointer_def)
  next
    case False
    with w have l: "slot fs root CURRENT_LINK = None" "slot fs root CURRENT_POINTER_FILE = Some (EFile (v @ [chr_nl]))"
      by (auto simp: pointer_written_def)
    then have "stat fs (root @ [CURRENT_LINK]) = None" "stat fs (root @ [CURRENT_POINTER_FILE]) = Some (EFile (v @ [chr_nl]))"
      using root pair(5,6) by (simp_all add: stat_plain)
    moreover have "stat fs (root @ [VERSIONS_DIR, v]) = node fs (root @ [VERSIONS_DIR, v])"
      using realpath_canonical [OF target] by (simp add: stat_def)
    ultimately show ?thesis using l dir root pair(5) pv
      by (simp add: resolve_current_def resolve_pointer_def is_dir_def is_file_def is_symlink_slot read_text_def Let_def)
  qed
qed

lemma uses_symlink_slots:
  assumes "pointer_slots fs root"
  shows "install_uses_symlink st fs root =
    (if is_link_entry (slot fs root CURRENT_LINK) then True
     else if is_file_entry (slot fs root CURRENT_POINTER_FILE) then False else st_platform st \<noteq> ''win32'')"
  using pointer_slots_pair [OF assms pair_names(1)] pointer_slots_root [OF assms] entry_kinds(3)
  by (simp add: install_uses_symlink_def is_symlink_slot is_file_slot)

lemma written_shape:
  "pointer_slots fs root \<Longrightarrow> pointer_written slnk v fs root CURRENT_LINK CURRENT_POINTER_FILE \<Longrightarrow> install_uses_symlink st fs root = slnk"
  by (auto simp: uses_symlink_slots pointer_written_def link_entry_def split: if_splits)

lemma flip_current_effect:
  assumes slots: "pointer_slots (h_fs h) root" and v: "plain_name v"
    and dir: "is_dir_entry (node (h_fs h) (root @ [VERSIONS_DIR, v]))"
    and old: "\<forall>u. fst (abs_versions (h_fs h) root) = Some u \<longrightarrow> plain_name u"
  shows "\<exists>fs'. flip_current st root v h = (Inr (), h\<lparr>h_fs := fs'\<rparr>) \<and> same_versions root (h_fs h) fs' \<and>
     pointer_slots fs' root \<and> abs_versions fs' root = abs_flip v (abs_versions (h_fs h) root) \<and>
     pointer_written (install_uses_symlink st (h_fs h) root) v fs' root CURRENT_LINK CURRENT_POINTER_FILE"
proof -
  let ?fs = "h_fs h" and ?sym = "install_uses_symlink st (h_fs h) root" and ?old = "fst (abs_versions (h_fs h) root)"
  let ?C = CURRENT_LINK and ?CF = CURRENT_POINTER_FILE and ?P = PREVIOUS_LINK and ?PF = PREVIOUS_POINTER_FILE
  have ver: "canonical ?fs (root @ [VERSIONS_DIR])" using slots by (simp add: pointer_slots_def)
  have "canonical ?fs ((root @ [VERSIONS_DIR]) @ [v])" using ver dir plain_nameD [OF v] by (subst canonical_Snoc) simp
  from realpath_canonical [OF this] dir have isdir: "is_dir ?fs (join (root @ [VERSIONS_DIR]) v)"
    using plain_nameD(6) [OF v] by (simp add: is_dir_def stat_def)
  obtain fs1 where w1: "write_pointer root ?C ?CF v ?sym h = (Inr (), h\<lparr>h_fs := fs1\<rparr>)" "same_versions root ?fs fs1"
    "pointer_slots fs1 root" "pointer_written ?sym v fs1 root ?C ?CF"
    "slot fs1 root ?P = slot ?fs root ?P" "slot fs1 root ?PF = slot ?fs root ?PF"
    using write_pointer_effect [OF slots v pair_names(1), of ?sym] pair_names(2) by (auto simp: layout_names)
  have head: "flip_current st root v h =
     (case ?old of None \<Rightarrow> ret () | Some u \<Rightarrow> if u \<noteq> [] \<and> u \<noteq> v then write_pointer root ?P ?PF u ?sym else ret ()) (h\<lparr>h_fs := fs1\<rparr>)"
    using isdir w1(1) by (simp add: flip_current_def seq_def asks_def ensure_def ret_def abs_versions_def)
  have prev1: "read_pointer_version fs1 root ?P ?PF = snd (abs_versions ?fs root)"
    using w1(3,5,6) slots by (simp add: read_pair abs_versions_def)
  have cur: "read_pointer_version fs root ?C ?CF = Some v" if "pointer_slots fs root" "pointer_written ?sym v fs root ?C ?CF" for fs
    using that written_version [OF v] by (simp add: read_pair)
  show ?thesis
  proof (cases "?old \<noteq> None \<and> ?old \<noteq> Some v")
    case False
    then have "flip_current st root v h = (Inr (), h\<lparr>h_fs := fs1\<rparr>)" using head by (auto simp: ret_def split: option.splits)
    moreover have "abs_versions fs1 root = abs_flip v (abs_versions ?fs root)"
      using False prev1 cur [OF w1(3,4)] by (auto simp: abs_flip_def abs_versions_def)
    ultimately show ?thesis using w1 by blast
  next
    case True
    then obtain u where u: "?old = Some u" "u \<noteq> v" by auto
    with old have pu: "plain_name u" by blast
    have s1: "pointer_slots (h_fs (h\<lparr>h_fs := fs1\<rparr>)) root" using w1(3) by simp
    obtain fs2 where w2: "write_pointer root ?P ?PF u ?sym (h\<lparr>h_fs := fs1\<rparr>) = (Inr (), h\<lparr>h_fs := fs2\<rparr>)" "same_versions root fs1 fs2"
      "pointer_slots fs2 root" "pointer_written ?sym u fs2 root ?P ?PF"
      "slot fs2 root ?C = slot fs1 root ?C" "slot fs2 root ?CF = slot fs1 root ?CF"
      using write_pointer_effect [OF s1 pu pair_names(2), of ?sym] pair_names(1) by (auto simp: layout_names)
    have w3: "pointer_written ?sym v fs2 root ?C ?CF" using w1(4) w2(5,6) by (simp add: pointer_written_def)
    have "flip_current st root v h = (Inr (), h\<lparr>h_fs := fs2\<rparr>)" using head u w2(1) plain_nameD(1) [OF pu] by simp
    moreover have "abs_versions fs2 root = abs_flip v (abs_versions ?fs root)"
      using u w2(3,4) written_version [OF pu w2(4)] cur [OF w2(3) w3] by (simp add: abs_flip_def abs_versions_def read_pair)
    ultimately show ?thesis using w2(3) w3 same_versions_trans [OF w1(2) w2(2)] by blast
  qed
qed

text \<open>
  C10. Flipping the current pointer refines the abstract operation on the pair (running version, version
  to roll back to), in both shapes a pointer can have on disk: afterwards the new version is current
  and following the pointer leads to its directory, the version that was running is the previous one
  (unless it is the same), the shape of the pointers is kept, and nothing under \<open>versions\<close> and
  nothing outside the root changed.
\<close>

theorem flip_current_refines:
  assumes "pointer_slots (h_fs h) root" "plain_name v" "is_dir_entry (node (h_fs h) (root @ [VERSIONS_DIR, v]))"
    and "\<forall>u. fst (abs_versions (h_fs h) root) = Some u \<longrightarrow> plain_name u"
  shows "\<exists>fs'. flip_current st root v h = (Inr (), h\<lparr>h_fs := fs'\<rparr>) \<and>
     abs_versions fs' root = abs_flip v (abs_versions (h_fs h) root) \<and>
     resolve_current fs' root = Some (root @ [VERSIONS_DIR, v]) \<and>
     install_uses_symlink st fs' root = install_uses_symlink st (h_fs h) root \<and>
     same_versions root (h_fs h) fs' \<and> pointer_slots fs' root"
proof -
  from flip_current_effect [OF assms, of st] obtain fs' where
    f: "flip_current st root v h = (Inr (), h\<lparr>h_fs := fs'\<rparr>)" "same_versions root (h_fs h) fs'"
      "pointer_slots fs' root" "abs_versions fs' root = abs_flip v (abs_versions (h_fs h) root)"
      "pointer_written (install_uses_symlink st (h_fs h) root) v fs' root CURRENT_LINK CURRENT_POINTER_FILE" by blast
  have "is_dir_entry (node fs' (root @ [VERSIONS_DIR, v]))" using assms(3) f(2) by (simp add: same_versions_def)
  with f written_resolves [OF f(3) assms(2) f(5)] written_shape [OF f(3,5)] show ?thesis by blast
qed

definition sample_install :: fs where
  "sample_install =
     [([''r''], EDir 0), ([''r'', ''versions''], EDir 0), ([''r'', ''versions'', ''1''], EDir 0),
      ([''r'', ''versions'', ''2''], EDir 0), ([''r'', ''versions'', ''0''], EDir 0), ([''r'', ''current''], ELink ''versions/1'')]"

definition install_host :: host where
  "install_host = sample_host\<lparr>h_fs := sample_install\<rparr>"

lemma plain_digit: "plain_name ''1''" "plain_name ''2''"
  by (simp_all add: plain_name_def is_safe_basename_iff strip_by_def is_space_def)

lemma sample_install_ok:
  "pointer_slots sample_install [''r'']" "abs_versions sample_install [''r''] = (Some ''1'', None)"
proof -
  have "canonical sample_install ([''r''] @ [''versions''])"
    using canonical_Snoc [of sample_install "[]" "''r''"] canonical_Snoc [of sample_install "[''r'']" "''versions''"]
    by (simp add: sample_install_def node_def)
  then show slots: "pointer_slots sample_install [''r'']"
    by (simp add: pointer_slots_def layout_names link_or_none_def file_or_none_def sample_install_def node_def)
  have "path_parts ''versions/1'' = [''versions'', ''1'']" by code_simp
  then show "abs_versions sample_install [''r''] = (Some ''1'', None)"
    using slots by (simp add: abs_versions_def read_pair slot_version_def)
      (simp add: layout_names sample_install_def node_def path_name_def path_of_def)
qed

theorem flip_current_refines_witness:
  "\<exists>fs'. flip_current sample_site [''r''] ''2'' install_host = (Inr (), install_host\<lparr>h_fs := fs'\<rparr>) \<and>
     abs_versions fs' [''r''] = (Some ''2'', Some ''1'') \<and> resolve_current fs' [''r''] = Some [''r'', ''versions'', ''2'']"
proof -
  have "pointer_slots (h_fs install_host) [''r'']" "is_dir_entry (node (h_fs install_host) ([''r''] @ [VERSIONS_DIR, ''2'']))"
    "\<forall>u. fst (abs_versions (h_fs install_host) [''r'']) = Some u \<longrightarrow> plain_name u"
    using sample_install_ok plain_digit by (simp_all add: install_host_def) (simp add: sample_install_def node_def VERSIONS_DIR_def)
  from flip_current_refines [OF this(1) plain_digit(2) this(2,3), of sample_site]
  show ?thesis using sample_install_ok(2) by (auto simp: install_host_def abs_flip_def VERSIONS_DIR_def)
qed

section \<open>Garbage collection keeps what the pointers name\<close>

lemma rmtree_slot:
  "canonical fs d \<Longrightarrow> c \<noteq> ''..'' \<Longrightarrow>
   rmtree fs (d @ [c]) = (if is_dir_entry (slot fs d c) then Some (drop_tree (d @ [c]) fs) else None)"
  by (simp add: rmtree_def lpath_canonical)

lemma drop_tree_canonical: "canonical fs d \<Longrightarrow> canonical (drop_tree (d @ [c]) fs) d"
  by (rule same_outside_canonical [OF same_outside_drop_tree]) simp_all

definition erased :: "apath \<Rightarrow> string list \<Rightarrow> fs \<Rightarrow> apath \<Rightarrow> entry option" where
  "erased d rs fs q = (if \<exists>c \<in> set rs. prefix (d @ [c]) q then None else node fs q)"

lemma gc_remove_effect:
  assumes "canonical fs d" "''..'' \<notin> set cs" "gc_remove st d ks cs fs = (rs, fs')"
  shows "(\<forall>q. node fs' q = erased d rs fs q) \<and> set rs \<subseteq> set cs - set ks \<and>
    (\<forall>c \<in> set cs - set ks. \<not> st_locked st (d @ [c]) \<and> is_dir_entry (slot fs d c) \<longrightarrow> c \<in> set rs)"
  using assms
proof (induction cs arbitrary: fs rs fs')
  case (Cons c cs)
  show ?case
  proof (cases "c \<in> set ks \<or> st_locked st (d @ [c]) \<or> \<not> is_dir_entry (slot fs d c)")
    case True
    with Cons.prems have "gc_remove st d ks cs fs = (rs, fs')"
      by (auto simp: rmtree_slot split: if_splits)
    with Cons.IH [of fs rs fs'] Cons.prems True show ?thesis by auto
  next
    case False
    let ?fs = "drop_tree (d @ [c]) fs"
    obtain rs2 fs2 where r: "gc_remove st d ks cs ?fs = (rs2, fs2)" by fastforce
    with False Cons.prems have res: "rs = c # rs2" "fs' = fs2" by (auto simp: rmtree_slot)
    from Cons.IH [OF drop_tree_canonical [OF Cons.prems(1)] _ r] Cons.prems(2)
    have ih: "\<And>q. node fs2 q = erased d rs2 ?fs q" "set rs2 \<subseteq> set cs - set ks"
      "\<And>x. x \<in> set cs - set ks \<Longrightarrow> \<not> st_locked st (d @ [x]) \<Longrightarrow> is_dir_entry (slot ?fs d x) \<Longrightarrow> x \<in> set rs2" by auto
    have "node fs' q = erased d rs fs q" for q
      using ih(1) res by (auto simp: erased_def node_drop_tree)
    moreover have "x \<in> set rs" if "x \<in> set (c # cs) - set ks" "\<not> st_locked st (d @ [x])" "is_dir_entry (slot fs d x)" for x
      using that ih(3) [of x] res by (cases "x = c") (auto simp: node_drop_tree)
    ultimately show ?thesis using ih(2) res False by auto
  qed
qed (simp add: erased_def)

lemma gc_candidates_name: "n \<in> set (gc_candidates fs d) \<Longrightarrow> n \<noteq> ''..''"
  by (auto simp: gc_candidates_def iterdir_def child_names_def split: option.splits)

lemma gc_keepers_props:
  "set ks \<subseteq> set (gc_keepers keep ks cs) \<and> length (gc_keepers keep ks cs) \<le> max keep (length ks)"
proof (induction keep ks cs rule: gc_keepers.induct)
  case (2 keep ks c cs)
  then show ?case by (auto simp: List.insert_def)
qed simp

lemma length_pinned: "length (pinned fs root) \<le> 2"
  unfolding pinned_def opt_list_def
  by (rule order_trans [OF length_remdups_leq]) (simp split: option.splits)

text \<open>
  C11. Garbage collection never removes a version the pointers name: the versions read from
  the current and the previous pointer keep every file, nothing outside the versions
  directory changes, and what is reported as removed is gone completely.  It also does its job: of the
  version directories it may remove, at most the configured number (or the two pinned ones) is left.
\<close>

theorem gc_keeps_pinned:
  assumes "pointer_slots fs root" "gc_old_versions st root keep fs = (removed, fs')"
  shows "(\<forall>v \<in> set (pinned fs root). v \<notin> set removed \<and>
            (\<forall>rest. node fs' (root @ [VERSIONS_DIR, v] @ rest) = node fs (root @ [VERSIONS_DIR, v] @ rest))) \<and>
         (\<forall>q. \<not> prefix (root @ [VERSIONS_DIR]) q \<longrightarrow> node fs' q = node fs q) \<and>
         (\<forall>v \<in> set removed. \<forall>rest. node fs' (root @ [VERSIONS_DIR, v] @ rest) = None) \<and>
         card {v \<in> set (gc_candidates fs (root @ [VERSIONS_DIR])). v \<notin> set removed \<and>
                 \<not> st_locked st (root @ [VERSIONS_DIR, v]) \<and> is_dir_entry (node fs (root @ [VERSIONS_DIR, v]))} \<le> max keep 2"
proof -
  let ?d = "root @ [VERSIONS_DIR]" and ?ks = "gc_keepers keep (pinned fs root) (gc_candidates fs (root @ [VERSIONS_DIR]))"
  from assms(1) have can: "canonical fs ?d" by (simp add: pointer_slots_def)
  then have "is_dir fs ?d" by (simp add: is_dir_def stat_def realpath_canonical canonical_node)
  with assms(2) have "gc_remove st ?d ?ks (gc_candidates fs ?d) fs = (removed, fs')"
    by (simp add: gc_old_versions_def Let_def)
  from gc_remove_effect [OF can _ this] gc_candidates_name
  have gc: "\<And>q. node fs' q = erased ?d removed fs q" "set removed \<subseteq> set (gc_candidates fs ?d) - set ?ks"
    "\<And>c. c \<in> set (gc_candidates fs ?d) - set ?ks \<Longrightarrow> \<not> st_locked st (?d @ [c]) \<Longrightarrow> is_dir_entry (slot fs ?d c) \<Longrightarrow> c \<in> set removed"
    by (auto dest: gc_candidates_name)
  note ks = gc_keepers_props [of "pinned fs root" keep "gc_candidates fs ?d"]
  let ?left = "{v \<in> set (gc_candidates fs ?d). v \<notin> set removed \<and>
                 \<not> st_locked st (root @ [VERSIONS_DIR, v]) \<and> is_dir_entry (node fs (root @ [VERSIONS_DIR, v]))}"
  have "?left \<subseteq> set ?ks" using gc(3) by auto
  then have "card ?left \<le> length ?ks" by (meson List.finite_set card_length card_mono order_trans)
  then have "card ?left \<le> max keep 2" using ks length_pinned [of fs root] by linarith
  moreover have "v \<notin> set removed" if "v \<in> set (pinned fs root)" for v using that ks gc(2) by blast
  moreover have "prefix ?d q" if "prefix (root @ [VERSIONS_DIR, c]) q" for c q
    using append_prefixD [of ?d "[c]" q] that by simp
  ultimately show ?thesis by (auto simp: gc(1) erased_def)
qed

theorem gc_keeps_pinned_witness:
  "gc_old_versions sample_site [''r''] 1 sample_install = ([''2'', ''0''], drop_tree [''r'', ''versions'', ''0''] (drop_tree [''r'', ''versions'', ''2''] sample_install)) \<and>
   node (drop_tree [''r'', ''versions'', ''0''] (drop_tree [''r'', ''versions'', ''2''] sample_install)) [''r'', ''versions'', ''1''] = Some (EDir 0)"
proof
  show run: "gc_old_versions sample_site [''r''] 1 sample_install =
      ([''2'', ''0''], drop_tree [''r'', ''versions'', ''0''] (drop_tree [''r'', ''versions'', ''2''] sample_install))"
    by code_simp
  have "''1'' \<in> set (pinned sample_install [''r''])" by code_simp
  with gc_keeps_pinned [OF sample_install_ok(1) run, THEN conjunct1]
  have "node (drop_tree [''r'', ''versions'', ''0''] (drop_tree [''r'', ''versions'', ''2''] sample_install)) ([''r''] @ [VERSIONS_DIR, ''1''] @ []) =
      node sample_install ([''r''] @ [VERSIONS_DIR, ''1''] @ [])" by blast
  then show "node (drop_tree [''r'', ''versions'', ''0''] (drop_tree [''r'', ''versions'', ''2''] sample_install)) [''r'', ''versions'', ''1''] = Some (EDir 0)"
    by (simp add: VERSIONS_DIR_def) (simp add: sample_install_def node_def)
qed

end
