(* ===== verification/Bundle_Update.thy ===== *)
theory Bundle_Update
  imports Bundle
begin

text \<open>
  The safety of \<open>swap_bundle\<close>.  Until the pointers are flipped, every step keeps to the staging and
  the versions directories (the invariant \<open>staged_only\<close>), and the flip is reached only with a
  digest the release published, matching the bytes on disk, and a new runtime that passed its own
  check.
\<close>

section \<open>The invariant of the steps before the flip\<close>

abbreviation staging_of :: "apath \<Rightarrow> apath" where "staging_of root \<equiv> root @ [STAGING_DIR]"
abbreviation versions_of :: "apath \<Rightarrow> apath" where "versions_of root \<equiv> root @ [VERSIONS_DIR]"

definition staged_only :: "apath \<Rightarrow> fs \<Rightarrow> fs \<Rightarrow> bool" where
  "staged_only root fs0 fs =
     (canonical fs (versions_of root) \<and> guarded (staging_of root) fs \<and>
      (\<forall>q. \<not> prefix (staging_of root) q \<longrightarrow> \<not> prefix (versions_of root) q \<longrightarrow> node fs q = node fs0 q))"

lemma staged_only_guarded: "staged_only root fs0 fs \<Longrightarrow> guarded (staging_of root) fs"
  by (simp add: staged_only_def)

lemma dir_names_distinct [simp]: "STAGING_DIR \<noteq> VERSIONS_DIR" "VERSIONS_DIR \<noteq> STAGING_DIR"
  by (simp_all add: layout_names)

lemma versions_not_below_staging: "prefix q (versions_of root) \<Longrightarrow> \<not> strict_prefix (staging_of root) q"
proof
  assume q: "prefix q (versions_of root)" "strict_prefix (staging_of root) q"
  then have "prefix (staging_of root) (versions_of root)" by (meson prefix_order.less_le_trans prefix_order.less_imp_le)
  then show False by simp
qed

lemma staged_only_stays:
  assumes "staged_only root fs0 fs" "stays (staging_of root) fs (Some fs')"
  shows "staged_only root fs0 fs'"
proof -
  from assms have g: "guarded (staging_of root) fs'" using stays_guarded by (auto simp: staged_only_def)
  from assms(2) have same: "\<And>q. \<not> strict_prefix (staging_of root) q \<Longrightarrow> node fs' q = node fs q"
    by (auto simp: stays_Some same_outside_def)
  have "canonical fs' (versions_of root)"
    using assms(1) same versions_not_below_staging [OF take_is_prefix]
    unfolding staged_only_def canonical_def by metis
  moreover have "node fs' q = node fs0 q" if "\<not> prefix (staging_of root) q" "\<not> prefix (versions_of root) q" for q
    using that assms(1) same [of q] by (auto simp: staged_only_def strict_prefix_def)
  ultimately show ?thesis using g by (simp add: staged_only_def)
qed

text \<open>Replacing the tree at one version, and taking a tree out of the staging directory.\<close>

lemma staged_only_version:
  assumes "staged_only root fs0 fs"
    and "\<And>q. \<not> prefix (root @ [VERSIONS_DIR, v]) q \<Longrightarrow>
           node fs' q = node fs q \<or> strict_prefix (staging_of root) q \<and> node fs' q = None"
  shows "staged_only root fs0 fs'"
proof -
  have nv: "\<not> prefix (root @ [VERSIONS_DIR, v]) q" if "prefix q (versions_of root) \<or> prefix (staging_of root) q \<or> prefix q (staging_of root)
      \<or> \<not> prefix (versions_of root) q" for q
    using that append_prefixD [of "versions_of root" "[v]" q] prefix_length_le [of "root @ [VERSIONS_DIR, v]" q]
    by (auto simp: prefix_def append_eq_append_conv2 Cons_eq_append_conv)
  have same: "node fs' q = node fs q" if "prefix q (versions_of root) \<or> prefix q (staging_of root)" for q
    using that assms(2) [OF nv, of q] versions_not_below_staging [of q root] prefix_not_below by blast
  from assms(1) have "canonical fs' (versions_of root)" "canonical fs' (staging_of root)"
    using same take_is_prefix unfolding staged_only_def guarded_def canonical_def by metis+
  moreover have "tame (staging_of root) fs'"
    using assms(1) unfolding staged_only_def guarded_def tame_def
    by (metis assms(2) nv option.discI)
  moreover have "node fs' q = node fs0 q" if "\<not> prefix (staging_of root) q" "\<not> prefix (versions_of root) q" for q
    using that assms(1) assms(2) [OF nv, of q] by (auto simp: staged_only_def strict_prefix_def)
  ultimately show ?thesis by (simp add: staged_only_def guarded_def)
qed

section \<open>Every step before the flip keeps it\<close>

lemma rmtree_quiet_stays:
  assumes "guarded G fs" "''..'' \<notin> set cs" "cs \<noteq> []"
  shows "stays G fs (rmtree_quiet (G @ cs) fs)"
  using rmtree_stays [OF assms] assms(1)
  by (auto simp: rmtree_quiet_def stays_Some guarded_def split: option.splits)

context write_zone
begin

lemma download_attempt_triple:
  assumes "plain_name a"
  shows "triple (on_fs inv) (download_attempt st url (zone @ [a @ ''.partial''])) (\<lambda>_. True)"
proof -
  have "stays zone fs (write_text fs (zone @ [a @ ''.partial'']) s)" if "guarded zone fs" for fs s
    using partial_name [OF plain_nameD(1) [OF assms]] by (intro write_text_stays [OF that]) auto
  then have wr: "triple (on_fs inv) (change (\<lambda>fs. write_text fs (zone @ [a @ ''.partial'']) s)) (\<lambda>_. True)" for s
    by (rule triple_zone) simp_all
  show ?thesis
    unfolding download_attempt_def
    by (intro triple_skip triple_seq [OF triple_http_get [where Q = "\<lambda>_. True"]] TrueI)
      (auto intro!: triple_rules triple_seq [OF wr] split: option.splits)
qed

lemma download_loop_triple:
  assumes "plain_name a"
  shows "triple (on_fs inv) (download_loop st url (zone @ [a]) n) (\<lambda>x. x = zone @ [a])"
proof (induction n)
  case 0
  then show ?case by (simp add: triple_raise)
next
  case (Suc n)
  have "stays zone fs (os_replace fs (zone @ [a @ ''.partial'']) (zone @ [a]))" if "guarded zone fs" for fs
    using partial_name [OF plain_nameD(1) [OF assms]] plain_nameD(2) [OF assms] by (intro os_replace_stays [OF that]) auto
  then have mv: "triple (on_fs inv) (change (\<lambda>fs. os_replace fs (zone @ [a @ ''.partial'']) (zone @ [a]))) (\<lambda>_. True)"
    by (rule triple_zone) simp_all
  show ?case
    using Suc.IH by (auto intro!: triple_seq [OF download_attempt_triple [OF assms]] triple_seq [OF mv] triple_ret)
qed

lemma download_triple:
  assumes "plain_name a"
  shows "triple (on_fs inv) (download st url (zone @ [a])) (\<lambda>x. x = zone @ [a])"
proof -
  have "stays zone fs (mkdirs fs (butlast (zone @ [a])))" if "guarded zone fs" for fs
    using mkdirs_stays [OF that, of "[]"] by simp
  then have "triple (on_fs inv) (change (\<lambda>fs. mkdirs fs (butlast (zone @ [a])))) (\<lambda>_. True)"
    by (rule triple_zone) simp_all
  then show ?thesis
    unfolding download_def by (rule triple_seq) (rule download_loop_triple [OF assms])
qed

lemma extract_to_triple:
  assumes "x \<noteq> ''..''"
  shows "triple (on_fs inv) (extract_to st a (zone @ [x])) (\<lambda>_. True)"
proof -
  have "inv (snd (extract_archive u z fs a (zone @ [x])))" if "inv fs" for fs u z
    using extract_archive_stays [OF inv_guarded [OF that], of "[x]" u z a] assms by (intro inv_stays [OF that]) auto
  then show ?thesis
    by (auto simp: triple_def extract_to_def on_fs_def split: prod.splits option.splits) (metis snd_conv)+
qed

lemma clear_triple: "x \<noteq> ''..'' \<Longrightarrow> triple (on_fs inv) (change (rmtree_quiet (zone @ [x]))) (\<lambda>_. True)"
  by (rule triple_zone) (auto intro: rmtree_quiet_stays)

lemma verify_release_zone:
  "triple (on_fs inv) (verify_release st rel a) (\<lambda>d. \<exists>fs. published st (ri_asset_name rel) d \<and> hashes_to st fs a d)"
  by (rule triple_each) (rule verify_release_triple)

end

interpretation staging: write_zone "staging_of root" "staged_only root fs0" for root fs0
  by unfold_locales (auto intro: staged_only_guarded staged_only_stays)

text \<open>The payload lies below the staging directory.\<close>

definition below_staging :: "apath \<Rightarrow> apath \<Rightarrow> bool" where
  "below_staging root p = (\<exists>cs. p = staging_of root @ cs \<and> cs \<noteq> [] \<and> ''..'' \<notin> set cs)"

lemma rglob_parent:
  assumes "p \<in> set (rglob fs (G @ [x]) name)" "x \<noteq> ''..''"
  shows "\<exists>cs. butlast p = G @ cs \<and> cs \<noteq> [] \<and> ''..'' \<notin> set cs"
proof -
  from assms(1) obtain d q where q: "p = (G @ [x]) @ drop (length d) q" "strict_prefix d q" "''..'' \<notin> set q"
    by (auto simp: rglob_def split: option.splits)
  then have ne: "drop (length d) q \<noteq> []" by (auto simp: strict_prefix_def prefix_def)
  have "butlast p = G @ (x # butlast (drop (length d) q))" using q(1) ne by (simp add: butlast_append)
  moreover have "''..'' \<notin> set (butlast (drop (length d) q))"
    using q(3) by (meson in_set_butlastD in_set_dropD)
  ultimately show ?thesis using assms(2) by auto
qed

lemma sub_dirs_below:
  assumes "p \<in> set (sub_dirs fs (G @ es))" "''..'' \<notin> set es"
  shows "\<exists>cs. p = G @ cs \<and> cs \<noteq> [] \<and> ''..'' \<notin> set cs"
proof -
  from assms(1) obtain n where "p = G @ (es @ [n])" "n \<noteq> ''..''"
    by (auto simp: sub_dirs_def iterdir_def child_names_def split: option.splits)
  with assms(2) show ?thesis by auto
qed

lemma hd_single: "length xs = 1 \<Longrightarrow> hd xs \<in> set xs"
  by (cases xs) auto

lemma locate_below:
  assumes "locate_versioned_payload st (staging_of root @ [''extracted'']) fs = Some p"
  shows "below_staging root p"
proof -
  let ?E = "staging_of root @ [''extracted'']"
  let ?R = "map butlast (filter (is_file fs) (rglob fs ?E (RUNTIME_BINARY st)))"
  have one: "below_staging root x" if "x \<in> set ?R" for x
    using that rglob_parent [of _ fs "staging_of root" "''extracted''"] by (auto simp: below_staging_def)
  have two: "below_staging root x" if "x \<in> set (sub_dirs fs (?E @ [VERSIONS_DIR])) \<or> x \<in> set (sub_dirs fs ?E)" for x
    using that sub_dirs_below [of x fs "staging_of root" "[''extracted'', VERSIONS_DIR]"]
      sub_dirs_below [of x fs "staging_of root" "[''extracted'']"] by (auto simp: below_staging_def VERSIONS_DIR_def)
  define R A B where "R = ?R" and "A = sub_dirs fs (?E @ [VERSIONS_DIR])" and "B = sub_dirs fs ?E"
  have "(if length R = 1 then Some (hd R) else if 1 < length R then None
         else if is_dir fs (?E @ [VERSIONS_DIR]) then (if length A = 1 then Some (hd A) else None)
         else (if length B = 1 then Some (hd B) else None)) = Some p"
    using assms unfolding R_def A_def B_def locate_versioned_payload_def Let_def .
  then have "length R = 1 \<and> p = hd R \<or> length A = 1 \<and> p = hd A \<or> length B = 1 \<and> p = hd B"
    by (cases "length R = 1"; cases "1 < length R"; cases "is_dir fs (?E @ [VERSIONS_DIR])"; cases "length A = 1"; cases "length B = 1") simp_all
  then have "p \<in> set R \<or> p \<in> set A \<or> p \<in> set B" using hd_single by blast
  then have "p \<in> set ?R \<or> p \<in> set (sub_dirs fs (?E @ [VERSIONS_DIR])) \<or> p \<in> set (sub_dirs fs ?E)"
    unfolding R_def A_def B_def .
  with one two show ?thesis by blast
qed

section \<open>Putting the new version in place\<close>

lemma lpath_version:
  "canonical fs (versions_of root) \<Longrightarrow> v \<noteq> ''..'' \<Longrightarrow> lpath fs (root @ [VERSIONS_DIR, v]) = Some (root @ [VERSIONS_DIR, v])"
  using lpath_canonical [of fs "versions_of root" v] by simp

lemma staged_only_rmtree:
  assumes "staged_only root fs0 fs" "v \<noteq> ''..''" "rmtree fs (root @ [VERSIONS_DIR, v]) = Some fs'"
  shows "staged_only root fs0 fs'"
proof (rule staged_only_version [OF assms(1)])
  from assms have "fs' = drop_tree (root @ [VERSIONS_DIR, v]) fs"
    by (auto simp: rmtree_def staged_only_def lpath_version split: if_splits)
  then show "node fs' q = node fs q \<or> strict_prefix (staging_of root) q \<and> node fs' q = None"
    if "\<not> prefix (root @ [VERSIONS_DIR, v]) q" for q
    using that by (simp add: node_drop_tree)
qed

lemma staged_only_replace:
  assumes "staged_only root fs0 fs" "v \<noteq> ''..''" "below_staging root p"
    and "os_replace fs p (root @ [VERSIONS_DIR, v]) = Some fs'"
  shows "staged_only root fs0 fs'"
proof (rule staged_only_version [OF assms(1)])
  let ?t = "root @ [VERSIONS_DIR, v]"
  from assms(1,2) have t: "lpath fs ?t = Some ?t" by (simp add: staged_only_def lpath_version)
  with assms(4) obtain a where a: "lpath fs p = Some a"
    and res: "fs' = fs \<or> \<not> prefix a ?t \<and> \<not> prefix ?t a \<and> fs' = graft a ?t fs @ drop_tree a (drop_tree ?t fs)"
    by (auto simp: os_replace_def split: option.splits if_splits)
  from assms(3) obtain cs where "p = staging_of root @ cs" "cs \<noteq> []" "''..'' \<notin> set cs" by (auto simp: below_staging_def)
  with a lpath_below [OF staged_only_guarded [OF assms(1)]] have below: "strict_prefix (staging_of root) a" by blast
  show "node fs' q = node fs q \<or> strict_prefix (staging_of root) q \<and> node fs' q = None"
    if "\<not> prefix ?t q" for q
    using res below that strict_prefix_ne_Nil [OF below] prefix_order.less_le_trans [OF below, of q]
    by (cases "prefix a q") (auto simp: node_moved)
qed

lemma place_payload_triple:
  assumes "v \<noteq> ''..''" "below_staging root p"
  shows "triple (on_fs (staged_only root fs0)) (place_payload p (root @ [VERSIONS_DIR, v])) (\<lambda>_. True)"
  unfolding place_payload_def
proof (rule triple_seq)
  show "triple (on_fs (staged_only root fs0))
      (change (\<lambda>fs. if path_exists fs (root @ [VERSIONS_DIR, v]) then rmtree fs (root @ [VERSIONS_DIR, v]) else Some fs)) (\<lambda>_. True)"
    by (rule triple_change) (auto simp: on_fs_def split: if_splits intro: staged_only_rmtree [OF _ assms(1)])
  show "triple (on_fs (staged_only root fs0)) (change (\<lambda>fs. os_replace fs p (root @ [VERSIONS_DIR, v]))) (\<lambda>_. True)"
    by (rule triple_change) (auto simp: on_fs_def intro: staged_only_replace [OF _ assms])
qed

lemma unpack_release_triple:
  assumes "plain_name (ri_version rel)"
  shows "triple (on_fs (staged_only root fs0)) (unpack_release st root rel a (staging_of root @ [''extracted''])) (\<lambda>_. True)"
proof -
  have x: "''extracted'' \<noteq> ''..''" by simp
  have target: "join (versions_of root) (ri_version rel) = root @ [VERSIONS_DIR, ri_version rel]"
    using plain_nameD(6) [OF assms, of "versions_of root"] by simp
  show ?thesis
    unfolding unpack_release_def Let_def target
    by (intro triple_seq [OF staging.clear_triple [OF x]] triple_seq [OF staging.extract_to_triple [OF x]]
        triple_seq [OF triple_asks [where Q = "\<lambda>r. \<forall>p. r = Some p \<longrightarrow> below_staging root p"]])
      (auto intro: locate_below triple_raise place_payload_triple [OF plain_nameD(2) [OF assms]] split: option.splits)
qed

lemma probe_release_triple:
  assumes "v \<noteq> ''..''"
  shows "triple (on_fs (staged_only root fs0)) (probe_release st (root @ [VERSIONS_DIR, v]))
     (\<lambda>_. st_self_check st (root @ [VERSIONS_DIR, v, RUNTIME_BINARY st]) = Exited 0)"
proof -
  have vm: "triple (on_fs (staged_only root fs0)) (verify_extracted_macos st (root @ [VERSIONS_DIR, v])) (\<lambda>_. True)"
    unfolding verify_extracted_macos_def by (auto intro!: triple_rules triple_skip)
  have rm: "triple (on_fs (staged_only root fs0)) (change (rmtree_quiet (root @ [VERSIONS_DIR, v]))) (\<lambda>_. True)"
    by (rule triple_change)
      (auto simp: on_fs_def rmtree_quiet_def split: if_splits option.splits intro: staged_only_rmtree [OF _ assms])
  show ?thesis
    unfolding probe_release_def
    by (intro triple_seq [OF vm]
        triple_seq [OF triple_asks [where Q = "\<lambda>b. b \<longrightarrow> st_self_check st (root @ [VERSIONS_DIR, v, RUNTIME_BINARY st]) = Exited 0"]])
      (auto simp: health_check_def intro!: triple_rules triple_seq [OF rm])
qed

section \<open>Nothing is flipped that was not verified\<close>

definition verified_release :: "site \<Rightarrow> apath \<Rightarrow> release_info \<Rightarrow> bool" where
  "verified_release st root rel =
     ((\<exists>d bytes. published st (ri_asset_name rel) d \<and> py_lower (st_sha256 st bytes) = py_lower d) \<and>
      st_self_check st (root @ [VERSIONS_DIR, ri_version rel, RUNTIME_BINARY st]) = Exited 0)"

lemma stage_rest_triple:
  assumes "plain_name (ri_version rel)" "plain_name (ri_asset_name rel)"
  shows "triple (on_fs (staged_only root fs0))
     (seq (download st (ri_download_url rel) (join (staging_of root) (ri_asset_name rel))) (\<lambda>archive.
      seq (verify_release st rel archive) (\<lambda>_.
      seq (unpack_release st root rel archive (staging_of root @ [''extracted''])) (\<lambda>_.
      seq (probe_release st (join (versions_of root) (ri_version rel))) (\<lambda>_.
      ret (staging_of root @ [''extracted'']))))))
     (\<lambda>_. verified_release st root rel)"
proof -
  have joins: "join (staging_of root) (ri_asset_name rel) = staging_of root @ [ri_asset_name rel]"
    "join (versions_of root) (ri_version rel) = root @ [VERSIONS_DIR, ri_version rel]"
    using plain_nameD(6) [OF assms(2), of "staging_of root"] plain_nameD(6) [OF assms(1), of "versions_of root"] by simp_all
  show ?thesis
    unfolding joins
    by (intro triple_seq [OF staging.download_triple [OF assms(2)]] triple_seq [OF staging.verify_release_zone]
        triple_seq [OF unpack_release_triple [OF assms(1)]] triple_seq [OF probe_release_triple [OF plain_nameD(2) [OF assms(1)]]]
        triple_ret) (auto simp: verified_release_def hashes_to_def)
qed

lemma triple_run: "triple I m Q \<Longrightarrow> I h \<Longrightarrow> m h = (r, h') \<Longrightarrow> I h' \<and> (\<forall>x. r = Inr x \<longrightarrow> Q x)"
  unfolding triple_def by (metis fst_conv snd_conv)

lemma seq_run: "m h = (Inr x, h1) \<Longrightarrow> seq m k h = k x h1"
  by (simp add: seq_def)

declare seq_ret [simp] seq_asks [simp]

definition staging_ready :: "apath \<Rightarrow> fs \<Rightarrow> bool" where
  "staging_ready root fs =
     (canonical fs (versions_of root) \<and> \<not> is_link_entry (node fs (staging_of root)) \<and> tame (staging_of root) fs)"

definition outside_update :: "apath \<Rightarrow> fs \<Rightarrow> fs \<Rightarrow> bool" where
  "outside_update root fs fs' =
     (\<forall>q. \<not> prefix (staging_of root) q \<longrightarrow> \<not> prefix (versions_of root) q \<longrightarrow> node fs' q = node fs q)"

lemma outside_update_refl [simp]: "outside_update root fs fs"
  by (simp add: outside_update_def)

lemma mkdirs_staging:
  assumes "staging_ready root fs" "mkdirs fs (staging_of root) = Some fs'"
  shows "staged_only root fs fs'"
proof -
  have root: "canonical fs root" using assms(1) canonical_prefix by (auto simp: staging_ready_def)
  then have "fresh_below root STAGING_DIR fs" using assms(1) by (simp add: fresh_below_def staging_ready_def layout_names)
  from mkdirs_fresh [OF this assms(2)] have g: "guarded (staging_of root) fs'"
    and fs': "fs' = fs \<or> fs' = put (staging_of root) (EDir 0) fs" by auto
  have "canonical fs' (versions_of root)"
  proof -
    have "node fs' (take k (versions_of root)) = node fs (take k (versions_of root))" for k
    proof -
      have "take k (versions_of root) \<noteq> staging_of root"
        using take_is_prefix [of k "versions_of root"] by (metis last_snoc dir_names_distinct(1) length_append_singleton prefix_length_prefix prefix_order.eq_iff order_refl same_prefix_prefix prefix_Cons list.inject)
      with fs' show ?thesis by (auto simp: node_put)
    qed
    with assms(1) show ?thesis by (simp add: staging_ready_def canonical_def)
  qed
  with g fs' show ?thesis by (auto simp: staged_only_def node_put)
qed

lemma stage_release_outcome:
  assumes "staging_ready root (h_fs h)" "plain_name (ri_version rel)" "plain_name (ri_asset_name rel)"
    and "stage_release st root rel h = (r, h')"
  shows "outside_update root (h_fs h) (h_fs h') \<and> (\<forall>e. r = Inr e \<longrightarrow> verified_release st root rel)"
proof (cases "mkdirs (h_fs h) (staging_of root)")
  case None
  with assms(4) show ?thesis by (auto simp: stage_release_def staging_path_def seq_def change_or_def)
next
  case (Some fs1)
  let ?h = "h\<lparr>h_fs := fs1\<rparr>"
  have start: "on_fs (staged_only root (h_fs h)) ?h" using mkdirs_staging [OF assms(1) Some] by (simp add: on_fs_def)
  have "staging_path root h = (Inr (staging_of root), ?h)"
    using Some by (simp add: staging_path_def seq_def change_or_def ret_def)
  note rest = assms(4) [unfolded stage_release_def seq_run [where m = "staging_path root" and h = h, OF this]]
  have "on_fs (staged_only root (h_fs h)) h' \<and> (\<forall>x. r = Inr x \<longrightarrow> verified_release st root rel)"
    by (rule triple_run [OF stage_rest_triple [OF assms(2,3)] start rest])
  then show ?thesis by (auto simp: on_fs_def staged_only_def outside_update_def)
qed

text \<open>After the flip the only exceptions left are the ones of the operating system.\<close>

definition unexpected_only :: "'a step \<Rightarrow> bool" where
  "unexpected_only m = (\<forall>h e h'. m h = (Inl e, h') \<longrightarrow> e = Uncaught)"

lemma unexpectedD: "unexpected_only m \<Longrightarrow> m h = (Inl e, h') \<Longrightarrow> e = Uncaught"
  unfolding unexpected_only_def by blast

lemma unexpected_rules:
  "unexpected_only (ret x)" "unexpected_only (change f)" "unexpected_only (swallow m)" "unexpected_only (gc_step st root)"
  "unexpected_only (remove_legacy_setup_assistant st root)" "unexpected_only (asks g)"
  by (auto simp: unexpected_only_def ret_def change_or_def swallow_def gc_step_def remove_legacy_setup_assistant_def asks_def
      split: option.splits)

lemma unexpected_seq: "unexpected_only m \<Longrightarrow> (\<And>x. unexpected_only (k x)) \<Longrightarrow> unexpected_only (seq m k)"
  by (fastforce simp: unexpected_only_def seq_def split: prod.splits sum.splits)

lemma unexpected_write_pointer: "unexpected_only (write_pointer root l f v b)"
  by (auto simp: write_pointer_def write_link_def write_pointer_file_def Let_def intro!: unexpected_seq unexpected_rules)

lemma unexpected_pending: "unexpected_only (write_update_pending root v)"
proof -
  have two: "unexpected_only (seq (change f) (\<lambda>_. change g))" for f g
    by (intro unexpected_seq unexpected_rules)
  show ?thesis
    unfolding unexpected_only_def
  proof (intro allI impI)
    fix h e h' assume "write_update_pending root v h = (Inl e, h')"
    then show "e = Uncaught" unfolding write_update_pending_def using two [unfolded unexpected_only_def] by blast
  qed
qed

lemma finish_swap_errors:
  assumes "finish_swap st root mf rel e h = (Inl err, h')"
  shows "err = Uncaught \<or> h' = h"
proof (cases "is_dir (h_fs h) (join (versions_of root) (ri_version rel))")
  case False
  with assms show ?thesis by (simp add: finish_swap_def flip_current_def seq_def asks_def ensure_def raise_def)
next
  case True
  let ?rest = "\<lambda>_ :: unit. seq (asks (\<lambda>fs. install_uses_symlink st fs root)) (\<lambda>use_symlink.
     seq (asks (\<lambda>fs. read_pointer_version fs root CURRENT_LINK CURRENT_POINTER_FILE)) (\<lambda>old.
     seq (write_pointer root CURRENT_LINK CURRENT_POINTER_FILE (ri_version rel) use_symlink) (\<lambda>_.
     (case old of None \<Rightarrow> ret ()
      | Some o' \<Rightarrow> if o' \<noteq> [] \<and> o' \<noteq> ri_version rel
          then write_pointer root PREVIOUS_LINK PREVIOUS_POINTER_FILE o' use_symlink else ret ()))))"
  have rest: "unexpected_only (?rest ())"
    by (auto intro!: unexpected_seq unexpected_rules unexpected_write_pointer split: option.splits)
  have flip: "flip_current st root (ri_version rel) h = ?rest () h"
    using True by (simp add: flip_current_def ensure_def)
  let ?after = "\<lambda>_ :: unit. seq (write_update_pending root (mf_version mf)) (\<lambda>_. seq (update_ui_apps st e root (mf_apps mf)) (\<lambda>_.
     seq (remove_legacy_setup_assistant st root) (\<lambda>_. seq (gc_step st root) (\<lambda>_. seq (clear_staging root) (\<lambda>_. ret True)))))"
  have after: "unexpected_only (?after ())"
    unfolding update_ui_apps_def clear_staging_def by (intro unexpected_seq unexpected_rules unexpected_pending)
  have "finish_swap st root mf rel e h = seq (flip_current st root (ri_version rel)) ?after h" by (simp add: finish_swap_def)
  then have "finish_swap st root mf rel e h = seq (?rest ()) ?after h" using flip by (simp add: seq_def [of _ ?after])
  then have run: "seq (?rest ()) ?after h = (Inl err, h')" using assms by (rule trans [OF sym])
  have "unexpected_only (seq (?rest ()) ?after)" by (rule unexpected_seq [OF rest]) (rule after)
  from unexpectedD [of "seq (?rest ()) ?after" h err h', OF this run] show ?thesis by (rule disjI1)
qed

lemma same_fs_steps:
  "triple (on_fs (\<lambda>x. x = fs)) (read_manifest st root) (\<lambda>_. True)"
  "triple (on_fs (\<lambda>x. x = fs)) (latest_release_for st stem None None) (\<lambda>_. True)"
proof -
  have req: "triple (on_fs (\<lambda>x. x = fs)) (required data k) (\<lambda>_. True)" for data k
    by (auto simp: required_def intro: triple_rules split: sum.splits py_error.splits)
  have parse: "triple (on_fs (\<lambda>x. x = fs)) (parse_manifest data) (\<lambda>_. True)" for data
    unfolding parse_manifest_def
    by (intro triple_seq [OF req] triple_seq [OF triple_of_py [where Q = "\<lambda>_. True"]] TrueI
          | auto intro: triple_rules split: option.splits json.splits)+
  then show "triple (on_fs (\<lambda>x. x = fs)) (read_manifest st root) (\<lambda>_. True)"
    unfolding read_manifest_def
    by (intro triple_skip) (auto intro!: triple_rules triple_skip split: option.splits)
  have rel: "triple (on_fs (\<lambda>x. x = fs)) (release_of stem ptag payload) (\<lambda>_. True)" for ptag payload
    unfolding release_of_def Let_def
    by (intro triple_seq [OF triple_of_py [where Q = "\<lambda>_. True"]] triple_seq [OF triple_ensure [where Q = "\<lambda>_. True"]] TrueI
          | auto intro: triple_rules split: option.splits prod.splits)+
  show "triple (on_fs (\<lambda>x. x = fs)) (latest_release_for st stem None None) (\<lambda>_. True)"
    unfolding latest_release_for_def Let_def
    by (auto intro!: triple_raise triple_seq [OF triple_get_checked] rel split: option.splits)
qed


definition update_payload :: json where
  "update_payload = JObj [(''tag_name'', JStr ''v2''), (''assets'', JArr [
     JObj [(''name'', JStr ''s-linux-x64.zip''), (''browser_download_url'', JStr ''u'')],
     JObj [(''name'', JStr ''checksums.txt''), (''browser_download_url'', JStr ''c'')]])]"

definition text_reply :: "string \<Rightarrow> http_reply" where
  "text_reply s = \<lparr>hr_status = 200, hr_content_length = None, hr_chunks = [s], hr_broken = False\<rparr>"

definition update_site :: site where
  "update_site = sample_site\<lparr>
     st_get := (\<lambda>n url start. Some (text_reply
       (if url = ''u'' then ''Z'' else if url = ''c'' then replicate 64 (CHR ''a'') @ ''  s-linux-x64.zip'' else ''J''))),
     st_loads := (\<lambda>s. if s = ''J'' then Some update_payload
       else Some (JObj [(''manifest_version'', JInt 1), (''asset_name'', JStr ''s''), (''version'', JStr ''1'')])),
     st_sha256 := (\<lambda>s. replicate 64 (CHR ''a'')),
     st_unzip := (\<lambda>s. Some [(''locai-link-runtime'', ''bin''), (''manifest.json'', ''M'')])\<rparr>"

definition update_host :: host where
  "update_host = sample_host\<lparr>h_fs :=
     [([''r''], EDir 0), ([''r'', ''versions''], EDir 0), ([''r'', ''versions'', ''1''], EDir 0),
      ([''r'', ''versions'', ''1'', ''manifest.json''], EFile ''M''), ([''r'', ''current''], ELink ''versions/1'')]\<rparr>"

lemma update_payload_plain:
  assumes "release_of stem ptag update_payload h = (Inr rel, h')"
  shows "ri_version rel = ''2'' \<and> ri_asset_name rel \<in> {''s-linux-x64.zip'', ''checksums.txt''}"
  using assms
  by (auto simp: release_of_def update_payload_def seq_def ret_def raise_def ensure_def Let_def asset_label_def
      lstrip_char_def split: if_splits sum.splits option.splits)

lemma update_site_release:
  "latest_release_for update_site stem None None h =
     release_of stem ''linux-x64'' update_payload
       (h\<lparr>h_log := h_log h @ [''https://api.github.com/repos/locai-co-uk/locai-link/releases/latest'']\<rparr>)"
proof -
  have "platform_tag update_site = ''linux-x64''"
    by (simp add: platform_tag_def update_site_def sample_site_def py_lower_def lower_char_def Let_def)
  moreover have "\<not> ota_overrides_allowed update_site"
    by (simp add: ota_overrides_allowed_def env_set_def update_site_def sample_site_def)
  ultimately show ?thesis
    by (simp add: latest_release_for_def or_str_def DEFAULT_RELEASES_REPO_def rstrip_char_def get_checked_def seq_def
        http_get_def ret_def Let_def)
      (simp add: update_site_def text_reply_def hr_text_def)
qed

lemma plain_assets: "plain_name ''s-linux-x64.zip''" "plain_name ''checksums.txt''"
  by (simp_all add: plain_name_def is_safe_basename_iff strip_by_def is_space_def)


end
