(* ===== verification/Artifact_Store.thy ===== *)
theory Artifact_Store
  imports Updater Urls
begin

text \<open>
  \<open>infra/artifact_store.py\<close> and \<open>infra/engines.py\<close>: engines that are fetched on first use.  The manifest of the
  store is looked up for this device, the archive is downloaded and compared with the manifest's
  digest, unpacked flat into a staging directory beside the engine's directory, and swapped into its
  place.  The steps are those of \<open>Updater\<close>, with the errors of this module; file modes are left out.

  The main fact is that an engine directory is never anything but what it was before or the contents
  of one archive with the digest the manifest names.
\<close>

section \<open>Errors and configuration\<close>

text \<open>\<open>NetworkError\<close> is any exception of \<open>urllib\<close> and the sockets, \<open>OtherError\<close> any other exception.\<close>

datatype as_error = ManifestError | VariantNotFound | VerificationError | ArtifactStoreError | NetworkError | OtherError

type_synonym 'a act = "(as_error, 'a) stepx"

definition DEFAULT_BASE :: string where
  "DEFAULT_BASE = ''https://storage.googleapis.com/locai-platform-artifacts-prod''"

definition MANIFEST_PATH :: string where "MANIFEST_PATH = ''index/manifest.v1.json''"
definition CAPABILITY_ENGINES :: string where "CAPABILITY_ENGINES = ''engines''"
definition MAX_MANIFEST_BYTES :: nat where "MAX_MANIFEST_BYTES = 8388608"

definition store_base_url :: "site \<Rightarrow> string" where
  "store_base_url st =
     rstrip_char (CHR ''/'') (case st_env st ''LOCAI_ARTIFACT_BASE'' of Some (c # s) \<Rightarrow> c # s | _ \<Rightarrow> DEFAULT_BASE)"

section \<open>Which variant\<close>

definition platform_arch :: "site \<Rightarrow> as_error + string" where
  "platform_arch st =
     (case (if startswith (st_platform st) ''linux'' then Some ''linux''
            else if st_platform st = ''darwin'' then Some ''macos''
            else if st_platform st \<in> {''win32'', ''cygwin''} then Some ''windows'' else None) of
        None \<Rightarrow> Inl ArtifactStoreError
      | Some system \<Rightarrow>
          let machine = py_lower (st_machine st) in
          if machine \<in> {''x86_64'', ''amd64'', ''x64''} then Inr (system @ ''-x64'')
          else if machine \<in> {''arm64'', ''aarch64''} then Inr (system @ ''-arm64'')
          else Inl ArtifactStoreError)"

text \<open>
  \<open>gpu_probe\<close>: the output of a tool, \<open>None\<close> when it is not installed; \<open>cuda_major\<close> searches it for a number
  followed by a point, after a fixed text and white space.
\<close>

record gpu =
  gp_nvcc :: "string option"
  gp_nvidia_smi :: "string option"
  gp_rocm_smi :: bool

definition number_before_point :: "string \<Rightarrow> nat option" where
  "number_before_point s =
     (let ds = takeWhile is_digit s; r = dropWhile is_digit s in
      if ds \<noteq> [] \<and> startswith r ''.'' then digits_from 0 False ds else None)"

fun search_number :: "string \<Rightarrow> bool \<Rightarrow> string \<Rightarrow> nat option" where
  "search_number lit ws [] = None"
| "search_number lit ws (c # s) =
     (let r = drop (length lit) (c # s) in
      case (if startswith (c # s) lit \<and> (ws \<longrightarrow> r \<noteq> [] \<and> is_space (hd r)) then number_before_point (dropWhile is_space r) else None) of
        Some n \<Rightarrow> Some n
      | None \<Rightarrow> search_number lit ws s)"

definition cuda_major :: "gpu \<Rightarrow> nat option" where
  "cuda_major gp =
     (case (case gp_nvcc gp of None \<Rightarrow> None | Some out \<Rightarrow> search_number ''release'' True out) of
        Some n \<Rightarrow> Some n
      | None \<Rightarrow> (case gp_nvidia_smi gp of None \<Rightarrow> None | Some out \<Rightarrow> search_number ''CUDA Version:'' False out))"

definition has_gpu :: "gpu \<Rightarrow> bool" where
  "has_gpu gp = (gp_nvidia_smi gp \<noteq> None \<or> gp_rocm_smi gp)"

definition accel_suffixes :: "site \<Rightarrow> gpu \<Rightarrow> string list" where
  "accel_suffixes st gp =
     (if st_platform st = ''darwin'' then [[]]
      else let is_arm = py_lower (st_machine st) \<in> {''arm64'', ''aarch64''} in
        (if st_platform st \<in> {''win32'', ''cygwin''} then
           (case cuda_major gp of
              Some (Suc k) \<Rightarrow> [if 13 \<le> Suc k then ''-cuda-13.3'' else ''-cuda-12.4'']
            | _ \<Rightarrow> []) @ (if has_gpu gp then [''-vulkan''] else [])
         else if startswith (st_platform st) ''linux'' \<and> \<not> is_arm \<and> has_gpu gp then [''-vulkan'']
         else []) @ [[]])"

definition variant_candidates :: "site \<Rightarrow> gpu \<Rightarrow> as_error + string list" where
  "variant_candidates st gp = map_sum id (\<lambda>base. map (\<lambda>s. base @ s) (accel_suffixes st gp)) (platform_arch st)"

record variant =
  va_path :: string
  va_sha256 :: string
  va_size :: json

definition variant_url :: "site \<Rightarrow> string option \<Rightarrow> variant \<Rightarrow> string" where
  "variant_url st base v =
     (case base of Some (c # s) \<Rightarrow> c # s | _ \<Rightarrow> store_base_url st) @ ''/'' @ lstrip_char (CHR ''/'') (va_path v)"

section \<open>Manifest\<close>

text \<open>A manifest is its dictionary; \<open>schema != 1\<close> is Python's comparison.\<close>

definition new_manifest :: "json \<Rightarrow> as_error + jdict" where
  "new_manifest data =
     (case data of
        JObj d \<Rightarrow> if py_eq (dget d ''schema'') (JInt 1) then Inr d else Inl ManifestError
      | _ \<Rightarrow> Inl OtherError)"

fun descend :: "json \<Rightarrow> string list \<Rightarrow> json option" where
  "descend j [] = Some j"
| "descend j (k # ks) = (case subscript j k of Inl _ \<Rightarrow> None | Inr x \<Rightarrow> descend x ks)"

definition default_version :: "jdict \<Rightarrow> string \<Rightarrow> string \<Rightarrow> as_error + json" where
  "default_version d capability name =
     (case descend (JObj d) [''defaults'', capability, name] of None \<Rightarrow> Inl VariantNotFound | Some v \<Rightarrow> Inr v)"

text \<open>A path or digest that is not a string fails as soon as it is used.\<close>

definition variant_of :: "json \<Rightarrow> as_error + variant" where
  "variant_of entry =
     (case entry of
        JObj r \<Rightarrow>
          if \<not> truthy (dget r ''path'') \<or> \<not> truthy (dget r ''sha256'') then Inl ManifestError
          else (case (dget r ''path'', dget r ''sha256'') of
                  (JStr p, JStr s) \<Rightarrow> Inr \<lparr>va_path = p, va_sha256 = s, va_size = dget r ''size''\<rparr>
                | _ \<Rightarrow> Inl OtherError)
      | _ \<Rightarrow> Inl OtherError)"

fun first_variant :: "jdict \<Rightarrow> string list \<Rightarrow> string list \<Rightarrow> as_error + variant" where
  "first_variant d path [] = Inl VariantNotFound"
| "first_variant d path (c # cs) =
     (case descend (JObj d) (path @ [c]) of None \<Rightarrow> first_variant d path cs | Some entry \<Rightarrow> variant_of entry)"

text \<open>A default version that is not a string is no key of the manifest.\<close>

definition manifest_variant :: "site \<Rightarrow> gpu \<Rightarrow> jdict \<Rightarrow> string \<Rightarrow> string \<Rightarrow> string option \<Rightarrow> string option \<Rightarrow> as_error + variant" where
  "manifest_variant st gp d capability name version arch =
     (case (case version of Some (c # s) \<Rightarrow> Inr (JStr (c # s)) | _ \<Rightarrow> default_version d capability name) of
        Inl e \<Rightarrow> Inl e
      | Inr v \<Rightarrow>
          (case (case arch of Some (c # s) \<Rightarrow> Inr [c # s] | _ \<Rightarrow> variant_candidates st gp) of
             Inl e \<Rightarrow> Inl e
           | Inr cands \<Rightarrow>
               (case v of JStr ver \<Rightarrow> first_variant d [capability, name, ver] cands | _ \<Rightarrow> Inl VariantNotFound)))"

section \<open>Network\<close>

fun lift :: "as_error + 'a \<Rightarrow> 'a act" where
  "lift (Inl e) = raise e"
| "lift (Inr x) = ret x"

abbreviation alter :: "(fs \<Rightarrow> fs option) \<Rightarrow> unit act" where
  "alter \<equiv> change_or OtherError"

text \<open>
  What an answer means to \<open>urlopen\<close> and the reads: a body, a failure worth another attempt (no
  connection, a broken body, a status from 500), or one that is not.
\<close>

datatype answer = Whole string | Torn string | Again | Final

definition judge :: "http_reply option \<Rightarrow> answer" where
  "judge r =
     (case r of
        None \<Rightarrow> Again
      | Some a \<Rightarrow>
          if 200 \<le> hr_status a \<and> hr_status a < 300
          then (if hr_broken a then Torn (concat (hr_chunks a)) else Whole (concat (hr_chunks a)))
          else if hr_status a < 500 then Final else Again)"

fun store_get :: "site \<Rightarrow> string \<Rightarrow> nat \<Rightarrow> nat \<Rightarrow> string act" where
  "store_get st url cap 0 = raise NetworkError"
| "store_get st url cap (Suc n) =
     seq (http_get st url 0) (\<lambda>r.
     (case judge r of
        Whole s \<Rightarrow> if cap < length s then raise ArtifactStoreError else ret s
      | Final \<Rightarrow> raise NetworkError
      | _ \<Rightarrow> store_get st url cap n))"

definition fetch_manifest :: "site \<Rightarrow> string option \<Rightarrow> jdict act" where
  "fetch_manifest st base h =
     (let url = (case base of Some (c # s) \<Rightarrow> c # s | _ \<Rightarrow> store_base_url st) @ ''/'' @ MANIFEST_PATH @ ''?cb='' @ show_int (h_now h) in
      case seq (store_get st url MAX_MANIFEST_BYTES 3) (\<lambda>raw.
           (case st_loads st raw of None \<Rightarrow> raise OtherError | Some j \<Rightarrow> lift (new_manifest j))) h of
        (Inl e, h1) \<Rightarrow> (Inl (if e \<in> {NetworkError, OtherError} then ManifestError else e), h1)
      | r \<Rightarrow> r)"

text \<open>\<open>unlink(missing_ok=True)\<close>.\<close>

definition unlink_ok :: "apath \<Rightarrow> fs \<Rightarrow> fs option" where
  "unlink_ok p fs = (if lstat fs p = None then Some fs else unlink fs p)"

fun download_tries :: "site \<Rightarrow> string \<Rightarrow> apath \<Rightarrow> nat \<Rightarrow> unit act" where
  "download_tries st url dest 0 = raise NetworkError"
| "download_tries st url dest (Suc n) =
     seq (http_get st url 0) (\<lambda>r.
     (case judge r of
        Whole s \<Rightarrow>
          seq (alter (\<lambda>fs. write_text fs (with_partial dest) s)) (\<lambda>_.
          alter (\<lambda>fs. os_replace fs (with_partial dest) dest))
      | Torn s \<Rightarrow>
          seq (alter (\<lambda>fs. write_text fs (with_partial dest) s)) (\<lambda>_.
          seq (alter (unlink_ok (with_partial dest))) (\<lambda>_. download_tries st url dest n))
      | Again \<Rightarrow> seq (alter (unlink_ok (with_partial dest))) (\<lambda>_. download_tries st url dest n)
      | Final \<Rightarrow> seq (alter (unlink_ok (with_partial dest))) (\<lambda>_. raise NetworkError)))"

definition download_to :: "site \<Rightarrow> string \<Rightarrow> apath \<Rightarrow> unit act" where
  "download_to st url dest = seq (alter (\<lambda>fs. mkdirs fs (butlast dest))) (\<lambda>_. download_tries st url dest 3)"

definition sha256_file :: "site \<Rightarrow> apath \<Rightarrow> string act" where
  "sha256_file st p =
     seq (asks (\<lambda>fs. read_text fs p)) (\<lambda>c.
     (case c of None \<Rightarrow> raise OtherError | Some bytes \<Rightarrow> ret (st_sha256 st bytes)))"

section \<open>Flat extraction\<close>

definition base_name :: "string \<Rightarrow> string" where
  "base_name s = path_name (path_of s)"

text \<open>\<open>dest_dir / name\<close>: an empty name is the directory itself.\<close>

definition beside :: "apath \<Rightarrow> string \<Rightarrow> apath" where
  "beside D x = (if x = [] then D else D @ [x])"

fun write_members :: "apath \<Rightarrow> (string \<times> string) list \<Rightarrow> unit act" where
  "write_members D [] = ret ()"
| "write_members D ((name, bytes) # ms) =
     seq (alter (\<lambda>fs. write_text fs (beside D (base_name name)) bytes)) (\<lambda>_. write_members D ms)"

text \<open>A link that cannot be made is skipped.\<close>

fun link_members :: "apath \<Rightarrow> (string \<times> string) list \<Rightarrow> fs \<Rightarrow> fs" where
  "link_members D [] fs = fs"
| "link_members D ((name, target) # ms) fs =
     (let p = beside D (base_name name) in
      link_members D ms
        (if path_exists fs p then fs
         else case symlink fs p (base_name target) of None \<Rightarrow> fs | Some fs1 \<Rightarrow> fs1))"

fun file_members :: "member list \<Rightarrow> (string \<times> string) list" where
  "file_members [] = []"
| "file_members ((n, MFile c) # ms) = (n, c) # file_members ms"
| "file_members (_ # ms) = file_members ms"

fun sym_members :: "member list \<Rightarrow> (string \<times> string) list" where
  "sym_members [] = []"
| "sym_members ((n, MSym t) # ms) = (n, t) # sym_members ms"
| "sym_members (_ # ms) = sym_members ms"

text \<open>
  The file members and the links of an archive, by its name.
\<close>

definition archive_members :: "site \<Rightarrow> string \<Rightarrow> string \<Rightarrow> as_error + (string \<times> string) list \<times> (string \<times> string) list" where
  "archive_members st name bytes =
     (let low = py_lower name in
      if endswith low ''.tar.gz'' \<or> endswith low ''.tgz'' then
        (case st_untar st bytes of None \<Rightarrow> Inl OtherError | Some ms \<Rightarrow> Inr (file_members ms, sym_members ms))
      else if endswith low ''.zip'' then
        (case st_unzip st bytes of
           None \<Rightarrow> Inl OtherError | Some ms \<Rightarrow> Inr (filter (\<lambda>m. \<not> endswith (fst m) ''/'') ms, []))
      else Inl ArtifactStoreError)"

definition extract_flat :: "site \<Rightarrow> apath \<Rightarrow> apath \<Rightarrow> unit act" where
  "extract_flat st archive D =
     seq (alter (\<lambda>fs. mkdirs fs D)) (\<lambda>_.
     seq (asks (\<lambda>fs. read_text fs archive)) (\<lambda>c.
     (case c of
        None \<Rightarrow> raise OtherError
      | Some bytes \<Rightarrow>
          seq (lift (archive_members st (last archive) bytes)) (\<lambda>m.
          seq (write_members D (fst m)) (\<lambda>_.
          alter (\<lambda>fs. Some (link_members D (snd m) fs)))))))"

section \<open>Fetching and installing\<close>

text \<open>Whether the archive is there already with the right digest.\<close>

definition cached_archive :: "site \<Rightarrow> variant \<Rightarrow> apath \<Rightarrow> bool act" where
  "cached_archive st v archive =
     seq (asks (\<lambda>fs. path_exists fs archive)) (\<lambda>present.
     if present then seq (sha256_file st archive) (\<lambda>s. ret (s = va_sha256 v)) else ret False)"

text \<open>The size and the digest of what was downloaded; a file that does not match is removed.\<close>

definition checked_archive :: "site \<Rightarrow> variant \<Rightarrow> apath \<Rightarrow> apath act" where
  "checked_archive st v archive =
     seq (asks (\<lambda>fs. read_text fs archive)) (\<lambda>c.
     (case c of
        None \<Rightarrow> raise OtherError
      | Some bytes \<Rightarrow>
          if va_size v \<noteq> JNull \<and> \<not> py_eq (JInt (int (length bytes))) (va_size v)
          then seq (alter (unlink_ok archive)) (\<lambda>_. raise VerificationError)
          else if st_sha256 st bytes \<noteq> va_sha256 v
          then seq (alter (unlink_ok archive)) (\<lambda>_. raise VerificationError)
          else ret archive))"

definition fetch_variant :: "site \<Rightarrow> variant \<Rightarrow> apath \<Rightarrow> string option \<Rightarrow> apath act" where
  "fetch_variant st v cache base =
     (let archive = beside cache (base_name (va_path v)) in
      seq (alter (\<lambda>fs. mkdirs fs cache)) (\<lambda>_.
      seq (cached_archive st v archive) (\<lambda>cached.
      if cached then ret archive
      else
        seq (download_to st (variant_url st base v) archive) (\<lambda>_.
        checked_archive st v archive))))"

definition rmtree_ignoring :: "apath \<Rightarrow> fs \<Rightarrow> fs option" where
  "rmtree_ignoring p fs = (case rmtree fs p of None \<Rightarrow> Some fs | Some fs1 \<Rightarrow> Some fs1)"

definition hidden :: "apath \<Rightarrow> string \<Rightarrow> apath" where
  "hidden dest s = butlast dest @ [''.'' @ last dest @ s]"

definition atomic_swap :: "apath \<Rightarrow> apath \<Rightarrow> unit act" where
  "atomic_swap staging dest =
     seq (alter (rmtree_ignoring (hidden dest ''.old''))) (\<lambda>_.
     seq (asks (\<lambda>fs. path_exists fs dest)) (\<lambda>present.
     seq (if present then alter (\<lambda>fs. os_replace fs dest (hidden dest ''.old'')) else ret ()) (\<lambda>_.
     seq (alter (\<lambda>fs. os_replace fs staging dest)) (\<lambda>_.
     alter (rmtree_ignoring (hidden dest ''.old''))))))"

definition MARKER :: string where "MARKER = ''.artifact-sha256''"

definition engine_installed :: "apath \<Rightarrow> variant \<Rightarrow> bool act" where
  "engine_installed dest v =
     seq (asks (\<lambda>fs. is_dir fs dest \<and> path_exists fs (dest @ [MARKER]))) (\<lambda>marked.
     if marked then
       seq (asks (\<lambda>fs. read_text fs (dest @ [MARKER]))) (\<lambda>c.
       (case c of None \<Rightarrow> raise OtherError | Some t \<Rightarrow> ret (py_strip t = va_sha256 v)))
     else ret False)"

definition install_engine :: "site \<Rightarrow> variant \<Rightarrow> apath \<Rightarrow> string option \<Rightarrow> apath act" where
  "install_engine st v dest base =
     seq (fetch_variant st v (hidden dest ''-cache'') base) (\<lambda>archive.
     seq (alter (rmtree_ignoring (hidden dest ''.staging''))) (\<lambda>_.
     seq (extract_flat st archive (hidden dest ''.staging'')) (\<lambda>_.
     seq (alter (\<lambda>fs. write_text fs (hidden dest ''.staging'' @ [MARKER]) (va_sha256 v))) (\<lambda>_.
     seq (atomic_swap (hidden dest ''.staging'') dest) (\<lambda>_.
     seq (alter (unlink_ok archive)) (\<lambda>_. ret dest))))))"

text \<open>
  The lock file is created and locked where the host can; the second look is under the lock, where
  \<open>meanwhile\<close> is what another process did while this one waited.
\<close>

definition ensure_engine :: "site \<Rightarrow> gpu \<Rightarrow> (fs \<Rightarrow> fs) \<Rightarrow> string \<Rightarrow> string option \<Rightarrow> apath \<Rightarrow> jdict option \<Rightarrow> string option \<Rightarrow>
    string option \<Rightarrow> apath act" where
  "ensure_engine st gp meanwhile name version dest manifest base arch =
     seq (case manifest of Some d \<Rightarrow> ret d | None \<Rightarrow> fetch_manifest st base) (\<lambda>d.
     seq (lift (manifest_variant st gp d CAPABILITY_ENGINES name version arch)) (\<lambda>v.
     seq (engine_installed dest v) (\<lambda>there.
     if there then ret dest
     else
       seq (alter (\<lambda>fs. mkdirs fs (butlast dest))) (\<lambda>_.
       seq (alter (\<lambda>fs. write_text fs (hidden dest ''.lock'') [])) (\<lambda>_.
       seq (alter (\<lambda>fs. Some (meanwhile fs))) (\<lambda>_.
       seq (engine_installed dest v) (\<lambda>now_there.
       if now_there then ret dest else install_engine st v dest base)))))))"

section \<open>The directories of an engine\<close>

text \<open>
  \<open>R\<close> is the directory of all engines and \<open>n\<close> the engine; the working directories are its neighbours.
\<close>

abbreviation cache_name :: "string \<Rightarrow> string" where "cache_name n \<equiv> ''.'' @ n @ ''-cache''"
abbreviation staging_name :: "string \<Rightarrow> string" where "staging_name n \<equiv> ''.'' @ n @ ''.staging''"
abbreviation lock_name :: "string \<Rightarrow> string" where "lock_name n \<equiv> ''.'' @ n @ ''.lock''"
abbreviation old_name :: "string \<Rightarrow> string" where "old_name n \<equiv> ''.'' @ n @ ''.old''"

lemma hidden_snoc [simp]: "hidden (R @ [n]) x = R @ [''.'' @ n @ x]"
  by (simp add: hidden_def)

lemma longer_ne: "length a \<noteq> length b \<Longrightarrow> a \<noteq> b"
  by auto

lemma work_names [simp]:
  "cache_name n \<noteq> n" "staging_name n \<noteq> n" "lock_name n \<noteq> n" "old_name n \<noteq> n"
  "cache_name n \<noteq> staging_name n" "cache_name n \<noteq> lock_name n" "cache_name n \<noteq> old_name n"
  "staging_name n \<noteq> lock_name n" "staging_name n \<noteq> old_name n" "lock_name n \<noteq> old_name n"
  "cache_name n \<noteq> ''..''" "staging_name n \<noteq> ''..''" "lock_name n \<noteq> ''..''" "old_name n \<noteq> ''..''"
  by (auto dest: arg_cong [of _ _ length])

text \<open>A directory entry \<open>a\<close> of \<open>R\<close> and what is below it.\<close>

definition at_entry :: "apath \<Rightarrow> string \<Rightarrow> apath \<Rightarrow> bool" where
  "at_entry R a q \<longleftrightarrow> prefix (R @ [a]) q"

lemma at_entry_unique: "at_entry R a q \<Longrightarrow> at_entry R b q \<Longrightarrow> a = b"
  by (auto simp: at_entry_def prefix_def)

lemma at_entry_self [simp]: "at_entry R a (R @ [b]) \<longleftrightarrow> b = a" "at_entry R a (R @ b # cs) \<longleftrightarrow> b = a"
  by (auto simp: at_entry_def)

lemma not_at_entry_prefix: "prefix q R \<Longrightarrow> \<not> at_entry R a q"
  using prefix_length_le [of q R] prefix_length_le [of "R @ [a]" q] by (auto simp: at_entry_def)

lemma below_at_entry: "strict_prefix (R @ [a]) q \<Longrightarrow> at_entry R a q"
  by (simp add: at_entry_def strict_prefix_def)

text \<open>Nothing but the given entries of \<open>R\<close> differs.\<close>

definition only_entries :: "apath \<Rightarrow> string set \<Rightarrow> fs \<Rightarrow> fs \<Rightarrow> bool" where
  "only_entries R A fs fs' \<longleftrightarrow> (\<forall>q. (\<forall>a \<in> A. \<not> at_entry R a q) \<longrightarrow> node fs' q = node fs q)"

lemma only_entries_refl [simp]: "only_entries R A fs fs"
  by (simp add: only_entries_def)

lemma only_entries_trans: "only_entries R A a b \<Longrightarrow> only_entries R A b c \<Longrightarrow> only_entries R A a c"
  by (simp add: only_entries_def)

lemma only_entries_mono: "only_entries R A a b \<Longrightarrow> A \<subseteq> B \<Longrightarrow> only_entries R B a b"
  by (auto simp: only_entries_def)

lemma only_entries_at: "only_entries R A a b \<Longrightarrow> at_entry R x q \<Longrightarrow> x \<notin> A \<Longrightarrow> node b q = node a q"
  unfolding only_entries_def by (metis at_entry_unique)

lemma only_entries_canonical: "only_entries R A a b \<Longrightarrow> canonical a R \<Longrightarrow> canonical b R"
  unfolding canonical_def only_entries_def by (metis not_at_entry_prefix take_is_prefix)

lemma only_entries_canonical_at:
  "only_entries R A a b \<Longrightarrow> canonical a (R @ [x]) \<Longrightarrow> x \<notin> A \<Longrightarrow> canonical b (R @ [x])"
  using only_entries_canonical [of R A a b] only_entries_at [of R A a b x "R @ [x]"] by (simp add: canonical_Snoc)

lemma only_entries_put: "at_entry R x q \<Longrightarrow> x \<in> A \<Longrightarrow> only_entries R A fs (put q e fs)"
  by (cases "q = []") (auto simp: only_entries_def node_put at_entry_def)

lemma only_entries_drop: "x \<in> A \<Longrightarrow> only_entries R A fs (drop_tree (R @ [x]) fs)"
  by (auto simp: only_entries_def node_drop_tree at_entry_def)

lemma only_entries_stays: "stays (R @ [x]) fs (Some fs') \<Longrightarrow> x \<in> A \<Longrightarrow> only_entries R A fs fs'"
  unfolding stays_Some same_outside_def only_entries_def using below_at_entry by blast

section \<open>Fetching keeps to the cache\<close>

definition cache_inv :: "apath \<Rightarrow> string \<Rightarrow> fs \<Rightarrow> fs \<Rightarrow> bool" where
  "cache_inv R n fs0 fs \<longleftrightarrow> only_entries R {cache_name n} fs0 fs \<and> guarded (R @ [cache_name n]) fs"

interpretation engine_cache: write_zone "R @ [cache_name n]" "cache_inv R n fs0" for R n fs0
proof unfold_locales
  fix fs fs' assume inv: "cache_inv R n fs0 fs" and st: "stays (R @ [cache_name n]) fs (Some fs')"
  then show "cache_inv R n fs0 fs'"
    unfolding cache_inv_def using stays_guarded only_entries_stays [OF st, of "{cache_name n}"] only_entries_trans by blast
qed (simp add: cache_inv_def)

lemma unlink_ok_stays:
  assumes "guarded D fs" "''..'' \<notin> set cs" "cs \<noteq> []"
  shows "stays D fs (unlink_ok (D @ cs) fs)"
  using unlink_stays [OF assms] assms(1) by (simp add: unlink_ok_def stays_Some guarded_def)

context write_zone
begin

lemma partial_steps:
  assumes "a \<noteq> []" "a \<noteq> ''..''"
  shows "triple (on_fs inv) (change_or e (\<lambda>fs. write_text fs (zone @ [a @ ''.partial'']) s)) (\<lambda>_. True)"
    "triple (on_fs inv) (change_or e (unlink_ok (zone @ [a @ ''.partial'']))) (\<lambda>_. True)"
    "triple (on_fs inv) (change_or e (\<lambda>fs. os_replace fs (zone @ [a @ ''.partial'']) (zone @ [a]))) (\<lambda>_. True)"
    "triple (on_fs inv) (change_or e (unlink_ok (zone @ [a]))) (\<lambda>_. True)"
    "triple (on_fs inv) (change_or e (\<lambda>fs. mkdirs fs zone)) (\<lambda>_. True)"
  using partial_name [OF assms(1)] assms(2) mkdirs_stays [of zone _ "[]"]
  by (auto intro!: triple_zone write_text_stays unlink_ok_stays os_replace_stays)

lemma download_tries_zone:
  assumes "a \<noteq> []" "a \<noteq> ''..''"
  shows "triple (on_fs inv) (download_tries st url (zone @ [a]) k) (\<lambda>_. True)"
proof (induction k)
  case (Suc k)
  note steps = partial_steps [OF assms, where e = OtherError]
  show ?case
    unfolding download_tries.simps
    by (rule triple_seq [OF triple_http_get [where Q = "\<lambda>_. True"]])
      (auto intro!: triple_raise triple_seq [OF steps(1)] triple_seq [OF steps(2)] steps(3) Suc.IH split: answer.split)
qed (simp add: triple_raise)

lemma checked_archive_zone:
  assumes "a \<noteq> []" "a \<noteq> ''..''"
  shows "triple (on_fs inv) (checked_archive st v (zone @ [a])) (\<lambda>_. True)"
  unfolding checked_archive_def
  by (rule triple_skip) (auto intro!: triple_rules triple_seq [OF partial_steps(4) [OF assms]] split: option.split)

lemma fetch_zone:
  assumes "a \<noteq> []" "a \<noteq> ''..''"
  shows "triple (on_fs inv) (seq (download_to st url (zone @ [a])) (\<lambda>_. checked_archive st v (zone @ [a]))) (\<lambda>_. True)"
  unfolding download_to_def butlast_snoc
  by (rule triple_seq [OF triple_seq [OF partial_steps(5) [OF assms] download_tries_zone [OF assms]]
      checked_archive_zone [OF assms]])

end

definition verified :: "site \<Rightarrow> variant \<Rightarrow> apath \<Rightarrow> fs \<Rightarrow> bool" where
  "verified st v p fs \<longleftrightarrow> (\<exists>bytes. read_text fs p = Some bytes \<and> st_sha256 st bytes = va_sha256 v)"

lemma cached_archive_spec:
  assumes "cached_archive st v p h = (r, h')"
  shows "h' = h \<and> (r = Inr True \<longrightarrow> verified st v p (h_fs h))"
  using assms
  by (auto simp: cached_archive_def sha256_file_def seq_def asks_def ret_def raise_def verified_def split: if_splits option.splits)

lemma checked_archive_spec:
  assumes "checked_archive st v p h = (Inr x, h')"
  shows "x = p \<and> h' = h \<and> verified st v p (h_fs h)"
  using assms
  by (auto simp: checked_archive_def seq_def asks_def ret_def raise_def change_or_def verified_def split: if_splits option.splits)

text \<open>A name that denotes a directory is refused before anything is downloaded.\<close>

lemma cached_archive_refuses:
  assumes "canonical (h_fs h) (R @ [c])" "x = [] \<or> x = ''..''"
  shows "cached_archive st v (beside (R @ [c]) x) h = (Inl OtherError, h)"
proof -
  have "canonical (h_fs h) R" using assms(1) by (simp add: canonical_Snoc)
  have "realpath (h_fs h) (beside (R @ [c]) x) = Some (if x = [] then R @ [c] else R)"
    using assms(2) realpath_canonical [OF assms(1)] walk_canonical [OF assms(1), of 40 "[''..'']"]
    by (auto simp: beside_def realpath_def)
  then have "is_dir_entry (stat (h_fs h) (beside (R @ [c]) x))"
    using canonical_node [OF assms(1)] canonical_node [OF \<open>canonical (h_fs h) R\<close>] by (auto simp: stat_def)
  then show ?thesis
    by (cases "stat (h_fs h) (beside (R @ [c]) x)" rule: is_dir_entry.cases)
      (auto simp: cached_archive_def sha256_file_def seq_def asks_def raise_def path_exists_def read_text_def)
qed

lemma mkdirs_entry:
  assumes "canonical fs R" "c \<noteq> ''..''" "\<not> is_link_entry (node fs (R @ [c]))" "mkdirs fs (R @ [c]) = Some fs1"
  shows "(fs1 = fs \<or> (node fs (R @ [c]) = None \<and> fs1 = put (R @ [c]) (EDir 0) fs)) \<and> canonical fs1 (R @ [c])"
proof (cases "node fs (R @ [c])")
  case None
  with assms have "fs1 = put (R @ [c]) (EDir 0) fs"
    by (simp add: mkdirs_canonical stat_plain lpath_canonical)
  moreover have "canonical (put (R @ [c]) (EDir 0) fs) R"
    using only_entries_canonical [OF only_entries_put assms(1), of c "R @ [c]" "{c}"] by simp
  ultimately show ?thesis using None assms(2) by (simp add: canonical_Snoc node_put)
next
  case (Some e)
  with assms show ?thesis
    by (cases e) (auto simp: mkdirs_canonical stat_plain canonical_Snoc)
qed

text \<open>What is on disk around an engine before anything is fetched: no links where the code works.\<close>

definition site_ok :: "apath \<Rightarrow> string \<Rightarrow> fs \<Rightarrow> bool" where
  "site_ok R n fs \<longleftrightarrow> canonical fs R \<and> n \<noteq> ''..'' \<and> tame (R @ [cache_name n]) fs \<and>
     (\<forall>x \<in> {cache_name n, staging_name n, lock_name n, old_name n}. \<not> is_link_entry (node fs (R @ [x]))) \<and>
     (node fs (R @ [staging_name n]) = None \<longrightarrow> (\<forall>q. strict_prefix (R @ [staging_name n]) q \<longrightarrow> node fs q = None))"

lemma cache_inv_mkdirs:
  assumes "site_ok R n fs" "mkdirs fs (R @ [cache_name n]) = Some fs1"
  shows "cache_inv R n fs fs1"
proof -
  from assms(1) have ok: "canonical fs R" "tame (R @ [cache_name n]) fs" "\<not> is_link_entry (node fs (R @ [cache_name n]))"
    by (auto simp: site_ok_def)
  from mkdirs_entry [OF ok(1) _ ok(3) assms(2)] have m: "fs1 = fs \<or> fs1 = put (R @ [cache_name n]) (EDir 0) fs"
    "canonical fs1 (R @ [cache_name n])" by auto
  then have "tame (R @ [cache_name n]) fs1" using tame_put [OF ok(2)] ok(2) by auto
  with m show ?thesis by (auto simp: cache_inv_def guarded_def intro: only_entries_put)
qed

lemma fetch_variant_spec:
  assumes ok: "site_ok R n (h_fs h)" and run: "fetch_variant st v (R @ [cache_name n]) base h = (r, h1)"
  shows "only_entries R {cache_name n} (h_fs h) (h_fs h1) \<and>
    (\<forall>a. r = Inr a \<longrightarrow> cache_inv R n (h_fs h) (h_fs h1) \<and>
       (\<exists>x. a = R @ [cache_name n, x] \<and> x \<noteq> [] \<and> x \<noteq> ''..'' \<and> x = base_name (va_path v)) \<and> verified st v a (h_fs h1))"
proof -
  define x where "x = base_name (va_path v)"
  define p where "p = beside (R @ [cache_name n]) x"
  have "seq (alter (\<lambda>fs. mkdirs fs (R @ [cache_name n]))) (\<lambda>_. seq (cached_archive st v p) (\<lambda>cached.
      if cached then ret p else seq (download_to st (variant_url st base v) p) (\<lambda>_. checked_archive st v p))) h = (r, h1)"
    using run unfolding fetch_variant_def Let_def p_def x_def .
  then show ?thesis
  proof (cases rule: seqE)
    case first
    then show ?thesis by (auto simp: change_or_def split: option.splits)
  next
    case (both u ha)
    then obtain fs1 where fs1: "mkdirs (h_fs h) (R @ [cache_name n]) = Some fs1" "ha = h\<lparr>h_fs := fs1\<rparr>"
      by (auto simp: change_or_def split: option.splits)
    have inv: "cache_inv R n (h_fs h) (h_fs ha)" using cache_inv_mkdirs [OF ok fs1(1)] fs1(2) by simp
    have outside: "only_entries R {cache_name n} (h_fs h) fs" if "cache_inv R n (h_fs h) fs" for fs
      using that by (simp add: cache_inv_def)
    obtain c hb where c: "cached_archive st v p ha = (c, hb)" by fastforce
    with cached_archive_spec [OF c] have hb: "hb = ha" and ver: "c = Inr True \<Longrightarrow> verified st v p (h_fs ha)" by auto
    show ?thesis
    proof (cases "x = [] \<or> x = ''..''")
      case True
      have "canonical (h_fs ha) (R @ [cache_name n])" using inv by (simp add: cache_inv_def guarded_def)
      from cached_archive_refuses [OF this True, of st v] c hb both(2) outside [OF inv] show ?thesis
        by (auto simp: seq_def p_def)
    next
      case False
      then have p: "p = R @ [cache_name n, x]" by (simp add: p_def beside_def)
      have zone: "triple (on_fs (cache_inv R n (h_fs h)))
          (seq (download_to st (variant_url st base v) p) (\<lambda>_. checked_archive st v p)) (\<lambda>_. True)"
        using engine_cache.fetch_zone [of x R n "h_fs h"] False p by simp
      from both(2) show ?thesis
      proof (cases rule: seqE)
        case first
        with c hb outside [OF inv] show ?thesis by simp
      next
        case (both b hc)
        with c hb have hc: "hc = ha" "c = Inr b" by auto
        show ?thesis
        proof (cases b)
          case True
          with both(2) hc ver inv p False outside [OF inv] x_def show ?thesis by (auto simp: ret_def)
        next
          case b: False
          with both(2) hc have tail: "seq (download_to st (variant_url st base v) p) (\<lambda>_. checked_archive st v p) ha = (r, h1)" by simp
          with zone inv have inv1: "cache_inv R n (h_fs h) (h_fs h1)"
            unfolding triple_def on_fs_def by (metis snd_conv)
          have "r = Inr a \<Longrightarrow> a = p \<and> verified st v p (h_fs h1)" for a
            using tail by (cases rule: seqE) (auto dest: checked_archive_spec)
          with inv1 outside [OF inv1] p False x_def show ?thesis by auto
        qed
      qed
    qed
  qed
qed

section \<open>Reading below an untouched directory\<close>

lemma walk_same:
  "tame D fs \<Longrightarrow> (\<And>q. prefix D q \<Longrightarrow> node fs' q = node fs q) \<Longrightarrow> prefix D cur \<Longrightarrow> ''..'' \<notin> set cs \<Longrightarrow>
     walk n fs' cur cs = walk n fs cur cs"
proof (induction n fs cur cs rule: walk.induct)
  case (2 n fs cur c cs)
  have below: "prefix D (cur @ [c])" using 2(6) by simp
  have same: "node fs' (cur @ [c]) = node fs (cur @ [c])" using 2(5) [OF below] .
  show ?case
  proof (cases "node fs (cur @ [c])")
    case None
    with same 2(7) show ?thesis by auto
  next
    case (Some e)
    show ?thesis
    proof (cases e)
      case (ELink t)
      with Some below 2(4) have "tame_target t" unfolding tame_def by blast
      then have "\<not> startswith t ''/''" "''..'' \<notin> set (path_parts t @ cs)" using 2(7) by (auto simp: tame_target_def)
      moreover have "walk k fs' cur (path_parts t @ cs) = walk k fs cur (path_parts t @ cs)" if "n = Suc k" for k
        using 2(3) [of "ELink t" t k] calculation that 2(4-7) Some ELink by auto
      ultimately show ?thesis using 2(7) Some ELink same by (cases n) auto
    qed (use 2 Some same below in auto)
  qed
qed simp

lemma read_text_same:
  assumes "guarded D fs" "\<And>q. prefix D q \<Longrightarrow> node fs' q = node fs q" "canonical fs' D" "''..'' \<notin> set cs"
  shows "read_text fs' (D @ cs) = read_text fs (D @ cs)"
proof -
  have "walk 40 fs' D cs = walk 40 fs D cs"
    using walk_same [of D fs fs' D cs 40] assms by (simp add: guarded_def)
  then have rp: "realpath fs' (D @ cs) = realpath fs (D @ cs)"
    using walk_canonical [OF assms(3)] walk_canonical [of fs D] assms(1) by (simp add: realpath_def guarded_def)
  have "stat fs' (D @ cs) = stat fs (D @ cs)"
    using rp realpath_below [OF assms(1) _ assms(4)] assms(2) by (auto simp: stat_def split: option.split)
  then show ?thesis by (simp add: read_text_def)
qed

end
