(* ===== verification/Engines.thy ===== *)
theory Engines
  imports Artifact_Store Bundle
begin

text \<open>
  \<open>infra/engines.py\<close>, and what an installation by \<open>ensure_engine\<close> leaves on disk: the tree at the
  engine's directory is never anything but what it was before or the contents of one archive with
  the digest of the manifest, next to the marker.
\<close>

section \<open>Engines\<close>

text \<open>\<open>cwd\<close> is where a relative \<open>LOCAI_INSTALL_ROOT\<close> starts.\<close>

definition install_root_of :: "site \<Rightarrow> apath \<Rightarrow> apath option \<Rightarrow> apath act" where
  "install_root_of st cwd root =
     (case root of
        Some r \<Rightarrow> ret r
      | None \<Rightarrow>
          (case st_env st ''LOCAI_INSTALL_ROOT'' of
             Some (c # s) \<Rightarrow> ret (if path_root (c # s) = [] then cwd @ path_parts (c # s) else path_parts (c # s))
           | _ \<Rightarrow> (\<lambda>h. case discover_install_root st h of
                        (Inl e, h1) \<Rightarrow> (Inl OtherError, h1) | (Inr r, h1) \<Rightarrow> (Inr r, h1))))"

definition engine_cache_root :: "site \<Rightarrow> apath \<Rightarrow> apath option \<Rightarrow> apath act" where
  "engine_cache_root st cwd root = seq (install_root_of st cwd root) (\<lambda>r. ret (r @ [''engines'']))"

definition provision :: "site \<Rightarrow> gpu \<Rightarrow> (fs \<Rightarrow> fs) \<Rightarrow> apath \<Rightarrow> string \<Rightarrow> string option \<Rightarrow> apath option \<Rightarrow> string option \<Rightarrow> apath act" where
  "provision st gp meanwhile cwd name version root base =
     seq (engine_cache_root st cwd root) (\<lambda>r.
     let dest = beside r name in
     seq (ensure_engine st gp meanwhile name version dest None base None) (\<lambda>_. ret dest))"

definition binary_path :: "site \<Rightarrow> gpu \<Rightarrow> (fs \<Rightarrow> fs) \<Rightarrow> apath \<Rightarrow> string \<Rightarrow> string \<Rightarrow> string option \<Rightarrow> apath option \<Rightarrow> string option \<Rightarrow> apath act" where
  "binary_path st gp meanwhile cwd name binary version root base =
     seq (provision st gp meanwhile cwd name version root base) (\<lambda>bin_dir.
     seq (asks (\<lambda>fs. path_exists fs (beside bin_dir binary))) (\<lambda>there.
     if there then ret (beside bin_dir binary) else raise ArtifactStoreError))"

section \<open>The staging directory\<close>

text \<open>A directory with entries of a kind and nothing deeper.\<close>

definition flat :: "apath \<Rightarrow> (string \<Rightarrow> entry \<Rightarrow> bool) \<Rightarrow> fs \<Rightarrow> bool" where
  "flat D P fs \<longleftrightarrow> canonical fs D \<and>
     (\<forall>q e. strict_prefix D q \<longrightarrow> node fs q = Some e \<longrightarrow> (\<exists>x. q = D @ [x] \<and> P x e))"

definition archive_file :: "(string \<times> string) list \<Rightarrow> string \<Rightarrow> entry \<Rightarrow> bool" where
  "archive_file files x e \<longleftrightarrow> (\<exists>name c. (name, c) \<in> set files \<and> x = base_name name \<and> e = EFile c)"

definition archive_link :: "(string \<times> string) list \<Rightarrow> string \<Rightarrow> entry \<Rightarrow> bool" where
  "archive_link links x e \<longleftrightarrow> (\<exists>name t. (name, t) \<in> set links \<and> x = base_name name \<and> e = ELink (base_name t))"

lemma flat_put:
  assumes "flat D P fs" "D \<noteq> []" "P x e"
  shows "flat D P (put (D @ [x]) e fs)"
proof -
  have "canonical (put (D @ [x]) e fs) D"
    using same_outside_canonical [OF same_outside_put, of D "D @ [x]"] assms(1) by (simp add: flat_def)
  with assms show ?thesis by (auto simp: flat_def node_put)
qed

lemma flat_mono: "flat D P fs \<Longrightarrow> (\<And>x e. P x e \<Longrightarrow> Q x e) \<Longrightarrow> flat D Q fs"
  unfolding flat_def by blast

lemma flat_entry: "flat D P fs \<Longrightarrow> node fs (D @ [x]) = Some e \<Longrightarrow> P x e"
  by (auto simp: flat_def dest!: spec [of _ "D @ [x]"])

lemma dotdot_dir:
  assumes "canonical fs (R @ [s])"
  shows "stat fs (R @ [s, ''..'']) = node fs R" "realpath fs (R @ [s, ''..'']) = Some R" "is_dir_entry (node fs R)"
proof -
  show "realpath fs (R @ [s, ''..'']) = Some R"
    using walk_canonical [OF assms, of 40 "[''..'']"] by (simp add: realpath_def)
  then show "stat fs (R @ [s, ''..'']) = node fs R" by (simp add: stat_def)
  show "is_dir_entry (node fs R)" using assms canonical_node by (simp add: canonical_Snoc)
qed

lemma write_beside:
  assumes "canonical fs (R @ [s])" "\<not> is_link_entry (node fs (R @ [s, x]))" "write_text fs (beside (R @ [s]) x) c = Some fs1"
  shows "x \<noteq> [] \<and> x \<noteq> ''..'' \<and> fs1 = put (R @ [s, x]) (EFile c) fs"
proof -
  have "x \<noteq> []"
    using assms(3) realpath_canonical [OF assms(1)] canonical_node [OF assms(1)] by (auto simp: write_text_def beside_def)
  moreover have "x \<noteq> ''..''"
    using assms(3) dotdot_dir [OF assms(1)] by (auto simp: write_text_def beside_def)
  ultimately show ?thesis
    using assms realpath_plain [OF assms(1), of x] by (auto simp: write_text_def beside_def split: if_splits)
qed

abbreviation staging_inv :: "apath \<Rightarrow> string \<Rightarrow> fs \<Rightarrow> (string \<Rightarrow> entry \<Rightarrow> bool) \<Rightarrow> fs \<Rightarrow> bool" where
  "staging_inv R s fs0 P fs \<equiv> only_entries R {s} fs0 fs \<and> flat (R @ [s]) P fs"

lemma staging_inv_put:
  assumes "staging_inv R s fs0 P fs" "P x e"
  shows "staging_inv R s fs0 P (put (R @ [s, x]) e fs)"
  using assms flat_put [of "R @ [s]" P fs x e] only_entries_trans [OF _ only_entries_put [of R s "R @ [s, x]" "{s}" fs e]] by simp

text \<open>Every name of a list of members is a file of the directory.\<close>

definition all_files :: "apath \<Rightarrow> (string \<times> string) list \<Rightarrow> fs \<Rightarrow> bool" where
  "all_files D ms fs \<longleftrightarrow> (\<forall>m \<in> set ms. is_file_entry (node fs (D @ [base_name (fst m)])))"

lemma all_files_put: "all_files D ms fs \<Longrightarrow> all_files D ms (put (D @ [x]) (EFile c) fs)"
  by (auto simp: all_files_def node_put)

lemma all_files_add: "all_files D ms fs \<Longrightarrow> node fs (D @ [x]) = None \<Longrightarrow> all_files D ms (put (D @ [x]) e fs)"
  by (fastforce simp: all_files_def node_put)

lemma write_members_run:
  assumes "write_members (R @ [s]) ms h = (r, h')" "set ms \<subseteq> set files"
    "staging_inv R s fs0 (archive_file files) (h_fs h)" "all_files (R @ [s]) pre (h_fs h)"
  shows "staging_inv R s fs0 (archive_file files) (h_fs h') \<and> (r = Inr () \<longrightarrow> all_files (R @ [s]) (pre @ ms) (h_fs h'))"
  using assms
proof (induction ms arbitrary: pre h)
  case (Cons m ms)
  obtain name c where m: "m = (name, c)" by fastforce
  let ?x = "base_name name"
  from Cons.prems(1) [unfolded m write_members.simps] show ?case
  proof (cases rule: seqE)
    case first
    with Cons.prems show ?thesis by (auto simp: change_or_def split: option.splits)
  next
    case (both u h1)
    then obtain fs1 where w: "write_text (h_fs h) (beside (R @ [s]) ?x) c = Some fs1" "h1 = h\<lparr>h_fs := fs1\<rparr>"
      by (auto simp: change_or_def split: option.splits)
    have "\<not> is_link_entry (node (h_fs h) (R @ [s, ?x]))"
      using flat_entry [of "R @ [s]" "archive_file files" "h_fs h" ?x] Cons.prems(3)
      by (cases "node (h_fs h) (R @ [s, ?x])") (auto simp: archive_file_def)
    with write_beside [OF _ _ w(1)] Cons.prems(3) have fs1: "fs1 = put (R @ [s, ?x]) (EFile c) (h_fs h)"
      by (simp add: flat_def)
    have "archive_file files ?x (EFile c)" using Cons.prems(2) m by (auto simp: archive_file_def)
    with Cons.prems(3) staging_inv_put fs1 w(2) have inv: "staging_inv R s fs0 (archive_file files) (h_fs h1)" by simp
    have "all_files (R @ [s]) (pre @ [m]) (h_fs h1)"
      using all_files_put [OF Cons.prems(4), of ?x c] fs1 w(2) m by (auto simp: all_files_def node_put)
    from Cons.IH [OF both(2) _ inv this] Cons.prems(2) show ?thesis by simp
  qed
qed (simp add: ret_def)

text \<open>Links are only added, under names that were free.\<close>

lemma link_members_run:
  assumes "staging_inv R s fs0 P fs" "\<And>name t. (name, t) \<in> set ls \<Longrightarrow> P (base_name name) (ELink (base_name t))"
    and "all_files (R @ [s]) ms fs"
  shows "staging_inv R s fs0 P (link_members (R @ [s]) ls fs) \<and> all_files (R @ [s]) ms (link_members (R @ [s]) ls fs)"
  using assms
proof (induction ls arbitrary: fs)
  case (Cons l ls)
  obtain name t where l: "l = (name, t)" by fastforce
  let ?x = "base_name name" and ?p = "beside (R @ [s]) (base_name name)"
  define fs1 where "fs1 = (if path_exists fs ?p then fs else case symlink fs ?p (base_name t) of None \<Rightarrow> fs | Some a \<Rightarrow> a)"
  have can: "canonical fs (R @ [s])" using Cons.prems(1) by (simp add: flat_def)
  have "fs1 = fs \<or> (node fs (R @ [s, ?x]) = None \<and> fs1 = put (R @ [s, ?x]) (ELink (base_name t)) fs)"
  proof (cases "?x = [] \<or> ?x = ''..''")
    case True
    then have "path_exists fs ?p"
      using dotdot_dir(1,3) [OF can] realpath_canonical [OF can] canonical_node [OF can]
      by (cases "node fs R"; cases "node fs (R @ [s])") (auto simp: beside_def path_exists_def stat_def)
    then show ?thesis by (simp add: fs1_def)
  next
    case False
    with lpath_canonical [OF can, of ?x] show ?thesis
      by (simp add: fs1_def symlink_def beside_def)
  qed
  moreover have "P ?x (ELink (base_name t))" using Cons.prems(2) l by simp
  ultimately have "staging_inv R s fs0 P fs1 \<and> all_files (R @ [s]) ms fs1"
    using Cons.prems(1,3) staging_inv_put [of R s fs0 fs P ?x "ELink (base_name t)"]
      all_files_add [of "R @ [s]" ms fs ?x] by auto
  then show ?case using Cons.IH [of fs1] Cons.prems(2) l by (simp add: Let_def fs1_def)
qed simp

section \<open>The marker\<close>

text \<open>
  The links of a flat directory name neighbours, the directory or its parent, so a path that starts
  there ends there.
\<close>

lemma base_name_plain: "CHR ''/'' \<notin> set (base_name s)" "base_name s \<noteq> ''.''"
proof -
  have "base_name s = [] \<or> base_name s \<in> set (path_parts s)"
    by (simp add: base_name_def path_name_def path_of_def)
  then show "CHR ''/'' \<notin> set (base_name s)" "base_name s \<noteq> ''.''"
    by (auto simp: path_parts_def dest: split_char_parts_no_sep)
qed

lemma flat_walk:
  assumes "flat D P fs" "\<forall>x t. P x (ELink t) \<longrightarrow> (\<exists>u. t = base_name u)" "walk n fs D [x] = Some q"
  shows "q = D \<or> q = butlast D \<or> (\<exists>y. q = D @ [y] \<and> y \<noteq> ''..'')"
  using assms(3)
proof (induction n arbitrary: x)
  case (Suc n)
  show ?case
  proof (cases "\<exists>t. node fs (D @ [x]) = Some (ELink t)")
    case True
    then obtain u where u: "node fs (D @ [x]) = Some (ELink (base_name u))"
      using flat_entry [OF assms(1)] assms(2) by metis
    have "\<not> startswith (base_name u) ''/''" using base_name_plain(1) [of u] by (cases "base_name u") auto
    with u Suc.prems base_name_plain [of u] Suc.IH [of "base_name u"] show ?thesis
      by (auto simp: path_parts_plain split: if_splits)
  next
    case False
    with Suc.prems show ?thesis by (auto split: if_splits option.splits entry.splits)
  qed
qed (auto split: if_splits option.splits entry.splits)

lemma marker_written:
  assumes "flat (R @ [s]) P fs" "\<forall>x t. P x (ELink t) \<longrightarrow> (\<exists>u. t = base_name u)"
    and w: "write_text fs (R @ [s, MARKER]) c = Some fs'"
  shows "\<exists>y. fs' = put (R @ [s, y]) (EFile c) fs"
proof -
  have can: "canonical fs (R @ [s])" using assms(1) by (simp add: flat_def)
  then have "is_dir_entry (node fs (R @ [s]))" "is_dir_entry (node fs R)"
    by (auto simp: canonical_node canonical_Snoc)
  moreover from w obtain q where q: "realpath fs (R @ [s, MARKER]) = Some q" "\<not> is_dir_entry (node fs q)" "fs' = put q (EFile c) fs"
    by (auto simp: write_text_def split: option.splits if_splits)
  moreover have "q = R @ [s] \<or> q = R \<or> (\<exists>y. q = R @ [s, y])"
    using flat_walk [where n = 40 and x = MARKER and q = q, OF assms(1,2)] walk_canonical [OF can, of 40 "[MARKER]"] q(1) by (auto simp: realpath_def)
  ultimately show ?thesis by auto
qed

section \<open>Staging\<close>

definition engine_entry :: "(string \<times> string) list \<Rightarrow> (string \<times> string) list \<Rightarrow> string \<Rightarrow> string \<Rightarrow> entry \<Rightarrow> bool" where
  "engine_entry files links sha x e \<longleftrightarrow> archive_file files x e \<or> archive_link links x e \<or> e = EFile sha"

text \<open>A directory that holds the contents of an archive with the digest, and nothing else but the marker.\<close>

definition engine_tree :: "site \<Rightarrow> variant \<Rightarrow> apath \<Rightarrow> fs \<Rightarrow> bool" where
  "engine_tree st v D fs \<longleftrightarrow>
     (\<exists>bytes files links. st_sha256 st bytes = va_sha256 v \<and>
        archive_members st (base_name (va_path v)) bytes = Inr (files, links) \<and>
        flat D (engine_entry files links (va_sha256 v)) fs \<and> all_files D files fs)"

lemma cleared:
  assumes "canonical fs R" "s \<noteq> ''..''" "rmtree_ignoring (R @ [s]) fs = Some fs'"
    "node fs (R @ [s]) = None \<Longrightarrow> \<forall>q. strict_prefix (R @ [s]) q \<longrightarrow> node fs q = None"
  shows "only_entries R {s} fs fs'" "\<not> is_dir_entry (node fs' (R @ [s]))" "node fs' (R @ [s]) \<in> {None, node fs (R @ [s])}"
    "node fs' (R @ [s]) = None \<Longrightarrow> strict_prefix (R @ [s]) q \<Longrightarrow> node fs' q = None"
proof -
  have "fs' = (if is_dir_entry (node fs (R @ [s])) then drop_tree (R @ [s]) fs else fs)"
    using assms(1-3) by (auto simp: rmtree_ignoring_def rmtree_def lpath_canonical split: if_splits)
  with assms(4) show "only_entries R {s} fs fs'" "\<not> is_dir_entry (node fs' (R @ [s]))"
    "node fs' (R @ [s]) \<in> {None, node fs (R @ [s])}"
    "node fs' (R @ [s]) = None \<Longrightarrow> strict_prefix (R @ [s]) q \<Longrightarrow> node fs' q = None"
    by (auto simp: only_entries_drop node_drop_tree strict_prefix_def)
qed

lemma staging_made:
  assumes "canonical fs R" "s \<noteq> ''..''" "\<not> is_link_entry (node fs (R @ [s]))" "\<not> is_dir_entry (node fs (R @ [s]))"
    "node fs (R @ [s]) = None \<Longrightarrow> \<forall>q. strict_prefix (R @ [s]) q \<longrightarrow> node fs q = None"
    "mkdirs fs (R @ [s]) = Some fs'"
  shows "staging_inv R s fs (\<lambda>_ _. False) fs'"
proof -
  from mkdirs_entry [OF assms(1-3,6)] have m: "fs' = fs \<or> (node fs (R @ [s]) = None \<and> fs' = put (R @ [s]) (EDir 0) fs)"
    "canonical fs' (R @ [s])" by auto
  with assms(4) canonical_node have f: "node fs (R @ [s]) = None" "fs' = put (R @ [s]) (EDir 0) fs" by auto
  with assms(5) m(2) show ?thesis by (auto simp: flat_def node_put only_entries_put)
qed

section \<open>The swap\<close>

definition same_tree :: "apath \<Rightarrow> fs \<Rightarrow> fs \<Rightarrow> bool" where
  "same_tree D fs fs' \<longleftrightarrow> (\<forall>cs. node fs' (D @ cs) = node fs (D @ cs))"

lemma same_tree_refl [simp]: "same_tree D fs fs"
  by (simp add: same_tree_def)

lemma same_tree_trans: "same_tree D a b \<Longrightarrow> same_tree D b c \<Longrightarrow> same_tree D a c"
  by (simp add: same_tree_def)

lemma only_entries_tree: "only_entries R A a b \<Longrightarrow> x \<notin> A \<Longrightarrow> same_tree (R @ [x]) a b"
  using only_entries_at [of R A a b x] by (simp add: same_tree_def)

lemma os_replace_sibling:
  assumes "canonical fs R" "a \<noteq> b" "a \<noteq> ''..''" "b \<noteq> ''..''" "os_replace fs (R @ [a]) (R @ [b]) = Some fs'"
  shows "node fs' (R @ b # cs) = node fs (R @ a # cs)" "node fs' (R @ a # cs) = None" "only_entries R {a, b} fs fs'"
proof -
  have fs': "fs' = graft (R @ [a]) (R @ [b]) fs @ drop_tree (R @ [a]) (drop_tree (R @ [b]) fs)"
    using assms by (auto simp: os_replace_def lpath_canonical split: if_splits)
  show "node fs' (R @ b # cs) = node fs (R @ a # cs)" "node fs' (R @ a # cs) = None" "only_entries R {a, b} fs fs'"
    unfolding fs' using assms(2) by (auto simp: node_moved only_entries_def at_entry_def)
qed

lemma os_replace_free:
  assumes "canonical fs R" "a \<noteq> b" "a \<noteq> ''..''" "b \<noteq> ''..''" "node fs (R @ [a]) \<noteq> None" "node fs (R @ [b]) = None"
  shows "os_replace fs (R @ [a]) (R @ [b]) \<noteq> None"
  using assms by (simp add: os_replace_def lpath_canonical)

lemma rmtree_ignoring_entry:
  assumes "canonical fs R" "x \<noteq> ''..''" "rmtree_ignoring (R @ [x]) fs = Some fs'"
  shows "only_entries R {x} fs fs'"
  using assms by (auto simp: rmtree_ignoring_def rmtree_def lpath_canonical only_entries_drop split: if_splits)

lemma rmtree_ignoring_total:
  obtains fs' where "rmtree_ignoring p fs = Some fs'"
  by (cases "rmtree fs p") (auto simp: rmtree_ignoring_def)

text \<open>
  Either the directory is as it was, and an error is raised, or it is the staging directory.  The
  second rename cannot fail after the first.
\<close>

definition swap_outcome :: "apath \<Rightarrow> string \<Rightarrow> fs \<Rightarrow> (as_error + unit) \<Rightarrow> fs \<Rightarrow> bool" where
  "swap_outcome R n fs r fs' \<longleftrightarrow> only_entries R {n, staging_name n, old_name n} fs fs' \<and>
    (same_tree (R @ [n]) fs fs' \<and> r \<noteq> Inr () \<or>
     (\<forall>cs. node fs' (R @ n # cs) = node fs (R @ staging_name n # cs)) \<and> r = Inr ())"

lemma swap_in:
  assumes run: "seq (alter (\<lambda>fs. os_replace fs (R @ [staging_name n]) (R @ [n])))
      (\<lambda>_. alter (rmtree_ignoring (R @ [old_name n]))) h = (r, h')"
    and can: "canonical fs R" and n: "n \<noteq> ''..''" and dir: "node fs (R @ [staging_name n]) \<noteq> None"
    and only: "only_entries R {n, old_name n} fs (h_fs h)"
    and dest: "same_tree (R @ [n]) fs (h_fs h) \<or> node (h_fs h) (R @ [n]) = None"
  shows "swap_outcome R n fs r (h_fs h')"
proof -
  have st: "node (h_fs h) (R @ staging_name n # cs) = node fs (R @ staging_name n # cs)" for cs
    using only_entries_tree [OF only, of "staging_name n"] by (simp add: same_tree_def)
  have can2: "canonical (h_fs h) R" using only_entries_canonical [OF only can] .
  show ?thesis
  proof (cases "os_replace (h_fs h) (R @ [staging_name n]) (R @ [n])")
    case None
    with os_replace_free [OF can2, of "staging_name n" n] n dir st [of "[]"] dest have "same_tree (R @ [n]) fs (h_fs h)" by auto
    moreover have "r = Inl OtherError" "h' = h"
      using run [unfolded seq_def change_or_def] None by auto
    ultimately show ?thesis using only only_entries_mono [OF only] by (auto simp: swap_outcome_def)
  next
    case (Some fs3)
    obtain fs4 where fs4: "rmtree_ignoring (R @ [old_name n]) fs3 = Some fs4" by (rule rmtree_ignoring_total)
    note moved = os_replace_sibling [OF can2 work_names(2) work_names(12) n Some]
    have "canonical fs3 R" using only_entries_canonical [OF moved(3) can2] .
    with rmtree_ignoring_entry [OF _ _ fs4] have o4: "only_entries R {old_name n} fs3 fs4" by simp
    have "only_entries R {n, staging_name n, old_name n} fs fs4"
      by (rule only_entries_trans [OF only_entries_mono [OF only] only_entries_trans [OF only_entries_mono [OF moved(3)] only_entries_mono [OF o4]]]) simp_all
    moreover have "node fs4 (R @ n # cs) = node fs (R @ staging_name n # cs)" for cs
      using only_entries_tree [OF o4, of n] moved(1) [of cs] st [of cs] by (simp add: same_tree_def)
    moreover have "r = Inr ()" "h_fs h' = fs4" using run Some fs4 by (auto simp: seq_def change_or_def)
    ultimately show ?thesis by (simp add: swap_outcome_def)
  qed
qed

lemma atomic_swap_run:
  assumes can: "canonical (h_fs h) R" and n: "n \<noteq> ''..''" and dir: "node (h_fs h) (R @ [staging_name n]) \<noteq> None"
    and run: "atomic_swap (R @ [staging_name n]) (R @ [n]) h = (r, h')"
  shows "swap_outcome R n (h_fs h) r (h_fs h')"
proof -
  obtain fs1 where fs1: "rmtree_ignoring (R @ [old_name n]) (h_fs h) = Some fs1" by (rule rmtree_ignoring_total)
  have o1: "only_entries R {old_name n} (h_fs h) fs1" using rmtree_ignoring_entry [OF can _ fs1] by simp
  then have can1: "canonical fs1 R" and s1: "same_tree (R @ [n]) (h_fs h) fs1" and A1: "only_entries R {n, old_name n} (h_fs h) fs1"
    using only_entries_canonical [OF o1 can] only_entries_tree [OF o1, of n] only_entries_mono [OF o1, of "{n, old_name n}"] by simp_all
  show ?thesis
  proof (cases "path_exists fs1 (R @ [n])")
    case True
    show ?thesis
    proof (cases "os_replace fs1 (R @ [n]) (R @ [old_name n])")
      case None
      with run fs1 True have "r = Inl OtherError" "h_fs h' = fs1"
        by (auto simp: atomic_swap_def seq_def change_or_def asks_def)
      with only_entries_mono [OF A1] s1 show ?thesis by (auto simp: swap_outcome_def)
    next
      case (Some fs2)
      note moved = os_replace_sibling [OF can1 work_names(4) [symmetric] n work_names(14) Some]
      have "only_entries R {n, old_name n} (h_fs h) fs2" using only_entries_trans [OF A1 moved(3)] .
      moreover have "node fs2 (R @ [n]) = None" using moved(2) [of "[]"] by simp
      ultimately show ?thesis using swap_in [of R n "h\<lparr>h_fs := fs2\<rparr>" r h' "h_fs h"] run fs1 True Some can n dir
        by (simp add: atomic_swap_def seq_def change_or_def asks_def)
    qed
  next
    case False
    with swap_in [of R n "h\<lparr>h_fs := fs1\<rparr>" r h' "h_fs h"] run fs1 can n dir A1 s1 show ?thesis
      by (simp add: atomic_swap_def seq_def change_or_def asks_def ret_def)
  qed
qed

section \<open>Unpacking a verified archive\<close>

lemma flat_of_files:
  "staging_inv R s fs0 (archive_file files) fs \<Longrightarrow> staging_inv R s fs0 (\<lambda>x e. archive_file files x e \<or> archive_link links x e) fs"
  by (auto elim: flat_mono)

lemma unpack_run:
  assumes run: "seq (write_members (R @ [s]) files) (\<lambda>_. alter (\<lambda>fs. Some (link_members (R @ [s]) links fs))) h = (r, h')"
    and inv: "staging_inv R s fs0 (\<lambda>_ _. False) (h_fs h)"
  shows "only_entries R {s} fs0 (h_fs h') \<and>
    (r = Inr () \<longrightarrow> flat (R @ [s]) (\<lambda>x e. archive_file files x e \<or> archive_link links x e) (h_fs h') \<and> all_files (R @ [s]) files (h_fs h'))"
proof -
  have inv1: "staging_inv R s fs0 (archive_file files) (h_fs h)" using inv by (auto elim: flat_mono)
  from run show ?thesis
  proof (cases rule: seqE)
    case (first e)
    with write_members_run [OF first(1) _ inv1, of "[]"] show ?thesis by (simp add: all_files_def)
  next
    case (both u h1)
    with write_members_run [OF both(1) _ inv1, of "[]"]
    have w: "staging_inv R s fs0 (archive_file files) (h_fs h1)" "all_files (R @ [s]) files (h_fs h1)"
      by (simp_all add: all_files_def)
    have "archive_file files (base_name name) (ELink (base_name t)) \<or> archive_link links (base_name name) (ELink (base_name t))"
      if "(name, t) \<in> set links" for name t
      using that by (auto simp: archive_link_def)
    from link_members_run [OF flat_of_files [OF w(1)] this w(2)] both(2) show ?thesis
      by (auto simp: change_or_def)
  qed
qed

lemma extract_flat_run:
  assumes run: "extract_flat st (R @ [c, x]) (R @ [s]) h = (r, h')"
    and R: "canonical (h_fs h) R" "s \<noteq> ''..''" "\<not> is_link_entry (node (h_fs h) (R @ [s]))" "\<not> is_dir_entry (node (h_fs h) (R @ [s]))"
    "node (h_fs h) (R @ [s]) = None \<Longrightarrow> \<forall>q. strict_prefix (R @ [s]) q \<longrightarrow> node (h_fs h) q = None"
    and c: "guarded (R @ [c]) (h_fs h)" "c \<noteq> s" "x \<noteq> ''..''" and bytes: "read_text (h_fs h) (R @ [c, x]) = Some bytes"
  shows "only_entries R {s} (h_fs h) (h_fs h') \<and>
    (r = Inr () \<longrightarrow> (\<exists>files links. archive_members st x bytes = Inr (files, links) \<and>
       flat (R @ [s]) (\<lambda>x e. archive_file files x e \<or> archive_link links x e) (h_fs h') \<and> all_files (R @ [s]) files (h_fs h')))"
proof (cases "mkdirs (h_fs h) (R @ [s])")
  case None
  with run show ?thesis by (auto simp: extract_flat_def seq_steps)
next
  case (Some fs1)
  from staging_made [OF R Some] have inv: "staging_inv R s (h_fs h) (\<lambda>_ _. False) fs1" .
  then have o: "only_entries R {s} (h_fs h) fs1" ..
  have "read_text fs1 (R @ [c, x]) = Some bytes"
    using read_text_same [OF c(1), of fs1 "[x]"] only_entries_tree [OF o, of c] only_entries_canonical_at [OF o, of c] c bytes
    by (auto simp: same_tree_def guarded_def prefix_def)
  with run Some have tail: "seq (lift (archive_members st x bytes)) (\<lambda>m. seq (write_members (R @ [s]) (fst m))
      (\<lambda>_. alter (\<lambda>fs. Some (link_members (R @ [s]) (snd m) fs)))) (h\<lparr>h_fs := fs1\<rparr>) = (r, h')"
    by (simp add: extract_flat_def seq_steps)
  show ?thesis
  proof (cases "archive_members st x bytes")
    case (Inl e)
    with tail o show ?thesis by (auto simp: seq_steps)
  next
    case (Inr m)
    with tail have "seq (write_members (R @ [s]) (fst m)) (\<lambda>_. alter (\<lambda>fs. Some (link_members (R @ [s]) (snd m) fs))) (h\<lparr>h_fs := fs1\<rparr>) = (r, h')"
      by (simp only: lift.simps seq_steps(1))
    from unpack_run [OF this, of "h_fs h"] inv Inr show ?thesis by (cases m) auto
  qed
qed

section \<open>Installing\<close>

text \<open>The part of the installation that fills the staging directory.\<close>

definition stage_engine :: "site \<Rightarrow> variant \<Rightarrow> apath \<Rightarrow> apath \<Rightarrow> unit act" where
  "stage_engine st v archive staging =
     seq (alter (rmtree_ignoring staging)) (\<lambda>_.
     seq (extract_flat st archive staging) (\<lambda>_.
     alter (\<lambda>fs. write_text fs (staging @ [MARKER]) (va_sha256 v))))"

lemma install_engine_stages:
  "install_engine st v dest base =
     seq (fetch_variant st v (hidden dest ''-cache'') base) (\<lambda>archive.
     seq (stage_engine st v archive (hidden dest ''.staging'')) (\<lambda>_.
     seq (atomic_swap (hidden dest ''.staging'') dest) (\<lambda>_.
     seq (alter (unlink_ok archive)) (\<lambda>_. ret dest))))"
  by (simp add: install_engine_def stage_engine_def seq_assoc)

lemma marked_tree:
  assumes members: "st_sha256 st bytes = va_sha256 v" "archive_members st (base_name (va_path v)) bytes = Inr (files, links)"
    and "flat (R @ [s]) (\<lambda>x e. archive_file files x e \<or> archive_link links x e) fs" "all_files (R @ [s]) files fs"
    and w: "write_text fs (R @ [s, MARKER]) (va_sha256 v) = Some fs'"
  shows "engine_tree st v (R @ [s]) fs' \<and> only_entries R {s} fs fs'"
proof -
  let ?P = "engine_entry files links (va_sha256 v)"
  have fl: "flat (R @ [s]) ?P fs" using assms(3) by (rule flat_mono) (auto simp: engine_entry_def)
  have base: "\<forall>x t. ?P x (ELink t) \<longrightarrow> (\<exists>u. t = base_name u)"
    by (auto simp: engine_entry_def archive_file_def archive_link_def)
  obtain y where y: "fs' = put (R @ [s, y]) (EFile (va_sha256 v)) fs" using marker_written [OF fl base w] by blast
  have "flat (R @ [s]) ?P fs'" using flat_put [OF fl, of y "EFile (va_sha256 v)"] y by (simp add: engine_entry_def)
  moreover have "all_files (R @ [s]) files fs'" using all_files_put [OF assms(4), of y] y by simp
  moreover have "only_entries R {s} fs fs'" using y only_entries_put [of R s "R @ [s, y]" "{s}"] by simp
  ultimately show ?thesis using members by (auto simp: engine_tree_def)
qed

lemma stage_engine_run:
  assumes run: "stage_engine st v (R @ [c, x]) (R @ [s]) h = (r, h')"
    and R: "canonical (h_fs h) R" "s \<noteq> ''..''" "\<not> is_link_entry (node (h_fs h) (R @ [s]))"
    "node (h_fs h) (R @ [s]) = None \<Longrightarrow> \<forall>q. strict_prefix (R @ [s]) q \<longrightarrow> node (h_fs h) q = None"
    and c: "guarded (R @ [c]) (h_fs h)" "c \<noteq> s" "x \<noteq> ''..''" "x = base_name (va_path v)"
    and ver: "verified st v (R @ [c, x]) (h_fs h)"
  shows "only_entries R {s} (h_fs h) (h_fs h') \<and> (r = Inr () \<longrightarrow> engine_tree st v (R @ [s]) (h_fs h'))"
proof -
  obtain fs1 where fs1: "rmtree_ignoring (R @ [s]) (h_fs h) = Some fs1" by (rule rmtree_ignoring_total)
  note cl = cleared [OF R(1,2) fs1 R(4)]
  have can1: "canonical fs1 R" "\<not> is_link_entry (node fs1 (R @ [s]))"
    using only_entries_canonical [OF cl(1) R(1)] cl(3) R(3) by auto
  have same: "same_tree (R @ [c]) (h_fs h) fs1" using only_entries_tree [OF cl(1)] c(2) by simp
  then have nodes: "prefix (R @ [c]) q \<Longrightarrow> node fs1 q = node (h_fs h) q" for q by (auto simp: same_tree_def prefix_def)
  have can_c: "canonical fs1 (R @ [c])" using only_entries_canonical_at [OF cl(1)] c(1,2) by (simp add: guarded_def)
  then have g: "guarded (R @ [c]) fs1" using c(1) nodes by (auto simp: guarded_def tame_def)
  obtain bytes where bytes: "read_text fs1 (R @ [c, x]) = Some bytes" "st_sha256 st bytes = va_sha256 v"
    using read_text_same [OF c(1) nodes can_c, of "[x]"] c(3) ver by (auto simp: verified_def)
  define h1 where "h1 = h\<lparr>h_fs := fs1\<rparr>"
  then have h1: "h_fs h1 = fs1" by simp
  have below: "node fs1 (R @ [s]) = None \<Longrightarrow> \<forall>q. strict_prefix (R @ [s]) q \<longrightarrow> node fs1 q = None" using cl(4) by blast
  note ex = extract_flat_run [of st R c x s h1, unfolded h1, OF _ can1(1) R(2) can1(2) cl(2) below g c(2,3) bytes(1)]
  from run fs1 have "seq (extract_flat st (R @ [c, x]) (R @ [s])) (\<lambda>_. alter (\<lambda>fs. write_text fs (R @ [s, MARKER]) (va_sha256 v)))
      h1 = (r, h')" by (simp add: stage_engine_def seq_steps h1_def)
  then show ?thesis
  proof (cases rule: seqE)
    case (first e)
    with ex [OF first(1)] only_entries_trans [OF cl(1)] show ?thesis by simp
  next
    case (both u h2)
    with ex [OF both(1)] obtain files links
      where e: "only_entries R {s} fs1 (h_fs h2)" "archive_members st x bytes = Inr (files, links)"
        "flat (R @ [s]) (\<lambda>x e. archive_file files x e \<or> archive_link links x e) (h_fs h2)" "all_files (R @ [s]) files (h_fs h2)"
      by auto
    have o2: "only_entries R {s} (h_fs h) (h_fs h2)" using only_entries_trans [OF cl(1) e(1)] .
    show ?thesis
    proof (cases "write_text (h_fs h2) (R @ [s, MARKER]) (va_sha256 v)")
      case None
      with both(2) o2 show ?thesis by (auto simp: change_or_def)
    next
      case (Some fs3)
      with both(2) marked_tree [OF bytes(2) e(2) [unfolded c(4)] e(3,4) Some] only_entries_trans [OF o2] show ?thesis
        by (auto simp: change_or_def)
    qed
  qed
qed

lemma engine_tree_moved:
  assumes "engine_tree st v (R @ [a]) fs" "canonical fs' R" "b \<noteq> ''..''" "\<forall>cs. node fs' (R @ b # cs) = node fs (R @ a # cs)"
  shows "engine_tree st v (R @ [b]) fs'"
proof -
  have "flat (R @ [b]) P fs'" if "flat (R @ [a]) P fs" for P
  proof -
    have "is_dir_entry (node fs' (R @ [b]))" using that assms(4) canonical_node by (metis flat_def)
    moreover have "\<exists>x. q = R @ b # [x] \<and> P x e" if "strict_prefix (R @ [b]) q" "node fs' q = Some e" for q e
    proof -
      from that(1) obtain cs where cs: "q = R @ b # cs" "cs \<noteq> []" by (auto simp: strict_prefix_def prefix_def)
      with that(2) assms(4) have "node fs (R @ a # cs) = Some e" "strict_prefix (R @ [a]) (R @ a # cs)"
        by (auto simp: strict_prefix_def prefix_def)
      with \<open>flat (R @ [a]) P fs\<close> show ?thesis unfolding flat_def cs(1) by fastforce
    qed
    ultimately show ?thesis using assms(2,3) by (auto simp: flat_def canonical_Snoc)
  qed
  with assms(1,4) show ?thesis unfolding engine_tree_def all_files_def by fastforce
qed

lemma engine_tree_kept:
  assumes "engine_tree st v (R @ [n]) fs" "only_entries R {c} fs fs'" "n \<noteq> c"
  shows "engine_tree st v (R @ [n]) fs'"
proof -
  from assms(1) have "canonical fs (R @ [n])" by (auto simp: engine_tree_def flat_def)
  then have "canonical fs' R" "n \<noteq> ''..''" using only_entries_canonical [OF assms(2)] by (auto simp: canonical_Snoc)
  with engine_tree_moved [OF assms(1)] only_entries_tree [OF assms(2), of n] assms(3) show ?thesis by (simp add: same_tree_def)
qed

lemma cache_survives:
  assumes "guarded (R @ [c]) fs" "only_entries R A fs fs'" "c \<notin> A"
  shows "guarded (R @ [c]) fs'"
proof -
  have "node fs' q = node fs q" if "prefix (R @ [c]) q" for q
    using only_entries_tree [OF assms(2,3)] that by (auto simp: same_tree_def prefix_def)
  with assms only_entries_canonical_at [OF assms(2)] show ?thesis by (auto simp: guarded_def tame_def)
qed

text \<open>The swap of a filled staging directory and the removal of the archive.\<close>

lemma finish_install_run:
  assumes run: "seq (atomic_swap (R @ [staging_name n]) (R @ [n])) (\<lambda>_. seq (alter (unlink_ok (R @ [cache_name n, x]))) (\<lambda>_. ret d)) h = (r, h')"
    and n: "n \<noteq> ''..''" and x: "x \<noteq> ''..''" and g: "guarded (R @ [cache_name n]) (h_fs h)"
    and tree: "engine_tree st v (R @ [staging_name n]) (h_fs h)"
  shows "same_tree (R @ [n]) (h_fs h) (h_fs h') \<and> (\<forall>d. r \<noteq> Inr d) \<or> engine_tree st v (R @ [n]) (h_fs h')"
proof -
  let ?c = "cache_name n" and ?s = "staging_name n"
  from tree have "canonical (h_fs h) (R @ [?s])" by (auto simp: engine_tree_def flat_def)
  then have can: "canonical (h_fs h) R" and "is_dir_entry (node (h_fs h) (R @ [?s]))"
    by (auto simp: canonical_Snoc)
  then have dir: "node (h_fs h) (R @ [?s]) \<noteq> None" by (cases "node (h_fs h) (R @ [?s])") auto
  note swap = atomic_swap_run [OF can n dir]
  from run show ?thesis
  proof (cases rule: seqE)
    case (first e)
    with swap [OF first(1)] show ?thesis by (auto simp: swap_outcome_def)
  next
    case (both u h3)
    with swap [OF both(1)] have o3: "only_entries R {n, ?s, old_name n} (h_fs h) (h_fs h3)"
      and moved: "\<forall>cs. node (h_fs h3) (R @ n # cs) = node (h_fs h) (R @ ?s # cs)" by (auto simp: swap_outcome_def)
    have t3: "engine_tree st v (R @ [n]) (h_fs h3)"
      using engine_tree_moved [OF tree only_entries_canonical [OF o3 can] n moved] .
    have g3: "guarded (R @ [?c]) (h_fs h3)" by (rule cache_survives [OF g o3]) auto
    have "stays (R @ [?c]) (h_fs h3) (unlink_ok (R @ [?c, x]) (h_fs h3))"
      using unlink_ok_stays [OF g3, of "[x]"] x by simp
    with both(2) t3 only_entries_stays [of R ?c "h_fs h3"] engine_tree_kept [OF t3, of ?c] show ?thesis
      by (cases "unlink_ok (R @ [?c, x]) (h_fs h3)") (auto simp: seq_steps ret_def)
  qed
qed

lemma install_engine_run:
  assumes ok: "site_ok R n (h_fs h)" and run: "install_engine st v (R @ [n]) base h = (r, h')"
  shows "same_tree (R @ [n]) (h_fs h) (h_fs h') \<and> (\<forall>d. r \<noteq> Inr d) \<or> engine_tree st v (R @ [n]) (h_fs h')"
proof -
  let ?c = "cache_name n" and ?s = "staging_name n"
  have R: "canonical (h_fs h) R" "n \<noteq> ''..''" using ok by (auto simp: site_ok_def)
  from run [unfolded install_engine_stages hidden_snoc] show ?thesis
  proof (cases rule: seqE)
    case (first e)
    with fetch_variant_spec [OF ok first(1)] only_entries_tree [of R "{?c}" _ _ n] show ?thesis by simp
  next
    case (both a h1)
    from fetch_variant_spec [OF ok both(1)] obtain x where f: "cache_inv R n (h_fs h) (h_fs h1)" "a = R @ [?c, x]" "x \<noteq> []"
      "x \<noteq> ''..''" "x = base_name (va_path v)" "verified st v a (h_fs h1)" by blast
    from f(1) have o1: "only_entries R {?c} (h_fs h) (h_fs h1)" and g1: "guarded (R @ [?c]) (h_fs h1)"
      by (simp_all add: cache_inv_def)
    have can1: "canonical (h_fs h1) R" using only_entries_canonical [OF o1 R(1)] .
    have st1: "node (h_fs h1) (R @ ?s # cs) = node (h_fs h) (R @ ?s # cs)" for cs
      using only_entries_tree [OF o1, of ?s] by (simp add: same_tree_def)
    have link: "\<not> is_link_entry (node (h_fs h1) (R @ [?s]))" using ok st1 [of "[]"] by (simp add: site_ok_def)
    have below: "node (h_fs h1) (R @ [?s]) = None \<Longrightarrow> \<forall>q. strict_prefix (R @ [?s]) q \<longrightarrow> node (h_fs h1) q = None"
      using ok only_entries_at [OF o1 below_at_entry, of ?s] st1 [of "[]"] by (simp add: site_ok_def)
    note stage = stage_engine_run [OF _ can1 work_names(12) link below g1 work_names(5) f(4,5) f(6) [unfolded f(2)]]
    from both(2) [unfolded f(2)] show ?thesis
    proof (cases rule: seqE)
      case (first e)
      with stage [OF first(1)] have "only_entries R {?s} (h_fs h1) (h_fs h')" by blast
      with first only_entries_tree [OF o1, of n] only_entries_tree [of R "{?s}" "h_fs h1" "h_fs h'" n] same_tree_trans show ?thesis
        by auto
    next
      case (both u h2)
      with stage [OF both(1)] have o2: "only_entries R {?s} (h_fs h1) (h_fs h2)" and t2: "engine_tree st v (R @ [?s]) (h_fs h2)" by auto
      have g2: "guarded (R @ [?c]) (h_fs h2)" by (rule cache_survives [OF g1 o2]) simp
      have "same_tree (R @ [n]) (h_fs h) (h_fs h2)"
        using same_tree_trans [OF only_entries_tree [OF o1] only_entries_tree [OF o2]] by simp
      with finish_install_run [OF both(2) R(2) f(4) g2 t2] same_tree_trans show ?thesis by blast
    qed
  qed
qed

section \<open>First use of an engine\<close>

lemma engine_installed_pure:
  assumes "engine_installed dest v h = (r, h')" shows "h' = h"
  using assms by (auto simp: engine_installed_def seq_steps ret_def raise_def split: if_splits option.splits)

lemma store_get_fs: "triple (on_fs (\<lambda>fs. fs = fs0)) (store_get st url cap n) (\<lambda>_. True)"
proof (induction n)
  case (Suc n)
  show ?case
    unfolding store_get.simps
    by (rule triple_seq [OF triple_http_get [where Q = "\<lambda>_. True"]]) (auto simp: Suc intro: triple_ret triple_raise split: answer.split)
qed (simp add: triple_raise)

lemma fetch_manifest_fs:
  assumes "fetch_manifest st base h = (r, h')" shows "h_fs h' = h_fs h"
proof -
  let ?k = "\<lambda>raw. case st_loads st raw of None \<Rightarrow> raise OtherError | Some j \<Rightarrow> lift (new_manifest j)"
  have lift: "triple I (lift x) (\<lambda>_. True)" for I and x :: "as_error + jdict"
    by (cases x) (simp_all add: triple_ret triple_raise)
  have "triple (on_fs (\<lambda>fs. fs = h_fs h)) (seq (store_get st url cap n) ?k) (\<lambda>_. True)" for url cap n
    by (rule triple_seq [OF store_get_fs]) (auto simp: triple_raise lift split: option.split)
  then have "h_fs (snd (seq (store_get st url cap n) ?k h)) = h_fs h" for url cap n
    by (simp add: triple_def on_fs_def)
  with assms show ?thesis unfolding fetch_manifest_def Let_def
    by (auto split: prod.splits sum.splits) (metis snd_conv)+
qed

text \<open>The variant that is installed: of the given manifest, or of the one fetched.\<close>

definition chosen :: "site \<Rightarrow> gpu \<Rightarrow> string \<Rightarrow> string option \<Rightarrow> jdict option \<Rightarrow> string option \<Rightarrow> string option \<Rightarrow> host \<Rightarrow> variant \<Rightarrow> bool" where
  "chosen st gp name version manifest base arch h v \<longleftrightarrow>
     (\<exists>d. (manifest = Some d \<or> manifest = None \<and> fst (fetch_manifest st base h) = Inr d) \<and>
          manifest_variant st gp d CAPABILITY_ENGINES name version arch = Inr v)"

text \<open>Another process left the directory so, and if the call returns, the marker names the variant.\<close>

definition left_alone :: "apath \<Rightarrow> variant \<Rightarrow> fs \<Rightarrow> (as_error + apath) \<Rightarrow> host \<Rightarrow> bool" where
  "left_alone D v fs r h' \<longleftrightarrow> same_tree D fs (h_fs h') \<and> (r = Inr D \<longrightarrow> fst (engine_installed D v h') = Inr True)"

lemma lock_written:
  assumes ok: "site_ok R n fs" and w: "write_text fs (R @ [lock_name n]) [] = Some fs'"
  shows "fs' = put (R @ [lock_name n]) (EFile []) fs \<and> site_ok R n fs'"
proof -
  from ok have R: "canonical fs R" "\<not> is_link_entry (node fs (R @ [lock_name n]))" by (auto simp: site_ok_def)
  have fs': "fs' = put (R @ [lock_name n]) (EFile []) fs"
    using w realpath_plain [OF R(1) work_names(13) R(2)] by (auto simp: write_text_def split: if_splits)
  then have o: "only_entries R {lock_name n} fs fs'" using only_entries_put [of R "lock_name n" "R @ [lock_name n]" "{lock_name n}"] by simp
  have "node fs' q = node fs q" if "prefix (R @ [staging_name n]) q" for q
    using only_entries_tree [OF o, of "staging_name n"] that by (auto simp: same_tree_def prefix_def)
  moreover have "node fs' (R @ [x]) = node fs (R @ [x])" if "x \<noteq> lock_name n" for x using fs' that by (simp add: node_put)
  moreover have "tame (R @ [cache_name n]) fs'" using ok tame_put [of "R @ [cache_name n]" fs "R @ [lock_name n]" "EFile []"] fs' by (simp add: site_ok_def)
  ultimately have "site_ok R n fs'"
    using ok only_entries_canonical [OF o R(1)] fs' by (auto simp: site_ok_def node_put strict_prefix_def)
  with fs' show ?thesis by simp
qed

text \<open>From the lock on.\<close>

lemma locked_run:
  assumes ok: "site_ok R n (h_fs h)" and other: "\<forall>fs. site_ok R n fs \<longrightarrow> site_ok R n (meanwhile fs)"
    and run: "seq (alter (\<lambda>fs. write_text fs (R @ [lock_name n]) [])) (\<lambda>_. seq (alter (\<lambda>fs. Some (meanwhile fs))) (\<lambda>_.
       seq (engine_installed (R @ [n]) v) (\<lambda>now_there. if now_there then ret (R @ [n]) else install_engine st v (R @ [n]) base))) h = (r, h')"
  defines "fs1 \<equiv> meanwhile (put (R @ [lock_name n]) (EFile []) (h_fs h))"
  shows "left_alone (R @ [n]) v (h_fs h) r h' \<or> left_alone (R @ [n]) v fs1 r h' \<or> engine_tree st v (R @ [n]) (h_fs h')"
proof (cases "write_text (h_fs h) (R @ [lock_name n]) []")
  case None
  with run show ?thesis by (auto simp: seq_steps left_alone_def)
next
  case (Some fs)
  with lock_written [OF ok Some] other have fs: "fs1 = meanwhile fs" "site_ok R n fs1" by (auto simp: fs1_def)
  define h1 where "h1 = h\<lparr>h_fs := fs1\<rparr>"
  then have h1: "h_fs h1 = fs1" by simp
  from run Some fs(1) have "seq (engine_installed (R @ [n]) v)
      (\<lambda>now_there. if now_there then ret (R @ [n]) else install_engine st v (R @ [n]) base) h1 = (r, h')"
    by (simp add: seq_steps h1_def)
  then show ?thesis
  proof (cases rule: seqE)
    case (first e)
    with engine_installed_pure [OF first(1)] h1 show ?thesis by (simp add: left_alone_def)
  next
    case (both b h2)
    from engine_installed_pure [OF both(1)] have h2: "h2 = h1" .
    show ?thesis
    proof (cases b)
      case True
      with both h2 h1 show ?thesis by (auto simp: left_alone_def ret_def)
    next
      case False
      with both(2) h2 install_engine_run [of R n h1 st v base r h'] fs(2) h1 show ?thesis
        by (auto simp: left_alone_def)
    qed
  qed
qed

lemma ensure_engine_run:
  assumes ok: "site_ok R n (h_fs h)" and other: "\<forall>fs. site_ok R n fs \<longrightarrow> site_ok R n (meanwhile fs)"
    and run: "ensure_engine st gp meanwhile name version (R @ [n]) manifest base arch h = (r, h')"
  shows "same_tree (R @ [n]) (h_fs h) (h_fs h') \<and> (\<forall>p. r \<noteq> Inr p) \<or>
    (\<exists>v. chosen st gp name version manifest base arch h v \<and>
       (left_alone (R @ [n]) v (h_fs h) r h' \<or>
        left_alone (R @ [n]) v (meanwhile (put (R @ [lock_name n]) (EFile []) (h_fs h))) r h' \<or>
        engine_tree st v (R @ [n]) (h_fs h')))"
  using run [unfolded ensure_engine_def hidden_snoc butlast_snoc]
proof (cases rule: seqE)
  case (first e)
  then show ?thesis by (auto simp: ret_def dest: fetch_manifest_fs split: option.splits)
next
  case (both d h1)
  have h1: "h_fs h1 = h_fs h" using both(1) by (auto simp: ret_def dest: fetch_manifest_fs split: option.splits)
  have d: "manifest = Some d \<or> manifest = None \<and> fst (fetch_manifest st base h) = Inr d"
    using both(1) by (auto simp: ret_def split: option.splits)
  show ?thesis
  proof (cases "manifest_variant st gp d CAPABILITY_ENGINES name version arch")
    case (Inl e)
    with both(2) h1 show ?thesis by (auto simp: seq_steps)
  next
    case (Inr v)
    with d have v: "chosen st gp name version manifest base arch h v" by (auto simp: chosen_def)
    have mk: "mkdirs (h_fs h) R = Some (h_fs h)" using mkdirs_canonical [of "h_fs h" R "[]"] ok by (simp add: site_ok_def)
    from both(2) [unfolded Inr lift.simps seq_ret] show ?thesis
    proof (cases rule: seqE)
      case (first e)
      with engine_installed_pure [OF first(1)] h1 show ?thesis by simp
    next
      case (both b h2)
      from engine_installed_pure [OF both(1)] have h2: "h2 = h1" .
      show ?thesis
      proof (cases b)
        case True
        with both h2 h1 have "left_alone (R @ [n]) v (h_fs h) r h'" by (auto simp: left_alone_def ret_def)
        with v show ?thesis by blast
      next
        case False
        have "h1\<lparr>h_fs := h_fs h\<rparr> = h1" using h1 by (cases h1) simp
        with both(2) h2 h1 mk False v locked_run [of R n h1 meanwhile v st base r h'] ok other show ?thesis
          by (auto simp: seq_change [where g = "\<lambda>fs. mkdirs fs R"])
      qed
    qed
  qed
qed

text \<open>
  C12. Whatever happens when an engine is used for the first time, a crash of the network, a broken or
  forged archive, a full disk, another process at work on the same engine, the engine's directory is afterwards
  exactly what it was before (or what the other process made of it while this one waited for the
  lock), or it holds exactly the contents of one archive whose digest is the one the manifest
  names: every file of the archive, and nothing that is not a member of it, a link of it to a
  neighbour, or the marker.  When the call returns the directory, the latter holds or the marker names the digest.
\<close>

theorem engine_dir_verified:
  assumes "site_ok R n (h_fs h)" "\<forall>fs. site_ok R n fs \<longrightarrow> site_ok R n (meanwhile fs)"
    and "ensure_engine st gp meanwhile name version (R @ [n]) manifest base arch h = (r, h')"
  shows "same_tree (R @ [n]) (h_fs h) (h_fs h') \<and> (\<forall>p. r \<noteq> Inr p) \<or>
    (\<exists>v. chosen st gp name version manifest base arch h v \<and>
       (left_alone (R @ [n]) v (h_fs h) r h' \<or>
        left_alone (R @ [n]) v (meanwhile (put (R @ [lock_name n]) (EFile []) (h_fs h))) r h' \<or>
        engine_tree st v (R @ [n]) (h_fs h')))"
  using assms by (rule ensure_engine_run)

definition sample_store :: site where
  "sample_store = sample_site\<lparr>
     st_get := (\<lambda>n url start. Some \<lparr>hr_status = 200, hr_content_length = None, hr_chunks = [''zip''], hr_broken = False\<rparr>),
     st_sha256 := (\<lambda>s. ''d1''), st_unzip := (\<lambda>s. Some [(''bin/llama'', ''code''), (''lib/'', [])])\<rparr>"

definition sample_manifest :: jdict where
  "sample_manifest =
     [(''schema'', JInt 1),
      (''engines'', JObj [(''e'', JObj [(''1'', JObj [(''linux-x64'',
         JObj [(''path'', JStr ''engines/a.zip''), (''sha256'', JStr ''d1''), (''size'', JInt 3)])])])])]"

definition no_gpu :: gpu where
  "no_gpu = \<lparr>gp_nvcc = None, gp_nvidia_smi = None, gp_rocm_smi = False\<rparr>"

definition sample_install :: "(as_error + apath) \<times> host" where
  "sample_install = ensure_engine sample_store no_gpu (\<lambda>fs. fs) ''e'' (Some ''1'') [''e''] (Some sample_manifest) None None sample_host"

lemma sample_install_result:
  "fst sample_install = Inr [''e'']" "node (h_fs (snd sample_install)) [''e'', ''llama''] = Some (EFile ''code'')"
  "node (h_fs (snd sample_install)) [''e'', MARKER] = Some (EFile ''d1'')"
  by code_simp+

theorem engine_dir_verified_witness:
  "fst sample_install = Inr [''e''] \<and>
   (\<exists>v. chosen sample_store no_gpu ''e'' (Some ''1'') (Some sample_manifest) None None sample_host v \<and>
      engine_tree sample_store v [''e''] (h_fs (snd sample_install)))"
proof -
  have fs: "h_fs sample_host = []" by (simp add: sample_host_def)
  have ok: "site_ok [] ''e'' (h_fs sample_host)" by (auto simp: fs site_ok_def tame_def node_def)
  have changed: "\<not> same_tree [''e''] [] (h_fs (snd sample_install))"
    "\<not> same_tree [''e''] (put [lock_name ''e''] (EFile []) []) (h_fs (snd sample_install))"
    using sample_install_result(2) by (auto simp: same_tree_def node_def put_def intro!: exI [of _ "[''llama'']"])
  show ?thesis
    using engine_dir_verified [of "[]" "''e''" sample_host "\<lambda>fs. fs", OF ok _
        prod.collapse [symmetric, of "ensure_engine sample_store no_gpu (\<lambda>fs. fs) ''e'' (Some ''1'') ([] @ [''e'']) (Some sample_manifest) None None sample_host"]]
      changed sample_install_result(1)
    by (auto simp: sample_install_def [symmetric] left_alone_def fs)
qed

end
