(* ===== verification/Serving_Proxy.thy ===== *)
theory Serving_Proxy
  imports Urls
begin

text \<open>
  \<open>infra/serving_proxy.py\<close>: the reverse proxy in front of llama-swap.  \<open>telemetry\<close> is the state of
  \<open>_ChatTelemetry\<close>; a chunk is appended to its buffer and complete server-sent events are drained from
  it.  The handlers are functions of the request, the upstream's answer and the number of chunks the
  client accepts before it hangs up; what they send is a status, headers and a body.

  \<open>json.loads\<close> on bytes is a parameter with three outcomes, since a body that is not UTF-8 raises
  \<open>UnicodeDecodeError\<close>, which the handlers of \<open>JSONDecodeError\<close> do not catch.  Wall-clock fields of the
  telemetry record are left out.

  The main fact is that the result of parsing a stream does not depend on how it was cut into chunks.
\<close>

section \<open>Telemetry of one chat request\<close>

datatype loaded = Loaded json | BadJson | BadUnicode

datatype px_error =
    UnicodeDecodeError
  | NotIterable
  | BadContentLength
  | UpstreamBroken
  | ClientGone
  | PortInUse
  | BindFailed

record telemetry =
  tl_buf :: string
  tl_chunks :: nat
  tl_usage :: "jdict option"
  tl_model :: json
  tl_stream :: bool

definition empty_telemetry :: telemetry where
  "empty_telemetry = \<lparr>tl_buf = [], tl_chunks = 0, tl_usage = None, tl_model = JNull, tl_stream = False\<rparr>"

definition new_telemetry :: "(string \<Rightarrow> loaded) \<Rightarrow> string \<Rightarrow> px_error + telemetry" where
  "new_telemetry loads body =
     (if body = [] then Inr empty_telemetry
      else case loads body of
             BadUnicode \<Rightarrow> Inl UnicodeDecodeError
           | BadJson \<Rightarrow> Inr empty_telemetry
           | Loaded (JObj d) \<Rightarrow>
               Inr (empty_telemetry\<lparr>tl_stream := truthy (dget d ''stream''), tl_model := dget d ''model''\<rparr>)
           | Loaded _ \<Rightarrow> Inr empty_telemetry)"

fun counts_content :: "json \<Rightarrow> bool" where
  "counts_content (JObj c) = (case dget c ''delta'' of JObj d \<Rightarrow> truthy (dget d ''content'') | _ \<Rightarrow> False)"
| "counts_content _ = False"

definition absorb :: "jdict \<Rightarrow> telemetry \<Rightarrow> px_error option \<times> telemetry" where
  "absorb obj t =
     (let t1 = (case dget obj ''usage'' of JObj u \<Rightarrow> t\<lparr>tl_usage := Some u\<rparr> | _ \<Rightarrow> t);
          choices = dget obj ''choices'' in
      case iterate (if truthy choices then choices else JArr []) of
        Inl _ \<Rightarrow> (Some NotIterable, t1)
      | Inr cs \<Rightarrow> (None, t1\<lparr>tl_chunks := tl_chunks t1 + length (filter counts_content cs)\<rparr>))"

text \<open>One line of an event: only \<open>data:\<close> lines with a JSON object count.\<close>

definition consume_line :: "(string \<Rightarrow> loaded) \<Rightarrow> string \<Rightarrow> telemetry \<Rightarrow> px_error option \<times> telemetry" where
  "consume_line loads raw t =
     (let line = bytes_strip raw; payload = bytes_strip (drop 5 line) in
      if \<not> startswith line ''data:'' then (None, t)
      else if payload = [] \<or> payload = ''[DONE]'' then (None, t)
      else case loads payload of
             BadUnicode \<Rightarrow> (Some UnicodeDecodeError, t)
           | BadJson \<Rightarrow> (None, t)
           | Loaded (JObj d) \<Rightarrow> absorb d t
           | Loaded _ \<Rightarrow> (None, t))"

fun consume_lines :: "(string \<Rightarrow> loaded) \<Rightarrow> string list \<Rightarrow> telemetry \<Rightarrow> px_error option \<times> telemetry" where
  "consume_lines loads [] t = (None, t)"
| "consume_lines loads (l # ls) t =
     (case consume_line loads l t of
        (Some e, t1) \<Rightarrow> (Some e, t1)
      | (None, t1) \<Rightarrow> consume_lines loads ls t1)"

definition consume_event :: "(string \<Rightarrow> loaded) \<Rightarrow> string \<Rightarrow> telemetry \<Rightarrow> px_error option \<times> telemetry" where
  "consume_event loads event t = consume_lines loads (split_char chr_nl event) t"

text \<open>The earliest delimiter in the buffer, and the event and the rest it separates.\<close>

abbreviation LFLF :: string where "LFLF \<equiv> [chr_nl, chr_nl]"
abbreviation CRLF2 :: string where "CRLF2 \<equiv> [chr_cr, chr_nl, chr_cr, chr_nl]"

definition delimiter :: "string \<Rightarrow> (nat \<times> nat) option" where
  "delimiter buf =
     (case (find_sub LFLF buf, find_sub CRLF2 buf) of
        (None, None) \<Rightarrow> None
      | (Some lf, None) \<Rightarrow> Some (lf, 2)
      | (None, Some crlf) \<Rightarrow> Some (crlf, 4)
      | (Some lf, Some crlf) \<Rightarrow> if lf < crlf then Some (lf, 2) else Some (crlf, 4))"

definition next_event :: "string \<Rightarrow> (string \<times> string) option" where
  "next_event buf = (case delimiter buf of None \<Rightarrow> None | Some (sep, n) \<Rightarrow> Some (take sep buf, drop (sep + n) buf))"

section \<open>The drain loop terminates\<close>

lemma absorb_buf: "tl_buf (snd (absorb d t)) = tl_buf t"
  by (simp add: absorb_def Let_def split: json.splits sum.splits)

lemma consume_line_buf: "tl_buf (snd (consume_line loads l t)) = tl_buf t"
  by (simp add: consume_line_def Let_def absorb_buf split: loaded.splits json.splits)

lemma consume_lines_buf: "tl_buf (snd (consume_lines loads ls t)) = tl_buf t"
proof (induction ls arbitrary: t)
  case (Cons l ls)
  have "tl_buf (snd (consume_line loads l t)) = tl_buf t" by (rule consume_line_buf)
  with Cons show ?case by (cases "consume_line loads l t") (auto split: option.splits)
qed simp

lemma consume_event_buf [simp]: "tl_buf (snd (consume_event loads ev t)) = tl_buf t"
  by (simp add: consume_event_def consume_lines_buf)

lemma find_sub_length: "find_sub p s = Some i \<Longrightarrow> i + length p \<le> length s"
  using find_sub_Some [of p s i] by (auto simp: startswith_def dest: arg_cong [of _ _ length])

lemma delimiter_length: "delimiter buf = Some (sep, n) \<Longrightarrow> 0 < n \<and> sep + n \<le> length buf"
  using find_sub_length [of LFLF buf] find_sub_length [of CRLF2 buf]
  by (auto simp: delimiter_def split: option.splits if_splits)

lemma next_event_shorter: "next_event buf = Some (ev, rest) \<Longrightarrow> length rest < length buf"
  using delimiter_length [of buf] by (auto simp: next_event_def split: option.splits prod.splits)

lemma drain_decrease:
  assumes "next_event (tl_buf t) = Some (ev, rest)" "consume_event loads ev (t\<lparr>tl_buf := rest\<rparr>) = (r, t1)"
  shows "length (tl_buf t1) < length (tl_buf t)"
proof -
  have "tl_buf t1 = rest" using consume_event_buf [of loads ev "t\<lparr>tl_buf := rest\<rparr>"] assms(2) by simp
  with next_event_shorter [OF assms(1)] show ?thesis by simp
qed

function (sequential) drain :: "(string \<Rightarrow> loaded) \<Rightarrow> telemetry \<Rightarrow> px_error option \<times> telemetry" where
  "drain loads t =
     (case next_event (tl_buf t) of
        None \<Rightarrow> (None, t)
      | Some (ev, rest) \<Rightarrow>
          (case consume_event loads ev (t\<lparr>tl_buf := rest\<rparr>) of
             (Some e, t1) \<Rightarrow> (Some e, t1)
           | (None, t1) \<Rightarrow> drain loads t1))"
  by pat_completeness auto
termination
  by (relation "measure (\<lambda>(loads, t). length (tl_buf t))") (auto intro: drain_decrease [OF _ sym])

declare drain.simps [simp del]

definition ingest_chunk :: "(string \<Rightarrow> loaded) \<Rightarrow> string \<Rightarrow> telemetry \<Rightarrow> px_error option \<times> telemetry" where
  "ingest_chunk loads chunk t = (if chunk = [] then (None, t) else drain loads (t\<lparr>tl_buf := tl_buf t @ chunk\<rparr>))"

definition ingest_full_response :: "(string \<Rightarrow> loaded) \<Rightarrow> string \<Rightarrow> telemetry \<Rightarrow> px_error option \<times> telemetry" where
  "ingest_full_response loads body t =
     (case loads body of
        BadUnicode \<Rightarrow> (Some UnicodeDecodeError, t)
      | BadJson \<Rightarrow> (None, t)
      | Loaded (JObj d) \<Rightarrow> absorb d t
      | Loaded _ \<Rightarrow> (None, t))"

text \<open>The chunks of a stream, one after the other, up to the first exception.\<close>

fun ingest_chunks :: "(string \<Rightarrow> loaded) \<Rightarrow> string list \<Rightarrow> telemetry \<Rightarrow> px_error option \<times> telemetry" where
  "ingest_chunks loads [] t = (None, t)"
| "ingest_chunks loads (c # cs) t =
     (case ingest_chunk loads c t of
        (Some e, t1) \<Rightarrow> (Some e, t1)
      | (None, t1) \<Rightarrow> ingest_chunks loads cs t1)"

section \<open>Chunking does not matter\<close>

lemma startswith_drop_append:
  "i + length p \<le> length s \<Longrightarrow> startswith (drop i (s @ x)) p = startswith (drop i s) p"
  by (auto simp: startswith_def)

lemma startswith_drop_nth:
  "startswith (drop i s) p \<Longrightarrow> k < length p \<Longrightarrow> i + length p \<le> length s \<Longrightarrow> s ! (i + k) = p ! k"
  by (metis (no_types, lifting) add_leD1 nth_drop nth_take startswith_def)

lemma find_sub_append:
  assumes "find_sub p s = Some i"
  shows "find_sub p (s @ x) = Some i"
proof -
  note len = find_sub_length [OF assms] and found = find_sub_Some [OF assms]
  have at: "startswith (drop i (s @ x)) p" using found startswith_drop_append [OF len, of x] by blast
  obtain j where j: "find_sub p (s @ x) = Some j"
  proof (cases "find_sub p (s @ x)")
    case None
    with len have "\<not> startswith (drop i (s @ x)) p" using find_sub_None_iff [of p "s @ x"] by (simp del: drop_append)
    with at show ?thesis by blast
  qed
  note foundj = find_sub_Some [OF j]
  have "\<not> j < i"
  proof
    assume "j < i"
    with len have "j + length p \<le> length s" by simp
    from startswith_drop_append [OF this, of x] foundj found \<open>j < i\<close> show False by blast
  qed
  moreover have "\<not> i < j" using foundj at by blast
  ultimately show ?thesis using j by simp
qed

text \<open>A delimiter that is complete in the buffer stays the earliest one when bytes are appended.\<close>

lemma delimiter_append:
  assumes "delimiter s = Some (sep, n)"
  shows "delimiter (s @ x) = Some (sep, n)"
proof -
  have lf_first: "\<not> j < i" if i: "find_sub LFLF s = Some i" and j: "find_sub CRLF2 (s @ x) = Some j"
    and new: "find_sub CRLF2 s = None \<or> (\<exists>k > i. find_sub CRLF2 s = Some k)" for i j
  proof
    assume "j < i"
    have len: "i + 2 \<le> length s" using find_sub_length [OF i] by simp
    note atj = find_sub_Some [OF j] and ati = find_sub_Some [OF i]
    show False
    proof (cases "j + 4 \<le> length s")
      case True
      then have "startswith (drop j s) CRLF2" using atj startswith_drop_append [of j CRLF2 s x] by (simp del: drop_append)
      then have "find_sub CRLF2 s \<noteq> None" using True find_sub_None_iff [of CRLF2 s] by auto
      then obtain k where k: "find_sub CRLF2 s = Some k" "k > i" using new by auto
      with \<open>startswith (drop j s) CRLF2\<close> \<open>j < i\<close> find_sub_Some [OF k(1)] show False by auto
    next
      case False
      with \<open>j < i\<close> len have "j + 1 = i" by simp
      have "(s @ x) ! (j + 2) = chr_cr"
        using startswith_drop_nth [of j "s @ x" CRLF2 2] atj find_sub_length [OF j] by simp
      moreover have "s ! (i + 1) = chr_nl" using startswith_drop_nth [of i s LFLF 1] ati len by simp
      ultimately show False using \<open>j + 1 = i\<close> len by (auto simp: nth_append)
    qed
  qed
  have crlf_first: "\<not> j < i" if i: "find_sub CRLF2 s = Some i" and j: "find_sub LFLF (s @ x) = Some j"
    and new: "find_sub LFLF s = None \<or> (\<exists>k \<ge> i. find_sub LFLF s = Some k)" for i j
  proof
    assume "j < i"
    have "j + 2 \<le> length s" using find_sub_length [OF i] \<open>j < i\<close> by simp
    then have at: "startswith (drop j s) LFLF" using find_sub_Some [OF j] startswith_drop_append [of j LFLF s x] by (simp del: drop_append)
    then have "find_sub LFLF s \<noteq> None" using \<open>j + 2 \<le> length s\<close> find_sub_None_iff [of LFLF s] by auto
    then obtain k where k: "find_sub LFLF s = Some k" "k \<ge> i" using new by auto
    with at \<open>j < i\<close> find_sub_Some [OF k(1)] show False by auto
  qed
  have distinct_start: "i \<noteq> j" if "find_sub LFLF s' = Some i" "find_sub CRLF2 s' = Some j" for s' i j
    using startswith_drop_nth [of i s' LFLF 0] startswith_drop_nth [of j s' CRLF2 0] find_sub_Some [OF that(1)]
      find_sub_Some [OF that(2)] find_sub_length [OF that(1)] find_sub_length [OF that(2)] by auto
  show ?thesis
  proof (cases "find_sub LFLF s")
    case None
    with assms obtain i where i: "find_sub CRLF2 s = Some i" "sep = i" "n = 4" by (auto simp: delimiter_def split: option.splits)
    with None crlf_first [OF i(1)] find_sub_append [OF i(1), of x] show ?thesis
      by (auto simp: delimiter_def split: option.splits)
  next
    case (Some i)
    note app = find_sub_append [OF Some, of x]
    show ?thesis
    proof (cases "n = 2")
      case True
      with assms Some have "sep = i" and new: "find_sub CRLF2 s = None \<or> (\<exists>k > i. find_sub CRLF2 s = Some k)"
        by (auto simp: delimiter_def split: option.splits if_splits)
      with app lf_first [OF Some _ new] distinct_start [OF app] True show ?thesis
        by (cases "find_sub CRLF2 (s @ x)") (auto simp: delimiter_def)
    next
      case False
      with assms Some obtain j where j: "find_sub CRLF2 s = Some j" "sep = j" "n = 4" "\<not> i < j"
        by (auto simp: delimiter_def split: option.splits if_splits)
      with app find_sub_append [OF j(1), of x] show ?thesis by (simp add: delimiter_def)
    qed
  qed
qed

lemma next_event_append: "next_event s = Some (ev, rest) \<Longrightarrow> next_event (s @ x) = Some (ev, rest @ x)"
  using delimiter_append [of s] delimiter_length [of s]
  by (auto simp: next_event_def split: option.splits prod.splits)

lemma consume_line_with_buf:
  "consume_line loads l (t\<lparr>tl_buf := b\<rparr>) = (case consume_line loads l t of (e, t1) \<Rightarrow> (e, t1\<lparr>tl_buf := b\<rparr>))"
  by (auto simp: consume_line_def absorb_def Let_def split: loaded.splits json.splits sum.splits)

lemma consume_lines_with_buf:
  "consume_lines loads ls (t\<lparr>tl_buf := b\<rparr>) = (case consume_lines loads ls t of (e, t1) \<Rightarrow> (e, t1\<lparr>tl_buf := b\<rparr>))"
proof (induction ls arbitrary: t)
  case (Cons l ls)
  obtain e t1 where "consume_line loads l t = (e, t1)" by fastforce
  with Cons.IH [of t1] show ?case by (cases e) (simp_all add: consume_line_with_buf)
qed simp

lemma consume_event_with_buf:
  "consume_event loads ev (t\<lparr>tl_buf := b\<rparr>) = (case consume_event loads ev t of (e, t1) \<Rightarrow> (e, t1\<lparr>tl_buf := b\<rparr>))"
  by (simp add: consume_event_def consume_lines_with_buf)

lemma consume_event_extend:
  assumes "consume_event loads ev (t\<lparr>tl_buf := rest\<rparr>) = (e, t1)"
  shows "consume_event loads ev (t\<lparr>tl_buf := rest @ x\<rparr>) = (e, t1\<lparr>tl_buf := tl_buf t1 @ x\<rparr>) \<and> tl_buf t1 = rest"
  using assms consume_event_with_buf [where loads = loads and ev = ev and t = t and b = rest]
    consume_event_with_buf [where loads = loads and ev = ev and t = t and b = "rest @ x"]
    consume_event_buf [of loads ev "t\<lparr>tl_buf := rest\<rparr>"]
  by (cases "consume_event loads ev t") auto

text \<open>Draining a longer buffer is draining the shorter one first, and then what was appended.\<close>

lemma drain_append:
  "drain loads (t\<lparr>tl_buf := tl_buf t @ x\<rparr>) =
     (case drain loads t of
        (Some e, t1) \<Rightarrow> (Some e, t1\<lparr>tl_buf := tl_buf t1 @ x\<rparr>)
      | (None, t1) \<Rightarrow> drain loads (t1\<lparr>tl_buf := tl_buf t1 @ x\<rparr>))"
proof (induction loads t rule: drain.induct)
  case (1 loads t)
  show ?case
  proof (cases "next_event (tl_buf t)")
    case None
    then have "drain loads t = (None, t)" by (subst drain.simps) simp
    then show ?thesis by simp
  next
    case (Some p)
    obtain ev rest where p: "p = (ev, rest)" by fastforce
    obtain e t1 where c: "consume_event loads ev (t\<lparr>tl_buf := rest\<rparr>) = (e, t1)" by fastforce
    note ext = consume_event_extend [OF c, of x] and nx = next_event_append [of "tl_buf t" ev rest x]
    have left: "drain loads (t\<lparr>tl_buf := tl_buf t @ x\<rparr>) =
        (case e of Some err \<Rightarrow> (Some err, t1\<lparr>tl_buf := tl_buf t1 @ x\<rparr>) | None \<Rightarrow> drain loads (t1\<lparr>tl_buf := tl_buf t1 @ x\<rparr>))"
      using Some p nx ext by (subst drain.simps) (simp split: option.splits)
    have right: "drain loads t = (case e of Some err \<Rightarrow> (Some err, t1) | None \<Rightarrow> drain loads t1)"
      using Some p c by (subst drain.simps) (simp split: option.splits)
    show ?thesis
    proof (cases e)
      case None
      with 1 [OF Some p[symmetric] c[symmetric]] left right show ?thesis by simp
    qed (use left right in simp)
  qed
qed

lemma drain_done: "drain loads t = (None, t1) \<Longrightarrow> next_event (tl_buf t1) = None"
proof (induction loads t rule: drain.induct)
  case (1 loads t)
  show ?case
  proof (cases "next_event (tl_buf t)")
    case None
    with 1(2) show ?thesis by (simp add: drain.simps [of loads t])
  next
    case (Some p)
    obtain ev rest where p: "p = (ev, rest)" by fastforce
    obtain e t2 where c: "consume_event loads ev (t\<lparr>tl_buf := rest\<rparr>) = (e, t2)" by fastforce
    from 1(2) Some p c have "e = None" "drain loads t2 = (None, t1)"
      by (simp_all add: drain.simps [of loads t] split: option.splits)
    with 1(1) [OF Some p[symmetric] c[symmetric]] show ?thesis by simp
  qed
qed

lemma drain_settled: "next_event (tl_buf t) = None \<Longrightarrow> drain loads t = (None, t)"
  by (simp add: drain.simps [of loads t])

text \<open>What a telemetry record is built from.\<close>

definition counted :: "telemetry \<Rightarrow> nat \<times> jdict option \<times> json \<times> bool" where
  "counted t = (tl_chunks t, tl_usage t, tl_model t, tl_stream t)"

lemma counted_buf [simp]: "counted (t\<lparr>tl_buf := b\<rparr>) = counted t"
  by (simp add: counted_def)

lemma ingest_chunks_whole:
  assumes "next_event (tl_buf t) = None"
  shows "case ingest_chunks loads cs t of (e, t1) \<Rightarrow>
    (case drain loads (t\<lparr>tl_buf := tl_buf t @ concat cs\<rparr>) of (e', t2) \<Rightarrow>
       e' = e \<and> counted t2 = counted t1 \<and> (e = None \<longrightarrow> t2 = t1))"
  using assms
proof (induction cs arbitrary: t)
  case Nil
  then show ?case by (simp add: drain_settled)
next
  case (Cons c cs)
  obtain e t1 where d: "drain loads (t\<lparr>tl_buf := tl_buf t @ c\<rparr>) = (e, t1)" by fastforce
  have ing: "ingest_chunk loads c t = (e, t1)"
    using d Cons.prems by (cases "c = []") (simp_all add: ingest_chunk_def drain_settled)
  have whole: "drain loads (t\<lparr>tl_buf := tl_buf t @ concat (c # cs)\<rparr>) =
      (case e of Some err \<Rightarrow> (Some err, t1\<lparr>tl_buf := tl_buf t1 @ concat cs\<rparr>)
       | None \<Rightarrow> drain loads (t1\<lparr>tl_buf := tl_buf t1 @ concat cs\<rparr>))"
    using drain_append [of loads "t\<lparr>tl_buf := tl_buf t @ c\<rparr>" "concat cs"] d by (simp split: option.splits)
  show ?case
  proof (cases e)
    case None
    with drain_done [of loads _ t1] d have "next_event (tl_buf t1) = None" by blast
    from Cons.IH [OF this] whole ing None show ?thesis by simp
  next
    case (Some err)
    with whole ing show ?thesis by simp
  qed
qed

text \<open>
  C20. The telemetry of a stream does not depend on how the network cut it into chunks: feeding
  the chunks one by one gives the same token count, usage block and outcome (exception included) as
  feeding all bytes at once, for both event delimiters and wherever a delimiter was split; without an
  exception the remaining buffer is the same too.
\<close>

theorem sse_chunking_irrelevant:
  "case ingest_chunks loads cs empty_telemetry of (e, t1) \<Rightarrow>
    (case ingest_chunk loads (concat cs) empty_telemetry of (e', t2) \<Rightarrow>
       e' = e \<and> counted t2 = counted t1 \<and> (e = None \<longrightarrow> t2 = t1))"
proof -
  have "next_event (tl_buf empty_telemetry) = None" by (simp add: empty_telemetry_def next_event_def delimiter_def)
  from ingest_chunks_whole [OF this, of loads cs] drain_settled [OF this, of loads] show ?thesis
    by (cases "concat cs") (simp_all add: ingest_chunk_def empty_telemetry_def del: concat_eq_Nil_conv)
qed

theorem sse_chunking_irrelevant_witness:
  "snd (ingest_chunk (\<lambda>_. BadJson) (concat [''data:'', ''1'' @ [chr_nl], [chr_nl] @ ''d'']) empty_telemetry) =
   snd (ingest_chunks (\<lambda>_. BadJson) [''data:'', ''1'' @ [chr_nl], [chr_nl] @ ''d''] empty_telemetry)"
proof -
  have "fst (ingest_chunks (\<lambda>_. BadJson) [''data:'', ''1'' @ [chr_nl], [chr_nl] @ ''d''] empty_telemetry) = None" by code_simp
  then show ?thesis
    using sse_chunking_irrelevant [of "\<lambda>_. BadJson" "[''data:'', ''1'' @ [chr_nl], [chr_nl] @ ''d'']"]
    by (simp only: split_beta)
qed

section \<open>The telemetry record\<close>

record chat_record =
  cr_model :: json
  cr_stream :: bool
  cr_generated :: int
  cr_prompt :: int
  cr_source :: string

definition tokens_of :: "jdict \<Rightarrow> string \<Rightarrow> int option" where
  "tokens_of usage k = (let v = dget usage k in if truthy v then json_int v else Some 0)"

definition build_record :: "telemetry \<Rightarrow> chat_record option" where
  "build_record t =
     (case tl_usage t of
        Some (u # us) \<Rightarrow>
          (case (tokens_of (u # us) ''completion_tokens'', tokens_of (u # us) ''prompt_tokens'') of
             (Some g, Some p) \<Rightarrow>
               Some \<lparr>cr_model = tl_model t, cr_stream = tl_stream t, cr_generated = g, cr_prompt = p, cr_source = ''usage''\<rparr>
           | _ \<Rightarrow> None)
      | _ \<Rightarrow> Some \<lparr>cr_model = tl_model t, cr_stream = tl_stream t, cr_generated = int (tl_chunks t), cr_prompt = 0,
                   cr_source = ''delta_count''\<rparr>)"

section \<open>Handlers\<close>

text \<open>
  \<open>rq_input\<close> is what can be read from the client's connection.  An upstream answer to a POST is a list of
  the reads \<open>read1\<close> returns, and whether the connection breaks after them; for a GET its content is
  their concatenation.  The last argument of a handler is the number of writes that succeed before
  the client's socket is found closed.  What a handler does is a trace.
\<close>

type_synonym header = "string \<times> string"

record px_server =
  sv_upstream :: string
  sv_origins :: "string list"
  sv_telemetry :: bool

record px_request =
  rq_path :: string
  rq_origin :: "string option"
  rq_content_type :: "string option"
  rq_authorization :: "string option"
  rq_content_length :: "string option"
  rq_input :: string

datatype upstream = Unreachable | Reply nat "string option" "string list" bool

datatype px_event =
    Call string string "header list" string
  | Respond nat "header list"
  | ErrorPage nat string
  | Body string
  | CloseUpstream
  | Telemetry chat_record

fun given :: "string option \<Rightarrow> string" where
  "given None = []"
| "given (Some s) = s"

definition sanitize_header_value :: "string option \<Rightarrow> string" where
  "sanitize_header_value raw = py_strip (remove_char chr_nl (remove_char chr_cr (given raw)))"

definition resolve_echo_origin :: "px_server \<Rightarrow> px_request \<Rightarrow> string option" where
  "resolve_echo_origin sv rq =
     (let origin = sanitize_header_value (rq_origin rq) in
      if origin = [] then None else if origin \<in> set (sv_origins sv) then Some origin else None)"

fun send_cors_response_headers :: "string option \<Rightarrow> header list" where
  "send_cors_response_headers None = [(''Vary'', ''Origin'')]"
| "send_cors_response_headers (Some echo) = [(''Access-Control-Allow-Origin'', echo), (''Vary'', ''Origin'')]"

definition forward_headers :: "px_request \<Rightarrow> header list" where
  "forward_headers rq =
     (if given (rq_content_type rq) = [] then [] else [(''Content-Type'', given (rq_content_type rq))]) @
     (if given (rq_authorization rq) = [] then [] else [(''Authorization'', given (rq_authorization rq))])"

definition safe_send_error :: "nat \<Rightarrow> nat \<Rightarrow> string \<Rightarrow> px_event list" where
  "safe_send_error accepts code msg = (if accepts = 0 then [] else [ErrorPage code msg])"

definition send_error :: "nat \<Rightarrow> nat \<Rightarrow> string \<Rightarrow> px_error option \<times> px_event list" where
  "send_error accepts code msg = (if accepts = 0 then (Some ClientGone, []) else (None, [ErrorPage code msg]))"

definition safe_content_type :: "string option \<Rightarrow> string \<Rightarrow> string" where
  "safe_content_type raw dflt =
     (if given raw = [] then dflt
      else let v = py_strip (remove_char chr_nl (remove_char chr_cr (given raw))) in if v = [] then dflt else v)"

text \<open>An exception of \<open>build_record\<close> or of the callback is swallowed.\<close>

definition fire_telemetry :: "px_server \<Rightarrow> telemetry option \<Rightarrow> px_event list" where
  "fire_telemetry sv recorder =
     (case recorder of
        None \<Rightarrow> []
      | Some t \<Rightarrow>
          if \<not> sv_telemetry sv then []
          else case build_record t of None \<Rightarrow> [] | Some r \<Rightarrow> [Telemetry r])"

definition do_OPTIONS :: "px_server \<Rightarrow> px_request \<Rightarrow> nat \<Rightarrow> px_error option \<times> px_event list" where
  "do_OPTIONS sv rq accepts =
     (if accepts = 0 then (Some ClientGone, [])
      else (None, [Respond 204 (send_cors_response_headers (resolve_echo_origin sv rq) @
              [(''Access-Control-Allow-Methods'', ''GET, POST, OPTIONS''),
               (''Access-Control-Allow-Headers'', ''content-type, authorization''),
               (''Access-Control-Allow-Private-Network'', ''true''),
               (''Access-Control-Max-Age'', ''86400''),
               (''Content-Length'', ''0'')])]))"

definition do_GET :: "px_server \<Rightarrow> px_request \<Rightarrow> upstream \<Rightarrow> nat \<Rightarrow> px_error option \<times> px_event list" where
  "do_GET sv rq up accepts =
     (if rq_path rq \<notin> {''/v1/models'', ''/health''} then send_error accepts 404 ''Not Found''
      else let call = Call ''GET'' (sv_upstream sv @ rq_path rq) (forward_headers rq) [] in
      case up of
        Unreachable \<Rightarrow> (None, call # safe_send_error accepts 502 ''Upstream unavailable'')
      | Reply status ct chunks broken \<Rightarrow>
          if broken then (None, call # safe_send_error accepts 502 ''Upstream unavailable'')
          else (None, call # take accepts
            [Respond status ((''Content-Type'', safe_content_type ct ''application/json'') #
               (''Content-Length'', show_nat (length (concat chunks))) #
               send_cors_response_headers (resolve_echo_origin sv rq)),
             Body (concat chunks)]))"

text \<open>The copy loop: what was written, the recorder, the buffer, and what stopped it.\<close>

fun pump :: "(string \<Rightarrow> loaded) \<Rightarrow> bool \<Rightarrow> string list \<Rightarrow> bool \<Rightarrow> nat \<Rightarrow> telemetry option \<Rightarrow> string \<Rightarrow>
    px_error option \<times> string list \<times> telemetry option \<times> string" where
  "pump loads streaming [] broken accepts recorder buf =
     ((if broken then Some UpstreamBroken else None), [], recorder, buf)"
| "pump loads streaming (c # cs) broken accepts recorder buf =
     (if c = [] then (None, [], recorder, buf)
      else case accepts of
        0 \<Rightarrow> (Some ClientGone, [], recorder, buf)
      | Suc k \<Rightarrow>
          (case recorder of
             None \<Rightarrow> (case pump loads streaming cs broken k None buf of (e, ws, r, b) \<Rightarrow> (e, c # ws, r, b))
           | Some t \<Rightarrow>
               if streaming then
                 (case ingest_chunk loads c t of
                    (Some e, t1) \<Rightarrow> (Some e, [c], Some t1, buf)
                  | (None, t1) \<Rightarrow>
                      (case pump loads streaming cs broken k (Some t1) buf of (e, ws, r, b) \<Rightarrow> (e, c # ws, r, b)))
               else (case pump loads streaming cs broken k (Some t) (buf @ c) of (e, ws, r, b) \<Rightarrow> (e, c # ws, r, b))))"

text \<open>The guarded block with its \<open>finally\<close>: a client that hung up is not an error.\<close>

definition relay :: "(string \<Rightarrow> loaded) \<Rightarrow> px_server \<Rightarrow> bool \<Rightarrow> string list \<Rightarrow> bool \<Rightarrow> nat \<Rightarrow> telemetry option \<Rightarrow>
    px_error option \<times> px_event list" where
  "relay loads sv streaming chunks broken accepts recorder =
     (case pump loads streaming chunks broken accepts recorder [] of
        (e, ws, r, buf) \<Rightarrow>
          (case (case (e, r) of
                   (None, Some t) \<Rightarrow>
                     if streaming then (e, r)
                     else (case ingest_full_response loads buf t of (e1, t1) \<Rightarrow> (e1, Some t1))
                 | _ \<Rightarrow> (e, r)) of
             (e2, r2) \<Rightarrow>
               ((if e2 = Some ClientGone then None else e2), map Body ws @ CloseUpstream # fire_telemetry sv r2)))"

definition new_recorder :: "(string \<Rightarrow> loaded) \<Rightarrow> px_server \<Rightarrow> string \<Rightarrow> px_error + telemetry option" where
  "new_recorder loads sv body =
     (if sv_telemetry sv then map_sum (\<lambda>e. e) Some (new_telemetry loads body) else Inr None)"

definition is_event_stream :: "string option \<Rightarrow> bool" where
  "is_event_stream ct = startswith (given ct) ''text/event-stream''"

definition post_headers :: "px_server \<Rightarrow> px_request \<Rightarrow> string option \<Rightarrow> header list" where
  "post_headers sv rq ct =
     (''Content-Type'', safe_content_type ct (if is_event_stream ct then ''text/event-stream'' else ''application/json'')) #
     (''Cache-Control'', ''no-cache'') # (''Connection'', ''close'') # (''X-Accel-Buffering'', ''no'') #
     send_cors_response_headers (resolve_echo_origin sv rq)"

definition do_POST :: "(string \<Rightarrow> loaded) \<Rightarrow> px_server \<Rightarrow> px_request \<Rightarrow> upstream \<Rightarrow> nat \<Rightarrow> px_error option \<times> px_event list" where
  "do_POST loads sv rq up accepts =
     (if rq_path rq \<noteq> ''/v1/chat/completions'' then send_error accepts 404 ''Not Found''
      else case py_int (case rq_content_length rq of None \<Rightarrow> ''0'' | Some s \<Rightarrow> s) of
        None \<Rightarrow> (Some BadContentLength, [])
      | Some n \<Rightarrow>
          let body = (if 0 < n then take (nat n) (rq_input rq) else []);
              call = Call ''POST'' (sv_upstream sv @ rq_path rq) (forward_headers rq) body in
          (case new_recorder loads sv body of
             Inl e \<Rightarrow> (Some e, [])
           | Inr recorder \<Rightarrow>
               (case up of
                  Unreachable \<Rightarrow> (None, call # safe_send_error accepts 502 ''Upstream unavailable'')
                | Reply status ct chunks broken \<Rightarrow>
                    if accepts = 0 then (Some ClientGone, [call])
                    else (case relay loads sv (is_event_stream ct) chunks broken (accepts - 1) recorder of
                            (e, evs) \<Rightarrow> (e, call # Respond status (post_headers sv rq ct) # evs)))))"

section \<open>Lifecycle\<close>

text \<open>\<open>px_alive\<close> is whether the serving thread is alive; \<open>None\<close> when there is no thread.\<close>

record proxy =
  px_port :: int
  px_upstream_port :: int
  px_host :: string
  px_origins :: "string list"
  px_on_telemetry :: bool
  px_server :: "px_server option"
  px_thread :: "bool option"

definition ServingProxy :: "int \<Rightarrow> int \<Rightarrow> string list \<Rightarrow> bool \<Rightarrow> string \<Rightarrow> proxy" where
  "ServingProxy public upstr origins telemetry host =
     \<lparr>px_port = public, px_upstream_port = upstr, px_host = host, px_origins = filter (\<lambda>o'. o' \<noteq> []) origins,
      px_on_telemetry = telemetry, px_server = None, px_thread = None\<rparr>"

text \<open>\<open>in_use\<close> is what \<open>_port_in_use\<close> finds, \<open>binds\<close> whether the listening socket can be bound.\<close>

definition proxy_start :: "bool \<Rightarrow> bool \<Rightarrow> proxy \<Rightarrow> px_error option \<times> proxy" where
  "proxy_start in_use binds px =
     (if px_server px \<noteq> None then (None, px)
      else if in_use then (Some PortInUse, px)
      else if \<not> binds then (Some BindFailed, px)
      else (None, px\<lparr>px_server := Some \<lparr>sv_upstream = ''http://127.0.0.1:'' @ show_int (px_upstream_port px),
                         sv_origins = px_origins px, sv_telemetry = px_on_telemetry px\<rparr>,
                       px_thread := Some True\<rparr>))"

definition proxy_stop :: "proxy \<Rightarrow> proxy" where
  "proxy_stop px = (if px_server px = None then px else px\<lparr>px_server := None, px_thread := None\<rparr>)"

definition proxy_is_running :: "proxy \<Rightarrow> bool" where
  "proxy_is_running px = (px_server px \<noteq> None \<and> px_thread px = Some True)"

text \<open>A failed start leaves nothing behind, starting and stopping twice is starting and stopping once.\<close>

lemma proxy_start_cases:
  "fst (proxy_start u b px) = None \<Longrightarrow> px_server (snd (proxy_start u b px)) \<noteq> None"
  "fst (proxy_start u b px) \<noteq> None \<Longrightarrow> snd (proxy_start u b px) = px"
  "px_server px \<noteq> None \<Longrightarrow> proxy_start u b px = (None, px)"
  by (auto simp: proxy_start_def split: if_splits)

lemma proxy_restart:
  "px_server px = None \<Longrightarrow> px_thread px = None \<Longrightarrow> proxy_stop (snd (proxy_start u b px)) = px"
  by (simp add: proxy_start_def proxy_stop_def)

section \<open>What the client receives\<close>

lemma pump_prefix:
  "pump loads streaming cs broken accepts r buf = (e, ws, r1, b1) \<Longrightarrow>
     (\<exists>k. ws = take k cs \<and> k \<le> accepts) \<and> (r1 = None \<longleftrightarrow> r = None)"
proof (induction cs arbitrary: accepts r buf e ws r1 b1)
  case (Cons c cs)
  show ?case
  proof (cases "c = [] \<or> accepts = 0")
    case True
    with Cons.prems show ?thesis by (auto split: if_splits nat.splits intro: exI [of _ 0])
  next
    case False
    then obtain k where k: "accepts = Suc k" "c \<noteq> []" by (cases accepts) auto
    have wrap: ?thesis
      if p: "pump loads streaming cs broken k r' buf' = (e', ws', r1', b1')" and same: "r' = None \<longleftrightarrow> r = None"
        and res: "(e, ws, r1, b1) = (e', c # ws', r1', b1')" for r' buf' e' ws' r1' b1'
    proof -
      from Cons.IH [OF p] obtain j where "ws' = take j cs" "j \<le> k" by blast
      then have "ws = take (Suc j) (c # cs) \<and> Suc j \<le> accepts" using res k(1) by simp
      with Cons.IH [OF p] same res show ?thesis by blast
    qed
    show ?thesis
    proof (cases r)
      case None
      with Cons.prems k wrap [of None] show ?thesis by (auto split: prod.splits)
    next
      case (Some t)
      show ?thesis
      proof (cases "streaming \<and> fst (ingest_chunk loads c t) \<noteq> None")
        case True
        with Cons.prems k Some show ?thesis by (auto split: prod.splits option.splits intro: exI [of _ 1])
      next
        case False
        with Cons.prems k Some wrap [of "Some t" "buf @ c"] wrap [of "Some (snd (ingest_chunk loads c t))" buf] show ?thesis
          by (cases streaming) (auto split: prod.splits option.splits)
      qed
    qed
  qed
qed auto

lemma pump_off: "[] \<notin> set cs \<Longrightarrow> length cs \<le> accepts \<Longrightarrow> pump loads s cs False accepts None buf = (None, cs, None, buf)"
proof (induction cs arbitrary: accepts)
  case (Cons c cs)
  then show ?case by (cases accepts) auto
qed simp

lemma pump_full:
  "[] \<notin> set cs \<Longrightarrow> length cs \<le> accepts \<Longrightarrow>
     pump loads False cs False accepts (Some t) buf = (None, cs, Some t, buf @ concat cs)"
proof (induction cs arbitrary: accepts buf)
  case (Cons c cs)
  then show ?case by (cases accepts) auto
qed simp

lemma pump_stream:
  "[] \<notin> set cs \<Longrightarrow> length cs \<le> accepts \<Longrightarrow> ingest_chunks loads cs t = (None, t1) \<Longrightarrow>
     pump loads True cs False accepts (Some t) buf = (None, cs, Some t1, buf)"
proof (induction cs arbitrary: accepts t)
  case (Cons c cs)
  then show ?case by (cases accepts) (auto split: prod.splits option.splits)
qed simp

text \<open>The telemetry of a whole body, independently of how it was read.\<close>

definition whole_telemetry :: "(string \<Rightarrow> loaded) \<Rightarrow> bool \<Rightarrow> string \<Rightarrow> telemetry \<Rightarrow> px_error option \<times> telemetry" where
  "whole_telemetry loads streaming body t =
     (if streaming then ingest_chunk loads body t else ingest_full_response loads body t)"

lemma next_event_Nil [simp]: "next_event [] = None"
  by (simp add: next_event_def delimiter_def)

lemma ingest_chunks_at_once:
  assumes "tl_buf t = []" "ingest_chunk loads (concat cs) t = (None, t1)"
  shows "ingest_chunks loads cs t = (None, t1)"
proof -
  have settled: "next_event (tl_buf t) = None" using assms(1) by simp
  have "drain loads (t\<lparr>tl_buf := tl_buf t @ concat cs\<rparr>) = (None, t1)"
    using assms(2) drain_settled [OF settled, of loads]
    by (cases "concat cs") (simp_all add: ingest_chunk_def del: concat_eq_Nil_conv)
  with ingest_chunks_whole [OF settled, of loads cs] show ?thesis
    by (cases "ingest_chunks loads cs t") (simp split: option.splits)
qed

lemma new_recorder_buf: "new_recorder loads sv body = Inr (Some t) \<Longrightarrow> tl_buf t = []"
  by (auto simp: new_recorder_def new_telemetry_def empty_telemetry_def Let_def map_sum_def
      split: if_splits sum.splits loaded.splits json.splits)

lemma relay_complete:
  assumes "[] \<notin> set chunks" "length chunks \<le> accepts" "\<And>t. r = Some t \<Longrightarrow> tl_buf t = []"
    and "\<And>t. r = Some t \<Longrightarrow> fst (whole_telemetry loads streaming (concat chunks) t) = None"
  shows "relay loads sv streaming chunks False accepts r =
    (None, map Body chunks @ CloseUpstream # fire_telemetry sv (map_option (\<lambda>t. snd (whole_telemetry loads streaming (concat chunks) t)) r))"
proof (cases r)
  case None
  with assms(1,2) show ?thesis by (simp add: relay_def pump_off)
next
  case (Some t)
  obtain t1 where t1: "whole_telemetry loads streaming (concat chunks) t = (None, t1)"
    using assms(4) [OF Some] by (metis prod.collapse)
  show ?thesis
  proof (cases streaming)
    case True
    with t1 have "ingest_chunks loads chunks t = (None, t1)"
      using ingest_chunks_at_once [OF assms(3) [OF Some]] by (simp add: whole_telemetry_def)
    with True Some assms(1,2) t1 show ?thesis by (simp add: relay_def pump_stream)
  next
    case False
    with Some assms(1,2) t1 show ?thesis by (simp add: relay_def pump_full whole_telemetry_def)
  qed
qed

lemma relay_shape:
  assumes p: "pump loads streaming chunks broken accepts recorder [] = (e, ws, r, buf)"
  shows "\<exists>e2 r2. relay loads sv streaming chunks broken accepts recorder =
      (e2, map Body ws @ CloseUpstream # fire_telemetry sv r2) \<and> e2 \<noteq> Some ClientGone \<and> (r2 = None \<longleftrightarrow> r = None)"
proof -
  obtain e1 r1 where x: "(case (e, r) of
      (None, Some t) \<Rightarrow> if streaming then (e, r) else (case ingest_full_response loads buf t of (e1, t1) \<Rightarrow> (e1, Some t1))
    | _ \<Rightarrow> (e, r)) = (e1, r1)" by fastforce
  have "r1 = None \<longleftrightarrow> r = None" using x by (cases e; cases r) (auto split: if_splits prod.splits)
  with x have "relay loads sv streaming chunks broken accepts recorder =
      (if e1 = Some ClientGone then None else e1, map Body ws @ CloseUpstream # fire_telemetry sv r1)"
    by (simp add: relay_def p)
  with \<open>r1 = None \<longleftrightarrow> r = None\<close> show ?thesis
    by (intro exI [of _ "if e1 = Some ClientGone then None else e1"] exI [of _ r1]) simp
qed

text \<open>The declared length of a request and its body.\<close>

definition content_length :: "px_request \<Rightarrow> int option" where
  "content_length rq = py_int (case rq_content_length rq of None \<Rightarrow> ''0'' | Some s \<Rightarrow> s)"

definition request_body :: "px_request \<Rightarrow> int \<Rightarrow> string" where
  "request_body rq n = (if 0 < n then take (nat n) (rq_input rq) else [])"

definition chat_call :: "px_server \<Rightarrow> px_request \<Rightarrow> string \<Rightarrow> px_event" where
  "chat_call sv rq body = Call ''POST'' (sv_upstream sv @ rq_path rq) (forward_headers rq) body"

lemma do_POST_relay:
  assumes "rq_path rq = ''/v1/chat/completions''" "content_length rq = Some n"
    "new_recorder loads sv (request_body rq n) = Inr recorder" "0 < accepts"
  shows "do_POST loads sv rq (Reply status ct chunks broken) accepts =
    (case relay loads sv (is_event_stream ct) chunks broken (accepts - 1) recorder of
       (e, evs) \<Rightarrow> (e, chat_call sv rq (request_body rq n) # Respond status (post_headers sv rq ct) # evs))"
  using assms by (simp add: do_POST_def content_length_def request_body_def chat_call_def Let_def)

text \<open>A proxy and a request without body, for the instances below.\<close>

definition demo_proxy :: px_server where
  "demo_proxy = \<lparr>sv_upstream = ''http://127.0.0.1:8150'', sv_origins = [''https://app.example.com''], sv_telemetry = True\<rparr>"

definition demo_chat :: px_request where
  "demo_chat = \<lparr>rq_path = ''/v1/chat/completions'', rq_origin = Some ''https://app.example.com'', rq_content_type = None,
     rq_authorization = None, rq_content_length = None, rq_input = []\<rparr>"

lemma demo_chat_simps:
  "rq_path demo_chat = ''/v1/chat/completions''" "content_length demo_chat = Some 0" "request_body demo_chat 0 = []"
  "new_recorder loads demo_proxy [] = Inr (Some empty_telemetry)"
proof -
  have "py_int ''0'' = Some 0" by code_simp
  then show "content_length demo_chat = Some 0" by (simp add: content_length_def demo_chat_def)
qed (simp_all add: demo_chat_def demo_proxy_def request_body_def new_recorder_def new_telemetry_def)



text \<open>
  Once the response has started, the upstream connection is closed exactly once and after the last
  byte, telemetry comes after it and at most once, the client has received whole chunks from the
  beginning of the answer and nothing else, and a client that hung up is not an error: whatever the
  upstream, the client or the parser of the telemetry did.
\<close>

lemma chat_always_closed:
  assumes "rq_path rq = ''/v1/chat/completions''" "content_length rq = Some n"
    and "new_recorder loads sv (request_body rq n) = Inr recorder" "0 < accepts"
  shows "\<exists>e k fired. do_POST loads sv rq (Reply status ct chunks broken) accepts =
      (e, chat_call sv rq (request_body rq n) # Respond status (post_headers sv rq ct) #
          map Body (take k chunks) @ CloseUpstream # fired) \<and>
    k < accepts \<and> e \<noteq> Some ClientGone \<and> (\<exists>t. fired = fire_telemetry sv t \<and> (t = None \<longleftrightarrow> recorder = None))"
proof -
  obtain e ws r buf where p: "pump loads (is_event_stream ct) chunks broken (accepts - 1) recorder [] = (e, ws, r, buf)"
    by (metis prod_cases4)
  from pump_prefix [OF p] obtain k where k: "ws = take k chunks" "k \<le> accepts - 1" "r = None \<longleftrightarrow> recorder = None" by blast
  from relay_shape [OF p, of sv] obtain e2 r2 where "relay loads sv (is_event_stream ct) chunks broken (accepts - 1) recorder =
      (e2, map Body ws @ CloseUpstream # fire_telemetry sv r2)" "e2 \<noteq> Some ClientGone" "r2 = None \<longleftrightarrow> r = None" by blast
  with do_POST_relay [OF assms, of status ct chunks broken] k \<open>0 < accepts\<close> show ?thesis
    by (intro exI [of _ e2] exI [of _ k] exI [of _ "fire_telemetry sv r2"]) auto
qed

lemma chat_always_closed_witness:
  "\<exists>e k fired. do_POST (\<lambda>_. BadUnicode) demo_proxy demo_chat (Reply 200 None [''ab'', ''c''] True) 2 =
      (e, chat_call demo_proxy demo_chat [] # Respond 200 (post_headers demo_proxy demo_chat None) #
          map Body (take k [''ab'', ''c'']) @ CloseUpstream # fired) \<and> k < 2"
  using chat_always_closed [of demo_chat 0 "\<lambda>_. BadUnicode" demo_proxy "Some empty_telemetry" 2 200 None "[''ab'', ''c'']" True]
    demo_chat_simps by auto

section \<open>Response headers\<close>

fun event_headers :: "px_event \<Rightarrow> header list" where
  "event_headers (Respond _ hs) = hs"
| "event_headers _ = []"

definition sent_headers :: "px_event list \<Rightarrow> header list" where
  "sent_headers evs = concat (map event_headers evs)"

definition one_line :: "string \<Rightarrow> bool" where
  "one_line v = (chr_cr \<notin> set v \<and> chr_nl \<notin> set v)"

definition header_ok :: "px_server \<Rightarrow> header \<Rightarrow> bool" where
  "header_ok sv h = (one_line (snd h) \<and> (fst h = ''Access-Control-Allow-Origin'' \<longrightarrow> snd h \<in> set (sv_origins sv)))"

lemma sent_headers_simps [simp]:
  "sent_headers [] = []" "sent_headers (e # evs) = event_headers e @ sent_headers evs"
  "sent_headers (xs @ ys) = sent_headers xs @ sent_headers ys" "sent_headers (map Body ws) = []"
  "sent_headers (fire_telemetry sv r) = []" "sent_headers (safe_send_error a c m) = []"
  by (induction ws) (auto simp: sent_headers_def fire_telemetry_def safe_send_error_def split: option.splits)

lemma one_line_clean: "one_line (py_strip (remove_char chr_nl (remove_char chr_cr s)))"
  using set_strip_by [of is_space "remove_char chr_nl (remove_char chr_cr s)"]
  by (auto simp: one_line_def set_remove_char)

lemma one_line_content_type: "one_line d \<Longrightarrow> one_line (safe_content_type raw d)"
  by (simp add: safe_content_type_def Let_def one_line_clean)

lemma one_line_show_nat: "one_line (show_nat n)"
proof -
  have "\<not> is_digit chr_cr" "\<not> is_digit chr_nl" by (simp_all add: is_digit_def)
  with show_nat_digits [of n] show ?thesis by (auto simp: one_line_def list_all_iff)
qed

lemma cors_headers_ok: "list_all (header_ok sv) (send_cors_response_headers (resolve_echo_origin sv rq))"
proof (cases "resolve_echo_origin sv rq")
  case None
  then show ?thesis by (simp add: header_ok_def one_line_def)
next
  case (Some v)
  then have "v = sanitize_header_value (rq_origin rq)" "v \<in> set (sv_origins sv)"
    by (auto simp: resolve_echo_origin_def Let_def split: if_splits)
  with Some one_line_clean show ?thesis
    by (simp add: header_ok_def sanitize_header_value_def) (simp add: one_line_def)
qed

lemma relay_sends_no_headers: "sent_headers (snd (relay loads sv s cs b a r)) = []"
proof -
  obtain e ws r1 buf where "pump loads s cs b a r [] = (e, ws, r1, buf)" by (metis prod_cases4)
  from relay_shape [OF this, of sv] show ?thesis by auto
qed

lemma post_headers_ok: "list_all (header_ok sv) (post_headers sv rq ct)"
  using cors_headers_ok [of sv rq] one_line_content_type
  by (simp add: post_headers_def header_ok_def) (simp add: one_line_def)

lemma do_POST_headers: "list_all (header_ok sv) (sent_headers (snd (do_POST loads sv rq up accepts)))"
proof (cases up)
  case (Reply status ct chunks broken)
  have "sent_headers evs = []" if "relay loads sv s cs b a r = (e, evs)" for s cs b a r e evs
    using relay_sends_no_headers [of loads sv s cs b a r] that by simp
  with Reply post_headers_ok [of sv rq ct] show ?thesis
    by (auto simp: do_POST_def send_error_def Let_def split: option.splits sum.splits prod.splits)
qed (simp add: do_POST_def send_error_def Let_def split: option.splits sum.splits)

lemma do_GET_headers: "list_all (header_ok sv) (sent_headers (snd (do_GET sv rq up accepts)))"
proof -
  have ok: "list_all (header_ok sv) ((''Content-Type'', safe_content_type ct ''application/json'') #
      (''Content-Length'', show_nat n) # send_cors_response_headers (resolve_echo_origin sv rq))" for ct n
    using cors_headers_ok [of sv rq] one_line_content_type [of "''application/json''" ct] one_line_show_nat [of n]
    by (simp add: header_ok_def) (simp add: one_line_def)
  have "list_all (header_ok sv) (sent_headers (take a [Respond st hs, Body b]))" if "list_all (header_ok sv) hs" for a st hs b
    using that by (cases a; cases "a - 1") auto
  with ok show ?thesis
    by (cases up) (auto simp: do_GET_def send_error_def Let_def simp del: take_Cons)
qed

lemma do_OPTIONS_headers: "list_all (header_ok sv) (sent_headers (snd (do_OPTIONS sv rq accepts)))"
  using cors_headers_ok [of sv rq] by (simp add: do_OPTIONS_def header_ok_def) (simp add: one_line_def)

text \<open>
  No response header of the proxy can be split: no value any handler sends contains a carriage
  return or a line feed, whatever origin the client and content type the upstream sent; and the only
  origins a browser is told to trust are those of the allow list.
\<close>

lemma response_headers_safe:
  assumes "hs \<in> {sent_headers (snd (do_OPTIONS sv rq accepts)), sent_headers (snd (do_GET sv rq up accepts)),
    sent_headers (snd (do_POST loads sv rq up accepts))}" and "(k, v) \<in> set hs"
  shows "chr_cr \<notin> set v \<and> chr_nl \<notin> set v \<and> (k = ''Access-Control-Allow-Origin'' \<longrightarrow> v \<in> set (sv_origins sv))"
proof -
  have "list_all (header_ok sv) hs"
    using assms(1) do_OPTIONS_headers do_GET_headers do_POST_headers by auto
  with assms(2) have "header_ok sv (k, v)" by (auto simp: list_all_iff)
  then show ?thesis by (simp add: header_ok_def one_line_def)
qed

lemma response_headers_safe_witness:
  "''https://app.example.com'' \<in> set (sv_origins demo_proxy)"
proof -
  have "sent_headers (snd (do_OPTIONS demo_proxy demo_chat 1)) =
      send_cors_response_headers (Some ''https://app.example.com'') @
      [(''Access-Control-Allow-Methods'', ''GET, POST, OPTIONS''), (''Access-Control-Allow-Headers'', ''content-type, authorization''),
       (''Access-Control-Allow-Private-Network'', ''true''), (''Access-Control-Max-Age'', ''86400''), (''Content-Length'', ''0'')]"
    by code_simp
  then show ?thesis
    using response_headers_safe [of "sent_headers (snd (do_OPTIONS demo_proxy demo_chat 1))" demo_proxy demo_chat 1 Unreachable "\<lambda>_. BadJson" "''Access-Control-Allow-Origin''"
      "''https://app.example.com''"] by simp
qed

section \<open>Where the handlers fall short\<close>

definition relayed :: "px_event list \<Rightarrow> string list" where
  "relayed evs = concat (map (\<lambda>e. case e of Body b \<Rightarrow> [b] | _ \<Rightarrow> []) evs)"

definition bad_event :: string where
  "bad_event = ''data:1'' @ LFLF"

lemma bad_event_next: "next_event bad_event = Some (''data:1'', [])"
  by code_simp

lemma bad_event_line: "split_char chr_nl ''data:1'' = [''data:1'']" "bytes_strip ''data:1'' = ''data:1''" "bytes_strip ''1'' = ''1''"
  by code_simp+

lemma bad_event_raises:
  assumes "loads ''1'' = Loaded (JObj [(''choices'', JInt 7)])" "tl_buf t = []"
  shows "ingest_chunk loads bad_event t = (Some NotIterable, t)"
proof -
  have "consume_event loads ''data:1'' (t\<lparr>tl_buf := []\<rparr>) = (Some NotIterable, t\<lparr>tl_buf := []\<rparr>)"
    using assms(1) by (simp add: consume_event_def bad_event_line consume_line_def absorb_def dget_def)
  moreover have "bad_event \<noteq> []" by (simp add: bad_event_def)
  ultimately have "ingest_chunk loads bad_event t = (Some NotIterable, t\<lparr>tl_buf := []\<rparr>)"
    using assms(2) bad_event_next by (simp add: ingest_chunk_def drain.simps)
  with assms(2) show ?thesis by simp
qed

lemma relayed_simps [simp]:
  "relayed [] = []" "relayed (Call m u h b # evs) = relayed evs" "relayed (Respond c hs # evs) = relayed evs"
  "relayed (Body b # evs) = b # relayed evs" "relayed (CloseUpstream # evs) = relayed evs"
  "relayed (fire_telemetry sv r) = []"
  by (auto simp: relayed_def fire_telemetry_def split: option.splits)

lemma empty_chat:
  assumes "rq_path rq = ''/v1/chat/completions''" "rq_content_length rq = None"
  shows "content_length rq = Some 0" "request_body rq 0 = []"
    "new_recorder loads sv [] = Inr (if sv_telemetry sv then Some empty_telemetry else None)"
proof -
  have "py_int ''0'' = Some 0" by code_simp
  with assms show "content_length rq = Some 0" by (simp add: content_length_def)
qed (simp_all add: request_body_def new_recorder_def new_telemetry_def)

text \<open>
  Telemetry can break the request it observes: when an event of a stream holds \<open>choices\<close> that cannot
  be iterated, the client of a proxy with telemetry gets the stream cut off after that chunk, while the
  same proxy without telemetry relays it whole.
\<close>

lemma telemetry_breaks_stream:
  assumes "rq_path rq = ''/v1/chat/completions''" "rq_content_length rq = None" "is_event_stream ct"
    and bad: "loads ''1'' = Loaded (JObj [(''choices'', JInt 7)])" and "later \<noteq> []" "2 < accepts"
  shows "(case do_POST loads (sv\<lparr>sv_telemetry := True\<rparr>) rq (Reply 200 ct [bad_event, later] False) accepts of
            (e, evs) \<Rightarrow> e = Some NotIterable \<and> relayed evs = [bad_event]) \<and>
         (case do_POST loads (sv\<lparr>sv_telemetry := False\<rparr>) rq (Reply 200 ct [bad_event, later] False) accepts of
            (e, evs) \<Rightarrow> e = None \<and> relayed evs = [bad_event, later])"
proof -
  obtain k where k: "accepts = Suc (Suc (Suc k))" using \<open>2 < accepts\<close> by (metis add_2_eq_Suc less_imp_Suc_add)
  have "bad_event \<noteq> []" "tl_buf empty_telemetry = []" by (simp_all add: bad_event_def empty_telemetry_def)
  with bad_event_raises [of loads, OF bad] k assms(5)
  have "relay loads sv' True [bad_event, later] False (accepts - 1) (Some empty_telemetry) =
      (Some NotIterable, Body bad_event # CloseUpstream # fire_telemetry sv' (Some empty_telemetry))"
    "relay loads sv' True [bad_event, later] False (accepts - 1) None =
      (None, Body bad_event # Body later # CloseUpstream # fire_telemetry sv' None)" for sv'
    by (simp_all add: relay_def)
  with empty_chat [OF assms(1,2)] assms(3) k show ?thesis
    by (simp add: do_POST_relay [OF assms(1), of 0] chat_call_def)
qed

lemma telemetry_breaks_stream_witness:
  "(case do_POST (\<lambda>_. Loaded (JObj [(''choices'', JInt 7)])) (demo_proxy\<lparr>sv_telemetry := True\<rparr>) demo_chat
          (Reply 200 (Some ''text/event-stream'') [bad_event, ''x''] False) 3 of
      (e, evs) \<Rightarrow> e = Some NotIterable \<and> relayed evs = [bad_event])"
  using telemetry_breaks_stream [of demo_chat "Some ''text/event-stream''" "\<lambda>_. Loaded (JObj [(''choices'', JInt 7)])" "''x''" 3 demo_proxy]
  by (simp add: demo_chat_def is_event_stream_def)

text \<open>
  The end of the headers is written outside the guarded block: when the client hung up while the
  upstream was still working, the handler dies there, the upstream connection is not closed and no
  telemetry is sent, although the comments promise both.
\<close>

lemma early_hangup_leaks:
  assumes "rq_path rq = ''/v1/chat/completions''" "content_length rq = Some n"
    and "new_recorder loads sv (request_body rq n) = Inr recorder"
  shows "do_POST loads sv rq (Reply status ct chunks broken) 0 = (Some ClientGone, [chat_call sv rq (request_body rq n)])"
  using assms by (simp add: do_POST_def content_length_def request_body_def chat_call_def Let_def)

end
