(* ===== verification/Quoting.thy ===== *)
theory Quoting
  imports Prelude
begin

text \<open>
  The command lines the swap manager writes into llama-swap's configuration: \<open>shlex.join\<close> on Linux and
  macOS, \<open>subprocess.list2cmdline\<close> on Windows.  Against them stand the two readers: the word
  splitting of a POSIX shell, which refuses an unquoted metacharacter, and the argument rules of
  the Microsoft C runtime.  Both pairs round-trip for every argument list.
\<close>

section \<open>Writers\<close>

definition is_word_char :: "char \<Rightarrow> bool" where
  "is_word_char c = (let n = of_char c :: nat in
     (48 \<le> n \<and> n \<le> 57) \<or> (65 \<le> n \<and> n \<le> 90) \<or> (97 \<le> n \<and> n \<le> 122) \<or> c = CHR ''_'')"

definition is_safe_char :: "char \<Rightarrow> bool" where
  "is_safe_char c = (is_word_char c \<or> c \<in> set ''@%+=:,./-'')"

definition escape_squotes :: "string \<Rightarrow> string" where
  "escape_squotes s =
     concat (map (\<lambda>c. if c = chr_squote then [chr_squote, chr_dquote, chr_squote, chr_dquote, chr_squote] else [c]) s)"

definition shlex_quote :: "string \<Rightarrow> string" where
  "shlex_quote s =
     (if s = [] then [chr_squote, chr_squote]
      else if list_all is_safe_char s then s
      else [chr_squote] @ escape_squotes s @ [chr_squote])"

fun join_words :: "string list \<Rightarrow> string" where
  "join_words [] = []"
| "join_words [w] = w"
| "join_words (w # ws) = w @ CHR '' '' # join_words ws"

definition shlex_join :: "string list \<Rightarrow> string" where
  "shlex_join args = join_words (map shlex_quote args)"

text \<open>\<open>list2cmdline\<close>: the number is the length of \<open>bs_buf\<close>.\<close>

fun ms_body :: "bool \<Rightarrow> nat \<Rightarrow> string \<Rightarrow> string" where
  "ms_body q n [] = replicate n chr_bslash @ (if q then replicate n chr_bslash @ [chr_dquote] else [])"
| "ms_body q n (c # s) =
     (if c = chr_bslash then ms_body q (Suc n) s
      else if c = chr_dquote then replicate (2 * n) chr_bslash @ [chr_bslash, chr_dquote] @ ms_body q 0 s
      else replicate n chr_bslash @ c # ms_body q 0 s)"

definition is_blank :: "char \<Rightarrow> bool" where
  "is_blank c = (c = CHR '' '' \<or> c = CHR 0x09)"

definition ms_quote :: "string \<Rightarrow> string" where
  "ms_quote s = (let q = list_ex is_blank s \<or> s = [] in (if q then [chr_dquote] else []) @ ms_body q 0 s)"

definition list2cmdline :: "string list \<Rightarrow> string" where
  "list2cmdline args = join_words (map ms_quote args)"

section \<open>Readers\<close>

datatype quoting = Plain | Single | Double

fun flush_word :: "string option \<Rightarrow> string list" where
  "flush_word None = []"
| "flush_word (Some w) = [rev w]"

fun word_of :: "string option \<Rightarrow> string" where
  "word_of None = []"
| "word_of (Some w) = w"

definition is_shell_blank :: "char \<Rightarrow> bool" where
  "is_shell_blank c = (c = CHR '' '' \<or> c = CHR 0x09 \<or> c = chr_nl)"

definition is_meta :: "char \<Rightarrow> bool" where
  "is_meta c = (c \<in> set ''|&;<>()$`*?[]#~!{}'')"

fun sh_scan :: "quoting \<Rightarrow> string option \<Rightarrow> string \<Rightarrow> string list option" where
  "sh_scan Plain cur [] = Some (flush_word cur)"
| "sh_scan Single cur [] = None"
| "sh_scan Double cur [] = None"
| "sh_scan Plain cur (c # s) =
     (if is_shell_blank c then map_option (\<lambda>ws. flush_word cur @ ws) (sh_scan Plain None s)
      else if c = chr_squote then sh_scan Single (Some (word_of cur)) s
      else if c = chr_dquote then sh_scan Double (Some (word_of cur)) s
      else if c = chr_bslash then (case s of [] \<Rightarrow> None | d # r \<Rightarrow> sh_scan Plain (Some (d # word_of cur)) r)
      else if is_meta c then None
      else sh_scan Plain (Some (c # word_of cur)) s)"
| "sh_scan Single cur (c # s) =
     (if c = chr_squote then sh_scan Plain cur s else sh_scan Single (Some (c # word_of cur)) s)"
| "sh_scan Double cur (c # s) =
     (if c = chr_dquote then sh_scan Plain cur s
      else if c = chr_bslash then (case s of [] \<Rightarrow> None | d # r \<Rightarrow> sh_scan Double (Some (d # word_of cur)) r)
      else if c \<in> set ''$`'' then None
      else sh_scan Double (Some (c # word_of cur)) s)"

definition sh_split :: "string \<Rightarrow> string list option" where
  "sh_split s = sh_scan Plain None s"

text \<open>The C runtime: inside quotes or not, backslashes seen, the word so far.\<close>

fun ms_scan :: "bool \<Rightarrow> nat \<Rightarrow> string option \<Rightarrow> string \<Rightarrow> string list option" where
  "ms_scan q n cur [] =
     (if q then None else Some (flush_word (if n = 0 then cur else Some (replicate n chr_bslash @ word_of cur))))"
| "ms_scan q n cur (c # s) =
     (if c = chr_bslash then ms_scan q (Suc n) cur s
      else if c = chr_dquote then
        (let w = replicate (n div 2) chr_bslash @ word_of cur in
         if even n then ms_scan (\<not> q) 0 (Some w) s else ms_scan q 0 (Some (chr_dquote # w)) s)
      else let cur1 = (if n = 0 then cur else Some (replicate n chr_bslash @ word_of cur)) in
        if is_blank c \<and> \<not> q then map_option (\<lambda>ws. flush_word cur1 @ ws) (ms_scan q 0 None s)
        else ms_scan q 0 (Some (c # word_of cur1)) s)"

definition ms_split :: "string \<Rightarrow> string list option" where
  "ms_split s = ms_scan False 0 None s"

section \<open>POSIX round trip\<close>

text \<open>What may follow a word: nothing, or the blank that separates it from the next one.\<close>

definition at_end :: "string \<Rightarrow> bool" where
  "at_end r = (r = [] \<or> (\<exists>s. r = CHR '' '' # s))"

lemma safe_char_plain:
  assumes "is_safe_char c"
  shows "\<not> is_shell_blank c" "c \<noteq> chr_squote" "c \<noteq> chr_dquote" "c \<noteq> chr_bslash" "\<not> is_meta c"
  using assms by (auto simp: is_safe_char_def is_word_char_def is_shell_blank_def is_meta_def Let_def)

lemma sh_scan_safe:
  "list_all is_safe_char s \<Longrightarrow> sh_scan Plain cur (s @ r) = sh_scan Plain (if s = [] then cur else Some (rev s @ word_of cur)) r"
proof (induction s arbitrary: cur)
  case (Cons c s)
  then have "sh_scan Plain cur ((c # s) @ r) = sh_scan Plain (Some (c # word_of cur)) (s @ r)"
    using safe_char_plain [of c] by simp
  with Cons show ?case by (cases s) simp_all
qed simp

lemma sh_scan_single:
  "sh_scan Single (Some w) (escape_squotes s @ chr_squote # r) = sh_scan Plain (Some (rev s @ w)) r"
  by (induction s arbitrary: w) (auto simp: escape_squotes_def is_shell_blank_def)

lemma sh_scan_quote: "sh_scan Plain None (shlex_quote s @ r) = sh_scan Plain (Some (rev s)) r"
  using sh_scan_single [of "[]" s r] sh_scan_safe [of s None r]
  by (simp add: shlex_quote_def is_shell_blank_def)

lemma sh_split_join: "sh_split (shlex_join args) = Some args"
  unfolding sh_split_def shlex_join_def
proof (induction args rule: join_words.induct)
  case (2 w)
  show ?case using sh_scan_quote [of w "[]"] by simp
next
  case (3 w v ws)
  have "sh_scan Plain None (join_words (map shlex_quote (w # v # ws))) =
      sh_scan Plain (Some (rev w)) (CHR '' '' # join_words (map shlex_quote (v # ws)))"
    using sh_scan_quote by simp
  with 3 show ?case by (simp add: is_shell_blank_def)
qed simp

section \<open>C runtime round trip\<close>

lemma ms_scan_bslashes: "ms_scan q n cur (replicate k chr_bslash @ r) = ms_scan q (n + k) cur r"
  by (induction k arbitrary: n) simp_all

lemma ms_scan_end:
  "at_end r \<Longrightarrow> ms_scan False n (Some w) r = ms_scan False 0 (Some (replicate n chr_bslash @ w)) r"
  by (auto simp: at_end_def is_blank_def)

lemma ms_scan_body:
  assumes "at_end r" "q \<or> \<not> list_ex is_blank s"
  shows "ms_scan q 0 (Some w) (ms_body q n s @ r) = ms_scan False 0 (Some (rev s @ replicate n chr_bslash @ w)) r"
  using assms(2)
proof (induction q n s arbitrary: w rule: ms_body.induct)
  case (1 q n)
  then show ?case
    using ms_scan_end [OF assms(1), of n w] by (cases q) (simp_all add: ms_scan_bslashes)
next
  case (2 q n c s)
  consider "c = chr_bslash" | "c = chr_dquote" | "c \<noteq> chr_bslash" "c \<noteq> chr_dquote" by blast
  then show ?case
  proof cases
    case 1
    with 2 show ?thesis by (auto simp: replicate_app_Cons_same)
  next
    case c: 2
    with 2 show ?thesis by (auto simp: ms_scan_bslashes)
  next
    case 3
    with 2 show ?thesis by (auto simp: ms_scan_bslashes)
  qed
qed

lemma ms_scan_start:
  "0 < n \<or> (y \<noteq> [] \<and> \<not> is_blank (hd y)) \<Longrightarrow> ms_scan q n None y = ms_scan q n (Some []) y"
proof (induction y arbitrary: n)
  case (Cons c y)
  then show ?case by (cases n) auto
qed auto

lemma ms_body_start:
  "0 < n \<or> (s \<noteq> [] \<and> \<not> is_blank (hd s)) \<Longrightarrow> ms_body q n s \<noteq> [] \<and> \<not> is_blank (hd (ms_body q n s))"
  by (induction q n s rule: ms_body.induct) (auto simp: is_blank_def hd_append)

lemma ms_scan_quote:
  assumes "at_end r"
  shows "ms_scan False 0 None (ms_quote s @ r) = ms_scan False 0 (Some (rev s)) r"
proof (cases "list_ex is_blank s \<or> s = []")
  case True
  with ms_scan_body [OF assms, of True s "[]" 0] show ?thesis by (simp add: ms_quote_def)
next
  case False
  then have "\<not> is_blank (hd s)" "s \<noteq> []" by (cases s; simp)+
  with ms_body_start [of 0 s False] ms_scan_start [of 0 "ms_body False 0 s @ r" False]
  have "ms_scan False 0 None (ms_body False 0 s @ r) = ms_scan False 0 (Some []) (ms_body False 0 s @ r)" by simp
  with False ms_scan_body [OF assms, of False s "[]" 0] show ?thesis by (simp add: ms_quote_def)
qed

lemma ms_split_join: "ms_split (list2cmdline args) = Some args"
  unfolding ms_split_def list2cmdline_def
proof (induction args rule: join_words.induct)
  case (2 w)
  show ?case using ms_scan_quote [of "[]" w] by (simp add: at_end_def)
next
  case (3 w v ws)
  have "ms_scan False 0 None (join_words (map ms_quote (w # v # ws))) =
      ms_scan False 0 (Some (rev w)) (CHR '' '' # join_words (map ms_quote (v # ws)))"
    using ms_scan_quote by (simp add: at_end_def)
  with 3 show ?case by (simp add: is_blank_def)
qed simp

end
