(* ===== verification/Swap_Manager.thy ===== *)
theory Swap_Manager
  imports Serving_Proxy Quoting
begin

text \<open>
  \<open>plugins/language_model/swap_manager.py\<close>: one llama-swap process per public port, fronted by a
  \<open>ServingProxy\<close>.  A \<open>swap\<close> is the manager together with what it owns on the host: its configuration
  file, its pid file, and the trace of the signals it sent.  Everything the operating system decides
  (what a pid turns out to be, how a process reacts to a signal, whether a port is held or a write
  fails) is the record \<open>host_os\<close>, a parameter of every operation.

  The lemmas show what the configuration file holds after every operation, which processes can be
  signalled, that an orphan of a crashed agent is reclaimed, and the lock order of the two locks.
\<close>

section \<open>State\<close>

datatype signal = SIGTERM | SIGKILL | SIGHUP

text \<open>What \<open>psutil.Process(pid)\<close>, \<open>name()\<close> and \<open>cmdline()\<close> find.\<close>

datatype inspected = NoSuchProcess | Uninspectable | Unreadable | Visible string "string list"

text \<open>How a process takes \<open>terminate()\<close>: exits, needs \<open>kill()\<close>, outlives both, is already gone, refuses.\<close>

datatype ending = Exits | NeedsKill | Outlives | AlreadyGone | Refuses

record host_os =
  os_windows :: bool
  os_exists :: "string \<Rightarrow> bool"
  os_resolve :: "string \<Rightarrow> string"
  os_config_writes :: bool
  os_pid_writes :: bool
  os_unlinks :: bool
  os_inspect :: "nat \<Rightarrow> inspected"
  os_ending :: "nat \<Rightarrow> ending"
  os_alive :: "nat \<Rightarrow> bool"
  os_port_busy :: "(nat \<times> signal) list \<Rightarrow> bool"
  os_spawn :: "nat option"
  os_settles :: bool
  os_public_busy :: bool
  os_public_binds :: bool

datatype sw_error =
    BadTtl
  | BadPid
  | ConfigUnlinkFailed
  | ConfigWriteFailed
  | SwapBinaryMissing
  | ListenPortHeld
  | SpawnFailed
  | PidWriteFailed
  | ExitedImmediately
  | ProxyFailed px_error

record swap_model =
  md_path :: string
  md_args :: "string list"
  md_env :: "(string, string) dict"
  md_ttl :: int

record swap =
  sm_port :: int
  sm_host :: string
  sm_origins :: "string list"
  sm_swap_bin :: string
  sm_server_bin :: string
  sm_models :: "(string, swap_model) dict"
  sm_proc :: "nat option"
  sm_proxy :: "proxy option"
  sm_callbacks :: "nat list"
  sm_config_file :: "json option"
  sm_pid_file :: "string option"
  sm_signals :: "(nat \<times> signal) list"

definition MAX_CONCURRENT :: int where "MAX_CONCURRENT = 1"
definition HEALTH_CHECK_TIMEOUT :: int where "HEALTH_CHECK_TIMEOUT = 120"
definition MODEL_TTL :: int where "MODEL_TTL = 300"
definition PROXY_OFFSET :: int where "PROXY_OFFSET = 50"
definition INTERNAL_PORT_OFFSET :: int where "INTERNAL_PORT_OFFSET = 100"

definition listen_port :: "swap \<Rightarrow> int" where
  "listen_port sm = sm_port sm + PROXY_OFFSET"

definition config_path :: "swap \<Rightarrow> string" where
  "config_path sm = ''configs/swap_config_'' @ show_int (sm_port sm) @ ''.json''"

definition listen_address :: "swap \<Rightarrow> string" where
  "listen_address sm = ''127.0.0.1:'' @ show_int (listen_port sm)"

text \<open>A new manager finds the files a previous process left.\<close>

definition new_swap :: "bool \<Rightarrow> int \<Rightarrow> string \<Rightarrow> string \<Rightarrow> string list \<Rightarrow> string option \<Rightarrow> string option \<Rightarrow>
    json option \<Rightarrow> string option \<Rightarrow> swap" where
  "new_swap windows port host bin_dir origins swap_bin server_bin cfg pidf =
     \<lparr>sm_port = port, sm_host = host, sm_origins = filter (\<lambda>o'. o' \<noteq> []) origins,
      sm_swap_bin = (case swap_bin of Some p \<Rightarrow> p | None \<Rightarrow> bin_dir @ (if windows then ''/llama-swap.exe'' else ''/llama-swap'')),
      sm_server_bin = (case server_bin of Some p \<Rightarrow> p | None \<Rightarrow> bin_dir @ (if windows then ''/llama-server.exe'' else ''/llama-server'')),
      sm_models = [], sm_proc = None, sm_proxy = None, sm_callbacks = [],
      sm_config_file = cfg, sm_pid_file = pidf, sm_signals = []\<rparr>"

section \<open>Telemetry callbacks\<close>

definition add_telemetry_callback :: "nat \<Rightarrow> swap \<Rightarrow> swap" where
  "add_telemetry_callback cb sm =
     (if cb \<in> set (sm_callbacks sm) then sm else sm\<lparr>sm_callbacks := sm_callbacks sm @ [cb]\<rparr>)"

definition remove_telemetry_callback :: "nat \<Rightarrow> swap \<Rightarrow> swap" where
  "remove_telemetry_callback cb sm = sm\<lparr>sm_callbacks := remove1 cb (sm_callbacks sm)\<rparr>"

text \<open>Every registered callback is called with the record, in order, whatever the others raise.\<close>

definition fanout_telemetry :: "chat_record \<Rightarrow> swap \<Rightarrow> (nat \<times> chat_record) list" where
  "fanout_telemetry r sm = map (\<lambda>cb. (cb, r)) (sm_callbacks sm)"

section \<open>Configuration\<close>

definition command_line :: "bool \<Rightarrow> string list \<Rightarrow> string" where
  "command_line windows args = (if windows then list2cmdline args else shlex_join args)"

definition internal_port :: "swap \<Rightarrow> nat \<Rightarrow> int" where
  "internal_port sm i = listen_port sm + INTERNAL_PORT_OFFSET + int i"

definition server_args :: "swap \<Rightarrow> nat \<Rightarrow> swap_model \<Rightarrow> string list" where
  "server_args sm i m =
     [sm_server_bin sm, ''--model'', md_path m, ''--port'', show_int (internal_port sm i)] @ md_args m"

definition model_entry :: "bool \<Rightarrow> swap \<Rightarrow> nat \<Rightarrow> swap_model \<Rightarrow> json" where
  "model_entry windows sm i m =
     JObj ([(''cmd'', JStr (command_line windows (server_args sm i m))),
            (''proxy'', JStr (''http://127.0.0.1:'' @ show_int (internal_port sm i))),
            (''ttl'', JInt (md_ttl m))] @
           (if md_env m = [] then [] else [(''env'', JArr (map (\<lambda>(k, v). JStr (k @ ''='' @ v)) (md_env m)))]))"

definition model_entries :: "bool \<Rightarrow> swap \<Rightarrow> (string \<times> json) list" where
  "model_entries windows sm =
     map (\<lambda>(i, k, m). (k, model_entry windows sm i m)) (enumerate 0 (sm_models sm))"

definition swap_config :: "bool \<Rightarrow> swap \<Rightarrow> json" where
  "swap_config windows sm =
     JObj [(''healthCheckTimeout'', JInt HEALTH_CHECK_TIMEOUT), (''maxConcurrent'', JInt MAX_CONCURRENT),
           (''models'', JObj (model_entries windows sm))]"

definition write_config :: "host_os \<Rightarrow> swap \<Rightarrow> sw_error option \<times> swap" where
  "write_config os sm =
     (if os_config_writes os then (None, sm\<lparr>sm_config_file := Some (swap_config (os_windows os) sm)\<rparr>)
      else (Some ConfigWriteFailed, sm))"

section \<open>Pid file and orphans\<close>

definition write_pid :: "host_os \<Rightarrow> nat \<Rightarrow> swap \<Rightarrow> sw_error option \<times> swap" where
  "write_pid os pid sm =
     (if os_pid_writes os then (None, sm\<lparr>sm_pid_file := Some (show_nat pid)\<rparr>) else (Some PidWriteFailed, sm))"

definition read_pid :: "swap \<Rightarrow> int option" where
  "read_pid sm = (case sm_pid_file sm of None \<Rightarrow> None | Some s \<Rightarrow> py_int (py_strip s))"

definition clear_pid :: "host_os \<Rightarrow> swap \<Rightarrow> swap" where
  "clear_pid os sm = (if os_unlinks os then sm\<lparr>sm_pid_file := None\<rparr> else sm)"

definition looks_like_our_llama_swap :: "host_os \<Rightarrow> swap \<Rightarrow> inspected \<Rightarrow> bool" where
  "looks_like_our_llama_swap os sm p =
     (case p of
        Visible name args \<Rightarrow>
          (let cmdline = map py_lower args in
           (contains_sub ''llama-swap'' (py_lower name) \<or> list_ex (contains_sub ''llama-swap'') cmdline) \<and>
           (py_lower (os_resolve os (config_path sm)) \<in> set cmdline \<or> list_ex (contains_sub (listen_address sm)) cmdline))
      | _ \<Rightarrow> False)"

definition send :: "nat \<Rightarrow> signal \<Rightarrow> swap \<Rightarrow> swap" where
  "send pid sig sm = sm\<lparr>sm_signals := sm_signals sm @ [(pid, sig)]\<rparr>"

definition terminate_orphan :: "host_os \<Rightarrow> nat \<Rightarrow> swap \<Rightarrow> swap" where
  "terminate_orphan os pid sm =
     (case os_ending os pid of
        Exits \<Rightarrow> clear_pid os (send pid SIGTERM sm)
      | NeedsKill \<Rightarrow> clear_pid os (send pid SIGKILL (send pid SIGTERM sm))
      | Outlives \<Rightarrow> send pid SIGKILL (send pid SIGTERM sm)
      | AlreadyGone \<Rightarrow> clear_pid os sm
      | Refuses \<Rightarrow> sm)"

text \<open>\<open>psutil.Process\<close> raises \<open>ValueError\<close> on a negative pid, which nothing catches.\<close>

definition reclaim_previous_instance :: "host_os \<Rightarrow> swap \<Rightarrow> sw_error option \<times> swap" where
  "reclaim_previous_instance os sm =
     (case read_pid sm of
        None \<Rightarrow> (None, sm)
      | Some i \<Rightarrow>
          let pid = nat i in
          if i < 0 then (Some BadPid, sm)
          else if os_inspect os pid \<in> {NoSuchProcess, Uninspectable} then (None, clear_pid os sm)
          else if \<not> looks_like_our_llama_swap os sm (os_inspect os pid) then (None, clear_pid os sm)
          else (None, terminate_orphan os pid sm))"

section \<open>Process lifecycle\<close>

definition is_running :: "host_os \<Rightarrow> swap \<Rightarrow> bool" where
  "is_running os sm = (case sm_proc sm of None \<Rightarrow> False | Some pid \<Rightarrow> os_alive os pid)"

definition ensure_proxy :: "host_os \<Rightarrow> swap \<Rightarrow> sw_error option \<times> swap" where
  "ensure_proxy os sm =
     (if \<not> is_running os sm then (None, sm)
      else let px = (case sm_proxy sm of
                       Some px \<Rightarrow> px
                     | None \<Rightarrow> ServingProxy (sm_port sm) (listen_port sm) (sm_origins sm) True (sm_host sm)) in
      case proxy_start (os_public_busy os) (os_public_binds os) px of
        (e, px1) \<Rightarrow> (map_option ProxyFailed e, sm\<lparr>sm_proxy := Some px1\<rparr>))"

text \<open>The arguments llama-swap is started with.\<close>

definition swap_args :: "host_os \<Rightarrow> swap \<Rightarrow> string list" where
  "swap_args os sm = [sm_swap_bin sm, ''--config'', os_resolve os (config_path sm), ''--listen'', listen_address sm]"

text \<open>\<open>os_settles\<close>: the new process is still there after a second.\<close>

definition launch :: "host_os \<Rightarrow> swap \<Rightarrow> sw_error option \<times> swap" where
  "launch os sm =
     (case os_spawn os of
        None \<Rightarrow> (Some SpawnFailed, sm)
      | Some pid \<Rightarrow>
          (case write_pid os pid (sm\<lparr>sm_proc := Some pid\<rparr>) of
             (Some e, sm1) \<Rightarrow> (Some e, sm1)
           | (None, sm1) \<Rightarrow>
               if \<not> os_settles os then (Some ExitedImmediately, clear_pid os sm1) else ensure_proxy os sm1))"

definition start_swap :: "host_os \<Rightarrow> swap \<Rightarrow> sw_error option \<times> swap" where
  "start_swap os sm =
     (if \<not> os_exists os (sm_swap_bin sm) then (Some SwapBinaryMissing, sm)
      else case reclaim_previous_instance os sm of
        (Some e, sm1) \<Rightarrow> (Some e, sm1)
      | (None, sm1) \<Rightarrow> if os_port_busy os (sm_signals sm1) then (Some ListenPortHeld, sm1) else launch os sm1)"

text \<open>Our own child either exits on \<open>terminate\<close> within the timeout or is killed.\<close>

definition stop_swap :: "host_os \<Rightarrow> swap \<Rightarrow> swap" where
  "stop_swap os sm =
     (if \<not> is_running os sm then sm
      else case sm_proc sm of
        None \<Rightarrow> sm
      | Some pid \<Rightarrow>
          clear_pid os ((if os_ending os pid = Exits then send pid SIGTERM sm
                         else send pid SIGKILL (send pid SIGTERM sm))\<lparr>sm_proc := None\<rparr>))"

definition stop_proxy :: "swap \<Rightarrow> swap" where
  "stop_proxy sm = sm\<lparr>sm_proxy := None\<rparr>"

definition reload :: "host_os \<Rightarrow> swap \<Rightarrow> sw_error option \<times> swap" where
  "reload os sm =
     (if os_windows os then start_swap os (stop_swap os sm)
      else case sm_proc sm of None \<Rightarrow> (None, sm) | Some pid \<Rightarrow> (None, send pid SIGHUP sm))"

section \<open>Public operations\<close>

definition ttl_ok :: "json \<Rightarrow> bool" where
  "ttl_ok ttl = (case ttl of JNull \<Rightarrow> True | JInt i \<Rightarrow> -1 \<le> i | _ \<Rightarrow> False)"

definition ttl_value :: "json \<Rightarrow> int" where
  "ttl_value ttl = (case ttl of JInt i \<Rightarrow> i | _ \<Rightarrow> MODEL_TTL)"

definition add_model :: "host_os \<Rightarrow> string \<Rightarrow> string \<Rightarrow> string list \<Rightarrow> (string, string) dict \<Rightarrow> json \<Rightarrow> swap \<Rightarrow>
    sw_error option \<times> swap" where
  "add_model os model_id path args env ttl sm =
     (if \<not> ttl_ok ttl then (Some BadTtl, sm)
      else let m = \<lparr>md_path = path, md_args = args, md_env = env, md_ttl = ttl_value ttl\<rparr> in
      case write_config os (sm\<lparr>sm_models := AList.update model_id m (sm_models sm)\<rparr>) of
        (Some e, sm1) \<Rightarrow> (Some e, sm1)
      | (None, sm1) \<Rightarrow> if is_running os sm1 then reload os sm1 else start_swap os sm1)"

text \<open>The flag says whether the manager left the registry.\<close>

definition remove_model :: "host_os \<Rightarrow> string \<Rightarrow> swap \<Rightarrow> sw_error option \<times> bool \<times> swap" where
  "remove_model os model_id sm =
     (if model_id \<notin> fst ` set (sm_models sm) then (None, False, sm)
      else let sm1 = sm\<lparr>sm_models := AList.delete model_id (sm_models sm)\<rparr> in
      if sm_models sm1 = [] then
        (let sm2 = stop_swap os (stop_proxy sm1) in
         if sm_config_file sm2 \<noteq> None \<and> \<not> os_unlinks os then (Some ConfigUnlinkFailed, False, sm2)
         else (None, True, sm2\<lparr>sm_config_file := None\<rparr>))
      else case write_config os sm1 of
        (Some e, sm2) \<Rightarrow> (Some e, False, sm2)
      | (None, sm2) \<Rightarrow>
          if is_running os sm2 then (case reload os sm2 of (e, sm3) \<Rightarrow> (e, False, sm3)) else (None, False, sm2))"

definition shutdown :: "host_os \<Rightarrow> swap \<Rightarrow> swap" where
  "shutdown os sm = stop_swap os (stop_proxy sm)"

text \<open>\<open>probe\<close> is the status of llama-swap's own \<open>/health\<close>, \<open>None\<close> when the request fails.\<close>

definition is_healthy :: "host_os \<Rightarrow> nat option \<Rightarrow> swap \<Rightarrow> bool" where
  "is_healthy os probe sm = (is_running os sm \<and> probe = Some 200)"

definition address :: "swap \<Rightarrow> string" where
  "address sm = ''http://'' @ sm_host sm @ '':'' @ show_int (sm_port sm)"

section \<open>Registry\<close>

type_synonym registry = "(string \<times> int, swap) dict"

text \<open>\<open>fresh\<close> is the manager the constructor would build for the key.\<close>

definition get_swap_manager :: "int \<Rightarrow> string \<Rightarrow> swap \<Rightarrow> nat option \<Rightarrow> registry \<Rightarrow> swap \<times> registry" where
  "get_swap_manager port host fresh on_telemetry reg =
     (let sm = (case map_of reg (host, port) of Some sm \<Rightarrow> sm | None \<Rightarrow> fresh);
          sm1 = (case on_telemetry of None \<Rightarrow> sm | Some cb \<Rightarrow> add_telemetry_callback cb sm) in
      (sm1, AList.update (host, port) sm1 reg))"

section \<open>A host\<close>

definition demo_host :: host_os where
  "demo_host = \<lparr>os_windows = False, os_exists = (\<lambda>_. True), os_resolve = (\<lambda>p. ''/srv/'' @ p), os_config_writes = True,
     os_pid_writes = True, os_unlinks = True, os_inspect = (\<lambda>_. NoSuchProcess), os_ending = (\<lambda>_. Exits),
     os_alive = (\<lambda>_. True), os_port_busy = (\<lambda>_. False), os_spawn = Some 41, os_settles = True,
     os_public_busy = False, os_public_binds = True\<rparr>"

definition demo_swap :: swap where
  "demo_swap = new_swap False 8100 ''127.0.0.1'' ''bin'' [] None None None None"

lemmas demo_start = start_swap_def reclaim_previous_instance_def read_pid_def launch_def write_pid_def ensure_proxy_def
  is_running_def proxy_start_def ServingProxy_def demo_host_def demo_swap_def new_swap_def

section \<open>What each step leaves alone\<close>

text \<open>The parts of a manager its configuration is computed from.\<close>

definition same_config :: "swap \<Rightarrow> swap \<Rightarrow> bool" where
  "same_config a b \<longleftrightarrow> sm_port a = sm_port b \<and> sm_server_bin a = sm_server_bin b \<and> sm_models a = sm_models b \<and>
     sm_config_file a = sm_config_file b \<and> sm_callbacks a = sm_callbacks b"

lemma same_config_refl [simp]: "same_config a a"
  by (simp add: same_config_def)

lemma same_config_trans: "same_config a b \<Longrightarrow> same_config b c \<Longrightarrow> same_config a c"
  by (simp add: same_config_def)

lemma swap_config_cong: "same_config a b \<Longrightarrow> swap_config w a = swap_config w b"
  by (simp add: same_config_def swap_config_def model_entries_def model_entry_def server_args_def internal_port_def
      listen_port_def)

lemma same_config_steps:
  "same_config (clear_pid os sm) sm" "same_config (send pid sig sm) sm" "same_config (terminate_orphan os pid sm) sm"
  "same_config (stop_proxy sm) sm"
  by (simp_all add: same_config_def clear_pid_def send_def terminate_orphan_def stop_proxy_def split: ending.split)

lemma same_config_stop: "same_config (stop_swap os sm) sm"
  by (simp add: same_config_def stop_swap_def clear_pid_def send_def split: option.split)

lemma same_config_reclaim: "same_config (snd (reclaim_previous_instance os sm)) sm"
  by (simp add: reclaim_previous_instance_def same_config_steps Let_def split: option.split)

lemma same_config_ensure: "same_config (snd (ensure_proxy os sm)) sm"
  by (simp add: ensure_proxy_def same_config_def Let_def split: prod.split)

lemma same_config_launch: "same_config (snd (launch os sm)) sm"
proof (cases "os_spawn os")
  case (Some pid)
  have "same_config (sm\<lparr>sm_proc := Some pid, sm_pid_file := p\<rparr>) sm" for p by (simp add: same_config_def)
  with Some same_config_trans [OF same_config_ensure] same_config_trans [OF same_config_steps(1)]
  show ?thesis by (simp add: launch_def write_pid_def same_config_def)
qed (simp add: launch_def)

lemma same_config_start: "same_config (snd (start_swap os sm)) sm"
proof -
  obtain e sm1 where r: "reclaim_previous_instance os sm = (e, sm1)" by fastforce
  with same_config_reclaim [of os sm] have "same_config sm1 sm" by simp
  with r same_config_trans [OF same_config_launch, of sm1 sm os] show ?thesis
    by (simp add: start_swap_def split: option.split)
qed

lemma same_config_reload: "same_config (snd (reload os sm)) sm"
  using same_config_trans [OF same_config_start same_config_stop]
  by (simp add: reload_def same_config_steps split: option.split)

section \<open>The configuration file follows the models\<close>

definition swap_inv :: "bool \<Rightarrow> swap \<Rightarrow> bool" where
  "swap_inv w sm \<longleftrightarrow> (sm_models sm \<noteq> [] \<longrightarrow> sm_config_file sm = Some (swap_config w sm)) \<and>
     (sm_models sm = [] \<longrightarrow> sm_proxy sm = None) \<and> distinct (map fst (sm_models sm)) \<and> distinct (sm_callbacks sm)"

text \<open>Operations in any order, on a host whose configuration directory can be written.\<close>

inductive swap_step :: "bool \<Rightarrow> swap \<Rightarrow> swap \<Rightarrow> bool" for w :: bool where
  add: "os_windows os = w \<Longrightarrow> os_config_writes os \<Longrightarrow> add_model os k p args env ttl sm = (e, sm1) \<Longrightarrow> swap_step w sm sm1"
| remove: "os_windows os = w \<Longrightarrow> os_config_writes os \<Longrightarrow> remove_model os k sm = (e, gone, sm1) \<Longrightarrow> swap_step w sm sm1"
| ensure: "sm_models sm \<noteq> [] \<Longrightarrow> ensure_proxy os sm = (e, sm1) \<Longrightarrow> swap_step w sm sm1"
| shut: "swap_step w sm (shutdown os sm)"
| subscribe: "swap_step w sm (add_telemetry_callback cb sm)"
| unsubscribe: "swap_step w sm (remove_telemetry_callback cb sm)"

lemma stop_swap_proxy [simp]: "sm_proxy (stop_swap os sm) = sm_proxy sm"
  by (simp add: stop_swap_def clear_pid_def send_def split: option.split)

lemma swap_inv_same:
  "same_config b a \<Longrightarrow> swap_inv w a \<Longrightarrow> (sm_models a = [] \<longrightarrow> sm_proxy b = None) \<Longrightarrow> swap_inv w b"
  using swap_config_cong [of b a w] by (simp add: swap_inv_def same_config_def)

lemma add_model_inv:
  assumes "os_windows os = w" "os_config_writes os" "swap_inv w sm" "add_model os k p args env ttl sm = (e, sm1)"
  shows "swap_inv w sm1"
proof (cases "ttl_ok ttl")
  case True
  define m where "m = \<lparr>md_path = p, md_args = args, md_env = env, md_ttl = ttl_value ttl\<rparr>"
  define sm0 where "sm0 = sm\<lparr>sm_models := AList.update k m (sm_models sm)\<rparr>"
  define sm2 where "sm2 = sm0\<lparr>sm_config_file := Some (swap_config w sm0)\<rparr>"
  have "swap_config w sm2 = swap_config w sm0"
    by (simp add: sm2_def swap_config_def model_entries_def model_entry_def server_args_def internal_port_def listen_port_def)
  moreover have "sm_models sm2 \<noteq> []" by (simp add: sm2_def sm0_def AList.update_nonempty)
  moreover have "distinct (map fst (sm_models sm2))"
    using assms(3) by (simp add: sm2_def sm0_def swap_inv_def distinct_update)
  moreover have "sm_callbacks sm2 = sm_callbacks sm" by (simp add: sm2_def sm0_def)
  ultimately have "swap_inv w sm2" using assms(3) by (simp add: swap_inv_def sm2_def)
  moreover have "add_model os k p args env ttl sm = (if is_running os sm2 then reload os sm2 else start_swap os sm2)"
    using True assms(1,2) by (simp add: add_model_def write_config_def sm2_def sm0_def m_def Let_def)
  ultimately show ?thesis
    using same_config_reload [of os sm2] same_config_start [of os sm2] swap_inv_same \<open>sm_models sm2 \<noteq> []\<close> assms(4)
    by (metis snd_conv)
qed (use assms in \<open>simp add: add_model_def\<close>)

lemma remove_model_inv:
  assumes "os_windows os = w" "os_config_writes os" "swap_inv w sm" "remove_model os k sm = (e, gone, sm1)"
  shows "swap_inv w sm1"
proof (cases "k \<in> fst ` set (sm_models sm)")
  case True
  define sm0 where "sm0 = sm\<lparr>sm_models := AList.delete k (sm_models sm)\<rparr>"
  have base: "distinct (map fst (sm_models sm0))" "distinct (sm_callbacks sm0)"
    using assms(3) by (simp_all add: sm0_def swap_inv_def distinct_delete)
  show ?thesis
  proof (cases "sm_models sm0 = []")
    case empty: True
    have "same_config (stop_swap os (stop_proxy sm0)) sm0"
      using same_config_trans [OF same_config_stop same_config_steps(4)] .
    with empty base have "swap_inv w (stop_swap os (stop_proxy sm0))"
      "swap_inv w ((stop_swap os (stop_proxy sm0))\<lparr>sm_config_file := None\<rparr>)"
      by (simp_all add: swap_inv_def same_config_def stop_proxy_def)
    with True empty assms(4) show ?thesis by (auto simp: remove_model_def sm0_def Let_def split: if_splits)
  next
    case False
    define sm2 where "sm2 = sm0\<lparr>sm_config_file := Some (swap_config w sm0)\<rparr>"
    have "swap_config w sm2 = swap_config w sm0"
      by (simp add: sm2_def swap_config_def model_entries_def model_entry_def server_args_def internal_port_def listen_port_def)
    with base False have inv: "swap_inv w sm2" "sm_models sm2 \<noteq> []" by (simp_all add: sm2_def swap_inv_def)
    have "sm1 = (if is_running os sm2 then snd (reload os sm2) else sm2)"
      using True False assms(1,2,4)
      by (simp add: remove_model_def write_config_def sm2_def sm0_def Let_def split: if_splits prod.splits)
    with inv swap_inv_same [OF same_config_reload, of w sm2 os] show ?thesis by simp
  qed
qed (use assms in \<open>simp add: remove_model_def\<close>)

lemma swap_step_inv: "swap_step w sm sm1 \<Longrightarrow> swap_inv w sm \<Longrightarrow> swap_inv w sm1"
proof (induction rule: swap_step.induct)
  case (add os k p args env ttl sm e sm1)
  then show ?case using add_model_inv by blast
next
  case (remove os k sm e gone sm1)
  then show ?case using remove_model_inv by blast
next
  case (ensure sm os e sm1)
  then show ?case using swap_inv_same [OF same_config_ensure [of os sm], of w] by simp
next
  case (shut sm os)
  then show ?case using swap_inv_same [OF same_config_trans [OF same_config_stop same_config_steps(4)], of w]
    by (simp add: shutdown_def stop_proxy_def)
next
  case (subscribe sm cb)
  then show ?case
    by (auto simp: swap_inv_def add_telemetry_callback_def swap_config_def model_entries_def model_entry_def
        server_args_def internal_port_def listen_port_def)
next
  case (unsubscribe sm cb)
  then show ?case
    by (auto simp: swap_inv_def remove_telemetry_callback_def swap_config_def model_entries_def model_entry_def
        server_args_def internal_port_def listen_port_def)
qed

text \<open>
  C22. However models and telemetry callbacks are added and removed, and whether llama-swap starts, crashes
  or refuses to start on the way, the configuration file always describes exactly the registered
  models, no proxy is left when none is registered, and no callback is registered twice.
\<close>

theorem swap_config_current:
  assumes "rtranclp (swap_step w) (new_swap w port host bin origins sb vb cfg pidf) sm"
  shows "(sm_models sm \<noteq> [] \<longrightarrow> sm_config_file sm = Some (swap_config w sm)) \<and>
    (sm_models sm = [] \<longrightarrow> sm_proxy sm = None) \<and> distinct (map fst (sm_models sm)) \<and> distinct (sm_callbacks sm)"
  using assms
proof (induction rule: rtranclp_induct)
  case base
  then show ?case by (simp add: new_swap_def)
next
  case (step a b)
  then have "swap_inv w a" unfolding swap_inv_def by blast
  with step.hyps(2) swap_step_inv show ?case unfolding swap_inv_def by blast
qed

theorem swap_config_current_witness:
  "sm_config_file (snd (add_model demo_host ''m'' ''models/m.gguf'' [] [] JNull demo_swap)) =
     Some (swap_config False (snd (add_model demo_host ''m'' ''models/m.gguf'' [] [] JNull demo_swap)))"
proof -
  let ?r = "add_model demo_host ''m'' ''models/m.gguf'' [] [] JNull demo_swap"
  have "swap_step False demo_swap (snd ?r)"
    by (rule swap_step.add [of demo_host _ "''m''" "''models/m.gguf''" "[]" "[]" JNull _ "fst ?r"]) (simp_all add: demo_host_def)
  moreover have "sm_models (snd ?r) \<noteq> []" by (simp add: add_model_def ttl_ok_def write_config_def demo_start Let_def)
  ultimately show ?thesis
    using swap_config_current [of False 8100 "''127.0.0.1''" "''bin''" "[]" None None None None "snd ?r"]
    by (simp add: demo_swap_def r_into_rtranclp)
qed

section \<open>Command lines and ports\<close>

text \<open>
  C34. Whatever characters a model path or an argument contains, the command line in the configuration
  is read back, by the POSIX shell rules or by those of the Windows C runtime, as exactly the intended
  arguments: nothing can be injected, and no unquoted metacharacter remains.
\<close>

theorem command_line_roundtrip:
  "(if windows then ms_split else sh_split) (command_line windows (server_args sm i m)) =
     Some ([sm_server_bin sm, ''--model'', md_path m, ''--port'', show_int (internal_port sm i)] @ md_args m)"
  using sh_split_join ms_split_join by (simp add: command_line_def server_args_def)

text \<open>The ports of one manager: all different, and every model has its own.\<close>

lemma internal_ports_distinct:
  "distinct (sm_port sm # listen_port sm # map (internal_port sm) [0..<n])"
  by (auto simp: internal_port_def listen_port_def PROXY_OFFSET_def INTERNAL_PORT_OFFSET_def distinct_map inj_on_def)

text \<open>Managers a hundred ports apart are not: the first model of one takes the port the other listens on.\<close>

lemma ports_of_managers_collide:
  "sm_port b = sm_port a + 100 \<Longrightarrow> internal_port a 0 = listen_port b"
  by (simp add: internal_port_def listen_port_def INTERNAL_PORT_OFFSET_def PROXY_OFFSET_def)

section \<open>Whom the manager signals\<close>

text \<open>A process it may signal: its own child, or the process of the pid file if that is its llama-swap.\<close>

definition own_process :: "host_os \<Rightarrow> swap \<Rightarrow> nat \<Rightarrow> bool" where
  "own_process os sm pid \<longleftrightarrow> sm_proc sm = Some pid \<or>
     (read_pid sm = Some (int pid) \<and> looks_like_our_llama_swap os sm (os_inspect os pid))"

definition signals_only :: "(nat \<Rightarrow> bool) \<Rightarrow> swap \<Rightarrow> swap \<Rightarrow> bool" where
  "signals_only P a b \<longleftrightarrow> (\<exists>new. sm_signals b = sm_signals a @ new \<and> (\<forall>(pid, sig) \<in> set new. P pid))"

lemma signals_only_refl: "sm_signals b = sm_signals a \<Longrightarrow> signals_only P a b"
  by (simp add: signals_only_def)

lemma signals_only_trans: "signals_only P a b \<Longrightarrow> signals_only P b c \<Longrightarrow> signals_only P a c"
  by (fastforce simp: signals_only_def)

lemma signals_only_mono: "signals_only P a b \<Longrightarrow> (\<And>pid. P pid \<Longrightarrow> Q pid) \<Longrightarrow> signals_only Q a b"
  by (fastforce simp: signals_only_def)

lemma clear_pid_signals [simp]: "sm_signals (clear_pid os sm) = sm_signals sm"
  by (simp add: clear_pid_def)

lemma terminate_signals: "P pid \<Longrightarrow> signals_only P sm (terminate_orphan os pid sm)"
  by (simp add: signals_only_def terminate_orphan_def send_def split: ending.split)

lemma reclaim_signals: "signals_only (own_process os sm) sm (snd (reclaim_previous_instance os sm))"
proof (cases "read_pid sm")
  case (Some i)
  show ?thesis
  proof (cases "0 \<le> i \<and> looks_like_our_llama_swap os sm (os_inspect os (nat i))")
    case True
    with Some have "own_process os sm (nat i)" by (simp add: own_process_def)
    with Some True terminate_signals [of "own_process os sm" "nat i"] show ?thesis
      by (simp add: reclaim_previous_instance_def Let_def signals_only_refl)
  next
    case False
    with Some show ?thesis by (auto simp: reclaim_previous_instance_def Let_def intro: signals_only_refl)
  qed
qed (simp add: reclaim_previous_instance_def signals_only_refl)

lemma launch_signals: "signals_only P sm (snd (launch os sm))"
  by (rule signals_only_refl)
    (simp add: launch_def write_pid_def ensure_proxy_def Let_def split: option.split prod.split)

lemma start_signals: "signals_only (own_process os sm) sm (snd (start_swap os sm))"
proof -
  obtain e sm1 where r: "reclaim_previous_instance os sm = (e, sm1)" by fastforce
  with reclaim_signals [of os sm] have "signals_only (own_process os sm) sm sm1" by simp
  with r signals_only_trans [OF _ launch_signals, of _ sm sm1 os] show ?thesis
    by (auto simp: start_swap_def intro: signals_only_refl split: option.split)
qed

lemma stop_signals: "signals_only (own_process os sm) sm (stop_swap os sm)"
  by (auto simp: stop_swap_def signals_only_def own_process_def is_running_def send_def split: option.split)

lemma looks_like_cong: "sm_port a = sm_port b \<Longrightarrow> looks_like_our_llama_swap os a p = looks_like_our_llama_swap os b p"
  by (cases p) (simp_all add: looks_like_our_llama_swap_def config_path_def listen_address_def listen_port_def)

lemma own_process_after_stop: "own_process os (stop_swap os sm) pid \<Longrightarrow> own_process os sm pid"
  using looks_like_cong [of "stop_swap os sm" sm]
  by (auto simp: own_process_def stop_swap_def clear_pid_def send_def read_pid_def split: if_splits option.splits)

lemma reload_signals: "signals_only (own_process os sm) sm (snd (reload os sm))"
proof (cases "os_windows os")
  case True
  have "signals_only (own_process os sm) (stop_swap os sm) (snd (start_swap os (stop_swap os sm)))"
    by (rule signals_only_mono [OF start_signals]) (rule own_process_after_stop)
  with True signals_only_trans [OF stop_signals] show ?thesis by (simp add: reload_def)
qed (auto simp: reload_def signals_only_def own_process_def send_def split: option.split)

lemma own_process_cong:
  "sm_proc a = sm_proc b \<Longrightarrow> sm_pid_file a = sm_pid_file b \<Longrightarrow> sm_port a = sm_port b \<Longrightarrow> own_process os a = own_process os b"
  using looks_like_cong [of a b] by (auto simp: own_process_def read_pid_def)

lemma signals_only_from:
  assumes "signals_only (own_process os b) b c" "sm_signals b = sm_signals a"
    "sm_proc b = sm_proc a" "sm_pid_file b = sm_pid_file a" "sm_port b = sm_port a"
  shows "signals_only (own_process os a) a c"
  using assms own_process_cong [of b a os] by (simp add: signals_only_def)

lemma write_config_keeps:
  assumes "write_config os sm = (e, sm1)"
  shows "sm_signals sm1 = sm_signals sm" "sm_proc sm1 = sm_proc sm" "sm_pid_file sm1 = sm_pid_file sm" "sm_port sm1 = sm_port sm"
  using assms by (auto simp: write_config_def split: if_splits)

lemma add_model_signals: "signals_only (own_process os sm) sm (snd (add_model os k p args env ttl sm))"
proof (cases "ttl_ok ttl")
  case True
  define sm0 where "sm0 = sm\<lparr>sm_models := AList.update k \<lparr>md_path = p, md_args = args, md_env = env, md_ttl = ttl_value ttl\<rparr> (sm_models sm)\<rparr>"
  obtain e sm1 where w: "write_config os sm0 = (e, sm1)" by fastforce
  have same: "sm_signals sm1 = sm_signals sm" "sm_proc sm1 = sm_proc sm" "sm_pid_file sm1 = sm_pid_file sm" "sm_port sm1 = sm_port sm"
    using write_config_keeps [OF w] by (simp_all add: sm0_def)
  have "add_model os k p args env ttl sm =
      (case e of Some x \<Rightarrow> (Some x, sm1) | None \<Rightarrow> if is_running os sm1 then reload os sm1 else start_swap os sm1)"
    using True w by (simp add: add_model_def sm0_def Let_def split: option.split)
  with signals_only_from [OF reload_signals same] signals_only_from [OF start_signals same] same(1) show ?thesis
    by (simp add: signals_only_refl split: option.split)
qed (simp add: add_model_def signals_only_refl)

lemma stop_proxy_stop_signals: "signals_only (own_process os sm) sm (stop_swap os (stop_proxy sm))"
  by (rule signals_only_from [OF stop_signals]) (simp_all add: stop_proxy_def)

lemma remove_model_signals: "signals_only (own_process os sm) sm (snd (snd (remove_model os k sm)))"
proof (cases "k \<in> fst ` set (sm_models sm)")
  case True
  define sm0 where "sm0 = sm\<lparr>sm_models := AList.delete k (sm_models sm)\<rparr>"
  show ?thesis
  proof (cases "sm_models sm0 = []")
    case empty: True
    have "signals_only (own_process os sm) sm (stop_swap os (stop_proxy sm0))"
      by (rule signals_only_from [OF stop_proxy_stop_signals]) (simp_all add: sm0_def)
    with True empty show ?thesis by (simp add: remove_model_def sm0_def Let_def signals_only_def)
  next
    case False
    obtain e sm1 where w: "write_config os sm0 = (e, sm1)" by fastforce
    have same: "sm_signals sm1 = sm_signals sm" "sm_proc sm1 = sm_proc sm" "sm_pid_file sm1 = sm_pid_file sm" "sm_port sm1 = sm_port sm"
      using write_config_keeps [OF w] by (simp_all add: sm0_def)
    with True False w signals_only_from [OF reload_signals [of os] same] show ?thesis
      by (cases "reload os sm1") (auto simp: remove_model_def sm0_def Let_def intro: signals_only_refl split: option.split)
  qed
qed (simp add: remove_model_def signals_only_refl)



section \<open>An orphan is reclaimed\<close>

lemma lower_digit: "is_digit c \<Longrightarrow> lower_char c = c"
  by (simp add: is_digit_def lower_char_def Let_def)

lemma lower_show_int: "py_lower (show_int i) = show_int i"
proof -
  have "map lower_char (show_nat n) = show_nat n" for n
    using show_nat_digits [of n] lower_digit by (simp add: list_all_iff map_idI)
  moreover have "lower_char CHR ''-'' = CHR ''-''" by code_simp
  ultimately show ?thesis by (simp add: py_lower_def show_int_def)
qed

lemma lower_listen_address: "py_lower (listen_address sm) = listen_address sm"
proof -
  have "map lower_char ''127.0.0.1:'' = ''127.0.0.1:''" by code_simp
  with lower_show_int show ?thesis by (simp add: py_lower_def listen_address_def)
qed

lemma contains_sub_refl: "contains_sub p p"
  by (cases p) (simp_all add: contains_sub_def startswith_def)

text \<open>A llama-swap is recognised by the listen address alone, wherever its configuration lies.\<close>

lemma recognises_own:
  assumes "sm_port old = sm_port sm" "contains_sub ''llama-swap'' (py_lower (sm_swap_bin old))"
  shows "looks_like_our_llama_swap os sm (Visible name (swap_args os' old))"
proof -
  have "py_lower (listen_address old) = listen_address sm"
    using lower_listen_address assms(1) by (simp add: listen_address_def listen_port_def)
  with assms(2) contains_sub_refl show ?thesis
    by (simp add: looks_like_our_llama_swap_def swap_args_def Let_def)
qed

lemma launch_pid_file:
  assumes "launch os sm = (None, sm1)" "os_spawn os = Some pid"
  shows "sm_pid_file sm1 = Some (show_nat pid)"
  using assms by (auto simp: launch_def write_pid_def ensure_proxy_def Let_def split: if_splits prod.splits)

lemma start_pid_file:
  assumes "start_swap os sm = (None, sm1)" "os_spawn os = Some pid"
  shows "sm_pid_file sm1 = Some (show_nat pid)"
  using assms launch_pid_file by (auto simp: start_swap_def split: if_splits prod.splits option.splits)

lemma launch_keeps_signals: "sm_signals (snd (launch os sm)) = sm_signals sm"
  by (simp add: launch_def write_pid_def ensure_proxy_def Let_def split: option.split prod.split)

lemma read_pid_shown: "sm_pid_file sm = Some (show_nat pid) \<Longrightarrow> pid < 10 ^ 10 \<Longrightarrow> read_pid sm = Some (int pid)"
  using length_show_nat [of pid 9] strip_digits [OF show_nat_digits, of pid] py_int_show_nat [of pid]
  by (simp add: read_pid_def)

text \<open>
  When the agent dies and leaves its llama-swap running, the next agent on the same port finds it
  through the pid file, recognises it by the command line it was started with, and terminates it,
  with a kill if need be; nothing else is signalled.
\<close>

lemma orphan_reclaimed:
  assumes started: "start_swap os1 old = (None, old1)" "os_spawn os1 = Some pid" "pid < 10 ^ 10"
    and name: "contains_sub ''llama-swap'' (py_lower (sm_swap_bin old))"
    and new: "new = new_swap w (sm_port old) host bin origins sb vb (sm_config_file old1) (sm_pid_file old1)"
    and seen: "os_inspect os2 pid = Visible nm (swap_args os1 old)"
    and os2: "os_exists os2 (sm_swap_bin new)" "os_ending os2 pid \<in> {Exits, NeedsKill}"
  shows "sm_signals (snd (start_swap os2 new)) =
    (if os_ending os2 pid = Exits then [(pid, SIGTERM)] else [(pid, SIGTERM), (pid, SIGKILL)])"
proof -
  have "read_pid new = Some (int pid)"
    using read_pid_shown [of new pid] start_pid_file [OF started(1,2)] started(3) by (simp add: new new_swap_def)
  moreover have "looks_like_our_llama_swap os2 new (os_inspect os2 pid)"
    using recognises_own [OF _ name, of new os2 nm os1] seen by (simp add: new new_swap_def)
  ultimately have "reclaim_previous_instance os2 new = (None, terminate_orphan os2 pid new)"
    using seen by (simp add: reclaim_previous_instance_def Let_def)
  moreover have "sm_signals (terminate_orphan os2 pid new) =
      (if os_ending os2 pid = Exits then [(pid, SIGTERM)] else [(pid, SIGTERM), (pid, SIGKILL)])"
    using os2(2) by (auto simp: terminate_orphan_def send_def new new_swap_def)
  ultimately show ?thesis using os2(1) launch_keeps_signals by (simp add: start_swap_def)
qed

lemma orphan_reclaimed_witness:
  "sm_signals (snd (start_swap
     (demo_host\<lparr>os_inspect := (\<lambda>_. Visible ''llama-swap'' (swap_args demo_host demo_swap)), os_spawn := Some 77\<rparr>)
     (new_swap False 8100 ''127.0.0.1'' ''bin'' [] None None None (Some ''41'')))) = [(41, SIGTERM)]"
proof -
  let ?os = "demo_host\<lparr>os_inspect := (\<lambda>_. Visible ''llama-swap'' (swap_args demo_host demo_swap)), os_spawn := Some 77\<rparr>"
  have shown: "show_nat 41 = ''41''" by code_simp
  have started: "start_swap demo_host demo_swap = (None, snd (start_swap demo_host demo_swap))"
    "sm_pid_file (snd (start_swap demo_host demo_swap)) = Some ''41''" "sm_config_file (snd (start_swap demo_host demo_swap)) = None"
    using shown by (simp_all add: demo_start Let_def)
  have "contains_sub ''llama-swap'' (py_lower (sm_swap_bin demo_swap))" by code_simp
  from orphan_reclaimed [OF started(1) _ _ this refl, of 41 ?os "''llama-swap''" False "''127.0.0.1''" "''bin''" "[]" None None]
  show ?thesis using started(2,3) by (simp add: demo_host_def demo_swap_def new_swap_def)
qed

text \<open>
  The test on the listen address is a substring test: a manager listening on 5100 takes the
  llama-swap of the manager listening on 51000 for its own.
\<close>

lemma prefix_port_confused:
  "looks_like_our_llama_swap os (new_swap w 5050 host bin origins sb vb cfg pidf)
     (Visible ''llama-swap'' (swap_args os' (new_swap w 50950 host' ''bin'' origins' None vb' cfg' pidf')))"
proof -
  have "char_of (53 :: nat) = CHR ''5''" "char_of (49 :: nat) = CHR ''1''" "char_of (48 :: nat) = CHR ''0''" by code_simp+
  then have args: "listen_address (new_swap w 5050 host bin origins sb vb cfg pidf) = ''127.0.0.1:5100''"
    "listen_address (new_swap w 50950 host' ''bin'' origins' None vb' cfg' pidf') = ''127.0.0.1:51000''"
    by (simp_all add: listen_address_def listen_port_def new_swap_def PROXY_OFFSET_def show_int_def show_nat.simps digit_char_def)
  have "contains_sub ''llama-swap'' (py_lower ''llama-swap'')"
    "contains_sub ''127.0.0.1:5100'' (py_lower ''127.0.0.1:51000'')" by code_simp+
  with args show ?thesis by (simp add: looks_like_our_llama_swap_def swap_args_def Let_def)
qed

section \<open>Lock order\<close>

text \<open>
  The two locks as two threads see them: \<open>get_swap_manager\<close> with a callback takes the registry's lock
  and then the manager's, the removal of the last model takes them in the other order, \<open>shutdown\<close>
  one after the other.  A thread is the list of what it still has to do.
\<close>

datatype lock = Global | Own

datatype lock_op = Acquire lock | Release lock

definition get_script :: "lock_op list" where
  "get_script = [Acquire Global, Acquire Own, Release Own, Release Global]"

definition remove_last_script :: "lock_op list" where
  "remove_last_script = [Acquire Own, Acquire Global, Release Global, Release Own]"

definition shutdown_script :: "lock_op list" where
  "shutdown_script = [Acquire Own, Release Own, Acquire Global, Release Global]"

record lock_state =
  lk_holder :: "lock \<Rightarrow> nat option"
  lk_threads :: "lock_op list list"

definition lock_init :: "lock_op list list \<Rightarrow> lock_state" where
  "lock_init ts = \<lparr>lk_holder = (\<lambda>_. None), lk_threads = ts\<rparr>"

inductive lock_step :: "lock_state \<Rightarrow> lock_state \<Rightarrow> bool" where
  acquire: "i < length (lk_threads s) \<Longrightarrow> lk_threads s ! i = Acquire l # rest \<Longrightarrow> lk_holder s l = None \<Longrightarrow>
    lock_step s \<lparr>lk_holder = (lk_holder s)(l := Some i), lk_threads = (lk_threads s)[i := rest]\<rparr>"
| release: "i < length (lk_threads s) \<Longrightarrow> lk_threads s ! i = Release l # rest \<Longrightarrow>
    lock_step s \<lparr>lk_holder = (lk_holder s)(l := None), lk_threads = (lk_threads s)[i := rest]\<rparr>"

inductive_cases lock_stepE: "lock_step s s1"

definition deadlocked :: "lock_state \<Rightarrow> bool" where
  "deadlocked s \<longleftrightarrow> (\<forall>s1. \<not> lock_step s s1) \<and> list_ex (\<lambda>t. t \<noteq> []) (lk_threads s)"

text \<open>
  The two locks are taken in opposite orders: an agent that obtains the manager of a port while
  another thread removes its last model can end with both threads waiting for each other for ever.
\<close>

lemma swap_locks_deadlock:
  "\<exists>s. rtranclp lock_step (lock_init [get_script, remove_last_script]) s \<and> deadlocked s"
proof -
  define s1 where "s1 = \<lparr>lk_holder = (\<lambda>_. None)(Global := Some 0), lk_threads = [tl get_script, remove_last_script]\<rparr>"
  define s2 where "s2 = \<lparr>lk_holder = (\<lambda>_. None)(Global := Some 0, Own := Some 1), lk_threads = [tl get_script, tl remove_last_script]\<rparr>"
  have "lock_step (lock_init [get_script, remove_last_script]) s1"
    using lock_step.acquire [of 0 "lock_init [get_script, remove_last_script]" Global "tl get_script"]
    by (simp add: lock_init_def s1_def get_script_def)
  moreover have "lock_step s1 s2"
    using lock_step.acquire [of 1 s1 Own "tl remove_last_script"] by (simp add: s1_def s2_def remove_last_script_def)
  moreover have "deadlocked s2"
    by (auto simp: deadlocked_def s2_def get_script_def remove_last_script_def less_Suc_eq elim!: lock_stepE)
  ultimately show ?thesis by (meson r_into_rtranclp rtranclp.rtrancl_into_rtrancl)
qed

end
