(* ===== verification/Components.thy ===== *)
theory Components
  imports Json Complex_Main
begin

text \<open>
  The built-in sources and sinks (\<open>components/*.py\<close>), the adapters under them (\<open>adapters/http_client.py\<close>,
  \<open>adapters/persistence.py\<close>) and the thread that joins a source to a sink (\<open>components/pipeline.py\<close>).

  A component is a state with one operation per call.  What lies outside (the clock, the HTTP library,
  sensors, the runtime's command handler) is an argument.  Times are rational numbers; the bounds of
  the idle backoff are in milliseconds.
\<close>

section \<open>AgentCommand\<close>

text \<open>
  A command is any JSON value; the handler is a state transformer whose first result says whether it
  raised.  \<open>ac_seen\<close> is the bounded deque.
\<close>

record agent_command =
  ac_seen :: "json list"
  ac_window :: nat

definition new_agent_command :: "nat \<Rightarrow> agent_command" where
  "new_agent_command window = \<lparr>ac_seen = [], ac_window = window\<rparr>"

definition remember :: "json \<Rightarrow> agent_command \<Rightarrow> agent_command" where
  "remember i ac = (let s = ac_seen ac @ [i] in ac\<lparr>ac_seen := drop (length s - ac_window ac) s\<rparr>)"

definition mark_seen :: "json \<Rightarrow> agent_command \<Rightarrow> agent_command" where
  "mark_seen i ac = (if truthy i then remember i ac else ac)"

datatype outcome = Returned bool | Raised

text \<open>A command that is not an object raises \<open>AttributeError\<close>.\<close>

definition dispatch_one :: "(json \<Rightarrow> 's \<Rightarrow> bool \<times> 's) \<Rightarrow> json \<Rightarrow> agent_command \<times> 's \<Rightarrow> outcome \<times> agent_command \<times> 's" where
  "dispatch_one cb cmd st =
     (case (cmd, st) of
        (JObj d, (ac, s)) \<Rightarrow>
          let i = dget d ''id'' in
          if truthy i \<and> list_ex (\<lambda>j. py_eq j i) (ac_seen ac) then (Returned True, ac, s)
          else (case cb cmd s of
                  (True, s1) \<Rightarrow> (Returned False, ac, s1)
                | (False, s1) \<Rightarrow> (Returned True, mark_seen i ac, s1))
      | _ \<Rightarrow> (Raised, st))"

text \<open>\<open>all(...)\<close> over the batch: it stops at the first command that does not return true.\<close>

fun dispatch_all :: "(json \<Rightarrow> 's \<Rightarrow> bool \<times> 's) \<Rightarrow> json list \<Rightarrow> agent_command \<times> 's \<Rightarrow> outcome \<times> agent_command \<times> 's" where
  "dispatch_all cb [] st = (Returned True, st)"
| "dispatch_all cb (c # cs) st =
     (case dispatch_one cb c st of
        (Returned True, st1) \<Rightarrow> dispatch_all cb cs st1
      | r \<Rightarrow> r)"

definition call_command :: "(json \<Rightarrow> 's \<Rightarrow> bool \<times> 's) \<Rightarrow> json \<Rightarrow> agent_command \<times> 's \<Rightarrow> outcome \<times> agent_command \<times> 's" where
  "call_command cb data st =
     (if \<not> truthy data then (Returned True, st)
      else case data of JArr cs \<Rightarrow> dispatch_all cb cs st | _ \<Rightarrow> dispatch_all cb [data] st)"

section \<open>Pipeline\<close>

text \<open>
  One iteration of the loop, as the thread observes it: the running flag at the head, the event, the
  result of the wait, the running flag after a timeout, what the source gives and what the sink does.
\<close>

datatype 'd pull = Data 'd | NoData | PullStops | PullRaises
datatype push = Accepted | Refused | PushStops | PushRaises

record 'd turn =
  tn_go :: bool
  tn_active :: bool
  tn_woken :: bool
  tn_running :: bool
  tn_pull :: "'d pull"
  tn_push :: push

datatype 'd action = Sunk 'd push | Slept nat | SourceStopped | SinkStopped

definition IDLE_SLEEP_MIN :: nat where "IDLE_SLEEP_MIN = 10"
definition IDLE_SLEEP_MAX :: nat where "IDLE_SLEEP_MAX = 200"
definition ERROR_SLEEP :: nat where "ERROR_SLEEP = 1000"

definition skips :: "'d turn \<Rightarrow> bool" where
  "skips t = (\<not> tn_active t \<and> tn_woken t)"

definition leaves :: "'d turn \<Rightarrow> bool" where
  "leaves t = (\<not> tn_go t \<or> (\<not> tn_active t \<and> \<not> tn_woken t \<and> \<not> tn_running t))"

text \<open>The loop over the observed turns; the flag says whether it left.\<close>

fun run_loop :: "nat \<Rightarrow> 'd turn list \<Rightarrow> bool \<times> 'd action list" where
  "run_loop idle [] = (False, [])"
| "run_loop idle (t # ts) =
     (if leaves t then (True, [])
      else if skips t then run_loop idle ts
      else case tn_pull t of
        Data d \<Rightarrow>
          (case tn_push t of
             PushStops \<Rightarrow> (True, [Sunk d PushStops])
           | PushRaises \<Rightarrow> map_prod id (\<lambda>as. Sunk d PushRaises # Slept ERROR_SLEEP # as) (run_loop IDLE_SLEEP_MIN ts)
           | r \<Rightarrow> map_prod id (\<lambda>as. Sunk d r # as) (run_loop IDLE_SLEEP_MIN ts))
      | NoData \<Rightarrow> map_prod id (\<lambda>as. Slept idle # as) (run_loop (min (idle * 2) IDLE_SLEEP_MAX) ts)
      | PullStops \<Rightarrow> (True, [])
      | PullRaises \<Rightarrow> map_prod id (\<lambda>as. Slept ERROR_SLEEP # as) (run_loop idle ts))"

text \<open>Teardown: an exception of the source's \<open>stop\<close> or \<open>close\<close> leaves the sink alone.\<close>

datatype closer = HasStop | HasClose | HasNeither

definition teardown :: "closer \<Rightarrow> bool \<Rightarrow> closer \<Rightarrow> 'd action list" where
  "teardown source raises sink =
     (if source = HasNeither then [] else [SourceStopped]) @
     (if source \<noteq> HasNeither \<and> raises then [] else if sink = HasNeither then [] else [SinkStopped])"

definition pipeline_run :: "closer \<Rightarrow> bool \<Rightarrow> closer \<Rightarrow> 'd turn list \<Rightarrow> 'd action list" where
  "pipeline_run source raises sink ts =
     (case run_loop IDLE_SLEEP_MIN ts of (left, as) \<Rightarrow> as @ (if left then teardown source raises sink else []))"

section \<open>Clocks and console\<close>

record clock = ck_interval :: rat  ck_next :: rat

text \<open>\<open>interval\<close> is a rate: the period is its inverse, and a rate of zero raises.\<close>

definition new_clock :: "rat \<Rightarrow> rat \<Rightarrow> clock option" where
  "new_clock rate now = (if rate = 0 then None else Some \<lparr>ck_interval = 1 / rate, ck_next = now\<rparr>)"

definition tick :: "rat \<Rightarrow> clock \<Rightarrow> bool \<times> clock" where
  "tick now ck = (if now < ck_next ck then (False, ck) else (True, ck\<lparr>ck_next := now + ck_interval ck\<rparr>))"

definition clock_call :: "rat \<Rightarrow> clock \<Rightarrow> rat option \<times> clock" where
  "clock_call now ck = (case tick now ck of (b, ck1) \<Rightarrow> ((if b then Some now else None), ck1))"

definition random_call :: "rat \<Rightarrow> rat \<Rightarrow> clock \<Rightarrow> rat option \<times> clock" where
  "random_call now drawn ck = (case tick now ck of (b, ck1) \<Rightarrow> ((if b then Some drawn else None), ck1))"

text \<open>What is printed, and the result.\<close>

definition console_call :: "string \<Rightarrow> json \<Rightarrow> string option \<times> bool option" where
  "console_call pre data = (if data = JNull then (None, None) else (Some (pre @ py_str data), Some True))"

section \<open>HTTP client\<close>

text \<open>
  An exchange as \<open>requests\<close> reports it.  \<open>raise_for_status\<close> raises for 400 to 599; the last case is any
  other exception of the library, which the client does not catch.
\<close>

datatype exchange = TimedOut | NotConnected | Answered nat string "json option" | OtherFailure

datatype 'a http_result = Got 'a | HttpError nat string | LibraryError

definition base_url :: "string option \<Rightarrow> string" where
  "base_url u = (case u of None \<Rightarrow> [] | Some s \<Rightarrow> rstrip_char (CHR ''/'') s)"

definition build_url :: "string \<Rightarrow> string \<Rightarrow> string" where
  "build_url base endpoint =
     (if startswith endpoint ''http://'' \<or> startswith endpoint ''https://'' then endpoint
      else if endpoint = [] then base
      else if base \<noteq> [] then base @ ''/'' @ lstrip_char (CHR ''/'') endpoint
      else endpoint)"

definition http_get :: "exchange \<Rightarrow> json option http_result" where
  "http_get x =
     (case x of
        TimedOut \<Rightarrow> Got None
      | NotConnected \<Rightarrow> Got None
      | OtherFailure \<Rightarrow> LibraryError
      | Answered status body js \<Rightarrow>
          if 400 \<le> status \<and> status < 600 then (if 500 \<le> status then Got None else HttpError status body)
          else Got js)"

definition http_post :: "exchange \<Rightarrow> bool http_result" where
  "http_post x =
     (case x of
        TimedOut \<Rightarrow> Got False
      | NotConnected \<Rightarrow> Got False
      | OtherFailure \<Rightarrow> LibraryError
      | Answered status body js \<Rightarrow>
          if 400 \<le> status \<and> status < 600 then (if 500 \<le> status then Got False else HttpError status body)
          else Got True)"

record poller =
  po_url :: string
  po_auth :: "string option"
  po_interval :: rat
  po_last :: rat

definition bearer :: "string option \<Rightarrow> string option" where
  "bearer api_key = (case api_key of None \<Rightarrow> None | Some [] \<Rightarrow> None | Some k \<Rightarrow> Some (''Bearer '' @ k))"

definition new_poller :: "string \<Rightarrow> string option \<Rightarrow> rat \<Rightarrow> poller" where
  "new_poller url api_key interval = \<lparr>po_url = base_url (Some url), po_auth = bearer api_key, po_interval = interval, po_last = 0\<rparr>"

text \<open>The request made, if any, and the result.\<close>

definition poll :: "rat \<Rightarrow> exchange \<Rightarrow> poller \<Rightarrow> string option \<times> json option http_result \<times> poller" where
  "poll now x po =
     (if now - po_last po < po_interval po then (None, Got None, po)
      else (Some (build_url (po_url po) []), http_get x, po\<lparr>po_last := now\<rparr>))"

definition publish :: "exchange \<Rightarrow> json \<Rightarrow> bool option http_result" where
  "publish x payload =
     (if \<not> truthy payload then Got None
      else case http_post x of Got b \<Rightarrow> Got (Some b) | HttpError s r \<Rightarrow> HttpError s r | LibraryError \<Rightarrow> LibraryError)"

section \<open>System monitor\<close>

record sensors =
  sn_cpu :: rat
  sn_ram :: rat
  sn_free_bytes :: "int option"
  sn_temp :: "string \<Rightarrow> rat list"
  sn_temps_fail :: bool

definition AVAILABLE_METRICS :: "string list" where
  "AVAILABLE_METRICS = [''cpu_usage'', ''ram_usage'', ''storage_available_gb'', ''temperature_celsius'']"

definition TEMP_SENSOR_KEYS :: "string list" where
  "TEMP_SENSOR_KEYS = [''cpu_thermal'', ''coretemp'', ''k10temp'', ''soc_thermal'']"

record monitor =
  mn_interval :: rat
  mn_last :: rat
  mn_metrics :: "string list"

definition new_monitor :: "rat \<Rightarrow> string list \<Rightarrow> monitor" where
  "new_monitor interval metrics =
     \<lparr>mn_interval = interval, mn_last = 0, mn_metrics = (if metrics = [] then AVAILABLE_METRICS else metrics)\<rparr>"

text \<open>The first sensor that has readings, on Linux; any failure is 0.\<close>

definition read_temp :: "sensors \<Rightarrow> rat" where
  "read_temp sn =
     (if sn_temps_fail sn then 0
      else case filter (\<lambda>k. sn_temp sn k \<noteq> []) TEMP_SENSOR_KEYS of [] \<Rightarrow> 0 | k # _ \<Rightarrow> hd (sn_temp sn k))"

text \<open>\<open>round2\<close> is \<open>round(x, 2)\<close>.\<close>

definition monitor_call :: "(rat \<Rightarrow> rat) \<Rightarrow> rat \<Rightarrow> sensors \<Rightarrow> monitor \<Rightarrow> (string, rat) dict option \<times> monitor" where
  "monitor_call round2 now sn mn =
     (if now - mn_last mn < mn_interval mn then (None, mn)
      else let on = (\<lambda>k. k \<in> set (mn_metrics mn)) in
        (Some ([(''timestamp'', now)] @
           (if on ''cpu_usage'' then [(''cpu_usage'', sn_cpu sn)] else []) @
           (if on ''ram_usage'' then [(''ram_usage'', sn_ram sn)] else []) @
           (if on ''storage_available_gb''
            then [(''storage_available_gb'', case sn_free_bytes sn of None \<Rightarrow> -1 | Some b \<Rightarrow> round2 (of_int b / 1073741824))] else []) @
           (if on ''temperature_celsius'' then [(''temperature_celsius'', read_temp sn)] else [])),
         mn\<lparr>mn_last := now\<rparr>))"

section \<open>Zenoh components and storage\<close>

text \<open>
  A backend with what it holds: the samples put into a session, or the rows of the table; without
  a session, or when a write fails, the sample is dropped.
\<close>

datatype backend = ZenohBackend bool "(string \<times> string) list" | SQLiteBackend bool "(string \<times> string) list"

definition new_publisher :: "bool \<Rightarrow> bool \<Rightarrow> string \<Rightarrow> backend" where
  "new_publisher session db storage_type = (if storage_type = ''sqlite'' then SQLiteBackend db [] else ZenohBackend session [])"

fun save :: "bool \<Rightarrow> string \<Rightarrow> string \<Rightarrow> backend \<Rightarrow> backend" where
  "save fails key data (ZenohBackend session xs) =
     ZenohBackend session (if \<not> session \<or> fails then xs else xs @ [(key, data)])"
| "save fails key data (SQLiteBackend db xs) =
     SQLiteBackend db (if \<not> db \<or> fails then xs else xs @ [(key, data)])"

text \<open>\<open>dumps\<close> is \<open>json.dumps\<close>; the key ends in the clock reading.\<close>

definition zenoh_publish :: "(json \<Rightarrow> string) \<Rightarrow> string \<Rightarrow> nat \<Rightarrow> bool \<Rightarrow> json \<Rightarrow> backend \<Rightarrow> bool option \<times> backend" where
  "zenoh_publish dumps topic now_ns fails data bk =
     (if \<not> truthy data then (None, bk)
      else (Some True, save fails (topic @ ''/'' @ show_nat now_ns) (if is_obj data then dumps data else py_str data) bk))"

text \<open>The listener's queue; \<open>loads\<close> is \<open>json.loads\<close>, text that is not JSON is kept as a string.\<close>

definition on_message :: "(string \<Rightarrow> json option) \<Rightarrow> string \<Rightarrow> json list \<Rightarrow> json list" where
  "on_message loads payload q = q @ [case loads payload of Some j \<Rightarrow> j | None \<Rightarrow> JStr payload]"

definition listener_call :: "json list \<Rightarrow> json option \<times> json list" where
  "listener_call q = (case q of [] \<Rightarrow> (None, []) | j # r \<Rightarrow> (Some j, r))"

section \<open>A command is executed at most once\<close>

text \<open>Everything a source delivers to the sink, one call after the other.\<close>

fun deliver :: "(json \<Rightarrow> 's \<Rightarrow> bool \<times> 's) \<Rightarrow> json list \<Rightarrow> agent_command \<times> 's \<Rightarrow> agent_command \<times> 's" where
  "deliver cb [] st = st"
| "deliver cb (d # ds) st = deliver cb ds (snd (call_command cb d st))"

text \<open>The handler that also keeps the ids of the commands it executed without raising.\<close>

definition logging :: "(json \<Rightarrow> 's \<Rightarrow> bool \<times> 's) \<Rightarrow> json \<Rightarrow> 's \<times> json list \<Rightarrow> bool \<times> 's \<times> json list" where
  "logging cb cmd st =
     (case cb cmd (fst st) of
        (raised, s1) \<Rightarrow>
          (raised, s1, if raised then snd st else
             (case cmd of JObj d \<Rightarrow> if truthy (dget d ''id'') then snd st @ [dget d ''id''] else snd st | _ \<Rightarrow> snd st)))"

definition apart :: "nat \<Rightarrow> json list \<Rightarrow> bool" where
  "apart w ids \<longleftrightarrow> (\<forall>i j. i < j \<longrightarrow> j < length ids \<longrightarrow> j - i \<le> w \<longrightarrow> \<not> py_eq (ids ! i) (ids ! j))"

definition window_inv :: "nat \<Rightarrow> agent_command \<times> 's \<times> json list \<Rightarrow> bool" where
  "window_inv w st \<longleftrightarrow> (case st of (ac, s, ids) \<Rightarrow>
     ac_window ac = w \<and> ac_seen ac = drop (length ids - w) ids \<and> apart w ids)"

lemma apart_snoc:
  assumes "apart w ids" "\<not> list_ex (\<lambda>j. py_eq j i) (drop (length ids - w) ids)"
  shows "apart w (ids @ [i])"
proof -
  have "\<not> py_eq (ids ! a) i" if "a < length ids" "length ids - a \<le> w" for a
  proof -
    from that have "ids ! a \<in> set (drop (length ids - w) ids)"
      using nth_mem [of "a - (length ids - w)" "drop (length ids - w) ids"] by simp
    with assms(2) show ?thesis by (auto simp: list_ex_iff)
  qed
  with assms(1) show ?thesis by (auto simp: apart_def nth_append less_Suc_eq)
qed

lemma dispatch_one_inv:
  assumes "window_inv w st"
  shows "window_inv w (snd (dispatch_one (logging cb) cmd st))"
proof (cases cmd)
  case (JObj d)
  obtain ac s ids where st: "st = (ac, s, ids)" by (metis prod_cases3)
  obtain r s1 where cb: "cb cmd s = (r, s1)" by fastforce
  define i where "i = dget d ''id''"
  have inv: "ac_window ac = w" "ac_seen ac = drop (length ids - w) ids" "apart w ids"
    using assms by (simp_all add: window_inv_def st)
  show ?thesis
  proof (cases "truthy i \<and> list_ex (\<lambda>j. py_eq j i) (ac_seen ac)")
    case True
    with assms show ?thesis by (simp add: dispatch_one_def JObj st i_def Let_def)
  next
    case False
    have step: "snd (dispatch_one (logging cb) cmd st) =
        (if r then (ac, s1, ids) else (mark_seen i ac, s1, if truthy i then ids @ [i] else ids))"
      using False cb by (auto simp: dispatch_one_def JObj st i_def logging_def Let_def)
    show ?thesis
    proof (cases "r \<or> \<not> truthy i")
      case True
      with inv show ?thesis by (auto simp: step window_inv_def mark_seen_def)
    next
      case fresh: False
      with False inv have "apart w (ids @ [i])" using apart_snoc by simp
      moreover have "ac_seen (remember i ac) = drop (length (ids @ [i]) - w) (ids @ [i])"
        using inv by (cases "w \<le> length ids") (auto simp: remember_def Let_def Suc_diff_le)
      ultimately show ?thesis using fresh inv by (simp add: step window_inv_def mark_seen_def remember_def Let_def)
    qed
  qed
qed (use assms in \<open>auto simp: dispatch_one_def split: prod.splits\<close>)

lemma dispatch_all_inv: "window_inv w st \<Longrightarrow> window_inv w (snd (dispatch_all (logging cb) cs st))"
proof (induction cs arbitrary: st)
  case (Cons c cs)
  with dispatch_one_inv [of w st cb c] show ?case
    by (cases "dispatch_one (logging cb) c st") (auto split: outcome.splits bool.splits)
qed simp

lemma call_command_cases:
  "call_command cb data st = (Returned True, st) \<or> (\<exists>cs. call_command cb data st = dispatch_all cb cs st)"
proof (cases "truthy data")
  case True
  then have "call_command cb data st = dispatch_all cb (case data of JArr cs \<Rightarrow> cs | _ \<Rightarrow> [data]) st"
    by (simp add: call_command_def del: dispatch_all.simps split: json.split)
  then show ?thesis by blast
qed (simp add: call_command_def)

lemma deliver_inv: "window_inv w st \<Longrightarrow> window_inv w (deliver (logging cb) ds st)"
proof (induction ds arbitrary: st)
  case (Cons d ds)
  have "window_inv w (snd (call_command (logging cb) d st))"
    using call_command_cases [of "logging cb" d st] dispatch_all_inv [of w st cb] Cons.prems by fastforce
  with Cons.IH show ?case by simp
qed simp

text \<open>
  Within the window of remembered ids, a command is executed successfully at most once, whatever
  is delivered, in whatever batches, and whatever the handler does: of any two executions of which
  the later comes at most a window after the earlier, the ids differ.
\<close>

lemma commands_at_most_once:
  assumes "deliver (logging cb) ds (new_agent_command w, s, []) = (ac, s1, ids)"
  shows "\<forall>i j. i < j \<longrightarrow> j < length ids \<longrightarrow> j - i \<le> w \<longrightarrow> \<not> py_eq (ids ! i) (ids ! j)"
proof -
  have "window_inv w (new_agent_command w, s, [])" by (simp add: window_inv_def new_agent_command_def apart_def)
  from deliver_inv [OF this, of cb ds] assms show ?thesis by (simp add: window_inv_def apart_def)
qed

lemma commands_at_most_once_witness:
  "snd (snd (deliver (logging (\<lambda>c n. (n = (0 :: nat), n + 1)))
     [JObj [(''id'', JStr ''a'')], JArr [JObj [(''id'', JStr ''a'')], JObj [(''id'', JStr ''a'')], JObj [(''id'', JStr ''b'')]]]
     (new_agent_command 2, 0, []))) = [JStr ''a'', JStr ''b''] \<and> \<not> py_eq (JStr ''a'') (JStr ''b'')"
proof -
  let ?cb = "\<lambda>c n. (n = (0 :: nat), n + 1)"
  let ?ds = "[JObj [(''id'', JStr ''a'')], JArr [JObj [(''id'', JStr ''a'')], JObj [(''id'', JStr ''a'')], JObj [(''id'', JStr ''b'')]]]"
  have ids: "snd (snd (deliver (logging ?cb) ?ds (new_agent_command 2, 0, []))) = [JStr ''a'', JStr ''b'']" by code_simp
  obtain ac s1 idl where r0: "deliver (logging ?cb) ?ds (new_agent_command 2, 0, []) = (ac, s1, idl)"
    by (rule prod_cases3)
  have r: "deliver (logging ?cb) ?ds (new_agent_command 2, 0, []) = (ac, s1, [JStr ''a'', JStr ''b''])"
    using r0 ids [unfolded r0] by (simp only: snd_conv)
  have "\<not> py_eq (JStr ''a'') (JStr ''b'')" using commands_at_most_once [OF r, rule_format, of 0 1] by simp
  with ids show ?thesis by (rule conjI)
qed

text \<open>A command whose handler raised is not remembered, and the rest of its batch is not looked at.\<close>

lemma failed_command_retried:
  assumes "cb (JObj d) s = (True, s1)" "\<not> list_ex (\<lambda>j. py_eq j (dget d ''id'')) (ac_seen ac)"
  shows "dispatch_all cb (JObj d # rest) (ac, s) = (Returned False, ac, s1)"
  using assms by (simp add: dispatch_one_def Let_def)

text \<open>An id stays remembered until a window of other commands has passed.\<close>

definition recent :: "nat \<Rightarrow> json \<Rightarrow> agent_command \<Rightarrow> bool" where
  "recent k i ac \<longleftrightarrow> (\<exists>pre suf. ac_seen ac = pre @ i # suf \<and> length suf \<le> k)"

lemma recent_mono: "recent k i ac \<Longrightarrow> k \<le> n \<Longrightarrow> recent n i ac"
  by (force simp: recent_def)

lemma remember_window [simp]: "ac_window (remember x ac) = ac_window ac" "ac_window (mark_seen x ac) = ac_window ac"
  by (simp_all add: remember_def mark_seen_def Let_def)

lemma remember_recent:
  assumes "recent k i ac" "Suc k < ac_window ac"
  shows "recent (Suc k) i (remember x ac)"
proof -
  obtain pre suf where s: "ac_seen ac = pre @ i # suf" "length suf \<le> k" using assms(1) by (auto simp: recent_def)
  define n where "n = length (ac_seen ac @ [x]) - ac_window ac"
  have "n \<le> length pre" using s assms(2) by (simp add: n_def)
  moreover have "ac_seen (remember x ac) = drop n (pre @ i # (suf @ [x]))" by (simp add: remember_def Let_def n_def s(1))
  ultimately have "ac_seen (remember x ac) = drop n pre @ i # (suf @ [x])" by simp
  with s(2) show ?thesis unfolding recent_def by (metis Suc_le_mono length_append_singleton)
qed

lemma dispatch_one_recent:
  assumes "dispatch_one cb c (ac, s) = (r, ac1, s1)" "recent k i ac" "Suc k < ac_window ac"
  shows "recent (Suc k) i ac1 \<and> ac_window ac1 = ac_window ac"
  using assms remember_recent [OF assms(2,3)] recent_mono [OF assms(2), of "Suc k"]
  by (auto simp: dispatch_one_def mark_seen_def Let_def split: json.splits if_splits prod.splits bool.splits)

lemma dispatch_all_recent:
  "dispatch_all cb cs (ac, s) = (r, ac1, s1) \<Longrightarrow> recent k i ac \<Longrightarrow> k + length cs < ac_window ac \<Longrightarrow>
     recent (k + length cs) i ac1 \<and> ac_window ac1 = ac_window ac"
proof (induction cs arbitrary: ac s k)
  case (Cons c cs)
  obtain r' ac' s' where d: "dispatch_one cb c (ac, s) = (r', ac', s')" by (metis prod_cases3)
  from Cons.prems dispatch_one_recent [OF d] have rec: "recent (Suc k) i ac'" "ac_window ac' = ac_window ac" by auto
  show ?case
  proof (cases "r' = Returned True")
    case True
    with Cons.prems(1) d have "dispatch_all cb cs (ac', s') = (r, ac1, s1)" by simp
    from Cons.IH [OF this rec(1)] Cons.prems(3) rec(2) show ?thesis by simp
  next
    case False
    with Cons.prems(1) d have "ac1 = ac'" by (auto split: outcome.splits bool.splits)
    with rec recent_mono show ?thesis by simp
  qed
qed (auto)

definition batch_size :: "json \<Rightarrow> nat" where
  "batch_size data = (case data of JArr cs \<Rightarrow> length cs | _ \<Rightarrow> 1)"

lemma call_command_recent:
  assumes "call_command cb data (ac, s) = (r, ac1, s1)" "recent k i ac" "k + batch_size data < ac_window ac"
  shows "recent (k + batch_size data) i ac1 \<and> ac_window ac1 = ac_window ac"
proof (cases "truthy data")
  case True
  define cs where "cs = (case data of JArr cs \<Rightarrow> cs | _ \<Rightarrow> [data])"
  have "dispatch_all cb cs (ac, s) = (r, ac1, s1)"
    using assms(1) True by (simp add: call_command_def cs_def del: dispatch_all.simps split: json.splits)
  moreover have "length cs = batch_size data" by (simp add: cs_def batch_size_def split: json.split)
  ultimately show ?thesis using dispatch_all_recent assms(2,3) by metis
next
  case False
  with assms recent_mono show ?thesis by (simp add: call_command_def)
qed

lemma deliver_recent:
  "deliver cb ds (ac, s) = (ac1, s1) \<Longrightarrow> recent k i ac \<Longrightarrow> k + sum_list (map batch_size ds) < ac_window ac \<Longrightarrow>
     recent (k + sum_list (map batch_size ds)) i ac1"
proof (induction ds arbitrary: ac s k)
  case (Cons d ds)
  obtain r ac' s' where c: "call_command cb d (ac, s) = (r, ac', s')" by (metis prod_cases3)
  from call_command_recent [OF c Cons.prems(2)] Cons.prems(3)
  have "recent (k + batch_size d) i ac'" "ac_window ac' = ac_window ac" by simp_all
  with Cons.IH [of ac' s' "k + batch_size d"] Cons.prems(1,3) c show ?case by (simp add: add.assoc)
qed simp

lemma redelivery_ignored:
  assumes id: "dget d ''id'' = JStr i" "i \<noteq> []"
    and fresh: "\<not> list_ex (\<lambda>j. py_eq j (JStr i)) (ac_seen ac)" and ok: "cb (JObj d) s = (False, s1)"
    and later: "deliver cb (JObj d # ds) (ac, s) = st" "sum_list (map batch_size ds) < ac_window ac"
  shows "deliver cb (JObj d # ds @ [JObj d]) (ac, s) = st"
proof -
  have ne: "truthy (JObj d)" using id by (cases d) (auto simp: dget_def)
  have first: "call_command cb (JObj d) (ac, s) = (Returned True, remember (JStr i) ac, s1)"
    using ne fresh ok id by (simp add: call_command_def dispatch_one_def mark_seen_def Let_def)
  have "ac_window ac \<noteq> 0" using later(2) by simp
  then have "ac_seen (remember (JStr i) ac) = drop (length (ac_seen ac @ [JStr i]) - ac_window ac) (ac_seen ac) @ [JStr i]"
    by (simp add: remember_def Let_def)
  then have "recent 0 (JStr i) (remember (JStr i) ac)" by (auto simp: recent_def)
  moreover obtain ac2 s2 where st: "st = (ac2, s2)" by fastforce
  moreover have rest: "deliver cb ds (remember (JStr i) ac, s1) = st" using later(1) first by simp
  ultimately have "recent (0 + sum_list (map batch_size ds)) (JStr i) ac2"
    using deliver_recent [of cb ds "remember (JStr i) ac" s1 ac2 s2 0] later(2) by simp
  then have "list_ex (\<lambda>j. py_eq j (JStr i)) (ac_seen ac2)" by (auto simp: recent_def)
  with ne id have "call_command cb (JObj d) st = (Returned True, st)"
    by (simp add: call_command_def dispatch_one_def st Let_def)
  moreover have "deliver cb (xs @ [x]) st0 = snd (call_command cb x (deliver cb xs st0))" for xs x st0
    by (induction xs arbitrary: st0) simp_all
  ultimately show ?thesis using first rest by simp
qed

section \<open>The pipeline loop\<close>

fun sunk :: "'d action list \<Rightarrow> 'd list" where
  "sunk [] = []"
| "sunk (Sunk d r # as) = d # sunk as"
| "sunk (_ # as) = sunk as"

fun pulled :: "'d pull list \<Rightarrow> 'd list" where
  "pulled [] = []"
| "pulled (Data d # ps) = d # pulled ps"
| "pulled (_ # ps) = pulled ps"

definition ends_here :: "'d turn \<Rightarrow> bool" where
  "ends_here t \<longleftrightarrow> leaves t \<or> (\<not> skips t \<and> (tn_pull t = PullStops \<or> (\<exists>d. tn_pull t = Data d \<and> tn_push t = PushStops)))"

lemma run_loop_left: "fst (run_loop idle ts) \<longleftrightarrow> list_ex ends_here ts"
  by (induction idle ts rule: run_loop.induct) (auto simp: ends_here_def split: pull.splits push.splits)

lemma run_loop_sunk:
  "\<not> list_ex ends_here ts \<Longrightarrow> sunk (snd (run_loop idle ts)) = pulled (map tn_pull (filter (\<lambda>t. \<not> skips t) ts))"
proof (induction idle ts rule: run_loop.induct)
  case (2 idle t ts)
  then show ?case by (cases "tn_push t"; cases "tn_pull t") (auto simp: ends_here_def)
qed simp

lemma idle_bounds:
  "IDLE_SLEEP_MIN \<le> IDLE_SLEEP_MAX"
  "IDLE_SLEEP_MIN \<le> idle \<Longrightarrow> IDLE_SLEEP_MIN \<le> min (idle * 2) IDLE_SLEEP_MAX"
  by (auto simp: IDLE_SLEEP_MIN_def IDLE_SLEEP_MAX_def)

lemma run_loop_sleeps:
  "IDLE_SLEEP_MIN \<le> idle \<Longrightarrow> idle \<le> IDLE_SLEEP_MAX \<Longrightarrow> Slept n \<in> set (snd (run_loop idle ts)) \<Longrightarrow>
     n = ERROR_SLEEP \<or> (IDLE_SLEEP_MIN \<le> n \<and> n \<le> IDLE_SLEEP_MAX)"
proof (induction ts arbitrary: idle)
  case (Cons t ts)
  from Cons.IH [of IDLE_SLEEP_MIN] Cons.IH [of "min (idle * 2) IDLE_SLEEP_MAX"] Cons.IH [of idle]
    idle_bounds(1) idle_bounds(2) [OF Cons.prems(1)] Cons.prems
  show ?case by (cases "tn_pull t"; cases "tn_push t") (auto split: if_splits)
qed simp

text \<open>
  A pipeline that is not stopped hands every item of its source to its sink exactly once and in
  order, whatever the sink answers and however often source or sink fail; it sleeps between 10 and
  200 milliseconds when there is nothing to do and a second after an error, and never otherwise; and
  it tears its components down once, at the end, exactly when it leaves the loop.
\<close>

lemma pipeline_delivers:
  "(\<not> list_ex ends_here ts \<longrightarrow>
      sunk (pipeline_run source raises sink ts) = pulled (map tn_pull (filter (\<lambda>t. \<not> skips t) ts))) \<and>
   (\<forall>n. Slept n \<in> set (pipeline_run source raises sink ts) \<longrightarrow> n = 1000 \<or> (10 \<le> n \<and> n \<le> 200)) \<and>
   (\<exists>as. (\<forall>a \<in> set as. a \<noteq> SourceStopped \<and> a \<noteq> SinkStopped) \<and>
      pipeline_run source raises sink ts = as @ (if list_ex ends_here ts then teardown source raises sink else []))"
proof -
  have clean: "a \<noteq> SourceStopped \<and> a \<noteq> SinkStopped" if "a \<in> set (snd (run_loop idle ts))" for a idle
    using that by (induction idle ts rule: run_loop.induct) (auto split: if_splits pull.splits push.splits)
  have run: "pipeline_run source raises sink ts =
      snd (run_loop IDLE_SLEEP_MIN ts) @ (if list_ex ends_here ts then teardown source raises sink else [])"
    using run_loop_left [of IDLE_SLEEP_MIN ts] by (cases "run_loop IDLE_SLEEP_MIN ts") (simp add: pipeline_run_def)
  have "Slept n \<notin> set (teardown source raises sink)" for n by (simp add: teardown_def)
  with run run_loop_sleeps [OF order_refl idle_bounds(1)] have
    "n = 1000 \<or> (10 \<le> n \<and> n \<le> 200)" if "Slept n \<in> set (pipeline_run source raises sink ts)" for n
    using that by (auto simp: IDLE_SLEEP_MIN_def IDLE_SLEEP_MAX_def ERROR_SLEEP_def split: if_splits)
  with run clean run_loop_sunk show ?thesis by auto
qed

lemma pipeline_delivers_witness:
  "sunk (pipeline_run HasStop False HasClose
     [\<lparr>tn_go = True, tn_active = True, tn_woken = False, tn_running = True, tn_pull = Data (7 :: nat), tn_push = Refused\<rparr>]) = [7]"
  using pipeline_delivers [of "[\<lparr>tn_go = True, tn_active = True, tn_woken = False, tn_running = True, tn_pull = Data (7 :: nat), tn_push = Refused\<rparr>]"
    HasStop False HasClose] by (simp add: ends_here_def leaves_def skips_def)

section \<open>Polling and retry classes\<close>

text \<open>Two requests of a poller are at least its interval apart, and an elapsed interval is polled.\<close>

lemma poll_spacing:
  assumes "poll now x po = (Some u, r, po1)" "poll later y po1 = (Some u', r', po2)"
  shows "po_interval po \<le> later - now"
  using assms by (auto simp: poll_def split: if_splits)

text \<open>The client swallows exactly the failures that may go away: no answer, or a 5xx.\<close>

lemma http_get_classes:
  "http_get x = HttpError s b \<longleftrightarrow> (\<exists>js. x = Answered s b js \<and> 400 \<le> s \<and> s < 500)"
  "http_post x = HttpError s b \<longleftrightarrow> (\<exists>js. x = Answered s b js \<and> 400 \<le> s \<and> s < 500)"
  by (auto simp: http_get_def http_post_def split: exchange.splits if_splits)

end
