(* ===== verification/Device.thy ===== *)
theory Device
  imports Complex_Main Updater Urls
begin

text \<open>
  What the agent finds out about the device it runs on: \<open>infra/utils.py\<close> (the target triple and the
  machine identity), \<open>utils/version.py\<close> (its own version) and \<open>infra/provision.py\<close> (the Zenoh
  router).  A step acts on a \<open>desk\<close>: the file system, the requests sent so far, the waits between
  them and the cached version.  What \<open>platform\<close>, the registry, \<open>ioreg\<close>, \<open>uuid\<close>, \<open>hashlib\<close>, the random
  generator, the decoders and the network answer are fields of the \<open>machine\<close>.
\<close>

section \<open>The machine and its state\<close>

datatype pyfloat = Fin rat | PlusInf | MinusInf | NotANumber

record request =
  rq_url :: string
  rq_payload :: jdict
  rq_bearer :: string

record reply =
  rp_status :: int
  rp_retry_after :: "string option"
  rp_json :: "json option"

record machine =
  mc_system :: string
  mc_machine :: string
  mc_node :: string
  mc_release :: string
  mc_libc :: string
  mc_user :: "string option"
  mc_registry :: "string option"
  mc_ioreg :: "string option"
  mc_uuid :: string
  mc_sha256 :: "string \<Rightarrow> string"
  mc_cwd :: apath
  mc_env :: "string \<Rightarrow> string option"
  mc_metadata :: "string option"
  mc_frozen :: bool
  mc_exe_dir :: apath
  mc_module :: apath
  mc_argv0 :: "apath option"
  mc_loads :: "string \<Rightarrow> json option"
  mc_toml :: "string \<Rightarrow> json option"
  mc_now :: string
  mc_dumps :: "json \<Rightarrow> string"
  mc_unzip :: "string \<Rightarrow> (string \<times> string) list option"
  mc_get :: "string \<Rightarrow> string option"
  mc_post :: "nat \<Rightarrow> request \<Rightarrow> reply option"
  mc_jitter :: "nat \<Rightarrow> rat"

record desk =
  dk_fs :: fs
  dk_sent :: "request list"
  dk_slept :: "rat list"
  dk_version :: "json option"

datatype cli_error =
    OsError
  | ValueError
  | UnsupportedPlatform
  | KeyFileError
  | Exhausted
  | RequestRejected int
  | BadResponse
  | ConfigError
  | AttributeErr
  | IndexErr
  | TypeErr
  | MissingKey
  | RouterFailed
  | ZenohError

type_synonym 'a job = "(desk, cli_error, 'a) stm"

definition look :: "(fs \<Rightarrow> 'a) \<Rightarrow> 'a job" where
  "look f d = (Inr (f (dk_fs d)), d)"

text \<open>A change of the files, and the \<open>OSError\<close> when it fails.\<close>

definition edit :: "(fs \<Rightarrow> fs option) \<Rightarrow> unit job" where
  "edit f d = (case f (dk_fs d) of None \<Rightarrow> (Inl OsError, d) | Some fs \<Rightarrow> (Inr (), d\<lparr>dk_fs := fs\<rparr>))"

section \<open>The target triple\<close>

definition get_platform_arch :: "machine \<Rightarrow> cli_error + string" where
  "get_platform_arch mc =
     (let system = py_lower (mc_system mc); machine = py_lower (mc_machine mc) in
      if system = ''windows'' then Inr ''x86_64-pc-windows-msvc''
      else if system = ''darwin'' then
        (if machine = ''x86_64'' then Inr ''x86_64-apple-darwin''
         else if machine = ''arm64'' then Inr ''aarch64-apple-darwin'' else Inl UnsupportedPlatform)
      else if system = ''linux'' then
        (let is_musl = (contains_sub (py_lower (mc_libc mc)) ''musl'' \<or>
               contains_sub (py_lower (mc_release mc)) ''alpine'' \<or> mc_libc mc = []);
             abi = (if is_musl then ''musl'' else ''gnu'') in
         if machine = ''x86_64'' then Inr (''x86_64-unknown-linux-'' @ abi)
         else if machine = ''aarch64'' then Inr (''aarch64-unknown-linux-'' @ abi)
         else if startswith machine ''armv7'' \<or> machine = ''arm'' then Inr (''armv7-unknown-linux-'' @ abi @ ''eabihf'')
         else if machine = ''armv6l'' then Inr (''arm-unknown-linux-'' @ abi @ ''eabihf'')
         else Inl UnsupportedPlatform)
      else Inl UnsupportedPlatform)"

section \<open>Machine identity\<close>

text \<open>\<open>s.splitlines()\<close> on code points below 256.\<close>

definition is_line_break :: "char \<Rightarrow> bool" where
  "is_line_break c = (let n = of_char c :: nat in (10 \<le> n \<and> n \<le> 13) \<or> (28 \<le> n \<and> n \<le> 30) \<or> n = 133)"

definition after_cr :: "char \<Rightarrow> string \<Rightarrow> string" where
  "after_cr c s = (if of_char c = (13 :: nat) \<and> s \<noteq> [] \<and> of_char (hd s) = (10 :: nat) then tl s else s)"

lemma length_after_cr: "length (after_cr c s) \<le> length s"
  by (simp add: after_cr_def)

function splitlines_acc :: "string \<Rightarrow> string \<Rightarrow> string list" where
  "splitlines_acc w [] = (if w = [] then [] else [rev w])"
| "splitlines_acc w (c # s) =
     (if is_line_break c then rev w # splitlines_acc [] (after_cr c s) else splitlines_acc (c # w) s)"
  by pat_completeness auto
termination
  by (relation "measure (\<lambda>(w, s). length s)") (auto simp: less_Suc_eq_le length_after_cr)

text \<open>The reader of \<open>ioreg\<close>'s output: the value in the last pair of quotes of the first line that has one.\<close>

fun find_uuid :: "string list \<Rightarrow> string option" where
  "find_uuid [] = None"
| "find_uuid (line # ls) =
     (let parts = split_char (CHR 0x22) line; u = py_strip (last (butlast parts)) in
      if contains_sub line ''IOPlatformUUID'' \<and> 4 \<le> length parts \<and> u \<noteq> [] then Some u else find_uuid ls)"

definition read_linux :: "string option job" where
  "read_linux = look (\<lambda>fs. map_option py_strip (read_text fs [''etc'', ''machine-id'']))"

definition read_windows :: "machine \<Rightarrow> string option" where
  "read_windows mc = map_option py_strip (mc_registry mc)"

definition read_macos :: "machine \<Rightarrow> string option" where
  "read_macos mc = (case mc_ioreg mc of None \<Rightarrow> None | Some out \<Rightarrow> find_uuid (splitlines_acc [] out))"

definition FALLBACK_FILE :: "machine \<Rightarrow> apath" where
  "FALLBACK_FILE mc = mc_cwd mc @ [''configs'', ''.machine_id'']"

text \<open>The identifier is written as well as can be; a failure is only logged.\<close>

definition fallback_id :: "machine \<Rightarrow> string job" where
  "fallback_id mc =
     (let f = FALLBACK_FILE mc;
          fresh = seq (swallow (edit (\<lambda>fs. write_text fs f (mc_uuid mc)))) (\<lambda>_. ret (mc_uuid mc)) in
      seq (edit (\<lambda>fs. mkdirs fs (butlast f))) (\<lambda>_.
      seq (look (\<lambda>fs. path_exists fs f)) (\<lambda>there.
      if there then
        seq (look (\<lambda>fs. read_text fs f)) (\<lambda>c.
        (case c of
           None \<Rightarrow> raise OsError
         | Some t \<Rightarrow> if py_strip t \<noteq> [] then ret (py_strip t) else fresh))
      else fresh)))"

text \<open>A reader that fails, or gives an empty string, falls back.\<close>

definition read_raw_id :: "machine \<Rightarrow> string job" where
  "read_raw_id mc =
     seq (if mc_system mc = ''Linux'' then read_linux
          else ret (if mc_system mc = ''Windows'' then read_windows mc
                    else if mc_system mc = ''Darwin'' then read_macos mc else None)) (\<lambda>raw.
     (case raw of
        None \<Rightarrow> fallback_id mc
      | Some r \<Rightarrow> if py_strip r = [] then fallback_id mc else ret (py_strip r)))"

definition get_machine_id_hash :: "machine \<Rightarrow> string job" where
  "get_machine_id_hash mc = seq (read_raw_id mc) (\<lambda>raw. ret (mc_sha256 mc raw))"

section \<open>The version of the agent\<close>

definition manifest_version :: "machine \<Rightarrow> fs \<Rightarrow> json option" where
  "manifest_version mc fs =
     (let p = mc_exe_dir mc @ [''manifest.json''] in
      if mc_frozen mc \<and> is_file fs p then
        (case Option.bind (read_text fs p) (mc_loads mc) of
           Some (JObj d) \<Rightarrow> (case dget d ''version'' of JStr (c # s) \<Rightarrow> Some (JStr (c # s)) | _ \<Rightarrow> None)
         | _ \<Rightarrow> None)
      else None)"

text \<open>
  The walk up for a \<open>pyproject.toml\<close>: \<open>Inl ()\<close> is an exception, which ends the search.
\<close>

fun project_walk :: "machine \<Rightarrow> fs \<Rightarrow> apath list \<Rightarrow> unit + json option" where
  "project_walk mc fs [] = Inr None"
| "project_walk mc fs (dir # dirs) =
     (let p = dir @ [''pyproject.toml''] in
      if \<not> is_file fs p then project_walk mc fs dirs
      else (case Option.bind (read_text fs p) (mc_toml mc) of
              Some (JObj d) \<Rightarrow>
                (case (if truthy (dget d ''project'') then dget d ''project'' else JObj []) of
                   JObj pr \<Rightarrow>
                     if py_eq (dget pr ''name'') (JStr ''locai-link'') \<and> map_of pr ''version'' \<noteq> None
                     then Inr (map_of pr ''version'') else project_walk mc fs dirs
                 | _ \<Rightarrow> Inl ())
            | _ \<Rightarrow> Inl ()))"

definition project_roots :: "machine \<Rightarrow> apath list" where
  "project_roots mc =
     rev (prefixes (mc_module mc)) @ (case mc_argv0 mc of None \<Rightarrow> [] | Some p \<Rightarrow> rev (prefixes p))"

definition resolve_version :: "machine \<Rightarrow> fs \<Rightarrow> json option" where
  "resolve_version mc fs =
     (case mc_metadata mc of
        Some (c # s) \<Rightarrow> Some (JStr (c # s))
      | _ \<Rightarrow>
          (case manifest_version mc fs of
             Some v \<Rightarrow> Some v
           | None \<Rightarrow> (case project_walk mc fs (project_roots mc) of Inl _ \<Rightarrow> None | Inr v \<Rightarrow> v)))"

definition resolve_agent_version :: "machine \<Rightarrow> json option job" where
  "resolve_agent_version mc d =
     (case dk_version d of
        Some v \<Rightarrow> (Inr (Some v), d)
      | None \<Rightarrow>
          (case resolve_version mc (dk_fs d) of
             None \<Rightarrow> (Inr None, d)
           | Some v \<Rightarrow> (Inr (Some v), d\<lparr>dk_version := Some v\<rparr>)))"

section \<open>The Zenoh router\<close>

definition ZENOH_VERSION :: string where "ZENOH_VERSION = ''1.9.0''"

definition ZENOH_DIR :: "machine \<Rightarrow> apath" where
  "ZENOH_DIR mc = mc_cwd mc @ [''.zenoh'']"

definition release_url :: "string \<Rightarrow> string" where
  "release_url project = ''https://github.com/eclipse-zenoh/'' @ project @ ''/releases/download/'' @ ZENOH_VERSION"

definition router_binary :: "machine \<Rightarrow> string" where
  "router_binary mc = (if mc_system mc = ''Windows'' then ''zenohd.exe'' else ''zenohd'')"

definition is_router_installed :: "machine \<Rightarrow> bool job" where
  "is_router_installed mc = look (\<lambda>fs. path_exists fs (ZENOH_DIR mc @ [router_binary mc]))"

text \<open>The body of the \<open>try\<close>: download, extract, remove the archive.\<close>

definition unpack_zip :: "machine \<Rightarrow> apath \<Rightarrow> apath \<Rightarrow> unit job" where
  "unpack_zip mc archive target d =
     (case extract_archive (\<lambda>_. None) (mc_unzip mc) (dk_fs d) archive target of
        (None, fs) \<Rightarrow> (Inr (), d\<lparr>dk_fs := fs\<rparr>)
      | (Some e, fs) \<Rightarrow> (Inl OsError, d\<lparr>dk_fs := fs\<rparr>))"

definition fetch_component :: "machine \<Rightarrow> string \<Rightarrow> apath \<Rightarrow> apath \<Rightarrow> unit job" where
  "fetch_component mc url path target =
     (case mc_get mc url of
        None \<Rightarrow> raise OsError
      | Some bytes \<Rightarrow>
          seq (edit (\<lambda>fs. write_text fs path bytes)) (\<lambda>_.
          seq (unpack_zip mc path target) (\<lambda>_.
          edit (\<lambda>fs. unlink fs path))))"

text \<open>\<open>except Exception\<close>: what was written is removed.\<close>

definition otherwise :: "'a job \<Rightarrow> 'a job \<Rightarrow> 'a job" where
  "otherwise m k d = (case m d of (Inl e, d1) \<Rightarrow> k d1 | r \<Rightarrow> r)"

definition download_component :: "machine \<Rightarrow> string \<Rightarrow> apath \<Rightarrow> unit job" where
  "download_component mc url target =
     (let path = target @ [path_name (path_of url)] in
      seq (look (\<lambda>fs. path_exists fs path)) (\<lambda>there.
      if there then ret ()
      else otherwise (fetch_component mc url path target)
             (edit (\<lambda>fs. if path_exists fs path then unlink fs path else Some fs))))"

definition install_router_env :: "machine \<Rightarrow> string \<Rightarrow> unit job" where
  "install_router_env mc backend =
     seq (edit (\<lambda>fs. mkdirs fs (ZENOH_DIR mc))) (\<lambda>_.
     (case get_platform_arch mc of
        Inl _ \<Rightarrow> ret ()
      | Inr target_os \<Rightarrow>
          seq (download_component mc
             (release_url ''zenoh'' @ ''/zenoh-'' @ ZENOH_VERSION @ ''-'' @ target_os @ ''-standalone.zip'') (ZENOH_DIR mc)) (\<lambda>_.
          if backend = ''rocksdb'' \<or> backend = ''filesystem'' then
            download_component mc
              (release_url (''zenoh-backend-'' @ backend) @ ''/zenoh-backend-'' @ backend @ ''-'' @ ZENOH_VERSION @ ''-'' @
               target_os @ ''-standalone.zip'') (ZENOH_DIR mc)
          else ret ())))"

section \<open>A machine\<close>

definition sample_machine :: machine where
  "sample_machine =
     \<lparr>mc_system = ''Linux'', mc_machine = ''x86_64'', mc_node = ''box'', mc_release = ''6.1'', mc_libc = ''glibc'',
      mc_user = Some ''u'', mc_registry = None, mc_ioreg = None, mc_uuid = ''u-u'', mc_sha256 = (\<lambda>s. s),
      mc_cwd = [''app''], mc_env = (\<lambda>k. None), mc_metadata = None, mc_frozen = False, mc_exe_dir = [''app''], mc_module = [''app'', ''m''],
      mc_argv0 = None, mc_loads = (\<lambda>s. None), mc_toml = (\<lambda>s. None), mc_now = ''t'', mc_dumps = py_str,
      mc_unzip = (\<lambda>s. None), mc_get = (\<lambda>u. None), mc_post = (\<lambda>n rq. None), mc_jitter = (\<lambda>n. 1)\<rparr>"

definition sample_desk :: desk where
  "sample_desk = \<lparr>dk_fs = [([''app''], EDir 0), ([''etc''], EDir 0)], dk_sent = [], dk_slept = [], dk_version = None\<rparr>"

section \<open>The identity is stable\<close>

text \<open>No links and no misplaced directories where the identity is read and kept.\<close>

definition desk_ok :: "machine \<Rightarrow> fs \<Rightarrow> bool" where
  "desk_ok mc fs \<longleftrightarrow> canonical fs (mc_cwd mc) \<and>
     (node fs (mc_cwd mc @ [''configs'']) = None \<or> is_dir_entry (node fs (mc_cwd mc @ [''configs'']))) \<and>
     (node fs (FALLBACK_FILE mc) = None \<or> is_file_entry (node fs (FALLBACK_FILE mc))) \<and>
     canonical fs [''etc''] \<and> \<not> is_link_entry (node fs [''etc'', ''machine-id''])"

lemma canonical_put:
  assumes "canonical fs D" "\<not> prefix q D" "q \<noteq> []"
  shows "canonical (put q e fs) D"
  using assms take_is_prefix [of _ D] by (auto simp: canonical_def node_put)

lemma configs_made:
  assumes "desk_ok mc fs"
  obtains fs1 where "mkdirs fs (butlast (FALLBACK_FILE mc)) = Some fs1" "canonical fs1 (mc_cwd mc @ [''configs''])"
    "\<And>q. q \<noteq> mc_cwd mc @ [''configs''] \<Longrightarrow> node fs1 q = node fs q" "desk_ok mc fs1"
proof -
  let ?D = "mc_cwd mc" and ?c = "''configs''"
  have f: "FALLBACK_FILE mc = (?D @ [?c]) @ [''.machine_id'']" by (simp add: FALLBACK_FILE_def)
  have can: "canonical fs ?D" "canonical fs [''etc'']" using assms by (simp_all add: desk_ok_def)
  define fs1 where "fs1 = (if node fs (?D @ [?c]) = None then put (?D @ [?c]) (EDir 0) fs else fs)"
  have nl: "\<not> is_link_entry (node fs (?D @ [?c]))" using assms by (cases "node fs (?D @ [?c])" rule: is_dir_entry.cases) (auto simp: desk_ok_def)
  have "mkdirs fs (butlast (FALLBACK_FILE mc)) = Some fs1"
    unfolding f butlast_snoc mkdirs_canonical [OF can(1)] using assms nl can
    by (cases "node fs (?D @ [?c])" rule: is_dir_entry.cases) (auto simp: stat_plain lpath_canonical fs1_def desk_ok_def)
  moreover have other: "node fs1 q = node fs q" if "q \<noteq> ?D @ [?c]" for q using that by (simp add: fs1_def node_put)
  moreover have can1: "canonical fs1 ?D" "canonical fs1 [''etc'']"
    using can canonical_put [of fs ?D "?D @ [?c]" "EDir 0"] canonical_put [of fs "[''etc'']" "?D @ [?c]" "EDir 0"]
    by (auto simp: fs1_def prefix_Cons Cons_eq_append_conv dest: prefix_length_le)
  moreover have "is_dir_entry (node fs1 (?D @ [?c]))" using assms by (auto simp: fs1_def desk_ok_def node_put)
  moreover have "[''etc'', ''machine-id''] \<noteq> ?D @ [?c]" "FALLBACK_FILE mc \<noteq> ?D @ [?c]" by (auto simp: f)
  ultimately show ?thesis using that [of fs1] assms by (auto simp: desk_ok_def canonical_Snoc)
qed

lemma seq_look: "seq (look f) k d = k (f (dk_fs d)) d"
  by (simp add: seq_def look_def)

lemma seq_edit: "seq (edit g) k d = (case g (dk_fs d) of None \<Rightarrow> (Inl OsError, d) | Some fs \<Rightarrow> k () (d\<lparr>dk_fs := fs\<rparr>))"
  by (simp add: seq_def edit_def split: option.split)

lemmas seq_job = seq_ret seq_raise seq_look seq_edit seq_swallow

text \<open>An identifier on file is what every later call returns.\<close>

definition on_file :: "machine \<Rightarrow> string \<Rightarrow> fs \<Rightarrow> bool" where
  "on_file mc raw fs \<longleftrightarrow> raw \<noteq> [] \<and> canonical fs (mc_cwd mc @ [''configs'']) \<and>
     (\<exists>t. node fs (FALLBACK_FILE mc) = Some (EFile t) \<and> py_strip t = raw)"

lemma fallback_lookup:
  assumes "canonical fs (mc_cwd mc @ [''configs''])" "\<not> is_link_entry (node fs (FALLBACK_FILE mc))"
  shows "stat fs (FALLBACK_FILE mc) = node fs (FALLBACK_FILE mc)" "realpath fs (FALLBACK_FILE mc) = Some (FALLBACK_FILE mc)"
  using stat_plain [OF assms(1), of "''.machine_id''"] realpath_plain [OF assms(1), of "''.machine_id''"] assms(2)
  by (simp_all add: FALLBACK_FILE_def)

lemma mkdirs_done: "canonical fs D \<Longrightarrow> mkdirs fs D = Some fs"
  using mkdirs_canonical [of fs D "[]"] by simp

lemma fallback_on_file:
  assumes "on_file mc raw (dk_fs d)"
  shows "fallback_id mc d = (Inr raw, d)"
proof -
  obtain t where t: "node (dk_fs d) (FALLBACK_FILE mc) = Some (EFile t)" "py_strip t = raw" "raw \<noteq> []"
    and can: "canonical (dk_fs d) (mc_cwd mc @ [''configs''])" using assms by (auto simp: on_file_def)
  have mk: "mkdirs (dk_fs d) (butlast (FALLBACK_FILE mc)) = Some (dk_fs d)"
    using mkdirs_done [OF can] by (simp add: FALLBACK_FILE_def butlast_append)
  show ?thesis using t fallback_lookup [OF can]
    by (simp add: fallback_id_def Let_def seq_job mk path_exists_def read_text_def ret_def)
qed

lemma fallback_kept:
  assumes ok: "desk_ok mc (dk_fs d)" and uuid: "py_strip (mc_uuid mc) = mc_uuid mc" "mc_uuid mc \<noteq> []"
  obtains raw d1 where "fallback_id mc d = (Inr raw, d1)" "on_file mc raw (dk_fs d1)" "desk_ok mc (dk_fs d1)"
    "\<And>q. q \<noteq> mc_cwd mc @ [''configs''] \<Longrightarrow> q \<noteq> FALLBACK_FILE mc \<Longrightarrow> node (dk_fs d1) q = node (dk_fs d) q"
proof -
  let ?f = "FALLBACK_FILE mc"
  obtain fs1 where mk: "mkdirs (dk_fs d) (butlast ?f) = Some fs1" and can: "canonical fs1 (mc_cwd mc @ [''configs''])"
    and same: "\<And>q. q \<noteq> mc_cwd mc @ [''configs''] \<Longrightarrow> node fs1 q = node (dk_fs d) q" and ok1: "desk_ok mc fs1"
    using configs_made [OF ok] by blast
  have f: "node fs1 ?f = None \<or> is_file_entry (node fs1 ?f)" using ok1 by (simp add: desk_ok_def)
  then have nl: "\<not> is_link_entry (node fs1 ?f)" by (cases "node fs1 ?f" rule: is_file_entry.cases) auto
  note look1 = fallback_lookup [OF can nl]
  show ?thesis
  proof (cases "\<exists>t. node fs1 ?f = Some (EFile t) \<and> py_strip t \<noteq> []")
    case True
    then obtain t where t: "node fs1 ?f = Some (EFile t)" "py_strip t \<noteq> []" by blast
    then have "fallback_id mc d = (Inr (py_strip t), d\<lparr>dk_fs := fs1\<rparr>)"
      using mk look1 by (simp add: fallback_id_def Let_def seq_job path_exists_def read_text_def ret_def)
    moreover have "on_file mc (py_strip t) fs1" using t can by (auto simp: on_file_def)
    ultimately show ?thesis using that [of "py_strip t" "d\<lparr>dk_fs := fs1\<rparr>"] ok1 same by simp
  next
    case False
    let ?fs2 = "put ?f (EFile (mc_uuid mc)) fs1"
    have ne: "?f \<noteq> []" by (simp add: FALLBACK_FILE_def)
    have w: "write_text fs1 ?f (mc_uuid mc) = Some ?fs2"
      using look1(2) f canonical_node [OF can] ne
      by (cases "node fs1 ?f" rule: is_file_entry.cases) (auto simp: write_text_def FALLBACK_FILE_def butlast_append)
    have "fallback_id mc d = (Inr (mc_uuid mc), d\<lparr>dk_fs := ?fs2\<rparr>)"
      using mk look1 f w False
      by (cases "node fs1 ?f" rule: is_file_entry.cases)
        (auto simp: fallback_id_def Let_def seq_job path_exists_def read_text_def edit_def ret_def)
    moreover have can2: "canonical ?fs2 (mc_cwd mc @ [''configs''])"
      by (rule canonical_put [OF can _ ne]) (auto simp: FALLBACK_FILE_def dest: prefix_length_le)
    moreover have "on_file mc (mc_uuid mc) ?fs2" using can2 uuid by (simp add: on_file_def node_put ne)
    moreover have "desk_ok mc ?fs2"
      using ok1 can2 canonical_put [of fs1 "[''etc'']" ?f "EFile (mc_uuid mc)"] ne canonical_node [OF can2]
      by (auto simp: desk_ok_def node_put canonical_Snoc FALLBACK_FILE_def Cons_eq_append_conv prefix_Cons)
    moreover have "node ?fs2 q = node (dk_fs d) q" if "q \<noteq> mc_cwd mc @ [''configs'']" "q \<noteq> ?f" for q
      using same that by (simp add: node_put ne)
    ultimately show ?thesis using that [of "mc_uuid mc" "d\<lparr>dk_fs := ?fs2\<rparr>"] by simp
  qed
qed

text \<open>What the readers of the operating system see does not depend on the fallback.\<close>

lemma native_reader:
  assumes "desk_ok mc (dk_fs d)" "desk_ok mc (dk_fs d1)"
    "node (dk_fs d1) [''etc'', ''machine-id''] = node (dk_fs d) [''etc'', ''machine-id'']"
  shows "read_text (dk_fs d1) [''etc'', ''machine-id''] = read_text (dk_fs d) [''etc'', ''machine-id'']"
proof -
  have "stat fs [''etc'', ''machine-id''] = node fs [''etc'', ''machine-id'']" if "desk_ok mc fs" for fs
    using stat_plain [of fs "[''etc'']" "''machine-id''"] that by (simp add: desk_ok_def)
  with assms show ?thesis by (simp add: read_text_def)
qed

definition native_id :: "machine \<Rightarrow> fs \<Rightarrow> string option" where
  "native_id mc fs =
     (if mc_system mc = ''Linux'' then map_option py_strip (read_text fs [''etc'', ''machine-id''])
      else if mc_system mc = ''Windows'' then read_windows mc
      else if mc_system mc = ''Darwin'' then read_macos mc else None)"

lemma read_raw_id_native:
  "read_raw_id mc d =
     (case native_id mc (dk_fs d) of
        None \<Rightarrow> fallback_id mc d
      | Some r \<Rightarrow> if py_strip r = [] then fallback_id mc d else (Inr (py_strip r), d))"
  by (auto simp: read_raw_id_def native_id_def read_linux_def seq_job ret_def split: option.split)

text \<open>
  A device keeps its identity: the identifier whose hash is sent to the control plane is never
  empty, and once it was determined every later call, in any later process (with another random
  UUID at hand), returns the same one and changes nothing, whether it comes from the operating
  system or from the fallback file.
\<close>

lemma machine_id_stable:
  assumes "desk_ok mc (dk_fs d)" "py_strip (mc_uuid mc) = mc_uuid mc" "mc_uuid mc \<noteq> []"
  shows "\<exists>raw d1. raw \<noteq> [] \<and> get_machine_id_hash mc d = (Inr (mc_sha256 mc raw), d1) \<and>
    (\<forall>u. get_machine_id_hash (mc\<lparr>mc_uuid := u\<rparr>) d1 = (Inr (mc_sha256 mc raw), d1))"
proof (cases "\<exists>r. native_id mc (dk_fs d) = Some r \<and> py_strip r \<noteq> []")
  case True
  then obtain r where r: "native_id mc (dk_fs d) = Some r" "py_strip r \<noteq> []" by blast
  moreover have "native_id (mc\<lparr>mc_uuid := u\<rparr>) fs = native_id mc fs" for u fs
    by (simp add: native_id_def read_windows_def read_macos_def)
  ultimately show ?thesis
    by (intro exI [of _ "py_strip r"] exI [of _ d]) (simp add: get_machine_id_hash_def read_raw_id_native seq_def ret_def)
next
  case False
  obtain raw d1 where f: "fallback_id mc d = (Inr raw, d1)" "on_file mc raw (dk_fs d1)" "desk_ok mc (dk_fs d1)"
    and kept: "\<And>q. q \<noteq> mc_cwd mc @ [''configs''] \<Longrightarrow> q \<noteq> FALLBACK_FILE mc \<Longrightarrow> node (dk_fs d1) q = node (dk_fs d) q"
    using fallback_kept [OF assms] by blast
  have etc: "node (dk_fs d1) [''etc'', ''machine-id''] = node (dk_fs d) [''etc'', ''machine-id'']"
    by (rule kept) (auto simp: FALLBACK_FILE_def Cons_eq_append_conv)
  have same: "native_id (mc\<lparr>mc_uuid := u\<rparr>) (dk_fs d1) = native_id mc (dk_fs d)" for u
    using native_reader [OF assms(1) f(3) etc] by (simp add: native_id_def read_windows_def read_macos_def)
  have "on_file (mc\<lparr>mc_uuid := u\<rparr>) raw (dk_fs d1)" for u using f(2) by (simp add: on_file_def FALLBACK_FILE_def)
  then have again: "read_raw_id (mc\<lparr>mc_uuid := u\<rparr>) d1 = (Inr raw, d1)" for u
    using False fallback_on_file by (auto simp: read_raw_id_native same split: option.split)
  have "read_raw_id mc d = (Inr raw, d1)" using False f(1) by (auto simp: read_raw_id_native split: option.split)
  with again f(2) show ?thesis
    by (intro exI [of _ raw] exI [of _ d1]) (simp add: get_machine_id_hash_def seq_def ret_def on_file_def)
qed

lemma sample_desk_ok: "desk_ok sample_machine (dk_fs sample_desk)"
  using canonical_Snoc [of "dk_fs sample_desk" "[]" "''app''"] canonical_Snoc [of "dk_fs sample_desk" "[]" "''etc''"]
  by (simp add: desk_ok_def sample_machine_def sample_desk_def node_def FALLBACK_FILE_def)

lemma machine_id_stable_witness:
  "\<exists>raw d1. raw \<noteq> [] \<and> get_machine_id_hash sample_machine sample_desk = (Inr (mc_sha256 sample_machine raw), d1) \<and>
    get_machine_id_hash (sample_machine\<lparr>mc_uuid := ''v-v''\<rparr>) d1 = (Inr (mc_sha256 sample_machine raw), d1)"
proof -
  have "py_strip (mc_uuid sample_machine) = mc_uuid sample_machine" "mc_uuid sample_machine \<noteq> []" by code_simp+
  from machine_id_stable [OF sample_desk_ok this] show ?thesis by blast
qed

text \<open>Where the directory of the fallback file cannot be made, there is no identity: the call raises.\<close>

lemma machine_id_raises:
  assumes "native_id mc (dk_fs d) = None" "mkdirs (dk_fs d) (butlast (FALLBACK_FILE mc)) = None"
  shows "get_machine_id_hash mc d = (Inl OsError, d)"
  using assms by (simp add: get_machine_id_hash_def read_raw_id_native fallback_id_def Let_def seq_def edit_def)

section \<open>An archive that was left behind\<close>

text \<open>
  An archive that a killed process left in the directory keeps the component from being installed: every later
  call returns at once, without downloading or extracting anything.
\<close>

lemma leftover_blocks:
  assumes "path_exists (dk_fs d) (target @ [path_name (path_of url)])"
  shows "download_component mc url target d = (Inr (), d)"
  using assms by (simp add: download_component_def Let_def seq_job ret_def)

end
