(* ===== verification/Onboarding.thy ===== *)
theory Onboarding
  imports Device Models
begin

text \<open>
  \<open>app/onboarding.py\<close>: registration of a device with the control plane.  A key is redeemed by a POST
  that is retried as long as the failure is transient; the answer carries the identity and, it may be, a
  configuration, which replaces the built-in one when it is valid.
\<close>

section \<open>Waiting\<close>

definition RETRY_MAX_ATTEMPTS :: nat where "RETRY_MAX_ATTEMPTS = 8"
definition RETRY_BACKOFF_BASE :: rat where "RETRY_BACKOFF_BASE = 2"
definition RETRY_BACKOFF_CAP :: rat where "RETRY_BACKOFF_CAP = 60"
definition RETRY_AFTER_HONOR_CAP :: rat where "RETRY_AFTER_HONOR_CAP = 300"

text \<open>
  \<open>float(s)\<close>, exactly: a decimal with an optional fraction and exponent, an infinity or NaN.  (The
  rounding to a double does not change the comparisons below.)
\<close>

definition dec_digits :: "string \<Rightarrow> nat option" where
  "dec_digits s = (if s = [] then Some 0 else digits_from 0 False s)"

definition signed :: "(string \<Rightarrow> 'a option) \<Rightarrow> ('a \<Rightarrow> 'a) \<Rightarrow> string \<Rightarrow> 'a option" where
  "signed read neg s =
     (case s of
        c # r \<Rightarrow> if c = CHR ''-'' then map_option neg (read r) else if c = CHR ''+'' then read r else read s
      | [] \<Rightarrow> read s)"

fun negate :: "pyfloat \<Rightarrow> pyfloat" where
  "negate (Fin q) = Fin (- q)"
| "negate PlusInf = MinusInf"
| "negate MinusInf = PlusInf"
| "negate NotANumber = NotANumber"

definition read_exponent :: "string \<Rightarrow> int option" where
  "read_exponent s = signed (\<lambda>r. map_option int (digits_from 0 False r)) uminus s"

definition scale10 :: "rat \<Rightarrow> int \<Rightarrow> rat" where
  "scale10 q e = (if 0 \<le> e then q * 10 ^ nat e else q / 10 ^ nat (- e))"

definition read_decimal :: "string \<Rightarrow> rat option" where
  "read_decimal s =
     (let m = takeWhile (\<lambda>c. c \<noteq> CHR ''e'') s; r = dropWhile (\<lambda>c. c \<noteq> CHR ''e'') s;
          i = takeWhile (\<lambda>c. c \<noteq> CHR ''.'') m; f = tl (dropWhile (\<lambda>c. c \<noteq> CHR ''.'') m) in
      case (dec_digits i, dec_digits f, if r = [] then Some 0 else read_exponent (tl r)) of
        (Some a, Some b, Some e) \<Rightarrow>
          if i = [] \<and> f = [] then None
          else Some (scale10 (of_nat a + of_nat b / 10 ^ length (filter is_digit f)) e)
      | _ \<Rightarrow> None)"

definition py_float :: "string \<Rightarrow> pyfloat option" where
  "py_float s =
     signed (\<lambda>u. if u \<in> {''inf'', ''infinity''} then Some PlusInf
                 else if u = ''nan'' then Some NotANumber else map_option Fin (read_decimal u))
       negate (py_lower (py_strip s))"

definition retry_backoff_seconds :: "machine \<Rightarrow> nat \<Rightarrow> rat" where
  "retry_backoff_seconds mc attempt =
     min RETRY_BACKOFF_CAP (RETRY_BACKOFF_BASE * 2 ^ (attempt - 1)) * mc_jitter mc attempt"

text \<open>\<open>min(secs, cap)\<close> is NaN for NaN.\<close>

definition retry_after_seconds :: "reply \<Rightarrow> pyfloat option" where
  "retry_after_seconds r =
     (case rp_retry_after r of
        None \<Rightarrow> None
      | Some raw \<Rightarrow>
          if raw = [] then None
          else (case py_float raw of
                  None \<Rightarrow> None
                | Some (Fin q) \<Rightarrow> if q < 0 then None else Some (Fin (min q RETRY_AFTER_HONOR_CAP))
                | Some PlusInf \<Rightarrow> Some (Fin RETRY_AFTER_HONOR_CAP)
                | Some MinusInf \<Rightarrow> None
                | Some NotANumber \<Rightarrow> Some NotANumber))"

text \<open>\<open>time.sleep\<close> raises for NaN.\<close>

fun sleep :: "pyfloat \<Rightarrow> unit job" where
  "sleep (Fin q) d = (Inr (), d\<lparr>dk_slept := dk_slept d @ [q]\<rparr>)"
| "sleep _ d = (Inl ValueError, d)"

section \<open>Requests\<close>

definition post :: "machine \<Rightarrow> request \<Rightarrow> reply option job" where
  "post mc rq d = (Inr (mc_post mc (length (dk_sent d)) rq), d\<lparr>dk_sent := dk_sent d @ [rq]\<rparr>)"

definition transient :: "int \<Rightarrow> bool" where
  "transient status = (status = 429 \<or> (500 \<le> status \<and> status < 600))"

text \<open>The attempts from the given one on, as many as are left.\<close>

fun request_tries :: "machine \<Rightarrow> request \<Rightarrow> nat \<Rightarrow> nat \<Rightarrow> reply job" where
  "request_tries mc rq attempt 0 = raise Exhausted"
| "request_tries mc rq attempt (Suc left) =
     seq (post mc rq) (\<lambda>r.
     (case r of
        None \<Rightarrow>
          if left = 0 then raise Exhausted
          else seq (sleep (Fin (retry_backoff_seconds mc attempt))) (\<lambda>_. request_tries mc rq (Suc attempt) left)
      | Some resp \<Rightarrow>
          if transient (rp_status resp) then
            if left = 0 then raise Exhausted
            else seq (sleep (case retry_after_seconds resp of
                               Some w \<Rightarrow> w | None \<Rightarrow> Fin (retry_backoff_seconds mc attempt)))
                   (\<lambda>_. request_tries mc rq (Suc attempt) left)
          else if 400 \<le> rp_status resp then raise (RequestRejected (rp_status resp))
          else ret resp))"

definition request_with_retry :: "machine \<Rightarrow> request \<Rightarrow> reply job" where
  "request_with_retry mc rq = request_tries mc rq 1 RETRY_MAX_ATTEMPTS"

definition redeem_payload :: "machine \<Rightarrow> string \<Rightarrow> jdict \<Rightarrow> json option \<Rightarrow> jdict" where
  "redeem_payload mc hash extra version =
     (let p = [(''machine_id_hash'', JStr hash), (''os'', JStr (mc_system mc)), (''arch'', JStr (mc_machine mc)),
               (''hostname'', JStr (mc_node mc))];
          q = fold (\<lambda>(k, v). AList.update k v) extra p in
      case version of None \<Rightarrow> q | Some v \<Rightarrow> if truthy v then AList.update ''agent_version'' v q else q)"

definition redeem_device_key :: "machine \<Rightarrow> string \<Rightarrow> string \<Rightarrow> jdict \<Rightarrow> (jdict \<times> json \<times> json) job" where
  "redeem_device_key mc endpoint bearer extra =
     seq (get_machine_id_hash mc) (\<lambda>hash.
     seq (resolve_agent_version mc) (\<lambda>version.
     seq (request_with_retry mc \<lparr>rq_url = endpoint, rq_payload = redeem_payload mc hash extra version, rq_bearer = bearer\<rparr>) (\<lambda>resp.
     (case rp_json resp of
        Some (JObj data) \<Rightarrow>
          if truthy (dget data ''device_id'') \<and> truthy (dget data ''api_key'')
          then ret (data, dget data ''device_id'', dget data ''api_key'') else raise BadResponse
      | _ \<Rightarrow> raise BadResponse))))"

section \<open>The configuration\<close>

definition device_url :: "string \<Rightarrow> json \<Rightarrow> string \<Rightarrow> string" where
  "device_url url did tail = url @ ''/agent/'' @ py_str did @ tail"

abbreviation generic :: "string \<Rightarrow> jdict \<Rightarrow> generic_config" where
  "generic t args \<equiv> \<lparr>gc_type = t, gc_args = args\<rparr>"

definition identity_fields :: "json \<Rightarrow> json \<Rightarrow> json \<Rightarrow> string \<Rightarrow> json" where
  "identity_fields did name key url =
     JObj [(''device_id'', did), (''device_name'', name), (''api_key'', key), (''api_url'', JStr url)]"

definition bootstrap_pipelines :: "json \<Rightarrow> json \<Rightarrow> string \<Rightarrow> pipeline_config list" where
  "bootstrap_pipelines did key url =
     [\<lparr>pc_id = ''command_center'', pc_active = True,
       pc_source = generic ''http_poll'' [(''url'', JStr (device_url url did ''/commands'')), (''api_key'', key), (''interval'', JInt 10)],
       pc_sink = Some (generic ''command'' [])\<rparr>,
      \<lparr>pc_id = ''system_metrics'', pc_active = True,
       pc_source = generic ''system_monitor'' [(''interval'', JInt 5),
         (''metrics'', JArr [JStr ''cpu_usage'', JStr ''ram_usage'', JStr ''temperature_celsius'', JStr ''storage_available_gb''])],
       pc_sink = Some (generic ''http_post'' [(''url'', JStr (device_url url did ''/metrics'')), (''api_key'', key), (''timeout'', JInt 30)])\<rparr>]"

text \<open>Constructing \<open>IdentityConfig\<close> raises when a field has another type.\<close>

definition bootstrap_config :: "json \<Rightarrow> json \<Rightarrow> json \<Rightarrow> string \<Rightarrow> agent_config option" where
  "bootstrap_config did name key url =
     (case parse_identity (identity_fields did name key url) of
        None \<Rightarrow> None
      | Some i \<Rightarrow>
          Some \<lparr>ac_version = SCHEMA_VERSION, ac_identity = i,
                ac_transport = Some \<lparr>tc_type = TransportHttp, tc_args = []\<rparr>,
                ac_logging = \<lparr>lc_level = INFO, lc_handlers =
                  [generic ''console'' [], generic ''http'' [(''url'', JStr (device_url url did ''/logs''))]]\<rparr>,
                ac_reporting = \<lparr>rc_interval = 30, rc_handlers =
                  [generic ''console'' [],
                   generic ''http'' [(''lifecycle_status'', JStr (device_url url did ''/status'')),
                     (''command_status'', JStr (device_url url did ''/commands/{cid}/status'')),
                     (''model_status'', JStr (device_url url did ''/models/{mid}/status''))]]\<rparr>,
                ac_pipelines = bootstrap_pipelines did key url\<rparr>)"

definition apply_server_config :: "pydantic \<Rightarrow> json \<Rightarrow> json \<Rightarrow> json \<Rightarrow> json \<Rightarrow> string \<Rightarrow> agent_config option" where
  "apply_server_config pd raw did name key url =
     (case raw of
        JObj r \<Rightarrow>
          if \<not> py_eq (dget r ''version'') (JFloat SCHEMA_VERSION) then None
          else
            (let context = [(''identity'', identity_fields did name key url), (''api_url'', JStr url)] in
             case resolve_templates context raw of
               JObj resolved \<Rightarrow> parse_agent_config pd (JObj (AList.update ''identity'' (identity_fields did name key url) resolved))
             | _ \<Rightarrow> None)
      | _ \<Rightarrow> None)"

definition resolve_agent_config :: "pydantic \<Rightarrow> json \<Rightarrow> json \<Rightarrow> json \<Rightarrow> json \<Rightarrow> string \<Rightarrow> agent_config option" where
  "resolve_agent_config pd server did name key url =
     (if server = JNull then bootstrap_config did name key url
      else (case apply_server_config pd server did name key url of
              Some c \<Rightarrow> Some c
            | None \<Rightarrow> bootstrap_config did name key url))"

fun config_or_raise :: "agent_config option \<Rightarrow> agent_config job" where
  "config_or_raise None = raise ConfigError"
| "config_or_raise (Some c) = ret c"

section \<open>Registration\<close>

definition resolve_fleet_key :: "machine \<Rightarrow> string \<Rightarrow> string job" where
  "resolve_fleet_key mc value =
     (if \<not> startswith value ''file:'' then ret value
      else
        let s = drop (length ''file:'') value;
            p = (if path_root s = [] then mc_cwd mc @ path_parts s else path_parts s) in
        seq (look (\<lambda>fs. read_text fs p)) (\<lambda>c.
        (case c of
           None \<Rightarrow> raise KeyFileError
         | Some t \<Rightarrow> if py_strip t = [] then raise KeyFileError else ret (py_strip t))))"

definition FLEET_MARKER :: "machine \<Rightarrow> apath" where
  "FLEET_MARKER mc = mc_cwd mc @ [''configs'', ''.fleet_device'']"

definition write_fleet_marker :: "machine \<Rightarrow> json \<Rightarrow> unit job" where
  "write_fleet_marker mc did =
     swallow (seq (edit (\<lambda>fs. mkdirs fs (butlast (FLEET_MARKER mc)))) (\<lambda>_.
       edit (\<lambda>fs. write_text fs (FLEET_MARKER mc)
         (mc_dumps mc (JObj [(''enrolled_at'', JStr (mc_now mc)), (''device_id'', JStr (py_str did))])))))"

definition py_or :: "json \<Rightarrow> json \<Rightarrow> json" where
  "py_or a b = (if truthy a then a else b)"

definition enroll_device :: "machine \<Rightarrow> pydantic \<Rightarrow> string \<Rightarrow> string \<Rightarrow> agent_config job" where
  "enroll_device mc pd fleet_key url =
     seq (resolve_fleet_key mc fleet_key) (\<lambda>key.
     seq (redeem_device_key mc (url @ ''/devices/enroll'') key []) (\<lambda>(data, did, api).
     let name = py_or (dget data ''device_name'') did in
     seq (write_fleet_marker mc did) (\<lambda>_.
     config_or_raise (resolve_agent_config pd (dget data ''config'') did name api url))))"

definition default_device_name :: "machine \<Rightarrow> string" where
  "default_device_name mc = (case mc_user mc of None \<Rightarrow> mc_node mc | Some u \<Rightarrow> u @ ''@'' @ mc_node mc)"

definition register_with_key :: "machine \<Rightarrow> pydantic \<Rightarrow> string \<Rightarrow> string \<Rightarrow> agent_config job" where
  "register_with_key mc pd reg_key url =
     seq (redeem_device_key mc (url @ ''/devices/headless/register-with-reg-key'') reg_key
       [(''device_name'', JStr (default_device_name mc)), (''device_type'', JStr ''other'')]) (\<lambda>(data, did, api).
     let name = py_or (py_or (dget data ''device_name'') (JStr (mc_node mc))) did in
     config_or_raise (resolve_agent_config pd (dget data ''config'') did name api url))"

section \<open>Retries\<close>

definition honest_jitter :: "machine \<Rightarrow> bool" where
  "honest_jitter mc \<longleftrightarrow> (\<forall>n. 0 \<le> mc_jitter mc n \<and> mc_jitter mc n \<le> 1)"

lemma backoff_bounds:
  assumes "honest_jitter mc"
  shows "0 \<le> retry_backoff_seconds mc n" "retry_backoff_seconds mc n \<le> 60"
proof -
  let ?c = "min RETRY_BACKOFF_CAP (RETRY_BACKOFF_BASE * 2 ^ (n - 1))"
  have c: "0 \<le> ?c" "?c \<le> 60" by (simp_all add: RETRY_BACKOFF_CAP_def RETRY_BACKOFF_BASE_def)
  have j: "0 \<le> mc_jitter mc n" "mc_jitter mc n \<le> 1" using assms by (auto simp: honest_jitter_def)
  show "0 \<le> retry_backoff_seconds mc n" using c(1) j(1) by (simp add: retry_backoff_seconds_def)
  show "retry_backoff_seconds mc n \<le> 60"
    using mult_mono [OF c(2) j(2)] c(1) j(1) by (simp add: retry_backoff_seconds_def)
qed

lemma retry_after_bounds: "retry_after_seconds r = Some (Fin q) \<Longrightarrow> 0 \<le> q \<and> q \<le> 300"
  by (auto simp: retry_after_seconds_def RETRY_AFTER_HONOR_CAP_def split: option.splits if_splits pyfloat.splits)

text \<open>A wait before the next attempt, or the end of the loop because it cannot be waited.\<close>

definition waits :: "machine \<Rightarrow> reply option \<Rightarrow> nat \<Rightarrow> pyfloat" where
  "waits mc r attempt =
     (case r of
        None \<Rightarrow> Fin (retry_backoff_seconds mc attempt)
      | Some resp \<Rightarrow> (case retry_after_seconds resp of Some w \<Rightarrow> w | None \<Rightarrow> Fin (retry_backoff_seconds mc attempt)))"

lemma waits_bounds: "honest_jitter mc \<Longrightarrow> waits mc r n = Fin q \<Longrightarrow> 0 \<le> q \<and> q \<le> 300"
  using backoff_bounds [of mc n] by (auto simp: waits_def dest: retry_after_bounds split: option.splits)

definition try_again :: "reply option \<Rightarrow> bool" where
  "try_again r = (case r of None \<Rightarrow> True | Some resp \<Rightarrow> transient (rp_status resp))"

lemma request_tries_step:
  "request_tries mc rq attempt (Suc left) d =
     (let r = mc_post mc (length (dk_sent d)) rq; d1 = d\<lparr>dk_sent := dk_sent d @ [rq]\<rparr> in
      if try_again r then
        (if left = 0 then (Inl Exhausted, d1)
         else seq (sleep (waits mc r attempt)) (\<lambda>_. request_tries mc rq (Suc attempt) left) d1)
      else if 400 \<le> rp_status (the r) then (Inl (RequestRejected (rp_status (the r))), d1) else (Inr (the r), d1))"
  by (auto simp: seq_def [of "post mc rq"] post_def try_again_def waits_def raise_def ret_def Let_def split: option.split)

lemma seq_sleep:
  "seq (sleep w) k d = (case w of Fin q \<Rightarrow> k () (d\<lparr>dk_slept := dk_slept d @ [q]\<rparr>) | _ \<Rightarrow> (Inl ValueError, d))"
  by (cases w) (simp_all add: seq_def)

text \<open>The attempts that were made, and what each was answered.\<close>

definition attempts_made :: "machine \<Rightarrow> request \<Rightarrow> nat \<Rightarrow> desk \<Rightarrow> (cli_error + reply) \<times> desk \<Rightarrow> bool" where
  "attempts_made mc rq n d out \<longleftrightarrow>
     dk_sent (snd out) = dk_sent d @ replicate n rq \<and> dk_fs (snd out) = dk_fs d \<and>
     (\<exists>ws. dk_slept (snd out) = dk_slept d @ ws \<and> length ws = n - 1 \<and> (\<forall>w \<in> set ws. 0 \<le> w \<and> w \<le> 300)) \<and>
     (\<forall>k < n - 1. try_again (mc_post mc (length (dk_sent d) + k) rq)) \<and>
     (\<forall>resp. fst out = Inr resp \<longleftrightarrow>
        mc_post mc (length (dk_sent d) + (n - 1)) rq = Some resp \<and> \<not> transient (rp_status resp) \<and> rp_status resp < 400)"

lemma attempts_made_more:
  assumes first: "try_again (mc_post mc (length (dk_sent d)) rq)" "0 \<le> w" "w \<le> 300"
    and rest: "attempts_made mc rq n (d\<lparr>dk_sent := dk_sent d @ [rq], dk_slept := dk_slept d @ [w]\<rparr>) out" "0 < n"
  shows "attempts_made mc rq (Suc n) d out"
proof -
  let ?d1 = "d\<lparr>dk_sent := dk_sent d @ [rq], dk_slept := dk_slept d @ [w]\<rparr>"
  obtain ws where ws: "dk_slept (snd out) = dk_slept d @ w # ws" "length (w # ws) = n" "\<forall>v \<in> set (w # ws). 0 \<le> v \<and> v \<le> 300"
    using rest first by (auto simp: attempts_made_def)
  have k: "try_again (mc_post mc (length (dk_sent d) + k) rq)" if "k < n" for k
  proof (cases k)
    case (Suc j)
    then have "j < n - 1" using that by simp
    with rest Suc show ?thesis by (auto simp: attempts_made_def)
  qed (use first in simp)
  have "length (dk_sent ?d1) + (n - 1) = length (dk_sent d) + n" using rest(2) by simp
  with rest k show ?thesis unfolding attempts_made_def
    by (auto intro!: exI [of _ "w # ws"] simp: ws(1) ws(2) [simplified] ws(3) [simplified])
qed

lemma request_tries_attempts:
  assumes "honest_jitter mc" "0 < left"
  shows "\<exists>n. 0 < n \<and> n \<le> left \<and> attempts_made mc rq n d (request_tries mc rq attempt left d)"
  using assms(2)
proof (induction left arbitrary: attempt d)
  case (Suc left)
  define r where "r = mc_post mc (length (dk_sent d)) rq"
  define d1 where "d1 = d\<lparr>dk_sent := dk_sent d @ [rq]\<rparr>"
  note step = request_tries_step [of mc rq attempt left d, folded r_def d1_def]
  show ?case
  proof (cases "try_again r \<and> left \<noteq> 0 \<and> (\<exists>w. waits mc r attempt = Fin w)")
    case True
    then obtain w where w: "waits mc r attempt = Fin w" by blast
    let ?d2 = "d\<lparr>dk_sent := dk_sent d @ [rq], dk_slept := dk_slept d @ [w]\<rparr>"
    have eq: "request_tries mc rq attempt (Suc left) d = request_tries mc rq (Suc attempt) left ?d2"
      using True w step by (simp add: seq_sleep d1_def)
    from Suc.IH [of ?d2 "Suc attempt"] True obtain n where n: "0 < n" "n \<le> left"
      "attempts_made mc rq n ?d2 (request_tries mc rq (Suc attempt) left ?d2)" by blast
    from attempts_made_more [OF _ _ _ n(3,1)] True waits_bounds [OF assms(1) w] r_def
    have "attempts_made mc rq (Suc n) d (request_tries mc rq attempt (Suc left) d)" unfolding eq by blast
    with n(2) show ?thesis by (intro exI [of _ "Suc n"]) simp
  next
    case False
    then have "attempts_made mc rq 1 d (request_tries mc rq attempt (Suc left) d)"
      unfolding step Let_def attempts_made_def
      by (cases "waits mc r attempt"; cases r) (auto simp: r_def [symmetric] d1_def seq_sleep try_again_def)
    then show ?thesis by (intro exI [of _ 1]) simp
  qed
qed simp


text \<open>The server is overloaded once, asks for a wait of thirty years, and then answers.\<close>

definition sample_registrar :: machine where
  "sample_registrar = sample_machine\<lparr>mc_post := (\<lambda>n rq.
     if n = 0 then Some \<lparr>rp_status = 503, rp_retry_after = Some ''1e9'', rp_json = None\<rparr>
     else Some \<lparr>rp_status = 201, rp_retry_after = None,
                rp_json = Some (JObj [(''device_id'', JStr ''d7''), (''api_key'', JStr ''k'')])\<rparr>)\<rparr>"

abbreviation sample_request :: request where
  "sample_request \<equiv> \<lparr>rq_url = ''u'', rq_payload = [], rq_bearer = ''b''\<rparr>"

lemma sample_jitter: "honest_jitter sample_registrar"
  by (simp add: honest_jitter_def sample_registrar_def sample_machine_def)


text \<open>
  A \<open>Retry-After\<close> of NaN is neither negative nor above the cap, and \<open>time.sleep\<close> raises for it: the retries
  end at once with a \<open>ValueError\<close>.
\<close>

lemma nan_retry_after:
  assumes "mc_post mc (length (dk_sent d)) rq = Some r" "transient (rp_status r)" "rp_retry_after r = Some ''nan''"
  shows "request_with_retry mc rq d = (Inl ValueError, d\<lparr>dk_sent := dk_sent d @ [rq]\<rparr>)"
proof -
  have "retry_after_seconds r = Some NotANumber"
    using assms(3) by (simp add: retry_after_seconds_def) code_simp
  with assms show ?thesis
    by (simp add: request_with_retry_def RETRY_MAX_ATTEMPTS_def eval_nat_numeral request_tries_step waits_def try_again_def
        seq_sleep Let_def del: request_tries.simps)
qed

section \<open>Identity\<close>

lemma parse_identity_fields:
  "parse_identity (identity_fields (JStr i) (JStr n) (JStr k) url) =
     Some \<lparr>device_id = i, device_name = n, api_url = Some url, api_key = Some k\<rparr>"
  by (simp add: parse_identity_def identity_fields_def model_fields)

lemma parse_agent_identity:
  assumes "parse_agent_config pd (JObj d) = Some c" "map_of d ''identity'' = Some j"
  shows "parse_identity j = Some (ac_identity c)"
  using assms by (auto simp: parse_agent_config_def model_fields split: bind_splits option.splits)

lemma apply_server_identity:
  assumes "apply_server_config pd raw (JStr i) (JStr n) (JStr k) url = Some c"
  shows "ac_identity c = \<lparr>device_id = i, device_name = n, api_url = Some url, api_key = Some k\<rparr>"
proof -
  obtain resolved where "parse_agent_config pd
      (JObj (AList.update ''identity'' (identity_fields (JStr i) (JStr n) (JStr k) url) resolved)) = Some c"
    using assms by (auto simp: apply_server_config_def Let_def split: json.splits if_splits)
  from parse_agent_identity [OF this] show ?thesis
    by (simp add: update_conv' parse_identity_fields)
qed

lemma bootstrap_identity:
  "\<exists>c. bootstrap_config (JStr i) (JStr n) (JStr k) url = Some c \<and>
     ac_identity c = \<lparr>device_id = i, device_name = n, api_url = Some url, api_key = Some k\<rparr>"
  by (simp add: bootstrap_config_def parse_identity_fields)

text \<open>What onboarding returns is a configuration the agent can store and read back.\<close>

lemma py_eq_schema: "py_eq j (JFloat SCHEMA_VERSION) \<Longrightarrow> j = JFloat SCHEMA_VERSION"
  by (cases j) (auto simp: num_eq_def float_eq_def int_eq_float_def SCHEMA_VERSION_def doubleton_eq_iff split: if_splits)

lemma apply_server_ok:
  assumes "pydantic_ok pd" "apply_server_config pd raw did name key url = Some c"
  shows "ac_version c = SCHEMA_VERSION \<and> wf_agent_config c"
proof -
  obtain r ctx where r: "raw = JObj r" "dget r ''version'' = JFloat SCHEMA_VERSION"
    "parse_agent_config pd (JObj (AList.update ''identity'' (identity_fields did name key url)
       (map (\<lambda>(k, v). (k, resolve_templates ctx v)) r))) = Some c"
    using assms(2) by (auto simp: apply_server_config_def Let_def dest: py_eq_schema split: json.splits if_splits)
  from r(2) have "map_of r ''version'' = Some (JFloat SCHEMA_VERSION)" by (auto simp: dget_def split: option.splits)
  then have "map_of (AList.update ''identity'' (identity_fields did name key url)
      (map (\<lambda>(k, v). (k, resolve_templates ctx v)) r)) ''version'' = Some (JFloat SCHEMA_VERSION)"
    by (simp add: update_conv' map_of_map)
  with r(3) assms(1) have "ac_version c = SCHEMA_VERSION"
    by (auto simp: parse_agent_config_def model_fields pydantic_okD split: bind_splits option.splits)
  with parse_agent_config_wf [OF r(3)] show ?thesis by simp
qed

lemma resolve_agent_config_ok:
  assumes "pydantic_ok pd" "resolve_agent_config pd server did name key url = Some c"
  shows "ac_version c = SCHEMA_VERSION \<and> wf_agent_config c"
  using assms(2) apply_server_ok [OF assms(1)]
  by (auto simp: resolve_agent_config_def bootstrap_config_def wf_agent_config_def split: if_splits option.splits)

lemma config_or_raise_ok:
  assumes "config_or_raise x d = (Inr c, d')" shows "x = Some c \<and> d' = d"
  using assms by (cases x) (auto simp: raise_def ret_def)

lemma enroll_device_ok:
  assumes "pydantic_ok pd" "enroll_device mc pd key url d = (Inr c, d')"
  shows "ac_version c = SCHEMA_VERSION \<and> wf_agent_config c"
  using assms(2) resolve_agent_config_ok [OF assms(1)] unfolding enroll_device_def
  by (elim seqE; clarsimp simp: Let_def split: prod.splits; elim seqE) (auto dest: config_or_raise_ok)

lemma register_with_key_ok:
  assumes "pydantic_ok pd" "register_with_key mc pd key url d = (Inr c, d')"
  shows "ac_version c = SCHEMA_VERSION \<and> wf_agent_config c"
  using assms(2) resolve_agent_config_ok [OF assms(1)] unfolding register_with_key_def
  by (elim seqE) (auto simp: Let_def dest: config_or_raise_ok split: prod.splits)

text \<open>
  C13. Registration succeeds whatever configuration the control plane sends, and the device is who
  the control plane said it is: for any JSON value as the server's configuration, templates and
  an identity of its own included, the resulting configuration has exactly the issued id, name,
  key and the URL in use; it is the server's when that is valid and the built-in one otherwise.
\<close>

theorem onboarding_identity:
  "\<exists>c. resolve_agent_config pd server (JStr i) (JStr n) (JStr k) url = Some c \<and>
     ac_identity c = \<lparr>device_id = i, device_name = n, api_url = Some url, api_key = Some k\<rparr> \<and>
     Some c = (case apply_server_config pd server (JStr i) (JStr n) (JStr k) url of
                 Some s \<Rightarrow> Some s | None \<Rightarrow> bootstrap_config (JStr i) (JStr n) (JStr k) url)"
proof (cases "apply_server_config pd server (JStr i) (JStr n) (JStr k) url")
  case None
  with bootstrap_identity [of i n k url] show ?thesis by (auto simp: resolve_agent_config_def)
next
  case (Some s)
  then have "server \<noteq> JNull" by (auto simp: apply_server_config_def)
  with Some apply_server_identity [OF Some] show ?thesis by (simp add: resolve_agent_config_def)
qed

section \<open>The built-in configuration\<close>

text \<open>The names under which the components of the core register.\<close>

definition CORE_COMPONENTS :: "string list" where
  "CORE_COMPONENTS = [''clock_tick'', ''random_gen'', ''console'', ''http_poll'', ''http_post'', ''system_monitor'',
     ''zenoh_pub'', ''zenoh_sub'', ''command'']"

definition component_types :: "agent_config \<Rightarrow> string list" where
  "component_types c =
     concat (map (\<lambda>p. gc_type (pc_source p) # (case pc_sink p of None \<Rightarrow> [] | Some k \<Rightarrow> [gc_type k])) (ac_pipelines c))"



section \<open>The marker of a fleet device\<close>

definition marker_ok :: "machine \<Rightarrow> fs \<Rightarrow> bool" where
  "marker_ok mc fs \<longleftrightarrow> desk_ok mc fs \<and> (node fs (FLEET_MARKER mc) = None \<or> is_file_entry (node fs (FLEET_MARKER mc)))"

abbreviation on_desk :: "(fs \<Rightarrow> bool) \<Rightarrow> desk \<Rightarrow> bool" where
  "on_desk P d \<equiv> P (dk_fs d)"

lemma machine_id_marker:
  assumes "py_strip (mc_uuid mc) = mc_uuid mc" "mc_uuid mc \<noteq> []"
  shows "triple (on_desk (marker_ok mc)) (get_machine_id_hash mc) (\<lambda>_. True)"
proof -
  have "marker_ok mc (dk_fs (snd (fallback_id mc d)))" if ok: "marker_ok mc (dk_fs d)" for d
  proof -
    have "desk_ok mc (dk_fs d)" using ok by (simp add: marker_ok_def)
    from fallback_kept [OF this assms] obtain raw d1 where f: "fallback_id mc d = (Inr raw, d1)" "desk_ok mc (dk_fs d1)"
      "\<And>q. q \<noteq> mc_cwd mc @ [''configs''] \<Longrightarrow> q \<noteq> FALLBACK_FILE mc \<Longrightarrow> node (dk_fs d1) q = node (dk_fs d) q" by blast
    have "FLEET_MARKER mc \<noteq> mc_cwd mc @ [''configs'']" "FLEET_MARKER mc \<noteq> FALLBACK_FILE mc"
      by (simp_all add: FLEET_MARKER_def FALLBACK_FILE_def)
    with f ok show ?thesis by (simp add: marker_ok_def)
  qed
  then have "triple (on_desk (marker_ok mc)) (read_raw_id mc) (\<lambda>_. True)"
    by (auto simp: triple_def read_raw_id_native split: option.splits)
  then show ?thesis unfolding get_machine_id_hash_def by (rule triple_seq) (simp add: triple_ret)
qed

lemma sleep_triple: "triple (on_desk P) (sleep w) (\<lambda>_. True)"
  by (cases w) (simp_all add: triple_def)

lemma post_triple: "triple (on_desk P) (post mc rq) (\<lambda>_. True)"
  by (simp add: triple_def post_def)

lemma request_tries_triple: "triple (on_desk P) (request_tries mc rq attempt left) (\<lambda>_. True)"
proof (induction left arbitrary: attempt)
  case (Suc left)
  show ?case
    unfolding request_tries.simps
    by (rule triple_seq [OF post_triple])
      (auto intro!: triple_ret triple_raise triple_seq [OF sleep_triple] Suc split: option.split)
qed (simp add: triple_raise)

lemma resolve_agent_version_triple: "triple (on_desk P) (resolve_agent_version mc) (\<lambda>_. True)"
  by (auto simp: triple_def resolve_agent_version_def split: option.splits)

lemma redeem_marker:
  assumes "py_strip (mc_uuid mc) = mc_uuid mc" "mc_uuid mc \<noteq> []"
  shows "triple (on_desk (marker_ok mc)) (redeem_device_key mc endpoint bearer extra) (\<lambda>_. True)"
  unfolding redeem_device_key_def request_with_retry_def
  by (rule triple_seq [OF machine_id_marker [OF assms] triple_seq [OF resolve_agent_version_triple triple_seq [OF request_tries_triple]]])
    (auto intro!: triple_ret triple_raise split: option.split json.split)

lemma fleet_marker_written:
  assumes "marker_ok mc (dk_fs d)"
  shows "path_exists (dk_fs (snd (write_fleet_marker mc did d))) (FLEET_MARKER mc)"
proof -
  let ?m = "FLEET_MARKER mc"
  have ok: "desk_ok mc (dk_fs d)" using assms by (simp add: marker_ok_def)
  obtain fs1 where mk: "mkdirs (dk_fs d) (butlast (FALLBACK_FILE mc)) = Some fs1" and can: "canonical fs1 (mc_cwd mc @ [''configs''])"
    and same: "\<And>q. q \<noteq> mc_cwd mc @ [''configs''] \<Longrightarrow> node fs1 q = node (dk_fs d) q" using configs_made [OF ok] by blast
  have b: "butlast ?m = butlast (FALLBACK_FILE mc)" "?m = (mc_cwd mc @ [''configs'']) @ [''.fleet_device'']" "?m \<noteq> []"
    by (simp_all add: FLEET_MARKER_def FALLBACK_FILE_def butlast_append)
  have "node fs1 ?m = None \<or> is_file_entry (node fs1 ?m)" using assms same [of ?m] by (simp add: marker_ok_def b(2))
  then have n: "\<not> is_link_entry (node fs1 ?m)" "\<not> is_dir_entry (node fs1 ?m)"
    by (cases "node fs1 ?m" rule: is_file_entry.cases; simp)+
  have w: "write_text fs1 ?m s = Some (put ?m (EFile s) fs1)" for s
    using realpath_plain [OF can, of "''.fleet_device''"] n canonical_node [OF can] b by (simp add: write_text_def FLEET_MARKER_def butlast_append)
  have can2: "canonical (put ?m e fs1) (mc_cwd mc @ [''configs''])" for e
    by (rule canonical_put [OF can _ b(3)]) (auto simp: b(2) dest: prefix_length_le)
  have "stat (put ?m (EFile s) fs1) ?m = Some (EFile s)" for s
    using stat_plain [OF can2, of "''.fleet_device''" "EFile s"] by (simp add: b(2) [symmetric] node_put b(3)) (simp add: node_put b(2))
  then show ?thesis
    using mk b(1) w by (simp add: write_fleet_marker_def swallow_def seq_edit edit_def path_exists_def)
qed

lemma enroll_marks:
  assumes "marker_ok mc (dk_fs d)" "py_strip (mc_uuid mc) = mc_uuid mc" "mc_uuid mc \<noteq> []"
    and run: "enroll_device mc pd key url d = (Inr cfg, d')"
  shows "path_exists (dk_fs d') (FLEET_MARKER mc)"
  using run [unfolded enroll_device_def]
proof (cases rule: seqE)
  case (both k d1)
  have k: "dk_fs d1 = dk_fs d"
    using both(1) by (auto simp: resolve_fleet_key_def Let_def seq_look ret_def raise_def split: if_splits option.splits)
  from both(2) show ?thesis
  proof (cases rule: seqE)
    case (both x d2)
    obtain data did api where x: "x = (data, did, api)" by (cases x)
    have "marker_ok mc (dk_fs d2)" using triple_use [OF redeem_marker [OF assms(2,3)] _ both(1)] assms(1) k by simp
    from fleet_marker_written [OF this, of did] both(2) show ?thesis
      by (auto simp: x Let_def write_fleet_marker_def seq_swallow dest!: config_or_raise_ok) (simp add: swallow_def)
  qed simp
qed simp

end
