(* ===== verification/Cli.thy ===== *)
theory Cli
  imports Onboarding Recovery Bundle
begin

text \<open>
  \<open>main.py\<close>: the commands of the agent's program.  \<open>run\<close> finds out who the device is (a given
  configuration, the latest session, a key, the factory defaults) and starts the runtime;
  \<open>register\<close> onboards and exits; \<open>status\<close>, \<open>update\<close> and \<open>self-check\<close> look at an installation (\<open>reset\<close> is in
  \<open>Reset\<close>).  An error of a command is the exit code of the process.
\<close>

section \<open>State\<close>

record cli =
  cl_desk :: desk
  cl_sm :: state_manager

type_synonym 'a command = "(cli, int, 'a) stm"

record run_args =
  ra_config :: "string option"
  ra_registration_key :: "string option"
  ra_fleet_key :: "string option"
  ra_api_url :: "string option"

text \<open>\<open>if x\<close> on an optional string, and \<open>x or y\<close>.\<close>

definition given :: "string option \<Rightarrow> bool" where
  "given x = (case x of Some (c # s) \<Rightarrow> True | _ \<Rightarrow> False)"

definition given_or :: "string option \<Rightarrow> string option \<Rightarrow> string option" where
  "given_or x y = (if given x then x else y)"

definition DEFAULT_API_URL :: "machine \<Rightarrow> string" where
  "DEFAULT_API_URL mc = (case mc_env mc ''LOCAI_API_URL'' of Some (c # s) \<Rightarrow> c # s | _ \<Rightarrow> ''https://api.locai.co.uk/api/v1'')"

definition api_url_of :: "machine \<Rightarrow> string option \<Rightarrow> string" where
  "api_url_of mc x = (case x of Some (c # s) \<Rightarrow> c # s | _ \<Rightarrow> DEFAULT_API_URL mc)"

text \<open>\<open>except Exception: sys.exit(code)\<close> around a job.\<close>

definition or_exit :: "int \<Rightarrow> 'a job \<Rightarrow> 'a command" where
  "or_exit code m c =
     (case m (cl_desk c) of
        (Inl e, d) \<Rightarrow> (Inl code, c\<lparr>cl_desk := d\<rparr>)
      | (Inr x, d) \<Rightarrow> (Inr x, c\<lparr>cl_desk := d\<rparr>))"

definition load_saved :: "sm_io \<Rightarrow> string option \<Rightarrow> jdict option command" where
  "load_saved io path c = (case load_state io path (cl_sm c) of (r, sm) \<Rightarrow> (Inr r, c\<lparr>cl_sm := sm\<rparr>))"

definition boot :: "sm_io \<Rightarrow> string \<Rightarrow> agent_config \<Rightarrow> agent_config command" where
  "boot io t cfg c = (Inr cfg, c\<lparr>cl_sm := bootstrap io t cfg (cl_sm c)\<rparr>)"

section \<open>Who the device is\<close>

definition config_file :: "machine \<Rightarrow> string \<Rightarrow> ppath" where
  "config_file mc arg = path_append (''/'', mc_cwd mc) arg"

text \<open>The session files are named relative to the working directory.\<close>

definition session_key :: "machine \<Rightarrow> ppath \<Rightarrow> string" where
  "session_key mc p =
     (if prefix (mc_cwd mc) (snd p) then intercalate ''/'' (drop (length (mc_cwd mc)) (snd p))
      else ''/'' @ intercalate ''/'' (snd p))"

definition read_config :: "machine \<Rightarrow> pydantic \<Rightarrow> apath \<Rightarrow> agent_config command" where
  "read_config mc pd p c =
     (case load_config pd (map_option (mc_loads mc) (read_text (dk_fs (cl_desk c)) p)) of
        Inl _ \<Rightarrow> (Inl 1, c)
      | Inr cfg \<Rightarrow> (Inr cfg, c))"

definition from_cli :: "machine \<Rightarrow> pydantic \<Rightarrow> sm_io \<Rightarrow> string \<Rightarrow> string \<Rightarrow> agent_config command" where
  "from_cli mc pd io t arg =
     (let p = config_file mc arg in
      if startswith (path_name p) ''session_'' then
        seq (load_saved io (Some (session_key mc p))) (\<lambda>s.
        (case s of
           Some (kv # d) \<Rightarrow> (case parse_agent_config pd (JObj (kv # d)) of None \<Rightarrow> raise 1 | Some cfg \<Rightarrow> ret cfg)
         | _ \<Rightarrow> raise 1))
      else seq (read_config mc pd (snd p)) (boot io t))"

definition fallback_ladder :: "machine \<Rightarrow> pydantic \<Rightarrow> sm_io \<Rightarrow> string \<Rightarrow> run_args \<Rightarrow> agent_config command" where
  "fallback_ladder mc pd io t args =
     (let url = api_url_of mc (ra_api_url args) in
      if given (ra_registration_key args) then
        seq (or_exit 1 (register_with_key mc pd (the (ra_registration_key args)) url)) (boot io t)
      else if given (ra_fleet_key args) then
        seq (or_exit 1 (enroll_device mc pd (the (ra_fleet_key args)) url)) (boot io t)
      else
        seq (or_exit 1 (look (\<lambda>fs. path_exists fs (FLEET_MARKER mc)))) (\<lambda>marked.
        if marked then raise 1
        else seq (read_config mc pd (mc_cwd mc @ [''configs'', ''default_config.json''])) (boot io t)))"

definition resolve_identity :: "machine \<Rightarrow> pydantic \<Rightarrow> sm_io \<Rightarrow> string \<Rightarrow> run_args \<Rightarrow> agent_config command" where
  "resolve_identity mc pd io t args =
     seq (if given (ra_config args)
          then seq (from_cli mc pd io t (the (ra_config args))) (\<lambda>cfg. ret (Some cfg))
          else seq (load_saved io None) (\<lambda>s.
                 ret (case s of None \<Rightarrow> None | Some d \<Rightarrow> parse_agent_config pd (JObj d)))) (\<lambda>found.
     (case found of Some cfg \<Rightarrow> ret cfg | None \<Rightarrow> fallback_ladder mc pd io t args))"

section \<open>Running the agent\<close>

datatype ending = Exit int | Reexec | ApplyUpdate | Returned | StillRunning

text \<open>\<open>zen\<close> says whether a session for the transport can be opened.\<close>

definition open_transport :: "(transport_config \<Rightarrow> bool) \<Rightarrow> agent_config \<Rightarrow> bool option" where
  "open_transport zen cfg =
     (case ac_transport cfg of
        Some tr \<Rightarrow> if tc_type tr = TransportZenoh then (if zen tr then Some True else None) else Some False
      | None \<Rightarrow> Some False)"

definition run_agent :: "world \<Rightarrow> (transport_config \<Rightarrow> bool) \<Rightarrow> string option \<Rightarrow> registry \<Rightarrow> ppath list \<Rightarrow> file_body option \<Rightarrow>
    int \<Rightarrow> (bool \<times> int) list \<Rightarrow> agent_config \<Rightarrow> state_manager \<Rightarrow> ending \<times> runtime option" where
  "run_agent W zen version rg files queue last_flush ticks cfg sm =
     (case open_transport zen cfg of
        None \<Rightarrow> (Exit 1, None)
      | Some session \<Rightarrow>
          (case Recovery.run W last_flush ticks (init_runtime W version cfg (Some sm) session rg files queue) of
             (Some e, ended, rt) \<Rightarrow> (Exit 1, Some rt)
           | (None, ended, rt) \<Rightarrow>
               (if \<not> ended then StillRunning
                else if rt_update_requested rt then ApplyUpdate
                else if rt_config_restart_requested rt then Reexec else Returned, Some rt)))"

text \<open>\<open>_apply_update_and_reexec\<close>: \<open>None\<close> where it returns instead of exiting.\<close>

definition apply_update_and_reexec :: "site \<Rightarrow> host \<Rightarrow> int option \<times> host" where
  "apply_update_and_reexec st h =
     (if \<not> st_frozen st then (None, h)
      else (case swap_bundle st None h of
              (Inr _, h1) \<Rightarrow> (Some 42, h1)
            | (Inl e, h1) \<Rightarrow> (Some (if e = ReleaseNotFound then 42 else 1), h1)))"

section \<open>Registering\<close>

definition register :: "machine \<Rightarrow> pydantic \<Rightarrow> sm_io \<Rightarrow> string \<Rightarrow> run_args \<Rightarrow> int command" where
  "register mc pd io t args =
     seq (load_saved io None) (\<lambda>s.
     if s \<noteq> None then ret 0
     else
       let url = api_url_of mc (ra_api_url args);
           fleet_key = given_or (ra_fleet_key args) (mc_env mc ''LOCAI_FLEET_KEY'');
           reg_key = given_or (ra_registration_key args) (mc_env mc ''LOCAI_REGISTRATION_KEY'') in
       if \<not> given fleet_key \<and> \<not> given reg_key then ret 1
       else
         seq (if given fleet_key then or_exit 1 (enroll_device mc pd (the fleet_key) url)
              else or_exit 1 (register_with_key mc pd (the reg_key) url)) (\<lambda>cfg.
         seq (boot io t cfg) (\<lambda>_. ret 0)))"

text \<open>The exit code of the process.\<close>

definition exit_code :: "int command \<Rightarrow> cli \<Rightarrow> int" where
  "exit_code m c = (case fst (m c) of Inl e \<Rightarrow> e | Inr e \<Rightarrow> e)"

section \<open>Checking and updating\<close>

text \<open>\<open>plugins\<close> says whether the plugins can be enumerated.\<close>

definition self_check :: "pydantic \<Rightarrow> sm_io \<Rightarrow> (transport_config \<Rightarrow> bool) \<Rightarrow> bool \<Rightarrow> int command" where
  "self_check pd io zen plugins =
     seq (load_saved io None) (\<lambda>s.
     (case s of
        None \<Rightarrow> ret (if plugins then 0 else 1)
      | Some d \<Rightarrow>
          (case parse_agent_config pd (JObj d) of
             None \<Rightarrow> ret 1
           | Some cfg \<Rightarrow>
               (case open_transport zen cfg of None \<Rightarrow> ret 1 | Some _ \<Rightarrow> ret (if plugins then 0 else 1)))))"

text \<open>
  The answer of the loopback server: no connection, another exception with the name of its class, or a
  document.
\<close>

datatype health_answer = NoConnection | Unreachable string | Healthy jdict

text \<open>The output and exit code of \<open>update\<close>; \<open>posted\<close> is the status of the POST, or the class of the exception.\<close>

definition update :: "health_answer \<Rightarrow> string + int \<Rightarrow> bool \<Rightarrow> string \<times> int" where
  "update health posted force =
     (case health of
        NoConnection \<Rightarrow> (''Service is not running; start it before updating.'', 1)
      | Unreachable e \<Rightarrow> (''Could not reach the service ('' @ e @ '').'', 1)
      | Healthy d \<Rightarrow>
          if \<not> truthy (dget d ''update_available'') \<and> \<not> force then
            (''Already at the latest version ('' @
             (case map_of d ''version'' of None \<Rightarrow> ''unknown'' | Some v \<Rightarrow> py_str v) @ '').'', 0)
          else
            (let latest = dget d ''latest_version''; target = (if truthy latest then '' -> '' @ py_str latest else []) in
             case posted of
               Inl e \<Rightarrow> (''Update request failed ('' @ e @ '').'', 1)
             | Inr code \<Rightarrow>
                 if code = 202 then (''Update'' @ target @ '' accepted; the service is applying it and will restart.'', 0)
                 else if code = 409 then (''No installable update available yet.'', 0)
                 else if code = 503 then (''Service is still starting; try again shortly.'', 1)
                 else (''Update request returned HTTP '' @ show_int code @ ''.'', 1)))"

text \<open>
  \<open>status\<close>: the lines it prints, in order, with exit code 0; a transport that is neither empty nor an object raises.
\<close>

definition version_or_unknown :: "json option \<Rightarrow> json" where
  "version_or_unknown v = (case v of Some x \<Rightarrow> if truthy x then x else JStr ''unknown'' | None \<Rightarrow> JStr ''unknown'')"

definition registration_lines :: "pydantic \<Rightarrow> jdict option \<Rightarrow> string list" where
  "registration_lines pd saved =
     (case saved of
        None \<Rightarrow> [''Registration: not registered (run `locai register`).'']
      | Some d \<Rightarrow>
          (case parse_agent_config pd (JObj d) of
             None \<Rightarrow> [''Registration: session present but unreadable.'']
           | Some cfg \<Rightarrow>
               (let i = ac_identity cfg in
                [''Device:       '' @ device_name i @ '' ('' @ device_id i @ '')'', ''Registration: registered.''] @
                (case api_url i of Some (c # s) \<Rightarrow> [''Control URL:  '' @ c # s] | _ \<Rightarrow> []))))"

definition health_lines :: "json \<Rightarrow> jdict \<Rightarrow> string list option" where
  "health_lines installed h =
     (let running = dget h ''version'';
          lag = (if truthy running \<and> \<not> py_eq running installed then '', running '' @ py_str running else []);
          transport = (if truthy (dget h ''transport'') then dget h ''transport'' else JObj []) in
      let service = ''Service:      running (up '' @ (case map_of h ''uptime_seconds'' of None \<Rightarrow> ''0'' | Some u \<Rightarrow> py_str u) @ ''s'' @ lag @ '').'';
          serving = (if truthy (dget h ''currently_serving'')
            then [''Serving:      '' @ (if truthy (dget h ''model_id'') then py_str (dget h ''model_id'') else ''yes'')] else []);
          upd = (if truthy (dget h ''update_available'')
            then ''Update:       available -> '' @ py_str (dget h ''latest_version'') @ '' (run `locai update`).''
            else ''Update:       up to date.'') in
      case transport of
        JObj [] \<Rightarrow> Some ([service] @ serving @ [upd])
      | JObj tr \<Rightarrow>
          Some ([service] @ serving @
            [''Transport:    '' @ (if truthy (dget tr ''connected'') then ''connected'' else ''disconnected'') @
             '' ('' @ py_str (dget tr ''type'') @ '')'', upd])
      | _ \<Rightarrow> None)"

definition status :: "machine \<Rightarrow> pydantic \<Rightarrow> sm_io \<Rightarrow> health_answer \<Rightarrow> (cli, int, string list) stm" where
  "status mc pd io health =
     seq (or_exit 1 (resolve_agent_version mc)) (\<lambda>v.
     let installed = version_or_unknown v in
     seq (load_saved io None) (\<lambda>saved.
     let about = [''Version:      '' @ py_str installed,
           ''Host:         '' @ mc_node mc @ '' ('' @ py_lower (mc_system mc) @ ''/'' @ mc_machine mc @ '')''] @
          registration_lines pd saved in
     (case health of
        NoConnection \<Rightarrow>
          ret (about @ [if saved = None then ''Service:      idle (awaiting registration).'' else ''Service:      not running.''])
      | Unreachable e \<Rightarrow> ret (about @ [''Service:      unreachable ('' @ e @ '').''])
      | Healthy h \<Rightarrow> (case health_lines installed h of None \<Rightarrow> raise 1 | Some ls \<Rightarrow> ret (about @ ls)))))"

section \<open>A registered device is recognised\<close>

lemma bootstrap_load:
  assumes "ac_version cfg = SCHEMA_VERSION" "io_write io = WriteOk" "CHR ''/'' \<notin> set t"
    and "\<forall>q \<in> set (keys (sm_disk sm)). is_session_path q \<longrightarrow> q \<le> session_file t"
  shows "fst (load_state io' None (fresh_manager (sm_disk (bootstrap io t cfg sm)))) = Some (dump_agent_fields cfg)"
proof -
  let ?disk = "sm_disk (bootstrap io t cfg sm)"
  have mode: "\<exists>m. map_of ?disk (session_file t) = Some \<lparr>f_mode = m, f_body = Doc (JObj (dump_agent_fields cfg))\<rparr>"
    using assms(2) by (auto simp: bootstrap_cache flush_def dump_agent_fields_def Let_def update_conv')
  have "set (keys ?disk) = insert (session_file t) (set (keys (sm_disk sm)))"
    using assms(2) by (simp add: bootstrap_cache flush_def Let_def dump_agent_fields_def py_dict)
  then have "get_latest_session_file (fresh_manager ?disk) = Some (session_file t)"
    using assms(3,4) is_session_path_file by (auto simp: latest_eq fresh_manager_def)
  with mode version_ok_dump [OF assms(1)] show ?thesis
    by (auto simp: load_state_def load_from_def fresh_manager_def version_ok_def Let_def simp del: py_eq.simps)
qed

lemma load_state_keys: "set (keys (sm_disk (snd (load_state io p sm)))) = set (keys (sm_disk sm))"
proof -
  have t: "fst ` set (sm_disk (tighten_permissions io q sm)) = fst ` set (sm_disk sm)" for q
    using dom_map_of_conv_image_fst [of "sm_disk sm"]
    by (auto simp: tighten_permissions_def py_dict dom_def split: option.splits)
  have l: "fst ` set (sm_disk (snd (load_from io q sm))) = fst ` set (sm_disk sm)" for q
    using t by (simp add: load_from_def Let_def split: option.split file_body.split json.split)
  show ?thesis by (simp add: load_state_def l split: option.split list.split)
qed

lemma or_exit_run:
  assumes "or_exit e m c = (Inr x, c')"
  obtains d where "m (cl_desk c) = (Inr x, d)" "c' = c\<lparr>cl_desk := d\<rparr>"
  using assms by (auto simp: or_exit_def split: prod.splits sum.splits)

text \<open>The call of the control plane that \<open>register\<close> makes.\<close>

definition onboard :: "machine \<Rightarrow> pydantic \<Rightarrow> run_args \<Rightarrow> agent_config job" where
  "onboard mc pd args =
     (let url = api_url_of mc (ra_api_url args);
          fleet_key = given_or (ra_fleet_key args) (mc_env mc ''LOCAI_FLEET_KEY'');
          reg_key = given_or (ra_registration_key args) (mc_env mc ''LOCAI_REGISTRATION_KEY'') in
      if given fleet_key then enroll_device mc pd (the fleet_key) url else register_with_key mc pd (the reg_key) url)"

lemma register_run:
  assumes "register mc pd io t args c = (Inr 0, c1)" "load_state io None (cl_sm c) = (None, sm0)"
  obtains cfg d where "onboard mc pd args (cl_desk c) = (Inr cfg, d)" "c1 = \<lparr>cl_desk = d, cl_sm = bootstrap io t cfg sm0\<rparr>"
proof -
  let ?c0 = "c\<lparr>cl_sm := sm0\<rparr>"
  have "\<exists>cfg. seq (or_exit 1 (onboard mc pd args)) (\<lambda>cfg. seq (boot io t cfg) (\<lambda>_. ret 0)) ?c0 = (Inr (0 :: int), c1)"
    using assms by (auto simp: register_def load_saved_def seq_def [of "load_saved io None"] onboard_def Let_def ret_def split: if_splits)
  then obtain cfg c2 where c2: "or_exit 1 (onboard mc pd args) ?c0 = (Inr cfg, c2)" "seq (boot io t cfg) (\<lambda>_. ret 0) c2 = (Inr (0 :: int), c1)"
    by (auto elim: seqE)
  from c2(1) obtain d where d: "onboard mc pd args (cl_desk ?c0) = (Inr cfg, d)" "c2 = ?c0\<lparr>cl_desk := d\<rparr>" by (rule or_exit_run)
  with c2(2) that [of cfg d] show ?thesis by (auto simp: seq_def boot_def ret_def)
qed


definition sample_cli :: cli where
  "sample_cli = \<lparr>cl_desk = sample_desk, cl_sm = fresh_manager []\<rparr>"

definition sample_args :: run_args where
  "sample_args = \<lparr>ra_config = None, ra_registration_key = Some ''key'', ra_fleet_key = None, ra_api_url = Some ''u''\<rparr>"

definition no_args :: run_args where
  "no_args = \<lparr>ra_config = None, ra_registration_key = None, ra_fleet_key = None, ra_api_url = None\<rparr>"


section \<open>A wiped fleet device\<close>

text \<open>
  A fleet device never comes up as somebody else: once it was enrolled, losing its session does
  not make \<open>run\<close> fall back to the factory configuration.  As long as the files the enrolment left are there,
  an agent started without a key and without a readable session exits with code 1, and neither
  a session nor anything else is written.
\<close>

lemma wiped_fleet_device_refuses:
  assumes "marker_ok mc (dk_fs (cl_desk c))" "py_strip (mc_uuid mc) = mc_uuid mc" "mc_uuid mc \<noteq> []"
    and "fst (load_state io None (cl_sm c)) = None" "given (given_or (ra_fleet_key args) (mc_env mc ''LOCAI_FLEET_KEY''))"
    and "register mc pd io t args c = (Inr 0, c1)"
    and "dk_fs (cl_desk c2) = dk_fs (cl_desk c1)" "fst (load_state io' None (cl_sm c2)) = None" "mc_cwd mc' = mc_cwd mc"
    and "\<not> given (ra_config args')" "\<not> given (ra_registration_key args')" "\<not> given (ra_fleet_key args')"
  shows "fst (resolve_identity mc' pd' io' t' args' c2) = Inl 1 \<and>
    cl_desk (snd (resolve_identity mc' pd' io' t' args' c2)) = cl_desk c2 \<and>
    set (keys (sm_disk (cl_sm (snd (resolve_identity mc' pd' io' t' args' c2))))) = set (keys (sm_disk (cl_sm c2)))"
proof -
  obtain sm0 where sm0: "load_state io None (cl_sm c) = (None, sm0)" using assms(4) by (metis prod.collapse)
  obtain cfg d where reg: "onboard mc pd args (cl_desk c) = (Inr cfg, d)" "c1 = \<lparr>cl_desk = d, cl_sm = bootstrap io t cfg sm0\<rparr>"
    using register_run [OF assms(6) sm0] by blast
  have "path_exists (dk_fs d) (FLEET_MARKER mc)"
    using reg(1) assms(5) enroll_marks [OF assms(1-3)] by (auto simp: onboard_def Let_def)
  then have marked: "path_exists (dk_fs (cl_desk c2)) (FLEET_MARKER mc')"
    using reg(2) assms(7,9) by (simp add: FLEET_MARKER_def)
  obtain sm2 where sm2: "load_state io' None (cl_sm c2) = (None, sm2)" using assms(8) by (metis prod.collapse)
  have "resolve_identity mc' pd' io' t' args' c2 = (Inl 1, c2\<lparr>cl_sm := sm2\<rparr>)"
    using assms(10-12) marked sm2
    by (simp add: resolve_identity_def fallback_ladder_def load_saved_def or_exit_def look_def seq_def ret_def raise_def Let_def)
  with load_state_keys [of io' None "cl_sm c2"] sm2 show ?thesis by simp
qed

definition fleet_args :: run_args where
  "fleet_args = no_args\<lparr>ra_fleet_key := Some ''fleet''\<rparr>"

lemma wiped_fleet_device_refuses_witness:
  "\<exists>c1. register sample_registrar strict_pydantic io_ok ''t'' fleet_args sample_cli = (Inr 0, c1) \<and>
     fst (resolve_identity sample_machine strict_pydantic io_ok ''t'' no_args (c1\<lparr>cl_sm := fresh_manager []\<rparr>)) = Inl 1"
proof -
  have run: "fst (register sample_registrar strict_pydantic io_ok ''t'' fleet_args sample_cli) = Inr 0" by code_simp
  then obtain c1 where c1: "register sample_registrar strict_pydantic io_ok ''t'' fleet_args sample_cli = (Inr 0, c1)"
    by (metis prod.collapse)
  have uuid: "py_strip (mc_uuid sample_registrar) = mc_uuid sample_registrar" "mc_uuid sample_registrar \<noteq> []" by code_simp+
  have "desk_ok sample_registrar (dk_fs sample_desk)"
    using sample_desk_ok by (simp add: desk_ok_def sample_registrar_def FALLBACK_FILE_def)
  then have ok: "marker_ok sample_registrar (dk_fs (cl_desk sample_cli))"
    by (simp add: marker_ok_def sample_cli_def sample_desk_def FLEET_MARKER_def node_def sample_registrar_def sample_machine_def)
  have none: "fst (load_state io_ok None (fresh_manager [])) = None"
    by (simp add: load_state_def fresh_manager_def get_latest_session_file_def)
  have args: "given (given_or (ra_fleet_key fleet_args) (mc_env sample_registrar ''LOCAI_FLEET_KEY''))"
    "\<not> given (ra_config no_args)" "\<not> given (ra_registration_key no_args)" "\<not> given (ra_fleet_key no_args)"
    by (simp_all add: given_def given_or_def fleet_args_def no_args_def)
  have "mc_cwd sample_machine = mc_cwd sample_registrar" by (simp add: sample_registrar_def)
  from wiped_fleet_device_refuses [OF ok uuid _ args(1) c1 _ _ this args(2-4), of "c1\<lparr>cl_sm := fresh_manager []\<rparr>" io_ok strict_pydantic "''t''"]
    none c1 show ?thesis by (simp add: sample_cli_def)
qed

end
