(* ===== verification/Service.thy ===== *)
theory Service
  imports Device Quoting
begin

text \<open>
  \<open>infra/service.py\<close>: services of the operating system, with the three back ends (systemd in user mode, launchd,
  the Windows service manager), the factory, and the installation of several services in lockstep; \<open>stop\<close> of
  \<open>main.py\<close>.  What a command answers is a function of the commands that ran before it.
\<close>

section \<open>State\<close>

datatype outcome = Exited int string | NotFound | Refused

record svc_os =
  so_home :: apath
  so_run :: "string list list \<Rightarrow> string list \<Rightarrow> outcome"
  so_admin :: bool
  so_key :: "string \<Rightarrow> bool"

record svc_state =
  sh_desk :: desk
  sh_ran :: "string list list"
  sh_registry :: "(string, string list) dict"
  sh_naps :: "nat list"

type_synonym 'a svc = "(svc_state, cli_error, 'a) stm"

definition lift_job :: "'a job \<Rightarrow> 'a svc" where
  "lift_job m h = (case m (sh_desk h) of (r, d) \<Rightarrow> (r, h\<lparr>sh_desk := d\<rparr>))"

abbreviation svc_fs :: "svc_state \<Rightarrow> fs" where
  "svc_fs h \<equiv> dk_fs (sh_desk h)"

datatype backend = LinuxBackend | MacOSBackend | WindowsBackend

datatype service_scope = UserScope | SystemScope

record service =
  sv_backend :: backend
  sv_name :: string
  sv_command :: "string option"
  sv_description :: string
  sv_dir :: apath
  sv_env :: "(string, string) dict"
  sv_scope :: service_scope
  sv_prefix :: string

definition REVERSE_DNS :: string where
  "REVERSE_DNS = ''uk.co.locai.link''"

definition path_str :: "apath \<Rightarrow> string" where
  "path_str p = ''/'' @ intercalate ''/'' p"

text \<open>\<open>f"{command}"\<close>.\<close>

definition command_text :: "service \<Rightarrow> string" where
  "command_text s = (case sv_command s of None \<Rightarrow> ''None'' | Some c \<Rightarrow> c)"

definition log_dir :: "service \<Rightarrow> apath" where
  "log_dir s = sv_dir s @ [''logs'']"

definition log_file :: "service \<Rightarrow> apath" where
  "log_file s = log_dir s @ [sv_name s @ ''.log'']"

definition service_label :: "service \<Rightarrow> string" where
  "service_label s = sv_prefix s @ ''.'' @ sv_name s"

definition prepare_logs :: "service \<Rightarrow> unit svc" where
  "prepare_logs s = lift_job (edit (\<lambda>fs. mkdirs fs (log_dir s)))"

section \<open>Running a command\<close>

text \<open>\<open>shlex.split\<close>; \<open>None\<close> is the \<open>ValueError\<close> of an open quotation or a trailing backslash.\<close>

definition is_shlex_blank :: "char \<Rightarrow> bool" where
  "is_shlex_blank c \<longleftrightarrow> is_shell_blank c \<or> c = chr_cr"

fun shlex_scan :: "quoting \<Rightarrow> string option \<Rightarrow> string \<Rightarrow> string list option" where
  "shlex_scan Plain cur [] = Some (flush_word cur)"
| "shlex_scan Single cur [] = None"
| "shlex_scan Double cur [] = None"
| "shlex_scan Plain cur (c # s) =
     (if is_shlex_blank c then map_option (\<lambda>ws. flush_word cur @ ws) (shlex_scan Plain None s)
      else if c = chr_squote then shlex_scan Single (Some (word_of cur)) s
      else if c = chr_dquote then shlex_scan Double (Some (word_of cur)) s
      else if c = chr_bslash then (case s of [] \<Rightarrow> None | d # r \<Rightarrow> shlex_scan Plain (Some (d # word_of cur)) r)
      else shlex_scan Plain (Some (c # word_of cur)) s)"
| "shlex_scan Single cur (c # s) =
     (if c = chr_squote then shlex_scan Plain cur s else shlex_scan Single (Some (c # word_of cur)) s)"
| "shlex_scan Double cur (c # s) =
     (if c = chr_dquote then shlex_scan Plain cur s
      else if c = chr_bslash then
        (case s of
           [] \<Rightarrow> None
         | d # r \<Rightarrow>
             if d = chr_dquote \<or> d = chr_bslash then shlex_scan Double (Some (d # word_of cur)) r
             else shlex_scan Double (Some (d # chr_bslash # word_of cur)) r)
      else shlex_scan Double (Some (c # word_of cur)) s)"

definition shlex_split :: "string \<Rightarrow> string list option" where
  "shlex_split s = shlex_scan Plain None s"

definition run_argv :: "svc_os \<Rightarrow> string list \<Rightarrow> outcome svc" where
  "run_argv so argv h = (Inr (so_run so (sh_ran h) argv), h\<lparr>sh_ran := sh_ran h @ [argv]\<rparr>)"

text \<open>Both a failing and a missing program are logged at most; another \<open>OSError\<close> propagates.\<close>

definition run_cmd :: "svc_os \<Rightarrow> string \<Rightarrow> unit svc" where
  "run_cmd so cmd =
     (case shlex_split cmd of
        None \<Rightarrow> raise ValueError
      | Some argv \<Rightarrow> seq (run_argv so argv) (\<lambda>r. if r = Refused then raise OsError else ret ()))"

definition run_quiet :: "svc_os \<Rightarrow> string list \<Rightarrow> bool svc" where
  "run_quiet so argv =
     seq (run_argv so argv) (\<lambda>r.
     (case r of Exited n _ \<Rightarrow> ret (n = 0) | NotFound \<Rightarrow> ret False | Refused \<Rightarrow> raise OsError))"

text \<open>\<open>subprocess.run(..., capture_output=True)\<close>: a missing program raises.\<close>

definition run_capture :: "svc_os \<Rightarrow> string list \<Rightarrow> (int \<times> string) svc" where
  "run_capture so argv =
     seq (run_argv so argv) (\<lambda>r. (case r of Exited n out \<Rightarrow> ret (n, out) | _ \<Rightarrow> raise OsError))"

section \<open>systemd\<close>

definition linux_unit_path :: "svc_os \<Rightarrow> service \<Rightarrow> apath" where
  "linux_unit_path so s = so_home so @ [''.config'', ''systemd'', ''user'', sv_name s @ ''.service'']"

definition linux_unit :: "service \<Rightarrow> string" where
  "linux_unit s =
     concat (map (\<lambda>l. l @ [chr_nl])
       [''[Unit]'', ''Description='' @ sv_description s, ''After=default.target'', [],
        ''[Service]'', ''ExecStart='' @ command_text s, ''WorkingDirectory='' @ path_str (sv_dir s), ''Restart=always'',
        intercalate [chr_nl] (map (\<lambda>e. ''Environment='' @ fst e @ ''='' @ snd e) (sv_env s)),
        ''StandardOutput=append:'' @ path_str (log_file s), ''StandardError=append:'' @ path_str (log_file s), [],
        ''[Install]'', ''WantedBy=default.target''])"

definition linux_start :: "svc_os \<Rightarrow> service \<Rightarrow> unit svc" where
  "linux_start so s = run_cmd so (''systemctl --user start '' @ sv_name s)"

definition linux_stop :: "svc_os \<Rightarrow> service \<Rightarrow> unit svc" where
  "linux_stop so s = run_cmd so (''systemctl --user stop '' @ sv_name s)"

definition linux_install :: "svc_os \<Rightarrow> machine \<Rightarrow> service \<Rightarrow> bool \<Rightarrow> unit svc" where
  "linux_install so mc s start_now =
     seq (prepare_logs s) (\<lambda>_.
     seq (lift_job (edit (\<lambda>fs. mkdirs fs (butlast (linux_unit_path so s))))) (\<lambda>_.
     seq (lift_job (edit (\<lambda>fs. write_text fs (linux_unit_path so s) (linux_unit s)))) (\<lambda>_.
     seq (run_cmd so ''systemctl --user daemon-reload'') (\<lambda>_.
     seq (run_cmd so (''systemctl --user enable '' @ sv_name s)) (\<lambda>_.
     seq (case mc_user mc of None \<Rightarrow> raise OsError | Some u \<Rightarrow> run_cmd so (''loginctl enable-linger '' @ u)) (\<lambda>_.
     if start_now then linux_start so s else ret ()))))))"

definition linux_uninstall :: "svc_os \<Rightarrow> service \<Rightarrow> unit svc" where
  "linux_uninstall so s =
     seq (lift_job (look (\<lambda>fs. path_exists fs (linux_unit_path so s)))) (\<lambda>there.
     if \<not> there then ret ()
     else
       seq (linux_stop so s) (\<lambda>_.
       seq (run_cmd so (''systemctl --user disable '' @ sv_name s)) (\<lambda>_.
       seq (lift_job (edit (\<lambda>fs. unlink fs (linux_unit_path so s)))) (\<lambda>_.
       seq (run_cmd so ''systemctl --user daemon-reload'') (\<lambda>_.
       run_cmd so (''systemctl --user reset-failed '' @ sv_name s))))))"

section \<open>launchd\<close>

definition macos_plist_path :: "svc_os \<Rightarrow> service \<Rightarrow> apath" where
  "macos_plist_path so s =
     (if sv_scope s = SystemScope then [''Library'', ''LaunchAgents'']
      else so_home so @ [''Library'', ''LaunchAgents'']) @ [service_label s @ ''.plist'']"

definition macos_plist :: "service \<Rightarrow> string list \<Rightarrow> bool \<Rightarrow> string" where
  "macos_plist s parts start_now =
     intercalate [chr_nl]
       [''<?xml version=\"1.0\" encoding=\"UTF-8\"?>'',
        ''<!DOCTYPE plist PUBLIC \"-//Apple//DTD PLIST 1.0//EN\" \"http://www.apple.com/DTDs/PropertyList-1.0.dtd\">'',
        ''<plist version=\"1.0\">'', ''<dict>'',
        ''    <key>Label</key> <string>'' @ service_label s @ ''</string>'',
        ''    <key>ProgramArguments</key> <array><string>'' @ hd parts @ ''</string>'' @
          intercalate [chr_nl] (map (\<lambda>a. ''<string>'' @ a @ ''</string>'') (tl parts)) @ ''</array>'',
        ''    <key>WorkingDirectory</key> <string>'' @ path_str (sv_dir s) @ ''</string>'',
        ''    <key>RunAtLoad</key> <'' @ (if start_now then ''true'' else ''false'') @ ''/>'',
        ''    <key>KeepAlive</key> <true/>'',
        ''    '' @ (if sv_env s = [] then []
                  else ''<key>EnvironmentVariables</key><dict>'' @
                    concat (map (\<lambda>e. ''<key>'' @ fst e @ ''</key><string>'' @ snd e @ ''</string>'') (sv_env s)) @ ''</dict>''),
        ''    <key>StandardOutPath</key> <string>'' @ path_str (log_file s) @ ''</string>'',
        ''    <key>StandardErrorPath</key> <string>'' @ path_str (log_file s) @ ''</string>'',
        ''</dict>'', ''</plist>'']"

definition macos_start :: "svc_os \<Rightarrow> service \<Rightarrow> unit svc" where
  "macos_start so s = run_cmd so (''launchctl load '' @ path_str (macos_plist_path so s))"

definition macos_stop :: "svc_os \<Rightarrow> service \<Rightarrow> unit svc" where
  "macos_stop so s = run_cmd so (''launchctl unload '' @ path_str (macos_plist_path so s))"

text \<open>\<open>self.command.split()\<close> of no command, and the first of no words, raise.\<close>

definition macos_install :: "svc_os \<Rightarrow> service \<Rightarrow> bool \<Rightarrow> unit svc" where
  "macos_install so s start_now =
     seq (prepare_logs s) (\<lambda>_.
     (case sv_command s of
        None \<Rightarrow> raise AttributeErr
      | Some c \<Rightarrow>
          if split_ws c = [] then raise IndexErr
          else
            seq (lift_job (edit (\<lambda>fs. mkdirs fs (butlast (macos_plist_path so s))))) (\<lambda>_.
            seq (lift_job (edit (\<lambda>fs. write_text fs (macos_plist_path so s) (macos_plist s (split_ws c) start_now)))) (\<lambda>_.
            if start_now then macos_start so s else ret ()))))"

definition macos_uninstall :: "svc_os \<Rightarrow> service \<Rightarrow> unit svc" where
  "macos_uninstall so s =
     seq (lift_job (look (\<lambda>fs. path_exists fs (macos_plist_path so s)))) (\<lambda>there.
     if \<not> there then ret ()
     else seq (macos_stop so s) (\<lambda>_. lift_job (edit (\<lambda>fs. unlink fs (macos_plist_path so s)))))"

definition macos_running :: "svc_os \<Rightarrow> service \<Rightarrow> bool svc" where
  "macos_running so s =
     seq (run_capture so [''launchctl'', ''list'']) (\<lambda>(code, out).
     ret (code = 0 \<and>
       list_ex (\<lambda>l. let ws = split_ws l in 2 \<le> length ws \<and> List.last ws = service_label s) (splitlines_acc [] out)))"

section \<open>The Windows service manager\<close>

definition windows_create :: "service \<Rightarrow> string" where
  "windows_create s =
     (let inner_cmd = command_text s @ '' >> '' @ path_str (log_file s) @ '' 2>&1'';
          bin_path = ''cmd /c '' @ [chr_bslash, chr_dquote] @ inner_cmd @ [chr_bslash, chr_dquote] in
      ''sc create '' @ sv_name s @ '' binPath= '' @ [chr_dquote] @ bin_path @ [chr_dquote] @ '' start= auto displayname= '' @
      [chr_dquote] @ sv_description s @ [chr_dquote])"

definition apply_service_environment :: "svc_os \<Rightarrow> service \<Rightarrow> unit svc" where
  "apply_service_environment so s h =
     (Inr (), if so_key so (sv_name s)
              then h\<lparr>sh_registry := AList.update (sv_name s) (map (\<lambda>e. fst e @ ''='' @ snd e) (sv_env s)) (sh_registry h)\<rparr>
              else h)"

definition windows_start :: "svc_os \<Rightarrow> service \<Rightarrow> unit svc" where
  "windows_start so s = (if so_admin so then run_cmd so (''sc start '' @ sv_name s) else ret ())"

definition windows_stop :: "svc_os \<Rightarrow> service \<Rightarrow> unit svc" where
  "windows_stop so s = (if so_admin so then run_cmd so (''sc stop '' @ sv_name s) else ret ())"

definition windows_install :: "svc_os \<Rightarrow> service \<Rightarrow> bool \<Rightarrow> unit svc" where
  "windows_install so s start_now =
     seq (prepare_logs s) (\<lambda>_.
     if \<not> so_admin so then ret ()
     else
       seq (run_cmd so (windows_create s)) (\<lambda>_.
       seq (if sv_env s = [] then ret () else apply_service_environment so s) (\<lambda>_.
       if start_now then windows_start so s else ret ())))"

definition windows_uninstall :: "svc_os \<Rightarrow> service \<Rightarrow> unit svc" where
  "windows_uninstall so s =
     (if so_admin so then seq (windows_stop so s) (\<lambda>_. run_cmd so (''sc delete '' @ sv_name s)) else ret ())"

definition windows_running :: "svc_os \<Rightarrow> service \<Rightarrow> bool svc" where
  "windows_running so s = seq (run_capture so [''sc'', ''query'', sv_name s]) (\<lambda>(code, out). ret (contains_sub ''RUNNING'' out))"

section \<open>A service\<close>

text \<open>The factory; without a directory the current one is used.\<close>

definition ServiceManager :: "machine \<Rightarrow> string \<Rightarrow> string option \<Rightarrow> string \<Rightarrow> apath option \<Rightarrow> (string, string) dict \<Rightarrow>
    service_scope \<Rightarrow> string \<Rightarrow> cli_error + service" where
  "ServiceManager mc name command description dir env sc label_prefix =
     (let dir' = (case dir of None \<Rightarrow> mc_cwd mc | Some d \<Rightarrow> d); system = py_lower (mc_system mc);
          mk = (\<lambda>b. \<lparr>sv_backend = b, sv_name = name, sv_command = command, sv_description = description, sv_dir = dir',
                      sv_env = env, sv_scope = sc, sv_prefix = label_prefix\<rparr>) in
      if system = ''linux'' then Inr (mk LinuxBackend)
      else if system = ''darwin'' then Inr (mk MacOSBackend)
      else if system = ''windows'' then Inr (mk WindowsBackend)
      else Inl UnsupportedPlatform)"

definition service_named :: "machine \<Rightarrow> string \<Rightarrow> service svc" where
  "service_named mc name =
     (case ServiceManager mc name None ''Loc.ai Service'' None [] UserScope REVERSE_DNS of Inl e \<Rightarrow> raise e | Inr s \<Rightarrow> ret s)"

definition install_service :: "svc_os \<Rightarrow> machine \<Rightarrow> service \<Rightarrow> bool \<Rightarrow> unit svc" where
  "install_service so mc s start_now =
     (case sv_backend s of
        LinuxBackend \<Rightarrow> linux_install so mc s start_now
      | MacOSBackend \<Rightarrow> macos_install so s start_now
      | WindowsBackend \<Rightarrow> windows_install so s start_now)"

definition uninstall_service :: "svc_os \<Rightarrow> service \<Rightarrow> unit svc" where
  "uninstall_service so s =
     (case sv_backend s of
        LinuxBackend \<Rightarrow> linux_uninstall so s
      | MacOSBackend \<Rightarrow> macos_uninstall so s
      | WindowsBackend \<Rightarrow> windows_uninstall so s)"

definition start_service :: "svc_os \<Rightarrow> service \<Rightarrow> unit svc" where
  "start_service so s =
     (case sv_backend s of LinuxBackend \<Rightarrow> linux_start so s | MacOSBackend \<Rightarrow> macos_start so s | WindowsBackend \<Rightarrow> windows_start so s)"

definition stop_service :: "svc_os \<Rightarrow> service \<Rightarrow> unit svc" where
  "stop_service so s =
     (case sv_backend s of LinuxBackend \<Rightarrow> linux_stop so s | MacOSBackend \<Rightarrow> macos_stop so s | WindowsBackend \<Rightarrow> windows_stop so s)"

definition service_installed :: "svc_os \<Rightarrow> service \<Rightarrow> bool svc" where
  "service_installed so s =
     (case sv_backend s of
        LinuxBackend \<Rightarrow> lift_job (look (\<lambda>fs. path_exists fs (linux_unit_path so s)))
      | MacOSBackend \<Rightarrow> lift_job (look (\<lambda>fs. path_exists fs (macos_plist_path so s)))
      | WindowsBackend \<Rightarrow> run_quiet so [''sc'', ''query'', sv_name s])"

definition service_running :: "svc_os \<Rightarrow> service \<Rightarrow> bool svc" where
  "service_running so s =
     (case sv_backend s of
        LinuxBackend \<Rightarrow> run_quiet so [''systemctl'', ''--user'', ''is-active'', sv_name s]
      | MacOSBackend \<Rightarrow> macos_running so s
      | WindowsBackend \<Rightarrow> windows_running so s)"

section \<open>Several services\<close>

fun roll_back :: "svc_os \<Rightarrow> service list \<Rightarrow> unit svc" where
  "roll_back so [] = ret ()"
| "roll_back so (s # ss) = seq (swallow (uninstall_service so s)) (\<lambda>_. roll_back so ss)"

fun install_from :: "svc_os \<Rightarrow> machine \<Rightarrow> bool \<Rightarrow> service list \<Rightarrow> service list \<Rightarrow> unit svc" where
  "install_from so mc start_now installed [] h = (Inr (), h)"
| "install_from so mc start_now installed (s # ss) h =
     (case install_service so mc s start_now h of
        (Inl e, h1) \<Rightarrow> (Inl e, snd (roll_back so (installed @ [s]) h1))
      | (Inr _, h1) \<Rightarrow> install_from so mc start_now (installed @ [s]) ss h1)"

definition install_all :: "svc_os \<Rightarrow> machine \<Rightarrow> service list \<Rightarrow> bool \<Rightarrow> unit svc" where
  "install_all so mc services start_now = install_from so mc start_now [] services"

text \<open>\<open>stop()\<close> of \<open>main.py\<close>, and what \<open>reset\<close> does to the services.\<close>

definition stop_named :: "svc_os \<Rightarrow> machine \<Rightarrow> string \<Rightarrow> unit svc" where
  "stop_named so mc name =
     swallow (seq (service_named mc name) (\<lambda>s.
       seq (service_running so s) (\<lambda>up. if up then stop_service so s else ret ())))"

definition stop_all :: "svc_os \<Rightarrow> machine \<Rightarrow> unit svc" where
  "stop_all so mc = seq (stop_named so mc ''locai-link'') (\<lambda>_. stop_named so mc ''zenohd'')"

definition remove_services :: "svc_os \<Rightarrow> machine \<Rightarrow> unit svc" where
  "remove_services so mc =
     swallow (seq (stop_all so mc) (\<lambda>_.
       seq (seq (service_named mc ''locai-link'') (uninstall_service so)) (\<lambda>_.
       seq (service_named mc ''zenohd'') (uninstall_service so))))"

section \<open>Files of a service\<close>

text \<open>The path of a unit file: directories or nothing above it, no link, and no file without its directory.\<close>

definition plain_at :: "fs \<Rightarrow> apath \<Rightarrow> bool" where
  "plain_at fs p \<longleftrightarrow> p \<noteq> [] \<and> ''..'' \<notin> set p \<and>
     (\<forall>k < length p. node fs (take k p) = None \<or> is_dir_entry (node fs (take k p))) \<and>
     \<not> is_link_entry (node fs p) \<and> (is_file_entry (node fs p) \<longrightarrow> canonical fs (butlast p))"

definition grows :: "fs \<Rightarrow> fs \<Rightarrow> bool" where
  "grows fs fs' \<longleftrightarrow> (\<forall>q. node fs' q = node fs q \<or> node fs q = None \<and> node fs' q = Some (EDir 0))"

lemma grows_trans: "grows a b \<Longrightarrow> grows b c \<Longrightarrow> grows a c"
  unfolding grows_def by metis

lemma node_root [simp]: "node fs [] = Some (EDir 0)"
  by (simp add: node_def)

lemma mkdirs_grows: "mkdirs fs p = Some fs' \<Longrightarrow> grows fs fs'"
proof -
  have "mkdirs_from fs cur cs = Some fs' \<Longrightarrow> grows fs fs'" for cur cs
  proof (induction fs cur cs rule: mkdirs_from.induct)
    case (2 fs cur c cs)
    show ?case
    proof (cases "stat fs (cur @ [c])")
      case None
      with "2.prems" obtain q where q: "lpath fs (cur @ [c]) = Some q" "node fs q = None"
        and rest: "mkdirs_from (put q (EDir 0) fs) (cur @ [c]) cs = Some fs'" by (auto split: option.splits if_splits)
      then have "q \<noteq> []" by auto
      then have "grows fs (put q (EDir 0) fs)" using q by (auto simp: grows_def node_put)
      from this "2.IH"(1) [OF None q rest] show ?thesis by (rule grows_trans)
    next
      case (Some e)
      with 2 show ?thesis by (cases e) auto
    qed
  qed (simp add: grows_def)
  then show "mkdirs fs p = Some fs' \<Longrightarrow> grows fs fs'" by (simp add: mkdirs_def)
qed

lemma grows_entry:
  assumes "grows fs fs'"
  shows "is_dir_entry (node fs q) \<Longrightarrow> is_dir_entry (node fs' q)"
    and "node fs q = None \<or> is_dir_entry (node fs q) \<Longrightarrow> node fs' q = None \<or> is_dir_entry (node fs' q)"
    and "is_link_entry (node fs' q) = is_link_entry (node fs q)"
    and "(node fs' q = Some (EFile x)) = (node fs q = Some (EFile x))"
    and "is_file_entry (node fs' q) = is_file_entry (node fs q)"
  using spec [OF assms [unfolded grows_def], of q] by (auto split: option.splits)

lemma canonical_grows: "grows fs fs' \<Longrightarrow> canonical fs D \<Longrightarrow> canonical fs' D"
  unfolding canonical_def using grows_entry(1) by blast

lemma plain_at_grows:
  assumes "plain_at fs p" "grows fs fs'" shows "plain_at fs' p"
  using assms(1) canonical_grows [OF assms(2)] grows_entry(2) [OF assms(2)]
  unfolding plain_at_def grows_entry(3,5) [OF assms(2)] by blast

text \<open>Where a plain path can be resolved it names itself.\<close>

lemma walk_plain:
  "walk n fs cur cs = Some q \<Longrightarrow> ''..'' \<notin> set cs \<Longrightarrow> \<not> is_link_entry (node fs (cur @ cs)) \<Longrightarrow>
   \<forall>k. 0 < k \<and> k < length cs \<longrightarrow> node fs (cur @ take k cs) = None \<or> is_dir_entry (node fs (cur @ take k cs)) \<Longrightarrow>
   q = cur @ cs \<and> (\<forall>k. 0 < k \<and> k < length cs \<longrightarrow> is_dir_entry (node fs (cur @ take k cs)))"
proof (induction cs arbitrary: cur)
  case (Cons c cs)
  show ?case
  proof (cases "cs = []")
    case True
    with Cons.prems show ?thesis by (cases "node fs (cur @ [c])" rule: is_dir_entry.cases) auto
  next
    case False
    with Cons.prems(4) [rule_format, of 1] have "node fs (cur @ [c]) = None \<or> is_dir_entry (node fs (cur @ [c]))" by simp
    with False Cons.prems(1,2) obtain m where m: "node fs (cur @ [c]) = Some (EDir m)" "walk n fs (cur @ [c]) cs = Some q"
      by (cases "node fs (cur @ [c])" rule: is_dir_entry.cases) auto
    have "node fs ((cur @ [c]) @ take k cs) = None \<or> is_dir_entry (node fs ((cur @ [c]) @ take k cs))"
      if "0 < k" "k < length cs" for k
      using Cons.prems(4) [rule_format, of "Suc k"] that by simp
    with Cons.IH [OF m(2)] Cons.prems(2,3)
    have ih: "q = cur @ c # cs" "\<And>k. 0 < k \<Longrightarrow> k < length cs \<Longrightarrow> is_dir_entry (node fs (cur @ c # take k cs))" by auto
    have "is_dir_entry (node fs (cur @ take k (c # cs)))" if "0 < k" "k < length (c # cs)" for k
      using that m(1) ih(2) [of "k - 1"] by (cases k; cases "k = 1") auto
    with ih(1) show ?thesis by blast
  qed
qed auto

lemma realpath_plain_at:
  assumes "plain_at fs p" "realpath fs p = Some q" shows "q = p \<and> canonical fs (butlast p)"
proof -
  have w: "q = p" "\<And>k. 0 < k \<Longrightarrow> k < length p \<Longrightarrow> is_dir_entry (node fs (take k p))"
    using walk_plain [of 40 fs "[]" p q] assms by (auto simp: plain_at_def realpath_def)
  have "is_dir_entry (node fs (take k (butlast p)))" if "k \<le> length (butlast p)" for k
    using w(2) [of k] that assms(1) by (cases "k = 0") (auto simp: plain_at_def take_butlast)
  with w(1) assms(1) show ?thesis by (auto simp: canonical_def plain_at_def dest: in_set_butlastD)
qed

lemma write_plain_at:
  assumes "plain_at fs p" "write_text fs p c = Some fs'"
  shows "fs' = put p (EFile c) fs \<and> canonical fs (butlast p)"
  using assms realpath_plain_at [OF assms(1)] by (auto simp: write_text_def split: option.splits if_splits)

lemma write_text_written: "plain_at fs p \<Longrightarrow> write_text fs p c = Some fs' \<Longrightarrow> node fs' p = Some (EFile c)"
  using write_plain_at [of fs p c fs'] by (auto simp: plain_at_def node_put)

lemma unlink_plain_at:
  assumes "plain_at fs p" "unlink fs p = Some fs'"
  shows "fs' = AList.delete p fs \<and> \<not> is_dir_entry (node fs p)"
proof -
  obtain d x where p: "p = d @ [x]" using assms(1) by (cases p rule: rev_cases) (auto simp: plain_at_def)
  obtain q where q: "lpath fs p = Some q" "fs' = AList.delete q fs" "node fs q \<noteq> None" "\<not> is_dir_entry (node fs q)"
    using assms(2) by (auto simp: unlink_def split: option.splits entry.splits)
  have x: "x \<noteq> ''..''" using assms(1) p by (auto simp: plain_at_def)
  from q(1) obtain d' where d': "realpath fs d = Some d'" "is_dir_entry (node fs d')" "q = d' @ [x]"
    using p x by (auto simp: lpath_def split: option.splits if_splits)
  have "d' = d"
  proof (cases "d = []")
    case False
    have "\<forall>k. 0 < k \<and> k < length d \<longrightarrow> node fs (take k d) = None \<or> is_dir_entry (node fs (take k d))"
      "node fs d = None \<or> is_dir_entry (node fs d)" "''..'' \<notin> set d"
      using assms(1) p by (auto simp: plain_at_def)
    with walk_plain [of 40 fs "[]" d d'] d'(1) show ?thesis
      by (cases "node fs d" rule: is_dir_entry.cases) (auto simp: realpath_def)
  qed (use d' in \<open>simp add: realpath_def\<close>)
  with q d' p show ?thesis by simp
qed

lemma plain_at_put:
  assumes "plain_at fs p" "plain_at fs p'" "\<not> strict_prefix p p'" "canonical fs (butlast p)"
  shows "plain_at (put p (EFile c) fs) p'"
proof -
  have other: "node (put p (EFile c) fs) q = node fs q" if "strict_prefix q p'" for q
    using that assms(1,3) by (auto simp: plain_at_def node_put)
  have pre: "strict_prefix (take k p') p'" if "k < length p'" for k
    using that take_is_prefix [of k p'] by (auto simp: strict_prefix_def dest: arg_cong [of _ _ length])
  have "strict_prefix (take k (butlast p')) p'" for k
    using pre [of "min k (length p' - 1)"] assms(2) by (cases p') (auto simp: butlast_conv_take plain_at_def)
  then have can: "canonical (put p (EFile c) fs) (butlast p')" if "canonical fs (butlast p')"
    using that other by (simp add: canonical_def)
  have "p \<noteq> []" using assms(1) by (simp add: plain_at_def)
  with assms can other pre show ?thesis by (auto simp: plain_at_def node_put)
qed

lemma plain_at_delete:
  assumes "plain_at fs p" "plain_at fs p'" "\<not> is_dir_entry (node fs p)"
  shows "plain_at (AList.delete p fs) p'"
proof -
  have ne: "p \<noteq> []" using assms(1) by (simp add: plain_at_def)
  have dir: "is_dir_entry (node (AList.delete p fs) q)" if "is_dir_entry (node fs q)" for q
    using that assms(3) ne by (auto simp: node_delete)
  have "canonical (AList.delete p fs) (butlast p')" if "canonical fs (butlast p')"
    using that dir by (simp add: canonical_def)
  with assms(2) ne dir show ?thesis by (auto simp: plain_at_def node_delete)
qed

section \<open>What the operations do to the files\<close>

definition unit_path :: "svc_os \<Rightarrow> service \<Rightarrow> apath" where
  "unit_path so s = (if sv_backend s = LinuxBackend then linux_unit_path so s else macos_plist_path so s)"

definition unit_text :: "service \<Rightarrow> bool \<Rightarrow> string" where
  "unit_text s start_now =
     (if sv_backend s = LinuxBackend then linux_unit s else macos_plist s (split_ws (command_text s)) start_now)"

text \<open>Properties of the files alone.\<close>

abbreviation kept :: "(fs \<Rightarrow> bool) \<Rightarrow> 'a svc \<Rightarrow> bool" where
  "kept J m \<equiv> triple (\<lambda>h. J (svc_fs h)) m (\<lambda>_. True)"

lemma run_cmd_desk [simp]: "sh_desk (snd (run_cmd so c h)) = sh_desk h"
  by (simp add: run_cmd_def raise_def seq_def run_argv_def ret_def split: option.split)

lemma kept_cmd: "kept J (run_cmd so c)"
  by (simp add: triple_def)

lemma kept_edit: "(\<And>fs fs'. J fs \<Longrightarrow> f fs = Some fs' \<Longrightarrow> J fs') \<Longrightarrow> kept J (lift_job (edit f))"
  by (auto simp: triple_def lift_job_def edit_def split: option.split)

lemma kept_look: "kept J (lift_job (look f))"
  by (simp add: triple_def lift_job_def look_def)

lemma kept_ret: "kept J (ret x)"
  by (simp add: triple_ret)

lemma kept_raise: "kept J (raise e)"
  by (rule triple_raise)

lemma kept_seq: "kept J m \<Longrightarrow> (\<And>x. kept J (k x)) \<Longrightarrow> kept J (seq m k)"
  by (rule triple_seq)

lemmas kept_rules = kept_seq kept_cmd kept_look kept_ret kept_raise

lemma kept_mkdirs: "(\<And>fs fs'. J fs \<Longrightarrow> grows fs fs' \<Longrightarrow> J fs') \<Longrightarrow> kept J (lift_job (edit (\<lambda>fs. mkdirs fs p)))"
  using mkdirs_grows by (intro kept_edit) blast

lemma install_kept:
  assumes "sv_backend s \<noteq> WindowsBackend" "\<And>fs fs'. J fs \<Longrightarrow> grows fs fs' \<Longrightarrow> J fs'"
    and "\<And>fs fs'. J fs \<Longrightarrow> write_text fs (unit_path so s) (unit_text s b) = Some fs' \<Longrightarrow> J fs'"
  shows "kept J (install_service so mc s b)"
proof -
  note mk = kept_mkdirs [OF assms(2)]
  have w: "kept J (lift_job (edit (\<lambda>fs. write_text fs (unit_path so s) (unit_text s b))))"
    using assms(3) by (rule kept_edit)
  show ?thesis
  proof (cases "sv_backend s")
    case LinuxBackend
    with w show ?thesis
      by (auto simp: install_service_def linux_install_def linux_start_def prepare_logs_def unit_path_def unit_text_def
          intro!: kept_rules mk split: option.split)
  next
    case MacOSBackend
    with w show ?thesis
      by (auto simp: install_service_def macos_install_def macos_start_def prepare_logs_def unit_path_def unit_text_def command_text_def
          intro!: kept_rules mk split: option.split)
  qed (use assms(1) in simp)
qed

lemma uninstall_kept:
  assumes "sv_backend s \<noteq> WindowsBackend" "\<And>fs fs'. J fs \<Longrightarrow> unlink fs (unit_path so s) = Some fs' \<Longrightarrow> J fs'"
  shows "kept J (uninstall_service so s)"
proof -
  have u: "kept J (lift_job (edit (\<lambda>fs. unlink fs (unit_path so s))))" using assms(2) by (rule kept_edit)
  show ?thesis
  proof (cases "sv_backend s")
    case LinuxBackend
    with u show ?thesis
      by (auto simp: uninstall_service_def linux_uninstall_def linux_stop_def unit_path_def intro!: kept_rules)
  next
    case MacOSBackend
    with u show ?thesis
      by (auto simp: uninstall_service_def macos_uninstall_def macos_stop_def unit_path_def intro!: kept_rules)
  qed (use assms(1) in simp)
qed

text \<open>After a successful installation the unit file is there.\<close>

lemma seq_done: "m h = (Inr x, h1) \<Longrightarrow> seq m k h = k x h1"
  by (simp add: seq_def)

lemma seq_InrE:
  assumes "seq m k h = (Inr y, h')"
  obtains x h1 where "m h = (Inr x, h1)" "k x h1 = (Inr y, h')"
  using assms by (auto elim: seqE)

lemma edit_InrE:
  assumes "lift_job (edit f) h = (Inr x, h')"
  obtains fs' where "f (svc_fs h) = Some fs'" "svc_fs h' = fs'"
  using assms by (auto simp: lift_job_def edit_def split: option.splits)

definition written :: "svc_os \<Rightarrow> service \<Rightarrow> bool \<Rightarrow> fs \<Rightarrow> bool" where
  "written so s b fs \<longleftrightarrow> node fs (unit_path so s) = Some (EFile (unit_text s b))"

lemma install_writes:
  assumes "sv_backend s \<noteq> WindowsBackend" "plain_at (svc_fs h) (unit_path so s)" "install_service so mc s b h = (Inr x, h')"
  shows "written so s b (svc_fs h')"
proof -
  let ?p = "unit_path so s" and ?t = "unit_text s b"
  let ?w = "lift_job (edit (\<lambda>fs. write_text fs ?p ?t))"
  let ?pre = "\<lambda>m::unit svc. kept (\<lambda>fs. plain_at fs ?p) m"
  have mk: "?pre (lift_job (edit (\<lambda>fs. mkdirs fs q)))" for q using plain_at_grows by (intro kept_mkdirs)
  have w: "written so s b (svc_fs h2)" if "?w h1 = (Inr y, h2)" "plain_at (svc_fs h1) ?p" for h1 h2 y
    using that(1) write_text_written [OF that(2)] by (elim edit_InrE) (simp add: written_def)
  have post: "kept (written so s b) (linux_start so s)" "kept (written so s b) (macos_start so s)"
    by (simp_all add: linux_start_def macos_start_def kept_cmd)
  have run: "written so s b (svc_fs h')"
    if "seq (prepare_logs s) (\<lambda>_. seq (lift_job (edit (\<lambda>fs. mkdirs fs q))) (\<lambda>_. seq ?w (\<lambda>_. m))) h = (Inr x, h')"
      "kept (written so s b) m" for q m
  proof -
    note all = that
    obtain x1 h1 where s1: "prepare_logs s h = (Inr x1, h1)"
      and r1: "seq (lift_job (edit (\<lambda>fs. mkdirs fs q))) (\<lambda>_. seq ?w (\<lambda>_. m)) h1 = (Inr x, h')" using all(1) by (rule seq_InrE)
    obtain x2 h2 where s2: "lift_job (edit (\<lambda>fs. mkdirs fs q)) h1 = (Inr x2, h2)" and r2: "seq ?w (\<lambda>_. m) h2 = (Inr x, h')"
      using r1 by (rule seq_InrE)
    obtain x3 h3 where s3: "?w h2 = (Inr x3, h3)" and s4: "m h3 = (Inr x, h')" using r2 by (rule seq_InrE)
    have "plain_at (svc_fs h2) ?p"
      using triple_use [OF mk assms(2) s1 [unfolded prepare_logs_def]] triple_use [OF mk _ s2] by blast
    from triple_use [OF all(2) w [OF s3 this] s4] show ?thesis by blast
  qed
  show ?thesis
  proof (cases "sv_backend s")
    case LinuxBackend
    then have eq: "unit_path so s = linux_unit_path so s" "unit_text s b = linux_unit s" by (simp_all add: unit_path_def unit_text_def)
    from assms(3) LinuxBackend have i: "linux_install so mc s b h = (Inr x, h')" by (simp add: install_service_def)
    show ?thesis
      by (rule run [unfolded eq, OF i [unfolded linux_install_def]])
        (use post(1) in \<open>auto intro!: kept_rules split: option.split\<close>)
  next
    case MacOSBackend
    with assms(3) have i: "macos_install so s b h = (Inr x, h')" by (simp add: install_service_def)
    then obtain c where c: "sv_command s = Some c" "split_ws c \<noteq> []"
      by (cases "sv_command s") (auto simp: macos_install_def raise_def elim!: seq_InrE split: if_splits)
    from MacOSBackend c have eq: "unit_path so s = macos_plist_path so s" "unit_text s b = macos_plist s (split_ws c) b"
      by (simp_all add: unit_path_def unit_text_def command_text_def)
    from c i have "seq (prepare_logs s) (\<lambda>_. seq (lift_job (edit (\<lambda>fs. mkdirs fs (butlast (macos_plist_path so s))))) (\<lambda>_.
        seq (lift_job (edit (\<lambda>fs. write_text fs (macos_plist_path so s) (macos_plist s (split_ws c) b)))) (\<lambda>_.
        if b then macos_start so s else ret ()))) h = (Inr x, h')" by (simp add: macos_install_def)
    from run [unfolded eq, OF this] post(2) show ?thesis by (cases b) (simp_all add: kept_ret)
  qed (use assms(1) in simp)
qed

text \<open>After a removal it is gone.\<close>

definition commands_split :: "svc_os \<Rightarrow> service \<Rightarrow> bool" where
  "commands_split so s \<longleftrightarrow>
     (if sv_backend s = LinuxBackend
      then shlex_split (''systemctl --user stop '' @ sv_name s) \<noteq> None \<and> shlex_split (''systemctl --user disable '' @ sv_name s) \<noteq> None
      else shlex_split (''launchctl unload '' @ path_str (macos_plist_path so s)) \<noteq> None)"

lemma run_cmd_succeeds:
  assumes "shlex_split c \<noteq> None" "\<forall>ran argv. so_run so ran argv \<noteq> Refused"
  obtains h1 where "run_cmd so c h = (Inr (), h1)" "sh_desk h1 = sh_desk h"
  using assms run_cmd_desk [of so c h] by (auto simp: run_cmd_def seq_def run_argv_def ret_def)

definition absent :: "svc_os \<Rightarrow> service \<Rightarrow> fs \<Rightarrow> bool" where
  "absent so s fs \<longleftrightarrow> \<not> is_file_entry (node fs (unit_path so s))"

lemma plain_file:
  assumes "plain_at fs p" "is_file_entry (node fs p)"
  shows "path_exists fs p" "unlink fs p = Some (AList.delete p fs)"
proof -
  obtain d x where p: "p = d @ [x]" "x \<noteq> ''..''" using assms(1) by (cases p rule: rev_cases) (auto simp: plain_at_def)
  with assms have d: "canonical fs d" "\<not> is_link_entry (node fs (d @ [x]))" by (auto simp: plain_at_def)
  obtain t where t: "node fs (d @ [x]) = Some (EFile t)" using assms(2) p(1) by (cases "node fs p" rule: is_file_entry.cases) auto
  show "path_exists fs p" "unlink fs p = Some (AList.delete p fs)"
    using t stat_plain [OF d(1) p(2) d(2)] lpath_canonical [OF d(1) p(2)] by (simp_all add: p(1) path_exists_def unlink_def)
qed

lemma unlink_absent:
  assumes "plain_at fs (unit_path so s)" "unlink fs (unit_path so s) = Some fs'" shows "absent so s fs'"
  using unlink_plain_at [OF assms] assms(1) by (auto simp: absent_def node_delete plain_at_def)

lemma kept_final: "kept J m \<Longrightarrow> J (svc_fs h) \<Longrightarrow> J (svc_fs (snd (m h)))"
  by (simp add: triple_def)

lemma uninstall_absent:
  assumes "sv_backend s \<noteq> WindowsBackend" "plain_at (svc_fs h) (unit_path so s)" "commands_split so s"
    "\<forall>ran argv. so_run so ran argv \<noteq> Refused"
  shows "absent so s (svc_fs (snd (uninstall_service so s h)))"
proof (cases "is_file_entry (node (svc_fs h) (unit_path so s))")
  case False
  have "kept (\<lambda>fs. plain_at fs (unit_path so s) \<and> absent so s fs) (uninstall_service so s)"
    using unlink_absent plain_at_delete unlink_plain_at by (intro uninstall_kept [OF assms(1)]) (metis (no_types, lifting))
  from kept_final [OF this] False assms(2) show ?thesis by (simp add: absent_def)
next
  case True
  let ?p = "unit_path so s" and ?u = "lift_job (edit (\<lambda>fs. unlink fs (unit_path so s)))"
  note there = plain_file [OF assms(2) True]
  have gone: "absent so s (svc_fs (snd (seq ?u k h1)))" if "sh_desk h1 = sh_desk h" "\<And>x. kept (absent so s) (k x)" for h1 k
  proof -
    let ?h2 = "h1\<lparr>sh_desk := sh_desk h1\<lparr>dk_fs := AList.delete ?p (svc_fs h)\<rparr>\<rparr>"
    have "seq ?u k h1 = k () ?h2" using there(2) that(1) by (simp add: seq_def lift_job_def edit_def)
    moreover have "absent so s (svc_fs ?h2)" using unlink_absent [OF assms(2) there(2)] by simp
    ultimately show ?thesis using kept_final [OF that(2), of ?h2] by simp
  qed
  show ?thesis
  proof (cases "sv_backend s")
    case LinuxBackend
    then have split: "shlex_split (''systemctl --user stop '' @ sv_name s) \<noteq> None" "shlex_split (''systemctl --user disable '' @ sv_name s) \<noteq> None"
      using assms(3) by (simp_all add: commands_split_def)
    obtain h1 where h1: "linux_stop so s h = (Inr (), h1)" "sh_desk h1 = sh_desk h"
      unfolding linux_stop_def by (rule run_cmd_succeeds [OF split(1) assms(4)])
    obtain h2 where h2: "run_cmd so (''systemctl --user disable '' @ sv_name s) h1 = (Inr (), h2)" "sh_desk h2 = sh_desk h1"
      by (rule run_cmd_succeeds [OF split(2) assms(4)])
    let ?k = "\<lambda>_. seq (run_cmd so ''systemctl --user daemon-reload'') (\<lambda>_. run_cmd so (''systemctl --user reset-failed '' @ sv_name s))"
    have l: "lift_job (look (\<lambda>fs. path_exists fs (linux_unit_path so s))) h = (Inr True, h)"
      using LinuxBackend there(1) by (simp add: lift_job_def look_def unit_path_def)
    have "linux_uninstall so s h = seq (lift_job (edit (\<lambda>fs. unlink fs (linux_unit_path so s)))) ?k h2"
      unfolding linux_uninstall_def seq_done [where m = "lift_job (look _)", OF l] if_not_P if_P not_not
      by (simp only: simp_thms if_False seq_done [where m = "linux_stop so s", OF h1(1)] seq_done [where m = "run_cmd so _", OF h2(1)])
    moreover have "absent so s (svc_fs (snd (seq ?u ?k h2)))" using h1(2) h2(2) by (intro gone kept_rules) simp
    ultimately show ?thesis using LinuxBackend by (simp only: uninstall_service_def backend.case unit_path_def if_True simp_thms)
  next
    case MacOSBackend
    then have split: "shlex_split (''launchctl unload '' @ path_str (macos_plist_path so s)) \<noteq> None"
      using assms(3) by (simp add: commands_split_def)
    obtain h1 where h1: "macos_stop so s h = (Inr (), h1)" "sh_desk h1 = sh_desk h"
      unfolding macos_stop_def by (rule run_cmd_succeeds [OF split assms(4)])
    from gone [of h1 ret] show ?thesis using MacOSBackend there(1) h1
      by (simp add: uninstall_service_def macos_uninstall_def unit_path_def seq_def lift_job_def look_def kept_rules)
        (auto simp: ret_def split: prod.splits sum.splits)
  qed (use assms(1) in simp)
qed

section \<open>All or nothing\<close>

definition units_ready :: "svc_os \<Rightarrow> service list \<Rightarrow> fs \<Rightarrow> bool" where
  "units_ready so ss fs \<longleftrightarrow>
     (\<forall>s \<in> set ss. sv_backend s \<noteq> WindowsBackend \<and> commands_split so s \<and> plain_at fs (unit_path so s)) \<and>
     (\<forall>s \<in> set ss. \<forall>t \<in> set ss. \<not> strict_prefix (unit_path so s) (unit_path so t))"

text \<open>The file of a service, as far as it is one.\<close>

definition same_file :: "apath \<Rightarrow> fs \<Rightarrow> fs \<Rightarrow> bool" where
  "same_file p fs fs' \<longleftrightarrow> (\<forall>x. (node fs' p = Some (EFile x)) = (node fs p = Some (EFile x)))"

lemma same_file_refl [simp]: "same_file p fs fs"
  by (simp add: same_file_def)

lemma units_ready_write:
  assumes "units_ready so ss fs" "s \<in> set ss" "write_text fs (unit_path so s) c = Some fs'"
  shows "units_ready so ss fs'" "p \<noteq> unit_path so s \<Longrightarrow> same_file p fs fs'"
proof -
  have p: "plain_at fs (unit_path so s)" using assms by (simp add: units_ready_def)
  note w = write_plain_at [OF p assms(3)]
  show "units_ready so ss fs'" using assms p plain_at_put [OF p] w by (simp add: units_ready_def)
  show "p \<noteq> unit_path so s \<Longrightarrow> same_file p fs fs'" using w p by (simp add: same_file_def node_put plain_at_def)
qed

lemma units_ready_unlink:
  assumes "units_ready so ss fs" "s \<in> set ss" "unlink fs (unit_path so s) = Some fs'"
  shows "units_ready so ss fs'" "p \<noteq> unit_path so s \<Longrightarrow> same_file p fs fs'" "absent so t fs \<Longrightarrow> absent so t fs'"
proof -
  have p: "plain_at fs (unit_path so s)" using assms by (simp add: units_ready_def)
  note u = unlink_plain_at [OF p assms(3)]
  show "units_ready so ss fs'" using assms plain_at_delete [OF p] u by (simp add: units_ready_def)
  show "p \<noteq> unit_path so s \<Longrightarrow> same_file p fs fs'" "absent so t fs \<Longrightarrow> absent so t fs'"
    using u p by (auto simp: same_file_def absent_def node_delete plain_at_def)
qed

lemma same_file_trans: "same_file p a b \<Longrightarrow> same_file p b c \<Longrightarrow> same_file p a c"
  by (simp add: same_file_def)

lemma install_frame:
  assumes "units_ready so ss (svc_fs h)" "s \<in> set ss"
  shows "units_ready so ss (svc_fs (snd (install_service so mc s b h)))"
    and "p \<noteq> unit_path so s \<Longrightarrow> same_file p (svc_fs h) (svc_fs (snd (install_service so mc s b h)))"
proof -
  have k: "kept (\<lambda>fs. units_ready so ss fs \<and> (p \<noteq> unit_path so s \<longrightarrow> same_file p (svc_fs h) fs)) (install_service so mc s b)"
  proof (rule install_kept)
    show "sv_backend s \<noteq> WindowsBackend" using assms by (simp add: units_ready_def)
  next
    fix fs fs' assume "units_ready so ss fs \<and> (p \<noteq> unit_path so s \<longrightarrow> same_file p (svc_fs h) fs)" "grows fs fs'"
    then show "units_ready so ss fs' \<and> (p \<noteq> unit_path so s \<longrightarrow> same_file p (svc_fs h) fs')"
      using plain_at_grows [of fs _ fs'] grows_entry(4) [of fs fs'] by (auto simp: units_ready_def same_file_def)
  next
    fix fs fs' assume "units_ready so ss fs \<and> (p \<noteq> unit_path so s \<longrightarrow> same_file p (svc_fs h) fs)"
      "write_text fs (unit_path so s) (unit_text s b) = Some fs'"
    then show "units_ready so ss fs' \<and> (p \<noteq> unit_path so s \<longrightarrow> same_file p (svc_fs h) fs')"
      using units_ready_write [OF _ assms(2)] same_file_trans by blast
  qed
  from kept_final [OF k, of h] assms(1)
  show "units_ready so ss (svc_fs (snd (install_service so mc s b h)))"
    "p \<noteq> unit_path so s \<Longrightarrow> same_file p (svc_fs h) (svc_fs (snd (install_service so mc s b h)))" by auto
qed

lemma uninstall_frame:
  assumes "units_ready so ss (svc_fs h)" "s \<in> set ss"
  shows "units_ready so ss (svc_fs (snd (uninstall_service so s h)))"
    and "p \<noteq> unit_path so s \<Longrightarrow> same_file p (svc_fs h) (svc_fs (snd (uninstall_service so s h)))"
    and "absent so t (svc_fs h) \<Longrightarrow> absent so t (svc_fs (snd (uninstall_service so s h)))"
proof -
  have k: "kept (\<lambda>fs. units_ready so ss fs \<and> (p \<noteq> unit_path so s \<longrightarrow> same_file p (svc_fs h) fs) \<and> (absent so t (svc_fs h) \<longrightarrow> absent so t fs))
    (uninstall_service so s)"
    using assms units_ready_unlink [OF _ assms(2)] same_file_trans
    by (intro uninstall_kept) (auto simp: units_ready_def [of so ss "svc_fs h"])
  from kept_final [OF k, of h] assms(1)
  show "units_ready so ss (svc_fs (snd (uninstall_service so s h)))"
    "p \<noteq> unit_path so s \<Longrightarrow> same_file p (svc_fs h) (svc_fs (snd (uninstall_service so s h)))"
    "absent so t (svc_fs h) \<Longrightarrow> absent so t (svc_fs (snd (uninstall_service so s h)))" by auto
qed

lemma roll_back_clears:
  assumes "\<forall>ran argv. so_run so ran argv \<noteq> Refused"
  shows "units_ready so ss (svc_fs h) \<Longrightarrow> set ts \<subseteq> set ss \<Longrightarrow>
    (\<forall>t \<in> set ts \<union> {t. absent so t (svc_fs h)}. absent so t (svc_fs (snd (roll_back so ts h)))) \<and>
    (p \<notin> unit_path so ` set ts \<longrightarrow> same_file p (svc_fs h) (svc_fs (snd (roll_back so ts h))))"
proof (induction ts arbitrary: h)
  case (Cons t ts)
  let ?h1 = "snd (uninstall_service so t h)"
  have t: "t \<in> set ss" using Cons.prems by simp
  note f = uninstall_frame [OF Cons.prems(1) t]
  have "absent so t (svc_fs ?h1)"
    using Cons.prems(1) t by (intro uninstall_absent assms) (auto simp: units_ready_def)
  with Cons.IH [OF f(1)] Cons.prems(2) f(2,3) show ?case
    by (auto simp: seq_swallow intro: same_file_trans)
qed (simp add: ret_def)

definition all_or_nothing :: "svc_os \<Rightarrow> service list \<Rightarrow> service list \<Rightarrow> bool \<Rightarrow> fs \<Rightarrow> cli_error + unit \<Rightarrow> fs \<Rightarrow> bool" where
  "all_or_nothing so ds ss b fs r fs' \<longleftrightarrow>
     (case r of
        Inr _ \<Rightarrow> \<forall>s \<in> set (ds @ ss). written so s b fs'
      | Inl e \<Rightarrow> \<exists>tried rest. ss = tried @ rest \<and> tried \<noteq> [] \<and> (\<forall>s \<in> set (ds @ tried). absent so s fs') \<and>
          (\<forall>s \<in> set rest. same_file (unit_path so s) fs fs'))"

lemma all_or_nothing_next:
  assumes "all_or_nothing so (ds @ [s]) ss b fs1 r fs'" "\<And>t. t \<in> set ss \<Longrightarrow> same_file (unit_path so t) fs fs1"
  shows "all_or_nothing so ds (s # ss) b fs r fs'"
proof (cases r)
  case (Inl e)
  with assms(1) obtain tried rest where "ss = tried @ rest" "\<forall>s \<in> set ((ds @ [s]) @ tried). absent so s fs'"
    "\<forall>s \<in> set rest. same_file (unit_path so s) fs1 fs'" by (auto simp: all_or_nothing_def)
  then have "s # ss = (s # tried) @ rest" "\<forall>t \<in> set (ds @ s # tried). absent so t fs'"
    "\<forall>t \<in> set rest. same_file (unit_path so t) fs fs'" using assms(2) same_file_trans [of _ fs fs1 fs'] by auto
  then show ?thesis unfolding all_or_nothing_def Inl sum.case by blast
qed (use assms(1) in \<open>auto simp: all_or_nothing_def\<close>)

lemma install_from_atomic:
  assumes "\<forall>ran argv. so_run so ran argv \<noteq> Refused"
  shows "distinct (map (unit_path so) (ds @ ss)) \<Longrightarrow> units_ready so (ds @ ss) (svc_fs h) \<Longrightarrow>
    \<forall>s \<in> set ds. written so s b (svc_fs h) \<Longrightarrow> install_from so mc b ds ss h = (r, h') \<Longrightarrow>
    all_or_nothing so ds ss b (svc_fs h) r (svc_fs h')"
proof (induction ss arbitrary: ds h)
  case (Cons s ss)
  obtain r1 h1 where i: "install_service so mc s b h = (r1, h1)" by fastforce
  have f: "units_ready so (ds @ s # ss) (svc_fs h1)" "\<And>p. p \<noteq> unit_path so s \<Longrightarrow> same_file p (svc_fs h) (svc_fs h1)"
    using install_frame [OF Cons.prems(2), where s = s and mc = mc and b = b] i by auto
  have frame: "same_file (unit_path so t) (svc_fs h) (svc_fs h1)" if "t \<in> set ss \<union> set ds" for t
    using that Cons.prems(1) by (intro f(2)) (auto simp: image_iff)
  show ?case
  proof (cases r1)
    case (Inl e)
    then have r: "r = Inl e" "h' = snd (roll_back so (ds @ [s]) h1)" using Cons.prems(4) i by auto
    have rb: "\<forall>t \<in> set (ds @ [s]). absent so t (svc_fs h')"
      "p \<notin> unit_path so ` set (ds @ [s]) \<Longrightarrow> same_file p (svc_fs h1) (svc_fs h')" for p
      using roll_back_clears [OF assms f(1), of "ds @ [s]" p] r(2) by auto
    have "same_file (unit_path so t) (svc_fs h) (svc_fs h')" if "t \<in> set ss" for t
      using that Cons.prems(1) by (intro same_file_trans [OF frame rb(2)]) (auto simp: image_iff)
    with rb(1) r(1) show ?thesis unfolding all_or_nothing_def
      by (simp only: sum.case) (intro exI [of _ "[s]"] exI [of _ ss], simp)
  next
    case (Inr x)
    have "plain_at (svc_fs h) (unit_path so s)" "sv_backend s \<noteq> WindowsBackend"
      using Cons.prems(2) by (auto simp: units_ready_def)
    from install_writes [OF this(2,1) i [unfolded Inr]] have w: "written so s b (svc_fs h1)" .
    have "written so t b (svc_fs h1)" if "t \<in> set ds" for t
      using that Cons.prems(3) frame [of t] by (auto simp: written_def same_file_def)
    with w Cons.IH [of "ds @ [s]" h1] Cons.prems(1,4) f(1) i Inr
    have "all_or_nothing so (ds @ [s]) ss b (svc_fs h1) r (svc_fs h')" by auto
    then show ?thesis by (rule all_or_nothing_next) (simp add: frame)
  qed
qed (auto simp: all_or_nothing_def)

text \<open>
  C17. Installing several services is all or nothing: where the unit files lie in plain directories
  and the programs of the service manager can be run, either every service has its unit file with exactly
  the generated contents, or the call raises and no service it had begun with is left with a unit
  file, including the one that failed halfway, while the files of the others are as they were.
\<close>

theorem install_all_or_nothing:
  assumes "units_ready so ss (svc_fs h)" "distinct (map (unit_path so) ss)" "\<forall>ran argv. so_run so ran argv \<noteq> Refused"
    and "install_all so mc ss b h = (r, h')"
  shows "case r of
      Inr _ \<Rightarrow> \<forall>s \<in> set ss. node (svc_fs h') (unit_path so s) = Some (EFile (unit_text s b))
    | Inl e \<Rightarrow> \<exists>tried rest. ss = tried @ rest \<and> tried \<noteq> [] \<and>
        (\<forall>s \<in> set tried. \<not> is_file_entry (node (svc_fs h') (unit_path so s))) \<and>
        (\<forall>s \<in> set rest. \<forall>x. (node (svc_fs h') (unit_path so s) = Some (EFile x)) = (node (svc_fs h) (unit_path so s) = Some (EFile x)))"
  using install_from_atomic [OF assms(3), of "[]" ss h b mc r h'] assms
  by (cases r) (simp_all add: install_all_def all_or_nothing_def written_def absent_def same_file_def)

definition sample_os :: svc_os where
  "sample_os = \<lparr>so_home = [''home''], so_run = (\<lambda>ran argv. Exited 0 []), so_admin = False, so_key = (\<lambda>n. False)\<rparr>"

definition sample_svc :: "string \<Rightarrow> service" where
  "sample_svc n = \<lparr>sv_backend = LinuxBackend, sv_name = n, sv_command = Some ''/x'', sv_description = ''d'', sv_dir = [''app''],
     sv_env = [], sv_scope = UserScope, sv_prefix = REVERSE_DNS\<rparr>"

definition sample_svc_state :: svc_state where
  "sample_svc_state = \<lparr>sh_desk = sample_desk, sh_ran = [], sh_registry = [], sh_naps = []\<rparr>"

text \<open>A user without a name: the first unit file is written, the installation fails, and the file is removed again.\<close>

theorem install_all_or_nothing_witness:
  "\<exists>h'. install_all sample_os (sample_machine\<lparr>mc_user := None\<rparr>) [sample_svc ''a'', sample_svc ''b''] True sample_svc_state = (Inl OsError, h') \<and>
     \<not> is_file_entry (node (svc_fs h') (unit_path sample_os (sample_svc ''a'')))"
proof -
  have paths: "unit_path sample_os (sample_svc n) = [''home'', ''.config'', ''systemd'', ''user'', n @ ''.service'']" for n
    by (simp add: unit_path_def linux_unit_path_def sample_svc_def sample_os_def)
  have linux: "sv_backend (sample_svc n) = LinuxBackend" for n by (simp add: sample_svc_def)
  have split: "commands_split sample_os (sample_svc ''a'')" "commands_split sample_os (sample_svc ''b'')" by code_simp+
  have none: "node (svc_fs sample_svc_state) (''home'' # q) = None" for q
    by (simp add: node_def sample_svc_state_def sample_desk_def)
  have above: "node (svc_fs sample_svc_state) (take k (''home'' # q)) = None \<or>
      is_dir_entry (node (svc_fs sample_svc_state) (take k (''home'' # q)))" for k q by (cases k) (simp_all add: none)
  have plain: "plain_at (svc_fs sample_svc_state) (unit_path sample_os (sample_svc [c]))" for c
    unfolding paths plain_at_def using above none by simp
  have ready: "units_ready sample_os [sample_svc ''a'', sample_svc ''b''] (svc_fs sample_svc_state)"
    using split plain [of "CHR ''a''"] plain [of "CHR ''b''"]
    by (simp add: units_ready_def paths strict_prefix_def linux)
  have dist: "distinct (map (unit_path sample_os) [sample_svc ''a'', sample_svc ''b''])" by (simp add: paths)
  have ok: "\<forall>ran argv. so_run sample_os ran argv \<noteq> Refused" by (simp add: sample_os_def)
  obtain r h' where run: "install_all sample_os (sample_machine\<lparr>mc_user := None\<rparr>) [sample_svc ''a'', sample_svc ''b''] True sample_svc_state = (r, h')"
    by fastforce
  moreover have "fst (install_all sample_os (sample_machine\<lparr>mc_user := None\<rparr>) [sample_svc ''a'', sample_svc ''b''] True sample_svc_state) = Inl OsError"
    by code_simp
  ultimately have "r = Inl OsError" by simp
  with install_all_or_nothing [OF ready dist ok run] run show ?thesis by (auto simp: append_eq_Cons_conv Cons_eq_append_conv)
qed

text \<open>
  A home directory with a space: \<open>launchctl\<close> gets the path of the property list in two pieces, for the command is
  built as one string and taken apart again.
\<close>

lemma plist_path_split:
  "shlex_split (''launchctl load '' @ path_str (macos_plist_path (sample_os\<lparr>so_home := [''Users'', ''a b'']\<rparr>) (sample_svc ''s''))) =
   Some [''launchctl'', ''load'', ''/Users/a'', ''b/Library/LaunchAgents/uk.co.locai.link.s.plist'']"
  by code_simp

end
