(* ===== verification/Reset.thy ===== *)
theory Reset
  imports Service
begin

text \<open>
  The \<open>reset\<close> command of \<open>main.py\<close>: a walk over a source checkout that removes build directories and files
  by name, after the services were stopped and uninstalled.
\<close>

section \<open>The root of the repository\<close>

fun find_link_repo_root :: "machine \<Rightarrow> fs \<Rightarrow> apath list \<Rightarrow> apath option" where
  "find_link_repo_root mc fs [] = None"
| "find_link_repo_root mc fs (dir # dirs) =
     (if \<not> path_exists fs (dir @ [''pyproject.toml'']) then find_link_repo_root mc fs dirs
      else (case Option.bind (read_text fs (dir @ [''pyproject.toml''])) (mc_toml mc) of
              Some (JObj d) \<Rightarrow>
                if (case dget d ''project'' of JObj pr \<Rightarrow> py_eq (dget pr ''name'') (JStr ''locai-link'') | _ \<Rightarrow> False)
                  \<or> is_dir fs (dir @ [''src'', ''link''])
                then Some dir else find_link_repo_root mc fs dirs
            | _ \<Rightarrow> find_link_repo_root mc fs dirs))"

section \<open>The walk\<close>

definition EXCLUDE_DIRS :: "string list" where
  "EXCLUDE_DIRS = [''.git'', ''.vscode'', ''.github'', ''docs'', ''node_modules'', ''target'']"

definition TARGET_DIRS :: "string list" where
  "TARGET_DIRS = [''.venv'', ''.zenoh'', ''__pycache__'', ''logs'', ''link_db'', ''dist'', ''build'', ''.pytest_cache'', ''site'',
     ''.benchmarks'', ''.ruff_cache'']"

text \<open>\<open>fnmatch\<close> for the patterns of the command.\<close>

definition is_target_file :: "bool \<Rightarrow> string \<Rightarrow> bool" where
  "is_target_file hard f \<longleftrightarrow> f = ''uv.lock'' \<or> f = ''.coverage'' \<or>
     (hard \<and> startswith f ''session_'' \<and> endswith f ''.json'' \<and> length ''session_.json'' \<le> length f)"

text \<open>The target directories of one level: how many were removed, and which directories are left.\<close>

fun remove_dirs :: "apath \<Rightarrow> string list \<Rightarrow> fs \<Rightarrow> nat \<times> string list \<times> fs" where
  "remove_dirs dir [] fs = (0, [], fs)"
| "remove_dirs dir (d # ds) fs =
     (case (if d \<in> set TARGET_DIRS then rmtree fs (dir @ [d]) else None) of
        Some fs1 \<Rightarrow> (let (k, left, fs2) = remove_dirs dir ds fs1 in (Suc k, left, fs2))
      | None \<Rightarrow> (let (k, left, fs2) = remove_dirs dir ds fs in (k, d # left, fs2)))"

fun remove_files :: "bool \<Rightarrow> apath \<Rightarrow> string list \<Rightarrow> fs \<Rightarrow> nat \<times> fs" where
  "remove_files hard dir [] fs = (0, fs)"
| "remove_files hard dir (f # ls) fs =
     (case (if is_target_file hard f then unlink fs (dir @ [f]) else None) of
        Some fs1 \<Rightarrow> (let (k, fs2) = remove_files hard dir ls fs1 in (Suc k, fs2))
      | None \<Rightarrow> remove_files hard dir ls fs)"

text \<open>
  \<open>os.walk(top, topdown=True)\<close>: a level is listed once, links to directories are listed but not
  followed, and a directory that cannot be listed is skipped.  The number bounds the depth.
\<close>

fun descend_into :: "(apath \<Rightarrow> fs \<Rightarrow> nat \<times> fs) \<Rightarrow> apath \<Rightarrow> string list \<Rightarrow> fs \<Rightarrow> nat \<times> fs" where
  "descend_into go dir [] fs = (0, fs)"
| "descend_into go dir (d # ds) fs =
     (if is_dir fs (dir @ [d]) \<and> \<not> is_symlink fs (dir @ [d]) then
        (let (k, fs1) = go (dir @ [d]) fs; (j, fs2) = descend_into go dir ds fs1 in (k + j, fs2))
      else descend_into go dir ds fs)"

primrec reset_tree :: "bool \<Rightarrow> nat \<Rightarrow> apath \<Rightarrow> fs \<Rightarrow> nat \<times> fs" where
  "reset_tree hard 0 = (\<lambda>dir fs. (0, fs))"
| "reset_tree hard (Suc n) = (\<lambda>dir fs.
     (let names = iterdir fs dir;
          dirs = filter (\<lambda>x. x \<notin> set EXCLUDE_DIRS) (filter (\<lambda>x. is_dir fs (dir @ [x])) names);
          files = filter (\<lambda>x. \<not> is_dir fs (dir @ [x])) names;
          (k1, left, fs1) = remove_dirs dir dirs fs;
          (k2, fs2) = remove_files hard dir files fs1;
          (k3, fs3) = descend_into (reset_tree hard n) dir left fs2
      in (k1 + k2 + k3, fs3)))"

definition depth :: "fs \<Rightarrow> nat" where
  "depth fs = fold (\<lambda>e. max (length (fst e))) fs 0"

text \<open>The number of removed items, or the refusal.\<close>

definition reset :: "machine \<Rightarrow> bool \<Rightarrow> fs \<Rightarrow> (int + nat) \<times> fs" where
  "reset mc hard fs =
     (case find_link_repo_root mc fs (rev (prefixes (mc_cwd mc))) of
        None \<Rightarrow> (Inl 1, fs)
      | Some base \<Rightarrow> (let (k, fs1) = reset_tree hard (Suc (depth fs)) base fs in (Inr k, fs1)))"

text \<open>The whole command: the services first, whatever happens to them.\<close>

definition reset_command :: "svc_os \<Rightarrow> machine \<Rightarrow> bool \<Rightarrow> svc_state \<Rightarrow> (int + nat) \<times> svc_state" where
  "reset_command so mc hard h =
     (let h1 = snd (remove_services so mc h); (r, fs) = reset mc hard (svc_fs h1)
      in (r, h1\<lparr>sh_desk := sh_desk h1\<lparr>dk_fs := fs\<rparr>\<rparr>))"

section \<open>What is removed\<close>

text \<open>A path at or below a target directory, or a target file, that is reached without entering an excluded directory.\<close>

definition removable :: "bool \<Rightarrow> apath \<Rightarrow> apath \<Rightarrow> bool" where
  "removable hard base q \<longleftrightarrow>
     (\<exists>p x cs. q = base @ p @ x # cs \<and> set p \<inter> set EXCLUDE_DIRS = {} \<and>
        (x \<in> set TARGET_DIRS \<or> cs = [] \<and> is_target_file hard x))"

definition only_removed :: "bool \<Rightarrow> apath \<Rightarrow> fs \<Rightarrow> fs \<Rightarrow> bool" where
  "only_removed hard base fs fs' \<longleftrightarrow>
     (\<forall>q. node fs' q = node fs q \<or> node fs' q = None \<and> removable hard base q) \<and> fst ` set fs' \<subseteq> fst ` set fs"

lemma only_removed_refl [simp]: "only_removed hard base fs fs"
  by (simp add: only_removed_def)

lemma only_removed_trans: "only_removed hard base a b \<Longrightarrow> only_removed hard base b c \<Longrightarrow> only_removed hard base a c"
  unfolding only_removed_def
proof (intro conjI allI)
  fix q
  assume "(\<forall>q. node b q = node a q \<or> node b q = None \<and> removable hard base q) \<and> fst ` set b \<subseteq> fst ` set a"
    and "(\<forall>q. node c q = node b q \<or> node c q = None \<and> removable hard base q) \<and> fst ` set c \<subseteq> fst ` set b"
  then show "node c q = node a q \<or> node c q = None \<and> removable hard base q" by metis
qed (elim conjE, rule subset_trans)

lemma removable_below:
  assumes "set p \<inter> set EXCLUDE_DIRS = {}" "removable hard (base @ p) q" shows "removable hard base q"
proof -
  obtain p' x cs where q: "q = (base @ p) @ p' @ x # cs" "set p' \<inter> set EXCLUDE_DIRS = {}" "x \<in> set TARGET_DIRS \<or> cs = [] \<and> is_target_file hard x"
    using assms(2) by (auto simp: removable_def)
  with assms(1) show ?thesis unfolding removable_def by (intro exI [of _ "p @ p'"] exI [of _ x] exI [of _ cs]) auto
qed

lemma only_removed_below:
  "set p \<inter> set EXCLUDE_DIRS = {} \<Longrightarrow> only_removed hard (base @ p) a b \<Longrightarrow> only_removed hard base a b"
  unfolding only_removed_def using removable_below by blast

text \<open>The directory itself and those above it stay.\<close>

lemma only_removed_canonical:
  assumes "only_removed hard dir fs fs'" "canonical fs dir" shows "canonical fs' dir"
proof -
  have "\<not> removable hard dir (take k dir)" for k
    by (auto simp: removable_def dest!: arg_cong [of _ _ length])
  with assms show ?thesis unfolding only_removed_def canonical_def by metis
qed

lemma rmtree_removed:
  assumes "canonical fs dir" "d \<noteq> ''..''" "d \<in> set TARGET_DIRS" "rmtree fs (dir @ [d]) = Some fs'"
  shows "only_removed hard dir fs fs'"
proof -
  have fs': "fs' = drop_tree (dir @ [d]) fs"
    using assms by (auto simp: rmtree_def lpath_canonical split: if_splits)
  have "removable hard dir (dir @ d # zs)" for zs
    using assms(3) unfolding removable_def by (intro exI [of _ "[]"] exI [of _ d] exI [of _ zs]) auto
  then have "removable hard dir q" if "prefix (dir @ [d]) q" for q
    using that by (auto simp: prefix_def)
  then show ?thesis unfolding fs' by (auto simp: only_removed_def node_drop_tree) (force simp: drop_tree_def)
qed

lemma unlink_removed:
  assumes "canonical fs dir" "f \<noteq> ''..''" "is_target_file hard f" "unlink fs (dir @ [f]) = Some fs'"
  shows "only_removed hard dir fs fs'"
proof -
  have fs': "fs' = AList.delete (dir @ [f]) fs"
    using assms by (auto simp: unlink_def lpath_canonical split: option.splits entry.splits)
  have "removable hard dir (dir @ [f])"
    using assms(3) unfolding removable_def by (intro exI [of _ "[]"] exI [of _ f]) auto
  then show ?thesis unfolding fs' using dom_delete_subset [of "dir @ [f]" fs] by (auto simp: only_removed_def node_delete)
qed

lemma remove_dirs_removed:
  "canonical fs dir \<Longrightarrow> ''..'' \<notin> set ds \<Longrightarrow> remove_dirs dir ds fs = (k, left, fs') \<Longrightarrow>
   only_removed hard dir fs fs' \<and> set left \<subseteq> set ds"
proof (induction dir ds fs arbitrary: k left fs' rule: remove_dirs.induct)
  case (2 dir d ds fs)
  show ?case
  proof (cases "if d \<in> set TARGET_DIRS then rmtree fs (dir @ [d]) else None")
    case None
    with 2 show ?thesis by (auto split: prod.splits)
  next
    case (Some fs1)
    then have r: "only_removed hard dir fs fs1" using rmtree_removed [of fs dir d fs1 hard] 2(3,4) by (auto split: if_splits)
    from 2(2) [OF Some only_removed_canonical [OF r 2(3)]] 2(4,5) Some r only_removed_trans show ?thesis
      by (fastforce split: prod.splits)
  qed
qed simp

lemma remove_files_removed:
  "canonical fs dir \<Longrightarrow> ''..'' \<notin> set ls \<Longrightarrow> only_removed hard dir fs (snd (remove_files hard dir ls fs))"
proof (induction hard dir ls fs rule: remove_files.induct)
  case (2 hard dir f ls fs)
  show ?case
  proof (cases "if is_target_file hard f then unlink fs (dir @ [f]) else None")
    case None
    with 2 show ?thesis by simp
  next
    case (Some fs1)
    then have r: "only_removed hard dir fs fs1" using unlink_removed [of fs dir f hard fs1] 2(3,4) by (auto split: if_splits)
    from 2(2) [OF Some only_removed_canonical [OF r 2(3)]] 2(4) Some only_removed_trans [OF r] show ?thesis
      by (auto split: prod.splits)
  qed
qed simp

text \<open>What the function that is called for a directory does there.\<close>

definition clears :: "bool \<Rightarrow> (apath \<Rightarrow> fs \<Rightarrow> nat \<times> fs) \<Rightarrow> bool" where
  "clears hard go \<longleftrightarrow> (\<forall>dir fs. canonical fs dir \<longrightarrow> only_removed hard dir fs (snd (go dir fs)))"

lemma entered_canonical:
  "canonical fs dir \<Longrightarrow> d \<noteq> ''..'' \<Longrightarrow> is_dir fs (dir @ [d]) \<Longrightarrow> \<not> is_symlink fs (dir @ [d]) \<Longrightarrow> canonical fs (dir @ [d])"
  by (simp add: is_dir_def is_symlink_def lstat_canonical stat_plain canonical_Snoc)

lemma descend_into_removed:
  assumes "clears hard go"
  shows "canonical fs dir \<Longrightarrow> ''..'' \<notin> set ds \<Longrightarrow> set ds \<inter> set EXCLUDE_DIRS = {} \<Longrightarrow>
    only_removed hard dir fs (snd (descend_into go dir ds fs))"
proof (induction ds arbitrary: fs)
  case (Cons d ds)
  show ?case
  proof (cases "is_dir fs (dir @ [d]) \<and> \<not> is_symlink fs (dir @ [d])")
    case True
    let ?fs1 = "snd (go (dir @ [d]) fs)"
    have "canonical fs (dir @ [d])" using True Cons.prems entered_canonical [of fs dir d] by auto
    with assms have "only_removed hard (dir @ [d]) fs ?fs1" by (simp add: clears_def)
    then have r: "only_removed hard dir fs ?fs1" using only_removed_below [of "[d]"] Cons.prems(3) by simp
    from Cons.IH [OF only_removed_canonical [OF r Cons.prems(1)]] Cons.prems only_removed_trans [OF r] True show ?thesis
      by (auto split: prod.splits)
  next
    case False
    with Cons show ?thesis by auto
  qed
qed simp

lemma child_names_plain: "''..'' \<notin> set (child_names fs dir)"
  by (auto simp: child_names_def)

lemma iterdir_plain: "''..'' \<notin> set (iterdir fs dir)"
  using child_names_plain by (auto simp: iterdir_def split: option.splits)

lemma reset_level:
  assumes "clears hard (reset_tree hard n)" "canonical fs dir"
  shows "only_removed hard dir fs (snd (reset_tree hard (Suc n) dir fs))"
proof -
  let ?dirs = "filter (\<lambda>x. x \<notin> set EXCLUDE_DIRS) (filter (\<lambda>x. is_dir fs (dir @ [x])) (iterdir fs dir))"
  let ?files = "filter (\<lambda>x. \<not> is_dir fs (dir @ [x])) (iterdir fs dir)"
  obtain k1 left fs1 where 1: "remove_dirs dir ?dirs fs = (k1, left, fs1)" by (rule prod_cases3)
  obtain k2 fs2 where 2: "remove_files hard dir ?files fs1 = (k2, fs2)" by fastforce
  have r1: "only_removed hard dir fs fs1" "set left \<subseteq> set ?dirs"
    using remove_dirs_removed [OF assms(2) _ 1, of hard] iterdir_plain [of fs dir] by auto
  note can1 = only_removed_canonical [OF r1(1) assms(2)]
  have r2: "only_removed hard dir fs1 fs2"
    using remove_files_removed [OF can1, of ?files hard] iterdir_plain [of fs dir] 2 by auto
  have l: "''..'' \<notin> set left" "set left \<inter> set EXCLUDE_DIRS = {}" using r1(2) iterdir_plain [of fs dir] by auto
  from descend_into_removed [OF assms(1) only_removed_canonical [OF r2 can1] l]
  have "only_removed hard dir fs (snd (descend_into (reset_tree hard n) dir left fs2))"
    by (rule only_removed_trans [OF only_removed_trans [OF r1(1) r2]])
  with 1 2 show ?thesis by (simp add: Let_def split: prod.split) (auto split: prod.splits)
qed

lemma reset_tree_clears: "clears hard (reset_tree hard n)"
proof (induction n)
  case (Suc n)
  with reset_level [OF Suc] show ?case by (simp add: clears_def del: reset_tree.simps)
qed (simp add: clears_def)

section \<open>The depth is enough\<close>

text \<open>More than the depth of the tree changes nothing, so the bound does not cut the walk off.\<close>

definition shallow :: "nat \<Rightarrow> fs \<Rightarrow> bool" where
  "shallow k fs \<longleftrightarrow> (\<forall>q v. (q, v) \<in> set fs \<longrightarrow> length q \<le> k)"

lemma shallow_mono: "shallow k fs \<Longrightarrow> fst ` set fs' \<subseteq> fst ` set fs \<Longrightarrow> shallow k fs'"
  unfolding shallow_def by (metis (no_types, lifting) fst_conv image_iff prod.collapse subsetD)

lemma no_children:
  assumes "canonical fs dir" "shallow (length dir) fs" shows "iterdir fs dir = []"
proof -
  have "butlast q \<noteq> dir \<or> q = []" if "(q, v) \<in> set fs" for q v
    using assms(2) that by (cases q rule: rev_cases) (auto simp: shallow_def)
  with assms(1) show ?thesis by (auto simp: iterdir_def child_names_def realpath_canonical filter_empty_conv)
qed

lemma descend_into_cong:
  assumes "clears hard go"
    and "\<And>d fs'. canonical fs' (dir @ [d]) \<Longrightarrow> fst ` set fs' \<subseteq> K \<Longrightarrow> go (dir @ [d]) fs' = go' (dir @ [d]) fs'"
  shows "canonical fs dir \<Longrightarrow> ''..'' \<notin> set ds \<Longrightarrow> set ds \<inter> set EXCLUDE_DIRS = {} \<Longrightarrow> fst ` set fs \<subseteq> K \<Longrightarrow>
    descend_into go dir ds fs = descend_into go' dir ds fs"
proof (induction ds arbitrary: fs)
  case (Cons d ds)
  show ?case
  proof (cases "is_dir fs (dir @ [d]) \<and> \<not> is_symlink fs (dir @ [d])")
    case True
    then have can: "canonical fs (dir @ [d])" using Cons.prems entered_canonical [of fs dir d] by auto
    let ?fs1 = "snd (go (dir @ [d]) fs)"
    from assms(1) can have "only_removed hard (dir @ [d]) fs ?fs1" by (simp add: clears_def)
    then have r: "only_removed hard dir fs ?fs1" using only_removed_below [of "[d]"] Cons.prems(3) by simp
    then have "fst ` set ?fs1 \<subseteq> K" using Cons.prems(4) unfolding only_removed_def by (metis subset_trans)
    with Cons.IH [OF only_removed_canonical [OF r Cons.prems(1)]] Cons.prems True assms(2) [OF can Cons.prems(4)] show ?thesis
      by (auto split: prod.splits)
  next
    case False
    with Cons show ?thesis by auto
  qed
qed simp

lemma reset_tree_enough:
  "canonical fs dir \<Longrightarrow> shallow (length dir + n) fs \<Longrightarrow> n \<le> m \<Longrightarrow>
   reset_tree hard (Suc m) dir fs = reset_tree hard (Suc n) dir fs"
proof (induction n arbitrary: m dir fs)
  case 0
  have "iterdir fs dir = []" using no_children [OF 0(1)] 0(2) by simp
  then show ?case by simp
next
  case (Suc n)
  then obtain m' where m: "m = Suc m'" "n \<le> m'" by (cases m) auto
  let ?dirs = "filter (\<lambda>x. x \<notin> set EXCLUDE_DIRS) (filter (\<lambda>x. is_dir fs (dir @ [x])) (iterdir fs dir))"
  let ?files = "filter (\<lambda>x. \<not> is_dir fs (dir @ [x])) (iterdir fs dir)"
  obtain k1 left fs1 where 1: "remove_dirs dir ?dirs fs = (k1, left, fs1)" by (rule prod_cases3)
  obtain k2 fs2 where 2: "remove_files hard dir ?files fs1 = (k2, fs2)" by fastforce
  have r1: "only_removed hard dir fs fs1" "set left \<subseteq> set ?dirs"
    using remove_dirs_removed [OF Suc.prems(1) _ 1, of hard] iterdir_plain [of fs dir] by auto
  note can1 = only_removed_canonical [OF r1(1) Suc.prems(1)]
  have r2: "only_removed hard dir fs1 fs2"
    using remove_files_removed [OF can1, of ?files hard] iterdir_plain [of fs dir] 2 by auto
  have l: "''..'' \<notin> set left" "set left \<inter> set EXCLUDE_DIRS = {}" using r1(2) iterdir_plain [of fs dir] by auto
  have k: "fst ` set fs2 \<subseteq> fst ` set fs" using only_removed_trans [OF r1(1) r2] by (simp add: only_removed_def)
  have "reset_tree hard (Suc m') (dir @ [d]) fs' = reset_tree hard (Suc n) (dir @ [d]) fs'"
    if "canonical fs' (dir @ [d])" "fst ` set fs' \<subseteq> fst ` set fs" for d fs'
    using that shallow_mono [OF Suc.prems(2)] by (intro Suc.IH m(2)) simp_all
  from descend_into_cong [OF reset_tree_clears this only_removed_canonical [OF r2 can1] l k] 1 2 m(1) show ?case
    by (simp add: Let_def del: reset_tree.simps(2)) (simp add: Let_def)
qed

lemma depth_bound: "shallow (depth fs) fs"
proof -
  have "length q \<le> k \<or> (q, v) \<in> set fs \<Longrightarrow> length q \<le> fold (\<lambda>e. max (length (fst e))) fs k" for q v k
  proof (induction fs arbitrary: k)
    case (Cons e fs)
    have "length q \<le> max (length (fst e)) k \<or> (q, v) \<in> set fs" using Cons.prems by auto
    with Cons.IH show ?case by simp
  qed simp
  then show ?thesis by (auto simp: depth_def shallow_def)
qed

lemma shallow_le: "shallow k fs \<Longrightarrow> k \<le> l \<Longrightarrow> shallow l fs"
  unfolding shallow_def by (meson le_trans)

lemma reset_complete:
  "canonical fs base \<Longrightarrow> depth fs \<le> n \<Longrightarrow> reset_tree hard (Suc n) base fs = reset_tree hard (Suc (depth fs)) base fs"
  using reset_tree_enough [of fs base "depth fs" n hard] shallow_le [OF depth_bound] by simp

section \<open>The command\<close>

lemma repo_root_found:
  "find_link_repo_root mc fs dirs = Some base \<Longrightarrow> base \<in> set dirs \<and> path_exists fs (base @ [''pyproject.toml''])"
  by (induction dirs) (auto split: if_splits option.splits json.splits)

lemma repo_root_above:
  assumes "canonical fs (mc_cwd mc)" "find_link_repo_root mc fs (rev (prefixes (mc_cwd mc))) = Some base"
  shows "prefix base (mc_cwd mc) \<and> canonical fs base"
  using repo_root_found [OF assms(2)] assms(1) canonical_prefix by (auto simp: prefix_def)

lemma reset_walk:
  assumes "canonical fs (mc_cwd mc)" "find_link_repo_root mc fs (rev (prefixes (mc_cwd mc))) = Some base"
  shows "\<exists>k fs'. reset mc hard fs = (Inr k, fs') \<and> only_removed hard base fs fs'"
proof -
  obtain k fs' where w: "reset_tree hard (Suc (depth fs)) base fs = (k, fs')" by fastforce
  moreover have "only_removed hard base fs (snd (reset_tree hard (Suc (depth fs)) base fs))"
    using reset_tree_clears repo_root_above [OF assms] unfolding clears_def by blast
  ultimately show ?thesis using assms(2) by (simp add: reset_def del: reset_tree.simps)
qed

text \<open>
  Where the working directory and those above it are directories, the reset command refuses with exit code 1 and
  changes nothing, or there is a directory at or above the working directory that holds a
  \<open>pyproject.toml\<close> and everything that is gone afterwards was below it: in one of the target
  directories, or a target file by name, and reached without passing through an excluded directory (version
  control, editor settings, documentation, dependencies).  All else is as it was, and session files are removed only by a
  hard reset.
\<close>

lemma reset_contained:
  assumes "canonical fs (mc_cwd mc)"
  shows "reset mc hard fs = (Inl 1, fs) \<or>
    (\<exists>base k fs'. reset mc hard fs = (Inr k, fs') \<and> prefix base (mc_cwd mc) \<and> path_exists fs (base @ [''pyproject.toml'']) \<and>
       (\<forall>q. node fs' q = node fs q \<or> node fs' q = None \<and>
          (\<exists>p x cs. q = base @ p @ x # cs \<and> set p \<inter> set EXCLUDE_DIRS = {} \<and>
             (x \<in> set TARGET_DIRS \<or> cs = [] \<and> is_target_file hard x))))"
proof (cases "find_link_repo_root mc fs (rev (prefixes (mc_cwd mc)))")
  case None
  then show ?thesis by (simp add: reset_def)
next
  case (Some base)
  from reset_walk [OF assms this, of hard] obtain k fs' where "reset mc hard fs = (Inr k, fs')" "only_removed hard base fs fs'" by blast
  with repo_root_above [OF assms Some] repo_root_found [OF Some] show ?thesis
    unfolding only_removed_def removable_def by metis
qed

definition sample_repo :: fs where
  "sample_repo = [([''app''], EDir 0), ([''app'', ''pyproject.toml''], EFile ''p''), ([''app'', ''src''], EDir 0),
     ([''app'', ''src'', ''link''], EDir 0), ([''app'', ''docs''], EDir 0), ([''app'', ''docs'', ''logs''], EDir 0),
     ([''app'', ''logs''], EDir 0), ([''app'', ''logs'', ''x''], EFile ''y''), ([''app'', ''configs''], EDir 0),
     ([''app'', ''configs'', ''session_default.json''], EFile ''{}''), ([''app'', ''configs'', ''.machine_id''], EFile ''u-u'')]"

definition repo_machine :: machine where
  "repo_machine = sample_machine\<lparr>mc_toml := (\<lambda>s. Some (JObj [(''project'', JObj [(''name'', JStr ''locai-link'')])]))\<rparr>"

lemma reset_runs:
  "fst (reset repo_machine True sample_repo) = Inr 2"
  "node (snd (reset repo_machine True sample_repo)) [''app'', ''logs'', ''x''] = None"
  "node (snd (reset repo_machine True sample_repo)) [''app'', ''configs'', ''session_default.json''] = None"
  "node (snd (reset repo_machine True sample_repo)) [''app'', ''docs'', ''logs''] = Some (EDir 0)"
  by code_simp+

lemma sample_repo_canonical: "canonical sample_repo (mc_cwd repo_machine)"
  using canonical_Snoc [of sample_repo "[]" "''app''"] by (simp add: sample_repo_def repo_machine_def sample_machine_def node_def)

lemma reset_contained_witness:
  "\<exists>base k fs'. reset repo_machine True sample_repo = (Inr k, fs') \<and> prefix base (mc_cwd repo_machine) \<and>
     (\<forall>q. node fs' q = node sample_repo q \<or> node fs' q = None \<and>
        (\<exists>p x cs. q = base @ p @ x # cs \<and> set p \<inter> set EXCLUDE_DIRS = {} \<and>
           (x \<in> set TARGET_DIRS \<or> cs = [] \<and> is_target_file True x)))"
  using reset_contained [OF sample_repo_canonical, of True] reset_runs(1)
  by (metis fst_conv sum.distinct(1))

text \<open>
  The fallback machine identifier is kept next to the session files, where a comment says that a hard reset clears
  it; no reset from the root of the repository does.
\<close>

lemma machine_id_not_removable: "\<not> removable hard base (base @ [''configs'', ''.machine_id''])"
  by (auto simp: removable_def TARGET_DIRS_def is_target_file_def startswith_def Cons_eq_append_conv)

lemma reset_keeps_machine_id:
  assumes "canonical fs (mc_cwd mc)" "find_link_repo_root mc fs (rev (prefixes (mc_cwd mc))) = Some (mc_cwd mc)"
  shows "node (snd (reset mc hard fs)) (FALLBACK_FILE mc) = node fs (FALLBACK_FILE mc)"
  using reset_walk [OF assms, of hard] machine_id_not_removable [of hard "mc_cwd mc"]
  by (auto simp: only_removed_def FALLBACK_FILE_def)

end
