(* ===== verification/Zenoh.thy ===== *)
theory Zenoh
  imports Service Models
begin

text \<open>
  \<open>infra/zenoh.py\<close> and \<open>adapters/zenoh_client.py\<close>: the local Zenoh router as a service and the session of a client.
  The zenoh library is a parameter: which configuration entries it accepts, whether a session opens, and
  whether it reports a connected router.
\<close>

section \<open>The library\<close>

datatype probe = RouterUp | RouterAbsent | ProbeUnsupported | ProbeError

record zlib =
  zl_dumps :: "json \<Rightarrow> string"
  zl_pretty :: "json \<Rightarrow> string"
  zl_certifi :: string
  zl_accepts :: "string \<Rightarrow> string \<Rightarrow> bool"
  zl_open :: "nat \<Rightarrow> (string \<times> string) list \<Rightarrow> bool"
  zl_probe :: "nat \<Rightarrow> probe"
  zl_took :: "nat \<Rightarrow> nat"

text \<open>\<open>s.replace(old, new)\<close> for a pattern that is not empty.\<close>

fun py_replace :: "string \<Rightarrow> string \<Rightarrow> string \<Rightarrow> string" where
  "py_replace old new [] = []"
| "py_replace old new (c # s) =
     (if startswith (c # s) old then new @ py_replace old new (drop (length old - 1) s) else c # py_replace old new s)"

definition nap :: "nat \<Rightarrow> unit svc" where
  "nap ms h = (Inr (), h\<lparr>sh_naps := sh_naps h @ [ms]\<rparr>)"

section \<open>The router\<close>

record zenoh_router =
  zr_dir :: apath
  zr_working_dir :: apath
  zr_config_path :: apath
  zr_binary_path :: apath
  zr_env_vars :: "(string, string) dict"

text \<open>\<open>d.get(k, default)\<close>.\<close>

definition dget_or :: "jdict \<Rightarrow> string \<Rightarrow> json \<Rightarrow> json" where
  "dget_or d k v = (case map_of d k of None \<Rightarrow> v | Some x \<Rightarrow> x)"

text \<open>The document of \<open>_write_config_file\<close>; a backend that is not a string becomes a key the way \<open>json\<close> writes it.\<close>

definition router_document :: "zlib \<Rightarrow> jdict \<Rightarrow> cli_error + json" where
  "router_document zl config =
     (let doc = (\<lambda>plugins. JObj [(''mode'', JStr ''router''),
            (''listen'', JObj [(''endpoints'', dget_or config ''endpoints'' (JArr [JStr ''tcp/0.0.0.0:7447'']))]),
            (''plugins'', JObj plugins)]) in
      case map_of config ''storage'' of
        None \<Rightarrow> Inr (doc [])
      | Some (JObj s_conf) \<Rightarrow>
          (let backend = dget_or s_conf ''type'' (JStr ''rocksdb'');
               db_dir = dget_or s_conf ''dir'' (JStr ''link_db'') in
           case dget_or s_conf ''key_expr'' (JStr ''locai/devices/**'') of
             JStr key_expr \<Rightarrow>
               if is_arr backend \<or> is_obj backend then Inl TypeErr
               else Inr (doc [(''storage_manager'', JObj [
                 (''volumes'', JObj [(case backend of JStr b \<Rightarrow> b | _ \<Rightarrow> zl_dumps zl backend, JObj [])]),
                 (''storages'', JObj [(''main_storage'', JObj [
                   (''key_expr'', JStr key_expr), (''strip_prefix'', JStr (py_replace ''/**'' [] key_expr)),
                   (''volume'', JObj [(''id'', backend), (''dir'', db_dir), (''create_db'', JBool True)])])])])])
           | _ \<Rightarrow> Inl (if is_arr backend \<or> is_obj backend then TypeErr else AttributeErr))
      | Some _ \<Rightarrow> Inl AttributeErr)"

definition write_config_file :: "zlib \<Rightarrow> jdict \<Rightarrow> apath \<Rightarrow> unit svc" where
  "write_config_file zl config path =
     (case router_document zl config of
        Inl e \<Rightarrow> raise e
      | Inr doc \<Rightarrow> lift_job (edit (\<lambda>fs. write_text fs path (zl_pretty zl doc))))"

definition root_key :: "jdict \<Rightarrow> cli_error + string" where
  "root_key config =
     (case map_of config ''storage'' of
        None \<Rightarrow> Inr ''ZENOH_BACKEND_ROCKSDB_ROOT''
      | Some (JObj s) \<Rightarrow>
          Inr (if py_eq (dget_or s ''type'' (JStr ''rocksdb'')) (JStr ''rocksdb'') then ''ZENOH_BACKEND_ROCKSDB_ROOT''
               else ''ZENOH_BACKEND_FS_ROOT'')
      | Some _ \<Rightarrow> Inl AttributeErr)"

definition new_router :: "machine \<Rightarrow> zlib \<Rightarrow> jdict \<Rightarrow> apath option \<Rightarrow> apath option \<Rightarrow> apath option \<Rightarrow> zenoh_router svc" where
  "new_router mc zl config config_path zenoh_dir working_dir =
     (let zd = (case zenoh_dir of None \<Rightarrow> mc_cwd mc @ [''.zenoh''] | Some d \<Rightarrow> d);
          wd = (case working_dir of None \<Rightarrow> mc_cwd mc | Some d \<Rightarrow> d);
          conf = (if config \<noteq> [] then zd @ [''generated_router.json5'']
                  else case config_path of None \<Rightarrow> mc_cwd mc @ [''configs'', ''zenoh_router.json5''] | Some p \<Rightarrow> p) in
      seq (lift_job (edit (\<lambda>fs. mkdirs fs zd))) (\<lambda>_.
      seq (if config \<noteq> [] then write_config_file zl config conf else ret ()) (\<lambda>_.
      (case root_key config of
         Inl e \<Rightarrow> raise e
       | Inr k \<Rightarrow>
           ret \<lparr>zr_dir = zd, zr_working_dir = wd, zr_config_path = conf, zr_binary_path = zd @ [router_binary mc],
                zr_env_vars = [(''RUST_LOG'', ''info''), (k, path_str wd)]\<rparr>))))"

definition router_running :: "svc_os \<Rightarrow> machine \<Rightarrow> bool svc" where
  "router_running so mc = seq (service_named mc ''zenohd'') (service_running so)"

definition router_command :: "zenoh_router \<Rightarrow> string" where
  "router_command zr =
     [chr_dquote] @ path_str (zr_binary_path zr) @ [chr_dquote] @ '' -c '' @
     [chr_dquote] @ path_str (zr_config_path zr) @ [chr_dquote]"

definition install_router_service :: "svc_os \<Rightarrow> machine \<Rightarrow> zenoh_router \<Rightarrow> bool \<Rightarrow> unit svc" where
  "install_router_service so mc zr start_now =
     seq (lift_job (look (\<lambda>fs. path_exists fs (zr_binary_path zr)))) (\<lambda>there.
     if \<not> there then ret ()
     else
       seq (seq (service_named mc ''zenohd'') (service_installed so)) (\<lambda>installed.
       if installed then
         (if \<not> start_now then ret ()
          else seq (router_running so mc) (\<lambda>up.
            if up then ret () else seq (service_named mc ''zenohd'') (start_service so)))
       else
         (case ServiceManager mc ''zenohd'' (Some (router_command zr)) ''Loc.ai Network Router'' (Some (zr_working_dir zr))
                 (zr_env_vars zr) UserScope REVERSE_DNS of
            Inl e \<Rightarrow> raise e
          | Inr s \<Rightarrow> install_service so mc s start_now)))"

definition stop_router_service :: "svc_os \<Rightarrow> machine \<Rightarrow> unit svc" where
  "stop_router_service so mc = swallow (seq (service_named mc ''zenohd'') (stop_service so))"

definition uninstall_router_service :: "svc_os \<Rightarrow> machine \<Rightarrow> unit svc" where
  "uninstall_router_service so mc = swallow (seq (service_named mc ''zenohd'') (uninstall_service so))"

primrec wait_running :: "svc_os \<Rightarrow> machine \<Rightarrow> nat \<Rightarrow> unit svc" where
  "wait_running so mc 0 = raise RouterFailed"
| "wait_running so mc (Suc n) =
     seq (router_running so mc) (\<lambda>up. if up then ret () else seq (nap 500) (\<lambda>_. wait_running so mc n))"

definition ensure_router_running :: "svc_os \<Rightarrow> machine \<Rightarrow> zlib \<Rightarrow> jdict \<Rightarrow> unit svc" where
  "ensure_router_running so mc zl args =
     seq (new_router mc zl args None None None) (\<lambda>zr.
     seq (router_running so mc) (\<lambda>up.
     if up then ret ()
     else seq (install_router_service so mc zr True) (\<lambda>_. wait_running so mc 20)))"

section \<open>The client\<close>

fun mode_text :: "zenoh_mode \<Rightarrow> string" where
  "mode_text ModeClient = ''client''"
| "mode_text ModePeer = ''peer''"
| "mode_text ModeRouter = ''router''"

definition uses_tls :: "transport_args \<Rightarrow> bool" where
  "uses_tls cfg = list_ex (\<lambda>ep. startswith ep ''tls/'') (ta_endpoints cfg)"

definition nonempty :: "string option \<Rightarrow> bool" where
  "nonempty x \<longleftrightarrow> x \<noteq> None \<and> x \<noteq> Some []"

text \<open>The entries \<open>_build_config\<close> inserts, in order.\<close>

definition client_entries :: "zlib \<Rightarrow> transport_args \<Rightarrow> (string \<times> string) list" where
  "client_entries zl cfg =
     [(''mode'', [chr_dquote] @ mode_text (ta_mode cfg) @ [chr_dquote])] @
     (if ta_endpoints cfg = [] then []
      else [(if ta_mode cfg = ModeRouter then ''listen/endpoints'' else ''connect/endpoints'',
             zl_dumps zl (JArr (map JStr (ta_endpoints cfg))))]) @
     (if uses_tls cfg
      then [(''transport/link/tls/root_ca_certificate'',
             zl_dumps zl (JStr (case ta_tls_root_ca cfg of
                None \<Rightarrow> zl_certifi zl
              | Some ca \<Rightarrow> if ca = [] \<or> ca = ''auto'' then zl_certifi zl else ca)))]
      else []) @
     (if nonempty (ta_username cfg) \<and> nonempty (ta_password cfg) \<and> uses_tls cfg
      then [(''transport/auth/usrpwd'',
             zl_dumps zl (JObj [(''user'', JStr (the (ta_username cfg))), (''password'', JStr (the (ta_password cfg)))]))]
      else [])"

definition build_config :: "zlib \<Rightarrow> jdict \<Rightarrow> cli_error + (string \<times> string) list" where
  "build_config zl args =
     (case parse_transport_args (JObj args) of
        None \<Rightarrow> Inl ConfigError
      | Some cfg \<Rightarrow>
          (let es = client_entries zl cfg in
           if list_all (\<lambda>e. zl_accepts zl (fst e) (snd e)) es then Inr es else Inl ZenohError))"

text \<open>
  \<open>_wait_for_router\<close>: the naps in milliseconds; \<open>t\<close> is the time since the session opened, \<open>zl_took\<close> what a probe takes.
\<close>

definition ROUTER_WAIT :: nat where "ROUTER_WAIT = 5000"
definition ROUTER_POLL :: nat where "ROUTER_POLL = 100"

function wait_for_router :: "zlib \<Rightarrow> nat \<Rightarrow> nat \<Rightarrow> unit svc" where
  "wait_for_router zl t i =
     (if ROUTER_WAIT \<le> t then ret ()
      else case zl_probe zl i of
        RouterUp \<Rightarrow> ret ()
      | ProbeUnsupported \<Rightarrow> ret ()
      | _ \<Rightarrow> seq (nap ROUTER_POLL) (\<lambda>_. wait_for_router zl (t + zl_took zl i + ROUTER_POLL) (Suc i)))"
  by pat_completeness auto
termination by (relation "measure (\<lambda>(zl, t, i). ROUTER_WAIT - t)") (auto simp: ROUTER_POLL_def)

declare wait_for_router.simps [simp del]

text \<open>\<open>get_session\<close> of a client that has none yet, the \<open>i\<close>-th call.\<close>

definition get_session :: "zlib \<Rightarrow> (string \<times> string) list \<Rightarrow> nat \<Rightarrow> unit svc" where
  "get_session zl conf i = (if zl_open zl i conf then wait_for_router zl 0 0 else raise ZenohError)"

text \<open>The five attempts of \<open>get_or_create_zenoh_session\<close> to open the session.\<close>

primrec open_tries :: "zlib \<Rightarrow> (string \<times> string) list \<Rightarrow> nat \<Rightarrow> nat \<Rightarrow> unit svc" where
  "open_tries zl conf 0 i = raise ZenohError"
| "open_tries zl conf (Suc n) i = (\<lambda>h.
     (case get_session zl conf i h of
        (Inr x, h1) \<Rightarrow> (Inr x, h1)
      | (Inl e, h1) \<Rightarrow> if n = 0 then (Inl e, h1) else seq (nap 1000) (\<lambda>_. open_tries zl conf n (Suc i)) h1))"

fun local_endpoint :: "json \<Rightarrow> json option" where
  "local_endpoint (JStr ep) = Some (JStr (py_replace ''0.0.0.0'' ''127.0.0.1'' ep))"
| "local_endpoint _ = None"

text \<open>The arguments for the client: a router on this device is reached over the loopback interface.\<close>

definition client_args :: "jdict \<Rightarrow> cli_error + jdict" where
  "client_args raw =
     (if py_eq (dget_or raw ''mode'' (JStr ''client'')) (JStr ''router'') then
        (case iterate (dget_or raw ''endpoints'' (JArr [])) of
           Inl _ \<Rightarrow> Inl TypeErr
         | Inr eps \<Rightarrow>
             (case those (map local_endpoint eps) of
                None \<Rightarrow> Inl AttributeErr
              | Some eps' \<Rightarrow> Inr (AList.update ''endpoints'' (JArr eps') (AList.update ''mode'' (JStr ''client'') raw))))
      else Inr raw)"

definition connect_client :: "zlib \<Rightarrow> jdict \<Rightarrow> unit svc" where
  "connect_client zl args =
     (if map_of args ''endpoints'' = None then raise MissingKey
      else case build_config zl args of Inl e \<Rightarrow> raise e | Inr conf \<Rightarrow> open_tries zl conf 5 0)"

definition provision_router :: "svc_os \<Rightarrow> machine \<Rightarrow> zlib \<Rightarrow> jdict \<Rightarrow> unit svc" where
  "provision_router so mc zl raw =
     (let mode = dget_or raw ''mode'' (JStr ''client'') in
      if py_eq mode (JStr ''router'') \<or> py_eq mode (JStr ''peer'') then
        seq (lift_job (is_router_installed mc)) (\<lambda>there.
        seq (if there then ret () else lift_job (install_router_env mc ''rocksdb'')) (\<lambda>_.
        if py_eq mode (JStr ''router'') then ensure_router_running so mc zl raw else ret ()))
      else ret ())"

definition get_or_create_zenoh_session :: "svc_os \<Rightarrow> machine \<Rightarrow> zlib \<Rightarrow> transport_config \<Rightarrow> unit svc" where
  "get_or_create_zenoh_session so mc zl config =
     seq (provision_router so mc zl (tc_args config)) (\<lambda>_.
     (case client_args (tc_args config) of Inl e \<Rightarrow> raise e | Inr args \<Rightarrow> connect_client zl args))"

section \<open>The session of a client\<close>

lemma nap_bound:
  assumes "t < (5000::nat)"
  shows "100 + 100 * ((5000 - (t + k + 100) + 99) div 100) \<le> 100 * ((5000 - t + 99) div 100)"
proof (cases "t + k + 100 \<le> 5000")
  case True
  then have "(5000 - (t + k + 100) + 99) + 1 * 100 \<le> 5000 - t + 99" by simp
  from div_le_mono [OF this, of 100] have "Suc ((5000 - (t + k + 100) + 99) div 100) \<le> (5000 - t + 99) div 100"
    by (subst (asm) div_mult_self1) simp_all
  then show ?thesis by linarith
next
  case False
  have "1 \<le> (5000 - t + 99) div 100" using div_le_mono [of 100 "5000 - t + 99" 100] assms by simp
  with False show ?thesis by simp
qed

text \<open>What waiting and connecting may change: the naps.\<close>

definition only_naps :: "nat \<Rightarrow> svc_state \<Rightarrow> svc_state \<Rightarrow> bool" where
  "only_naps ms h h' \<longleftrightarrow> (\<exists>ns. h' = h\<lparr>sh_naps := sh_naps h @ ns\<rparr> \<and> sum_list ns \<le> ms)"

lemma only_naps_refl [simp]: "only_naps ms h h"
  unfolding only_naps_def by (intro exI [of _ "[]"]) simp

lemma only_naps_trans: "only_naps a h h1 \<Longrightarrow> only_naps b h1 h2 \<Longrightarrow> a + b \<le> c \<Longrightarrow> only_naps c h h2"
  unfolding only_naps_def by (force intro: exI [of _ "_ @ _"])

lemma only_naps_mono: "only_naps a h h1 \<Longrightarrow> a \<le> c \<Longrightarrow> only_naps c h h1"
  unfolding only_naps_def by fastforce

lemma seq_nap: "seq (nap ms) k h = k () (h\<lparr>sh_naps := sh_naps h @ [ms]\<rparr>)"
  by (simp add: seq_def nap_def)

lemma only_naps_nap: "only_naps ms h (h\<lparr>sh_naps := sh_naps h @ [ms]\<rparr>)"
  unfolding only_naps_def by (intro exI [of _ "[ms]"]) simp

lemma wait_for_router_bound:
  "\<exists>h'. wait_for_router zl t i h = (Inr (), h') \<and> only_naps (100 * ((5000 - t + 99) div 100)) h h'"
proof (induction zl t i arbitrary: h rule: wait_for_router.induct)
  case (1 zl t i)
  show ?case
  proof (cases "\<not> ROUTER_WAIT \<le> t \<and> zl_probe zl i \<in> {RouterAbsent, ProbeError}")
    case True
    let ?h1 = "h\<lparr>sh_naps := sh_naps h @ [ROUTER_POLL]\<rparr>"
    have "wait_for_router zl t i h = wait_for_router zl (t + zl_took zl i + ROUTER_POLL) (Suc i) ?h1"
      using True by (subst wait_for_router.simps) (auto simp: seq_nap)
    moreover obtain h' where "wait_for_router zl (t + zl_took zl i + ROUTER_POLL) (Suc i) ?h1 = (Inr (), h')"
      "only_naps (100 * ((5000 - (t + zl_took zl i + 100) + 99) div 100)) ?h1 h'"
      using "1.IH" True by (auto simp: ROUTER_POLL_def)
    ultimately show ?thesis
      using only_naps_trans [OF only_naps_nap] nap_bound [of t "zl_took zl i"] True by (auto simp: ROUTER_POLL_def ROUTER_WAIT_def)
  next
    case False
    then show ?thesis
      by (subst wait_for_router.simps) (cases "zl_probe zl i"; auto simp: ret_def)
  qed
qed

lemma open_tries_run:
  "\<exists>h'. open_tries zl conf n i h = (if \<exists>j < n. zl_open zl (i + j) conf then Inr () else Inl ZenohError, h') \<and>
     only_naps (1000 * (n - 1) + 5000) h h'"
proof (induction n arbitrary: i h)
  case (Suc n)
  consider "zl_open zl i conf" | "\<not> zl_open zl i conf" "n = 0" | "\<not> zl_open zl i conf" "n \<noteq> 0" by blast
  then show ?case
  proof cases
    case 1
    then have "\<exists>j < Suc n. zl_open zl (i + j) conf" by (intro exI [of _ 0]) simp
    with 1 wait_for_router_bound [of zl 0 0 h] only_naps_mono [of 5000 h _ "1000 * n + 5000"] show ?thesis
      by (auto simp: get_session_def)
  next
    case 2
    then show ?thesis by (simp add: raise_def get_session_def)
  next
    case 3
    let ?h1 = "h\<lparr>sh_naps := sh_naps h @ [1000]\<rparr>"
    have "(\<exists>j < Suc n. zl_open zl (i + j) conf) \<longleftrightarrow> (\<exists>j < n. zl_open zl (Suc i + j) conf)"
      using 3(1) by (auto simp: less_Suc_eq_0_disj)
    with 3 Suc.IH [of "Suc i" ?h1] only_naps_trans [OF only_naps_nap [of 1000 h]] show ?thesis
      by (simp add: seq_nap get_session_def raise_def del: add_Suc) (fastforce simp del: add_Suc)
  qed
qed (simp add: raise_def)

text \<open>
  C38. The session of a client: a device that only dials a router elsewhere starts no program and changes no
  file; it tries at most five times, waits at most nine seconds in all however the router behaves,
  and has a session exactly when its configuration is accepted and one of the five attempts opened; and
  its name and password are in the configuration exactly when both are set and it dials over TLS.
\<close>

theorem client_session_local:
  assumes "dget_or (tc_args c) ''mode'' (JStr ''client'') = JStr ''client''" "map_of (tc_args c) ''endpoints'' \<noteq> None"
    and "parse_transport_args (JObj (tc_args c)) = Some cfg" "get_or_create_zenoh_session so mc zl c h = (r, h')"
  shows "(\<exists>ns. h' = h\<lparr>sh_naps := sh_naps h @ ns\<rparr> \<and> sum_list ns \<le> 9000) \<and>
    (r = Inr () \<longleftrightarrow> (\<exists>conf. build_config zl (tc_args c) = Inr conf \<and> (\<exists>i < 5. zl_open zl i conf))) \<and>
    (\<forall>conf. build_config zl (tc_args c) = Inr conf \<longrightarrow>
       (''transport/auth/usrpwd'' \<in> set (keys conf) \<longleftrightarrow>
        nonempty (ta_username cfg) \<and> nonempty (ta_password cfg) \<and> list_ex (\<lambda>ep. startswith ep ''tls/'') (ta_endpoints cfg)))"
proof -
  have run: "(case build_config zl (tc_args c) of Inl e \<Rightarrow> raise e | Inr conf \<Rightarrow> open_tries zl conf 5 0) h = (r, h')"
    using assms(1,2,4) by (auto simp: get_or_create_zenoh_session_def provision_router_def client_args_def connect_client_def seq_ret Let_def
        split: if_splits)
  have "only_naps 9000 h h' \<and> (r = Inr () \<longleftrightarrow> (\<exists>conf. build_config zl (tc_args c) = Inr conf \<and> (\<exists>i < 5. zl_open zl i conf)))"
  proof (cases "build_config zl (tc_args c)")
    case (Inr conf)
    with run open_tries_run [of zl conf 5 0 h] show ?thesis by auto
  qed (use run in \<open>auto simp: raise_def\<close>)
  moreover have "(''transport/auth/usrpwd'' \<in> set (keys conf)) =
      (nonempty (ta_username cfg) \<and> nonempty (ta_password cfg) \<and> uses_tls cfg)" if "build_config zl (tc_args c) = Inr conf" for conf
    using that assms(3) by (auto simp: build_config_def client_entries_def Let_def split: if_splits)
  ultimately show ?thesis by (auto simp: only_naps_def uses_tls_def)
qed

definition sample_zlib :: zlib where
  "sample_zlib = \<lparr>zl_dumps = py_str, zl_pretty = py_str, zl_certifi = ''/ca'', zl_accepts = (\<lambda>k v. True), zl_open = (\<lambda>i conf. i = 2),
     zl_probe = (\<lambda>i. if i < 3 then ProbeError else RouterUp), zl_took = (\<lambda>i. 7)\<rparr>"

definition sample_transport :: transport_config where
  "sample_transport = \<lparr>tc_type = TransportZenoh, tc_args = [(''endpoints'', JArr [JStr ''tls/r:7447'']),
     (''username'', JStr ''u''), (''password'', JStr ''p'')]\<rparr>"

theorem client_session_local_witness:
  "\<exists>h'. get_or_create_zenoh_session sample_os sample_machine sample_zlib sample_transport sample_svc_state = (Inr (), h') \<and>
     svc_fs h' = svc_fs sample_svc_state \<and> sh_naps h' = [1000, 1000, 100, 100, 100]"
proof -
  obtain r h' where run: "get_or_create_zenoh_session sample_os sample_machine sample_zlib sample_transport sample_svc_state = (r, h')"
    by fastforce
  have pre: "dget_or (tc_args sample_transport) ''mode'' (JStr ''client'') = JStr ''client''"
    "map_of (tc_args sample_transport) ''endpoints'' \<noteq> None"
    "parse_transport_args (JObj (tc_args sample_transport)) \<noteq> None" by code_simp+
  then obtain cfg where "parse_transport_args (JObj (tc_args sample_transport)) = Some cfg" by blast
  from client_session_local [OF pre(1,2) this run] have "svc_fs h' = svc_fs sample_svc_state" by auto
  moreover have "fst (get_or_create_zenoh_session sample_os sample_machine sample_zlib sample_transport sample_svc_state) = Inr ()"
    "sh_naps (snd (get_or_create_zenoh_session sample_os sample_machine sample_zlib sample_transport sample_svc_state)) = [1000, 1000, 100, 100, 100]"
    by code_simp+
  ultimately show ?thesis using run by simp
qed

section \<open>Where the code falls short\<close>

text \<open>\<open>endpoints\<close> has a default in the schema, but the log line before the connection takes it from the raw arguments.\<close>

lemma client_without_endpoints:
  assumes "dget_or (tc_args c) ''mode'' (JStr ''client'') = JStr ''client''" "map_of (tc_args c) ''endpoints'' = None"
  shows "get_or_create_zenoh_session so mc zl c h = (Inl MissingKey, h)"
  using assms by (simp add: get_or_create_zenoh_session_def provision_router_def client_args_def connect_client_def seq_ret Let_def raise_def)

text \<open>The command of the router quotes the path of the program; the property list takes the quotes as part of it.\<close>

lemma split_ws_acc_head: "\<exists>v ws. split_ws_acc (w @ [c]) s = (c # v) # ws"
proof (induction s arbitrary: w)
  case (Cons x s)
  show ?case using Cons [of "x # w"] by simp
qed simp

lemma split_ws_head: "\<not> is_space c \<Longrightarrow> \<exists>w ws. split_ws (c # s) = (c # w) # ws"
  using split_ws_acc_head [of "[]" c s] by (simp add: split_ws_def)

lemma router_program_quoted: "\<exists>w ws. split_ws (router_command zr) = (chr_dquote # w) # ws"
  unfolding router_command_def append_Cons append_Nil by (rule split_ws_head) code_simp

end
