(* ===== verification/Migration.thy ===== *)
theory Migration
  imports Bundle
begin

text \<open>
  The rest of \<open>app/updater.py\<close>: whether an update is available, the desktop application after an update on macOS
  (relaunch, repaired launch agent, notice when it stayed behind), and the end of the transition from the old layout
  of an installation.  Programs of the system are started through a parameter that answers for them; what
  others do to the files while the agent sleeps is a parameter too.
\<close>

section \<open>State\<close>

record desktop =
  do_console :: "string option"
  do_uid :: string
  do_home_of :: "string \<Rightarrow> apath"
  do_run :: "string list list \<Rightarrow> string list \<Rightarrow> proc_result"
  do_plist :: "string \<Rightarrow> json option"
  do_plist_dumps :: "json \<Rightarrow> string"
  do_newer :: "string \<Rightarrow> string \<Rightarrow> bool option"
  do_heal_age :: int
  do_meanwhile :: "nat \<Rightarrow> fs \<Rightarrow> fs"

record mig =
  mg_host :: host
  mg_ran :: "string list list"
  mg_sleeps :: nat

type_synonym 'a mstep = "(mig, upd_error, 'a) stm"

abbreviation mg_fs :: "mig \<Rightarrow> fs" where
  "mg_fs m \<equiv> h_fs (mg_host m)"

definition up :: "'a step \<Rightarrow> 'a mstep" where
  "up s m = (case s (mg_host m) of (r, h) \<Rightarrow> (r, m\<lparr>mg_host := h\<rparr>))"

definition mrun :: "desktop \<Rightarrow> string list \<Rightarrow> proc_result mstep" where
  "mrun dt argv m = (Inr (do_run dt (mg_ran m) argv), m\<lparr>mg_ran := mg_ran m @ [argv]\<rparr>)"

text \<open>\<open>subprocess.Popen\<close>: only a program that cannot be executed raises.\<close>

definition popen :: "desktop \<Rightarrow> string list \<Rightarrow> unit mstep" where
  "popen dt argv = seq (mrun dt argv) (\<lambda>r. if r = NotExecutable then raise Uncaught else ret ())"

text \<open>\<open>subprocess.run(..., check=False, timeout=...)\<close>: a timeout raises as well.\<close>

definition run_unchecked :: "desktop \<Rightarrow> string list \<Rightarrow> unit mstep" where
  "run_unchecked dt argv = seq (mrun dt argv) (\<lambda>r. case r of Exited _ \<Rightarrow> ret () | _ \<Rightarrow> raise Uncaught)"

definition doze :: "desktop \<Rightarrow> unit mstep" where
  "doze dt m = (Inr (), m\<lparr>mg_sleeps := Suc (mg_sleeps m),
     mg_host := mg_host m\<lparr>h_fs := do_meanwhile dt (mg_sleeps m) (mg_fs m)\<rparr>\<rparr>)"

definition apath_str :: "apath \<Rightarrow> string" where
  "apath_str p = ''/'' @ intercalate ''/'' p"

definition install_root_or :: "site \<Rightarrow> apath option \<Rightarrow> apath step" where
  "install_root_or st r = (case r of None \<Rightarrow> discover_install_root st | Some d \<Rightarrow> ret d)"

section \<open>Is there an update\<close>

definition LATEST_VERSION_PATH :: string where
  "LATEST_VERSION_PATH = ''/devices/agent/latest-version''"

definition DEFAULT_CONTROL_API_BASE :: "site \<Rightarrow> string" where
  "DEFAULT_CONTROL_API_BASE st = the (or_str (st_env st ''LOCAI_API_URL'') (Some ''https://api.locai.co.uk/api/v1''))"

text \<open>\<open>(resp.json() or {}).get("latest_version") or ""\<close>, as a string.\<close>

definition latest_version_from_control :: "site \<Rightarrow> string \<Rightarrow> string step" where
  "latest_version_from_control st base =
     seq (get_checked st (rstrip_char (CHR ''/'') base @ LATEST_VERSION_PATH)) (\<lambda>r.
     (case r of
        None \<Rightarrow> raise Uncaught
      | Some a \<Rightarrow>
          (case st_loads st (hr_text a) of
             None \<Rightarrow> raise Uncaught
           | Some j \<Rightarrow>
               seq (of_py (get_default (if truthy j then j else JObj []) ''latest_version'' JNull)) (\<lambda>v.
               let version = (if truthy v then py_str v else []) in
               seq (ensure (version \<noteq> []) ReleaseNotFound) (\<lambda>_. ret version)))))"

definition version_gt :: "desktop \<Rightarrow> string \<Rightarrow> string \<Rightarrow> bool step" where
  "version_gt dt a b = (case do_newer dt a b of None \<Rightarrow> raise Uncaught | Some x \<Rightarrow> ret x)"

text \<open>\<open>except Exception\<close> with a value.\<close>

definition or_else :: "'a \<Rightarrow> ('s, 'e, 'a) stm \<Rightarrow> ('s, 'e, 'a) stm" where
  "or_else x s h = (case s h of (Inl _, h1) \<Rightarrow> (Inr x, h1) | r \<Rightarrow> r)"

definition check_update_available :: "site \<Rightarrow> desktop \<Rightarrow> apath option \<Rightarrow> string option \<Rightarrow> (bool \<times> string option) step" where
  "check_update_available st dt install_root control_base_url =
     (if \<not> st_frozen st then ret (False, None)
      else or_else (False, None)
        (seq (install_root_or st install_root) (\<lambda>root.
         seq (read_manifest st root) (\<lambda>mf.
         seq (case (if ota_overrides_allowed st then or_str (st_env st ''LOCAI_LATEST_VERSION'') None else None) of
                Some v \<Rightarrow> ret v
              | None \<Rightarrow> latest_version_from_control st (the (or_str control_base_url (Some (DEFAULT_CONTROL_API_BASE st))))) (\<lambda>latest.
         seq (version_gt dt latest (mf_version mf)) (\<lambda>newer. ret (newer, Some latest)))))))"

definition bundle_asset_available :: "site \<Rightarrow> apath option \<Rightarrow> bool step" where
  "bundle_asset_available st install_root =
     (if \<not> st_frozen st then ret False
      else or_else False
        (seq (install_root_or st install_root) (\<lambda>root.
         seq (read_manifest st root) (\<lambda>mf.
         seq (latest_release_for st (mf_asset_name mf) None None) (\<lambda>_. ret True)))))"

section \<open>The companion on macOS\<close>

definition COMPANION_LABEL :: string where "COMPANION_LABEL = ''uk.co.locai.link.companion''"
definition LEGACY_AGENT_LABEL :: string where "LEGACY_AGENT_LABEL = ''uk.co.locai.link.agent''"
definition STATE_SUBDIR :: string where "STATE_SUBDIR = ''state''"

definition macos_console_uid :: "desktop \<Rightarrow> string option" where
  "macos_console_uid dt =
     (case do_console dt of
        None \<Rightarrow> None
      | Some out \<Rightarrow> let uid = py_strip out in if uid \<noteq> [] \<and> list_all (\<lambda>c. CHR ''0'' \<le> c \<and> c \<le> CHR ''9'') uid then Some uid else None)"

definition gui_uid :: "desktop \<Rightarrow> string" where
  "gui_uid dt = (case macos_console_uid dt of None \<Rightarrow> do_uid dt | Some u \<Rightarrow> u)"

definition launch_agent :: "desktop \<Rightarrow> string \<Rightarrow> apath" where
  "launch_agent dt label = do_home_of dt (gui_uid dt) @ [''Library'', ''LaunchAgents'', label @ ''.plist'']"

text \<open>\<open>_lc\<close>: a hang counts as failure.\<close>

definition launchctl :: "desktop \<Rightarrow> string list \<Rightarrow> bool mstep" where
  "launchctl dt args =
     seq (mrun dt (''launchctl'' # args)) (\<lambda>r.
     (case r of Exited n \<Rightarrow> ret (n = 0) | TimedOut \<Rightarrow> ret False | NotExecutable \<Rightarrow> raise Uncaught))"

definition companion_apps :: "apath \<Rightarrow> apath list" where
  "companion_apps root = [root @ [''Locai Link.app''], [''Applications'', ''Locai Link.app'']]"

definition open_app :: "desktop \<Rightarrow> unit mstep" where
  "open_app dt =
     seq (up (asks (\<lambda>fs. find (path_exists fs) (companion_apps [''Library'', ''Locai''])))) (\<lambda>a.
     (case a of None \<Rightarrow> ret () | Some p \<Rightarrow> popen dt [''open'', ''-a'', apath_str p]))"

definition restart_companion_macos :: "desktop \<Rightarrow> bool \<Rightarrow> unit mstep" where
  "restart_companion_macos dt force_reload =
     (let service = ''gui/'' @ gui_uid dt @ ''/'' @ COMPANION_LABEL in
      seq (if force_reload then ret False else launchctl dt [''kickstart'', ''-k'', service]) (\<lambda>ok.
      seq (if ok then ret True
           else seq (launchctl dt [''bootout'', service]) (\<lambda>_.
                seq (launchctl dt [''bootstrap'', ''gui/'' @ gui_uid dt, apath_str (launch_agent dt COMPANION_LABEL)]) (\<lambda>_.
                launchctl dt [''kickstart'', service]))) (\<lambda>ok'.
      if ok' then ret () else open_app dt)))"

definition reinstall_url :: "site \<Rightarrow> string" where
  "reinstall_url st =
     (let ext = (case map_of [(''darwin'', ''pkg''), (''linux'', ''tar.gz''), (''win32'', ''zip'')] (st_platform st) of None \<Rightarrow> ''pkg'' | Some e \<Rightarrow> e)
      in ''https://github.com/'' @ DEFAULT_RELEASES_REPO @ ''/releases/latest/download/locai-link-desktop-'' @ platform_tag st @ ''.'' @ ext)"

text \<open>The version in the property list of an application, where it can be read.\<close>

definition bundle_version :: "desktop \<Rightarrow> fs \<Rightarrow> apath \<Rightarrow> string option" where
  "bundle_version dt fs app =
     (case Option.bind (read_text fs (app @ [''Contents'', ''Info.plist''])) (do_plist dt) of
        Some (JObj d) \<Rightarrow>
          (let v = dget d ''CFBundleShortVersionString''; s = py_strip (if truthy v then py_str v else []) in
           if s = [] then None else Some s)
      | _ \<Rightarrow> None)"

definition companion_installed_version :: "site \<Rightarrow> desktop \<Rightarrow> apath \<Rightarrow> fs \<Rightarrow> string option" where
  "companion_installed_version st dt root fs =
     (if st_platform st \<noteq> ''darwin'' then None
      else case bundle_version dt fs (root @ [''Locai Link.app'']) of
             Some v \<Rightarrow> Some v
           | None \<Rightarrow> bundle_version dt fs [''Applications'', ''Locai Link.app''])"

definition companion_running_version :: "apath \<Rightarrow> fs \<Rightarrow> string option" where
  "companion_running_version root fs =
     (case read_text fs (root @ [STATE_SUBDIR, ''companion-running-version'']) of
        None \<Rightarrow> None
      | Some t \<Rightarrow> if py_strip t = [] then None else Some (py_strip t))"

definition notice_command :: "string \<Rightarrow> string \<Rightarrow> string list" where
  "notice_command version url =
     [''osascript'', ''-e'', ''on run argv'', ''-e'',
      ''display notification (item 1 of argv) with title (item 2 of argv)'', ''-e'', ''end run'',
      ''Couldn'' @ [chr_squote] @ ''t finish updating to '' @ version @ ''. Reinstall from '' @ url @ '' to finish.'',
      ''Locai Link update incomplete'']"

definition notify_reinstall_required :: "desktop \<Rightarrow> string \<Rightarrow> string \<Rightarrow> unit mstep" where
  "notify_reinstall_required dt version url = swallow (run_unchecked dt (notice_command version url))"

text \<open>The launch agent with the right program, and whether it was repaired.\<close>

definition repaired_plist :: "apath \<Rightarrow> json \<Rightarrow> (upd_error, json option) sum" where
  "repaired_plist root data =
     (let correct = JStr (apath_str (root @ [''Locai Link.app'', ''Contents'', ''MacOS'', ''locai-link''])) in
      case data of
        JObj d \<Rightarrow>
          (let args = dget d ''ProgramArguments'' in
           if \<not> truthy args then Inr (Some (JObj (AList.update ''ProgramArguments'' (JArr [correct]) d)))
           else case args of
             JArr xs \<Rightarrow> Inr (if py_eq (hd xs) correct then None else Some (JObj (AList.update ''ProgramArguments'' (JArr [correct]) d)))
           | JStr s \<Rightarrow> Inr (if py_eq (JStr [hd s]) correct then None else Some (JObj (AList.update ''ProgramArguments'' (JArr [correct]) d)))
           | _ \<Rightarrow> Inl Uncaught)
      | _ \<Rightarrow> Inl Uncaught)"

definition rewrite_plist :: "desktop \<Rightarrow> apath \<Rightarrow> json \<Rightarrow> unit mstep" where
  "rewrite_plist dt plist data =
     (let tmp = butlast plist @ [last plist @ ''.new''] in
      seq (up (change (\<lambda>fs. write_text fs tmp (do_plist_dumps dt data)))) (\<lambda>_.
      seq (up (change (\<lambda>fs. os_replace fs tmp plist))) (\<lambda>_.
      seq (run_unchecked dt [''pkill'', ''-f'', ''Locai Link.app/Contents/MacOS/locai-link'']) (\<lambda>_.
      restart_companion_macos dt True))))"

definition heal_companion_launchagent :: "site \<Rightarrow> desktop \<Rightarrow> apath \<Rightarrow> bool mstep" where
  "heal_companion_launchagent st dt root =
     (if st_platform st \<noteq> ''darwin'' then ret False
      else or_else False
        (let plist = launch_agent dt COMPANION_LABEL in
         seq (up (asks (\<lambda>fs. path_exists fs plist))) (\<lambda>there.
         if \<not> there then ret False
         else seq (up (asks (\<lambda>fs. Option.bind (read_text fs plist) (do_plist dt)))) (\<lambda>c.
           (case c of
              None \<Rightarrow> raise Uncaught
            | Some data \<Rightarrow>
                (case repaired_plist root data of
                   Inl e \<Rightarrow> raise e
                 | Inr None \<Rightarrow> ret False
                 | Inr (Some new) \<Rightarrow> seq (rewrite_plist dt plist new) (\<lambda>_. ret True)))))))"

section \<open>The old layout\<close>

definition on_legacy_layout :: "site \<Rightarrow> desktop \<Rightarrow> apath \<Rightarrow> fs \<Rightarrow> bool" where
  "on_legacy_layout st dt root fs =
     (if startswith (st_platform st) ''linux'' then
        path_exists fs (root @ [''companion'']) \<or> path_exists fs (root @ [''setup-assistant'']) \<or>
        path_exists fs (st_home st @ [''.config'', ''systemd'', ''user'', ''locai-link-agent.service''])
      else if st_platform st = ''darwin'' then
        path_exists fs (root @ [''Setup Assistant.app'']) \<or> path_exists fs (root @ [''locai-link'']) \<or>
        path_exists fs (launch_agent dt LEGACY_AGENT_LABEL)
      else False)"

text \<open>The notice: once per version, and not while a migration is under way.\<close>

definition drift_notice :: "site \<Rightarrow> desktop \<Rightarrow> apath \<Rightarrow> string \<Rightarrow> string option \<Rightarrow> unit mstep" where
  "drift_notice st dt root runtime_version url =
     (let marker = root @ [STATE_SUBDIR, ''ui-drift-notified''] in
      seq (up (asks (\<lambda>fs. on_legacy_layout st dt root fs))) (\<lambda>legacy.
      if legacy then ret ()
      else
        seq (up (asks (\<lambda>fs. if path_exists fs marker then Some (read_text fs marker) else None))) (\<lambda>seen.
        (case seen of
           Some None \<Rightarrow> raise Uncaught
         | _ \<Rightarrow>
             if map_option (map_option (\<lambda>t. py_strip t)) seen = Some (Some runtime_version) then ret ()
             else
               seq (notify_reinstall_required dt runtime_version (the (or_str url (Some (reinstall_url st))))) (\<lambda>_.
               seq (up (change (\<lambda>fs. mkdirs fs (butlast marker)))) (\<lambda>_.
               up (change (\<lambda>fs. write_text fs marker runtime_version))))))))"

definition DRIFT_SETTLE_TRIES :: nat where "DRIFT_SETTLE_TRIES = 3"

text \<open>The version to compare with, after at most three waits for a companion that was just relaunched.\<close>

primrec settle :: "site \<Rightarrow> desktop \<Rightarrow> apath \<Rightarrow> string \<Rightarrow> nat \<Rightarrow> string option mstep" where
  "settle st dt root v 0 =
     up (asks (\<lambda>fs. case companion_running_version root fs of Some r \<Rightarrow> Some r | None \<Rightarrow> companion_installed_version st dt root fs))"
| "settle st dt root v (Suc n) =
     seq (up (asks (\<lambda>fs. companion_running_version root fs))) (\<lambda>running.
     (case running of
        None \<Rightarrow> up (asks (\<lambda>fs. companion_installed_version st dt root fs))
      | Some r \<Rightarrow> if r = v then ret (Some r) else seq (doze dt) (\<lambda>_. settle st dt root v n)))"

definition check_ui_version_drift :: "site \<Rightarrow> desktop \<Rightarrow> apath option \<Rightarrow> string option \<Rightarrow> unit mstep" where
  "check_ui_version_drift st dt install_root url =
     (if \<not> st_frozen st \<or> st_platform st \<noteq> ''darwin'' then ret ()
      else swallow
        (seq (up (install_root_or st install_root)) (\<lambda>root.
         seq (up (read_manifest st root)) (\<lambda>mf.
         seq (heal_companion_launchagent st dt root) (\<lambda>healed.
         seq (if healed then doze dt else ret ()) (\<lambda>_.
         seq (settle st dt root (mf_version mf) DRIFT_SETTLE_TRIES) (\<lambda>v.
         if v = None \<or> v = Some (mf_version mf) then ret ()
         else drift_notice st dt root (mf_version mf) url)))))))"

definition stop_legacy_supervisor_macos :: "desktop \<Rightarrow> unit mstep" where
  "stop_legacy_supervisor_macos dt =
     seq (swallow (up (change (rm_path (launch_agent dt LEGACY_AGENT_LABEL))))) (\<lambda>_.
     swallow (popen dt [''launchctl'', ''bootout'', ''gui/'' @ gui_uid dt @ ''/'' @ LEGACY_AGENT_LABEL]))"

definition finish_command :: "apath \<Rightarrow> string list" where
  "finish_command finisher =
     [''osascript'', ''-e'',
      ''on run argv'' @ [chr_nl] @ ''do shell script (\"/bin/bash \" & quoted form of (item 1 of argv)) with administrator privileges'' @
      [chr_nl] @ ''end run'', apath_str finisher]"

definition run_admin_finish_macos :: "site \<Rightarrow> desktop \<Rightarrow> apath \<Rightarrow> unit mstep" where
  "run_admin_finish_macos st dt root =
     (let finisher = root @ [''current'', ''finish-migration.sh'']; marker = root @ [STATE_SUBDIR, ''migration-finish-prompted''] in
      seq (up (asks (\<lambda>fs. is_file fs finisher))) (\<lambda>there.
      if \<not> there then ret ()
      else
        seq (up (read_manifest st root)) (\<lambda>mf.
        seq (up (asks (\<lambda>fs. if path_exists fs marker then Some (read_text fs marker) else None))) (\<lambda>seen.
        (case seen of
           Some None \<Rightarrow> raise Uncaught
         | _ \<Rightarrow>
             if map_option (map_option (\<lambda>t. py_strip t)) seen = Some (Some (mf_version mf)) then ret ()
             else
               seq (up (change (\<lambda>fs. mkdirs fs (butlast marker)))) (\<lambda>_.
               seq (up (change (\<lambda>fs. write_text fs marker (mf_version mf)))) (\<lambda>_.
               swallow (popen dt (finish_command finisher)))))))))"

definition locate_installer_root :: "apath \<Rightarrow> fs \<Rightarrow> apath option" where
  "locate_installer_root extract_dir fs = map_option butlast (find (is_file fs) (rglob fs extract_dir ''install.sh''))"

definition installer_command :: "apath \<Rightarrow> string list" where
  "installer_command script =
     [''systemd-run'', ''--user'', ''--collect'', ''--unit'', ''locai-link-heal'', ''--'', ''/bin/bash'', apath_str script, ''--apply'']"

text \<open>The digest of the checksum file when the release has one, else of the sidecar of the asset.\<close>

definition verify_strict :: "site \<Rightarrow> release_info \<Rightarrow> apath \<Rightarrow> string step" where
  "verify_strict st rel archive =
     (case ri_checksums_url rel of
        Some (c # u) \<Rightarrow> seq (sha256_from_checksums st (c # u) (ri_asset_name rel)) (\<lambda>d. verify st archive (Some d) None)
      | _ \<Rightarrow> verify st archive None (ri_sha256_url rel))"

text \<open>The verified archive, unpacked into an empty directory.\<close>

definition fetch_installer :: "site \<Rightarrow> apath \<Rightarrow> apath step" where
  "fetch_installer st root =
     seq (read_manifest st root) (\<lambda>mf.
     seq (latest_release_for st (mf_asset_name mf) None None) (\<lambda>rel.
     seq (staging_path root) (\<lambda>staging.
     seq (download st (ri_download_url rel) (join staging (ri_asset_name rel))) (\<lambda>archive.
     seq (verify_strict st rel archive) (\<lambda>_.
     seq (change (rmtree_quiet (staging @ [''heal-extract'']))) (\<lambda>_.
     seq (extract_to st archive (staging @ [''heal-extract''])) (\<lambda>_.
     ret (staging @ [''heal-extract'']))))))))"

definition self_heal_reinstall_linux :: "site \<Rightarrow> desktop \<Rightarrow> apath \<Rightarrow> unit mstep" where
  "self_heal_reinstall_linux st dt root =
     seq (up (fetch_installer st root)) (\<lambda>extract_dir.
     seq (up (asks (locate_installer_root extract_dir))) (\<lambda>d.
     (case d of
        None \<Rightarrow> raise BundleUpdateError
      | Some dir \<Rightarrow>
          seq (up (asks (\<lambda>fs. is_file fs (dir @ [''install.sh''])))) (\<lambda>there.
          if \<not> there then raise BundleUpdateError else popen dt (installer_command (dir @ [''install.sh'']))))))"

definition LEGACY_HEAL_RETRY_SECONDS :: int where "LEGACY_HEAL_RETRY_SECONDS = 15 * 60"

definition heal_legacy_linux :: "site \<Rightarrow> desktop \<Rightarrow> apath \<Rightarrow> unit mstep" where
  "heal_legacy_linux st dt root =
     (let marker = root @ [STATE_SUBDIR, ''legacy-heal-attempted''] in
      seq (up (asks (\<lambda>fs. path_exists fs marker))) (\<lambda>there.
      if there \<and> do_heal_age dt < LEGACY_HEAL_RETRY_SECONDS then ret ()
      else
        seq (up (change (\<lambda>fs. mkdirs fs (butlast marker)))) (\<lambda>_.
        seq (\<lambda>m. up (change (\<lambda>fs. write_text fs marker (show_int (h_now (mg_host m))))) m) (\<lambda>_.
        self_heal_reinstall_linux st dt root))))"

definition heal_legacy_layout :: "site \<Rightarrow> desktop \<Rightarrow> apath option \<Rightarrow> unit mstep" where
  "heal_legacy_layout st dt install_root =
     (if \<not> st_frozen st then ret ()
      else swallow
        (seq (up (install_root_or st install_root)) (\<lambda>root.
         seq (up (asks (\<lambda>fs. on_legacy_layout st dt root fs))) (\<lambda>legacy.
         if \<not> legacy then ret ()
         else
           seq (up (remove_legacy_setup_assistant st root)) (\<lambda>_.
           if st_platform st = ''darwin'' then
             seq (stop_legacy_supervisor_macos dt) (\<lambda>_. run_admin_finish_macos st dt root)
           else if startswith (st_platform st) ''linux'' then heal_legacy_linux st dt root
           else ret ())))))"

section \<open>Only a verified installer is started\<close>

text \<open>The contents of the directory are those of an archive whose hash is a published digest.\<close>

definition verified_source :: "site \<Rightarrow> fs \<Rightarrow> apath \<Rightarrow> bool" where
  "verified_source st fs dir \<longleftrightarrow>
     (\<exists>asset d archive fs1 fs2. published st asset d \<and> hashes_to st fs1 archive d \<and>
        rmtree_quiet dir fs1 = Some fs2 \<and> extract_archive (st_untar st) (st_unzip st) fs2 archive dir = (None, fs))"

lemma verify_strict_triple:
  "triple (on_fs (\<lambda>fs. fs = fs0)) (verify_strict st rel archive) (\<lambda>d. published st (ri_asset_name rel) d \<and> hashes_to st fs0 archive d)"
proof -
  have "triple (on_fs (\<lambda>fs. fs = fs0)) (seq (sha256_from_checksums st u (ri_asset_name rel)) (\<lambda>d. verify st archive (Some d) None))
    (\<lambda>d. published st (ri_asset_name rel) d \<and> hashes_to st fs0 archive d)" for u
    by (rule triple_seq [OF sha256_from_checksums_triple]) (auto intro: verify_triple)
  then show ?thesis unfolding verify_strict_def by (auto intro: verify_triple split: option.split list.split)
qed

lemma change_InrE:
  assumes "change_or e f h = (Inr x, h')"
  obtains fs' where "f (h_fs h) = Some fs'" "h' = h\<lparr>h_fs := fs'\<rparr>"
  using assms by (auto simp: change_or_def split: option.splits)

lemma seq_valueE:
  assumes "seq m k h = (Inr y, h')"
  obtains x h1 where "m h = (Inr x, h1)" "k x h1 = (Inr y, h')"
  using assms by (auto elim: seqE)

lemma fetch_installer_verified:
  assumes "fetch_installer st root h = (Inr dir, h')"
  shows "dir = root @ [STAGING_DIR, ''heal-extract''] \<and> verified_source st (h_fs h') dir"
proof -
  let ?dir = "root @ [STAGING_DIR, ''heal-extract'']"
  obtain rel archive d h1 h2 h3 where v: "verify_strict st rel archive h1 = (Inr d, h2)"
    and c: "change (rmtree_quiet ?dir) h2 = (Inr (), h3)" and r3: "extract_to st archive ?dir h3 = (Inr (), h')" and dir: "dir = ?dir"
    using assms unfolding fetch_installer_def staging_path_def
    by (elim seq_valueE) (auto simp: ret_def elim!: seq_valueE)
  have d: "published st (ri_asset_name rel) d" "hashes_to st (h_fs h1) archive d" "h_fs h2 = h_fs h1"
    using triple_use [OF verify_strict_triple _ v, of "h_fs h1"] by (auto simp: on_fs_def)
  from c obtain fs2 where fs2: "rmtree_quiet ?dir (h_fs h2) = Some fs2" "h_fs h3 = fs2" by (rule change_InrE) simp
  from r3 have "extract_archive (st_untar st) (st_unzip st) (h_fs h3) archive ?dir = (None, h_fs h')"
    by (auto simp: extract_to_def split: prod.splits option.splits)
  with dir d fs2 show ?thesis unfolding verified_source_def by metis
qed

text \<open>What a step starts: nothing, or the installer of a verified archive.\<close>

definition starts_verified :: "site \<Rightarrow> mig \<Rightarrow> mig \<Rightarrow> bool" where
  "starts_verified st m m1 \<longleftrightarrow>
     mg_ran m1 = mg_ran m \<or>
     (\<exists>dir script. mg_ran m1 = mg_ran m @ [installer_command script] \<and> is_file (mg_fs m1) script \<and>
        script \<in> set (rglob (mg_fs m1) dir ''install.sh'') \<and> verified_source st (mg_fs m1) dir)"

lemma up_ran [simp]: "mg_ran (snd (up s m)) = mg_ran m"
  by (simp add: up_def split: prod.split)

lemma up_run: "up s m = (r, m1) \<Longrightarrow> mg_ran m1 = mg_ran m \<and> s (mg_host m) = (r, mg_host m1)"
  by (auto simp: up_def split: prod.splits)

lemma rglob_name:
  assumes "p \<in> set (rglob fs dir n)" shows "butlast p @ [n] = p"
proof -
  from assms obtain d q where "strict_prefix d q" "last q = n" "p = dir @ drop (length d) q"
    by (auto simp: rglob_def split: option.splits)
  then obtain x ys where "q = d @ x # ys" by (elim strict_prefixE')
  with \<open>last q = n\<close> \<open>p = _\<close> show ?thesis by (simp add: butlast_append) (metis append_butlast_last_id list.discI)
qed

lemma installer_found:
  "locate_installer_root dir fs = Some d \<Longrightarrow> is_file fs (d @ [''install.sh'']) \<and> d @ [''install.sh''] \<in> set (rglob fs dir ''install.sh'')"
  using rglob_name [of _ fs dir "''install.sh''"] by (auto simp: locate_installer_root_def find_Some_iff in_set_conv_nth) (metis nth_mem)+

lemma up_asks: "seq (up (asks f)) k m = k (f (mg_fs m)) m"
  by (simp add: seq_def up_def asks_def)

lemma self_heal_starts:
  assumes "self_heal_reinstall_linux st dt root m = (r, m1)" shows "starts_verified st m m1"
proof (cases "up (fetch_installer st root) m")
  case (Pair x m2)
  note u = up_run [OF Pair]
  show ?thesis
  proof (cases x)
    case (Inl e)
    with Pair assms u show ?thesis by (auto simp: self_heal_reinstall_linux_def seq_def starts_verified_def)
  next
    case (Inr dir)
    from u Inr have v: "verified_source st (mg_fs m2) dir" using fetch_installer_verified [of st root "mg_host m" dir "mg_host m2"] by auto
    have run: "(case locate_installer_root dir (mg_fs m2) of
        None \<Rightarrow> raise BundleUpdateError
      | Some d \<Rightarrow> if \<not> is_file (mg_fs m2) (d @ [''install.sh'']) then raise BundleUpdateError
          else popen dt (installer_command (d @ [''install.sh'']))) m2 = (r, m1)"
      using assms Pair Inr by (auto simp: self_heal_reinstall_linux_def seq_def [of "up (fetch_installer st root)"] up_asks split: option.split)
    show ?thesis
    proof (cases "locate_installer_root dir (mg_fs m2)")
      case None
      with run u show ?thesis by (simp add: raise_def starts_verified_def)
    next
      case (Some d)
      note f = installer_found [OF Some]
      with run Some have "mg_ran m1 = mg_ran m2 @ [installer_command (d @ [''install.sh''])]" "mg_fs m1 = mg_fs m2"
        by (auto simp: popen_def seq_def mrun_def raise_def ret_def split: if_splits)
      with f v u show ?thesis unfolding starts_verified_def by auto
    qed
  qed
qed

text \<open>Steps on the host start nothing.\<close>

lemma starts_up: "starts_verified st m1 m2 \<Longrightarrow> mg_ran m1 = mg_ran m \<Longrightarrow> starts_verified st m m2"
  by (simp add: starts_verified_def)

lemma starts_seq_up:
  assumes "\<And>x m1. up s m = (Inr x, m1) \<Longrightarrow> starts_verified st m1 (snd (k x m1))"
  shows "starts_verified st m (snd (seq (up s) k m))"
proof (cases "up s m")
  case (Pair r m1)
  with up_run [OF Pair] assms starts_up show ?thesis by (cases r) (auto simp: seq_def starts_verified_def)
qed

lemma starts_refl [simp]: "starts_verified st m m"
  by (simp add: starts_verified_def)

lemma heal_linux_starts: "starts_verified st m (snd (heal_legacy_linux st dt root m))"
proof -
  have w: "(\<lambda>m. up (change (\<lambda>fs. write_text fs q (show_int (h_now (mg_host m))))) m) = up (\<lambda>h. change (\<lambda>fs. write_text fs q (show_int (h_now h))) h)" for q
    by (simp add: up_def fun_eq_iff)
  have self: "starts_verified st m1 (snd (self_heal_reinstall_linux st dt root m1))" for m1
    using self_heal_starts [of st dt root m1] by (metis prod.collapse)
  show ?thesis unfolding heal_legacy_linux_def Let_def w
    by (intro starts_seq_up) (auto simp: ret_def intro!: starts_seq_up self)
qed

text \<open>
  C15. Finishing a migration on Linux never runs foreign code: starting the agent on an installation with
  the old layout does not raise, and starts no program, or exactly one, the installer of a release:
  the script lies where the release was unpacked, and what was unpacked there is an archive
  whose hash is a digest that was published for it.
\<close>

theorem heal_installer_verified:
  assumes "startswith (st_platform st) ''linux''"
  shows "\<exists>m1. heal_legacy_layout st dt install_root m = (Inr (), m1) \<and>
    (mg_ran m1 = mg_ran m \<or>
     (\<exists>dir script asset d archive fs1 fs2. mg_ran m1 = mg_ran m @ [installer_command script] \<and>
        is_file (mg_fs m1) script \<and> script \<in> set (rglob (mg_fs m1) dir ''install.sh'') \<and>
        published st asset d \<and> hashes_to st fs1 archive d \<and> rmtree_quiet dir fs1 = Some fs2 \<and>
        extract_archive (st_untar st) (st_unzip st) fs2 archive dir = (None, mg_fs m1)))"
proof -
  from assms have "st_platform st \<noteq> ''darwin''" by (auto simp: startswith_def)
  with assms have "starts_verified st m (snd (heal_legacy_layout st dt install_root m))"
    by (auto simp: heal_legacy_layout_def ret_def swallow_def intro!: starts_seq_up heal_linux_starts)
  moreover have "fst (heal_legacy_layout st dt install_root m) = Inr ()"
    by (simp add: heal_legacy_layout_def ret_def swallow_def)
  ultimately show ?thesis
    unfolding starts_verified_def verified_source_def by (intro exI [of _ "snd (heal_legacy_layout st dt install_root m)"] conjI) (metis prod.collapse, metis)
qed

text \<open>A release with an installer, and a device with the old companion.\<close>

definition plain_reply :: "string \<Rightarrow> http_reply" where
  "plain_reply s = \<lparr>hr_status = 200, hr_content_length = None, hr_chunks = [s], hr_broken = False\<rparr>"

definition heal_site :: site where
  "heal_site = sample_site\<lparr>
     st_get := (\<lambda>n url start. Some (plain_reply
       (if url = ''u'' then ''Z'' else if url = ''c'' then replicate 64 (CHR ''a'') @ ''  s-linux-x64.zip'' else ''J''))),
     st_loads := (\<lambda>s. if s = ''J''
       then Some (JObj [(''tag_name'', JStr ''v2''), (''assets'', JArr [
              JObj [(''name'', JStr ''s-linux-x64.zip''), (''browser_download_url'', JStr ''u'')],
              JObj [(''name'', JStr ''checksums.txt''), (''browser_download_url'', JStr ''c'')]])])
       else Some (JObj [(''manifest_version'', JInt 1), (''asset_name'', JStr ''s''), (''version'', JStr ''1'')])),
     st_sha256 := (\<lambda>s. replicate 64 (CHR ''a'')),
     st_unzip := (\<lambda>s. Some [(''x/install.sh'', ''run'')])\<rparr>"

definition heal_desktop :: desktop where
  "heal_desktop = \<lparr>do_console = None, do_uid = ''501'', do_home_of = (\<lambda>u. [''home'']), do_run = (\<lambda>ran argv. Exited 0), do_plist = (\<lambda>s. None),
     do_plist_dumps = py_str, do_newer = (\<lambda>a b. Some True), do_heal_age = 0, do_meanwhile = (\<lambda>n fs. fs)\<rparr>"

definition heal_state :: mig where
  "heal_state = \<lparr>mg_host = sample_host\<lparr>h_fs :=
     [([''r''], EDir 0), ([''r'', ''companion''], EFile ''c''), ([''r'', ''versions''], EDir 0), ([''r'', ''versions'', ''1''], EDir 0),
      ([''r'', ''versions'', ''1'', ''manifest.json''], EFile ''M''), ([''r'', ''current''], ELink ''versions/1'')]\<rparr>, mg_ran = [], mg_sleeps = 0\<rparr>"

lemma heal_runs:
  "mg_ran (snd (heal_legacy_layout heal_site heal_desktop (Some [''r'']) heal_state)) =
   [installer_command [''r'', ''staging'', ''heal-extract'', ''x'', ''install.sh'']]"
  by code_simp

theorem heal_installer_verified_witness:
  "\<exists>m1 script asset d. heal_legacy_layout heal_site heal_desktop (Some [''r'']) heal_state = (Inr (), m1) \<and>
     mg_ran m1 = [installer_command script] \<and> is_file (mg_fs m1) script \<and> published heal_site asset d"
proof -
  have "startswith (st_platform heal_site) ''linux''" "mg_ran heal_state = []"
    by (simp_all add: heal_site_def sample_site_def heal_state_def startswith_def)
  from heal_installer_verified [OF this(1), of heal_desktop "Some [''r'']" heal_state]
  obtain m1 where m1: "heal_legacy_layout heal_site heal_desktop (Some [''r'']) heal_state = (Inr (), m1)"
    and v: "mg_ran m1 = mg_ran heal_state \<or> (\<exists>script asset d. mg_ran m1 = mg_ran heal_state @ [installer_command script] \<and>
      is_file (mg_fs m1) script \<and> published heal_site asset d)" by blast
  from m1 heal_runs have "mg_ran m1 \<noteq> []" by simp
  with m1 v \<open>mg_ran heal_state = []\<close> show ?thesis by auto
qed

section \<open>Asked once\<close>

text \<open>The administrator is asked once per version: the marker is written before the question.\<close>

lemma admin_asked_once:
  assumes "fst (read_manifest st root (mg_host m)) = Inr mf" "snd (read_manifest st root (mg_host m)) = mg_host m"
    and "path_exists (mg_fs m) (root @ [STATE_SUBDIR, ''migration-finish-prompted''])"
    and "read_text (mg_fs m) (root @ [STATE_SUBDIR, ''migration-finish-prompted'']) = Some t" "py_strip t = mf_version mf"
  shows "run_admin_finish_macos st dt root m = (Inr (), m)"
proof -
  have "up (read_manifest st root) m = (Inr mf, m)" using assms(1,2) by (cases "read_manifest st root (mg_host m)") (auto simp: up_def)
  then have "seq (up (read_manifest st root)) k m = k mf m" for k :: "manifest \<Rightarrow> unit mstep" by (simp add: seq_def)
  with assms(3-) show ?thesis
    by (cases "is_file (mg_fs m) (root @ [''current'', ''finish-migration.sh''])")
      (simp_all add: run_admin_finish_macos_def Let_def up_asks ret_def)
qed

text \<open>An update is announced only to a packaged installation, and only for a newer version.\<close>

lemma update_announced:
  assumes "check_update_available st dt root base h = (Inr (True, v), h')"
  shows "st_frozen st \<and> (\<exists>r mf h1 h2 latest. read_manifest st r h1 = (Inr mf, h2) \<and> v = Some latest \<and> do_newer dt latest (mf_version mf) = Some True)"
  using assms
  by (auto simp: check_update_available_def ret_def or_else_def version_gt_def raise_def
      split: if_splits prod.splits sum.splits elim!: seq_valueE) (auto simp: ret_def raise_def split: option.splits)

end
