(* ===== verification/Engine_Install.thy ===== *)
theory Engine_Install
  imports Engines Device
begin

text \<open>
  \<open>plugins/language_model/install.py\<close> and \<open>plugins/audio_transcriber/install.py\<close>: how a plugin run from
  source gets its inference engine: a prebuilt archive of a pinned release, or a build from source.
  The steps are those of the artifact store.  What runs outside (\<open>git\<close>, \<open>cmake\<close>, the tools that show a
  graphics card) is the record \<open>toolbox\<close>; the waits between two attempts of a download, file modes and the
  removal of the quarantine attribute of macOS are left out.
\<close>

section \<open>Environment\<close>

text \<open>\<open>Escaped\<close> is any exception that leaves the installer, \<open>SysExit\<close> is \<open>sys.exit(1)\<close>.\<close>

datatype inst_error = SysExit | Escaped

type_synonym 'a inst = "(inst_error, 'a) stepx"

record python =
  py_meipass :: "apath option"
  py_prefix :: apath
  py_base_prefix :: apath
  py_project :: apath

record layout =
  la_frozen :: bool
  la_bin :: apath
  la_cache :: apath

text \<open>\<open>py_meipass\<close> is the directory of a frozen bundle; \<open>dir\<close> is \<open>bin-llama\<close> or \<open>bin-whisper\<close>.\<close>

definition resolve_install_dirs :: "python \<Rightarrow> string \<Rightarrow> fs \<Rightarrow> layout" where
  "resolve_install_dirs py dir fs =
     (case py_meipass py of
        Some m \<Rightarrow> \<lparr>la_frozen = True, la_bin = m @ [dir], la_cache = m @ [dir]\<rparr>
      | None \<Rightarrow>
          let venv = py_project py @ [''.venv''];
              home = (if py_prefix py \<noteq> py_base_prefix py then py_prefix py
                      else if path_exists fs venv then venv else py_project py) in
          \<lparr>la_frozen = False, la_bin = home @ [dir], la_cache = home @ [''build-cache'']\<rparr>)"

text \<open>\<open>platform.system()\<close> on the systems \<open>sys.platform\<close> tells apart.\<close>

definition system_name :: "site \<Rightarrow> string" where
  "system_name st =
     (if startswith (st_platform st) ''linux'' then ''Linux''
      else if st_platform st = ''darwin'' then ''Darwin''
      else if st_platform st = ''win32'' then ''Windows'' else st_platform st)"

abbreviation on_windows :: "site \<Rightarrow> bool" where
  "on_windows st \<equiv> system_name st = ''Windows''"

definition is_arm :: "site \<Rightarrow> bool" where
  "is_arm st = (py_lower (st_machine st) \<in> {''arm64'', ''aarch64''})"

record toolbox =
  tb_git :: bool
  tb_cmake :: bool
  tb_ninja :: bool
  tb_ccache :: bool
  tb_smi_list :: "(int \<times> string) option"
  tb_cores :: "nat option"
  tb_run :: "string list \<Rightarrow> fs \<Rightarrow> bool \<times> fs"

section \<open>CUDA\<close>

text \<open>\<open>re.search(r"release\<bar>s+(\<bar>d+)\<bar>.(\<bar>d+)", line)\<close>, with \<open>int\<close> of both groups.\<close>

definition release_here :: "string \<Rightarrow> (string \<times> string) option" where
  "release_here s =
     (let r = drop 7 s; t = dropWhile is_space r; u = dropWhile is_digit t in
      if startswith s ''release'' \<and> r \<noteq> t \<and> takeWhile is_digit t \<noteq> [] \<and> startswith u ''.'' \<and> takeWhile is_digit (tl u) \<noteq> []
      then Some (takeWhile is_digit t, takeWhile is_digit (tl u)) else None)"

fun release_in :: "string \<Rightarrow> (string \<times> string) option" where
  "release_in [] = None"
| "release_in (c # s) = (case release_here (c # s) of None \<Rightarrow> release_in s | Some r \<Rightarrow> Some r)"

definition both_ints :: "string \<Rightarrow> string \<Rightarrow> (int \<times> int) option" where
  "both_ints a b = (case (py_int a, py_int b) of (Some x, Some y) \<Rightarrow> Some (x, y) | _ \<Rightarrow> None)"

text \<open>A number that \<open>int\<close> refuses ends the search in this output.\<close>

fun nvcc_version :: "string list \<Rightarrow> (int \<times> int) option" where
  "nvcc_version [] = None"
| "nvcc_version (l # ls) =
     (case (if contains_sub ''release'' (py_lower l) then release_in l else None) of
        Some (a, b) \<Rightarrow> both_ints a b
      | None \<Rightarrow> nvcc_version ls)"

text \<open>The text between the first two occurrences of \<open>p\<close>, \<open>line.split(p)[1]\<close>.\<close>

definition second_part :: "string \<Rightarrow> string \<Rightarrow> string option" where
  "second_part p s =
     (case find_sub p s of
        None \<Rightarrow> None
      | Some i \<Rightarrow>
          let r = drop (i + length p) s in
          Some (case find_sub p r of None \<Rightarrow> r | Some j \<Rightarrow> take j r))"

fun smi_version :: "string list \<Rightarrow> (int \<times> int) option" where
  "smi_version [] = None"
| "smi_version (l # ls) =
     (case second_part ''CUDA Version:'' l of
        None \<Rightarrow> smi_version ls
      | Some r \<Rightarrow>
          (case split_ws (py_strip r) of
             [] \<Rightarrow> None
           | token # _ \<Rightarrow> (case take 2 (split_char (CHR ''.'') token) of [a, b] \<Rightarrow> both_ints a b | _ \<Rightarrow> None)))"

definition detect_cuda_version :: "gpu \<Rightarrow> (int \<times> int) option" where
  "detect_cuda_version gp =
     (case (case gp_nvcc gp of None \<Rightarrow> None | Some out \<Rightarrow> nvcc_version (splitlines_acc [] out)) of
        Some v \<Rightarrow> Some v
      | None \<Rightarrow> (case gp_nvidia_smi gp of None \<Rightarrow> None | Some out \<Rightarrow> smi_version (splitlines_acc [] out)))"

section \<open>Which archive\<close>

definition LLAMA_CPP_RELEASE :: string where "LLAMA_CPP_RELEASE = ''b10289''"
definition LLAMA_SWAP_RELEASE :: string where "LLAMA_SWAP_RELEASE = ''247''"
definition WHISPER_CPP_RELEASE :: string where "WHISPER_CPP_RELEASE = ''v1.9.2''"

definition arch_name :: "site \<Rightarrow> string \<Rightarrow> string" where
  "arch_name st other = (if is_arm st then ''arm64'' else other)"

definition prebuilt_url :: "site \<Rightarrow> gpu \<Rightarrow> string \<Rightarrow> string option" where
  "prebuilt_url st gp tag =
     (let base = ''https://github.com/ggml-org/llama.cpp/releases/download/'' @ tag @ ''/llama-'' @ tag @ ''-bin-'';
          cuda = detect_cuda_version gp in
      if on_windows st then
        Some (base @ (case cuda of
            Some (major, _) \<Rightarrow> ''win-'' @ (if 13 \<le> major then ''cuda-13.3'' else ''cuda-12.4'') @ ''-x64.zip''
          | None \<Rightarrow> ''win-cpu-x64.zip''))
      else if system_name st = ''Darwin'' then Some (base @ ''macos-'' @ arch_name st ''x64'' @ ''.tar.gz'')
      else if system_name st = ''Linux'' then
        (if cuda \<noteq> None \<and> gp_nvcc gp \<noteq> None then None
         else if has_gpu gp \<and> \<not> is_arm st then Some (base @ ''ubuntu-vulkan-x64.tar.gz'')
         else Some (base @ ''ubuntu-'' @ arch_name st ''x64'' @ ''.tar.gz''))
      else None)"

definition swap_prebuilt_url :: "site \<Rightarrow> string \<Rightarrow> string option" where
  "swap_prebuilt_url st tag =
     (let base = ''https://github.com/mostlygeek/llama-swap/releases/download/v'' @ tag @ ''/llama-swap_'' @ tag in
      if system_name st = ''Linux'' then Some (base @ ''_linux_'' @ arch_name st ''amd64'' @ ''.tar.gz'')
      else if system_name st = ''Darwin'' then Some (base @ ''_darwin_'' @ arch_name st ''amd64'' @ ''.tar.gz'')
      else if on_windows st then (if is_arm st then None else Some (base @ ''_windows_amd64.zip''))
      else None)"

definition whisper_prebuilt_url :: "site \<Rightarrow> gpu \<Rightarrow> string \<Rightarrow> string option" where
  "whisper_prebuilt_url st gp tag =
     (let base = ''https://github.com/ggml-org/whisper.cpp/releases/download/'' @ tag in
      if on_windows st then
        Some (base @ (case detect_cuda_version gp of
            Some (major, _) \<Rightarrow> ''/whisper-cublas-'' @ (if major \<le> 11 then ''11.8.0'' else ''12.4.0'') @ ''-bin-x64.zip''
          | None \<Rightarrow> ''/whisper-blas-bin-x64.zip''))
      else None)"

section \<open>Steps\<close>

text \<open>\<open>try: ... except Exception\<close>, and a step that ends the program or the caller when it fails.\<close>

definition tried :: "'a act \<Rightarrow> 'a option inst" where
  "tried m h = (case m h of (Inl _, h1) \<Rightarrow> (Inr None, h1) | (Inr x, h1) \<Rightarrow> (Inr (Some x), h1))"

definition or_fail :: "inst_error \<Rightarrow> 'a act \<Rightarrow> 'a inst" where
  "or_fail e m h = (case m h of (Inl _, h1) \<Rightarrow> (Inl e, h1) | (Inr x, h1) \<Rightarrow> (Inr x, h1))"

definition binary_name :: "site \<Rightarrow> string \<Rightarrow> string" where
  "binary_name st name = (if on_windows st then name @ ''.exe'' else name)"

text \<open>The binary is there and the tag file, stripped, is one of the accepted marks.\<close>

definition marked_as :: "apath \<Rightarrow> apath \<Rightarrow> string list \<Rightarrow> bool inst" where
  "marked_as binary tag_file accepted =
     seq (asks (\<lambda>fs. path_exists fs binary \<and> path_exists fs tag_file)) (\<lambda>both.
     if both then
       seq (asks (\<lambda>fs. read_text fs tag_file)) (\<lambda>c.
       (case c of None \<Rightarrow> raise Escaped | Some t \<Rightarrow> ret (py_strip t \<in> set accepted)))
     else ret False)"

definition engine_present :: "site \<Rightarrow> layout \<Rightarrow> string \<Rightarrow> string \<Rightarrow> string list \<Rightarrow> bool inst" where
  "engine_present st la binary safe_name accepted =
     (let dest = la_bin la @ [binary_name st binary] in
      if la_frozen la then asks (\<lambda>fs. path_exists fs dest)
      else marked_as dest (la_cache la @ [safe_name, ''tag'']) accepted)"

definition download_with_retry :: "site \<Rightarrow> string \<Rightarrow> apath \<Rightarrow> unit act" where
  "download_with_retry st url dest = download_tries st url dest 3"

definition url_name :: "string \<Rightarrow> string" where
  "url_name url = last (split_char (CHR ''/'') url)"

section \<open>llama-swap\<close>

text \<open>The first file member whose name is the binary's up to case.\<close>

definition is_binary :: "string \<Rightarrow> string \<Rightarrow> bool" where
  "is_binary binary name = (py_lower (base_name name) = py_lower binary)"

definition swap_member :: "site \<Rightarrow> string \<Rightarrow> string \<Rightarrow> string \<Rightarrow> string option" where
  "swap_member st binary archive bytes =
     (if endswith archive ''.tar.gz'' then
        (case st_untar st bytes of
           None \<Rightarrow> None
         | Some ms \<Rightarrow> map_option snd (find (\<lambda>m. is_binary binary (fst m)) (file_members ms)))
      else
        (case st_unzip st bytes of
           None \<Rightarrow> None
         | Some ms \<Rightarrow>
             (case find (\<lambda>m. is_binary binary (fst m)) ms of
                None \<Rightarrow> None
              | Some m \<Rightarrow> map_of (rev ms) (fst m))))"

text \<open>
  What the installers share: nothing to do when the tag matches, download, \<open>unpack\<close>, and the tag at the
  end.  \<open>return False\<close> inside the block and an exception both end in \<open>False\<close>; \<open>finally\<close> removes the archive.
\<close>

definition finish_install :: "apath \<Rightarrow> string \<Rightarrow> string \<Rightarrow> unit option \<Rightarrow> bool inst" where
  "finish_install cache_dir archive mark extracted =
     seq (change_or Escaped (unlink_ok (cache_dir @ [archive]))) (\<lambda>_.
     if extracted = None then ret False
     else seq (change_or Escaped (\<lambda>fs. write_text fs (cache_dir @ [''tag'']) mark)) (\<lambda>_. ret True))"

definition with_archive :: "site \<Rightarrow> apath \<Rightarrow> apath \<Rightarrow> string list \<Rightarrow> string \<Rightarrow> string \<Rightarrow> unit act \<Rightarrow> bool inst" where
  "with_archive st dest cache_dir accepted mark url unpack =
     seq (marked_as dest (cache_dir @ [''tag'']) accepted) (\<lambda>there.
     if there then ret True
     else
       seq (change_or Escaped (\<lambda>fs. mkdirs fs cache_dir)) (\<lambda>_.
       seq (tried (download_with_retry st url (cache_dir @ [url_name url]))) (\<lambda>got.
       if got = None then seq (change_or Escaped (unlink_ok (cache_dir @ [url_name url]))) (\<lambda>_. ret False)
       else seq (tried unpack) (finish_install cache_dir (url_name url) mark))))"

definition unpack_swap :: "site \<Rightarrow> string \<Rightarrow> apath \<Rightarrow> apath \<Rightarrow> unit act" where
  "unpack_swap st binary dest archive =
     seq (asks (\<lambda>fs. read_text fs archive)) (\<lambda>c.
     (case c of
        None \<Rightarrow> raise OtherError
      | Some bytes \<Rightarrow>
          (case swap_member st binary (last archive) bytes of
             None \<Rightarrow> raise OtherError
           | Some b \<Rightarrow> alter (\<lambda>fs. write_text fs dest b))))"

definition install_swap_prebuilt :: "site \<Rightarrow> layout \<Rightarrow> string \<Rightarrow> string \<Rightarrow> bool inst" where
  "install_swap_prebuilt st la url tag =
     (let binary = binary_name st ''llama-swap''; dest = la_bin la @ [binary]; cache_dir = la_cache la @ [''llama_swap''] in
      with_archive st dest cache_dir [tag] tag url (unpack_swap st binary dest (cache_dir @ [url_name url])))"

definition is_swap_installed :: "site \<Rightarrow> layout \<Rightarrow> string \<Rightarrow> bool inst" where
  "is_swap_installed st la tag = engine_present st la ''llama-swap'' ''llama_swap'' [tag]"

definition install_swap :: "site \<Rightarrow> layout \<Rightarrow> unit inst" where
  "install_swap st la =
     (if la_frozen la then ret ()
      else
        seq (change_or Escaped (\<lambda>fs. mkdirs fs (la_bin la))) (\<lambda>_.
        seq (is_swap_installed st la LLAMA_SWAP_RELEASE) (\<lambda>there.
        if there then ret ()
        else case swap_prebuilt_url st LLAMA_SWAP_RELEASE of
          None \<Rightarrow> ret ()
        | Some url \<Rightarrow> seq (install_swap_prebuilt st la url LLAMA_SWAP_RELEASE) (\<lambda>_. ret ()))))"

section \<open>Prebuilt engines\<close>

text \<open>
  \<open>glob(pattern)\<close> for a prefix, a suffix or a plain name, as names of the directory, and the removal of
  the files and links among them.
\<close>

datatype pattern = Starting string | Ending string | Named string

fun matches :: "pattern \<Rightarrow> string \<Rightarrow> bool" where
  "matches (Starting p) x = startswith x p"
| "matches (Ending p) x = endswith x p"
| "matches (Named p) x = (x = p)"

fun remove_names :: "apath \<Rightarrow> string list \<Rightarrow> unit act" where
  "remove_names d [] = ret ()"
| "remove_names d (x # xs) =
     seq (asks (\<lambda>fs. is_file fs (d @ [x]) \<or> is_symlink fs (d @ [x]))) (\<lambda>stale.
     seq (if stale then alter (unlink_ok (d @ [x])) else ret ()) (\<lambda>_. remove_names d xs))"

fun wipe :: "apath \<Rightarrow> pattern list \<Rightarrow> unit act" where
  "wipe d [] = ret ()"
| "wipe d (p # ps) =
     seq (asks (\<lambda>fs. filter (matches p) (iterdir fs d))) (\<lambda>xs.
     seq (remove_names d xs) (\<lambda>_. wipe d ps))"

definition stale_patterns :: "site \<Rightarrow> pattern list" where
  "stale_patterns st =
     Starting ''lib'' # (if on_windows st then [Named ''llama-server.exe'', Ending ''.dll''] else [Named ''llama-server''])"

text \<open>
  \<open>order\<close> is the order in which Python walks the set of the members of a zip archive.
\<close>

definition member_content :: "(string \<times> string) list \<Rightarrow> string \<Rightarrow> string" where
  "member_content ms n = (case map_of (rev ms) n of None \<Rightarrow> [] | Some c \<Rightarrow> c)"

definition unpack_engine :: "site \<Rightarrow> (string list \<Rightarrow> string list) \<Rightarrow> apath \<Rightarrow> string \<Rightarrow> string \<Rightarrow> string \<Rightarrow> unit act" where
  "unpack_engine st order bin_dir binary archive bytes =
     (if endswith archive ''.tar.gz'' then
        (case st_untar st bytes of
           None \<Rightarrow> raise OtherError
         | Some ms \<Rightarrow>
             seq (ensure (list_ex (is_binary binary) (map fst ms)) OtherError) (\<lambda>_.
             seq (write_members bin_dir (file_members ms)) (\<lambda>_.
             alter (\<lambda>fs. Some (link_members bin_dir (sym_members ms) fs)))))
      else
        (case st_unzip st bytes of
           None \<Rightarrow> raise OtherError
         | Some ms \<Rightarrow>
             let names = map fst ms in
             seq (ensure (list_ex (is_binary binary) names) OtherError) (\<lambda>_.
             seq (write_members bin_dir
               (map (\<lambda>n. (n, member_content ms n))
                 (order (remdups (filter (\<lambda>n. is_binary binary n \<or> on_windows st \<and> endswith (py_lower n) ''.dll'') names))))) (\<lambda>_.
             if on_windows st then ret ()
             else seq (asks (\<lambda>fs. path_exists fs (bin_dir @ [binary]))) (\<lambda>there. ensure there OtherError)))))"

text \<open>
  What the two installers differ in: the name of the cache directory, whether stale files are removed
  first, the marks that count as this tag, and the mark that is written.
\<close>

record engine_kind =
  ek_binary :: string
  ek_cache :: string
  ek_stale :: "pattern list"
  ek_accepted :: "string list"
  ek_mark :: string

definition fetch_prebuilt :: "site \<Rightarrow> (string list \<Rightarrow> string list) \<Rightarrow> layout \<Rightarrow> engine_kind \<Rightarrow> string \<Rightarrow> bool inst" where
  "fetch_prebuilt st order la ek url =
     (let binary = binary_name st (ek_binary ek); cache_dir = la_cache la @ [ek_cache ek] in
      with_archive st (la_bin la @ [binary]) cache_dir (ek_accepted ek) (ek_mark ek) url
        (seq (wipe (la_bin la) (ek_stale ek)) (\<lambda>_.
         seq (asks (\<lambda>fs. read_text fs (cache_dir @ [url_name url]))) (\<lambda>c.
         (case c of
            None \<Rightarrow> raise OtherError
          | Some bytes \<Rightarrow> unpack_engine st order (la_bin la) binary (url_name url) bytes)))))"

definition llama_kind :: "site \<Rightarrow> string \<Rightarrow> engine_kind" where
  "llama_kind st tag = \<lparr>ek_binary = ''llama-server'', ek_cache = ''llama_cpp'', ek_stale = stale_patterns st,
     ek_accepted = [tag], ek_mark = tag\<rparr>"

definition whisper_kind :: "string \<Rightarrow> engine_kind" where
  "whisper_kind tag = \<lparr>ek_binary = ''whisper-server'', ek_cache = ''whisper_cpp'', ek_stale = [],
     ek_accepted = [''prebuilt:'' @ tag, tag], ek_mark = ''prebuilt:'' @ tag\<rparr>"

definition install_prebuilt :: "site \<Rightarrow> (string list \<Rightarrow> string list) \<Rightarrow> layout \<Rightarrow> string \<Rightarrow> string \<Rightarrow> bool inst" where
  "install_prebuilt st order la url tag = fetch_prebuilt st order la (llama_kind st tag) url"

definition whisper_install_prebuilt :: "site \<Rightarrow> (string list \<Rightarrow> string list) \<Rightarrow> layout \<Rightarrow> string \<Rightarrow> string \<Rightarrow> bool inst" where
  "whisper_install_prebuilt st order la url tag = fetch_prebuilt st order la (whisper_kind tag) url"

section \<open>Builds from source\<close>

definition path_text :: "apath \<Rightarrow> string" where
  "path_text p = ''/'' @ intercalate ''/'' p"

definition detect_gpu_cmake_flags :: "site \<Rightarrow> gpu \<Rightarrow> toolbox \<Rightarrow> string list" where
  "detect_gpu_cmake_flags st gp tb =
     (if system_name st = ''Linux'' \<and> gp_nvidia_smi gp \<noteq> None
      then (case tb_smi_list tb of
              Some (code, out) \<Rightarrow> if code = 0 \<and> py_strip out \<noteq> [] \<and> gp_nvcc gp \<noteq> None then [''-DGGML_CUDA=ON''] else []
            | None \<Rightarrow> [])
      else [])"

text \<open>\<open>subprocess.run(cmd, check=True)\<close>.\<close>

definition run_tool :: "toolbox \<Rightarrow> string list \<Rightarrow> unit act" where
  "run_tool tb cmd h = (case tb_run tb cmd (h_fs h) of (ok, fs) \<Rightarrow> (if ok then Inr () else Inl OtherError, h\<lparr>h_fs := fs\<rparr>))"

definition clone_command :: "string \<Rightarrow> string \<Rightarrow> apath \<Rightarrow> string list" where
  "clone_command repo tag src =
     [''git'', ''-c'', ''advice.detachedHead=false'', ''clone'', ''--depth'', ''1'', ''--branch'', tag, repo, path_text src]"

definition configure_flags :: "toolbox \<Rightarrow> string list \<Rightarrow> string list" where
  "configure_flags tb flags =
     (if tb_ninja tb then [''-G'', ''Ninja''] else []) @ flags @
     (if tb_ccache tb then [''-DCMAKE_C_COMPILER_LAUNCHER=ccache'', ''-DCMAKE_CXX_COMPILER_LAUNCHER=ccache''] else [])"

definition build_command :: "toolbox \<Rightarrow> apath \<Rightarrow> string \<Rightarrow> string list" where
  "build_command tb build target =
     [''cmake'', ''--build'', path_text build, ''--config'', ''Release'', ''--target'', target,
      ''-j'' @ show_nat (case tb_cores tb of Some (Suc n) \<Rightarrow> Suc n | _ \<Rightarrow> 2)]"

definition remove_if_there :: "apath \<Rightarrow> unit act" where
  "remove_if_there p = seq (asks (\<lambda>fs. path_exists fs p)) (\<lambda>e. if e then alter (\<lambda>fs. rmtree fs p) else ret ())"

text \<open>
  \<open>changed\<close>: the tag on disk is not the one to build, so an old checkout and its build are removed.
\<close>

definition build_engine :: "site \<Rightarrow> toolbox \<Rightarrow> bool \<Rightarrow> string \<Rightarrow> string \<Rightarrow> string list \<Rightarrow> string \<Rightarrow> apath \<Rightarrow> apath \<Rightarrow> string \<Rightarrow> unit act" where
  "build_engine st tb changed repo tag flags target cache_dir bin_dir mark =
     (let src = cache_dir @ [''src'']; build = cache_dir @ [''build'']; binary = binary_name st target in
      seq (asks (\<lambda>fs. path_exists fs src)) (\<lambda>old.
      seq (if changed \<and> old then seq (alter (\<lambda>fs. rmtree fs src)) (\<lambda>_. remove_if_there build) else ret ()) (\<lambda>_.
      seq (asks (\<lambda>fs. path_exists fs src)) (\<lambda>there.
      seq (if there then ret () else run_tool tb (clone_command repo tag src)) (\<lambda>_.
      seq (run_tool tb ([''cmake'', ''-S'', path_text src, ''-B'', path_text build] @ configure_flags tb flags)) (\<lambda>_.
      seq (run_tool tb (build_command tb build target)) (\<lambda>_.
      seq (asks (\<lambda>fs. rglob fs build binary)) (\<lambda>found.
      (case found of
         [] \<Rightarrow> raise OtherError
       | p # _ \<Rightarrow>
           seq (asks (\<lambda>fs. read_text fs p)) (\<lambda>c.
           (case c of
              None \<Rightarrow> raise OtherError
            | Some bytes \<Rightarrow>
                seq (alter (\<lambda>fs. write_text fs (bin_dir @ [binary]) bytes)) (\<lambda>_.
                alter (\<lambda>fs. write_text fs (cache_dir @ [''tag'']) mark)))))))))))))"

definition cached_tag :: "apath \<Rightarrow> string option inst" where
  "cached_tag tag_file =
     seq (asks (\<lambda>fs. path_exists fs tag_file)) (\<lambda>there.
     if there then
       seq (asks (\<lambda>fs. read_text fs tag_file)) (\<lambda>c.
       (case c of None \<Rightarrow> raise Escaped | Some t \<Rightarrow> ret (Some (py_strip t))))
     else ret None)"

definition cmake_build :: "site \<Rightarrow> toolbox \<Rightarrow> layout \<Rightarrow> string \<Rightarrow> string list \<Rightarrow> unit inst" where
  "cmake_build st tb la tag flags =
     (let cache_dir = la_cache la @ [''llama_cpp''] in
      seq (ensure (tb_git tb) SysExit) (\<lambda>_.
      seq (ensure (tb_cmake tb) SysExit) (\<lambda>_.
      seq (cached_tag (cache_dir @ [''tag''])) (\<lambda>cached.
      seq (asks (\<lambda>fs. path_exists fs (la_bin la @ [binary_name st ''llama-server'']))) (\<lambda>there.
      if there \<and> cached = Some tag then ret ()
      else
        seq (change_or Escaped (\<lambda>fs. mkdirs fs cache_dir)) (\<lambda>_.
        or_fail SysExit
          (build_engine st tb (cached \<noteq> Some tag) ''https://github.com/ggml-org/llama.cpp.git'' tag flags ''llama-server''
             cache_dir (la_bin la) tag)))))))"

definition missing_build_prerequisites :: "site \<Rightarrow> toolbox \<Rightarrow> (string \<times> string) list" where
  "missing_build_prerequisites st tb =
     (let hint = (if system_name st = ''Darwin'' then ''brew install''
                  else if system_name st = ''Linux'' then ''(install package)''
                  else if on_windows st then ''choco install'' else ''install'') in
      (if tb_git tb then [] else [(''git'', hint @ '' git'')]) @ (if tb_cmake tb then [] else [(''cmake'', hint @ '' cmake'')]))"

text \<open>\<open>s.split(":", 1)[-1]\<close>.\<close>

definition after_colon :: "string \<Rightarrow> string" where
  "after_colon s = (if CHR '':'' \<in> set s then tl (dropWhile (\<lambda>c. c \<noteq> CHR '':'') s) else s)"

definition whisper_cmake_build :: "site \<Rightarrow> toolbox \<Rightarrow> layout \<Rightarrow> string \<Rightarrow> string list \<Rightarrow> unit inst" where
  "whisper_cmake_build st tb la tag flags =
     (let cache_dir = la_cache la @ [''whisper_cpp''] in
      seq (ensure (missing_build_prerequisites st tb = []) SysExit) (\<lambda>_.
      seq (cached_tag (cache_dir @ [''tag''])) (\<lambda>cached.
      seq (asks (\<lambda>fs. path_exists fs (la_bin la @ [binary_name st ''whisper-server'']))) (\<lambda>there.
      if there \<and> cached = Some (''source:'' @ tag) then ret ()
      else
        seq (change_or Escaped (\<lambda>fs. mkdirs fs cache_dir)) (\<lambda>_.
        or_fail SysExit
          (build_engine st tb ((case cached of Some (c # cs) \<Rightarrow> Some (after_colon (c # cs)) | _ \<Rightarrow> None) \<noteq> Some tag)
             ''https://github.com/ggml-org/whisper.cpp.git'' tag flags ''whisper-server''
             cache_dir (la_bin la) (''source:'' @ tag)))))))"

section \<open>The installers\<close>

definition is_already_installed :: "site \<Rightarrow> layout \<Rightarrow> string \<Rightarrow> bool inst" where
  "is_already_installed st la tag = engine_present st la ''llama-server'' ''llama_cpp'' [tag]"

definition cmake_base_flags :: "site \<Rightarrow> string list \<Rightarrow> string list" where
  "cmake_base_flags st flags = flags @ (if system_name st = ''Darwin'' then [''-DGGML_NATIVE=OFF''] else [])"

definition install_inference_engine ::
    "site \<Rightarrow> gpu \<Rightarrow> toolbox \<Rightarrow> (string list \<Rightarrow> string list) \<Rightarrow> layout \<Rightarrow> unit inst" where
  "install_inference_engine st gp tb order la =
     (let tag = LLAMA_CPP_RELEASE;
          flags = cmake_base_flags st [''-DCMAKE_BUILD_TYPE=Release'', ''-DBUILD_SHARED_LIBS=OFF'', ''-DLLAMA_BUILD_TESTS=OFF''] in
      if la_frozen la then ret ()
      else
        seq (change_or Escaped (\<lambda>fs. mkdirs fs (la_bin la))) (\<lambda>_.
        seq (is_already_installed st la tag) (\<lambda>there.
        if there then ret ()
        else
          seq (case prebuilt_url st gp tag of None \<Rightarrow> ret False | Some url \<Rightarrow> install_prebuilt st order la url tag) (\<lambda>got.
          if got then ret ()
          else if on_windows st then raise SysExit
          else cmake_build st tb la tag (flags @ detect_gpu_cmake_flags st gp tb)))))"

definition main_install :: "site \<Rightarrow> gpu \<Rightarrow> toolbox \<Rightarrow> (string list \<Rightarrow> string list) \<Rightarrow> layout \<Rightarrow> unit inst" where
  "main_install st gp tb order la =
     seq (is_already_installed st la LLAMA_CPP_RELEASE) (\<lambda>engine.
     seq (if engine then is_swap_installed st la LLAMA_SWAP_RELEASE else ret False) (\<lambda>both.
     if both then ret ()
     else seq (install_inference_engine st gp tb order la) (\<lambda>_. install_swap st la)))"

definition whisper_already_installed :: "site \<Rightarrow> layout \<Rightarrow> string \<Rightarrow> bool \<Rightarrow> bool inst" where
  "whisper_already_installed st la tag force_source =
     engine_present st la ''whisper-server'' ''whisper_cpp''
       (if force_source then [''source:'' @ tag] else [''source:'' @ tag, ''prebuilt:'' @ tag, tag])"

definition install_whisper_engine ::
    "site \<Rightarrow> gpu \<Rightarrow> toolbox \<Rightarrow> (string list \<Rightarrow> string list) \<Rightarrow> layout \<Rightarrow> unit inst" where
  "install_whisper_engine st gp tb order la =
     (let tag = WHISPER_CPP_RELEASE;
          force_source = (st_env st ''LOCAI_WHISPER_FORCE_SOURCE'' = Some ''1'' \<and> \<not> on_windows st);
          flags = cmake_base_flags st [''-DCMAKE_BUILD_TYPE=Release'', ''-DWHISPER_BUILD_SERVER=ON'', ''-DWHISPER_BUILD_EXAMPLES=ON'',
                   ''-DBUILD_SHARED_LIBS=OFF''] in
      if la_frozen la then ret ()
      else
        seq (change_or Escaped (\<lambda>fs. mkdirs fs (la_bin la))) (\<lambda>_.
        seq (whisper_already_installed st la tag force_source) (\<lambda>there.
        if there then ret ()
        else
          seq (case (if force_source then None else whisper_prebuilt_url st gp tag) of
                 None \<Rightarrow> ret False | Some url \<Rightarrow> whisper_install_prebuilt st order la url tag) (\<lambda>got.
          if got then ret ()
          else if on_windows st then raise SysExit
          else whisper_cmake_build st tb la tag (flags @ detect_gpu_cmake_flags st gp tb)))))"

section \<open>The working directory of an installer\<close>

text \<open>
  A directory without links in which only the named entries change.
\<close>

definition work_dir :: "apath \<Rightarrow> string set \<Rightarrow> fs \<Rightarrow> fs \<Rightarrow> bool" where
  "work_dir R A fs0 fs \<longleftrightarrow> canonical fs R \<and> (\<forall>x. \<not> is_link_entry (node fs (R @ [x]))) \<and> only_entries R A fs0 fs"

lemma work_dir_kept:
  assumes "work_dir R A fs0 fs" "only_entries R A fs fs'" "\<And>x. x \<in> A \<Longrightarrow> \<not> is_link_entry (node fs' (R @ [x]))"
  shows "work_dir R A fs0 fs'"
proof -
  have "\<not> is_link_entry (node fs' (R @ [x]))" for x
    using assms only_entries_at [OF assms(2), of x "R @ [x]"] by (cases "x \<in> A") (auto simp: work_dir_def)
  with assms(1,2) only_entries_canonical only_entries_trans show ?thesis unfolding work_dir_def by blast
qed

lemma work_dir_write:
  assumes "work_dir R A fs0 fs" "a \<in> A" "a \<noteq> ''..''" "write_text fs (R @ [a]) s = Some fs'"
  shows "fs' = put (R @ [a]) (EFile s) fs" "work_dir R A fs0 fs'"
proof -
  from assms(1,3) have "realpath fs (R @ [a]) = Some (R @ [a])" by (auto simp: work_dir_def intro: realpath_plain)
  with assms(4) show fs': "fs' = put (R @ [a]) (EFile s) fs" by (auto simp: write_text_def split: if_splits)
  with assms(2) have "only_entries R A fs fs'" by (auto intro: only_entries_put)
  then show "work_dir R A fs0 fs'"
    using assms(1) fs' by (intro work_dir_kept [OF assms(1)]) (auto simp: node_put work_dir_def)
qed

lemma work_dir_unlink:
  assumes "work_dir R A fs0 fs" "a \<in> A" "a \<noteq> ''..''" "unlink_ok (R @ [a]) fs = Some fs'"
  shows "work_dir R A fs0 fs'"
proof -
  from assms have "fs' = fs \<or> fs' = AList.delete (R @ [a]) fs"
    by (auto simp: unlink_ok_def unlink_def work_dir_def lpath_canonical split: if_splits option.splits entry.splits)
  moreover have "only_entries R A fs (AList.delete (R @ [a]) fs)"
    using assms(2) by (auto simp: only_entries_def node_delete at_entry_def)
  ultimately show ?thesis
    using assms(1) by (intro work_dir_kept [OF assms(1)]) (auto simp: node_delete work_dir_def split: if_splits)
qed

lemma work_dir_replace:
  assumes "work_dir R A fs0 fs" "a \<in> A" "b \<in> A" "a \<noteq> b" "a \<noteq> ''..''" "b \<noteq> ''..''"
    "os_replace fs (R @ [a]) (R @ [b]) = Some fs'"
  shows "node fs' (R @ [b]) = node fs (R @ [a])" "work_dir R A fs0 fs'"
proof -
  from assms(1) have can: "canonical fs R" by (simp add: work_dir_def)
  note sib = os_replace_sibling [OF can assms(4-7)]
  show moved: "node fs' (R @ [b]) = node fs (R @ [a])" using sib(1) [of "[]"] by simp
  have only: "only_entries R A fs fs'" using sib(3) assms(2,3) by (auto intro: only_entries_mono)
  have "\<not> is_link_entry (node fs' (R @ [x]))" if "x \<in> A" for x
    using moved sib(2) [of "[]"] only_entries_at [OF sib(3), of x "R @ [x]"] assms(1)
    by (cases "x \<in> {a, b}") (auto simp: work_dir_def)
  with work_dir_kept [OF assms(1) only] show "work_dir R A fs0 fs'" by blast
qed

text \<open>A body the network delivered in full.\<close>

definition delivered :: "site \<Rightarrow> string \<Rightarrow> string \<Rightarrow> bool" where
  "delivered st url bytes \<longleftrightarrow> (\<exists>n. judge (st_get st n url 0) = Whole bytes)"

lemma change_orE:
  assumes "change_or e f h = (r, h')"
  obtains fs where "f (h_fs h) = Some fs" "r = Inr ()" "h' = h\<lparr>h_fs := fs\<rparr>" | "f (h_fs h) = None" "r = Inl e" "h' = h"
  using assms by (auto simp: change_or_def split: option.splits)

lemma download_tries_run:
  assumes "download_tries st url (R @ [x]) k h = (r, h')" "x \<noteq> []" "x \<noteq> ''..''"
    "work_dir R {x, x @ ''.partial''} fs0 (h_fs h)"
  shows "work_dir R {x, x @ ''.partial''} fs0 (h_fs h') \<and>
    (r = Inr () \<longrightarrow> (\<exists>bytes. delivered st url bytes \<and> node (h_fs h') (R @ [x]) = Some (EFile bytes)))"
  using assms(1,4)
proof (induction k arbitrary: h)
  case 0
  then show ?case by (auto simp: raise_def)
next
  case (Suc k)
  let ?p = "x @ ''.partial''" and ?A = "{x, x @ ''.partial''}"
  have p: "?p \<noteq> ''..''" "?p \<noteq> x" by (auto dest: arg_cong [of _ _ length])
  note wrote = work_dir_write [of R ?A fs0 _ ?p]
  note gone = work_dir_unlink [of R ?A fs0 _ ?p]
  have drop: "work_dir R ?A fs0 (h_fs h2) \<and> (\<exists>u. q = Inr u \<longrightarrow> u = ())"
    if "alter (unlink_ok (R @ [?p])) h1 = (q, h2)" "work_dir R ?A fs0 (h_fs h1)" for h1 h2 and q :: "as_error + unit"
    using that gone p by (auto elim!: change_orE)
  have again: "work_dir R ?A fs0 (h_fs h') \<and>
      (r = Inr () \<longrightarrow> (\<exists>bytes. delivered st url bytes \<and> node (h_fs h') (R @ [x]) = Some (EFile bytes)))"
    if "seq (alter (unlink_ok (R @ [?p]))) (\<lambda>_. download_tries st url (R @ [x]) k) h1 = (r, h')" "work_dir R ?A fs0 (h_fs h1)" for h1
    using that(1)
  proof (cases rule: seqE)
    case first
    with drop that(2) show ?thesis by auto
  next
    case (both u h2)
    with drop that(2) Suc.IH show ?thesis by blast
  qed
  define h1 where "h1 = h\<lparr>h_log := h_log h @ [url]\<rparr>"
  have h1: "h_fs h1 = h_fs h"
    "(case judge (st_get st (length (h_log h)) url 0) of
        Whole s \<Rightarrow>
          seq (alter (\<lambda>fs. write_text fs (R @ [?p]) s)) (\<lambda>_. alter (\<lambda>fs. os_replace fs (R @ [?p]) (R @ [x])))
      | Torn s \<Rightarrow>
          seq (alter (\<lambda>fs. write_text fs (R @ [?p]) s)) (\<lambda>_.
          seq (alter (unlink_ok (R @ [?p]))) (\<lambda>_. download_tries st url (R @ [x]) k))
      | Again \<Rightarrow> seq (alter (unlink_ok (R @ [?p]))) (\<lambda>_. download_tries st url (R @ [x]) k)
      | Final \<Rightarrow> seq (alter (unlink_ok (R @ [?p]))) (\<lambda>_. raise NetworkError)) h1 = (r, h')"
    using Suc.prems(1) [unfolded download_tries.simps with_partial_snoc]
    by (simp_all add: h1_def seq_def [of "http_get st url 0"] http_get_def)
  have inv: "work_dir R ?A fs0 (h_fs h1)" using h1(1) Suc.prems(2) by simp
  show ?case
  proof (cases "judge (st_get st (length (h_log h)) url 0)")
    case (Whole s)
    with h1 have "seq (alter (\<lambda>fs. write_text fs (R @ [?p]) s)) (\<lambda>_. alter (\<lambda>fs. os_replace fs (R @ [?p]) (R @ [x]))) h1 = (r, h')"
      by simp
    then show ?thesis
    proof (cases rule: seqE)
      case first
      with inv show ?thesis by (auto elim!: change_orE)
    next
      case (both u h2)
      then obtain fs2 where w: "write_text (h_fs h1) (R @ [?p]) s = Some fs2" "h_fs h2 = fs2" by (auto elim!: change_orE)
      note wr = wrote [OF inv _ p(1) w(1)]
      have d: "delivered st url s" using Whole by (auto simp: delivered_def)
      from both(2) show ?thesis
      proof (cases rule: change_orE)
        case (1 fs3)
        with work_dir_replace [where R = R and A = ?A and a = ?p and b = x, OF wr(2) _ _ p(2) p(1) assms(3)] w wr(1) d show ?thesis
          by (auto simp: node_put)
      next
        case 2
        with wr(2) w show ?thesis by simp
      qed
    qed
  next
    case (Torn s)
    with h1(2) have "seq (alter (\<lambda>fs. write_text fs (R @ [?p]) s)) (\<lambda>_.
        seq (alter (unlink_ok (R @ [?p]))) (\<lambda>_. download_tries st url (R @ [x]) k)) h1 = (r, h')" by simp
    then show ?thesis
    proof (cases rule: seqE)
      case first
      with inv show ?thesis by (auto elim!: change_orE)
    next
      case (both u h2)
      with wrote(2) [OF inv _ p(1)] have "work_dir R ?A fs0 (h_fs h2)" by (auto elim!: change_orE)
      with again both(2) show ?thesis by blast
    qed
  next
    case Again
    with h1(2) again [OF _ inv] show ?thesis by auto
  next
    case Final
    with h1(2) show ?thesis using inv drop by (auto elim!: seqE simp: raise_def)
  qed
qed

section \<open>An installed llama-swap is whole\<close>

text \<open>The cache directory of an engine lies below \<open>H\<close>; there are no links on the way, nor in it.\<close>

definition cache_ok :: "apath \<Rightarrow> string \<Rightarrow> string \<Rightarrow> fs \<Rightarrow> bool" where
  "cache_ok H c s fs \<longleftrightarrow> fresh_below H c fs \<and> s \<noteq> ''..'' \<and> \<not> is_link_entry (node fs (H @ [c, s])) \<and>
     (\<forall>x. \<not> is_link_entry (node fs (H @ [c, s, x])))"

lemma mkdirs_from_append:
  "mkdirs_from fs cur (xs @ ys) = (case mkdirs_from fs cur xs of None \<Rightarrow> None | Some fs1 \<Rightarrow> mkdirs_from fs1 (cur @ xs) ys)"
  by (induction xs arbitrary: fs cur) (auto split: option.splits entry.splits)

lemma cache_made:
  assumes "cache_ok H c s fs" "mkdirs fs (H @ [c, s]) = Some fs1"
  shows "work_dir (H @ [c, s]) {} fs1 fs1" "\<And>q. \<not> prefix (H @ [c]) q \<Longrightarrow> node fs1 q = node fs q"
    "\<And>x. node fs1 (H @ [c, s, x]) = node fs (H @ [c, s, x])"
proof -
  from assms(2) obtain fs2 where fs2: "mkdirs fs (H @ [c]) = Some fs2"
    and rest: "mkdirs_from fs2 (H @ [c]) [s] = Some fs1"
    using mkdirs_from_append [of fs "[]" "H @ [c]" "[s]"] by (auto simp: mkdirs_def split: option.splits)
  from assms(1) have ok: "fresh_below H c fs" "s \<noteq> ''..''" "\<not> is_link_entry (node fs (H @ [c, s]))"
    "\<forall>x. \<not> is_link_entry (node fs (H @ [c, s, x]))" by (auto simp: cache_ok_def)
  from mkdirs_fresh [OF ok(1) fs2] have g: "guarded (H @ [c]) fs2"
    and e2: "fs2 = fs \<or> fs2 = put (H @ [c]) (EDir 0) fs" by auto
  have can: "canonical fs2 (H @ [c])" using g by (simp add: guarded_def)
  have "prefix (H @ [c]) q" if "prefix ((H @ [c]) @ [s]) q" for q using that by (auto simp: prefix_def)
  with g have "tame ((H @ [c]) @ [s]) fs2" unfolding guarded_def tame_def by blast
  with e2 ok(2,3) can have "fresh_below (H @ [c]) s fs2" by (auto simp: fresh_below_def node_put)
  moreover from rest mkdirs_canonical [OF can] have "mkdirs fs2 ((H @ [c]) @ [s]) = Some fs1" by simp
  ultimately have "guarded ((H @ [c]) @ [s]) fs1 \<and> (fs1 = fs2 \<or> node fs2 ((H @ [c]) @ [s]) = None \<and> fs1 = put ((H @ [c]) @ [s]) (EDir 0) fs2)"
    by (rule mkdirs_fresh)
  then have g1: "guarded (H @ [c, s]) fs1" and e1: "fs1 = fs2 \<or> fs1 = put (H @ [c, s]) (EDir 0) fs2" by auto
  from e1 e2 show same: "\<And>q. \<not> prefix (H @ [c]) q \<Longrightarrow> node fs1 q = node fs q"
    "\<And>x. node fs1 (H @ [c, s, x]) = node fs (H @ [c, s, x])" by (auto simp: node_put)
  from g1 ok(4) same(2) show "work_dir (H @ [c, s]) {} fs1 fs1" by (simp add: work_dir_def guarded_def)
qed

lemma marked_as_run:
  assumes "marked_as binary tag_file accepted h = (r, h')"
  shows "h' = h" "r = Inr True \<Longrightarrow> path_exists (h_fs h) binary \<and> (\<exists>t. read_text (h_fs h) tag_file = Some t \<and> py_strip t \<in> set accepted)"
  using assms by (auto simp: marked_as_def seq_steps ret_def raise_def split: if_splits option.splits)

lemma triedE:
  assumes "tried m h = (r, h')"
  obtains x where "m h = (Inr x, h')" "r = Inr (Some x)" | e where "m h = (Inl e, h')" "r = Inr None"
  using assms by (auto simp: tried_def split: prod.splits sum.splits)

text \<open>Where the binary and the tag of a site are, and what a run of the installer may leave there.\<close>

definition from_archive :: "site \<Rightarrow> string \<Rightarrow> string \<Rightarrow> string \<Rightarrow> string \<Rightarrow> bool" where
  "from_archive st url binary name code \<longleftrightarrow> (\<exists>bytes. delivered st url bytes \<and> swap_member st binary name bytes = Some code)"

lemma swap_unpacked:
  assumes "tried (unpack_swap st binary dest (R @ [x])) h = (r, h')"
    and "read_text (h_fs h) (R @ [x]) = Some bytes" "realpath (h_fs h) dest = Some dest"
  shows "h_fs h' = h_fs h \<and> r = Inr None \<or>
    (\<exists>code. swap_member st binary x bytes = Some code \<and> h_fs h' = put dest (EFile code) (h_fs h))"
  using assms(1)
proof (cases rule: triedE)
  case (1 u)
  with assms(2,3) show ?thesis
    by (auto simp: unpack_swap_def seq_steps raise_def write_text_def split: option.splits if_splits elim!: change_orE)
next
  case (2 e)
  with assms(2,3) show ?thesis
    by (auto simp: unpack_swap_def seq_steps raise_def write_text_def split: option.splits if_splits elim!: change_orE)
qed

text \<open>After the download: the archive is unpacked and removed, and the tag is written.\<close>

lemma finish_swap_run:
  assumes run: "finish_install R x tag e h = (r, h')"
    and inv: "work_dir R {x, ''tag''} fs0 (h_fs h)" and x: "x \<noteq> ''..''" "x \<noteq> ''tag''"
  shows "only_entries R {x, ''tag''} (h_fs h) (h_fs h')"
    "r = Inr True \<Longrightarrow> e \<noteq> None \<and> node (h_fs h') (R @ [''tag'']) = Some (EFile tag)"
    "r \<noteq> Inr True \<Longrightarrow> node (h_fs h') (R @ [''tag'']) = node (h_fs h) (R @ [''tag''])"
proof -
  have "only_entries R {x, ''tag''} (h_fs h) (h_fs h') \<and> (r = Inr True \<longrightarrow> e \<noteq> None \<and> node (h_fs h') (R @ [''tag'']) = Some (EFile tag)) \<and>
    (r \<noteq> Inr True \<longrightarrow> node (h_fs h') (R @ [''tag'']) = node (h_fs h) (R @ [''tag'']))"
    using run unfolding finish_install_def
  proof (cases rule: seqE)
    case first
    then show ?thesis by (auto elim!: change_orE)
  next
    case (both u h1)
    then obtain fs1 where u1: "unlink_ok (R @ [x]) (h_fs h) = Some fs1" "h1 = h\<lparr>h_fs := fs1\<rparr>" by (auto elim!: change_orE)
    from inv have here: "work_dir R {x, ''tag''} (h_fs h) (h_fs h)" by (simp add: work_dir_def)
    from work_dir_unlink [OF here _ x(1) u1(1)] have inv1: "work_dir R {x, ''tag''} (h_fs h) fs1" by simp
    have "work_dir R {x} (h_fs h) fs1"
      using work_dir_unlink [of R "{x}" "h_fs h" "h_fs h" x fs1] inv x(1) u1(1) by (simp add: work_dir_def)
    with only_entries_at [of R "{x}" "h_fs h" fs1 "''tag''" "R @ [''tag'']"] x(2)
    have tag1: "node fs1 (R @ [''tag'']) = node (h_fs h) (R @ [''tag''])" by (auto simp: work_dir_def)
    show ?thesis
    proof (cases e)
      case None
      with both(2) inv1 tag1 u1(2) show ?thesis by (auto simp: ret_def work_dir_def)
    next
      case (Some v)
      with both(2) have "seq (change_or Escaped (\<lambda>fs. write_text fs (R @ [''tag'']) tag)) (\<lambda>_. ret True) h1 = (r, h')" by simp
      then show ?thesis
      proof (cases rule: seqE)
        case first
        with inv1 tag1 u1(2) show ?thesis by (auto simp: work_dir_def elim!: change_orE)
      next
        case (both w h2)
        then obtain fs2 where w: "write_text fs1 (R @ [''tag'']) tag = Some fs2" "h2 = h1\<lparr>h_fs := fs2\<rparr>" "r = Inr True" "h' = h2"
          using u1(2) by (auto simp: ret_def elim!: change_orE)
        from work_dir_write [OF inv1 _ _ w(1)] w Some show ?thesis by (auto simp: work_dir_def node_put)
      qed
    qed
  qed
  then show "only_entries R {x, ''tag''} (h_fs h) (h_fs h')"
    "r = Inr True \<Longrightarrow> e \<noteq> None \<and> node (h_fs h') (R @ [''tag'']) = Some (EFile tag)"
    "r \<noteq> Inr True \<Longrightarrow> node (h_fs h') (R @ [''tag'']) = node (h_fs h) (R @ [''tag''])" by auto
qed

lemma binary_name_plain: "binary_name st ''llama-swap'' \<noteq> ''..''" "binary_name st ''llama-swap'' \<noteq> []"
  by (simp_all add: binary_name_def)

lemma canonical_same: "canonical fs D \<Longrightarrow> (\<And>q. prefix q D \<Longrightarrow> node fs' q = node fs q) \<Longrightarrow> canonical fs' D"
  unfolding canonical_def by (metis take_is_prefix)

lemma prefix_not_sibling: "b \<noteq> c \<Longrightarrow> prefix q (H @ [b]) \<Longrightarrow> \<not> prefix (H @ [c]) q"
  using prefix_order.trans [of "H @ [c]" q H] by auto

lemma only_entries_outside:
  assumes "only_entries (H @ [c, s]) A fs fs'" "\<not> prefix (H @ [c]) q"
  shows "node fs' q = node fs q"
proof -
  have "\<not> at_entry (H @ [c, s]) a q" for a
    using assms(2) unfolding at_entry_def by (metis append_assoc append_Cons append_Nil prefix_def)
  with assms(1) show ?thesis by (simp add: only_entries_def)
qed

text \<open>
  What a run may leave: \<open>C\<close> is the build cache, \<open>ok\<close> whether the run says that the engine is installed now.
\<close>

definition swap_left :: "site \<Rightarrow> string \<Rightarrow> string \<Rightarrow> string \<Rightarrow> apath \<Rightarrow> apath \<Rightarrow> apath \<Rightarrow> string \<Rightarrow> fs \<Rightarrow> bool \<Rightarrow> fs \<Rightarrow> bool" where
  "swap_left st url binary x bin tag_file C tag fs ok fs' \<longleftrightarrow>
     (\<not> ok \<and> node fs' bin = node fs bin \<or>
        (\<exists>code. from_archive st url binary x code \<and> node fs' bin = Some (EFile code))) \<and>
     (if ok then node fs' tag_file = Some (EFile tag) else node fs' tag_file = node fs tag_file) \<and>
     (\<forall>q. q \<noteq> bin \<longrightarrow> \<not> prefix C q \<longrightarrow> node fs' q = node fs q)"

definition cache_only :: "apath \<Rightarrow> apath \<Rightarrow> fs \<Rightarrow> fs \<Rightarrow> bool" where
  "cache_only tag_file C fs fs' \<longleftrightarrow> (\<forall>q. q = tag_file \<or> \<not> prefix C q \<longrightarrow> node fs' q = node fs q)"

lemma swap_left_after:
  "cache_only tag_file C fs fs1 \<Longrightarrow> \<not> prefix C bin \<Longrightarrow> swap_left st url binary x bin tag_file C tag fs1 ok fs' \<Longrightarrow>
   swap_left st url binary x bin tag_file C tag fs ok fs'"
  unfolding swap_left_def cache_only_def by metis

lemma swap_left_unchanged:
  "cache_only tag_file C fs fs' \<Longrightarrow> \<not> prefix C bin \<Longrightarrow> swap_left st url binary x bin tag_file C tag fs False fs'"
  by (simp add: swap_left_def cache_only_def)

lemma cache_only_entries:
  assumes "only_entries (H @ [c, s]) A fs fs'" "''tag'' \<notin> A"
  shows "cache_only (H @ [c, s, ''tag'']) (H @ [c]) fs fs'"
  using only_entries_outside [OF assms(1)] only_entries_at [OF assms(1), of "''tag''" "H @ [c, s, ''tag'']"] assms(2)
    at_entry_self(1) [of "H @ [c, s]" "''tag''" "''tag''"]
  by (auto simp: cache_only_def)

text \<open>Unpacking and the end of an installation.\<close>

lemma swap_place_run:
  fixes H :: apath and b c s x y tag :: string
  defines "R \<equiv> H @ [c, s]" and "bin \<equiv> H @ [b, y]"
  assumes run: "seq (tried (unpack_swap st binary bin (R @ [x]))) (finish_install R x tag) h = (r, h')"
    and R: "work_dir R {} (h_fs h) (h_fs h)" and x: "x \<noteq> ''..''" "x \<noteq> ''tag''"
    and bin: "b \<noteq> c" "y \<noteq> ''..''" "canonical (h_fs h) (H @ [b])" "\<not> is_link_entry (node (h_fs h) bin)"
    and bytes: "node (h_fs h) (R @ [x]) = Some (EFile bytes)" "delivered st url bytes"
  shows "swap_left st url binary x bin (R @ [''tag'']) (H @ [c]) tag (h_fs h) (r = Inr True) (h_fs h')"
proof -
  have "\<not> prefix bin R" using bin(1) by (simp add: bin_def R_def)
  then have apart1: "bin \<noteq> take k R" for k using take_is_prefix [of k R] by metis
  have apart2: "bin \<noteq> R @ cs" for cs using bin(1) by (simp add: bin_def R_def)
  have free: "\<not> prefix (H @ [c]) bin" using bin(1) by (simp add: bin_def)
  from bytes(1) R x(1) have rd: "read_text (h_fs h) (R @ [x]) = Some bytes"
    by (simp add: read_text_def work_dir_def stat_plain)
  have rp: "realpath (h_fs h) bin = Some bin"
    using realpath_plain [OF bin(3,2)] bin(4) by (simp add: bin_def)
  from run obtain e h1 where u: "tried (unpack_swap st binary bin (R @ [x])) h = (Inr e, h1)"
    and f: "finish_install R x tag e h1 = (r, h')"
    by (elim seqE) (auto elim: triedE)
  from swap_unpacked [OF u rd rp] have one: "h_fs h1 = h_fs h \<and> e = None \<or>
      (\<exists>code. from_archive st url binary x code \<and> h_fs h1 = put bin (EFile code) (h_fs h))"
    using bytes(2) by (auto simp: from_archive_def)
  then have keep: "node (h_fs h1) q = node (h_fs h) q" if "q \<noteq> bin" for q
    using that bin_def by (auto simp: node_put)
  have "canonical (h_fs h1) R"
    using R keep [OF apart1 [symmetric]] by (auto simp: work_dir_def canonical_def)
  moreover have "node (h_fs h1) (R @ [z]) = node (h_fs h) (R @ [z])" for z using keep apart2 by metis
  ultimately have R1: "work_dir R {x, ''tag''} (h_fs h1) (h_fs h1)" using R by (simp add: work_dir_def)
  note fin = finish_swap_run [OF f R1 x]
  have same: "node (h_fs h') q = node (h_fs h1) q" if "\<not> prefix (H @ [c]) q" for q
    using only_entries_outside [OF fin(1) [unfolded R_def] that] .
  show ?thesis
    unfolding swap_left_def
  proof (intro conjI allI impI)
    show "r \<noteq> Inr True \<and> node (h_fs h') bin = node (h_fs h) bin \<or>
        (\<exists>code. from_archive st url binary x code \<and> node (h_fs h') bin = Some (EFile code))"
      using one fin(2) same [OF free] bin_def by (auto simp: node_put)
    show "if r = Inr True then node (h_fs h') (R @ [''tag'']) = Some (EFile tag)
        else node (h_fs h') (R @ [''tag'']) = node (h_fs h) (R @ [''tag''])"
      using fin(2,3) keep [OF apart2 [symmetric]] by simp
    show "node (h_fs h') q = node (h_fs h) q" if "q \<noteq> bin" "\<not> prefix (H @ [c]) q" for q
      using same keep that by simp
  qed
qed

text \<open>The part after the cache directory is there.\<close>

lemma swap_fetch_run:
  fixes H :: apath and b c s x y tag :: string
  defines "R \<equiv> H @ [c, s]" and "bin \<equiv> H @ [b, y]"
  assumes run: "seq (tried (download_with_retry st url (R @ [x]))) (\<lambda>got.
      if got = None then seq (change_or Escaped (unlink_ok (R @ [x]))) (\<lambda>_. ret False)
      else seq (tried (unpack_swap st binary bin (R @ [x]))) (finish_install R x tag)) h = (r, h')"
    and R: "work_dir R {} (h_fs h) (h_fs h)" and x: "x \<noteq> []" "x \<noteq> ''..''" "x \<noteq> ''tag''"
    and bin: "b \<noteq> c" "y \<noteq> ''..''" "canonical (h_fs h) (H @ [b])" "\<not> is_link_entry (node (h_fs h) bin)"
  shows "swap_left st url binary x bin (R @ [''tag'']) (H @ [c]) tag (h_fs h) (r = Inr True) (h_fs h')"
proof -
  let ?A = "{x, x @ ''.partial''}"
  have free: "\<not> prefix (H @ [c]) bin" "''tag'' \<notin> ?A" using bin(1) x(3) by (auto simp: bin_def dest: arg_cong [of _ _ length])
  from run obtain got h1 where d: "tried (download_with_retry st url (R @ [x])) h = (Inr got, h1)"
    and rest: "(if got = None then seq (change_or Escaped (unlink_ok (R @ [x]))) (\<lambda>_. ret False)
      else seq (tried (unpack_swap st binary bin (R @ [x]))) (finish_install R x tag)) h1 = (r, h')"
    by (elim seqE) (auto elim: triedE)
  from R have "work_dir R ?A (h_fs h) (h_fs h)" by (simp add: work_dir_def)
  with d download_tries_run [of st url R x 3 h _ h1 "h_fs h"] x(1,2) have W: "work_dir R ?A (h_fs h) (h_fs h1)"
    and got: "got \<noteq> None \<Longrightarrow> \<exists>bytes. delivered st url bytes \<and> node (h_fs h1) (R @ [x]) = Some (EFile bytes)"
    by (auto simp: download_with_retry_def elim!: triedE)
  from W cache_only_entries [of H c s ?A "h_fs h" "h_fs h1"] free(2)
  have one: "cache_only (R @ [''tag'']) (H @ [c]) (h_fs h) (h_fs h1)" by (simp add: work_dir_def R_def)
  show ?thesis
  proof (cases got)
    case None
    with rest W work_dir_unlink [OF W, of x] x(2) have "work_dir R ?A (h_fs h) (h_fs h')" "r \<noteq> Inr True"
      by (auto simp: ret_def elim!: seqE change_orE)
    with cache_only_entries [of H c s ?A "h_fs h" "h_fs h'"] free(2)
    have "cache_only (R @ [''tag'']) (H @ [c]) (h_fs h) (h_fs h')" by (simp add: work_dir_def R_def)
    from swap_left_unchanged [OF this free(1)] \<open>r \<noteq> Inr True\<close> show ?thesis by simp
  next
    case (Some v)
    from got Some obtain bytes where bytes: "node (h_fs h1) (R @ [x]) = Some (EFile bytes)" "delivered st url bytes" by auto
    have "node (h_fs h1) q = node (h_fs h) q" if "prefix q (H @ [b])" for q
      using one prefix_not_sibling [OF bin(1) that] by (simp add: cache_only_def)
    note can = canonical_same [OF bin(3) this]
    from one free(1) bin(4) have nl: "\<not> is_link_entry (node (h_fs h1) bin)" by (simp add: cache_only_def)
    from W have W1: "work_dir R {} (h_fs h1) (h_fs h1)" by (simp add: work_dir_def)
    from rest Some have "seq (tried (unpack_swap st binary bin (R @ [x]))) (finish_install R x tag) h1 = (r, h')" by simp
    from swap_place_run [OF this [unfolded R_def bin_def] W1 [unfolded R_def] x(2,3) bin(1,2) can nl [unfolded bin_def]
        bytes(1) [unfolded R_def] bytes(2)]
      swap_left_after [OF one free(1)]
    show ?thesis by (simp add: R_def bin_def)
  qed
qed


definition swap_site :: site where
  "swap_site = sample_store\<lparr>st_untar := (\<lambda>s. Some [(''README'', MFile ''r''), (''x/Llama-Swap'', MFile ''code'')])\<rparr>"

definition source_layout :: layout where
  "source_layout = \<lparr>la_frozen = False, la_bin = [''v'', ''bin-llama''], la_cache = [''v'', ''build-cache'']\<rparr>"

definition source_host :: host where
  "source_host = sample_host\<lparr>h_fs := [([''v''], EDir 0), ([''v'', ''bin-llama''], EDir 0)]\<rparr>"

lemma source_host_ok:
  "canonical (h_fs source_host) ([''v''] @ [''bin-llama''])" "cache_ok [''v''] ''build-cache'' ''llama_swap'' (h_fs source_host)"
  using canonical_Snoc [of "h_fs source_host" "[]" "''v''"] canonical_Snoc [of "h_fs source_host" "[''v'']" "''bin-llama''"]
    tame_Nil [of "h_fs source_host"]
  by (auto simp: source_host_def node_def cache_ok_def fresh_below_def)

definition swap_run :: "(inst_error + bool) \<times> host" where
  "swap_run = install_swap_prebuilt swap_site source_layout ''https://r/a.tar.gz'' ''247'' source_host"


section \<open>An engine that is half unpacked\<close>

text \<open>
  The tag of an earlier installation survives the removal of its binary.  When the binary is then unpacked and a
  later member of the archive cannot be written, the installation reports a failure, but the engine counts as
  installed: the build from source that should follow is skipped.
\<close>

definition torn_site :: site where
  "torn_site = swap_site\<lparr>st_untar := (\<lambda>s. Some [(''b/llama-server'', MFile ''code''), (''b/libggml.so'', MFile ''lib'')])\<rparr>"

definition torn_host :: host where
  "torn_host = sample_host\<lparr>h_fs :=
     [([''v''], EDir 0), ([''v'', ''bin-llama''], EDir 0), ([''v'', ''bin-llama'', ''libggml.so''], EDir 0),
      ([''v'', ''build-cache''], EDir 0), ([''v'', ''build-cache'', ''llama_cpp''], EDir 0),
      ([''v'', ''build-cache'', ''llama_cpp'', ''tag''], EFile ''b1'')]\<rparr>"

lemma half_unpacked_counts:
  "fst (install_prebuilt torn_site id source_layout ''https://r/a.tar.gz'' ''b1'' torn_host) = Inr False"
  "fst (is_already_installed torn_site source_layout ''b1''
     (snd (install_prebuilt torn_site id source_layout ''https://r/a.tar.gz'' ''b1'' torn_host))) = Inr True"
  by code_simp+

end
