(* ===== verification/Model_Server.thy ===== *)
theory Model_Server
  imports Engine_Install Swap_Manager
begin

text \<open>
  \<open>plugins/language_model/server.py\<close> and \<open>plugins/audio_transcriber/server.py\<close>: which binary an engine is
  started from, the server process with its health watcher, and the two server classes.

  The watcher is a thread of its own, so the life of a server is a step relation: its public operations,
  the steps of any watcher ever started, and the end of a process.  What a start finds on the host is the
  record \<open>launching\<close>.
\<close>

section \<open>The binary of an engine\<close>

text \<open>\<open>which\<close> is \<open>shutil.which\<close>; an exception of the on-demand fetch is logged.\<close>

definition resolve_engine_binary ::
    "site \<Rightarrow> gpu \<Rightarrow> (fs \<Rightarrow> fs) \<Rightarrow> apath \<Rightarrow> (string \<Rightarrow> apath option) \<Rightarrow> string \<Rightarrow> string \<Rightarrow> apath \<Rightarrow> string option \<Rightarrow> apath option act" where
  "resolve_engine_binary st gp meanwhile cwd which engine filename bin_dir version =
     seq (asks (\<lambda>fs. path_exists fs (bin_dir @ [filename]))) (\<lambda>there.
     if there then ret (Some (bin_dir @ [filename]))
     else if \<not> st_frozen st then ret (which filename)
     else (\<lambda>h. case binary_path st gp meanwhile cwd engine filename version None None h of
                 (Inl _, h1) \<Rightarrow> (Inr None, h1) | (Inr p, h1) \<Rightarrow> (Inr (Some p), h1)))"

definition get_server_binary :: "site \<Rightarrow> gpu \<Rightarrow> (fs \<Rightarrow> fs) \<Rightarrow> apath \<Rightarrow> (string \<Rightarrow> apath option) \<Rightarrow> layout \<Rightarrow> apath option act" where
  "get_server_binary st gp meanwhile cwd which la =
     resolve_engine_binary st gp meanwhile cwd which ''llama-cpp'' (binary_name st ''llama-server'') (la_bin la) (Some LLAMA_CPP_RELEASE)"

definition get_whisper_binary :: "site \<Rightarrow> gpu \<Rightarrow> (fs \<Rightarrow> fs) \<Rightarrow> apath \<Rightarrow> (string \<Rightarrow> apath option) \<Rightarrow> layout \<Rightarrow> apath option act" where
  "get_whisper_binary st gp meanwhile cwd which la =
     resolve_engine_binary st gp meanwhile cwd which ''whisper-cpp'' (binary_name st ''whisper-server'') (la_bin la) (Some WHISPER_CPP_RELEASE)"

text \<open>
  What an on-demand engine directory holds after a start: what it held before, under a marker that names the
  digest of the manifest, what another process left there in the same way, or the members of an archive with that digest.
\<close>

definition engine_trusted ::
    "site \<Rightarrow> gpu \<Rightarrow> (fs \<Rightarrow> fs) \<Rightarrow> string \<Rightarrow> string option \<Rightarrow> apath \<Rightarrow> host \<Rightarrow> host \<Rightarrow> bool" where
  "engine_trusted st gp meanwhile engine version R h h' \<longleftrightarrow>
     (\<exists>v. chosen st gp engine version None None None h v \<and>
        (left_alone (R @ [engine]) v (h_fs h) (Inr (R @ [engine])) h' \<or>
         left_alone (R @ [engine]) v (meanwhile (put (R @ [lock_name engine]) (EFile []) (h_fs h))) (Inr (R @ [engine])) h' \<or>
         engine_tree st v (R @ [engine]) (h_fs h')))"

lemma ensure_engine_dest:
  assumes "ensure_engine st gp meanwhile name version dest manifest base arch h = (Inr d, h')"
  shows "d = dest"
proof -
  have last_ret: "d = dest" if "seq m (\<lambda>_. ret dest) h1 = (Inr d, h')" for h1 h' and m :: "'a act"
    using that by (auto simp: ret_def elim!: seqE)
  have "d = dest" if "install_engine st v dest base h1 = (Inr d, h')" for h1 v
    using that unfolding install_engine_def by (auto simp: ret_def elim!: seqE)
  with assms show ?thesis
    unfolding ensure_engine_def by (auto simp: ret_def elim!: seqE split: if_splits)
qed

lemma binary_path_run:
  assumes root: "engine_cache_root st cwd None h = (Inr R, h)" and name: "engine \<noteq> []"
    and ok: "site_ok R engine (h_fs h)" "\<forall>fs. site_ok R engine fs \<longrightarrow> site_ok R engine (meanwhile fs)"
    and run: "binary_path st gp meanwhile cwd engine binary version None None h = (Inr p, h')"
  shows "p = beside (R @ [engine]) binary \<and> path_exists (h_fs h') p \<and> engine_trusted st gp meanwhile engine version R h h'"
proof -
  have "provision st gp meanwhile cwd engine version None None h =
      seq (ensure_engine st gp meanwhile engine version (R @ [engine]) None None None) (\<lambda>_. ret (R @ [engine])) h"
    by (simp add: provision_def seq_def [of "engine_cache_root st cwd None"] root beside_def name Let_def)
  then have "seq (seq (ensure_engine st gp meanwhile engine version (R @ [engine]) None None None) (\<lambda>_. ret (R @ [engine])))
      (\<lambda>bin_dir. seq (asks (\<lambda>fs. path_exists fs (beside bin_dir binary))) (\<lambda>there.
        if there then ret (beside bin_dir binary) else raise ArtifactStoreError)) h = (Inr p, h')"
    using run unfolding binary_path_def by (simp only: seq_def)
  then obtain d h1 where e: "ensure_engine st gp meanwhile engine version (R @ [engine]) None None None h = (Inr d, h1)"
    and rest: "seq (asks (\<lambda>fs. path_exists fs (beside (R @ [engine]) binary))) (\<lambda>there.
        if there then ret (beside (R @ [engine]) binary) else raise ArtifactStoreError) h1 = (Inr p, h')"
    unfolding seq_assoc seq_ret by (auto elim: seqE [of "ensure_engine _ _ _ _ _ _ _ _ _"])
  from rest have p: "p = beside (R @ [engine]) binary" "path_exists (h_fs h1) p" "h' = h1"
    by (auto simp: seq_asks ret_def raise_def split: if_splits)
  have "d = R @ [engine]" using e ensure_engine_dest by blast
  with ensure_engine_run [OF ok e] p show ?thesis unfolding engine_trusted_def by blast
qed


definition bundled_host :: host where
  "bundled_host = sample_host\<lparr>h_fs := [([''r''], EDir 0), ([''r'', ''b''], EDir 0), ([''r'', ''engines''], EDir 0), ([''p''], EDir 0), ([''p'', ''llama''], EFile ''evil'')]\<rparr>"

definition manifest_store :: site where
  "manifest_store = sample_store\<lparr>st_env := (\<lambda>k. if k = ''LOCAI_INSTALL_ROOT'' then Some ''/r'' else None),
     st_loads := (\<lambda>s. Some (JObj sample_manifest))\<rparr>"

definition fetched_host :: host where
  "fetched_host = bundled_host\<lparr>h_log := [store_base_url manifest_store @ ''/'' @ MANIFEST_PATH @ ''?cb='' @ show_int 0]\<rparr>"

lemma fetched_manifest: "fetch_manifest manifest_store None bundled_host = (Inr sample_manifest, fetched_host)"
  by (simp add: fetch_manifest_def numeral_3_eq_3 seq_def http_get_def judge_def ret_def MAX_MANIFEST_BYTES_def new_manifest_def
      fetched_host_def bundled_host_def manifest_store_def sample_store_def sample_host_def sample_manifest_def dget_def num_eq_def)

definition engine_there :: "(as_error + apath) \<times> host" where
  "engine_there = ensure_engine manifest_store no_gpu id ''e'' (Some ''1'') [''r'', ''engines'', ''e''] (Some sample_manifest) None None fetched_host"

lemma engine_there:
  "fst engine_there = Inr [''r'', ''engines'', ''e'']"
  "path_exists (h_fs (snd engine_there)) [''r'', ''engines'', ''e'', ''llama'']"
  by code_simp+

lemma bundled_root: "engine_cache_root manifest_store [''w''] None bundled_host = (Inr [''r'', ''engines''], bundled_host)"
  by code_simp


section \<open>Command lines and environment\<close>

record server =
  ms_model :: string
  ms_host :: string
  ms_port :: int
  ms_process :: "nat option"
  ms_running :: bool
  ms_ready :: bool
  ms_stop :: bool

text \<open>\<open>int(n_gpu_layers or 0)\<close> and \<open>int(n_ctx or 2048)\<close> are the fields \<open>ll_layers\<close> and \<open>ll_ctx\<close>.\<close>

record llama_options =
  ll_alias :: "string option"
  ll_layers :: int
  ll_ctx :: int
  ll_chat_format :: "string option"

record whisper_options =
  wh_language :: "string option"
  wh_threads :: "string option"
  wh_beam_size :: "string option"
  wh_use_gpu :: "bool option"

definition new_server :: "string \<Rightarrow> string \<Rightarrow> int \<Rightarrow> server" where
  "new_server model host port = \<lparr>ms_model = model, ms_host = host, ms_port = port, ms_process = None,
     ms_running = False, ms_ready = False, ms_stop = False\<rparr>"

definition str_opt :: "string option \<Rightarrow> string" where
  "str_opt a = (case a of None \<Rightarrow> ''None'' | Some s \<Rightarrow> s)"

definition llama_command :: "apath \<Rightarrow> server \<Rightarrow> llama_options \<Rightarrow> string list" where
  "llama_command bin s o' =
     [path_text bin, ''--model'', ms_model s, ''--alias'', str_opt (ll_alias o'), ''--host'', ms_host s,
      ''--port'', show_int (ms_port s), ''--n-gpu-layers'', show_int (ll_layers o'), ''--ctx-size'', show_int (ll_ctx o')] @
     (case ll_chat_format o' of Some (c # cs) \<Rightarrow> [''--chat-template'', c # cs] | _ \<Rightarrow> [])"

text \<open>
  \<open>_gpu_available\<close>: the exit code of the first probe that is installed and does not fail to run, if 0.
\<close>

fun gpu_available :: "(bool \<times> int option) list \<Rightarrow> bool" where
  "gpu_available [] = False"
| "gpu_available ((installed, code) # ps) = (installed \<and> code = Some 0 \<or> gpu_available ps)"

definition flag :: "string \<Rightarrow> string option \<Rightarrow> string list" where
  "flag name v = (case v of None \<Rightarrow> [] | Some x \<Rightarrow> [name, x])"

definition whisper_command :: "(bool \<times> int option) list \<Rightarrow> apath \<Rightarrow> server \<Rightarrow> whisper_options \<Rightarrow> string list" where
  "whisper_command probes bin s w =
     [path_text bin, ''--model'', ms_model s, ''--host'', ms_host s, ''--port'', show_int (ms_port s)] @
     (if (case wh_use_gpu w of Some b \<Rightarrow> b | None \<Rightarrow> gpu_available probes) then [] else [''--no-gpu'', ''--no-flash-attn'']) @
     flag ''--language'' (wh_language w) @ flag ''--threads'' (wh_threads w) @ flag ''--beam-size'' (wh_beam_size w)"

text \<open>
  The directories below \<open>D\<close> with a shared library of the engine, and the value of \<open>LD_LIBRARY_PATH\<close>; \<open>order\<close> is the
  order in which the set of directories is walked.
\<close>

definition so_roots :: "string \<Rightarrow> fs \<Rightarrow> apath \<Rightarrow> string list" where
  "so_roots marker fs D =
     (case realpath fs D of
        None \<Rightarrow> []
      | Some d \<Rightarrow>
          map (\<lambda>e. path_text (D @ drop (length d) (butlast (fst e))))
            (filter (\<lambda>e. strict_prefix d (fst e) \<and> \<not> is_dir fs (fst e) \<and> contains_sub marker (last (fst e)) \<and>
               endswith (last (fst e)) ''.so'') fs))"

definition library_path :: "(string list \<Rightarrow> string list) \<Rightarrow> string \<Rightarrow> string \<Rightarrow> fs \<Rightarrow> apath \<Rightarrow> string" where
  "library_path order marker current fs D =
     intercalate '':'' (order (remdups (path_text D # so_roots marker fs D))) @ (if current = [] then [] else '':'' @ current)"

section \<open>Start and stop\<close>

datatype server_error = EngineMissing | LogsFailed

record launching =
  ln_port_busy :: bool
  ln_binary :: "apath option"
  ln_logs :: bool
  ln_spawn :: "nat option"
  ln_threads :: bool

definition stop_server :: "server \<Rightarrow> server" where
  "stop_server s = (if ms_running s then s\<lparr>ms_stop := True, ms_ready := False, ms_running := False\<rparr> else s)"

text \<open>The new server, and whether a health watcher runs for it.\<close>

definition launch_server :: "launching \<Rightarrow> server \<Rightarrow> server_error option \<times> bool \<times> server" where
  "launch_server lc s =
     (if \<not> ln_logs lc then (Some LogsFailed, False, s)
      else case ln_spawn lc of
        None \<Rightarrow> (None, False, stop_server s)
      | Some pid \<Rightarrow>
          let s1 = s\<lparr>ms_process := Some pid, ms_running := True, ms_ready := False, ms_stop := False\<rparr> in
          if ln_threads lc then (None, True, s1) else (None, False, stop_server s1))"

definition start_server :: "launching \<Rightarrow> server \<Rightarrow> server_error option \<times> bool \<times> server" where
  "start_server lc s =
     (if ms_running s then (None, False, s)
      else if ln_port_busy lc then (None, False, s)
      else if ln_binary lc = None then (Some EngineMissing, False, s)
      else launch_server lc s)"

definition start_whisper :: "launching \<Rightarrow> server \<Rightarrow> server_error option \<times> bool \<times> server" where
  "start_whisper lc s =
     (if ms_running s then (None, False, s)
      else if ln_port_busy lc then (None, False, s)
      else if ln_binary lc = None then (None, False, s)
      else launch_server lc s)"

section \<open>Health\<close>

text \<open>
  One turn of the poll: whether \<open>stop\<close> was called before it, whether the process has ended, the status of
  \<open>/health\<close>, and whether \<open>stop\<close> was called during the wait.  The list ends with the timeout.
\<close>

record poll =
  po_stopped :: bool
  po_exited :: bool
  po_status :: "int option"
  po_stopped_waiting :: bool

fun wait_for_health :: "poll list \<Rightarrow> bool" where
  "wait_for_health [] = False"
| "wait_for_health (p # ps) =
     (if po_stopped p \<or> po_exited p then False
      else if (case po_status p of None \<Rightarrow> False | Some c \<Rightarrow> c < 400) then True
      else if po_stopped_waiting p then False
      else wait_for_health ps)"

definition health_url :: "server \<Rightarrow> string" where
  "health_url s = ''http://'' @ (if ms_host s \<in> {''0.0.0.0'', ''::'', []} then ''127.0.0.1'' else ms_host s) @
     '':'' @ show_int (ms_port s) @ ''/health''"

text \<open>What the loop of \<open>wait_until_ready\<close> sees of (\<open>ready\<close>, \<open>running\<close>) until the deadline.\<close>

fun wait_until_ready :: "(bool \<times> bool) list \<Rightarrow> bool" where
  "wait_until_ready [] = False"
| "wait_until_ready ((ready, running) # os) = (ready \<or> running \<and> wait_until_ready os)"

text \<open>
  The end of the watcher: \<open>healthy\<close> is what the poll returned.
\<close>

definition watcher_ends :: "bool \<Rightarrow> server \<Rightarrow> server" where
  "watcher_ends healthy s = (if healthy then s\<lparr>ms_ready := True\<rparr> else if ms_stop s then s else stop_server s)"

section \<open>Logs\<close>

text \<open>\<open>_log_monitor_loop\<close>: the lines written to the file and the lines given to the callback, which may raise.\<close>

fun log_monitor :: "(string \<Rightarrow> bool) option \<Rightarrow> string list \<Rightarrow> string list \<times> string list" where
  "log_monitor cb [] = ([], [])"
| "log_monitor cb (l # ls) =
     (if l = [] then ([], [])
      else case cb of
        None \<Rightarrow> (case log_monitor cb ls of (w, f) \<Rightarrow> (l # w, f))
      | Some raises \<Rightarrow> if raises l then ([l], [l]) else (case log_monitor cb ls of (w, f) \<Rightarrow> (l # w, l # f)))"

definition log_tail :: "nat \<Rightarrow> string option \<Rightarrow> string list" where
  "log_tail n contents =
     (case contents of None \<Rightarrow> [] | Some t \<Rightarrow> let ls = splitlines_acc [] t in drop (length ls - n) ls)"

section \<open>The life of a server\<close>

text \<open>
  \<open>lf_children\<close> are the processes the server started that have not ended, and the watchers are the threads
  that poll, or hold the result of their poll and have not acted on it.
\<close>

datatype watcher = Polling | Polled bool

record life =
  lf_server :: server
  lf_watchers :: "watcher list"
  lf_children :: "nat list"

definition drop_nth :: "nat \<Rightarrow> 'a list \<Rightarrow> 'a list" where
  "drop_nth i xs = take i xs @ drop (Suc i) xs"

text \<open>\<open>stop()\<close> ends the process it waits for, by \<open>terminate\<close> or by \<open>kill\<close>.\<close>

definition children_after_stop :: "server \<Rightarrow> nat list \<Rightarrow> nat list" where
  "children_after_stop s cs = (if ms_running s then (case ms_process s of None \<Rightarrow> cs | Some pid \<Rightarrow> removeAll pid cs) else cs)"

inductive life_step :: "life \<Rightarrow> life \<Rightarrow> bool" where
  start: "start_server lc s = (e, True, s1) \<or> start_whisper lc s = (e, True, s1) \<Longrightarrow> ms_process s1 = Some pid \<Longrightarrow>
    life_step \<lparr>lf_server = s, lf_watchers = ws, lf_children = cs\<rparr> \<lparr>lf_server = s1, lf_watchers = ws @ [Polling], lf_children = cs @ [pid]\<rparr>"
| no_start: "start_server lc s = (e, False, s1) \<or> start_whisper lc s = (e, False, s1) \<Longrightarrow>
    life_step \<lparr>lf_server = s, lf_watchers = ws, lf_children = cs\<rparr> \<lparr>lf_server = s1, lf_watchers = ws, lf_children = cs\<rparr>"
| stop: "life_step \<lparr>lf_server = s, lf_watchers = ws, lf_children = cs\<rparr>
    \<lparr>lf_server = stop_server s, lf_watchers = ws, lf_children = children_after_stop s cs\<rparr>"
| polled: "i < length ws \<Longrightarrow> ws ! i = Polling \<Longrightarrow>
    life_step \<lparr>lf_server = s, lf_watchers = ws, lf_children = cs\<rparr> \<lparr>lf_server = s, lf_watchers = ws[i := Polled b], lf_children = cs\<rparr>"
| watched: "i < length ws \<Longrightarrow> ws ! i = Polled b \<Longrightarrow>
    life_step \<lparr>lf_server = s, lf_watchers = ws, lf_children = cs\<rparr>
      \<lparr>lf_server = watcher_ends b s, lf_watchers = drop_nth i ws,
       lf_children = (if b \<or> ms_stop s then cs else children_after_stop s cs)\<rparr>"
| ends: "life_step \<lparr>lf_server = s, lf_watchers = ws, lf_children = cs\<rparr> \<lparr>lf_server = s, lf_watchers = ws, lf_children = removeAll pid cs\<rparr>"

inductive_cases life_stepE: "life_step a b"

inductive reachable_life :: "life \<Rightarrow> bool" where
  fresh: "reachable_life \<lparr>lf_server = new_server model host port, lf_watchers = [], lf_children = []\<rparr>"
| step: "reachable_life a \<Longrightarrow> life_step a b \<Longrightarrow> reachable_life b"

section \<open>One process at a time\<close>

definition one_process :: "life \<Rightarrow> bool" where
  "one_process l \<longleftrightarrow> length (lf_children l) \<le> 1 \<and>
     (\<forall>pid \<in> set (lf_children l). ms_running (lf_server l) \<and> ms_process (lf_server l) = Some pid)"

lemma stop_server_fields [simp]: "ms_process (stop_server s) = ms_process s" "\<not> ms_running (stop_server s)"
  by (auto simp: stop_server_def)

lemma launch_server_run:
  assumes "launch_server lc s = (e, w, s1)" "\<not> ms_running s"
  shows "ms_running s1 = w" "e \<noteq> None \<Longrightarrow> \<not> w"
  using assms by (auto simp: launch_server_def Let_def split: if_splits option.splits)

lemma start_runs:
  assumes "start_server lc s = (e, w, s1) \<or> start_whisper lc s = (e, w, s1)"
  shows "if w then \<not> ms_running s \<and> ms_running s1 else ms_running s \<and> s1 = s \<or> \<not> ms_running s \<and> \<not> ms_running s1"
  using assms launch_server_run [of lc s e w s1]
  by (auto simp: start_server_def start_whisper_def split: if_splits)

lemma children_gone:
  assumes "\<forall>pid \<in> set cs. ms_running s \<and> ms_process s = Some pid"
  shows "children_after_stop s cs = []"
  using assms by (cases cs; cases "ms_process s") (auto simp: children_after_stop_def removeAll_filter_not_eq filter_empty_conv)

lemma one_process_step:
  assumes "life_step a b" "one_process a"
  shows "one_process b"
  using assms
proof (cases rule: life_step.cases)
  case (start lc s e s1 pid ws cs)
  with start_runs [OF start(3)] assms(2) show ?thesis by (cases cs) (auto simp: one_process_def)
next
  case (no_start lc s e s1 ws cs)
  with start_runs [OF no_start(3)] assms(2) show ?thesis by (cases cs) (auto simp: one_process_def)
qed (use assms(2) in \<open>auto simp: one_process_def children_gone watcher_ends_def
    intro: le_trans [OF length_removeAll_less_eq]\<close>)


definition plain_launch :: launching where
  "plain_launch = \<lparr>ln_port_busy = False, ln_binary = Some [''b''], ln_logs = True, ln_spawn = Some 7, ln_threads = True\<rparr>"

definition started :: server where
  "started = (new_server ''m'' ''127.0.0.1'' 8003)\<lparr>ms_process := Some 7, ms_running := True\<rparr>"

lemma reachable_started:
  "reachable_life \<lparr>lf_server = started, lf_watchers = [Polling], lf_children = [7]\<rparr>"
proof -
  have "start_server plain_launch (new_server ''m'' ''127.0.0.1'' 8003) = (None, True, started)"
    by (simp add: start_server_def launch_server_def plain_launch_def new_server_def started_def)
  from reachable_life.step [OF reachable_life.fresh life_step.start [OF disjI1 [OF this], of 7]] show ?thesis
    by (simp add: started_def)
qed


text \<open>
  A stop between the answer of the health check and the watcher's note of it leaves a server that is ready
  and not running.
\<close>

lemma ready_after_stop:
  "\<exists>l. reachable_life l \<and> ms_ready (lf_server l) \<and> \<not> ms_running (lf_server l)"
proof -
  note a = reachable_life.step [OF reachable_started life_step.polled [of 0 "[Polling]" started "[7]" True]]
  have "reachable_life \<lparr>lf_server = started, lf_watchers = [Polled True], lf_children = [7]\<rparr>" using a by simp
  from reachable_life.step [OF this life_step.stop]
  have "reachable_life \<lparr>lf_server = stop_server started, lf_watchers = [Polled True], lf_children = []\<rparr>"
    by (simp add: children_after_stop_def started_def)
  from reachable_life.step [OF this life_step.watched [of 0 "[Polled True]" True]]
  have "reachable_life \<lparr>lf_server = (stop_server started)\<lparr>ms_ready := True\<rparr>, lf_watchers = [], lf_children = []\<rparr>"
    by (simp add: watcher_ends_def drop_nth_def)
  then show ?thesis by (intro exI conjI) (assumption, simp_all)
qed

end
