(* ===== verification/Chat_Frames.thy ===== *)
theory Chat_Frames
  imports Prelude "HOL-Library.Word"
begin

text \<open>
  The wire between an agent and the terminal of an interactive chat: \<open>plugins/language_model/client.py\<close>
  and \<open>_net_send\<close>, \<open>_net_recv\<close> of \<open>adapter.py\<close>.  A message is its length in four bytes, most significant
  first, and the text in UTF-8.  A text is a list of code points, a byte a word of eight bits.

  A socket is the sequence of pieces in which the bytes arrive, so that a statement for every socket
  with the same bytes is one for every fragmentation, and whether the stream ends or is reset.
\<close>

section \<open>UTF-8\<close>

type_synonym byte = "8 word"
type_synonym points = "nat list"

definition scalar :: "nat \<Rightarrow> bool" where
  "scalar p = (p < 0x110000 \<and> \<not> (0xD800 \<le> p \<and> p \<le> 0xDFFF))"

definition byte_of :: "nat \<Rightarrow> byte" where
  "byte_of n = word_of_nat n"

definition utf8_point :: "nat \<Rightarrow> byte list" where
  "utf8_point p = map byte_of
     (if p < 0x80 then [p]
      else if p < 0x800 then [0xC0 + p div 64, 0x80 + p mod 64]
      else if p < 0x10000 then [0xE0 + p div 4096, 0x80 + p div 64 mod 64, 0x80 + p mod 64]
      else [0xF0 + p div 262144, 0x80 + p div 4096 mod 64, 0x80 + p div 64 mod 64, 0x80 + p mod 64])"

text \<open>\<open>s.encode("utf-8")\<close> raises on a surrogate.\<close>

definition utf8_encode :: "points \<Rightarrow> byte list option" where
  "utf8_encode t = (if list_all scalar t then Some (concat (map utf8_point t)) else None)"

text \<open>
  What a leading byte announces: how many bytes follow, and the bounds of the first of them; the
  others are between 80 and BF.  An ill-formed sequence ends before the first byte that does not fit.
\<close>

definition lead :: "nat \<Rightarrow> (nat \<times> nat \<times> nat) option" where
  "lead b =
     (if b < 0xC2 then None
      else if b < 0xE0 then Some (1, 0x80, 0xBF)
      else if b = 0xE0 then Some (2, 0xA0, 0xBF)
      else if b = 0xED then Some (2, 0x80, 0x9F)
      else if b < 0xF0 then Some (2, 0x80, 0xBF)
      else if b = 0xF0 then Some (3, 0x90, 0xBF)
      else if b < 0xF4 then Some (3, 0x80, 0xBF)
      else if b = 0xF4 then Some (3, 0x80, 0x8F)
      else None)"

definition lead_value :: "nat \<Rightarrow> nat" where
  "lead_value b = (if b < 0xE0 then b - 0xC0 else if b < 0xF0 then b - 0xE0 else b - 0xF0)"

fun tail_bytes :: "nat \<Rightarrow> nat \<Rightarrow> nat \<Rightarrow> byte list \<Rightarrow> nat list" where
  "tail_bytes (Suc n) lo hi (b # bs) =
     (if lo \<le> unat b \<and> unat b \<le> hi then unat b # tail_bytes n 0x80 0xBF bs else [])"
| "tail_bytes _ lo hi _ = []"

text \<open>The code points of a byte string, \<open>None\<close> for an ill-formed sequence.\<close>

function decode_points :: "byte list \<Rightarrow> nat option list" where
  "decode_points [] = []"
| "decode_points (b # bs) =
     (if unat b < 0x80 then Some (unat b) # decode_points bs
      else case lead (unat b) of
             None \<Rightarrow> None # decode_points bs
           | Some (n, lo, hi) \<Rightarrow>
               let cs = tail_bytes n lo hi bs in
               (if length cs = n then Some (foldl (\<lambda>v c. v * 64 + (c - 0x80)) (lead_value (unat b)) cs) else None)
               # decode_points (drop (length cs) bs))"
  by pat_completeness auto
termination by (relation "measure length") auto

definition utf8_decode :: "byte list \<Rightarrow> points option" where
  "utf8_decode bs = (let ps = decode_points bs in if None \<in> set ps then None else Some (map the ps))"

definition utf8_replace :: "byte list \<Rightarrow> points" where
  "utf8_replace bs = map (\<lambda>p. case p of None \<Rightarrow> 0xFFFD | Some c \<Rightarrow> c) (decode_points bs)"

lemma unat_byte: "n < 256 \<Longrightarrow> unat (byte_of n) = n"
  by (simp add: byte_of_def unat_of_nat)

lemma decode_two:
  assumes "2 \<le> x" "x < 32" "z < 64"
  shows "decode_points (map byte_of [0xC0 + x, 0x80 + z] @ bs) = Some (x * 64 + z) # decode_points bs"
proof -
  have "lead (0xC0 + x) = Some (1, 0x80, 0xBF)" "lead_value (0xC0 + x) = x"
    using assms by (simp_all add: lead_def lead_value_def)
  moreover have "tail_bytes 1 0x80 0xBF (byte_of (0x80 + z) # bs) = [0x80 + z]"
    using assms by (simp add: unat_byte)
  ultimately show ?thesis using assms by (simp add: unat_byte)
qed

lemma decode_three:
  assumes "x < 16" "y < 64" "z < 64" "x = 0 \<longrightarrow> 32 \<le> y" "x = 13 \<longrightarrow> y < 32"
  shows "decode_points (map byte_of [0xE0 + x, 0x80 + y, 0x80 + z] @ bs) = Some ((x * 64 + y) * 64 + z) # decode_points bs"
proof -
  obtain lo hi where "lead (0xE0 + x) = Some (2, lo, hi)" "lo \<le> 0x80 + y" "0x80 + y \<le> hi"
  proof
    show "lead (0xE0 + x) = Some (2, if x = 0 then 0xA0 else 0x80, if x = 13 then 0x9F else 0xBF)"
      using assms(1) by (auto simp: lead_def)
  qed (use assms in auto)
  moreover have "lead_value (0xE0 + x) = x" using assms by (simp add: lead_value_def)
  ultimately show ?thesis using assms by (simp add: unat_byte Let_def numeral_2_eq_2)
qed

lemma decode_four:
  assumes "x < 5" "y < 64" "z < 64" "w < 64" "x = 0 \<longrightarrow> 16 \<le> y" "x = 4 \<longrightarrow> y < 16"
  shows "decode_points (map byte_of [0xF0 + x, 0x80 + y, 0x80 + z, 0x80 + w] @ bs) =
    Some (((x * 64 + y) * 64 + z) * 64 + w) # decode_points bs"
proof -
  obtain lo hi where "lead (0xF0 + x) = Some (3, lo, hi)" "lo \<le> 0x80 + y" "0x80 + y \<le> hi"
  proof
    show "lead (0xF0 + x) = Some (3, if x = 0 then 0x90 else 0x80, if x = 4 then 0x8F else 0xBF)"
      using assms(1) by (auto simp: lead_def)
  qed (use assms in auto)
  moreover have "lead_value (0xF0 + x) = x" using assms by (simp add: lead_value_def)
  ultimately show ?thesis using assms by (simp add: unat_byte Let_def numeral_3_eq_3)
qed

lemma decode_point:
  assumes "scalar p"
  shows "decode_points (utf8_point p @ bs) = Some p # decode_points bs"
proof -
  define x y z w where xyz: "x = p div 262144" "y = p div 4096 mod 64" "z = p div 64 mod 64" "w = p mod 64"
  have p: "p div 64 = p div 4096 * 64 + z" "p div 4096 = x * 64 + y" "p = p div 64 * 64 + w"
    using div_mult_mod_eq [of "p div 64" 64] div_mult_mod_eq [of "p div 4096" 64]
    by (simp_all add: xyz div_mult2_eq [symmetric])
  have b: "y < 64" "z < 64" "w < 64" by (simp_all add: xyz)
  consider "p < 0x80" | "0x80 \<le> p" "p < 0x800" | "0x800 \<le> p" "p < 0x10000" | "0x10000 \<le> p" "p < 0x110000"
    using assms unfolding scalar_def by linarith
  then show ?thesis
  proof cases
    case 1
    then show ?thesis by (simp add: utf8_point_def unat_byte)
  next
    case 2
    then have "2 \<le> p div 64" "p div 64 < 32" by simp_all
    from decode_two [OF this b(3), of bs] 2 xyz(4) show ?thesis by (simp add: utf8_point_def)
  next
    case 3
    with b p assms have "p div 4096 < 16" "p div 4096 = 0 \<longrightarrow> 32 \<le> z" "p div 4096 = 13 \<longrightarrow> z < 32"
      unfolding scalar_def by linarith+
    note this(1) and d = decode_three [OF this(1) b(2,3) this(2,3), of bs]
    have "utf8_point p = map byte_of [0xE0 + p div 4096, 0x80 + z, 0x80 + w]"
      using 3 by (simp add: utf8_point_def xyz)
    with d show ?thesis by (simp only: p(1) [symmetric] p(3) [symmetric])
  next
    case 4
    with b p have "x < 5" "x = 0 \<longrightarrow> 16 \<le> y" "x = 4 \<longrightarrow> y < 16" by linarith+
    note d = decode_four [OF this(1) b this(2,3), of bs]
    have "utf8_point p = map byte_of [0xF0 + x, 0x80 + y, 0x80 + z, 0x80 + w]"
      using 4 by (simp add: utf8_point_def xyz)
    with d show ?thesis by (simp only: p(2) [symmetric] p(1) [symmetric] p(3) [symmetric])
  qed
qed

lemma decode_text: "list_all scalar t \<Longrightarrow> decode_points (concat (map utf8_point t) @ bs) = map Some t @ decode_points bs"
  by (induction t) (simp_all add: decode_point)

lemma utf8_inverse:
  assumes "utf8_encode t = Some bs"
  shows "utf8_decode bs = Some t" "utf8_replace bs = t"
  using assms decode_text [of t "[]"]
  by (auto simp: utf8_encode_def utf8_decode_def utf8_replace_def Let_def comp_def split: if_splits)

lemma utf8_point_ne: "utf8_point p \<noteq> []"
  by (simp add: utf8_point_def)

lemma utf8_empty: "utf8_encode t = Some [] \<longleftrightarrow> t = []"
  by (cases t) (auto simp: utf8_encode_def utf8_point_ne)

section \<open>Frames\<close>

text \<open>\<open>n.to_bytes(4, "big")\<close> raises when the number does not fit.\<close>

definition to_bytes4 :: "nat \<Rightarrow> byte list option" where
  "to_bytes4 n =
     (if n < 0x100000000
      then Some (map byte_of [n div 0x1000000, n div 0x10000 mod 0x100, n div 0x100 mod 0x100, n mod 0x100]) else None)"

definition from_bytes :: "byte list \<Rightarrow> nat" where
  "from_bytes bs = foldl (\<lambda>v b. v * 0x100 + unat b) 0 bs"

definition frame :: "points \<Rightarrow> byte list option" where
  "frame t =
     (case utf8_encode t of
        None \<Rightarrow> None
      | Some d \<Rightarrow> map_option (\<lambda>l. l @ d) (to_bytes4 (length d)))"

lemma to_bytes4:
  assumes "to_bytes4 n = Some l"
  shows "length l = 4" "from_bytes l = n"
proof -
  from assms have n: "n < 0x100000000"
    and l: "l = map byte_of [n div 0x1000000, n div 0x10000 mod 0x100, n div 0x100 mod 0x100, n mod 0x100]"
    by (auto simp: to_bytes4_def split: if_splits)
  have "n div 0x1000000 < 0x100" using n by simp
  moreover have "((n div 0x1000000 * 0x100 + n div 0x10000 mod 0x100) * 0x100 + n div 0x100 mod 0x100) * 0x100 + n mod 0x100 = n"
    using div_mult_mod_eq [of n "0x100"] div_mult_mod_eq [of "n div 0x100" "0x100"] div_mult_mod_eq [of "n div 0x10000" "0x100"]
    by (simp add: div_mult2_eq [symmetric])
  ultimately show "length l = 4" "from_bytes l = n"
    by (simp_all add: l from_bytes_def unat_byte)
qed

section \<open>Sockets\<close>

record sock =
  so_in :: "byte list list"
  so_reset :: bool

text \<open>\<open>recv(n)\<close>: at most \<open>n\<close> bytes of the next piece; nothing at the end of the stream; an exception when it was reset.\<close>

fun recv_piece :: "nat \<Rightarrow> byte list list \<Rightarrow> byte list \<times> byte list list" where
  "recv_piece n [] = ([], [])"
| "recv_piece n (p # ps) =
     (if p = [] then recv_piece n ps else (take n p, if length p \<le> n then ps else drop n p # ps))"

definition recv :: "nat \<Rightarrow> sock \<Rightarrow> byte list option \<times> sock" where
  "recv n s =
     (if n = 0 then (Some [], s)
      else case recv_piece n (so_in s) of
        (d, ps) \<Rightarrow> (if d = [] \<and> so_reset s then None else Some d, s\<lparr>so_in := ps\<rparr>))"

section \<open>The terminal\<close>

datatype received = Failed | Closed | Bytes "byte list"

function recvall :: "nat \<Rightarrow> byte list \<Rightarrow> sock \<Rightarrow> received \<times> sock" where
  "recvall n data s =
     (if n \<le> length data then (Bytes data, s)
      else case recv (n - length data) s of
        (None, s1) \<Rightarrow> (Failed, s1)
      | (Some packet, s1) \<Rightarrow> if packet = [] then (Closed, s1) else recvall n (data @ packet) s1)"
  by pat_completeness auto
termination
  by (relation "measure (\<lambda>(n, data, s). n - length data)") (auto simp: neq_Nil_conv)

declare recvall.simps [simp del]

definition incoming :: "sock \<Rightarrow> byte list" where
  "incoming s = concat (so_in s)"

lemma recv_piece_run:
  assumes "recv_piece n ps = (d, qs)"
  shows "concat ps = d @ concat qs" "length d \<le> n" "0 < n \<Longrightarrow> d = [] \<Longrightarrow> concat ps = []"
  using assms by (induction n ps arbitrary: d qs rule: recv_piece.induct) (auto simp del: concat_eq_Nil_conv Nil_eq_concat_conv split: if_splits)

lemma recv_run:
  assumes "recv n s = (r, s1)"
  shows "so_reset s1 = so_reset s" "r = Some d \<Longrightarrow> incoming s = d @ incoming s1 \<and> length d \<le> n"
    "0 < n \<Longrightarrow> r = None \<Longrightarrow> incoming s = []" "0 < n \<Longrightarrow> r = Some [] \<Longrightarrow> incoming s = []"
  using assms recv_piece_run [of n "so_in s"]
  by (auto simp: recv_def incoming_def simp del: concat_eq_Nil_conv Nil_eq_concat_conv split: if_splits prod.splits)

text \<open>
  What \<open>recvall\<close> returns depends on the bytes alone, not on the pieces they come in.
\<close>

lemma recvall_run:
  assumes "recvall n data s = (r, s1)" "length data \<le> n"
  shows "so_reset s1 = so_reset s \<and>
    (if n \<le> length data + length (incoming s)
     then r = Bytes (data @ take (n - length data) (incoming s)) \<and> incoming s1 = drop (n - length data) (incoming s)
     else \<forall>d. r \<noteq> Bytes d)"
  using assms
proof (induction n data s arbitrary: r s1 rule: recvall.induct)
  case (1 n data s)
  show ?case
  proof (cases "n \<le> length data")
    case True
    with 1(2,3) show ?thesis by (simp add: recvall.simps)
  next
    case False
    obtain p s2 where p: "recv (n - length data) s = (p, s2)" by fastforce
    note run = recv_run [OF p]
    show ?thesis
    proof (cases "p = None \<or> p = Some []")
      case True
      with False run have "incoming s = []" "so_reset s2 = so_reset s" by auto
      with True False p 1(2) show ?thesis by (auto simp: recvall.simps [of n])
    next
      case False': False
      then obtain d where d: "p = Some d" "d \<noteq> []" by auto
      with run have inc: "incoming s = d @ incoming s2" "length d \<le> n - length data" "so_reset s2 = so_reset s" by auto
      from 1(2) p d False have "recvall n (data @ d) s2 = (r, s1)" by (simp add: recvall.simps [of n data])
      from 1(1) [OF False p [symmetric] d(1) d(2) this] inc d(2) False show ?thesis
        by (auto simp: take_append)
    qed
  qed
qed

lemma recvall_shorter:
  assumes "recvall n [] s = (Bytes d, s1)"
  shows "length (incoming s) = n + length (incoming s1) \<and> length d = n"
  using recvall_run [OF assms] by (auto split: if_splits)

text \<open>\<open>receive_loop\<close>: what it prints until the stream ends, breaks, or a frame is empty.\<close>

function receive_loop :: "sock \<Rightarrow> points list" where
  "receive_loop s =
     (case recvall 4 [] s of
        (Bytes len_bytes, s1) \<Rightarrow>
          (case recvall (from_bytes len_bytes) [] s1 of
             (Bytes data, s2) \<Rightarrow> if data = [] then [] else utf8_replace data # receive_loop s2
           | _ \<Rightarrow> [])
      | _ \<Rightarrow> [])"
  by pat_completeness auto
termination
  by (relation "measure (\<lambda>s. length (incoming s))") (auto dest!: recvall_shorter [OF sym])

declare receive_loop.simps [simp del]

text \<open>
  The lines typed into the terminal, until the end of the input or a line that cannot be sent;
  \<open>ok\<close> is how many messages the connection takes.
\<close>

fun terminal_sends :: "nat \<Rightarrow> points list \<Rightarrow> byte list" where
  "terminal_sends (Suc ok) (t # ts) = (case frame t of None \<Rightarrow> [] | Some f \<Rightarrow> f @ terminal_sends ok ts)"
| "terminal_sends _ _ = []"

section \<open>The agent\<close>

definition is_space_point :: "nat \<Rightarrow> bool" where
  "is_space_point p \<longleftrightarrow> (9 \<le> p \<and> p \<le> 13) \<or> (28 \<le> p \<and> p \<le> 32) \<or> (0x2000 \<le> p \<and> p \<le> 0x200A) \<or>
     p \<in> {0x85, 0xA0, 0x1680, 0x2028, 0x2029, 0x202F, 0x205F, 0x3000}"

definition strip_points :: "points \<Rightarrow> points" where
  "strip_points t = rev (dropWhile is_space_point (rev (dropWhile is_space_point t)))"

text \<open>\<open>_net_recv\<close> calls \<open>recv\<close> once for the length and once for the text.\<close>

definition net_recv :: "sock \<Rightarrow> points option \<times> sock" where
  "net_recv s =
     (case recv 4 s of
        (None, s1) \<Rightarrow> (None, s1)
      | (Some lb, s1) \<Rightarrow>
          if lb = [] then (None, s1)
          else case recv (from_bytes lb) s1 of
            (None, s2) \<Rightarrow> (None, s2)
          | (Some d, s2) \<Rightarrow> (map_option strip_points (utf8_decode d), s2))"

section \<open>From the agent to the terminal\<close>

lemma frame_split:
  assumes "frame t = Some f"
  shows "\<exists>l d. f = l @ d \<and> length l = 4 \<and> from_bytes l = length d \<and> utf8_replace d = t \<and> utf8_decode d = Some t \<and> (d = [] \<longleftrightarrow> t = [])"
proof -
  from assms obtain d l where d: "utf8_encode t = Some d" and l: "to_bytes4 (length d) = Some l" "f = l @ d"
    by (auto simp: frame_def split: option.splits)
  moreover have "d = [] \<longleftrightarrow> t = []" using d utf8_empty [of t] by (auto simp: utf8_encode_def)
  ultimately show ?thesis using to_bytes4 [OF l(1)] utf8_inverse [OF d] by blast
qed

lemma receive_frame:
  assumes "frame t = Some f" "incoming s = f @ rest"
  shows "\<exists>s2. incoming s2 = rest \<and> receive_loop s = (if t = [] then [] else t # receive_loop s2)"
proof -
  from frame_split [OF assms(1)] obtain l d where f: "f = l @ d" "length l = 4" "from_bytes l = length d"
    "utf8_replace d = t" "d = [] \<longleftrightarrow> t = []" by blast
  obtain r s1 where r: "recvall 4 [] s = (r, s1)" by fastforce
  with recvall_run [OF r] assms(2) f have s1: "r = Bytes l" "incoming s1 = d @ rest" by auto
  obtain q s2 where q: "recvall (length d) [] s1 = (q, s2)" by fastforce
  with recvall_run [OF q] s1 have "q = Bytes d" "incoming s2 = rest" by auto
  with r s1 q f show ?thesis by (subst receive_loop.simps) auto
qed

lemma receive_end:
  assumes "incoming s = []"
  shows "receive_loop s = []"
proof -
  obtain r s1 where r: "recvall 4 [] s = (r, s1)" by fastforce
  from recvall_run [OF r] assms have "\<forall>d. r \<noteq> Bytes d" by simp
  with r show ?thesis by (subst receive_loop.simps) (auto split: received.splits)
qed

lemma receive_frames:
  "map frame texts = map Some frames \<Longrightarrow> incoming s = concat frames \<Longrightarrow> receive_loop s = takeWhile (\<lambda>t. t \<noteq> []) texts"
proof (induction texts arbitrary: frames s)
  case Nil
  then show ?case by (simp add: receive_end)
next
  case (Cons t ts)
  then obtain f fs where f: "frames = f # fs" "frame t = Some f" "map frame ts = map Some fs" by (cases frames) auto
  with Cons.prems(2) have "incoming s = f @ concat fs" by simp
  from receive_frame [OF f(2) this] obtain s2 where
    "incoming s2 = concat fs" "receive_loop s = (if t = [] then [] else t # receive_loop s2)" by blast
  with Cons.IH [OF f(3)] show ?case by simp
qed

text \<open>
  The terminal of a chat prints exactly the texts the agent sent, in order and whole, however the
  network cuts the stream into pieces, up to the first empty text, which ends the terminal.
\<close>

lemma chat_output_delivered:
  assumes "map frame texts = map Some frames" "concat (so_in s) = concat frames"
  shows "receive_loop s = takeWhile (\<lambda>t. t \<noteq> []) texts"
  using receive_frames [OF assms(1), of s] assms(2) by (simp add: incoming_def)

lemma chat_output_delivered_witness:
  "receive_loop \<lparr>so_in = [[0, 0], [0], [6, 0x68, 0xC3], [0xA9, 0xE2], [0x82], [0xAC, 0, 0, 0, 1, 0x21, 0], [0, 0, 0]], so_reset = False\<rparr>
     = [[0x68, 0xE9, 0x20AC], [0x21]]"
proof -
  have "map frame [[0x68, 0xE9, 0x20AC], [0x21], []] = map Some [[0, 0, 0, 6, 0x68, 0xC3, 0xA9, 0xE2, 0x82, 0xAC], [0, 0, 0, 1, 0x21], [0, 0, 0, 0]]"
    by (simp add: frame_def utf8_encode_def utf8_point_def scalar_def to_bytes4_def byte_of_def)
  from chat_output_delivered [OF this, of "\<lparr>so_in = [[0, 0], [0], [6, 0x68, 0xC3], [0xA9, 0xE2], [0x82], [0xAC, 0, 0, 0, 1, 0x21, 0], [0, 0, 0]], so_reset = False\<rparr>"]
  show ?thesis by simp
qed

section \<open>From the terminal to the agent\<close>

text \<open>A frame that arrives in one piece is read back; one in two pieces is cut, and what follows is misread.\<close>

lemma net_recv_whole:
  assumes "frame t = Some f" "so_in s = f # ps"
  shows "net_recv s = (Some (strip_points t), s\<lparr>so_in := ps\<rparr>)"
proof -
  from frame_split [OF assms(1)] obtain l d where f: "f = l @ d" "length l = 4" "from_bytes l = length d"
    "utf8_decode d = Some t" "d = [] \<longleftrightarrow> t = []" by blast
  have r: "recv 4 s = (Some l, s\<lparr>so_in := (if d = [] then ps else d # ps)\<rparr>)"
    using f assms(2) by (auto simp: recv_def)
  have "recv (length d) (s\<lparr>so_in := (if d = [] then ps else d # ps)\<rparr>) = (Some d, s\<lparr>so_in := ps\<rparr>)"
    by (simp add: recv_def)
  moreover have "l \<noteq> []" using f(2) by auto
  ultimately show ?thesis using r f(3,4) by (simp add: net_recv_def)
qed

lemma net_recv_cut:
  "fst (net_recv \<lparr>so_in = [[0, 0, 0, 2, 0x68], [0x69], [0, 0, 0, 1, 0x21]], so_reset = False\<rparr>) = Some [0x68]"
  "fst (net_recv (snd (net_recv \<lparr>so_in = [[0, 0, 0, 2, 0x68], [0x69], [0, 0, 0, 1, 0x21]], so_reset = False\<rparr>))) = Some [0, 0, 0, 1, 0x21]"
  by (simp_all add: net_recv_def recv_def from_bytes_def utf8_decode_def strip_points_def is_space_point_def)

text \<open>A text that is received has used up bytes of the stream.\<close>

lemma net_recv_shorter:
  assumes "net_recv s = (Some t, s1)"
  shows "length (incoming s1) < length (incoming s)"
proof -
  obtain r s2 where r: "recv 4 s = (r, s2)" by fastforce
  with assms obtain lb where lb: "r = Some lb" "lb \<noteq> []" by (auto simp: net_recv_def split: option.splits if_splits)
  obtain q s3 where q: "recv (from_bytes lb) s2 = (q, s3)" by fastforce
  with assms r lb obtain d where d: "q = Some d" "s1 = s3" by (auto simp: net_recv_def split: option.splits)
  from recv_run(2) [OF r lb(1)] recv_run(2) [OF q d(1)] lb(2) d(2) show ?thesis by simp
qed

end
