(* ===== verification/Language_Model.thy ===== *)
theory Language_Model
  imports Model_Server Chat_Frames
begin

text \<open>
  \<open>plugins/language_model/adapter.py\<close>: a model that is served, through llama-swap or by a server of its own, or
  talked to in a terminal.  An adapter puts one payload per inference into a queue of ten, which a pipeline
  drains.  Wall-clock values are the fields of a \<open>span\<close>; what the model server answers to a turn of a chat, the
  decoder of JSON and the texts of exceptions of libraries are the record \<open>turn\<close>.
\<close>

section \<open>Payloads\<close>

record span =
  sp_start :: string
  sp_end :: string
  sp_duration :: string

text \<open>What the model said: a text, or another JSON value that the server put in its place.\<close>

datatype said = Text points | Value json

record payload =
  pl_model_id :: string
  pl_model_type :: string
  pl_sub_model_type :: string
  pl_output_type :: string
  pl_output :: said
  pl_confidence :: string
  pl_span :: span
  pl_metadata :: jdict

definition points_of :: "string \<Rightarrow> points" where
  "points_of s = map of_char s"

definition build_telemetry_payload :: "string \<Rightarrow> said \<Rightarrow> span \<Rightarrow> jdict \<Rightarrow> payload" where
  "build_telemetry_payload model_id output sp metadata =
     \<lparr>pl_model_id = model_id, pl_model_type = ''generation'', pl_sub_model_type = ''text_generation'', pl_output_type = ''text'',
      pl_output = output, pl_confidence = ''1.0'', pl_span = sp, pl_metadata = metadata\<rparr>"

definition build_whisper_payload :: "string \<Rightarrow> said \<Rightarrow> span \<Rightarrow> jdict \<Rightarrow> payload" where
  "build_whisper_payload model_id output sp metadata =
     (build_telemetry_payload model_id output sp metadata)\<lparr>pl_sub_model_type := ''audio_transcription''\<rparr>"

definition QUEUE_SIZE :: nat where "QUEUE_SIZE = 10"

text \<open>\<open>put_nowait\<close> with \<open>queue.Full\<close> caught, and \<open>put\<close> after a look at \<open>full()\<close>.\<close>

definition offer :: "payload \<Rightarrow> payload list \<Rightarrow> payload list" where
  "offer p q = (if length q < QUEUE_SIZE then q @ [p] else q)"

section \<open>The adapter\<close>

record adapter =
  lm_model_id :: string
  lm_running :: bool
  lm_queue :: "payload list"
  lm_messages :: "(string \<times> said) list"
  lm_stream :: bool
  lm_temperature :: json

text \<open>\<open>__call__\<close>.\<close>

definition next_payload :: "adapter \<Rightarrow> payload option \<times> adapter" where
  "next_payload a = (case lm_queue a of [] \<Rightarrow> (None, a) | p # q \<Rightarrow> (Some p, a\<lparr>lm_queue := q\<rparr>))"

section \<open>Records of the serving proxy\<close>

definition proxy_payload :: "string \<Rightarrow> chat_record \<times> span \<Rightarrow> payload" where
  "proxy_payload model_id r = build_telemetry_payload model_id (Text (points_of ''stats_only'')) (snd r)
     [(''tokens_generated'', JInt (cr_generated (fst r))), (''tokens_prompt'', JInt (cr_prompt (fst r))),
      (''stream'', JBool (cr_stream (fst r))), (''token_source'', JStr (cr_source (fst r))), (''source'', JStr ''serving_proxy'')]"

definition own_record :: "string \<Rightarrow> chat_record \<times> span \<Rightarrow> bool" where
  "own_record model_id r = py_eq (cr_model (fst r)) (JStr model_id)"

definition on_proxy_telemetry :: "chat_record \<times> span \<Rightarrow> adapter \<Rightarrow> adapter" where
  "on_proxy_telemetry r a =
     (if own_record (lm_model_id a) r then a\<lparr>lm_queue := offer (proxy_payload (lm_model_id a) r) (lm_queue a)\<rparr> else a)"

text \<open>
  A record of the proxy reaches the callbacks of its manager; \<open>ads\<close> are the adapters by the number of their callback.
\<close>

definition call_back :: "nat \<Rightarrow> chat_record \<times> span \<Rightarrow> (nat, adapter) dict \<Rightarrow> (nat, adapter) dict" where
  "call_back cb r ads =
     (case map_of ads cb of None \<Rightarrow> ads | Some a \<Rightarrow> AList.update cb (on_proxy_telemetry r a) ads)"

definition deliver_record :: "swap \<Rightarrow> chat_record \<times> span \<Rightarrow> (nat, adapter) dict \<Rightarrow> (nat, adapter) dict" where
  "deliver_record sm r ads = fold (\<lambda>(cb, c). call_back cb (c, snd r)) (fanout_telemetry (fst r) sm) ads"

lemma call_back_get:
  "map_of (call_back cb r ads) i = (if i = cb then map_option (on_proxy_telemetry r) (map_of ads i) else map_of ads i)"
  by (auto simp: call_back_def py_dict update_conv' split: option.splits)

lemma fold_call_back_get:
  assumes "distinct cbs"
  shows "map_of (fold (\<lambda>(cb, c). call_back cb (c, sp)) (map (\<lambda>cb. (cb, c)) cbs) ads) i =
    (if i \<in> set cbs then map_option (on_proxy_telemetry (c, sp)) (map_of ads i) else map_of ads i)"
  using assms by (induction cbs arbitrary: ads) (auto simp: call_back_get)

lemma deliver_record_get:
  "distinct (sm_callbacks sm) \<Longrightarrow>
   map_of (deliver_record sm r ads) i =
     (if i \<in> set (sm_callbacks sm) then map_option (on_proxy_telemetry r) (map_of ads i) else map_of ads i)"
  using fold_call_back_get [of "sm_callbacks sm" "snd r" "fst r"] by (simp add: deliver_record_def fanout_telemetry_def)

lemma offer_all:
  "length q \<le> QUEUE_SIZE \<Longrightarrow> fold offer ps q = take QUEUE_SIZE (q @ ps)"
proof (induction ps arbitrary: q)
  case (Cons p ps)
  then show ?case by (cases "length q < QUEUE_SIZE") (auto simp: offer_def take_Cons')
qed simp

lemma records_offered:
  "fold on_proxy_telemetry rs a =
     a\<lparr>lm_queue := fold offer (map (proxy_payload (lm_model_id a)) (filter (own_record (lm_model_id a)) rs)) (lm_queue a)\<rparr>"
  by (induction rs arbitrary: a) (auto simp: on_proxy_telemetry_def)

text \<open>
  The telemetry of a served model reaches the adapter of that model and no other: after any sequence of
  records, the queue of every registered adapter holds what it held and the payloads of exactly the
  records of its own model, in order, as far as ten places go; what does not fit is the newest.
\<close>

lemma telemetry_routed:
  assumes "distinct (sm_callbacks sm)" "i \<in> set (sm_callbacks sm)" "map_of ads i = Some a" "length (lm_queue a) \<le> QUEUE_SIZE"
  shows "map_of (fold (deliver_record sm) rs ads) i =
    Some (a\<lparr>lm_queue := take QUEUE_SIZE
      (lm_queue a @ map (proxy_payload (lm_model_id a)) (filter (own_record (lm_model_id a)) rs))\<rparr>)"
proof -
  have "map_of (fold (deliver_record sm) rs ads) i = Some (fold on_proxy_telemetry rs a)"
    using assms(3)
  proof (induction rs arbitrary: ads a)
    case (Cons r rs)
    then have "map_of (deliver_record sm r ads) i = Some (on_proxy_telemetry r a)"
      using assms(1,2) by (simp add: deliver_record_get)
    from Cons.IH [OF this] show ?case by simp
  qed simp
  with offer_all [OF assms(4)] show ?thesis by (simp add: records_offered)
qed

definition idle_adapter :: "string \<Rightarrow> adapter" where
  "idle_adapter m = \<lparr>lm_model_id = m, lm_running = True, lm_queue = [], lm_messages = [], lm_stream = True, lm_temperature = JFloat ''0.7''\<rparr>"

definition sample_record :: "string \<Rightarrow> chat_record \<times> span" where
  "sample_record m = (\<lparr>cr_model = JStr m, cr_stream = False, cr_generated = 3, cr_prompt = 1, cr_source = ''usage''\<rparr>,
     \<lparr>sp_start = ''s'', sp_end = ''e'', sp_duration = ''0.1''\<rparr>)"

lemma telemetry_routed_witness:
  "map_of (fold (deliver_record (demo_swap\<lparr>sm_callbacks := [1, 2]\<rparr>)) [sample_record ''m'', sample_record ''n'']
     [(1, idle_adapter ''m''), (2, idle_adapter ''n'')]) 2 =
   Some ((idle_adapter ''n'')\<lparr>lm_queue := [proxy_payload ''n'' (sample_record ''n'')]\<rparr>)"
  using telemetry_routed [of "demo_swap\<lparr>sm_callbacks := [1, 2]\<rparr>" 2 "[(1, idle_adapter ''m''), (2, idle_adapter ''n'')]"
      "idle_adapter ''n''" "[sample_record ''m'', sample_record ''n'']"]
  by (simp add: idle_adapter_def own_record_def sample_record_def QUEUE_SIZE_def)

section \<open>The log of a single server\<close>

fun first_match :: "(string \<Rightarrow> 'a option) \<Rightarrow> string \<Rightarrow> 'a option" where
  "first_match f [] = f []"
| "first_match f (c # s) = (case f (c # s) of None \<Rightarrow> first_match f s | Some x \<Rightarrow> Some x)"

definition after_text :: "string \<Rightarrow> string \<Rightarrow> string option" where
  "after_text p s = (if startswith s p then Some (drop (length p) s) else None)"

definition after_spaces :: "string \<Rightarrow> string option" where
  "after_spaces s = (if s \<noteq> [] \<and> is_space (hd s) then Some (dropWhile is_space s) else None)"

definition after_digits :: "string \<Rightarrow> (string \<times> string) option" where
  "after_digits s = (if takeWhile is_digit s = [] then None else Some (takeWhile is_digit s, dropWhile is_digit s))"

text \<open>\<open>=\<bar>s+(\<bar>d+\<bar>.\<bar>d+)\<bar>s+ms\<close> and \<open>/\<bar>s+(\<bar>d+)\<bar>s+tokens\<close>, at one place.\<close>

definition millis_at :: "string \<Rightarrow> string option" where
  "millis_at s =
     Option.bind (after_text ''='' s) (\<lambda>a. Option.bind (after_spaces a) (\<lambda>b. Option.bind (after_digits b) (\<lambda>(m, c).
     Option.bind (after_text ''.'' c) (\<lambda>d. Option.bind (after_digits d) (\<lambda>(n, e). Option.bind (after_spaces e) (\<lambda>f.
     Option.bind (after_text ''ms'' f) (\<lambda>_. Some (m @ ''.'' @ n))))))))"

definition tokens_at :: "string \<Rightarrow> string option" where
  "tokens_at s =
     Option.bind (after_text ''/'' s) (\<lambda>a. Option.bind (after_spaces a) (\<lambda>b. Option.bind (after_digits b) (\<lambda>(n, c).
     Option.bind (after_spaces c) (\<lambda>d. Option.bind (after_text ''tokens'' d) (\<lambda>_. Some n)))))"

text \<open>\<open>span_of\<close> gives the span of so many milliseconds that ends now; no match counts as none.\<close>

definition on_server_log :: "(string \<Rightarrow> span) \<Rightarrow> string \<Rightarrow> adapter \<Rightarrow> adapter" where
  "on_server_log span_of line a =
     (if contains_sub ''eval time ='' line \<and> \<not> contains_sub ''prompt'' line
      then (let millis = (case first_match millis_at line of None \<Rightarrow> ''0.0'' | Some m \<Rightarrow> m) in
        case (case first_match tokens_at line of None \<Rightarrow> Some 0 | Some t \<Rightarrow> py_int t) of
          None \<Rightarrow> a
        | Some n \<Rightarrow>
            a\<lparr>lm_queue := offer (build_telemetry_payload (lm_model_id a) (Text (points_of ''stats_only'')) (span_of millis)
                [(''tokens_generated'', JInt n), (''source'', JStr ''server_log'')]) (lm_queue a)\<rparr>)
      else a)"

lemma server_log_example:
  "map pl_metadata (lm_queue (on_server_log (\<lambda>m. \<lparr>sp_start = [], sp_end = [], sp_duration = m\<rparr>)
     ''eval time =     812.34 ms /    40 tokens'' (idle_adapter ''m''))) =
   [[(''tokens_generated'', JInt 40), (''source'', JStr ''server_log'')]]"
  by code_simp

section \<open>Construction\<close>

text \<open>\<open>int(x or default)\<close>, so that 0 stands for the default; \<open>None\<close> is an exception.\<close>

definition int_or :: "int \<Rightarrow> json \<Rightarrow> int option" where
  "int_or i x = (if truthy x then (case x of JStr s \<Rightarrow> py_int s | _ \<Rightarrow> json_int x) else Some i)"

lemma zero_layers_become_35: "int_or 35 (JInt 0) = Some 35"
  by (simp add: int_or_def)

text \<open>A path is tried as it is and below the parent of the working directory.\<close>

definition located :: "apath \<Rightarrow> string \<Rightarrow> apath" where
  "located cwd p = (if path_root p = [] then cwd @ path_parts p else path_parts p)"

definition resolve_model_path :: "apath \<Rightarrow> string \<Rightarrow> fs \<Rightarrow> apath" where
  "resolve_model_path cwd p fs =
     (if path_exists fs (located cwd p) then located cwd p
      else if path_exists fs (located (butlast cwd) p) then located (butlast cwd) p
      else located cwd p)"

definition resolve_swap_binary :: "site \<Rightarrow> gpu \<Rightarrow> (fs \<Rightarrow> fs) \<Rightarrow> apath \<Rightarrow> layout \<Rightarrow> apath option inst" where
  "resolve_swap_binary st gp meanwhile cwd la =
     (let filename = binary_name st ''llama-swap'' in
      seq (is_swap_installed st la LLAMA_SWAP_RELEASE) (\<lambda>there.
      if there then ret (Some (la_bin la @ [filename]))
      else if st_frozen st then tried (binary_path st gp meanwhile cwd ''llama-swap'' filename (Some LLAMA_SWAP_RELEASE) None None)
      else ret None))"

text \<open>Both engines, or none: the server is looked for only when llama-swap is there.\<close>

definition serve_engines ::
    "site \<Rightarrow> gpu \<Rightarrow> (fs \<Rightarrow> fs) \<Rightarrow> apath \<Rightarrow> (string \<Rightarrow> apath option) \<Rightarrow> layout \<Rightarrow> (apath \<times> apath) option inst" where
  "serve_engines st gp meanwhile cwd which la =
     seq (resolve_swap_binary st gp meanwhile cwd la) (\<lambda>swap_bin.
     (case swap_bin of
        None \<Rightarrow> ret None
      | Some sw \<Rightarrow>
          seq (or_fail Escaped (get_server_binary st gp meanwhile cwd which la)) (\<lambda>server_bin.
          ret (map_option (Pair sw) server_bin))))"

definition build_serve_env :: "site \<Rightarrow> fs \<Rightarrow> apath \<Rightarrow> (string, string) dict" where
  "build_serve_env st fs engine_dir =
     (if system_name st \<noteq> ''Linux'' then []
      else [(''LD_LIBRARY_PATH'', library_path sort ''ggml'' (case st_env st ''LD_LIBRARY_PATH'' of None \<Rightarrow> [] | Some s \<Rightarrow> s) fs engine_dir)])"

record serve_config =
  sc_model_id :: string
  sc_model_path :: string
  sc_layers :: int
  sc_ctx :: int
  sc_host :: string
  sc_port :: int
  sc_ttl :: json
  sc_env :: "(string, string) dict"

text \<open>
  The part of the constructor that registers the model, and the part of \<open>stop\<close> that removes it; \<open>fresh\<close>
  is the manager the registry creates when it has none for the address.
\<close>

definition serve_model :: "host_os \<Rightarrow> swap \<Rightarrow> nat \<Rightarrow> serve_config \<Rightarrow> registry \<Rightarrow> sw_error option \<times> registry" where
  "serve_model os fresh cb c reg =
     (case get_swap_manager (sc_port c) (sc_host c) fresh (Some cb) reg of
        (sm, reg1) \<Rightarrow>
          (case add_model os (sc_model_id c) (sc_model_path c)
                  [''--n-gpu-layers'', show_int (sc_layers c), ''--ctx-size'', show_int (sc_ctx c)] (sc_env c) (sc_ttl c) sm of
             (e, sm1) \<Rightarrow> (e, AList.update (sc_host c, sc_port c) sm1 reg1)))"

definition stop_serving_model :: "host_os \<Rightarrow> nat \<Rightarrow> adapter \<Rightarrow> swap \<Rightarrow> sw_error option \<times> bool \<times> swap \<times> adapter" where
  "stop_serving_model os cb a sm =
     (case remove_model os (lm_model_id a) (remove_telemetry_callback cb sm) of
        (e, gone, sm1) \<Rightarrow> (e, gone, sm1, a\<lparr>lm_running := False\<rparr>))"

text \<open>
  One round of \<open>_server_heartbeat_loop\<close>: with a manager, the proxy of a healthy llama-swap is kept up; with a
  server of its own, the adapter ends with it.
\<close>

definition heartbeat_swap :: "host_os \<Rightarrow> nat option \<Rightarrow> swap \<Rightarrow> sw_error option \<times> swap" where
  "heartbeat_swap os probe sm = (if is_healthy os probe sm then ensure_proxy os sm else (None, sm))"

definition heartbeat_server :: "server \<Rightarrow> adapter \<Rightarrow> adapter" where
  "heartbeat_server s a = (if ms_running s then a else a\<lparr>lm_running := False\<rparr>)"

lemma add_model_callbacks: "sm_callbacks (snd (add_model os k p args env ttl sm)) = sm_callbacks sm"
  using same_config_reload [of os] same_config_start [of os]
  by (auto simp: add_model_def write_config_def Let_def same_config_def split: if_splits option.splits prod.splits)

text \<open>A model whose registration fails leaves its callback with the manager.\<close>

lemma failed_serve_leaks:
  "\<exists>sm. map_of (snd (serve_model os fresh cb c reg)) (sc_host c, sc_port c) = Some sm \<and> cb \<in> set (sm_callbacks sm)"
proof -
  define sm where "sm = add_telemetry_callback cb (case map_of reg (sc_host c, sc_port c) of Some sm \<Rightarrow> sm | None \<Rightarrow> fresh)"
  have g: "get_swap_manager (sc_port c) (sc_host c) fresh (Some cb) reg = (sm, AList.update (sc_host c, sc_port c) sm reg)"
    by (simp add: get_swap_manager_def sm_def Let_def)
  have "cb \<in> set (sm_callbacks sm)" by (auto simp: sm_def add_telemetry_callback_def)
  with g add_model_callbacks [where sm = sm] show ?thesis
    by (auto simp: serve_model_def py_dict update_conv' split: prod.split) (metis snd_conv)
qed

section \<open>A turn of a chat\<close>

text \<open>
  \<open>ct_sent\<close> are the texts given to \<open>output_func\<close> that came through, \<open>ct_room\<close> how many more the connection of
  a remote terminal takes (\<open>None\<close> for the local one), and \<open>ct_sock\<close> what the remote terminal sends.
\<close>

record chat =
  ct_adapter :: adapter
  ct_sent :: "points list"
  ct_room :: "nat option"
  ct_sock :: sock

type_synonym 'a talk = "(chat, unit, 'a) stm"

record answer =
  an_status :: int
  an_lines :: "byte list list"
  an_broken :: bool
  an_json :: "json option"

record turn =
  tu_answer :: "answer option"
  tu_error :: points
  tu_loads :: "points \<Rightarrow> json option"
  tu_span :: span
  tu_blue :: points
  tu_green :: points
  tu_reset :: points

text \<open>\<open>output_func\<close>: a remote terminal takes what can be framed, the local one what can be encoded.\<close>

definition emit :: "points \<Rightarrow> unit talk" where
  "emit x c =
     (case ct_room c of
        None \<Rightarrow> if list_all scalar x then (Inr (), c\<lparr>ct_sent := ct_sent c @ [x]\<rparr>) else (Inl (), c)
      | Some n \<Rightarrow>
          if 0 < n \<and> frame x \<noteq> None then (Inr (), c\<lparr>ct_sent := ct_sent c @ [x], ct_room := Some (n - 1)\<rparr>) else (Inl (), c))"

definition change_adapter :: "(adapter \<Rightarrow> adapter) \<Rightarrow> chat \<Rightarrow> chat" where
  "change_adapter f c = c\<lparr>ct_adapter := f (ct_adapter c)\<rparr>"

definition say :: "string \<Rightarrow> said \<Rightarrow> adapter \<Rightarrow> adapter" where
  "say role x a = a\<lparr>lm_messages := lm_messages a @ [(role, x)]\<rparr>"

text \<open>\<open>s.replace(p, "")\<close>.\<close>

function remove_all :: "nat list \<Rightarrow> nat list \<Rightarrow> nat list" where
  "remove_all p [] = []"
| "remove_all p (x # xs) =
     (if p \<noteq> [] \<and> take (length p) (x # xs) = p then remove_all p (drop (length p) (x # xs)) else x # remove_all p xs)"
  by pat_completeness auto
termination
  by (relation "measure (\<lambda>(p, xs). length xs)") (auto simp: neq_Nil_conv)

fun index0 :: "json \<Rightarrow> json option" where
  "index0 (JArr (x # _)) = Some x"
| "index0 (JStr (c # _)) = Some (JStr [c])"
| "index0 _ = None"

definition field :: "string \<Rightarrow> json \<Rightarrow> json option" where
  "field k x = (case subscript x k of Inl _ \<Rightarrow> None | Inr v \<Rightarrow> Some v)"

definition get_field :: "string \<Rightarrow> json \<Rightarrow> json \<Rightarrow> json option" where
  "get_field k d x = (case get_default x k d of Inl _ \<Rightarrow> None | Inr v \<Rightarrow> Some v)"

text \<open>\<open>chunk["choices"][0]["delta"].get("content", "")\<close>, \<open>None\<close> for any exception.\<close>

definition delta_content :: "json \<Rightarrow> json option" where
  "delta_content j =
     Option.bind (field ''choices'' j) (\<lambda>cs. Option.bind (index0 cs) (\<lambda>c. Option.bind (field ''delta'' c) (get_field ''content'' (JStr []))))"

text \<open>The content of a chunk that is a true value is shown and added; an exception on the way is ignored.\<close>

definition show_content :: "json \<Rightarrow> points \<times> nat \<Rightarrow> chat \<Rightarrow> (points \<times> nat) \<times> chat" where
  "show_content v acc c =
     (case v of
        JStr x \<Rightarrow> (case emit (points_of x) c of (Inl _, c1) \<Rightarrow> (acc, c1) | (Inr _, c1) \<Rightarrow> ((fst acc @ points_of x, Suc (snd acc)), c1))
      | _ \<Rightarrow> (acc, if ct_room c = None then snd (emit (points_of (py_str v)) c) else c))"

text \<open>The lines of a streamed answer; \<open>Inl\<close> is a line that is not UTF-8, or the end of a broken stream.\<close>

fun stream_lines :: "turn \<Rightarrow> byte list list \<Rightarrow> points \<times> nat \<Rightarrow> (points \<times> nat) talk" where
  "stream_lines tu [] acc c =
     (if (case tu_answer tu of Some an \<Rightarrow> an_broken an | None \<Rightarrow> False) then (Inl (), c) else (Inr acc, c))"
| "stream_lines tu (l # ls) acc c =
     (if l = [] then stream_lines tu ls acc c
      else case utf8_decode l of
        None \<Rightarrow> (Inl (), c)
      | Some t \<Rightarrow>
          let decoded = remove_all (points_of ''data: '') t in
          if decoded = points_of ''[DONE]'' then (Inr acc, c)
          else case Option.bind (tu_loads tu decoded) delta_content of
            None \<Rightarrow> stream_lines tu ls acc c
          | Some v \<Rightarrow>
              if truthy v then (case show_content v acc c of (acc1, c1) \<Rightarrow> stream_lines tu ls acc1 c1)
              else stream_lines tu ls acc c)"

text \<open>The whole answer at once: the text and the number of tokens.\<close>

fun said_of :: "json \<Rightarrow> (said \<times> nat) option" where
  "said_of (JStr x) = Some (Text (points_of x), length x)"
| "said_of (JArr xs) = Some (Value (JArr xs), length xs)"
| "said_of (JObj d) = Some (Value (JObj d), length d)"
| "said_of _ = None"

definition whole_answer :: "json \<Rightarrow> (said \<times> json) talk" where
  "whole_answer j =
     (case Option.bind (field ''choices'' j) (\<lambda>cs. Option.bind (index0 cs) (\<lambda>c. Option.bind (field ''message'' c) (field ''content''))) of
        None \<Rightarrow> raise ()
      | Some v \<Rightarrow>
          seq (\<lambda>c. if is_str v \<or> ct_room c = None then emit (points_of (py_str v)) c else (Inl (), c)) (\<lambda>_.
          (case (said_of v, get_field ''usage'' (JObj []) j) of
             (Some (x, n), Some u) \<Rightarrow>
               (case get_field ''completion_tokens'' (JInt (int (n div 4))) u of None \<Rightarrow> raise () | Some t \<Rightarrow> ret (x, t))
           | _ \<Rightarrow> raise ())))"

definition answer_turn :: "turn \<Rightarrow> bool \<Rightarrow> (said \<times> json) talk" where
  "answer_turn tu stream =
     (case tu_answer tu of
        None \<Rightarrow> raise ()
      | Some an \<Rightarrow>
          if 400 \<le> an_status an \<and> an_status an < 600 then raise ()
          else if stream then seq (stream_lines tu (an_lines an) ([], 0)) (\<lambda>(t, n). ret (Text t, JInt (int n)))
          else (case an_json an of None \<Rightarrow> raise () | Some j \<Rightarrow> whole_answer j))"

definition lower_point :: "nat \<Rightarrow> nat" where
  "lower_point p = (if 65 \<le> p \<and> p \<le> 90 then p + 32 else p)"

text \<open>No other character has one of the letters of \<open>quit\<close> and \<open>exit\<close> as its lower case.\<close>

definition wants_to_quit :: "points \<Rightarrow> bool" where
  "wants_to_quit t = (map lower_point t \<in> {points_of ''quit'', points_of ''exit''})"

definition turn_prompt :: "turn \<Rightarrow> points" where
  "turn_prompt tu = tu_blue tu @ points_of ''Assistant: '' @ tu_reset tu"

definition turn_payload :: "turn \<Rightarrow> adapter \<Rightarrow> said \<times> json \<Rightarrow> payload" where
  "turn_payload tu a x = build_telemetry_payload (lm_model_id a) (fst x) (tu_span tu)
     [(''tokens_generated'', snd x), (''temperature'', lm_temperature a), (''source'', JStr ''client_chat'')]"

definition error_text :: "turn \<Rightarrow> points" where
  "error_text tu = points_of ([chr_nl] @ ''[Error: '') @ tu_error tu @ points_of ('']'' @ [chr_nl])"

text \<open>The turn after the name of the assistant is shown.\<close>

definition finish_turn :: "turn \<Rightarrow> unit talk" where
  "finish_turn tu c =
     (case answer_turn tu (lm_stream (ct_adapter c)) c of
        (Inl _, c2) \<Rightarrow> emit (error_text tu) c2
      | (Inr x, c2) \<Rightarrow>
          seq (emit (points_of [chr_nl])) (\<lambda>_ c3.
            (Inr (), change_adapter (\<lambda>a. (say ''assistant'' (fst x) a)\<lparr>lm_queue := offer (turn_payload tu a x) (lm_queue a)\<rparr>) c3)) c2)"

definition process_turn :: "turn \<Rightarrow> points \<Rightarrow> unit talk" where
  "process_turn tu input c =
     (if wants_to_quit input then (Inr (), change_adapter (\<lambda>a. a\<lparr>lm_running := False\<rparr>) c)
      else seq (emit (turn_prompt tu)) (\<lambda>_. finish_turn tu) (change_adapter (say ''user'' (Text input)) c))"

section \<open>Streamed answers\<close>

text \<open>Nothing but texts for the terminal: \<open>ps\<close> are those a remote terminal got.\<close>

definition shows_texts :: "points list \<Rightarrow> chat \<Rightarrow> chat \<Rightarrow> bool" where
  "shows_texts ps c c' \<longleftrightarrow> ct_adapter c' = ct_adapter c \<and> ct_sock c' = ct_sock c \<and> (ct_room c' = None \<longleftrightarrow> ct_room c = None) \<and>
     (ct_room c \<noteq> None \<longrightarrow> ct_sent c' = ct_sent c @ ps \<and> (\<forall>p \<in> set ps. frame p \<noteq> None))"

lemma shows_nothing [simp]: "shows_texts [] c c"
  by (simp add: shows_texts_def)

lemma shows_trans: "shows_texts ps a b \<Longrightarrow> shows_texts qs b c \<Longrightarrow> shows_texts (ps @ qs) a c"
  by (auto simp: shows_texts_def)

lemma emit_cases:
  assumes "emit x c = (r, c')"
  obtains (kept) "r = Inl ()" "c' = c" | (shown_here) "r = Inr ()" "ct_room c = None" "c' = c\<lparr>ct_sent := ct_sent c @ [x]\<rparr>"
    | (shown_there) n where "r = Inr ()" "ct_room c = Some n" "frame x \<noteq> None" "c' = c\<lparr>ct_sent := ct_sent c @ [x], ct_room := Some (n - 1)\<rparr>"
  using assms unfolding emit_def by (cases "ct_room c") (simp_all split: if_split_asm)

lemma emit_shows:
  assumes "emit x c = (r, c')"
  shows "shows_texts (case r of Inl _ \<Rightarrow> [] | Inr _ \<Rightarrow> [x]) c c'"
  using assms by (cases rule: emit_cases) (simp_all add: shows_texts_def)

lemma show_content_run:
  assumes "show_content v acc c = (acc1, c1)" "truthy v"
  shows "\<exists>ps. shows_texts ps c c1 \<and> [] \<notin> set ps \<and> (ct_room c \<noteq> None \<longrightarrow> acc1 = (fst acc @ concat ps, snd acc + length ps))"
proof (cases "\<exists>x. v = JStr x")
  case True
  then obtain x where v: "v = JStr x" ..
  obtain r c2 where e: "emit (points_of x) c = (r, c2)" by fastforce
  from v assms(2) have "points_of x \<noteq> []" by (simp add: points_of_def)
  with emit_shows [OF e] e v assms(1) show ?thesis
    by (intro exI [of _ "case r of Inl _ \<Rightarrow> [] | Inr _ \<Rightarrow> [points_of x]"]) (auto simp: show_content_def split: sum.splits)
next
  case False
  with assms(1) have a: "acc1 = acc" "c1 = (if ct_room c = None then snd (emit (points_of (py_str v)) c) else c)"
    by (auto simp: show_content_def split: json.splits)
  show ?thesis
  proof (cases "ct_room c")
    case None
    with a have "shows_texts [] c c1" by (simp add: emit_def shows_texts_def)
    with None show ?thesis by (intro exI [of _ "[]"]) simp
  next
    case (Some n)
    with a show ?thesis by (intro exI [of _ "[]"]) simp
  qed
qed

lemma stream_lines_run:
  assumes "stream_lines tu ls acc c = (r, c')"
  shows "\<exists>ps. shows_texts ps c c' \<and> [] \<notin> set ps \<and>
    (ct_room c \<noteq> None \<longrightarrow> (\<forall>x. r = Inr x \<longrightarrow> x = (fst acc @ concat ps, snd acc + length ps)))"
  using assms
proof (induction ls arbitrary: acc c)
  case Nil
  then show ?case by (intro exI [of _ "[]"]) (auto split: if_splits)
next
  case (Cons l ls)
  consider (skip) "stream_lines tu ls acc c = (r, c')" | (stop) "c' = c" "r = Inl () \<or> r = Inr acc"
    | (more) v acc1 c1 where "truthy v" "show_content v acc c = (acc1, c1)" "stream_lines tu ls acc1 c1 = (r, c')"
    using Cons.prems by (auto simp: Let_def split: if_splits option.splits prod.splits)
  then show ?case
  proof cases
    case skip
    with Cons.IH show ?thesis .
  next
    case stop
    then show ?thesis by (intro exI [of _ "[]"]) auto
  next
    case more
    from show_content_run [OF more(2,1)] obtain ps where ps: "shows_texts ps c c1" "[] \<notin> set ps"
      "ct_room c \<noteq> None \<longrightarrow> acc1 = (fst acc @ concat ps, snd acc + length ps)" by blast
    from Cons.IH [OF more(3)] obtain qs where qs: "shows_texts qs c1 c'" "[] \<notin> set qs"
      "ct_room c1 \<noteq> None \<longrightarrow> (\<forall>x. r = Inr x \<longrightarrow> x = (fst acc1 @ concat qs, snd acc1 + length qs))" by blast
    from ps(1) have rm: "ct_room c1 = None \<longleftrightarrow> ct_room c = None" by (simp add: shows_texts_def)
    from shows_trans [OF ps(1) qs(1)] ps(2,3) qs(2,3) rm show ?thesis
      by (intro exI [of _ "ps @ qs"]) auto
  qed
qed

lemma answer_turn_run:
  assumes "answer_turn tu True c = (r, c')" "ct_room c \<noteq> None"
  shows "\<exists>ps. shows_texts ps c c' \<and> [] \<notin> set ps \<and>
    (\<forall>x. r = Inr x \<longrightarrow> x = (Text (concat ps), JInt (int (length ps))))"
proof (cases "\<exists>an. tu_answer tu = Some an \<and> \<not> (400 \<le> an_status an \<and> an_status an < 600)")
  case False
  with assms(1) have "r = Inl ()" "c' = c" by (auto simp: answer_turn_def raise_def split: option.splits)
  then show ?thesis by (intro exI [of _ "[]"]) simp
next
  case True
  then obtain an where an: "tu_answer tu = Some an" "\<not> (400 \<le> an_status an \<and> an_status an < 600)" by blast
  obtain r1 c1 where s: "stream_lines tu (an_lines an) ([], 0) c = (r1, c1)" by fastforce
  from stream_lines_run [OF s] obtain ps where ps: "shows_texts ps c c1" "[] \<notin> set ps"
    "\<And>x. r1 = Inr x \<Longrightarrow> x = (concat ps, length ps)" using assms(2) by auto
  from assms(1) an s have e: "c' = c1" "r = (case r1 of Inl e \<Rightarrow> Inl e | Inr (t, n) \<Rightarrow> Inr (Text t, JInt (int n)))"
    by (auto simp: answer_turn_def seq_def ret_def split: sum.splits)
  show ?thesis
  proof (intro exI [of _ ps] conjI allI impI)
    fix x assume "r = Inr x"
    with e(2) ps(3) show "x = (Text (concat ps), JInt (int (length ps)))" by (cases r1) auto
  qed (use ps e(1) in simp_all)
qed

text \<open>What a turn leaves in the adapter: the answer that was shown, or only the question.\<close>

definition turn_outcome :: "turn \<Rightarrow> points \<Rightarrow> points list \<Rightarrow> points \<Rightarrow> adapter \<Rightarrow> adapter \<Rightarrow> bool" where
  "turn_outcome tu input pieces fin a a' \<longleftrightarrow>
     fin = points_of [chr_nl] \<and> lm_messages a' = lm_messages a @ [(''user'', Text input), (''assistant'', Text (concat pieces))] \<and>
       lm_queue a' = offer (turn_payload tu a (Text (concat pieces), JInt (int (length pieces)))) (lm_queue a) \<or>
     fin = error_text tu \<and> lm_messages a' = lm_messages a @ [(''user'', Text input)] \<and> lm_queue a' = lm_queue a"

lemma process_turn_run:
  assumes "process_turn tu input c = (Inr (), c')" "\<not> wants_to_quit input" "lm_stream (ct_adapter c)" "ct_room c \<noteq> None"
  shows "\<exists>pieces fin. [] \<notin> set pieces \<and> fin \<noteq> [] \<and> ct_sent c' = ct_sent c @ [turn_prompt tu] @ pieces @ [fin] \<and>
    turn_outcome tu input pieces fin (ct_adapter c) (ct_adapter c')"
proof -
  define c0 where "c0 = change_adapter (say ''user'' (Text input)) c"
  have a0: "ct_adapter c0 = say ''user'' (Text input) (ct_adapter c)" "ct_sent c0 = ct_sent c" "ct_room c0 \<noteq> None"
    using assms(4) by (simp_all add: c0_def change_adapter_def)
  from assms(1,2) obtain u c1 where p: "emit (turn_prompt tu) c0 = (Inr u, c1)"
    and rest: "finish_turn tu c1 = (Inr (), c')"
    by (auto simp: process_turn_def c0_def elim!: seqE)
  from emit_shows [OF p] a0(3) have p1: "shows_texts [turn_prompt tu] c0 c1" by simp
  with a0 have a1: "ct_adapter c1 = say ''user'' (Text input) (ct_adapter c)" "ct_sent c1 = ct_sent c @ [turn_prompt tu]" "ct_room c1 \<noteq> None"
    by (simp_all add: shows_texts_def)
  with assms(3) have st: "lm_stream (ct_adapter c1)" by (simp add: say_def)
  obtain r c2 where an: "answer_turn tu True c1 = (r, c2)" by fastforce
  from answer_turn_run [OF an a1(3)] obtain ps where ps: "shows_texts ps c1 c2" "[] \<notin> set ps"
    "\<And>x. r = Inr x \<Longrightarrow> x = (Text (concat ps), JInt (int (length ps)))" by blast
  have a2: "ct_adapter c2 = say ''user'' (Text input) (ct_adapter c)" "ct_sent c2 = ct_sent c @ [turn_prompt tu] @ ps" "ct_room c2 \<noteq> None"
    using ps(1) a1 by (simp_all add: shows_texts_def)
  show ?thesis
  proof (cases r)
    case (Inl e)
    with rest an st have "emit (error_text tu) c2 = (Inr (), c')" by (simp add: finish_turn_def)
    from emit_shows [OF this] a2 have "ct_adapter c' = say ''user'' (Text input) (ct_adapter c)"
      "ct_sent c' = ct_sent c @ [turn_prompt tu] @ ps @ [error_text tu]" by (simp_all add: shows_texts_def)
    with ps(2) show ?thesis
      by (intro exI [of _ ps] exI [of _ "error_text tu"]) (simp add: turn_outcome_def say_def error_text_def points_of_def)
  next
    case (Inr x)
    with ps(3) have x: "x = (Text (concat ps), JInt (int (length ps)))" by blast
    from rest an st Inr obtain v c3 where e: "emit (points_of [chr_nl]) c2 = (Inr v, c3)"
      and c': "c' = change_adapter (\<lambda>a. (say ''assistant'' (fst x) a)\<lparr>lm_queue := offer (turn_payload tu a x) (lm_queue a)\<rparr>) c3"
      by (auto simp: finish_turn_def elim!: seqE)
    from emit_shows [OF e] a2 have "ct_adapter c3 = say ''user'' (Text input) (ct_adapter c)"
      "ct_sent c3 = ct_sent c @ [turn_prompt tu] @ ps @ [points_of [chr_nl]]" by (simp_all add: shows_texts_def)
    with ps(2) c' x show ?thesis
      by (intro exI [of _ ps] exI [of _ "points_of [chr_nl]"])
        (simp add: turn_outcome_def say_def change_adapter_def turn_payload_def points_of_def)
  qed
qed

text \<open>
  C31. A streamed turn of a remote chat: the terminal shows the name of the assistant, the answer and a line
  break, and the answer it shows, however the network cuts the stream, is the text that is added to the
  conversation and reported, one token per piece; or the request fails, the question stays in the
  conversation, nothing is reported, and at most an error is shown after what was received.
\<close>

theorem chat_turn_shown:
  assumes "process_turn tu input c = (Inr (), c')" "\<not> wants_to_quit input" "lm_stream (ct_adapter c)" "ct_room c \<noteq> None"
    and "turn_prompt tu \<noteq> []"
  shows "\<exists>pieces fin.
    ct_sent c' = ct_sent c @ [turn_prompt tu] @ pieces @ [fin] \<and>
    (\<forall>s frames. map frame ([turn_prompt tu] @ pieces @ [fin]) = map Some frames \<longrightarrow> concat (so_in s) = concat frames \<longrightarrow>
       concat (receive_loop s) = turn_prompt tu @ concat pieces @ fin) \<and>
    (fin = points_of [chr_nl] \<and>
       lm_messages (ct_adapter c') = lm_messages (ct_adapter c) @ [(''user'', Text input), (''assistant'', Text (concat pieces))] \<and>
       lm_queue (ct_adapter c') = offer (turn_payload tu (ct_adapter c) (Text (concat pieces), JInt (int (length pieces)))) (lm_queue (ct_adapter c)) \<or>
     fin = error_text tu \<and>
       lm_messages (ct_adapter c') = lm_messages (ct_adapter c) @ [(''user'', Text input)] \<and>
       lm_queue (ct_adapter c') = lm_queue (ct_adapter c))"
proof -
  from process_turn_run [OF assms(1-4)] obtain pieces fin where p: "[] \<notin> set pieces" "fin \<noteq> []"
    "ct_sent c' = ct_sent c @ [turn_prompt tu] @ pieces @ [fin]" "turn_outcome tu input pieces fin (ct_adapter c) (ct_adapter c')" by blast
  moreover have "concat (receive_loop s) = turn_prompt tu @ concat pieces @ fin"
    if "map frame ([turn_prompt tu] @ pieces @ [fin]) = map Some frames" "concat (so_in s) = concat frames" for s frames
  proof -
    have "\<forall>t \<in> set ([turn_prompt tu] @ pieces @ [fin]). t \<noteq> []" using p(1,2) assms(5) by auto
    then have "takeWhile (\<lambda>t. t \<noteq> []) ([turn_prompt tu] @ pieces @ [fin]) = [turn_prompt tu] @ pieces @ [fin]"
      by (simp only: takeWhile_eq_all_conv)
    with receive_frames [OF that(1), of s] that(2) show ?thesis by (simp add: incoming_def)
  qed
  ultimately show ?thesis unfolding turn_outcome_def by blast
qed


text \<open>A turn of two pieces, a line that is no chunk between them, over a connection that holds.\<close>

definition sample_turn :: turn where
  "sample_turn =
     \<lparr>tu_answer = Some \<lparr>an_status = 200, an_lines = [[0x31], [], [0x7B], [0x32], [100, 97, 116, 97, 58, 32, 91, 68, 79, 78, 69, 93]], an_broken = False, an_json = None\<rparr>,
      tu_error = [],
      tu_loads = (\<lambda>t.
        if t = [49] then Some (JObj [(''choices'', JArr [JObj [(''delta'', JObj [(''content'', JStr ''Hel'')])]])])
        else if t = [50] then Some (JObj [(''choices'', JArr [JObj [(''delta'', JObj [(''content'', JStr ''lo'')])]])])
        else None),
      tu_span = \<lparr>sp_start = [], sp_end = [], sp_duration = []\<rparr>, tu_blue = [], tu_green = [], tu_reset = []\<rparr>"

definition sample_chat :: chat where
  "sample_chat =
     \<lparr>ct_adapter = \<lparr>lm_model_id = ''m'', lm_running = True, lm_queue = [], lm_messages = [], lm_stream = True, lm_temperature = JNull\<rparr>,
      ct_sent = [], ct_room = Some 9, ct_sock = \<lparr>so_in = [], so_reset = False\<rparr>\<rparr>"

lemmas sample_simps =
  process_turn_def finish_turn_def answer_turn_def sample_turn_def sample_chat_def turn_prompt_def points_of_def seq_def ret_def emit_def
  frame_def utf8_encode_def utf8_point_def scalar_def wants_to_quit_def lower_point_def change_adapter_def say_def show_content_def
  utf8_decode_def delta_content_def field_def get_field_def to_bytes4_def Let_def

lemma sample_pieces:
  "fst (process_turn sample_turn (points_of ''Hi'') sample_chat) = Inr ()"
  "ct_sent (snd (process_turn sample_turn (points_of ''Hi'') sample_chat)) = map points_of [''Assistant: '', ''Hel'', ''lo'', [chr_nl]]"
  by (simp_all add: sample_simps)

theorem chat_turn_shown_witness:
  "\<exists>c'. process_turn sample_turn (points_of ''Hi'') sample_chat = (Inr (), c') \<and>
     lm_messages (ct_adapter c') = [(''user'', Text (points_of ''Hi'')), (''assistant'', Text (points_of ''Hello''))] \<and>
     length (lm_queue (ct_adapter c')) = 1"
proof -
  obtain c' where p: "process_turn sample_turn (points_of ''Hi'') sample_chat = (Inr (), c')"
    using sample_pieces(1) by (cases "process_turn sample_turn (points_of ''Hi'') sample_chat") simp
  have w: "\<not> wants_to_quit (points_of ''Hi'')" "lm_stream (ct_adapter sample_chat)" "ct_room sample_chat \<noteq> None" "turn_prompt sample_turn \<noteq> []"
    by (simp_all add: wants_to_quit_def points_of_def lower_point_def sample_chat_def turn_prompt_def)
  have sent: "ct_sent c' = map points_of [''Assistant: '', ''Hel'', ''lo'', [chr_nl]]"
    using sample_pieces(2) by (simp add: p)
  obtain pieces fin where t: "ct_sent c' = ct_sent sample_chat @ [turn_prompt sample_turn] @ pieces @ [fin]"
    "fin = points_of [chr_nl] \<and>
       lm_messages (ct_adapter c') = lm_messages (ct_adapter sample_chat) @ [(''user'', Text (points_of ''Hi'')), (''assistant'', Text (concat pieces))] \<and>
       lm_queue (ct_adapter c') =
         offer (turn_payload sample_turn (ct_adapter sample_chat) (Text (concat pieces), JInt (int (length pieces)))) (lm_queue (ct_adapter sample_chat)) \<or>
     fin = error_text sample_turn \<and>
       lm_messages (ct_adapter c') = lm_messages (ct_adapter sample_chat) @ [(''user'', Text (points_of ''Hi''))] \<and>
       lm_queue (ct_adapter c') = lm_queue (ct_adapter sample_chat)"
    using chat_turn_shown [OF p w] by blast
  have "map points_of [''Hel'', ''lo'', [chr_nl]] = pieces @ [fin]"
    using t(1) sent by (simp add: sample_chat_def)
  then have "fin = points_of [chr_nl]" "concat pieces = points_of ''Hello''"
    by (auto simp: Cons_eq_append_conv points_of_def)
  moreover from this have "fin \<noteq> error_text sample_turn" by (simp add: error_text_def points_of_def)
  ultimately show ?thesis using p t(2) by (simp add: sample_chat_def offer_def QUEUE_SIZE_def)
qed

end
