(* ===== verification/Detector.thy ===== *)
theory Detector
  imports Language_Model "HOL-Library.Sublist"
begin

text \<open>
  \<open>plugins/image_classifier/adapter.py\<close> and \<open>plugins/audio_classifier/adapter.py\<close>: a stream of classifications
  becomes a sequence of events.  Both files have the same two methods, \<open>_process_event_state\<close> and
  \<open>_finalise_event\<close>; their loops differ in where the classifications come from.

  Scores and times are values of any linear order \<open>'t\<close>, with \<open>sub\<close> for the subtraction of floats: nothing but
  comparisons and differences is computed with them.  (A score that is NaN is below every threshold, in Python
  and here, when it is read as a least value.)  The interpreter, the camera and the sound device are parameters.
\<close>

section \<open>Events\<close>

record 't event =
  ev_label :: string
  ev_start :: 't
  ev_end :: 't
  ev_max :: 't

record 't settings =
  se_threshold :: 't
  se_min_duration :: 't
  se_min_interval :: 't

text \<open>The three readings of the clock during one call: at its begin, for the interval, and for the record of it.\<close>

record 't clock =
  ck_now :: 't
  ck_check :: 't
  ck_mark :: 't

record 't detector =
  de_event :: "'t event option"
  de_last_label :: "string option"
  de_last_time :: 't

definition new_detector :: "'t \<Rightarrow> 't detector" where
  "new_detector zero = \<lparr>de_event = None, de_last_label = None, de_last_time = zero\<rparr>"

definition reportable :: "('t::linorder \<Rightarrow> 't \<Rightarrow> 't) \<Rightarrow> 't settings \<Rightarrow> 't \<Rightarrow> 't clock \<Rightarrow> 't event \<Rightarrow> bool" where
  "reportable sub se last_time ck e \<longleftrightarrow>
     se_min_duration se \<le> sub (ev_end e) (ev_start e) \<and> se_min_interval se \<le> sub (ck_check ck) last_time"

definition finalise_event ::
    "('t::linorder \<Rightarrow> 't \<Rightarrow> 't) \<Rightarrow> 't settings \<Rightarrow> 't clock \<Rightarrow> 't detector \<Rightarrow> 't event option \<times> 't detector" where
  "finalise_event sub se ck d =
     (case de_event d of
        None \<Rightarrow> (None, d)
      | Some e \<Rightarrow>
          if reportable sub se (de_last_time d) ck e then (Some e, d\<lparr>de_last_time := ck_mark ck\<rparr>) else (None, d))"

definition open_event :: "string \<Rightarrow> 't \<Rightarrow> 't \<Rightarrow> 't event" where
  "open_event label score now = \<lparr>ev_label = label, ev_start = now, ev_end = now, ev_max = score\<rparr>"

definition process_event_state ::
    "('t::linorder \<Rightarrow> 't \<Rightarrow> 't) \<Rightarrow> 't settings \<Rightarrow> 't clock \<Rightarrow> string \<Rightarrow> 't \<Rightarrow> 't detector \<Rightarrow> 't event option \<times> 't detector" where
  "process_event_state sub se ck label score d =
     (if se_threshold se \<le> score then
        (case de_event d of
           Some e \<Rightarrow>
             if de_last_label d = Some label
             then (None, d\<lparr>de_event := Some (e\<lparr>ev_max := max (ev_max e) score, ev_end := ck_now ck\<rparr>)\<rparr>)
             else (case finalise_event sub se ck d of
                     (r, d1) \<Rightarrow> (r, d1\<lparr>de_event := Some (open_event label score (ck_now ck)), de_last_label := Some label\<rparr>))
         | None \<Rightarrow> (None, d\<lparr>de_event := Some (open_event label score (ck_now ck)), de_last_label := Some label\<rparr>))
      else
        (case de_event d of
           Some e \<Rightarrow> (case finalise_event sub se ck d of (r, d1) \<Rightarrow> (r, d1\<lparr>de_event := None, de_last_label := None\<rparr>))
         | None \<Rightarrow> (None, d\<lparr>de_last_label := None\<rparr>)))"

type_synonym 't observation = "string \<times> 't \<times> 't clock"

fun detect :: "('t::linorder \<Rightarrow> 't \<Rightarrow> 't) \<Rightarrow> 't settings \<Rightarrow> 't observation list \<Rightarrow> 't detector \<Rightarrow> 't event list \<times> 't detector" where
  "detect sub se [] d = ([], d)"
| "detect sub se ((label, score, ck) # os) d =
     (case process_event_state sub se ck label score d of
        (r, d1) \<Rightarrow> (case detect sub se os d1 of (rs, d2) \<Rightarrow> (case r of None \<Rightarrow> rs | Some e \<Rightarrow> e # rs, d2)))"

text \<open>
  The payload of an event; \<open>shown\<close> are the texts of a rounded confidence, a time and a rounded duration.
\<close>

definition event_payload ::
    "('t \<Rightarrow> 't \<Rightarrow> 't) \<Rightarrow> ('t \<Rightarrow> string) \<Rightarrow> ('t \<Rightarrow> string) \<Rightarrow> ('t \<Rightarrow> string) \<Rightarrow> string \<Rightarrow> string \<Rightarrow> string \<Rightarrow> 't event \<Rightarrow> payload" where
  "event_payload sub show_conf show_time show_duration model_id sub_type source e =
     \<lparr>pl_model_id = model_id, pl_model_type = ''classification'', pl_sub_model_type = sub_type, pl_output_type = ''text'',
      pl_output = Text (points_of (ev_label e)), pl_confidence = show_conf (ev_max e),
      pl_span = \<lparr>sp_start = show_time (ev_start e), sp_end = show_time (ev_end e),
        sp_duration = show_duration (sub (ev_end e) (ev_start e))\<rparr>,
      pl_metadata = [(''source'', JStr source)]\<rparr>"

section \<open>Runs of equal labels\<close>

text \<open>
  The reference: the maximal runs of successive observations with one label and scores of at least the threshold,
  each with the observation that ended it.  A run that is still open is not among them.
\<close>

definition belongs :: "'t::linorder \<Rightarrow> string \<Rightarrow> 't observation \<Rightarrow> bool" where
  "belongs threshold label o' \<longleftrightarrow> fst o' = label \<and> threshold \<le> fst (snd o')"

function runs_of :: "'t::linorder \<Rightarrow> 't observation list \<Rightarrow> ('t observation list \<times> 't observation) list" where
  "runs_of threshold [] = []"
| "runs_of threshold (o' # os) =
     (if threshold \<le> fst (snd o') then
        (case dropWhile (belongs threshold (fst o')) os of
           [] \<Rightarrow> []
         | c # rest \<Rightarrow> (o' # takeWhile (belongs threshold (fst o')) os, c) # runs_of threshold (c # rest))
      else runs_of threshold os)"
  by pat_completeness auto
termination
proof (relation "measure (\<lambda>(t, os). length os)")
  fix threshold :: 'a and o' :: "'a observation" and os c rest
  assume "dropWhile (belongs threshold (fst o')) os = c # rest"
  with length_dropWhile_le [of "belongs threshold (fst o')" os]
  show "((threshold, c # rest), threshold, o' # os) \<in> measure (\<lambda>(t, os). length os)" by simp
qed auto

declare runs_of.simps(2) [simp del]

definition run_event :: "'t::linorder observation list \<Rightarrow> 't event" where
  "run_event run =
     \<lparr>ev_label = fst (hd run), ev_start = ck_now (snd (snd (hd run))), ev_end = ck_now (snd (snd (last run))),
      ev_max = Max (set (map (\<lambda>o'. fst (snd o')) run))\<rparr>"

text \<open>Which runs are reported: long enough, and long enough after the last report.\<close>

fun reports :: "('t::linorder \<Rightarrow> 't \<Rightarrow> 't) \<Rightarrow> 't settings \<Rightarrow> 't \<Rightarrow> ('t observation list \<times> 't observation) list \<Rightarrow> 't event list" where
  "reports sub se last_time [] = []"
| "reports sub se last_time ((run, c) # rs) =
     (if reportable sub se last_time (snd (snd c)) (run_event run)
      then run_event run # reports sub se (ck_mark (snd (snd c))) rs
      else reports sub se last_time rs)"


section \<open>The events are the runs\<close>

lemma run_event_single [simp]: "run_event [(label, score, ck)] = open_event label score (ck_now ck)"
  by (simp add: run_event_def open_event_def)

lemma run_event_extended:
  assumes "run \<noteq> []"
  shows "run_event (run @ [(label, score, ck)]) = (run_event run)\<lparr>ev_max := max (ev_max (run_event run)) score, ev_end := ck_now ck\<rparr>"
  using assms by (simp add: run_event_def max.commute)

definition pending ::
    "('t::linorder \<Rightarrow> 't \<Rightarrow> 't) \<Rightarrow> 't settings \<Rightarrow> 't \<Rightarrow> 't observation list \<Rightarrow> 't observation list \<Rightarrow> 't event list" where
  "pending sub se last_time run os =
     (case dropWhile (belongs (se_threshold se) (fst (hd run))) os of
        [] \<Rightarrow> []
      | c # rest \<Rightarrow> reports sub se last_time
          ((run @ takeWhile (belongs (se_threshold se) (fst (hd run))) os, c) # runs_of (se_threshold se) (c # rest)))"

lemma runs_of_below [simp]: "\<not> threshold \<le> fst (snd o') \<Longrightarrow> runs_of threshold (o' # os) = runs_of threshold os"
  by (simp add: runs_of.simps(2))

lemma runs_of_open:
  "se_threshold se \<le> fst (snd o') \<Longrightarrow> reports sub se t (runs_of (se_threshold se) (o' # os)) = pending sub se t [o'] os"
  by (cases "dropWhile (belongs (se_threshold se) (fst o')) os") (simp_all add: runs_of.simps(2) [of _ o' os] pending_def del: dropWhile_eq_Nil_conv)

lemma pending_more:
  "run \<noteq> [] \<Longrightarrow> belongs (se_threshold se) (fst (hd run)) o' \<Longrightarrow> pending sub se t run (o' # os) = pending sub se t (run @ [o']) os"
  by (cases "dropWhile (belongs (se_threshold se) (fst (hd run))) os") (simp_all add: pending_def del: dropWhile_eq_Nil_conv)

lemma pending_closed:
  assumes "\<not> belongs (se_threshold se) (fst (hd run)) c"
  shows "pending sub se t run (c # os) =
    (if reportable sub se t (snd (snd c)) (run_event run)
     then run_event run # reports sub se (ck_mark (snd (snd c))) (runs_of (se_threshold se) (c # os))
     else reports sub se t (runs_of (se_threshold se) (c # os)))"
  using assms by (simp add: pending_def)

lemma detect_runs:
  "(de_event d = None \<longrightarrow> fst (detect sub se os d) = reports sub se (de_last_time d) (runs_of (se_threshold se) os)) \<and>
   (\<forall>run. run \<noteq> [] \<longrightarrow> de_event d = Some (run_event run) \<longrightarrow> de_last_label d = Some (fst (hd run)) \<longrightarrow>
      fst (detect sub se os d) = pending sub se (de_last_time d) run os)"
proof (induction os arbitrary: d)
  case Nil
  show ?case by (simp add: pending_def)
next
  case (Cons o' os)
  obtain label score ck where o': "o' = (label, score, ck)" by (cases o') auto
  obtain r d1 where p: "process_event_state sub se ck label score d = (r, d1)" by fastforce
  have step: "fst (detect sub se (o' # os) d) = (case r of None \<Rightarrow> [] | Some e \<Rightarrow> [e]) @ fst (detect sub se os d1)"
    by (simp add: o' p split: prod.splits option.splits)
  note idle = Cons.IH [THEN conjunct1, rule_format] and going = Cons.IH [THEN conjunct2, rule_format]
  show ?case
  proof (intro conjI allI impI)
    assume none: "de_event d = None"
    show "fst (detect sub se (o' # os) d) = reports sub se (de_last_time d) (runs_of (se_threshold se) (o' # os))"
    proof (cases "se_threshold se \<le> score")
      case True
      with p none have "r = None" "de_event d1 = Some (run_event [o'])" "de_last_label d1 = Some (fst (hd [o']))" "de_last_time d1 = de_last_time d"
        by (auto simp: process_event_state_def o')
      with step going [of "[o']" d1] runs_of_open [of se o'] True o' show ?thesis by simp
    next
      case False
      with p none have "r = None" "de_event d1 = None" "de_last_time d1 = de_last_time d"
        by (auto simp: process_event_state_def)
      with step idle False o' show ?thesis by simp
    qed
  next
    fix run assume run: "run \<noteq> []" "de_event d = Some (run_event run)" "de_last_label d = Some (fst (hd run))"
    show "fst (detect sub se (o' # os) d) = pending sub se (de_last_time d) run (o' # os)"
    proof (cases "belongs (se_threshold se) (fst (hd run)) o'")
      case True
      with p run have "r = None" "de_event d1 = Some (run_event (run @ [o']))" "de_last_label d1 = Some (fst (hd (run @ [o'])))"
        "de_last_time d1 = de_last_time d"
        by (auto simp: process_event_state_def o' belongs_def run_event_extended)
      with step going [of "run @ [o']" d1] pending_more [OF run(1) True] show ?thesis by simp
    next
      case False
      let ?ok = "reportable sub se (de_last_time d) ck (run_event run)"
      have fin: "finalise_event sub se ck d =
          (if ?ok then (Some (run_event run), d\<lparr>de_last_time := ck_mark ck\<rparr>) else (None, d))"
        using run by (simp add: finalise_event_def)
      have out: "r = (if ?ok then Some (run_event run) else None)" "de_last_time d1 = (if ?ok then ck_mark ck else de_last_time d)"
        using p run False by (auto simp: process_event_state_def o' belongs_def fin split: if_splits)
      have rest: "fst (detect sub se os d1) = reports sub se (de_last_time d1) (runs_of (se_threshold se) (o' # os))"
      proof (cases "se_threshold se \<le> score")
        case True
        with p run False have "de_event d1 = Some (run_event [o'])" "de_last_label d1 = Some (fst (hd [o']))"
          by (auto simp: process_event_state_def o' belongs_def fin split: if_splits)
        with going [of "[o']" d1] runs_of_open [of se o'] True o' show ?thesis by simp
      next
        case below: False
        with p run have "de_event d1 = None"
          by (auto simp: process_event_state_def fin split: if_splits)
        with idle below o' show ?thesis by simp
      qed
      from step out rest pending_closed [OF False, of sub "de_last_time d" os] show ?thesis by (simp add: o' del: detect.simps)
    qed
  qed
qed


section \<open>Handing events over\<close>

text \<open>
  The queue of one place between the worker and the caller.  The worker looks whether it is full, takes the old
  event out if it was, and puts the new one in, which would wait for a place; the caller takes at any time.
  \<open>sl_made\<close> and \<open>sl_taken\<close> are the events so far.
\<close>

datatype 'p hand = Idle | Looked 'p bool | Holding 'p

record 'p slot =
  sl_queue :: "'p list"
  sl_hand :: "'p hand"
  sl_made :: "'p list"
  sl_taken :: "'p list"

definition empty_slot :: "'p slot" where
  "empty_slot = \<lparr>sl_queue = [], sl_hand = Idle, sl_made = [], sl_taken = []\<rparr>"

inductive slot_step :: "'p slot \<Rightarrow> 'p slot \<Rightarrow> bool" where
  look: "sl_hand s = Idle \<Longrightarrow> slot_step s (s\<lparr>sl_hand := Looked p (1 \<le> length (sl_queue s))\<rparr>)"
| drop: "sl_hand s = Looked p True \<Longrightarrow> slot_step s (s\<lparr>sl_queue := tl (sl_queue s), sl_hand := Holding p\<rparr>)"
| keep: "sl_hand s = Looked p False \<Longrightarrow> slot_step s (s\<lparr>sl_hand := Holding p\<rparr>)"
| put: "sl_hand s = Holding p \<Longrightarrow> length (sl_queue s) < 1 \<Longrightarrow>
    slot_step s (s\<lparr>sl_queue := sl_queue s @ [p], sl_hand := Idle, sl_made := sl_made s @ [p]\<rparr>)"
| take: "sl_queue s = p # q \<Longrightarrow> slot_step s (s\<lparr>sl_queue := q, sl_taken := sl_taken s @ [p]\<rparr>)"

inductive reachable_slot :: "'p slot \<Rightarrow> bool" where
  start: "reachable_slot empty_slot"
| step: "reachable_slot s \<Longrightarrow> slot_step s s' \<Longrightarrow> reachable_slot s'"

definition slot_inv :: "'p slot \<Rightarrow> bool" where
  "slot_inv s \<longleftrightarrow> (sl_queue s = [] \<or> sl_made s \<noteq> [] \<and> sl_queue s = [last (sl_made s)]) \<and>
     subseq (sl_taken s) (if sl_queue s = [] then sl_made s else butlast (sl_made s)) \<and>
     (\<forall>p. sl_hand s = Holding p \<or> sl_hand s = Looked p False \<longrightarrow> sl_queue s = [])"

lemma subseq_butlast: "subseq (butlast xs) xs"
  by (cases xs rule: rev_cases) (auto intro: list_emb_append2)

lemma slot_inv_step: "slot_step s s' \<Longrightarrow> slot_inv s \<Longrightarrow> slot_inv s'"
proof (induction rule: slot_step.induct)
  case (drop s p)
  then show ?case
    using subseq_butlast [of "sl_made s"] by (auto simp: slot_inv_def intro: subseq_order.order_trans)
next
  case (take s p q)
  then have "sl_made s \<noteq> []" "q = []" "p = last (sl_made s)" "subseq (sl_taken s) (butlast (sl_made s))"
    by (auto simp: slot_inv_def)
  moreover from this have "subseq (sl_taken s @ [p]) (butlast (sl_made s) @ [p])" by (intro list_emb_append_mono) simp_all
  ultimately show ?case using take by (auto simp: slot_inv_def append_butlast_last_id)
qed (auto simp: slot_inv_def)

text \<open>
  However the worker and the caller interleave, the worker never waits for a place in the queue, the caller
  gets every event at most once and in order, and an event it finds is always the newest one made.
\<close>

lemma newest_event_handed_over:
  assumes "reachable_slot s"
  shows "(sl_hand s = Holding p \<longrightarrow> (\<exists>s'. slot_step s s' \<and> sl_hand s' = Idle)) \<and> subseq (sl_taken s) (sl_made s) \<and>
    (sl_queue s = [] \<or> sl_queue s = [last (sl_made s)])"
proof -
  from assms have inv: "slot_inv s"
  proof (induction rule: reachable_slot.induct)
    case start
    show ?case by (simp add: slot_inv_def empty_slot_def)
  qed (rule slot_inv_step)
  then have "subseq (sl_taken s) (sl_made s)"
    using subseq_butlast [of "sl_made s"] by (auto simp: slot_inv_def intro: subseq_order.order_trans split: if_splits)
  moreover have "\<exists>s'. slot_step s s' \<and> sl_hand s' = Idle" if "sl_hand s = Holding p"
    using slot_step.put [OF that] inv that by (auto simp: slot_inv_def)
  ultimately show ?thesis using inv by (auto simp: slot_inv_def)
qed

definition two_made :: "nat slot" where
  "two_made = \<lparr>sl_queue = [8], sl_hand = Idle, sl_made = [7, 8], sl_taken = []\<rparr>"

lemma reachable_two: "reachable_slot two_made"
proof -
  note a = reachable_slot.step [OF reachable_slot.start slot_step.look [where p = 7]]
  note b = reachable_slot.step [OF a slot_step.keep]
  note c = reachable_slot.step [OF b slot_step.put]
  note d = reachable_slot.step [OF c slot_step.look [where p = 8]]
  note e = reachable_slot.step [OF d slot_step.drop]
  note f = reachable_slot.step [OF e slot_step.put]
  show ?thesis unfolding two_made_def by (rule f [simplified empty_slot_def, simplified]) (rule refl)+
qed

lemma newest_event_handed_over_witness:
  "subseq (sl_taken two_made) (sl_made two_made) \<and> sl_queue two_made = [last (sl_made two_made)]"
  using newest_event_handed_over [OF reachable_two] by (simp add: two_made_def)

text \<open>\<open>__call__\<close>: the next event, nothing, or the end (\<open>StopIteration\<close>) when there is none and the worker has ended.\<close>

datatype 'p called = Next 'p | Nothing | Ended

definition call_classifier :: "bool \<Rightarrow> bool \<Rightarrow> 'p slot \<Rightarrow> 'p called \<times> 'p slot" where
  "call_classifier running alive s =
     (case sl_queue s of
        p # q \<Rightarrow> (Next p, s\<lparr>sl_queue := q, sl_taken := sl_taken s @ [p]\<rparr>)
      | [] \<Rightarrow> (if running \<and> alive then Nothing else Ended, s))"

text \<open>All the steps of the worker for one event.\<close>

definition put_newest :: "'p \<Rightarrow> 'p list \<Rightarrow> 'p list" where
  "put_newest p q = (if 1 \<le> length q then tl q else q) @ [p]"

section \<open>The sound\<close>

definition SAMPLE_RATE :: nat where "SAMPLE_RATE = 16000"
definition WINDOW_SIZE :: nat where "WINDOW_SIZE = 15600"
definition HOP_SIZE :: nat where "HOP_SIZE = 7680"
definition MAX_CONSECUTIVE_FAILURES :: nat where "MAX_CONSECUTIVE_FAILURES = 5"

text \<open>
  \<open>np.roll(buffer, -hop)\<close> and the assignment to the last \<open>hop\<close> samples; a chunk of another length does not fit, but
  that of a single sample is repeated.
\<close>

definition roll_in :: "nat \<Rightarrow> 's list \<Rightarrow> 's list \<Rightarrow> 's list option" where
  "roll_in hop chunk buffer =
     (let kept = take (length buffer - hop) (rotate hop buffer) in
      if length chunk = length buffer - length kept then Some (kept @ chunk)
      else if length chunk = 1 then Some (kept @ replicate (length buffer - length kept) (hd chunk))
      else None)"

lemma roll_in_fit:
  "length chunk = hop \<Longrightarrow> hop \<le> length buffer \<Longrightarrow> roll_in hop chunk buffer = Some (drop hop buffer @ chunk)"
  by (cases "hop = length buffer") (simp_all add: roll_in_def rotate_drop_take Let_def)

fun roll_all :: "nat \<Rightarrow> 's list list \<Rightarrow> 's list \<Rightarrow> 's list option" where
  "roll_all hop [] buffer = Some buffer"
| "roll_all hop (c # cs) buffer = Option.bind (roll_in hop c buffer) (roll_all hop cs)"

text \<open>
  After any number of chunks of the block size the buffer is exactly as long as before and holds the
  newest samples: the tail of the silence it began with and everything that was heard.
\<close>

lemma buffer_holds_newest:
  assumes "\<forall>c \<in> set chunks. length c = hop" "hop \<le> length buffer"
  shows "roll_all hop chunks buffer = Some (drop (length (concat chunks)) (buffer @ concat chunks))"
  using assms
proof (induction chunks arbitrary: buffer)
  case (Cons c cs)
  then have c: "length c = hop" "roll_in hop c buffer = Some (drop hop buffer @ c)" by (simp_all add: roll_in_fit)
  have "roll_all hop cs (drop hop buffer @ c) = Some (drop (length (concat cs)) ((drop hop buffer @ c) @ concat cs))"
    using Cons.prems c(1) by (intro Cons.IH) auto
  moreover have "drop hop buffer @ c @ concat cs = drop hop (buffer @ c @ concat cs)" using Cons.prems(2) by simp
  ultimately show ?case using c by (simp add: drop_drop add.commute del: drop_append)
qed simp

lemma buffer_holds_newest_witness:
  "roll_all 2 [[1, 2], [3, 4], [5, 6]] [0, 0, 0 :: nat] = Some [4, 5, 6]"
  using buffer_holds_newest [of "[[1, 2], [3, 4], [5, 6]]" 2 "[0, 0, 0 :: nat]"] by simp

section \<open>The worker of the sound classifier\<close>

text \<open>
  What the worker finds in one turn: nothing for a second, the sentinel, or a chunk with what the interpreter makes
  of the window (\<open>None\<close> is an exception).  The list ends when the worker finds \<open>running\<close> false.
\<close>

datatype ('s, 't) heard = Silence | Sentinel | Heard "'s list" "'s list \<Rightarrow> (string \<times> 't) option" "'t clock"

record ('s, 't) listening =
  li_buffer :: "'s list"
  li_failures :: nat
  li_detector :: "'t detector"
  li_queue :: "'t event list"
  li_running :: bool

fun inference_loop ::
    "nat \<Rightarrow> ('t::linorder \<Rightarrow> 't \<Rightarrow> 't) \<Rightarrow> 't settings \<Rightarrow> ('s, 't) heard list \<Rightarrow> ('s, 't) listening \<Rightarrow> ('s, 't) listening" where
  "inference_loop hop sub se [] l = l"
| "inference_loop hop sub se (Silence # hs) l = inference_loop hop sub se hs l"
| "inference_loop hop sub se (Sentinel # hs) l = l"
| "inference_loop hop sub se (Heard chunk infer ck # hs) l =
     (case roll_in hop chunk (li_buffer l) of
        None \<Rightarrow> l
      | Some window \<Rightarrow>
          (case infer window of
             None \<Rightarrow>
               let l1 = l\<lparr>li_buffer := window, li_failures := Suc (li_failures l)\<rparr> in
               if MAX_CONSECUTIVE_FAILURES \<le> li_failures l1 then l1\<lparr>li_running := False\<rparr>
               else inference_loop hop sub se hs l1
           | Some (label, score) \<Rightarrow>
               (case process_event_state sub se ck label score (li_detector l) of
                  (r, d) \<Rightarrow>
                    inference_loop hop sub se hs
                      (l\<lparr>li_buffer := window, li_failures := 0, li_detector := d,
                         li_queue := (case r of None \<Rightarrow> li_queue l | Some e \<Rightarrow> put_newest e (li_queue l))\<rparr>))))"

text \<open>Whether the inferences of a run of the loop succeed, in order.\<close>

fun outcomes :: "nat \<Rightarrow> ('s, 't) heard list \<Rightarrow> 's list \<Rightarrow> bool list" where
  "outcomes hop [] b = []"
| "outcomes hop (Silence # hs) b = outcomes hop hs b"
| "outcomes hop (Sentinel # hs) b = []"
| "outcomes hop (Heard chunk infer ck # hs) b =
     (case roll_in hop chunk b of None \<Rightarrow> [] | Some window \<Rightarrow> (infer window \<noteq> None) # outcomes hop hs window)"

lemma failures_prefix:
  "k < n \<Longrightarrow> sublist (replicate n False) (replicate k False @ True # oks) \<longleftrightarrow> sublist (replicate n False) oks"
proof (induction k)
  case 0
  then have "\<not> prefix (replicate n False) (True # oks)" by (cases n) auto
  then show ?case by (simp add: sublist_Cons_right)
next
  case (Suc k)
  have "\<not> prefix (replicate n False) (replicate (Suc k) False @ True # oks)"
  proof
    assume "prefix (replicate n False) (replicate (Suc k) False @ True # oks)"
    then have "(replicate (Suc k) False @ True # oks) ! Suc k = replicate n False ! Suc k"
      using Suc.prems by (metis length_replicate nth_append prefix_def)
    then show False using Suc.prems by (simp add: nth_append)
  qed
  with Suc show ?case by (simp add: sublist_Cons_right)
qed

lemma inference_loop_running:
  assumes "li_running l" "li_failures l < MAX_CONSECUTIVE_FAILURES"
  shows "li_running (inference_loop hop sub se hs l) \<longleftrightarrow>
    \<not> sublist (replicate MAX_CONSECUTIVE_FAILURES False) (replicate (li_failures l) False @ outcomes hop hs (li_buffer l))"
  using assms
proof (induction hop sub se hs l rule: inference_loop.induct)
  case (4 hop sub se chunk infer ck hs l)
  let ?few = "\<not> sublist (replicate MAX_CONSECUTIVE_FAILURES False) (replicate (li_failures l) False)"
  have few: ?few using 4(4) by (auto dest: sublist_length_le)
  show ?case
  proof (cases "roll_in hop chunk (li_buffer l)")
    case None
    with few 4(3) show ?thesis by simp
  next
    case (Some window)
    show ?thesis
    proof (cases "infer window")
      case None
      show ?thesis
      proof (cases "MAX_CONSECUTIVE_FAILURES \<le> Suc (li_failures l)")
        case True
        with 4(4) have "MAX_CONSECUTIVE_FAILURES = Suc (li_failures l)" by simp
        then have "sublist (replicate MAX_CONSECUTIVE_FAILURES False) (replicate (li_failures l) False @ False # outcomes hop hs window)"
          by (metis append_Cons append_assoc append_Nil replicate_Suc replicate_append_same sublist_append_rightI)
        with True Some None show ?thesis by simp
      next
        case False
        with 4(1) [OF Some None refl] 4(3) Some None show ?thesis
          by (simp add: replicate_app_Cons_same)
      qed
    next
      case (Some x)
      obtain label score where x: "x = (label, score)" by fastforce
      obtain r d where p: "process_event_state sub se ck label score (li_detector l) = (r, d)" by fastforce
      from 4(2) [OF \<open>roll_in hop chunk (li_buffer l) = Some window\<close> Some x [symmetric] p [symmetric]] 4(3)
      show ?thesis
        using \<open>roll_in hop chunk (li_buffer l) = Some window\<close> Some x p failures_prefix [OF 4(4)]
        by (simp add: MAX_CONSECUTIVE_FAILURES_def)
    qed
  qed
qed (auto dest: sublist_length_le)

text \<open>
  The worker of the sound classifier gives up exactly when five inferences in a row have failed;
  fewer, with a success between them, it survives, however many they are in all.
\<close>

lemma worker_gives_up:
  assumes "li_running l" "li_failures l = 0"
  shows "li_running (inference_loop hop sub se hs l) \<longleftrightarrow> \<not> sublist (replicate 5 False) (outcomes hop hs (li_buffer l))"
  using inference_loop_running [of l hop sub se hs] assms by (simp add: MAX_CONSECUTIVE_FAILURES_def)

definition fresh_listening :: "(nat, nat) listening" where
  "fresh_listening = \<lparr>li_buffer = [0], li_failures = 0, li_detector = new_detector 0, li_queue = [], li_running = True\<rparr>"

definition failing :: "(nat, nat) heard" where
  "failing = Heard [1] (\<lambda>w. None) \<lparr>ck_now = 0, ck_check = 0, ck_mark = 0\<rparr>"

lemma worker_gives_up_witness:
  "\<not> li_running (inference_loop 1 (-) \<lparr>se_threshold = 1, se_min_duration = 1, se_min_interval = 0\<rparr> (replicate 5 failing) fresh_listening)"
proof -
  have "outcomes 1 (replicate 5 failing) (li_buffer fresh_listening) = replicate 5 False"
    by (simp add: numeral_eq_Suc failing_def fresh_listening_def roll_in_def)
  with worker_gives_up [of fresh_listening 1 "(-)" _ "replicate 5 failing"] show ?thesis
    by (simp add: fresh_listening_def)
qed

section \<open>Stopping the sound classifier\<close>

text \<open>
  The queue of ten places between the callback of the sound device and the worker; \<open>stop\<close> clears \<open>running\<close>, which
  ends the callback, and then puts the sentinel, for which it waits without limit.
\<close>

definition AUDIO_PLACES :: nat where "AUDIO_PLACES = 10"

definition audio_callback :: "bool \<Rightarrow> 'c \<Rightarrow> 'c option list \<Rightarrow> 'c option list" where
  "audio_callback running chunk q = (if running \<and> length q < AUDIO_PLACES then q @ [Some chunk] else q)"

datatype worker = Checking | Getting | Inferring | Gone
datatype stopping = NotCalled | Sending | Sent

record 'c sound =
  so_queue :: "'c option list"
  so_running :: bool
  so_worker :: worker
  so_stop :: stopping

inductive sound_step :: "'c sound \<Rightarrow> 'c sound \<Rightarrow> bool" where
  callback: "sound_step s (s\<lparr>so_queue := audio_callback (so_running s) chunk (so_queue s)\<rparr>)"
| check: "so_worker s = Checking \<Longrightarrow> sound_step s (s\<lparr>so_worker := (if so_running s then Getting else Gone)\<rparr>)"
| empty: "so_worker s = Getting \<Longrightarrow> so_queue s = [] \<Longrightarrow> sound_step s (s\<lparr>so_worker := Checking\<rparr>)"
| got: "so_worker s = Getting \<Longrightarrow> so_queue s = c # q \<Longrightarrow>
    sound_step s (s\<lparr>so_queue := q, so_worker := (if c = None then Gone else Inferring)\<rparr>)"
| inferred: "so_worker s = Inferring \<Longrightarrow> sound_step s (s\<lparr>so_worker := Checking\<rparr>)"
| gives_up: "so_worker s = Inferring \<Longrightarrow> sound_step s (s\<lparr>so_worker := Gone, so_running := False\<rparr>)"
| stop: "so_stop s = NotCalled \<Longrightarrow> sound_step s (s\<lparr>so_running := False, so_stop := Sending\<rparr>)"
| sent: "so_stop s = Sending \<Longrightarrow> length (so_queue s) < AUDIO_PLACES \<Longrightarrow>
    sound_step s (s\<lparr>so_queue := so_queue s @ [None], so_stop := Sent\<rparr>)"

text \<open>
  When \<open>stop\<close> is called while the worker infers and the queue is full, nobody takes from the queue any more:
  the worker sees that \<open>running\<close> is false and ends, and \<open>stop\<close> waits for ever.
\<close>

definition stuck :: "'c sound \<Rightarrow> bool" where
  "stuck s \<longleftrightarrow> AUDIO_PLACES \<le> length (so_queue s) \<and> \<not> so_running s \<and> so_worker s \<noteq> Getting \<and> so_stop s = Sending"

lemma stuck_step: "sound_step s s' \<Longrightarrow> stuck s \<Longrightarrow> stuck s'"
  by (induction rule: sound_step.induct) (auto simp: stuck_def audio_callback_def)

lemma stop_hangs:
  assumes "so_worker s = Inferring" "so_stop s = NotCalled" "AUDIO_PLACES \<le> length (so_queue s)"
    and "sound_step\<^sup>*\<^sup>* (s\<lparr>so_running := False, so_stop := Sending\<rparr>) s'"
  shows "so_stop s' = Sending"
proof -
  have "stuck (s\<lparr>so_running := False, so_stop := Sending\<rparr>)" using assms(1-3) by (simp add: stuck_def)
  with assms(4) have "stuck s'" by (induction rule: rtranclp_induct) (auto intro: stuck_step)
  then show ?thesis by (simp add: stuck_def)
qed

text \<open>A worker that is slower than the sound gets there.\<close>

lemma callbacks_fill:
  "n \<le> AUDIO_PLACES \<Longrightarrow>
   sound_step\<^sup>*\<^sup>* \<lparr>so_queue = [], so_running = True, so_worker = w, so_stop = p\<rparr>
     \<lparr>so_queue = replicate n (Some c), so_running = True, so_worker = w, so_stop = p\<rparr>"
proof (induction n)
  case (Suc n)
  then show ?case
    using sound_step.callback [of "\<lparr>so_queue = replicate n (Some c), so_running = True, so_worker = w, so_stop = p\<rparr>" c]
    by (auto simp: audio_callback_def replicate_append_same intro: rtranclp.rtrancl_into_rtrancl)
qed simp

lemma full_queue_reached:
  "sound_step\<^sup>*\<^sup>* \<lparr>so_queue = [], so_running = True, so_worker = Checking, so_stop = NotCalled\<rparr>
     \<lparr>so_queue = replicate AUDIO_PLACES (Some c), so_running = True, so_worker = Inferring, so_stop = NotCalled\<rparr>"
proof -
  let ?s = "\<lambda>q w. \<lparr>so_queue = q, so_running = True, so_worker = w, so_stop = NotCalled\<rparr>"
  have "sound_step\<^sup>*\<^sup>* (?s [] Checking) (?s [Some c] Checking)"
    using callbacks_fill [of 1 Checking NotCalled c] by (simp add: AUDIO_PLACES_def)
  moreover have "sound_step (?s [Some c] Checking) (?s [Some c] Getting)"
    using sound_step.check [of "?s [Some c] Checking"] by simp
  moreover have "sound_step (?s [Some c] Getting) (?s [] Inferring)"
    using sound_step.got [of "?s [Some c] Getting" "Some c" "[]"] by simp
  moreover have "sound_step\<^sup>*\<^sup>* (?s [] Inferring) (?s (replicate AUDIO_PLACES (Some c)) Inferring)"
    by (rule callbacks_fill) simp
  ultimately show ?thesis by (meson rtranclp.rtrancl_into_rtrancl rtranclp_trans)
qed

section \<open>The worker of the image classifier\<close>

text \<open>
  One turn of the loop: \<open>running\<close> and the camera when it begins, whether a frame was read, what the interpreter makes
  of it, whether the key \<open>q\<close> was pressed, and whether the window is visible (\<open>None\<close> is an exception).
\<close>

record 't turn_seen =
  ts_stopped :: bool
  ts_open :: bool
  ts_frame :: bool
  ts_result :: "(string \<times> 't) option"
  ts_clock :: "'t clock"
  ts_key :: bool
  ts_window :: "bool option"

record 't watching =
  wa_detector :: "'t detector"
  wa_queue :: "'t event list"
  wa_running :: bool

fun capture_loop ::
    "('t::linorder \<Rightarrow> 't \<Rightarrow> 't) \<Rightarrow> 't settings \<Rightarrow> bool \<Rightarrow> 't turn_seen list \<Rightarrow> 't watching \<Rightarrow> 't watching" where
  "capture_loop sub se show_window [] w = w"
| "capture_loop sub se show_window (t # ts) w =
     (let running = (wa_running w \<and> \<not> ts_stopped t) in
      if \<not> running \<or> \<not> ts_open t \<or> \<not> ts_frame t then w\<lparr>wa_running := running\<rparr>
      else case ts_result t of
        None \<Rightarrow> capture_loop sub se show_window ts w
      | Some (label, score) \<Rightarrow>
          (case process_event_state sub se (ts_clock t) label score (wa_detector w) of
             (r, d) \<Rightarrow>
               capture_loop sub se show_window ts
                 \<lparr>wa_detector = d, wa_queue = (case r of None \<Rightarrow> wa_queue w | Some e \<Rightarrow> put_newest e (wa_queue w)),
                  wa_running = (\<not> (show_window \<and> (ts_key t \<or> ts_window t \<noteq> Some True)))\<rparr>))"

text \<open>What the loop has classified, until it ends.\<close>

fun observed :: "bool \<Rightarrow> 't turn_seen list \<Rightarrow> 't observation list" where
  "observed show_window [] = []"
| "observed show_window (t # ts) =
     (if ts_stopped t \<or> \<not> ts_open t \<or> \<not> ts_frame t then []
      else case ts_result t of
        None \<Rightarrow> observed show_window ts
      | Some (label, score) \<Rightarrow>
          (label, score, ts_clock t) #
          (if show_window \<and> (ts_key t \<or> ts_window t \<noteq> Some True) then [] else observed show_window ts))"

lemma capture_ends: "\<not> wa_running w \<Longrightarrow> capture_loop sub se show_window ts w = w"
  by (cases ts) simp_all

lemma capture_detects:
  "wa_running w \<Longrightarrow>
   wa_detector (capture_loop sub se show_window ts w) = snd (detect sub se (observed show_window ts) (wa_detector w))"
  by (induction sub se show_window ts w rule: capture_loop.induct)
    (auto simp: Let_def capture_ends split: option.splits prod.splits)

section \<open>Labels\<close>

text \<open>Reading a text file translates the ends of lines; a last line without an end counts.\<close>

function universal_newlines :: "string \<Rightarrow> string" where
  "universal_newlines [] = []"
| "universal_newlines (c # s) =
     (if c = CHR 0x0D then chr_nl # universal_newlines (after_cr c s) else c # universal_newlines s)"
  by pat_completeness auto
termination
  by (relation "measure length") (auto simp: less_Suc_eq_le length_after_cr)

fun cut_lines :: "string \<Rightarrow> string \<Rightarrow> string list" where
  "cut_lines w [] = (if w = [] then [] else [rev w])"
| "cut_lines w (c # s) = (if c = chr_nl then rev w # cut_lines [] s else cut_lines (c # w) s)"

definition file_labels :: "string \<Rightarrow> string list" where
  "file_labels s = map py_strip (cut_lines [] (universal_newlines s))"

definition generic_labels :: "string \<Rightarrow> nat \<Rightarrow> string list" where
  "generic_labels p n = map (\<lambda>i. p @ show_nat i) [0..<n]"

text \<open>
  The downloaded list is written beside the model, or where the configuration names it; \<open>None\<close> for \<open>got\<close> is any
  exception.  The result is \<open>None\<close> when the file that is there cannot be read.
\<close>

definition save_labels :: "apath \<Rightarrow> string \<Rightarrow> fs \<Rightarrow> bool \<times> fs" where
  "save_labels target text fs =
     (case mkdirs fs (butlast target) of
        None \<Rightarrow> (False, fs)
      | Some fs1 \<Rightarrow> (case write_text fs1 target text of None \<Rightarrow> (False, fs1) | Some fs2 \<Rightarrow> (True, fs2)))"

definition image_labels :: "apath option \<Rightarrow> apath \<Rightarrow> string option \<Rightarrow> fs \<Rightarrow> string list option \<times> fs" where
  "image_labels labels_path model_path got fs =
     (let target = (case labels_path of Some p \<Rightarrow> p | None \<Rightarrow> butlast model_path @ [''imagenet_labels.txt'']) in
      if path_exists fs target then (map_option file_labels (read_text fs target), fs)
      else case got of
        None \<Rightarrow> (Some (generic_labels ''Class '' 1001), fs)
      | Some text \<Rightarrow>
          (case save_labels target text fs of
             (True, fs1) \<Rightarrow> (Some (map py_strip (splitlines_acc [] text)), fs1)
           | (False, fs1) \<Rightarrow> (Some (generic_labels ''Class '' 1001), fs1)))"

text \<open>\<open>csv\<close> gives the column \<open>display_name\<close> of the text, \<open>None\<close> for any exception of the reader.\<close>

definition audio_labels :: "(string \<Rightarrow> string list option) \<Rightarrow> apath option \<Rightarrow> apath \<Rightarrow> string option \<Rightarrow> fs \<Rightarrow> string list \<times> fs" where
  "audio_labels csv labels_path model_path got fs =
     (let fallback = generic_labels ''Class_'' 521;
          beside_model = butlast model_path @ [''yamnet_class_map.csv''];
          target = (case labels_path of Some p \<Rightarrow> if path_exists fs p then p else beside_model | None \<Rightarrow> beside_model);
          parsed = (\<lambda>fs1. case Option.bind (read_text fs1 target) csv of None \<Rightarrow> fallback | Some names \<Rightarrow> names) in
      if path_exists fs target then (parsed fs, fs)
      else case got of
        None \<Rightarrow> (fallback, fs)
      | Some text \<Rightarrow> (case save_labels target text fs of (True, fs1) \<Rightarrow> (parsed fs1, fs1) | (False, fs1) \<Rightarrow> (fallback, fs1)))"

text \<open>\<open>np.argmax\<close> is the first of the greatest outputs; a class without a label gets a generic one.\<close>

definition top_index :: "'o::linorder list \<Rightarrow> nat" where
  "top_index xs = length (takeWhile (\<lambda>x. x \<noteq> Max (set xs)) xs)"

definition top_label :: "string \<Rightarrow> string list \<Rightarrow> nat \<Rightarrow> string" where
  "top_label p labels i = (if i < length labels then labels ! i else p @ show_nat i)"

lemma top_index_max:
  assumes "xs \<noteq> []"
  shows "top_index xs < length xs \<and> (\<forall>x \<in> set xs. x \<le> xs ! top_index xs) \<and> (\<forall>j < top_index xs. xs ! j < xs ! top_index xs)"
proof -
  let ?P = "\<lambda>x. x \<noteq> Max (set xs)"
  have "takeWhile ?P xs \<noteq> xs" using assms Max_in [of "set xs"] by (auto simp: takeWhile_eq_all_conv)
  then have lt: "top_index xs < length xs"
    using length_takeWhile_le [of ?P xs] by (metis le_neq_implies_less take_all_iff takeWhile_eq_take top_index_def order_refl)
  then have at: "xs ! top_index xs = Max (set xs)"
    using nth_length_takeWhile [of ?P xs] by (simp add: top_index_def)
  have "xs ! j < Max (set xs)" if "j < top_index xs" for j
  proof -
    have "xs ! j \<in> set (takeWhile (\<lambda>x. x \<noteq> Max (set xs)) xs)"
      using that by (metis nth_mem takeWhile_nth top_index_def)
    then have "xs ! j \<noteq> Max (set xs)" by (auto dest: set_takeWhileD)
    moreover have "xs ! j \<le> Max (set xs)" using that lt by (intro Max_ge) auto
    ultimately show ?thesis by simp
  qed
  with lt at show ?thesis by simp
qed

text \<open>A path is tried as it is, below the parent of the working directory, and below the working directory.\<close>

definition resolve_classifier_path :: "apath \<Rightarrow> string \<Rightarrow> fs \<Rightarrow> apath" where
  "resolve_classifier_path cwd p fs =
     (case find (path_exists fs) [located cwd p, located (butlast cwd) p, located cwd p] of
        Some q \<Rightarrow> q | None \<Rightarrow> located cwd p)"

end
