(* ===== verification/Transcriber.thy ===== *)
theory Transcriber
  imports Detector
begin

text \<open>
  \<open>plugins/audio_transcriber/adapter.py\<close>: a whisper server that is kept up for others, or asked once about one file.
  The path of the file is absolute; what the server answers is the record \<open>heard_answer\<close>.
\<close>

section \<open>Construction\<close>

datatype transcriber_error = ModelMissing | AudioMissing | ServerFailed server_error

datatype tr_mode = Serve | Transcribe | OtherMode

record transcriber =
  tr_model_id :: string
  tr_running :: bool
  tr_server :: server
  tr_queue :: "payload list"
  tr_alive :: "bool option"

text \<open>\<open>tr_alive\<close>: whether the thread is alive, \<open>None\<close> when there is none.\<close>

definition stop_transcriber :: "transcriber \<Rightarrow> transcriber" where
  "stop_transcriber t = t\<lparr>tr_running := False, tr_server := stop_server (tr_server t)\<rparr>"

definition model_name :: "string option \<Rightarrow> string \<Rightarrow> string" where
  "model_name alias stem = (case alias of Some (c # cs) \<Rightarrow> c # cs | _ \<Rightarrow> stem)"

text \<open>The result with the object, since the server of a constructor that fails was started.\<close>

definition new_transcriber ::
    "bool \<Rightarrow> tr_mode \<Rightarrow> string \<Rightarrow> string \<Rightarrow> string option \<Rightarrow> string \<Rightarrow> int \<Rightarrow> bool \<Rightarrow> launching \<Rightarrow> transcriber_error option \<times> transcriber" where
  "new_transcriber model_there mode model stem alias host port audio_there lc =
     (let t = \<lparr>tr_model_id = model_name alias stem, tr_running = True, tr_server = new_server model host port, tr_queue = [], tr_alive = None\<rparr> in
      if \<not> model_there then (Some ModelMissing, t)
      else case start_whisper lc (tr_server t) of
        (Some e, _, s) \<Rightarrow> (Some (ServerFailed e), t\<lparr>tr_server := s\<rparr>)
      | (None, _, s) \<Rightarrow>
          let t1 = t\<lparr>tr_server := s\<rparr> in
          (case mode of
             Serve \<Rightarrow> (None, t1\<lparr>tr_alive := Some True\<rparr>)
           | Transcribe \<Rightarrow>
               if \<not> audio_there then (Some AudioMissing, stop_transcriber t1)
               else (None, t1\<lparr>tr_alive := Some True\<rparr>)
           | OtherMode \<Rightarrow> (None, t1)))"

section \<open>A file\<close>

record heard_answer =
  ha_opened :: bool
  ha_status :: "int option"
  ha_json :: "json option"
  ha_span :: span

definition transcribe :: "string \<Rightarrow> string \<Rightarrow> bool \<Rightarrow> heard_answer \<Rightarrow> payload option" where
  "transcribe model_id audio_name audio_there an =
     (if \<not> audio_there \<or> \<not> ha_opened an then None
      else case ha_status an of
        None \<Rightarrow> None
      | Some c \<Rightarrow>
          if 400 \<le> c \<and> c < 600 then None
          else case Option.bind (ha_json an) (get_field ''text'' (JStr [])) of
            Some (JStr s) \<Rightarrow>
              Some (build_whisper_payload model_id (Text (points_of (py_strip s))) (ha_span an)
                [(''source'', JStr ''file''), (''audio_file'', JStr audio_name)])
          | _ \<Rightarrow> None)"

text \<open>\<open>_transcribe_loop\<close>, which ends the thread; \<open>seen\<close> is what it sees of the server until the deadline.\<close>

definition transcribe_loop :: "string \<Rightarrow> bool \<Rightarrow> (bool \<times> bool) list \<Rightarrow> heard_answer \<Rightarrow> transcriber \<Rightarrow> transcriber" where
  "transcribe_loop audio_name audio_there seen an t =
     (let done1 = t\<lparr>tr_alive := Some False\<rparr> in
      if \<not> wait_until_ready seen then done1
      else case transcribe (tr_model_id t) audio_name audio_there an of
        None \<Rightarrow> done1
      | Some p \<Rightarrow> done1\<lparr>tr_queue := offer p (tr_queue t)\<rparr>)"

section \<open>Health\<close>

text \<open>One round of \<open>_server_heartbeat_loop\<close>; a round that ends the loop ends the thread.\<close>

definition heartbeat_whisper :: "transcriber \<Rightarrow> transcriber" where
  "heartbeat_whisper t =
     (if \<not> tr_running t then t\<lparr>tr_alive := Some False\<rparr>
      else if \<not> ms_running (tr_server t) then t\<lparr>tr_running := False, tr_alive := Some False\<rparr>
      else t)"

section \<open>The caller\<close>

text \<open>
  \<open>__call__\<close> looks into the queue and, when it was empty, at the state of the adapter, \<open>later\<close>, which
  the worker may have changed in the meantime.
\<close>

definition call_transcriber :: "transcriber \<Rightarrow> transcriber \<Rightarrow> payload called \<times> transcriber" where
  "call_transcriber t later =
     (case tr_queue t of
        p # q \<Rightarrow> (Next p, t\<lparr>tr_queue := q\<rparr>)
      | [] \<Rightarrow> (if \<not> tr_running later \<or> tr_alive later = Some False then Ended else Nothing, later))"

text \<open>
  A transcription that was delivered is given to the caller before the end, unless the worker finishes just between
  the two looks: then the pipeline is told the end and the result stays in the queue.
\<close>

lemma result_before_end:
  assumes "wait_until_ready seen" "transcribe (tr_model_id t) a audio_there an = Some p" "tr_queue t = []"
  shows "fst (call_transcriber (transcribe_loop a audio_there seen an t) later) = Next p"
  using assms by (simp add: transcribe_loop_def call_transcriber_def offer_def QUEUE_SIZE_def)

lemma result_lost:
  assumes "wait_until_ready seen" "transcribe (tr_model_id t) a audio_there an = Some p" "tr_queue t = []"
  shows "call_transcriber t (transcribe_loop a audio_there seen an t) = (Ended, transcribe_loop a audio_there seen an t) \<and>
    tr_queue (transcribe_loop a audio_there seen an t) = [p]"
  using assms by (simp add: transcribe_loop_def call_transcriber_def offer_def QUEUE_SIZE_def)

text \<open>A binary that is missing, or a port in use, is not an error: the adapter is made and its heartbeat ends it.\<close>

lemma silent_start:
  assumes "ln_binary lc = None \<or> ln_port_busy lc"
  shows "\<exists>t. new_transcriber True Serve m s a h p audio lc = (None, t) \<and> tr_running t \<and> \<not> ms_running (tr_server t) \<and>
    \<not> tr_running (heartbeat_whisper t)"
  using assms by (auto simp: new_transcriber_def start_whisper_def new_server_def heartbeat_whisper_def Let_def)

end
