(* ===== verification/Publishing.thy ===== *)
theory Publishing
  imports Engine_Install
begin

text \<open>
  \<open>bundling/publish_artifacts.py\<close>: the store that \<open>Artifact_Store\<close> reads.  An archive is laid at
  \<open>capability/name/version/variant/file\<close>, and the manifest is rebuilt from what the store holds.  The steps are
  those of the installers; \<open>dumps\<close> is \<open>json.dumps\<close> with sorted keys.

  The main fact is that the device finds in the manifest exactly the archive that was published for it.
\<close>

section \<open>Releases\<close>

definition ENGINE_VERSIONS :: "(string, string) dict" where
  "ENGINE_VERSIONS = [(''llama-cpp'', ''b10289''), (''llama-swap'', ''247''), (''whisper-cpp'', ''v1.9.2'')]"

lemma pins_in_step:
  "map_of ENGINE_VERSIONS ''llama-cpp'' = Some LLAMA_CPP_RELEASE"
  "map_of ENGINE_VERSIONS ''llama-swap'' = Some LLAMA_SWAP_RELEASE"
  "map_of ENGINE_VERSIONS ''whisper-cpp'' = Some WHISPER_CPP_RELEASE"
  by (simp_all add: ENGINE_VERSIONS_def LLAMA_CPP_RELEASE_def LLAMA_SWAP_RELEASE_def WHISPER_CPP_RELEASE_def)

definition UPSTREAM :: "(string, string \<times> (string, string) dict) dict" where
  "UPSTREAM =
     [(''llama-cpp'', ''https://github.com/ggml-org/llama.cpp/releases/download/{tag}'',
        [(''linux-x64'', ''llama-{tag}-bin-ubuntu-x64.tar.gz''),
         (''linux-x64-vulkan'', ''llama-{tag}-bin-ubuntu-vulkan-x64.tar.gz''),
         (''linux-arm64'', ''llama-{tag}-bin-ubuntu-arm64.tar.gz''),
         (''macos-x64'', ''llama-{tag}-bin-macos-x64.tar.gz''),
         (''macos-arm64'', ''llama-{tag}-bin-macos-arm64.tar.gz''),
         (''windows-x64'', ''llama-{tag}-bin-win-cpu-x64.zip''),
         (''windows-x64-vulkan'', ''llama-{tag}-bin-win-vulkan-x64.zip''),
         (''windows-x64-cuda-12.4'', ''llama-{tag}-bin-win-cuda-12.4-x64.zip''),
         (''windows-x64-cuda-13.3'', ''llama-{tag}-bin-win-cuda-13.3-x64.zip'')]),
      (''llama-swap'', ''https://github.com/mostlygeek/llama-swap/releases/download/v{tag}'',
        [(''linux-x64'', ''llama-swap_{tag}_linux_amd64.tar.gz''),
         (''linux-arm64'', ''llama-swap_{tag}_linux_arm64.tar.gz''),
         (''macos-x64'', ''llama-swap_{tag}_darwin_amd64.tar.gz''),
         (''macos-arm64'', ''llama-swap_{tag}_darwin_arm64.tar.gz''),
         (''windows-x64'', ''llama-swap_{tag}_windows_amd64.zip'')]),
      (''whisper-cpp'', ''https://github.com/ggml-org/whisper.cpp/releases/download/{tag}'',
        [(''linux-x64'', ''whisper-bin-ubuntu-x64.tar.gz''),
         (''linux-arm64'', ''whisper-bin-ubuntu-arm64.tar.gz''),
         (''windows-x64'', ''whisper-blas-bin-x64.zip'')])]"

text \<open>\<open>s.format(tag=tag)\<close> for a text whose only braces are those of \<open>{tag}\<close>.\<close>

fun format_tag :: "string \<Rightarrow> string \<Rightarrow> string" where
  "format_tag tag [] = []"
| "format_tag tag (c # s) = (if c = CHR ''{'' then tag @ format_tag tag (drop 4 s) else c # format_tag tag s)"

section \<open>Laying out an archive\<close>

definition store_filename :: "string \<Rightarrow> string \<Rightarrow> string \<Rightarrow> string \<Rightarrow> string" where
  "store_filename name version arch ext = name @ ''-'' @ version @ ''-'' @ arch @ ext"

text \<open>\<open>Path.suffix\<close>; a leading point, or a point at the end, makes none.\<close>

definition suffix_of :: "string \<Rightarrow> string" where
  "suffix_of name =
     (let e = rev (takeWhile (\<lambda>c. c \<noteq> CHR ''.'') (rev name)); b = take (length name - length e) name in
      if b = [] \<or> b = ''.'' \<or> e = [] then [] else CHR ''.'' # e)"

definition archive_ext :: "string \<Rightarrow> string" where
  "archive_ext name = (if endswith name ''.tar.gz'' \<and> name \<noteq> ''.tar.gz'' then ''.tar.gz'' else suffix_of name)"

definition place_artifact :: "site \<Rightarrow> apath \<Rightarrow> string \<Rightarrow> string \<Rightarrow> string \<Rightarrow> string \<Rightarrow> apath \<Rightarrow> string inst" where
  "place_artifact st store capability name version arch archive =
     (let fname = store_filename name version arch (archive_ext (last archive));
          dir = store @ [capability, name, version, arch] in
      seq (change_or Escaped (\<lambda>fs. mkdirs fs dir)) (\<lambda>_.
      seq (asks (\<lambda>fs. read_text fs archive)) (\<lambda>c.
      (case c of
         None \<Rightarrow> raise Escaped
       | Some bytes \<Rightarrow>
           seq (change_or Escaped (\<lambda>fs. write_text fs (dir @ [fname]) bytes)) (\<lambda>_.
           seq (change_or Escaped (\<lambda>fs. write_text fs (dir @ [fname @ ''.sha256'']) (st_sha256 st bytes @ ''  '' @ fname @ [chr_nl]))) (\<lambda>_.
           ret (intercalate ''/'' [capability, name, version, arch, fname])))))))"

section \<open>The manifest\<close>

definition sub_dirs :: "fs \<Rightarrow> apath \<Rightarrow> string list" where
  "sub_dirs fs p = filter (\<lambda>x. is_dir fs (p @ [x])) (sort (iterdir fs p))"

definition variant_dirs :: "fs \<Rightarrow> apath \<Rightarrow> string list list" where
  "variant_dirs fs store =
     concat (map (\<lambda>c. concat (map (\<lambda>n. concat (map (\<lambda>v. map (\<lambda>a. [c, n, v, a])
       (sub_dirs fs (store @ [c, n, v])))
       (sub_dirs fs (store @ [c, n])))) (sub_dirs fs (store @ [c]))))
       (filter (\<lambda>c. c \<noteq> ''index'' \<and> \<not> startswith c ''.'') (sub_dirs fs store)))"

definition archives_in :: "fs \<Rightarrow> apath \<Rightarrow> string list" where
  "archives_in fs d = filter (\<lambda>x. is_file fs (d @ [x]) \<and> \<not> endswith x ''.sha256'') (sort (iterdir fs d))"

text \<open>\<open>m.setdefault(k, {}).setdefault(...)[k'] = v\<close>; \<open>None\<close> when a value on the way is no dictionary.\<close>

fun set_in :: "jdict \<Rightarrow> string list \<Rightarrow> json \<Rightarrow> jdict option" where
  "set_in d [] v = None"
| "set_in d [k] v = Some (AList.update k v d)"
| "set_in d (k # ks) v =
     (case map_of d k of
        None \<Rightarrow> map_option (\<lambda>e. AList.update k (JObj e) d) (set_in [] ks v)
      | Some (JObj e) \<Rightarrow> map_option (\<lambda>e. AList.update k (JObj e) d) (set_in e ks v)
      | Some _ \<Rightarrow> None)"

definition artifact_entry :: "site \<Rightarrow> string list \<Rightarrow> string \<Rightarrow> string \<Rightarrow> json" where
  "artifact_entry st k art bytes =
     JObj [(''path'', JStr (intercalate ''/'' (k @ [art]))), (''sha256'', JStr (st_sha256 st bytes)), (''size'', JInt (int (length bytes)))]"

fun scan_store :: "site \<Rightarrow> fs \<Rightarrow> apath \<Rightarrow> string list list \<Rightarrow> jdict \<Rightarrow> inst_error + jdict" where
  "scan_store st fs store [] m = Inr m"
| "scan_store st fs store (k # ks) m =
     (case archives_in fs (store @ k) of
        [] \<Rightarrow> scan_store st fs store ks m
      | [art] \<Rightarrow>
          (case Option.bind (read_text fs (store @ k @ [art])) (\<lambda>bytes. set_in m k (artifact_entry st k art bytes)) of
             None \<Rightarrow> Inl Escaped
           | Some m1 \<Rightarrow> scan_store st fs store ks m1)
      | _ \<Rightarrow> Inl SysExit)"

text \<open>The pinned version of every engine that is there; one without a pin, or without its pinned version, ends the program.\<close>

fun pin_engines :: "jdict \<Rightarrow> (string, json) dict option" where
  "pin_engines [] = Some []"
| "pin_engines ((name, versions) # r) =
     (case (map_of ENGINE_VERSIONS name, versions) of
        (Some pin, JObj vs) \<Rightarrow> if map_of vs pin = None then None else map_option (Cons (name, JStr pin)) (pin_engines r)
      | _ \<Rightarrow> None)"

definition build_manifest :: "site \<Rightarrow> fs \<Rightarrow> apath \<Rightarrow> inst_error + jdict" where
  "build_manifest st fs store =
     (case scan_store st fs store (variant_dirs fs store) [(''schema'', JInt 1)] of
        Inl e \<Rightarrow> Inl e
      | Inr m \<Rightarrow>
          (case pin_engines (case map_of m CAPABILITY_ENGINES of Some (JObj es) \<Rightarrow> es | _ \<Rightarrow> []) of
             None \<Rightarrow> Inl SysExit
           | Some [] \<Rightarrow> Inr m
           | Some pins \<Rightarrow> Inr (AList.update ''defaults'' (JObj [(CAPABILITY_ENGINES, JObj pins)]) m)))"

definition rebuild_manifest :: "site \<Rightarrow> (json \<Rightarrow> string) \<Rightarrow> apath \<Rightarrow> unit inst" where
  "rebuild_manifest st dumps store =
     (let index = store @ [''index''] in
      seq (asks (\<lambda>fs. build_manifest st fs store)) (\<lambda>m.
      (case m of
         Inl e \<Rightarrow> raise e
       | Inr d \<Rightarrow>
           seq (change_or Escaped (\<lambda>fs. mkdirs fs index)) (\<lambda>_.
           seq (change_or Escaped (\<lambda>fs. write_text fs (index @ [''manifest.v1.json.new'']) (dumps (JObj d)))) (\<lambda>_.
           change_or Escaped (\<lambda>fs. os_replace fs (index @ [''manifest.v1.json.new'']) (index @ [''manifest.v1.json''])))))))"

section \<open>Publishing\<close>

text \<open>The name, version and variant of an archive, from its file name.\<close>

definition platform_token :: "string \<Rightarrow> bool" where
  "platform_token w = (w \<in> {''linux'', ''macos'', ''windows''})"

definition archive_stem :: "string \<Rightarrow> string option" where
  "archive_stem name = map_option (\<lambda>e. take (length name - length e) name) (find (endswith name) [''.tar.gz'', ''.tgz'', ''.zip''])"

definition parse_artifact :: "string \<Rightarrow> (string \<times> string \<times> string) option" where
  "parse_artifact file =
     Option.bind (archive_stem file) (\<lambda>stem.
       let parts = split_char (CHR ''-'') stem; i = length (takeWhile (\<lambda>p. \<not> platform_token p) parts) in
       if i = length parts \<or> i < 2 then None
       else Some (intercalate ''-'' (take (i - 1) parts), parts ! (i - 1), intercalate ''-'' (drop i parts)))"

fun place_all :: "site \<Rightarrow> apath \<Rightarrow> apath \<Rightarrow> string list \<Rightarrow> unit inst" where
  "place_all st store source [] = ret ()"
| "place_all st store source (x # xs) =
     seq (asks (\<lambda>fs. is_file fs (source @ [x]))) (\<lambda>file.
     if endswith x ''.sha256'' \<or> \<not> file then place_all st store source xs
     else case parse_artifact x of
       None \<Rightarrow> raise SysExit
     | Some (name, version, arch) \<Rightarrow>
         seq (place_artifact st store CAPABILITY_ENGINES name version arch (source @ [x])) (\<lambda>_. place_all st store source xs))"

definition from_dir :: "site \<Rightarrow> (json \<Rightarrow> string) \<Rightarrow> apath \<Rightarrow> apath \<Rightarrow> unit inst" where
  "from_dir st dumps store source =
     seq (asks (\<lambda>fs. sort (iterdir fs source))) (\<lambda>xs.
     seq (place_all st store source xs) (\<lambda>_. rebuild_manifest st dumps store))"

text \<open>One asset of a release: whatever fails is skipped, and the downloaded file is removed.\<close>

definition fetch_asset :: "site \<Rightarrow> string \<Rightarrow> apath \<Rightarrow> unit inst" where
  "fetch_asset st url tmp =
     seq (http_get st url 0) (\<lambda>r.
     (case judge r of
        Whole s \<Rightarrow> change_or Escaped (\<lambda>fs. write_text fs tmp s)
      | Torn s \<Rightarrow> seq (change_or Escaped (\<lambda>fs. write_text fs tmp s)) (\<lambda>_. raise Escaped)
      | _ \<Rightarrow> raise Escaped))"

fun publish_assets :: "site \<Rightarrow> apath \<Rightarrow> string \<Rightarrow> string \<Rightarrow> string \<Rightarrow> (string \<times> string) list \<Rightarrow> unit inst" where
  "publish_assets st store name tag base [] = ret ()"
| "publish_assets st store name tag base ((arch, fmt) # as) =
     (let asset = format_tag tag fmt; tmp = store @ [''.download'', asset] in
      seq (change_or Escaped (\<lambda>fs. mkdirs fs (store @ [''.download'']))) (\<lambda>_.
      seq (swallow (seq (fetch_asset st (base @ ''/'' @ asset) tmp) (\<lambda>_.
             seq (place_artifact st store CAPABILITY_ENGINES name tag arch tmp) (\<lambda>_. ret ())))) (\<lambda>_.
      seq (change_or Escaped (unlink_ok tmp)) (\<lambda>_. publish_assets st store name tag base as))))"

fun publish_engines :: "site \<Rightarrow> apath \<Rightarrow> (string \<times> string \<times> (string, string) dict) list \<Rightarrow> unit inst" where
  "publish_engines st store [] = ret ()"
| "publish_engines st store ((name, base, assets) # es) =
     (case map_of ENGINE_VERSIONS name of
        None \<Rightarrow> raise Escaped
      | Some tag \<Rightarrow>
          seq (publish_assets st store name tag (format_tag tag base) assets) (\<lambda>_.
          seq (change_or Escaped (rmtree_ignoring (store @ [''.download'']))) (\<lambda>_. publish_engines st store es)))"

definition from_upstream :: "site \<Rightarrow> (json \<Rightarrow> string) \<Rightarrow> apath \<Rightarrow> unit inst" where
  "from_upstream st dumps store = seq (publish_engines st store UPSTREAM) (\<lambda>_. rebuild_manifest st dumps store)"

datatype publish_mode = Manifest_Only | From_Dir apath | From_Upstream

definition publish_main :: "site \<Rightarrow> (json \<Rightarrow> string) \<Rightarrow> apath \<Rightarrow> publish_mode \<Rightarrow> unit inst" where
  "publish_main st dumps store mode =
     seq (change_or Escaped (\<lambda>fs. mkdirs fs store)) (\<lambda>_.
     (case mode of
        Manifest_Only \<Rightarrow> rebuild_manifest st dumps store
      | From_Dir source \<Rightarrow> from_dir st dumps store source
      | From_Upstream \<Rightarrow> from_upstream st dumps store))"

section \<open>What the manifest says\<close>

lemma set_in_get:
  "set_in d k v = Some d' \<Longrightarrow> length k' = length k \<Longrightarrow>
   descend (JObj d') k' = (if k' = k then Some v else descend (JObj d) k')"
proof (induction d k v arbitrary: d' k' rule: set_in.induct)
  case (2 d k v)
  then obtain x where "k' = [x]" by (cases k') auto
  with 2 show ?case by (auto simp: update_conv' split: option.splits if_splits)
next
  case (3 d k k1 ks v)
  then obtain x r where k': "k' = x # r" "length r = length (k1 # ks)" by (cases k') auto
  show ?case
  proof (cases "map_of d k")
    case None
    with 3(3) obtain e where "set_in [] (k1 # ks) v = Some e" "d' = AList.update k (JObj e) d" by auto
    moreover have "descend (JObj []) r = None" using k'(2) by (cases r) auto
    ultimately show ?thesis using 3(1) [OF None, of e r] k' None by (auto simp: update_conv' split: option.splits)
  next
    case (Some j)
    with 3(3) obtain e e' where "j = JObj e" "set_in e (k1 # ks) v = Some e'" "d' = AList.update k (JObj e') d"
      by (auto split: json.splits)
    with 3(2) [of j e e' r] k' Some show ?thesis by (auto simp: update_conv' split: option.splits)
  qed
qed simp

lemma set_in_other:
  assumes "set_in d k v = Some d'" "2 \<le> length k" "map_of d x = Some (JInt i)"
  shows "map_of d' x = Some (JInt i)"
proof -
  from assms(2) obtain a b r where "k = a # b # r" by (cases k; cases "tl k") auto
  with assms show ?thesis by (cases "a = x") (auto simp: update_conv' split: option.splits json.splits)
qed

definition published :: "site \<Rightarrow> fs \<Rightarrow> apath \<Rightarrow> string list \<Rightarrow> json option" where
  "published st fs store k =
     (case archives_in fs (store @ k) of
        [art] \<Rightarrow> map_option (artifact_entry st k art) (read_text fs (store @ k @ [art]))
      | _ \<Rightarrow> None)"

lemma scan_store_get:
  assumes "scan_store st fs store ks m = Inr m'" "\<forall>k \<in> set ks. length k = 4" "length k = 4"
  shows "descend (JObj m') k = (if k \<in> set ks \<and> archives_in fs (store @ k) \<noteq> [] then published st fs store k else descend (JObj m) k)"
  using assms(1,2)
proof (induction ks arbitrary: m)
  case (Cons q ks)
  show ?case
  proof (cases "archives_in fs (store @ q)")
    case Nil
    with Cons show ?thesis by auto
  next
    case (Cons art more)
    with Cons.prems(1) obtain bytes m1 where more: "more = []" and b: "read_text fs (store @ q @ [art]) = Some bytes"
      and m1: "set_in m q (artifact_entry st q art bytes) = Some m1" and rest: "scan_store st fs store ks m1 = Inr m'"
      by (auto split: list.splits option.splits bind_splits)
    have "descend (JObj m1) k = (if k = q then Some (artifact_entry st q art bytes) else descend (JObj m) k)"
      using set_in_get [OF m1, of k] Cons.prems(2) assms(3) by simp
    with Cons.IH [OF rest] Cons.prems(2) Cons more b show ?thesis by (auto simp: published_def)
  qed
qed auto

lemma scan_store_int:
  "scan_store st fs store ks m = Inr m' \<Longrightarrow> \<forall>k \<in> set ks. length k = 4 \<Longrightarrow> map_of m x = Some (JInt i) \<Longrightarrow> map_of m' x = Some (JInt i)"
  by (induction ks arbitrary: m) (auto dest: set_in_other simp: bind_eq_Some_conv split: list.splits option.splits)

lemma variant_dirs_length: "k \<in> set (variant_dirs fs store) \<Longrightarrow> length k = 4"
  by (auto simp: variant_dirs_def)

lemma pin_engines_get:
  "pin_engines es = Some pins \<Longrightarrow> map_of es name = Some x \<Longrightarrow> \<exists>pin. map_of ENGINE_VERSIONS name = Some pin \<and> map_of pins name = Some (JStr pin)"
  by (induction es arbitrary: pins) (auto split: option.splits json.splits if_splits)

lemma descend_append: "descend j (ks @ ks') = Option.bind (descend j ks) (\<lambda>e. descend e ks')"
  by (induction ks arbitrary: j) (auto split: sum.splits)

text \<open>Every engine archive is in the manifest, and its engine has its pinned version as the one by default.\<close>

lemma build_manifest_get:
  assumes "build_manifest st fs store = Inr d" "k = [CAPABILITY_ENGINES, name, v, a]"
  shows "map_of d ''schema'' = Some (JInt 1)"
    "descend (JObj d) k = (if k \<in> set (variant_dirs fs store) \<and> archives_in fs (store @ k) \<noteq> [] then published st fs store k else None)"
    "descend (JObj d) k \<noteq> None \<Longrightarrow> \<exists>pin. map_of ENGINE_VERSIONS name = Some pin \<and> descend (JObj d) [''defaults'', CAPABILITY_ENGINES, name] = Some (JStr pin)"
proof -
  from assms(1) obtain m where m: "scan_store st fs store (variant_dirs fs store) [(''schema'', JInt 1)] = Inr m"
    by (auto simp: build_manifest_def split: sum.splits)
  define es0 where "es0 = (case map_of m CAPABILITY_ENGINES of Some (JObj es) \<Rightarrow> es | _ \<Rightarrow> [])"
  from assms(1) m obtain pins where p: "pin_engines es0 = Some pins"
    and d: "d = (if pins = [] then m else AList.update ''defaults'' (JObj [(CAPABILITY_ENGINES, JObj pins)]) m)"
    by (cases "pin_engines es0") (auto simp: build_manifest_def es0_def [symmetric] split: list.splits)
  have len: "\<forall>k \<in> set (variant_dirs fs store). length k = 4" using variant_dirs_length by blast
  from scan_store_int [OF m len, of "''schema''"] d show "map_of d ''schema'' = Some (JInt 1)" by (simp add: update_conv')
  have keep: "map_of d CAPABILITY_ENGINES = map_of m CAPABILITY_ENGINES" using d by (simp add: update_conv' CAPABILITY_ENGINES_def)
  then have same: "descend (JObj d) (CAPABILITY_ENGINES # r) = descend (JObj m) (CAPABILITY_ENGINES # r)" for r by simp
  from scan_store_get [OF m len, of k] same assms(2)
  show "descend (JObj d) k = (if k \<in> set (variant_dirs fs store) \<and> archives_in fs (store @ k) \<noteq> [] then published st fs store k else None)"
    by (auto simp: CAPABILITY_ENGINES_def)
  assume "descend (JObj d) k \<noteq> None"
  with same [of "[name, v, a]"] assms(2) obtain x where "descend (JObj m) [CAPABILITY_ENGINES, name] = Some x"
    using descend_append [of "JObj m" "[CAPABILITY_ENGINES, name]" "[v, a]"]
    by (cases "descend (JObj m) [CAPABILITY_ENGINES, name]") (simp_all del: descend.simps)
  then obtain es where es: "map_of m CAPABILITY_ENGINES = Some (JObj es)" "map_of es name = Some x"
    by (auto split: sum.splits option.splits)
  with p pin_engines_get [of es pins name x] obtain pin where pin: "map_of ENGINE_VERSIONS name = Some pin" "map_of pins name = Some (JStr pin)"
    by (auto simp: es0_def)
  then have "pins \<noteq> []" by auto
  with d have "map_of d ''defaults'' = Some (JObj [(CAPABILITY_ENGINES, JObj pins)])" by (simp add: update_conv')
  with pin show "\<exists>pin. map_of ENGINE_VERSIONS name = Some pin \<and> descend (JObj d) [''defaults'', CAPABILITY_ENGINES, name] = Some (JStr pin)"
    by simp
qed

section \<open>From the publisher to the device\<close>

text \<open>What \<open>json\<close> keeps of a document: where it leads, and every value there that is no dictionary.\<close>

definition same_document :: "json \<Rightarrow> json \<Rightarrow> bool" where
  "same_document j j' \<longleftrightarrow> (\<forall>ks. (descend j' ks = None \<longleftrightarrow> descend j ks = None) \<and>
     (\<forall>v. (\<forall>d. v \<noteq> JObj d) \<longrightarrow> descend j ks = Some v \<longrightarrow> descend j' ks = Some v))"

lemma same_document_leaf:
  "same_document j j' \<Longrightarrow> descend j ks = Some v \<Longrightarrow> \<forall>d. v \<noteq> JObj d \<Longrightarrow> descend j' ks = Some v"
  by (simp add: same_document_def)

lemma manifest_written:
  assumes "rebuild_manifest st dumps store h = (Inr (), h')" "build_manifest st (h_fs h) store = Inr d"
    and "fresh_below store ''index'' (h_fs h)" "\<forall>x. \<not> is_link_entry (node (h_fs h) (store @ [''index'', x]))"
  shows "read_text (h_fs h') (store @ [''index'', ''manifest.v1.json'']) = Some (dumps (JObj d))"
proof -
  let ?R = "store @ [''index'']" and ?a = "''manifest.v1.json.new''" and ?b = "''manifest.v1.json''"
  from assms(1,2) obtain fs1 fs2 fs3 where f: "mkdirs (h_fs h) ?R = Some fs1"
    "write_text fs1 (?R @ [?a]) (dumps (JObj d)) = Some fs2" "os_replace fs2 (?R @ [?a]) (?R @ [?b]) = Some fs3" "h_fs h' = fs3"
    by (auto simp: rebuild_manifest_def seq_asks Let_def elim!: seqE change_orE)
  from mkdirs_fresh [OF assms(3) f(1)] assms(4) have "work_dir ?R {?a, ?b} fs1 fs1"
    by (auto simp: work_dir_def guarded_def only_entries_refl node_put)
  note w = work_dir_write [OF this _ _ f(2)]
  then have "work_dir ?R {?a, ?b} fs1 fs2" "fs2 = put (?R @ [?a]) (EFile (dumps (JObj d))) fs1" by auto
  note r = work_dir_replace [OF this(1) _ _ _ _ _ f(3)] and this
  then have "node fs3 (?R @ [?b]) = Some (EFile (dumps (JObj d)))" "canonical fs3 ?R" by (auto simp: node_put work_dir_def)
  with stat_plain [of fs3 ?R ?b] show ?thesis using f(4) by (simp add: read_text_def)
qed

lemma variant_read:
  assumes "descend (JObj d) k = Some (artifact_entry st q art bytes)" "same_document (JObj d) (JObj d')"
    and "q \<noteq> []" "hd q \<noteq> []" "st_sha256 st bytes \<noteq> []"
  shows "Option.bind (descend (JObj d') k) (\<lambda>e. Some (variant_of e)) =
    Some (Inr \<lparr>va_path = intercalate ''/'' (q @ [art]), va_sha256 = st_sha256 st bytes, va_size = JInt (int (length bytes))\<rparr>)"
proof -
  have leaf: "Option.bind (descend (JObj d') k) (\<lambda>e. descend e [x]) = Some v"
    if "map_of [(''path'', JStr (intercalate ''/'' (q @ [art]))), (''sha256'', JStr (st_sha256 st bytes)), (''size'', JInt (int (length bytes)))] x = Some v"
      "\<forall>d. v \<noteq> JObj d" for x v
    using assms(1,2) that descend_append [of "JObj d" k "[x]"] descend_append [of "JObj d'" k "[x]"]
    by (auto simp: same_document_def artifact_entry_def)
  obtain e where e: "descend (JObj d') k = Some e" using leaf [of "''path''"] by (cases "descend (JObj d') k") auto
  with leaf [of "''path''"] leaf [of "''sha256''"] leaf [of "''size''"] obtain r where "e = JObj r"
    "map_of r ''path'' = Some (JStr (intercalate ''/'' (q @ [art])))" "map_of r ''sha256'' = Some (JStr (st_sha256 st bytes))"
    "map_of r ''size'' = Some (JInt (int (length bytes)))"
    by (cases e) (auto split: option.splits)
  moreover have "intercalate ''/'' (q @ [art]) \<noteq> []" using assms(3,4) by (cases q; cases "tl q") auto
  ultimately show ?thesis using e assms(5) by (simp add: variant_of_def dget_def)
qed

text \<open>
  C26. From the publisher to the device: once the manifest of a store has been rebuilt, a device that reads it finds
  for an engine, at its pinned version, the archive of the first of its variants that the store holds, with exactly
  the path, the digest and the size of that file, whatever else is in the store.
\<close>

theorem published_engine_found:
  assumes "rebuild_manifest st dumps store h = (Inr (), h')" "build_manifest st (h_fs h) store = Inr d"
    and "fresh_below store ''index'' (h_fs h)" "\<forall>x. \<not> is_link_entry (node (h_fs h) (store @ [''index'', x]))"
    and "st_loads st (dumps (JObj d)) = Some (JObj d')" "same_document (JObj d) (JObj d')"
    and "map_of ENGINE_VERSIONS name = Some pin" "variant_candidates st gp = Inr (before @ a # after)"
    and "\<forall>x \<in> set before. [CAPABILITY_ENGINES, name, pin, x] \<notin> set (variant_dirs (h_fs h) store)"
    and "[CAPABILITY_ENGINES, name, pin, a] \<in> set (variant_dirs (h_fs h) store)"
    and "archives_in (h_fs h) (store @ [CAPABILITY_ENGINES, name, pin, a]) = [art]"
    and "read_text (h_fs h) (store @ [CAPABILITY_ENGINES, name, pin, a, art]) = Some bytes" "st_sha256 st bytes \<noteq> []"
  shows "read_text (h_fs h') (store @ [''index'', ''manifest.v1.json'']) = Some (dumps (JObj d)) \<and> new_manifest (JObj d') = Inr d' \<and>
    manifest_variant st gp d' CAPABILITY_ENGINES name None None =
      Inr \<lparr>va_path = intercalate ''/'' [CAPABILITY_ENGINES, name, pin, a, art], va_sha256 = st_sha256 st bytes, va_size = JInt (int (length bytes))\<rparr>"
proof (intro conjI)
  let ?k = "\<lambda>x. [CAPABILITY_ENGINES, name, pin, x]"
  note get = build_manifest_get [OF assms(2) refl]
  have entry: "descend (JObj d) (?k a) = Some (artifact_entry st (?k a) art bytes)"
    using get(2) [of name pin a] assms(10-12) by (simp add: published_def del: descend.simps)
  have gone: "descend (JObj d') (?k x) = None" if "x \<in> set before" for x
    using get(2) [of name pin x] assms(6,9) that by (simp add: same_document_def del: descend.simps)
  have "descend (JObj d) [''defaults'', CAPABILITY_ENGINES, name] = Some (JStr pin)"
    using get(3) [of name pin a] entry assms(7) by (simp del: descend.simps)
  then have pinned: "default_version d' CAPABILITY_ENGINES name = Inr (JStr pin)"
    using same_document_leaf [OF assms(6)] by (simp add: default_version_def del: descend.simps)
  have ne: "?k a \<noteq> []" "hd (?k a) \<noteq> []" by (simp_all add: CAPABILITY_ENGINES_def)
  have found: "first_variant d' [CAPABILITY_ENGINES, name, pin] (before @ a # after) =
      Inr \<lparr>va_path = intercalate ''/'' (?k a @ [art]), va_sha256 = st_sha256 st bytes, va_size = JInt (int (length bytes))\<rparr>"
    using gone variant_read [OF entry assms(6) ne assms(13)]
    by (induction before) (auto simp del: descend.simps intercalate.simps simp: bind_eq_Some_conv)
  show "manifest_variant st gp d' CAPABILITY_ENGINES name None None =
      Inr \<lparr>va_path = intercalate ''/'' [CAPABILITY_ENGINES, name, pin, a, art], va_sha256 = st_sha256 st bytes, va_size = JInt (int (length bytes))\<rparr>"
    using pinned found assms(8) by (simp add: manifest_variant_def del: intercalate.simps)
  have "descend (JObj d) [''schema''] = Some (JInt 1)" using get(1) by simp
  then have "descend (JObj d') [''schema''] = Some (JInt 1)" using same_document_leaf [OF assms(6)] by (simp del: descend.simps)
  then show "new_manifest (JObj d') = Inr d'" by (simp add: new_manifest_def dget_def split: option.splits)
qed (rule manifest_written [OF assms(1-4)])

text \<open>A store with one archive of llama-swap, published without a manifest so far.\<close>

definition shelf :: "entry \<Rightarrow> fs" where
  "shelf e =
     [([''s''], EDir 0), ([''s'', ''engines''], EDir 0), ([''s'', ''engines'', ''llama-swap''], EDir 0),
      ([''s'', ''engines'', ''llama-swap'', ''247''], EDir 0), ([''s'', ''engines'', ''llama-swap'', ''247'', ''linux-x64''], EDir 0),
      ([''s'', ''engines'', ''llama-swap'', ''247'', ''linux-x64'', ''a.tar.gz''], e)]"

definition shelf_host :: host where
  "shelf_host = \<lparr>h_fs = shelf (EFile ''X''), h_log = [], h_now = 0, h_relaunched = []\<rparr>"

definition shelf_doc :: jdict where
  "shelf_doc =
     [(''schema'', JInt 1),
      (''engines'', JObj [(''llama-swap'', JObj [(''247'', JObj [(''linux-x64'',
         JObj [(''path'', JStr ''engines/llama-swap/247/linux-x64/a.tar.gz''), (''sha256'', JStr ''dX''), (''size'', JInt 1)])])])]),
      (''defaults'', JObj [(''engines'', JObj [(''llama-swap'', JStr ''247'')])])]"

definition shelf_site :: site where
  "shelf_site = sample_site\<lparr>st_platform := ''linux'', st_machine := ''x86_64'', st_sha256 := (\<lambda>s. ''d'' @ s), st_loads := (\<lambda>_. Some (JObj shelf_doc))\<rparr>"

lemma shelf_built: "build_manifest shelf_site (h_fs shelf_host) [''s''] = Inr shelf_doc"
  by code_simp

lemma shelf_rebuilt: "fst (rebuild_manifest shelf_site (\<lambda>_. ''M'') [''s''] shelf_host) = Inr ()"
  by code_simp

theorem published_engine_found_witness:
  "manifest_variant shelf_site no_gpu shelf_doc ''engines'' ''llama-swap'' None None =
     Inr \<lparr>va_path = ''engines/llama-swap/247/linux-x64/a.tar.gz'', va_sha256 = ''dX'', va_size = JInt 1\<rparr>"
proof -
  obtain h' where run: "rebuild_manifest shelf_site (\<lambda>_. ''M'') [''s''] shelf_host = (Inr (), h')"
    using shelf_rebuilt by (cases "rebuild_manifest shelf_site (\<lambda>_. ''M'') [''s''] shelf_host") simp
  have fresh: "fresh_below [''s''] ''index'' (h_fs shelf_host)"
    using canonical_Snoc [of "h_fs shelf_host" "[]" "''s''"]
    by (auto simp: fresh_below_def tame_def shelf_host_def shelf_def node_def split: if_splits)
  have nolink: "\<forall>x. \<not> is_link_entry (node (h_fs shelf_host) ([''s''] @ [''index'', x]))"
    by (simp add: shelf_host_def shelf_def node_def)
  have doc: "st_loads shelf_site ''M'' = Some (JObj shelf_doc)" "same_document (JObj shelf_doc) (JObj shelf_doc)"
    "map_of ENGINE_VERSIONS ''llama-swap'' = Some ''247''"
    by (simp_all add: shelf_site_def same_document_def ENGINE_VERSIONS_def)
  have cands: "variant_candidates shelf_site no_gpu = Inr ([] @ ''linux-x64'' # [])" by code_simp
  have dirs: "[CAPABILITY_ENGINES, ''llama-swap'', ''247'', ''linux-x64''] \<in> set (variant_dirs (h_fs shelf_host) [''s''])" by code_simp
  have arts: "archives_in (h_fs shelf_host) ([''s''] @ [CAPABILITY_ENGINES, ''llama-swap'', ''247'', ''linux-x64'']) = [''a.tar.gz'']" by code_simp
  have bytes: "read_text (h_fs shelf_host) ([''s''] @ [CAPABILITY_ENGINES, ''llama-swap'', ''247'', ''linux-x64'', ''a.tar.gz'']) = Some ''X''" by code_simp
  have sha: "st_sha256 shelf_site ''X'' = ''dX''" by (simp add: shelf_site_def)
  from published_engine_found [where dumps = "\<lambda>_. ''M''", OF run shelf_built fresh nolink doc(1,2,3) cands _ dirs arts bytes] sha
  show ?thesis by (simp add: CAPABILITY_ENGINES_def)
qed

section \<open>Names of archives\<close>

lemma split_char_append:
  "split_char c (a @ c # b) = split_char c a @ split_char c b"
  by (induction a) (auto split: list.splits)

lemma intercalate_Cons: "ws \<noteq> [] \<Longrightarrow> intercalate sep (w # ws) = w @ sep @ intercalate sep ws"
  by (cases ws) simp_all

lemma intercalate_split: "intercalate [c] (split_char c s) = s"
proof (induction s)
  case (Cons x s)
  obtain w ws where "split_char c s = w # ws" using split_char_not_Nil by (cases "split_char c s") auto
  with Cons show ?case by (cases ws) auto
qed simp

text \<open>
  An archive named as the store names it is read back as exactly its engine, its version and its variant,
  hyphens in the names of engines and variants included, as long as the version has none.
\<close>

lemma artifact_name_read_back:
  assumes "ext \<in> {''.tar.gz'', ''.tgz'', ''.zip''}" "CHR ''-'' \<notin> set version" "\<not> platform_token version"
    and "\<forall>w \<in> set (split_char (CHR ''-'') name). \<not> platform_token w" "platform_token (hd (split_char (CHR ''-'') arch))"
  shows "parse_artifact (store_filename name version arch ext) = Some (name, version, arch)"
proof -
  let ?stem = "name @ ''-'' @ version @ ''-'' @ arch"
  let ?n = "split_char (CHR ''-'') name" and ?a = "split_char (CHR ''-'') arch"
  have stem: "archive_stem (?stem @ ext) = Some ?stem"
    using assms(1) by (auto simp: archive_stem_def endswith_iff suffix_def)
  have parts: "split_char (CHR ''-'') ?stem = ?n @ version # ?a"
    using assms(2) split_char_append [of "CHR ''-''" name "version @ ''-'' @ arch"] by (simp add: split_char_append_sep)
  obtain p ps where a: "?a = p # ps" "platform_token p" using assms(5) split_char_not_Nil [of "CHR ''-''" arch] by (cases ?a) auto
  have i: "length (takeWhile (\<lambda>p. \<not> platform_token p) (?n @ version # ?a)) = Suc (length ?n)"
    using assms(3,4) a by (simp add: takeWhile_append)
  have "intercalate ''-'' (p # ps) = arch" using intercalate_split [of "CHR ''-''" arch] a(1) by simp
  moreover have "?n \<noteq> []" by simp
  ultimately show ?thesis
    using stem parts i a
    by (simp add: parse_artifact_def store_filename_def intercalate_split nth_append Let_def)
qed

lemma artifact_name_read_back_witness:
  "parse_artifact ''llama-cpp-b10289-linux-x64-vulkan.tar.gz'' = Some (''llama-cpp'', ''b10289'', ''linux-x64-vulkan'')"
  using artifact_name_read_back [of "''.tar.gz''" "''b10289''" "''llama-cpp''" "''linux-x64-vulkan''"]
  by (simp add: store_filename_def platform_token_def)

text \<open>A version with a hyphen is taken apart.\<close>

lemma hyphen_version_split:
  "parse_artifact (store_filename ''whisper-cpp'' ''v1.9-rc1'' ''linux-x64'' ''.zip'') = Some (''whisper-cpp-v1.9'', ''rc1'', ''linux-x64'')"
  by code_simp

end
