(* ===== verification/Classifier_Start.thy ===== *)
theory Classifier_Start
  imports Detector Publishing
begin

text \<open>
  How the classifiers of \<open>plugins/image_classifier/adapter.py\<close> and \<open>plugins/audio_classifier/adapter.py\<close> start: the checks of
  the model, the wait for the camera, the sound stream, and what the first call of a classifier without a worker gives.
\<close>

section \<open>The model\<close>

datatype classifier_error = No_Model | No_Runtime | Unsupported string | Start_Failed string

definition load_image_backend :: "fs \<Rightarrow> apath \<Rightarrow> bool \<Rightarrow> classifier_error option" where
  "load_image_backend fs model interpreter =
     (if \<not> path_exists fs model then Some No_Model
      else let ext = py_lower (suffix_of (last model)) in
        if ext = ''.tflite'' then (if interpreter then None else Some No_Runtime) else Some (Unsupported ext))"

definition load_audio_backend :: "fs \<Rightarrow> apath \<Rightarrow> bool \<Rightarrow> classifier_error option" where
  "load_audio_backend fs model interpreter =
     (if \<not> path_exists fs model then Some No_Model else if interpreter then None else Some No_Runtime)"

section \<open>The camera\<close>

text \<open>
  What the worker has done when the constructor stops waiting: the camera opened, it could not be opened, something
  raised, or it is still opening.
\<close>

datatype camera = Opens | Refuses | Throws string | Hangs

record watcher =
  wt_ready :: bool
  wt_error :: "string option"
  wt_running :: bool
  wt_alive :: bool

definition camera_warmup :: "string \<Rightarrow> camera \<Rightarrow> watcher \<Rightarrow> watcher" where
  "camera_warmup index cam w =
     (case cam of
        Opens \<Rightarrow> w\<lparr>wt_ready := True\<rparr>
      | Refuses \<Rightarrow> w\<lparr>wt_error := Some (''Cannot open index '' @ index), wt_ready := True, wt_alive := False\<rparr>
      | Throws e \<Rightarrow> w\<lparr>wt_error := Some e, wt_ready := True, wt_alive := False\<rparr>
      | Hangs \<Rightarrow> w)"

definition startup_message :: "watcher \<Rightarrow> string" where
  "startup_message w = ''Failed to start camera: '' @
     (case wt_error w of Some (c # cs) \<Rightarrow> c # cs | _ \<Rightarrow> ''Camera startup timed out (Resource busy?)'')"

definition new_image_classifier :: "fs \<Rightarrow> apath \<Rightarrow> bool \<Rightarrow> string \<Rightarrow> camera \<Rightarrow> classifier_error + watcher" where
  "new_image_classifier fs model interpreter index cam =
     (case load_image_backend fs model interpreter of
        Some e \<Rightarrow> Inl e
      | None \<Rightarrow>
          let w = camera_warmup index cam \<lparr>wt_ready = False, wt_error = None, wt_running = True, wt_alive = True\<rparr> in
          if wt_ready w then Inr w else Inl (Start_Failed (startup_message w)))"

text \<open>The sound stream raises, with a message, or starts.\<close>

definition new_audio_classifier :: "fs \<Rightarrow> apath \<Rightarrow> bool \<Rightarrow> string option \<Rightarrow> classifier_error + watcher" where
  "new_audio_classifier fs model interpreter stream =
     (case load_audio_backend fs model interpreter of
        Some e \<Rightarrow> Inl e
      | None \<Rightarrow>
          (case stream of
             None \<Rightarrow> Inr \<lparr>wt_ready = True, wt_error = None, wt_running = True, wt_alive = True\<rparr>
           | Some e \<Rightarrow> Inl (Start_Failed (''Failed to initialise audio stream: '' @ e))))"

text \<open>
  A camera that cannot be opened is not an error of the constructor: the worker reports itself ready before it ends, and
  the message it left is only looked at after a timeout, when there is none.  The pipeline ends with the first call.
\<close>

lemma camera_error_unseen:
  assumes "load_image_backend fs model interpreter = None" "cam = Refuses \<or> (\<exists>e. cam = Throws e)"
  obtains w where "new_image_classifier fs model interpreter index cam = Inr w" "\<not> wt_alive w" "wt_error w \<noteq> None"
    "fst (call_classifier (wt_running w) (wt_alive w) empty_slot) = Ended"
  using assms by (auto simp: new_image_classifier_def camera_warmup_def call_classifier_def empty_slot_def Let_def)

lemma camera_message_constant:
  "new_image_classifier fs model interpreter index cam = Inl (Start_Failed m) \<Longrightarrow>
   m = ''Failed to start camera: Camera startup timed out (Resource busy?)''"
  by (cases cam) (auto simp: new_image_classifier_def camera_warmup_def startup_message_def load_image_backend_def Let_def
      split: if_splits)

end
