(* ===== verification/Chat_Session.thy ===== *)
theory Chat_Session
  imports Language_Model
begin

text \<open>
  \<open>_run_remote_ui\<close> and \<open>_run_local_ui\<close> of \<open>plugins/language_model/adapter.py\<close>: a whole chat, turn by turn, over the
  connection of a terminal or at the console of the agent.  \<open>turns n\<close> is what the outside does in the turn number \<open>n\<close>.
\<close>

section \<open>What a turn keeps\<close>

definition same_chat :: "chat \<Rightarrow> chat \<Rightarrow> bool" where
  "same_chat c c' \<longleftrightarrow> ct_adapter c' = ct_adapter c \<and> ct_sock c' = ct_sock c"

lemma emit_same:
  assumes "emit x c = (r, c')"
  shows "same_chat c c'"
  using emit_shows [OF assms] unfolding shows_texts_def same_chat_def by blast

lemma answer_turn_same:
  assumes "answer_turn tu stream c = (r, c')"
  shows "same_chat c c'"
proof -
  have lines: "same_chat c c1" if "stream_lines tu ls acc c = (v, c1)" for ls acc v c1
    using stream_lines_run [OF that] by (auto simp: shows_texts_def same_chat_def)
  have whole: "same_chat c c1" if "whole_answer j c = (v, c1)" for j v c1
    using that by (auto simp: whole_answer_def same_chat_def raise_def ret_def elim!: seqE dest!: emit_same
      split: option.splits prod.splits if_splits)
  have refl: "same_chat c c" by (simp add: same_chat_def)
  show ?thesis
    using assms lines whole refl
    by (auto simp: answer_turn_def raise_def ret_def elim!: seqE split: option.splits if_splits)
qed

text \<open>What a turn adds to the conversation, and that it leaves the connection alone.\<close>

definition round_of :: "points \<Rightarrow> (string \<times> said) list \<Rightarrow> bool" where
  "round_of t ms \<longleftrightarrow> ms = [(''user'', Text t)] \<or> (\<exists>x. ms = [(''user'', Text t), (''assistant'', x)])"

lemma finish_turn_adds:
  assumes "finish_turn tu c = (r, c')"
  shows "ct_sock c' = ct_sock c \<and>
    (lm_messages (ct_adapter c') = lm_messages (ct_adapter c) \<or>
     (\<exists>x. lm_messages (ct_adapter c') = lm_messages (ct_adapter c) @ [(''assistant'', x)]))"
proof -
  obtain v c2 where a: "answer_turn tu (lm_stream (ct_adapter c)) c = (v, c2)" by fastforce
  note s = answer_turn_same [OF a, unfolded same_chat_def]
  show ?thesis
  proof (cases v)
    case (Inl e)
    with assms a have "emit (error_text tu) c2 = (r, c')" by (simp add: finish_turn_def)
    from emit_same [OF this] s show ?thesis by (simp add: same_chat_def)
  next
    case (Inr x)
    obtain w c3 where e: "emit (points_of [chr_nl]) c2 = (w, c3)" by fastforce
    note t = emit_same [OF e, unfolded same_chat_def]
    from assms a Inr e s t show ?thesis
      by (cases w) (auto simp: finish_turn_def seq_def change_adapter_def say_def)
  qed
qed

lemma process_turn_adds:
  assumes "process_turn tu t c = (r, c')"
  shows "ct_sock c' = ct_sock c \<and>
    (lm_messages (ct_adapter c') = lm_messages (ct_adapter c) \<or>
     (\<exists>ms. round_of t ms \<and> lm_messages (ct_adapter c') = lm_messages (ct_adapter c) @ ms))"
proof (cases "wants_to_quit t")
  case True
  with assms show ?thesis by (auto simp: process_turn_def change_adapter_def)
next
  case False
  define c0 where "c0 = change_adapter (say ''user'' (Text t)) c"
  have c0: "ct_sock c0 = ct_sock c" "lm_messages (ct_adapter c0) = lm_messages (ct_adapter c) @ [(''user'', Text t)]"
    by (simp_all add: c0_def change_adapter_def say_def)
  obtain u c1 where e: "emit (turn_prompt tu) c0 = (u, c1)" by fastforce
  note same = emit_same [OF e, unfolded same_chat_def]
  show ?thesis
  proof (cases u)
    case (Inl x)
    with assms False e have "c' = c1" by (simp add: process_turn_def seq_def c0_def)
    with same c0 show ?thesis by (auto simp: round_of_def)
  next
    case (Inr x)
    with assms False e have "finish_turn tu c1 = (r, c')" by (simp add: process_turn_def seq_def c0_def)
    from finish_turn_adds [OF this] same c0 show ?thesis by (auto simp: round_of_def)
  qed
qed

lemma process_turn_sock: "process_turn tu t c = (r, c') \<Longrightarrow> ct_sock c' = ct_sock c"
  by (drule process_turn_adds) simp

lemma emit_sock: "emit x c = (r, c') \<Longrightarrow> ct_sock c' = ct_sock c"
  by (drule emit_same) (simp add: same_chat_def)

section \<open>A chat over a connection\<close>

definition not_running :: "chat \<Rightarrow> chat" where
  "not_running = change_adapter (\<lambda>a. a\<lparr>lm_running := False\<rparr>)"

definition user_prompt :: "turn \<Rightarrow> points" where
  "user_prompt tu = tu_green tu @ points_of ([chr_nl] @ ''User: '') @ tu_reset tu"

text \<open>An exception ends the adapter; the end of the input, or an empty line, ends only the chat.\<close>

function remote_loop :: "(nat \<Rightarrow> turn) \<Rightarrow> nat \<Rightarrow> chat \<Rightarrow> chat" where
  "remote_loop turns n c =
     (if \<not> lm_running (ct_adapter c) then c
      else case emit (user_prompt (turns n)) c of
        (Inl _, c1) \<Rightarrow> not_running c1
      | (Inr _, c1) \<Rightarrow>
          (case net_recv (ct_sock c1) of
             (None, s) \<Rightarrow> c1\<lparr>ct_sock := s\<rparr>
           | (Some t, s) \<Rightarrow>
               if t = [] then c1\<lparr>ct_sock := s\<rparr>
               else case process_turn (turns n) t (c1\<lparr>ct_sock := s\<rparr>) of
                 (Inl _, c2) \<Rightarrow> not_running c2
               | (Inr _, c2) \<Rightarrow> remote_loop turns (Suc n) c2))"
  by pat_completeness auto
termination
proof (relation "measure (\<lambda>(turns, n, c). length (incoming (ct_sock c)))", goal_cases)
  case (2 turns n c x c1 u y s t z c2 v)
  then have "ct_sock c1 = ct_sock c" "net_recv (ct_sock c1) = (Some t, s)" "ct_sock c2 = s"
    using emit_sock [of "user_prompt (turns n)" c x c1] process_turn_sock [of "turns n" t "c1\<lparr>ct_sock := s\<rparr>" z c2] by simp_all
  with net_recv_shorter [of "ct_sock c1" t s] show ?case by simp
qed simp

declare remote_loop.simps [simp del]

text \<open>
  The terminal is opened, connects, and the chat runs; \<open>opened\<close>: the port of the agent, \<open>script\<close>: the file \<open>client.py\<close>,
  \<open>accepted\<close>: the connection of the terminal.
\<close>

definition greeting :: "turn \<Rightarrow> points \<Rightarrow> points" where
  "greeting tu yellow = points_of [chr_nl] @ yellow @ points_of ''--- Interactive Chat Started ---'' @ tu_reset tu @ points_of [chr_nl]"

definition run_remote_ui :: "bool \<Rightarrow> bool \<Rightarrow> bool \<Rightarrow> points \<Rightarrow> (nat \<Rightarrow> turn) \<Rightarrow> chat \<Rightarrow> chat" where
  "run_remote_ui opened script accepted yellow turns c =
     (if \<not> opened then not_running c
      else if \<not> script then c
      else if \<not> accepted then not_running c
      else case emit (greeting (turns 0) yellow) c of
        (Inl _, c1) \<Rightarrow> not_running c1
      | (Inr _, c1) \<Rightarrow> remote_loop turns 0 c1)"

section \<open>A chat at the console\<close>

text \<open>The lines that are typed; \<open>None\<close> is the end of the input or an interrupt.  An exception ends the thread.\<close>

fun local_loop :: "(nat \<Rightarrow> turn) \<Rightarrow> nat \<Rightarrow> points option list \<Rightarrow> chat \<Rightarrow> chat" where
  "local_loop turns n [] c = c"
| "local_loop turns n (l # ls) c =
     (if \<not> lm_running (ct_adapter c) then c
      else case l of
        None \<Rightarrow> not_running c
      | Some t \<Rightarrow> (case process_turn (turns n) t c of (Inl _, c1) \<Rightarrow> c1 | (Inr _, c1) \<Rightarrow> local_loop turns (Suc n) ls c1))"

definition run_local_ui :: "bool \<Rightarrow> (nat \<Rightarrow> turn) \<Rightarrow> points option list \<Rightarrow> chat \<Rightarrow> chat" where
  "run_local_ui tty turns ls c = (if tty then local_loop turns 0 ls c else c)"

section \<open>The conversation\<close>

definition rounds :: "(string \<times> said) list \<Rightarrow> bool" where
  "rounds ms \<longleftrightarrow> (\<exists>rs. ms = concat rs \<and> (\<forall>r \<in> set rs. \<exists>t. round_of t r))"

definition longer :: "chat \<Rightarrow> chat \<Rightarrow> bool" where
  "longer c c' \<longleftrightarrow> (\<exists>ms. rounds ms \<and> lm_messages (ct_adapter c') = lm_messages (ct_adapter c) @ ms)"

lemma longer_refl: "lm_messages (ct_adapter c') = lm_messages (ct_adapter c) \<Longrightarrow> longer c c'"
  by (auto simp: longer_def rounds_def intro: exI [of _ "[]"])

lemma longer_trans:
  assumes "longer a b" "longer b c"
  shows "longer a c"
proof -
  from assms obtain rs qs where rs: "\<forall>r \<in> set rs. \<exists>t. round_of t r" "lm_messages (ct_adapter b) = lm_messages (ct_adapter a) @ concat rs"
    and qs: "\<forall>r \<in> set qs. \<exists>t. round_of t r" "lm_messages (ct_adapter c) = lm_messages (ct_adapter b) @ concat qs"
    by (auto simp: longer_def rounds_def)
  then have "lm_messages (ct_adapter c) = lm_messages (ct_adapter a) @ concat (rs @ qs)" by simp
  moreover have "rounds (concat (rs @ qs))" using rs(1) qs(1) by (auto simp: rounds_def intro!: exI [of _ "rs @ qs"])
  ultimately show ?thesis by (auto simp: longer_def)
qed

lemma longer_turn: "process_turn tu t c = (r, c') \<Longrightarrow> longer c c'"
proof (drule process_turn_adds, elim conjE disjE exE)
  fix ms assume "round_of t ms" "lm_messages (ct_adapter c') = lm_messages (ct_adapter c) @ ms"
  then show "longer c c'" by (auto simp: longer_def rounds_def intro!: exI [of _ "[ms]"])
qed (rule longer_refl)

lemma longer_emit: "emit x c = (r, c') \<Longrightarrow> longer c c'"
  by (drule emit_same) (simp add: same_chat_def longer_refl)

lemma longer_stop: "longer a c \<Longrightarrow> longer a (not_running c)"
  by (simp add: longer_def not_running_def change_adapter_def)

lemma longer_sock: "longer a c \<Longrightarrow> longer a (c\<lparr>ct_sock := s\<rparr>)"
  by (simp add: longer_def)

lemma remote_loop_longer: "longer c (remote_loop turns n c)"
proof (induction turns n c rule: remote_loop.induct)
  case (1 turns n c)
  show ?case
  proof (cases "lm_running (ct_adapter c)")
    case False
    then show ?thesis by (simp add: remote_loop.simps longer_refl)
  next
    case True
    obtain u c1 where e: "emit (user_prompt (turns n)) c = (u, c1)" by fastforce
    obtain q s where q: "net_recv (ct_sock c1) = (q, s)" by fastforce
    note shown = longer_emit [OF e]
    show ?thesis
    proof (cases "(\<exists>x. u = Inl x) \<or> q = None \<or> q = Some []")
      case ended: True
      with True e q shown show ?thesis
        by (subst remote_loop.simps) (auto split: sum.split intro: longer_stop longer_sock)
    next
      case False
      then obtain x t where ut: "u = Inr x" "q = Some t" "t \<noteq> []" by (cases u; cases q) auto
      obtain v c2 where p: "process_turn (turns n) t (c1\<lparr>ct_sock := s\<rparr>) = (v, c2)" by fastforce
      have two: "longer c c2" by (rule longer_trans [OF longer_sock [OF shown] longer_turn [OF p]])
      have "longer c2 (remote_loop turns (Suc n) c2)" if "v = Inr y" for y
        using 1 [of u c1 x q s t v c2 y] True e q ut p that by simp
      with two longer_trans True e q ut p longer_stop show ?thesis
        by (subst remote_loop.simps) (auto split: sum.split)
    qed
  qed
qed

lemma local_loop_longer: "longer c (local_loop turns n ls c)"
proof (induction ls arbitrary: n c)
  case Nil
  show ?case by (simp add: longer_refl)
next
  case (Cons l ls)
  show ?case
  proof (cases l)
    case None
    then show ?thesis by (simp add: longer_refl longer_stop)
  next
    case (Some t)
    obtain v c1 where p: "process_turn (turns n) t c = (v, c1)" by fastforce
    from longer_turn [OF p] Cons.IH [of c1 "Suc n"] longer_trans p Some show ?thesis
      by (auto simp: longer_refl split: sum.split)
  qed
qed


text \<open>A chat that starts with the system prompt, and a turn whose server is down: the question stays without an answer.\<close>

definition start_chat :: "points \<Rightarrow> adapter \<Rightarrow> adapter" where
  "start_chat system_prompt a = a\<lparr>lm_messages := [(''system'', Text system_prompt)]\<rparr>"

lemma unanswered_question:
  "lm_messages (ct_adapter (run_local_ui True (\<lambda>_. sample_turn\<lparr>tu_answer := None\<rparr>) [Some (points_of ''Hi''), Some (points_of ''Hm''), None] sample_chat)) =
   [(''user'', Text (points_of ''Hi'')), (''user'', Text (points_of ''Hm''))]"
  by (simp add: run_local_ui_def not_running_def error_text_def raise_def sample_simps)


end
