(* ===== verification/Prefetch.thy ===== *)
theory Prefetch
  imports Engine_Install
begin

text \<open>
  \<open>bundling/prefetch.py\<close>: the inference engines a bundle ships are installed into the build tree with the
  installers of the plugins, and the tools that came along with them are deleted again.
  \<open>st_locked\<close> are the files the system does not let go of.
\<close>

section \<open>What may be deleted\<close>

definition LLAMA_RUNTIME_EXECUTABLES :: "string list" where
  "LLAMA_RUNTIME_EXECUTABLES = [''llama-server'', ''llama-server.exe'', ''llama-swap'', ''llama-swap.exe'']"

definition WHISPER_RUNTIME_EXECUTABLES :: "string list" where
  "WHISPER_RUNTIME_EXECUTABLES = [''whisper-server'', ''whisper-server.exe'']"

definition is_shared_library :: "string \<Rightarrow> bool" where
  "is_shared_library name =
     (let n = py_lower name in
      startswith n ''lib'' \<or> list_ex (endswith n) [''.dylib'', ''.so'', ''.dll'', ''.metallib'', ''.metal''] \<or> contains_sub ''.so.'' n)"

definition EXECUTABLE_MAGIC_PREFIXES :: "string list" where
  "EXECUTABLE_MAGIC_PREFIXES =
     [[CHR 0xCF, CHR 0xFA, CHR 0xED, CHR 0xFE], [CHR 0xFE, CHR 0xED, CHR 0xFA, CHR 0xCF], [CHR 0xCE, CHR 0xFA, CHR 0xED, CHR 0xFE],
      [CHR 0xFE, CHR 0xED, CHR 0xFA, CHR 0xCE], [CHR 0xCA, CHR 0xFE, CHR 0xBA, CHR 0xBE], [CHR 0xBE, CHR 0xBA, CHR 0xFE, CHR 0xCA]]"

definition is_executable_file :: "fs \<Rightarrow> apath \<Rightarrow> bool" where
  "is_executable_file fs p =
     (case read_text fs p of
        None \<Rightarrow> False
      | Some s \<Rightarrow>
          let head = take 4 s in
          head \<in> set EXECUTABLE_MAGIC_PREFIXES \<or> startswith head (CHR 0x7F # ''ELF'') \<or> take 2 head = ''MZ'')"

text \<open>\<open>p.rglob("*")\<close>: everything below a directory, links not followed.\<close>

definition below :: "fs \<Rightarrow> apath \<Rightarrow> apath list" where
  "below fs p =
     (case realpath fs p of
        None \<Rightarrow> []
      | Some d \<Rightarrow> map (\<lambda>e. p @ drop (length d) (fst e)) (filter (\<lambda>e. strict_prefix d (fst e) \<and> ''..'' \<notin> set (fst e)) fs))"

definition let_go :: "site \<Rightarrow> apath \<Rightarrow> fs \<Rightarrow> fs" where
  "let_go st p fs = (case if st_locked st p then None else unlink fs p of None \<Rightarrow> fs | Some fs' \<Rightarrow> fs')"

definition unused_tool :: "string list \<Rightarrow> fs \<Rightarrow> apath \<Rightarrow> bool" where
  "unused_tool keep fs p \<longleftrightarrow>
     is_file fs p \<and> \<not> is_symlink fs p \<and> \<not> is_shared_library (last p) \<and> last p \<notin> set keep \<and> is_executable_file fs p"

definition dangling :: "fs \<Rightarrow> apath \<Rightarrow> bool" where
  "dangling fs p \<longleftrightarrow> is_symlink fs p \<and> \<not> path_exists fs p"

fun delete_all :: "site \<Rightarrow> (fs \<Rightarrow> apath \<Rightarrow> bool) \<Rightarrow> apath list \<Rightarrow> fs \<Rightarrow> fs" where
  "delete_all st bad [] fs = fs"
| "delete_all st bad (p # ps) fs = delete_all st bad ps (if bad fs p then let_go st p fs else fs)"

definition prune_unused_executables :: "site \<Rightarrow> apath \<Rightarrow> string list \<Rightarrow> fs \<Rightarrow> fs" where
  "prune_unused_executables st bin_dir keep fs =
     (let fs1 = delete_all st (unused_tool keep) (sort (below fs bin_dir)) fs in
      delete_all st dangling (below fs1 bin_dir) fs1)"

section \<open>The plugins\<close>

text \<open>
  \<open>build_layout\<close>: the installer of a plugin with its cache moved to the build tree.
\<close>

definition build_layout :: "apath \<Rightarrow> string \<Rightarrow> layout" where
  "build_layout dest_root bin = \<lparr>la_frozen = False, la_bin = dest_root @ [bin], la_cache = dest_root @ [''build-cache'']\<rparr>"

definition prune_step :: "site \<Rightarrow> apath \<Rightarrow> string list \<Rightarrow> unit inst" where
  "prune_step st bin_dir keep = change_or Escaped (\<lambda>fs. Some (prune_unused_executables st bin_dir keep fs))"

definition prefetch_language_model :: "site \<Rightarrow> gpu \<Rightarrow> (string list \<Rightarrow> string list) \<Rightarrow> apath \<Rightarrow> apath inst" where
  "prefetch_language_model st gp order dest_root =
     (let bin_dir = dest_root @ [''bin-llama'']; la = build_layout dest_root ''bin-llama'' in
      seq (change_or Escaped (\<lambda>fs. mkdirs fs bin_dir)) (\<lambda>_.
      (case prebuilt_url st gp LLAMA_CPP_RELEASE of
         None \<Rightarrow> raise SysExit
       | Some cpp_url \<Rightarrow>
           seq (install_prebuilt st order la cpp_url LLAMA_CPP_RELEASE) (\<lambda>ok.
           seq (ensure ok SysExit) (\<lambda>_.
           seq (case swap_prebuilt_url st LLAMA_SWAP_RELEASE of
                  None \<Rightarrow> ret ()
                | Some swap_url \<Rightarrow>
                    seq (install_swap_prebuilt st la swap_url LLAMA_SWAP_RELEASE) (\<lambda>ok. ensure ok SysExit)) (\<lambda>_.
           seq (prune_step st bin_dir LLAMA_RUNTIME_EXECUTABLES) (\<lambda>_. ret bin_dir)))))))"

definition whisper_cmake_flags :: "site \<Rightarrow> gpu \<Rightarrow> toolbox \<Rightarrow> string list" where
  "whisper_cmake_flags st gp tb =
     [''-DCMAKE_BUILD_TYPE=Release'', ''-DWHISPER_BUILD_SERVER=ON'', ''-DWHISPER_BUILD_EXAMPLES=ON'', ''-DBUILD_SHARED_LIBS=OFF''] @
     (if system_name st = ''Darwin'' then [''-DGGML_NATIVE=OFF''] else []) @ detect_gpu_cmake_flags st gp tb"

definition prefetch_audio_transcriber ::
    "site \<Rightarrow> gpu \<Rightarrow> toolbox \<Rightarrow> (string list \<Rightarrow> string list) \<Rightarrow> apath \<Rightarrow> apath inst" where
  "prefetch_audio_transcriber st gp tb order dest_root =
     (let bin_dir = dest_root @ [''bin-whisper'']; la = build_layout dest_root ''bin-whisper'' in
      seq (change_or Escaped (\<lambda>fs. mkdirs fs bin_dir)) (\<lambda>_.
      seq (case whisper_prebuilt_url st gp WHISPER_CPP_RELEASE of
             Some url \<Rightarrow> seq (whisper_install_prebuilt st order la url WHISPER_CPP_RELEASE) (\<lambda>ok. ensure ok SysExit)
           | None \<Rightarrow> whisper_cmake_build st tb la WHISPER_CPP_RELEASE (whisper_cmake_flags st gp tb)) (\<lambda>_.
      seq (prune_step st bin_dir WHISPER_RUNTIME_EXECUTABLES) (\<lambda>_. ret bin_dir))))"

text \<open>\<open>PREFETCHERS\<close>: \<open>None\<close> for a plugin without an engine.\<close>

definition prefetcher ::
    "site \<Rightarrow> gpu \<Rightarrow> toolbox \<Rightarrow> (string list \<Rightarrow> string list) \<Rightarrow> apath \<Rightarrow> string \<Rightarrow> apath inst option" where
  "prefetcher st gp tb order dest_root plugin =
     (if plugin = ''language_model'' then Some (prefetch_language_model st gp order dest_root)
      else if plugin = ''audio_transcriber'' then Some (prefetch_audio_transcriber st gp tb order dest_root)
      else None)"

fun run_prefetch ::
    "site \<Rightarrow> gpu \<Rightarrow> toolbox \<Rightarrow> (string list \<Rightarrow> string list) \<Rightarrow> apath \<Rightarrow> string list \<Rightarrow> unit inst" where
  "run_prefetch st gp tb order dest_root [] = ret ()"
| "run_prefetch st gp tb order dest_root (p # ps) =
     (case prefetcher st gp tb order dest_root p of
        None \<Rightarrow> run_prefetch st gp tb order dest_root ps
      | Some fetch \<Rightarrow> seq fetch (\<lambda>_. run_prefetch st gp tb order dest_root ps))"

section \<open>What pruning leaves\<close>

text \<open>A directory without links on its way, whose entries all lie in directories.\<close>

definition tree_at :: "apath \<Rightarrow> fs \<Rightarrow> bool" where
  "tree_at D fs \<longleftrightarrow> canonical fs D \<and>
     (\<forall>q. strict_prefix D q \<and> node fs q \<noteq> None \<longrightarrow> canonical fs (butlast q) \<and> last q \<noteq> ''..'')"

definition executable_bytes :: "string \<Rightarrow> bool" where
  "executable_bytes s \<longleftrightarrow>
     take 4 s \<in> set EXECUTABLE_MAGIC_PREFIXES \<or> startswith (take 4 s) (CHR 0x7F # ''ELF'') \<or> take 2 (take 4 s) = ''MZ''"

fun tool_entry :: "string list \<Rightarrow> apath \<Rightarrow> entry option \<Rightarrow> bool" where
  "tool_entry keep q (Some (EFile s)) \<longleftrightarrow> \<not> is_shared_library (last q) \<and> last q \<notin> set keep \<and> executable_bytes s"
| "tool_entry keep q _ \<longleftrightarrow> False"

text \<open>An entry of a directory without links on its way: what the tests of the code see.\<close>

lemma entry_seen:
  assumes "canonical fs (butlast q)" "last q \<noteq> ''..''" "q \<noteq> []"
  shows "unused_tool keep fs q \<longleftrightarrow> tool_entry keep q (node fs q)"
    and "is_symlink fs q \<longleftrightarrow> is_link_entry (node fs q)"
    and "\<not> is_dir_entry (node fs q) \<Longrightarrow> node fs q \<noteq> None \<Longrightarrow>
      let_go st q fs = (if st_locked st q then fs else AList.delete q fs)"
proof -
  have q: "butlast q @ [last q] = q" using assms(3) by simp
  note seen = lstat_canonical [OF assms(1,2)] lpath_canonical [OF assms(1,2)] stat_plain [OF assms(1,2)]
  from seen(1) q show link: "is_symlink fs q \<longleftrightarrow> is_link_entry (node fs q)" by (simp add: is_symlink_def)
  have plain: "stat fs q = node fs q" if "\<not> is_link_entry (node fs q)" using that seen(3) q by simp
  show "unused_tool keep fs q \<longleftrightarrow> tool_entry keep q (node fs q)"
  proof (cases "is_link_entry (node fs q)")
    case True
    with link show ?thesis by (cases "node fs q" rule: is_link_entry.cases) (auto simp: unused_tool_def)
  next
    case False
    with plain link show ?thesis
      by (cases "(keep, q, node fs q)" rule: tool_entry.cases)
        (auto simp: unused_tool_def is_file_def is_executable_file_def read_text_def executable_bytes_def Let_def)
  qed
  show "let_go st q fs = (if st_locked st q then fs else AList.delete q fs)" if "\<not> is_dir_entry (node fs q)" "node fs q \<noteq> None"
    using that seen(2) q by (auto simp: let_go_def unlink_def split: entry.splits)
qed

definition same_dirs :: "fs \<Rightarrow> fs \<Rightarrow> bool" where
  "same_dirs a b \<longleftrightarrow> (\<forall>q. is_dir_entry (node a q) = is_dir_entry (node b q))"

lemma same_dirs_canonical: "same_dirs a b \<Longrightarrow> canonical a D = canonical b D"
  by (simp add: same_dirs_def canonical_def)

lemma same_dirs_delete: "q \<noteq> [] \<Longrightarrow> \<not> is_dir_entry (node fs q) \<Longrightarrow> same_dirs (AList.delete q fs) fs"
  by (auto simp: same_dirs_def node_delete)

lemma same_dirs_trans: "same_dirs a b \<Longrightarrow> same_dirs b c \<Longrightarrow> same_dirs a c"
  by (simp add: same_dirs_def)

lemma in_below:
  assumes "tree_at D fs"
  shows "q \<in> set (below fs D) \<longleftrightarrow> strict_prefix D q \<and> node fs q \<noteq> None"
proof -
  have real: "realpath fs D = Some D" using assms by (simp add: tree_at_def realpath_canonical)
  have keep: "D @ drop (length D) p = p" if "strict_prefix D p" for p
    using that by (auto simp: strict_prefix_def prefix_def)
  have found: "node fs p \<noteq> None \<longleftrightarrow> p \<in> fst ` set fs" if "strict_prefix D p" for p
    using that strict_prefix_ne_Nil [OF that] by (simp add: node_def map_of_eq_None_iff)
  have no_up: "''..'' \<notin> set p" if "strict_prefix D p" "node fs p \<noteq> None" for p
  proof -
    have "p = butlast p @ [last p]" using strict_prefix_ne_Nil [OF that(1)] by simp
    moreover from assms that have "''..'' \<notin> set (butlast p)" "last p \<noteq> ''..''" by (auto simp: tree_at_def canonical_def)
    ultimately show ?thesis by (metis Un_iff empty_iff insert_iff list.set(1,2) set_append)
  qed
  have "set (below fs D) = {p \<in> fst ` set fs. strict_prefix D p \<and> ''..'' \<notin> set p}"
    using keep by (force simp: below_def real)
  with found no_up show ?thesis by auto
qed

lemma delete_tools:
  assumes "\<And>p. p \<in> set ps \<Longrightarrow> canonical fs (butlast p) \<and> last p \<noteq> ''..'' \<and> p \<noteq> []"
  shows "node (delete_all st (unused_tool keep) ps fs) q =
      (if q \<in> set ps \<and> tool_entry keep q (node fs q) \<and> \<not> st_locked st q then None else node fs q)"
    and "same_dirs (delete_all st (unused_tool keep) ps fs) fs"
proof -
  have "(\<forall>q. node (delete_all st (unused_tool keep) ps fs) q =
      (if q \<in> set ps \<and> tool_entry keep q (node fs q) \<and> \<not> st_locked st q then None else node fs q)) \<and>
      same_dirs (delete_all st (unused_tool keep) ps fs) fs"
    using assms
  proof (induction ps arbitrary: fs)
    case Nil
    then show ?case by (simp add: same_dirs_def)
  next
    case (Cons p ps)
    define fs1 where "fs1 = (if unused_tool keep fs p then let_go st p fs else fs)"
    from Cons.prems [of p] have p: "canonical fs (butlast p)" "last p \<noteq> ''..''" "p \<noteq> []" by auto
    have tool: "tool_entry keep p (node fs p) \<Longrightarrow> \<not> is_dir_entry (node fs p) \<and> node fs p \<noteq> None"
      by (cases "(keep, p, node fs p)" rule: tool_entry.cases) auto
    with entry_seen [OF p] have fs1: "fs1 = (if tool_entry keep p (node fs p) \<and> \<not> st_locked st p then AList.delete p fs else fs)"
      by (auto simp: fs1_def)
    with tool p(3) have dirs: "same_dirs fs1 fs"
      using same_dirs_delete [OF p(3), of fs] by (auto simp: same_dirs_def)
    with Cons.prems Cons.IH [of fs1] same_dirs_canonical [OF dirs]
    have ih: "node (delete_all st (unused_tool keep) ps fs1) q =
        (if q \<in> set ps \<and> tool_entry keep q (node fs1 q) \<and> \<not> st_locked st q then None else node fs1 q)"
      "same_dirs (delete_all st (unused_tool keep) ps fs1) fs1" for q by auto
    have "node fs1 q = (if q = p \<and> tool_entry keep p (node fs p) \<and> \<not> st_locked st p then None else node fs q)" for q
      by (simp add: fs1 node_delete [OF p(3)])
    with ih same_dirs_trans [OF ih(2) dirs] show ?case by (auto simp: fs1_def [symmetric])
  qed
  then show "node (delete_all st (unused_tool keep) ps fs) q =
      (if q \<in> set ps \<and> tool_entry keep q (node fs q) \<and> \<not> st_locked st q then None else node fs q)"
    "same_dirs (delete_all st (unused_tool keep) ps fs) fs" by blast+
qed

text \<open>The second pass takes nothing but links, and of those none that names a file beside it.\<close>

lemma link_to_sibling:
  assumes "canonical fs (butlast q)" "last q \<noteq> ''..''" "q \<noteq> []" "node fs q = Some (ELink t)" "path_parts t = [t]"
    "\<not> startswith t ''/''" "t \<noteq> ''..''" "node fs (butlast q @ [t]) = Some (EFile s)"
  shows "path_exists fs q"
proof -
  have q: "butlast q @ [last q] = q" using assms(3) by simp
  from assms have "walk 39 fs (butlast q) [t] = Some (butlast q @ [t])" by simp
  with assms q have "walk 40 fs (butlast q) [last q] = Some (butlast q @ [t])"
    by (simp add: numeral_eq_Suc)
  with walk_canonical [OF assms(1), of 40 "[last q]"] q have "realpath fs q = Some (butlast q @ [t])"
    by (simp add: realpath_def)
  with assms(8) show ?thesis by (simp add: path_exists_def stat_def)
qed

definition spared :: "apath list \<Rightarrow> fs \<Rightarrow> fs \<Rightarrow> apath \<Rightarrow> bool" where
  "spared ps fs fs' q \<longleftrightarrow> node fs' q = node fs q \<or>
     q \<in> set ps \<and> is_link_entry (node fs q) \<and> node fs' q = None \<and>
     (\<forall>t s. node fs q = Some (ELink t) \<and> path_parts t = [t] \<and> \<not> startswith t ''/'' \<and> t \<noteq> ''..'' \<longrightarrow>
        node fs (butlast q @ [t]) \<noteq> Some (EFile s))"

lemma delete_dangling:
  assumes "\<And>p. p \<in> set ps \<Longrightarrow> canonical fs (butlast p) \<and> last p \<noteq> ''..'' \<and> p \<noteq> []"
  shows "spared ps fs (delete_all st dangling ps fs) q"
  using assms
proof (induction ps arbitrary: fs)
  case Nil
  then show ?case by (simp add: spared_def)
next
  case (Cons p ps)
  define fs1 where "fs1 = (if dangling fs p then let_go st p fs else fs)"
  from Cons.prems [of p] have p: "canonical fs (butlast p)" "last p \<noteq> ''..''" "p \<noteq> []" by auto
  have link: "is_link_entry e \<Longrightarrow> \<not> is_dir_entry e \<and> e \<noteq> None" for e by (cases e rule: is_link_entry.cases) auto
  with entry_seen [OF p] have fs1: "fs1 = (if dangling fs p \<and> \<not> st_locked st p then AList.delete p fs else fs)"
    and gone: "dangling fs p \<Longrightarrow> is_link_entry (node fs p)" by (auto simp: fs1_def dangling_def)
  have dirs: "same_dirs fs1 fs"
    using same_dirs_delete [OF p(3), of fs] gone link by (auto simp: fs1 same_dirs_def)
  have node1: "node fs1 q = (if q = p \<and> dangling fs p \<and> \<not> st_locked st p then None else node fs q)" for q
    by (simp add: fs1 node_delete [OF p(3)])
  have files: "node fs1 x = Some (EFile s) \<longleftrightarrow> node fs x = Some (EFile s)" for x s using node1 [of x] gone by auto
  have here: "node fs (butlast p @ [t]) \<noteq> Some (EFile s)"
    if "dangling fs p" "node fs p = Some (ELink t)" "path_parts t = [t]" "\<not> startswith t ''/''" "t \<noteq> ''..''" for t s
    using that link_to_sibling [OF p that(2-5)] by (auto simp: dangling_def)
  have rest: "node (delete_all st dangling (p # ps) fs) q = node (delete_all st dangling ps fs1) q"
    by (simp add: fs1_def)
  have ih: "spared ps fs1 (delete_all st dangling ps fs1) q"
  proof (rule Cons.IH)
    fix x assume "x \<in> set ps"
    with Cons.prems [of x] same_dirs_canonical [OF dirs] show "canonical fs1 (butlast x) \<and> last x \<noteq> ''..'' \<and> x \<noteq> []" by simp
  qed
  show ?case
  proof (cases "node (delete_all st dangling ps fs1) q = node fs1 q")
    case True
    with node1 [of q] gone here show ?thesis
      unfolding rest spared_def by (cases "q = p \<and> dangling fs p \<and> \<not> st_locked st p") auto
  next
    case False
    with ih node1 [of q] files show ?thesis unfolding rest spared_def by (auto split: if_splits)
  qed
qed

text \<open>
  C29. Pruning the engine directory of a bundle deletes exactly the executables nobody runs: a file below the directory
  is gone if and only if it starts like a program, is no shared library, is not on the list, and the system lets go of it; every other file
  keeps its content, every directory stays, nothing outside is touched, and a link that names a file left beside it stays.
\<close>

theorem prune_deletes_unused_tools:
  assumes "tree_at D fs" "fs' = prune_unused_executables st D keep fs"
  shows "(\<forall>q s. strict_prefix D q \<and> node fs q = Some (EFile s) \<longrightarrow>
      node fs' q = (if executable_bytes s \<and> \<not> is_shared_library (last q) \<and> last q \<notin> set keep \<and> \<not> st_locked st q
                    then None else Some (EFile s))) \<and>
    (\<forall>q. \<not> strict_prefix D q \<or> is_dir_entry (node fs q) \<or> node fs q = None \<longrightarrow> node fs' q = node fs q) \<and>
    (\<forall>q t s. node fs q = Some (ELink t) \<and> path_parts t = [t] \<and> \<not> startswith t ''/'' \<and> t \<noteq> ''..'' \<and>
      node fs' (butlast q @ [t]) = Some (EFile s) \<longrightarrow> node fs' q = node fs q)"
proof -
  define fs1 where "fs1 = delete_all st (unused_tool keep) (sort (below fs D)) fs"
  have fs': "fs' = delete_all st dangling (below fs1 D) fs1"
    using assms(2) by (simp add: prune_unused_executables_def fs1_def Let_def)
  have ent: "canonical fs (butlast p) \<and> last p \<noteq> ''..'' \<and> p \<noteq> []" if "strict_prefix D p" "node fs p \<noteq> None" for p
    using assms(1) that strict_prefix_ne_Nil unfolding tree_at_def by blast
  with in_below [OF assms(1)] have "\<And>p. p \<in> set (sort (below fs D)) \<Longrightarrow> canonical fs (butlast p) \<and> last p \<noteq> ''..'' \<and> p \<noteq> []"
    by simp
  note first = delete_tools [OF this, of "sort (below fs D)", simplified, where st = st and keep = keep, folded fs1_def]
  have node1: "node fs1 q = (if strict_prefix D q \<and> node fs q \<noteq> None \<and> tool_entry keep q (node fs q) \<and> \<not> st_locked st q
      then None else node fs q)" for q using first(1) in_below [OF assms(1)] by simp
  have "tree_at D fs1" unfolding tree_at_def
    using assms(1) same_dirs_canonical [OF first(2)] node1 unfolding tree_at_def by (metis (full_types))
  note below1 = in_below [OF this]
  have "canonical fs1 (butlast p) \<and> last p \<noteq> ''..'' \<and> p \<noteq> []" if "p \<in> set (below fs1 D)" for p
    using that below1 \<open>tree_at D fs1\<close> strict_prefix_ne_Nil unfolding tree_at_def by blast
  then have "spared (below fs1 D) fs1 fs' q" for q unfolding fs' by (intro delete_dangling)
  note second = this [unfolded spared_def]
  have "node fs' q = (if executable_bytes s \<and> \<not> is_shared_library (last q) \<and> last q \<notin> set keep \<and> \<not> st_locked st q
      then None else Some (EFile s))" if "strict_prefix D q" "node fs q = Some (EFile s)" for q s
    using second [of q] node1 [of q] that by (auto split: if_splits)
  moreover have "node fs' q = node fs q" if "\<not> strict_prefix D q \<or> is_dir_entry (node fs q) \<or> node fs q = None" for q
  proof -
    have "\<not> tool_entry keep q (node fs q)" if "is_dir_entry (node fs q)"
      using that by (cases "node fs q" rule: is_dir_entry.cases) auto
    with that node1 [of q] have same: "node fs1 q = node fs q" by auto
    have "\<not> (q \<in> set (below fs1 D) \<and> is_link_entry (node fs1 q))"
    proof
      assume "q \<in> set (below fs1 D) \<and> is_link_entry (node fs1 q)"
      with below1 same that show False by (cases "node fs q" rule: is_link_entry.cases) auto
    qed
    with second [of q] same show ?thesis by auto
  qed
  moreover have "node fs' q = node fs q" if "node fs q = Some (ELink t)" "path_parts t = [t]" "\<not> startswith t ''/''" "t \<noteq> ''..''"
      "node fs' (butlast q @ [t]) = Some (EFile s)" for q t s
  proof -
    from second [of "butlast q @ [t]"] that(5) have "node fs1 (butlast q @ [t]) = Some (EFile s)" by auto
    moreover have "node fs1 q = node fs q" using node1 [of q] that(1) by simp
    ultimately show ?thesis using second [of q] that by auto
  qed
  ultimately show ?thesis by blast
qed

definition staged :: fs where
  "staged =
     [([''b''], EDir 0), ([''b'', ''llama-server''], EFile ''MZ1''), ([''b'', ''llama-bench''], EFile ''MZ2''),
      ([''b'', ''libggml.so''], EFile (CHR 0x7F # ''ELF'')), ([''b'', ''README''], EFile ''text''),
      ([''b'', ''short''], ELink ''libggml.so''), ([''b'', ''bench''], ELink ''llama-bench'')]"

lemma staged_tree: "tree_at [''b''] staged"
proof -
  have b: "canonical staged [''b'']" by (simp add: canonical_Snoc [of _ "[]", simplified] staged_def node_def)
  have "butlast q = [''b''] \<and> last q \<noteq> ''..''" if "strict_prefix [''b''] q" "node staged q \<noteq> None" for q
  proof -
    from that strict_prefix_ne_Nil [OF that(1)] have "q \<in> fst ` set staged" by (simp add: node_def map_of_eq_None_iff)
    with that(1) show ?thesis by (auto simp: staged_def)
  qed
  with b show ?thesis unfolding tree_at_def by auto
qed

theorem prune_deletes_unused_tools_witness:
  "let fs = prune_unused_executables swap_site [''b''] LLAMA_RUNTIME_EXECUTABLES staged in
   node fs [''b'', ''llama-server''] = Some (EFile ''MZ1'') \<and> node fs [''b'', ''llama-bench''] = None \<and>
   node fs [''b'', ''libggml.so''] = Some (EFile (CHR 0x7F # ''ELF'')) \<and> node fs [''b'', ''README''] = Some (EFile ''text'') \<and>
   node fs [''b'', ''short''] = Some (ELink ''libggml.so'')"
proof -
  note use = prune_deletes_unused_tools [OF staged_tree refl, of swap_site LLAMA_RUNTIME_EXECUTABLES]
  note entry = use [THEN conjunct1, rule_format, OF conjI] and link = use [THEN conjunct2, THEN conjunct2, rule_format]
  let ?fs = "prune_unused_executables swap_site [''b''] LLAMA_RUNTIME_EXECUTABLES staged"
  have at: "node staged [''b'', ''llama-server''] = Some (EFile ''MZ1'')" "node staged [''b'', ''llama-bench''] = Some (EFile ''MZ2'')"
    "node staged [''b'', ''libggml.so''] = Some (EFile (CHR 0x7F # ''ELF''))" "node staged [''b'', ''README''] = Some (EFile ''text'')"
    "node staged [''b'', ''short''] = Some (ELink ''libggml.so'')" by code_simp+
  have kind: "''llama-server'' \<in> set LLAMA_RUNTIME_EXECUTABLES" "''llama-bench'' \<notin> set LLAMA_RUNTIME_EXECUTABLES"
    "executable_bytes ''MZ2''" "\<not> is_shared_library ''llama-bench''" "is_shared_library ''libggml.so''" "\<not> executable_bytes ''text''"
    "path_parts ''libggml.so'' = [''libggml.so'']" "\<not> startswith ''libggml.so'' ''/''" by code_simp+
  have free: "\<not> st_locked swap_site [''b'', ''llama-bench'']" by code_simp
  have lib: "node ?fs [''b'', ''libggml.so''] = Some (EFile (CHR 0x7F # ''ELF''))" using entry [OF _ at(3)] kind by simp
  with link [of "[''b'', ''short'']" "''libggml.so''"] at(5) kind have "node ?fs [''b'', ''short''] = Some (ELink ''libggml.so'')" by simp
  with lib entry [OF _ at(1)] entry [OF _ at(2)] entry [OF _ at(4)] kind free show ?thesis by (simp add: Let_def)
qed

end
