(* ===== verification/Bundling.thy ===== *)
theory Bundling
  imports Prefetch
begin

text \<open>
  \<open>bundling/manifest.py\<close>, \<open>gen_boot_json.py\<close> and \<open>inject_app_hashes.py\<close>: what a build writes and an installed
  device reads.  Errors are those of the installers: \<open>SysExit\<close> and any other
  exception.  \<open>dumps\<close> is \<open>json.dumps\<close>, \<open>toml\<close> the reader of \<open>pyproject.toml\<close>.
\<close>

section \<open>Names\<close>

definition PLUGIN_CODES :: "(string, string) dict" where
  "PLUGIN_CODES = [(''language_model'', ''llm''), (''audio_transcriber'', ''stt'')]"

definition PLUGIN_ORDER :: "string list" where
  "PLUGIN_ORDER = [''language_model'', ''audio_transcriber'']"

definition SHAPES :: "string list" where "SHAPES = [''desktop'', ''headless'']"

definition asset_stem :: "string \<Rightarrow> inst_error + string" where
  "asset_stem shape = (if shape \<in> set SHAPES then Inr (''locai-link-'' @ shape) else Inl SysExit)"

definition ARCH_TAGS :: "(string, string) dict" where
  "ARCH_TAGS = [(''arm64'', ''arm64''), (''aarch64'', ''arm64''), (''x86_64'', ''x64''), (''amd64'', ''x64'')]"

definition OS_TAGS :: "(string, string) dict" where
  "OS_TAGS = [(''Darwin'', ''macos''), (''Linux'', ''linux''), (''Windows'', ''windows'')]"

definition build_tag :: "string \<Rightarrow> string \<Rightarrow> inst_error + string" where
  "build_tag os_name machine =
     (case (map_of ARCH_TAGS (py_lower machine), map_of OS_TAGS os_name) of
        (Some arch, Some os) \<Rightarrow> Inr (os @ ''-'' @ arch)
      | _ \<Rightarrow> Inl SysExit)"

text \<open>
  The build, the updater and the store name a platform alike: on every machine a build accepts, the updater looks
  for exactly the tag the build is published under, and the store client for the same platform.
\<close>

lemma platform_names_agree:
  assumes "st_platform st \<in> {''linux'', ''darwin'', ''win32''}" "build_tag (system_name st) (st_machine st) = Inr t"
  shows "platform_tag st = t \<and> platform_arch st = Inr t"
proof -
  from assms(2) obtain arch os where t: "map_of ARCH_TAGS (py_lower (st_machine st)) = Some arch"
    "map_of OS_TAGS (system_name st) = Some os" "t = os @ ''-'' @ arch"
    by (auto simp: build_tag_def split: option.splits)
  from t(1) have m: "py_lower (st_machine st) \<in> {''arm64'', ''aarch64''} \<and> arch = ''arm64'' \<or>
      py_lower (st_machine st) \<in> {''x86_64'', ''amd64''} \<and> arch = ''x64''"
    by (auto simp: ARCH_TAGS_def split: if_splits)
  have os: "os = (if st_platform st = ''linux'' then ''linux'' else if st_platform st = ''darwin'' then ''macos'' else ''windows'')"
    using assms(1) t(2) by (auto simp: OS_TAGS_def system_name_def)
  from assms(1) m show ?thesis unfolding t(3) os by (auto simp: platform_tag_def platform_arch_def)
qed

lemma platform_names_agree_witness:
  "platform_tag sample_site = ''linux-x64'' \<and> platform_arch sample_site = Inr ''linux-x64''"
proof -
  have "build_tag (system_name sample_site) (st_machine sample_site) = Inr ''linux-x64''" by code_simp
  with platform_names_agree [of sample_site] show ?thesis by (simp add: sample_site_def)
qed

text \<open>The other way round they differ: the store knows \<open>x64\<close>, which a build rejects.\<close>

lemma store_accepts_more:
  "platform_arch (sample_site\<lparr>st_machine := ''x64''\<rparr>) = Inr ''linux-x64''" "build_tag ''Linux'' ''x64'' = Inl SysExit"
  by code_simp+

section \<open>The manifest of a bundle\<close>

definition version_in :: "(string \<Rightarrow> json option) \<Rightarrow> fs \<Rightarrow> apath \<Rightarrow> inst_error + string" where
  "version_in toml fs dir =
     (case Option.bind (read_text fs (dir @ [''pyproject.toml''])) toml of
        None \<Rightarrow> Inr ''0.0.0''
      | Some data \<Rightarrow>
          (case get_default data ''project'' (JObj []) of
             Inl _ \<Rightarrow> Inl Escaped
           | Inr p \<Rightarrow> (case get_default p ''version'' (JStr ''0.0.0'') of Inl _ \<Rightarrow> Inl Escaped | Inr v \<Rightarrow> Inr (py_str v))))"

text \<open>\<open>git\<close> is the output of \<open>git rev-parse\<close>, \<open>None\<close> when it failed.\<close>

definition git_sha :: "string option \<Rightarrow> string" where
  "git_sha git = (case git of None \<Rightarrow> ''unknown'' | Some out \<Rightarrow> if py_strip out = [] then ''unknown'' else py_strip out)"

definition canonical_plugins :: "string list \<Rightarrow> string list" where
  "canonical_plugins plugins = filter (\<lambda>p. p \<in> set plugins) PLUGIN_ORDER"

definition bundle_manifest :: "string \<Rightarrow> string \<Rightarrow> string \<Rightarrow> string \<Rightarrow> string \<Rightarrow> (string \<times> string) list \<Rightarrow> jdict" where
  "bundle_manifest stem shape version sha built_at plugins =
     [(''manifest_version'', JInt 1), (''asset_name'', JStr stem), (''shape'', JStr shape), (''version'', JStr version),
      (''git_sha'', JStr sha), (''built_at'', JStr built_at),
      (''plugins'', JArr (map (\<lambda>(n, v). JObj [(''name'', JStr n), (''version'', JStr v)]) plugins))]"

fun plugin_versions :: "(string \<Rightarrow> json option) \<Rightarrow> fs \<Rightarrow> apath \<Rightarrow> string list \<Rightarrow> inst_error + (string \<times> string) list" where
  "plugin_versions toml fs repo [] = Inr []"
| "plugin_versions toml fs repo (p # ps) =
     (case version_in toml fs (repo @ [''plugins'', p]) of
        Inl e \<Rightarrow> Inl e
      | Inr v \<Rightarrow> map_sum id (Cons (p, v)) (plugin_versions toml fs repo ps))"

fun given :: "inst_error + 'a \<Rightarrow> 'a inst" where
  "given (Inl e) = raise e"
| "given (Inr x) = ret x"

definition write_manifest ::
    "(json \<Rightarrow> string) \<Rightarrow> (string \<Rightarrow> json option) \<Rightarrow> string option \<Rightarrow> string \<Rightarrow> apath \<Rightarrow> string list \<Rightarrow> apath \<Rightarrow> string \<Rightarrow> unit inst" where
  "write_manifest dumps toml git built_at bundle_dir plugins repo shape =
     seq (given (asset_stem shape)) (\<lambda>stem.
     seq (asks (\<lambda>fs. version_in toml fs repo)) (\<lambda>version. seq (given version) (\<lambda>v.
     seq (asks (\<lambda>fs. plugin_versions toml fs repo (canonical_plugins plugins))) (\<lambda>pvs. seq (given pvs) (\<lambda>ps.
     change_or Escaped (\<lambda>fs. write_text fs (bundle_dir @ [''manifest.json''])
       (dumps (JObj (bundle_manifest stem shape v (git_sha git) built_at ps)) @ [chr_nl])))))))"

text \<open>
  The manifest a build writes, with or without the hashes of the apps, is one the updater accepts, and it reads
  the same version, asset name, commit, time, plugins and hashes that were written.
\<close>

lemma built_manifest_read:
  "parse_manifest (JObj (bundle_manifest stem shape version sha built_at plugins @ apps)) h =
     (Inr \<lparr>mf_manifest_version = 1, mf_asset_name = stem, mf_version = version, mf_git_sha = sha, mf_built_at = built_at,
        mf_plugins = map (\<lambda>(n, v). JObj [(''name'', JStr n), (''version'', JStr v)]) plugins, mf_apps = hashes\<rparr>, h)"
  if "apps = [] \<and> hashes = [] \<or> apps = [(''apps'', JObj (map (\<lambda>(k, x). (k, JStr x)) hashes))]"
  using that
  by (auto simp: parse_manifest_def bundle_manifest_def required_def seq_def ret_def comp_def case_prod_beta)

section \<open>The boot document of a package\<close>

text \<open>The names a manifest lists, as the keys of a Python set: an unhashable one raises.\<close>

fun plugin_names :: "json list \<Rightarrow> inst_error + json list" where
  "plugin_names [] = Inr []"
| "plugin_names (p # ps) =
     (case get_default p ''name'' JNull of
        Inl _ \<Rightarrow> Inl Escaped
      | Inr v \<Rightarrow>
          (if \<not> truthy v then plugin_names ps
           else case v of JArr _ \<Rightarrow> Inl Escaped | JObj _ \<Rightarrow> Inl Escaped | _ \<Rightarrow> map_sum id (Cons v) (plugin_names ps)))"

text \<open>The message of the exit joins the unknown names, which raises for a name that is not a string.\<close>

definition plugin_set_from_manifest :: "json \<Rightarrow> inst_error + string list" where
  "plugin_set_from_manifest manifest =
     (case get_default manifest ''plugins'' (JArr []) of
        Inl _ \<Rightarrow> Inl Escaped
      | Inr ps \<Rightarrow>
          (case iterate ps of
             Inl _ \<Rightarrow> Inl Escaped
           | Inr entries \<Rightarrow>
               (case plugin_names entries of
                  Inl e \<Rightarrow> Inl e
                | Inr names \<Rightarrow>
                    let unknown = filter (\<lambda>v. v \<notin> JStr ` fst ` set PLUGIN_CODES) names in
                    if unknown \<noteq> [] then Inl (if list_all (\<lambda>v. is_str v) unknown then SysExit else Escaped)
                    else Inr (map (\<lambda>n. the (map_of PLUGIN_CODES n)) (filter (\<lambda>n. JStr n \<in> set names) PLUGIN_ORDER)))))"

definition boot_document :: "json \<Rightarrow> json \<Rightarrow> inst_error + json" where
  "boot_document manifest boot =
     (case get_default manifest ''shape'' JNull of
        Inl _ \<Rightarrow> Inl Escaped
      | Inr shape \<Rightarrow>
          (if shape \<notin> {JStr ''desktop'', JStr ''headless''} then Inl SysExit
           else case boot of
             JObj d \<Rightarrow>
               (case plugin_set_from_manifest manifest of
                  Inl e \<Rightarrow> Inl e
                | Inr codes \<Rightarrow> Inr (JObj (AList.update ''plugin_set'' (JArr (map JStr codes)) (AList.update ''shape'' shape d))))
           | _ \<Rightarrow> Inl Escaped))"

text \<open>\<open>json.loads(p.read_text())\<close> and \<open>p.write_text(json.dumps(x, indent=2) + "\<bar>n")\<close>.\<close>

definition load_doc :: "site \<Rightarrow> apath \<Rightarrow> json inst" where
  "load_doc st p =
     seq (asks (\<lambda>fs. Option.bind (read_text fs p) (st_loads st))) (\<lambda>d.
     (case d of None \<Rightarrow> raise Escaped | Some x \<Rightarrow> ret x))"

definition store_doc :: "(json \<Rightarrow> string) \<Rightarrow> apath \<Rightarrow> json \<Rightarrow> unit inst" where
  "store_doc dumps p x = change_or Escaped (\<lambda>fs. write_text fs p (dumps x @ [chr_nl]))"

definition gen_boot_json :: "site \<Rightarrow> (json \<Rightarrow> string) \<Rightarrow> apath \<Rightarrow> apath \<Rightarrow> apath \<Rightarrow> unit inst" where
  "gen_boot_json st dumps manifest template output =
     seq (load_doc st manifest) (\<lambda>m. seq (load_doc st template) (\<lambda>boot.
     seq (given (boot_document m boot)) (store_doc dumps output)))"

text \<open>
  The boot document of a package names the bundle it ships with: made from a manifest the build wrote, it has the
  shape of that bundle and, as its plugin set, the codes of exactly the plugins that were built in, in the documented order.
\<close>

lemma boot_names_the_bundle:
  assumes "shape \<in> set SHAPES"
  shows "boot_document (JObj (bundle_manifest stem shape version sha built_at (map (\<lambda>n. (n, ver n)) (canonical_plugins plugins)) @ apps))
      (JObj template) =
    Inr (JObj (AList.update ''plugin_set''
      (JArr (map JStr ((if ''language_model'' \<in> set plugins then [''llm''] else []) @
                       (if ''audio_transcriber'' \<in> set plugins then [''stt''] else []))))
      (AList.update ''shape'' (JStr shape) template)))"
  using assms
  by (auto simp: boot_document_def plugin_set_from_manifest_def bundle_manifest_def canonical_plugins_def PLUGIN_ORDER_def
      PLUGIN_CODES_def SHAPES_def)

lemma boot_names_the_bundle_witness:
  "boot_document (JObj (bundle_manifest ''locai-link-desktop'' ''desktop'' ''1.3.0'' ''abc'' ''t'' [(''language_model'', ''2'')]))
     (JObj [(''channel'', JStr ''stable'')]) =
   Inr (JObj [(''channel'', JStr ''stable''), (''shape'', JStr ''desktop''), (''plugin_set'', JArr [JStr ''llm''])])"
  using boot_names_the_bundle [of "''desktop''" _ _ _ _ "\<lambda>_. ''2''" "[''language_model'']" "[]" "[(''channel'', JStr ''stable'')]"]
  by (simp add: SHAPES_def canonical_plugins_def PLUGIN_ORDER_def)

section \<open>The hashes of the apps\<close>

definition APP_SOURCES :: "(string, string list) dict" where
  "APP_SOURCES = [(''companion'', [''crates/link'', ''crates/Cargo.lock'', ''crates/Cargo.toml''])]"

definition SKIP_DIRS :: "string list" where
  "SKIP_DIRS = [''target'', ''node_modules'', ''dist'', ''.svelte-kit'', ''gen'', ''__pycache__'']"

text \<open>\<open>os.walk\<close> of a directory, the skipped ones not entered: what it lists as files is all that is no directory.\<close>

definition walk_sources :: "fs \<Rightarrow> apath \<Rightarrow> apath list" where
  "walk_sources fs p =
     filter (\<lambda>q. \<not> is_dir fs q \<and> list_all (\<lambda>c. c \<notin> set SKIP_DIRS) (butlast (drop (length p) q))) (below fs p)"

definition source_files :: "fs \<Rightarrow> apath \<Rightarrow> string list \<Rightarrow> apath list" where
  "source_files fs repo rels =
     concat (map (\<lambda>rel. let p = join repo rel in if is_file fs p then [p] else if is_dir fs p then walk_sources fs p else []) rels)"

definition relative_text :: "apath \<Rightarrow> apath \<Rightarrow> string" where
  "relative_text repo q = intercalate ''/'' (drop (length repo) q)"

text \<open>What goes into the hash (names are ASCII): each name, a zero byte and the content; a file that cannot be read raises.\<close>

fun hashed_bytes :: "fs \<Rightarrow> apath \<Rightarrow> apath list \<Rightarrow> string option" where
  "hashed_bytes fs repo [] = Some []"
| "hashed_bytes fs repo (q # qs) =
     (case (read_text fs q, hashed_bytes fs repo qs) of
        (Some s, Some rest) \<Rightarrow> Some (relative_text repo q @ [chr_nul] @ s @ rest)
      | _ \<Rightarrow> None)"

definition hash_sources :: "site \<Rightarrow> fs \<Rightarrow> apath \<Rightarrow> string list \<Rightarrow> string option" where
  "hash_sources st fs repo rels =
     map_option (st_sha256 st) (hashed_bytes fs repo (sort_key (relative_text repo) (source_files fs repo rels)))"

definition app_hashes :: "site \<Rightarrow> fs \<Rightarrow> apath \<Rightarrow> jdict option" where
  "app_hashes st fs repo =
     those (map (\<lambda>(app, rels). map_option (\<lambda>x. (app, JStr x)) (hash_sources st fs repo rels)) APP_SOURCES)"

definition inject_app_hashes :: "site \<Rightarrow> (json \<Rightarrow> string) \<Rightarrow> apath \<Rightarrow> apath \<Rightarrow> unit inst" where
  "inject_app_hashes st dumps manifest_path repo =
     seq (load_doc st manifest_path) (\<lambda>m.
     seq (asks (\<lambda>fs. app_hashes st fs repo)) (\<lambda>apps.
     (case (apps, m) of
        (Some d, JObj kvs) \<Rightarrow> store_doc dumps manifest_path (JObj (AList.update ''apps'' (JObj d) kvs))
      | _ \<Rightarrow> raise Escaped)))"

text \<open>The framing is not unique: moving text across a file boundary can keep the hashed bytes.\<close>

lemma hash_framing_ambiguous:
  "hash_sources sample_site [([''a''], EFile ''1''), ([''b''], EFile ''2'')] [] [''a'', ''b''] =
   hash_sources sample_site [([''a''], EFile (''1b'' @ [chr_nul] @ ''2''))] [] [''a'', ''b'']"
  by code_simp

end
