(* ===== verification/Bundle_Build.thy ===== *)
theory Bundle_Build
  imports Bundling
begin

text \<open>
  \<open>bundling/build.py\<close>: the build of a bundle, and the reshaping of what PyInstaller wrote into an installation root.
  What runs outside is the record \<open>builder\<close>: \<open>uv\<close> and \<open>pyinstaller\<close> are arbitrary changes of the files, \<open>None\<close> when
  they fail; \<open>bd_links\<close> is whether the host may make symbolic links.  File modes are left out.
\<close>

section \<open>Definitions\<close>

record builder =
  bd_uv :: bool
  bd_pyinstaller :: bool
  bd_links :: bool
  bd_install :: "apath \<Rightarrow> fs \<Rightarrow> fs option"
  bd_bundle :: "string list \<Rightarrow> bool \<Rightarrow> fs \<Rightarrow> fs option"
  bd_git :: "string option"
  bd_now :: string
  bd_dumps :: "json \<Rightarrow> string"
  bd_toml :: "string \<Rightarrow> json option"

definition resolve_plugins :: "string list \<Rightarrow> inst_error + string list" where
  "resolve_plugins plugins =
     (let known = map fst PLUGIN_CODES in
      if list_ex (\<lambda>p. p \<notin> set known) plugins then Inl SysExit else Inr (filter (\<lambda>p. p \<in> set plugins) known))"

fun ensure_plugins_installed :: "builder \<Rightarrow> apath \<Rightarrow> string list \<Rightarrow> unit inst" where
  "ensure_plugins_installed bd repo [] = ret ()"
| "ensure_plugins_installed bd repo (p # ps) =
     (let dir = repo @ [''plugins'', p] in
      seq (asks (\<lambda>fs. is_dir fs dir)) (\<lambda>there. seq (ensure there SysExit) (\<lambda>_.
      seq (change_or Escaped (bd_install bd dir)) (\<lambda>_. ensure_plugins_installed bd repo ps))))"

definition run_pyinstaller :: "builder \<Rightarrow> apath \<Rightarrow> string list \<Rightarrow> bool \<Rightarrow> apath inst" where
  "run_pyinstaller bd repo plugins prefetch =
     seq (ensure (bd_pyinstaller bd) SysExit) (\<lambda>_.
     seq (change_or Escaped (bd_bundle bd plugins prefetch)) (\<lambda>_. ret (repo @ [''dist'', ''locai-link''])))"

definition clear_entry :: "apath \<Rightarrow> fs \<Rightarrow> fs option" where
  "clear_entry p fs =
     (if is_symlink fs p \<or> is_file fs p then unlink fs p else if is_dir fs p then rmtree fs p else Some fs)"

fun clear_entries :: "apath \<Rightarrow> string list \<Rightarrow> unit inst" where
  "clear_entries home [] = ret ()"
| "clear_entries home (n # ns) = seq (change_or Escaped (clear_entry (home @ [n]))) (\<lambda>_. clear_entries home ns)"

definition write_current_pointer :: "bool \<Rightarrow> apath \<Rightarrow> string \<Rightarrow> unit inst" where
  "write_current_pointer links home version =
     seq (change_or Escaped (unlink_stale (home @ [''current'']))) (\<lambda>_.
     change_or Escaped (\<lambda>fs.
       case if links then symlink fs (home @ [''current'']) (pointer_target version) else None of
         Some fs' \<Rightarrow> Some fs'
       | None \<Rightarrow> write_text fs (home @ [''CURRENT'']) (version @ [chr_nl])))"

definition restructure_to_versioned_layout :: "bool \<Rightarrow> apath \<Rightarrow> string \<Rightarrow> apath inst" where
  "restructure_to_versioned_layout links home version =
     (let staging = join (butlast home) (''_staged_'' @ version); versions = home @ [''versions'']; target = join versions version in
      seq (asks (\<lambda>fs. is_dir fs home)) (\<lambda>there. seq (ensure there SysExit) (\<lambda>_.
      seq (clear_entries home [''versions'', ''current'', ''CURRENT'']) (\<lambda>_.
      seq (asks (\<lambda>fs. path_exists fs staging)) (\<lambda>old.
      seq (change_or Escaped (\<lambda>fs. if old then rmtree fs staging else Some fs)) (\<lambda>_.
      seq (change_or Escaped (\<lambda>fs. os_replace fs home staging)) (\<lambda>_.
      seq (change_or Escaped (\<lambda>fs. if path_exists fs versions then None else mkdirs fs versions)) (\<lambda>_.
      seq (change_or Escaped (\<lambda>fs. os_replace fs staging target)) (\<lambda>_.
      seq (write_current_pointer links home version) (\<lambda>_. ret target))))))))))"

definition ship_migration_finisher :: "apath \<Rightarrow> apath \<Rightarrow> unit inst" where
  "ship_migration_finisher spec_dir versioned_dir =
     change_or Escaped (\<lambda>fs.
       let src = spec_dir @ [''finish-migration.sh''] in
       if is_file fs src then write_text fs (versioned_dir @ [''finish-migration.sh'']) (the (read_text fs src)) else Some fs)"

text \<open>Unlike the manifest, the build insists on a version.\<close>

definition read_root_version :: "(string \<Rightarrow> json option) \<Rightarrow> apath \<Rightarrow> fs \<Rightarrow> inst_error + string" where
  "read_root_version toml repo fs =
     (case Option.bind (read_text fs (repo @ [''pyproject.toml''])) toml of
        None \<Rightarrow> Inl Escaped
      | Some data \<Rightarrow>
          (case subscript data ''project'' of
             Inl _ \<Rightarrow> Inl Escaped
           | Inr p \<Rightarrow> (case subscript p ''version'' of Inl _ \<Rightarrow> Inl Escaped | Inr v \<Rightarrow> Inr (py_str v))))"

definition package_bundle :: "site \<Rightarrow> builder \<Rightarrow> apath \<Rightarrow> apath \<Rightarrow> string list \<Rightarrow> string \<Rightarrow> apath inst" where
  "package_bundle st bd repo bundle_dir plugins shape =
     seq (asks (read_root_version (bd_toml bd) repo)) (\<lambda>v. seq (given v) (\<lambda>version.
     seq (restructure_to_versioned_layout (bd_links bd) bundle_dir version) (\<lambda>versioned_dir.
     seq (if system_name st = ''Darwin'' \<and> shape = ''desktop''
          then ship_migration_finisher (repo @ [''bundling'']) versioned_dir else ret ()) (\<lambda>_.
     seq (write_manifest (bd_dumps bd) (bd_toml bd) (bd_git bd) (bd_now bd) versioned_dir plugins repo shape) (\<lambda>_.
     ret versioned_dir)))))"

definition build_main ::
    "site \<Rightarrow> gpu \<Rightarrow> toolbox \<Rightarrow> (string list \<Rightarrow> string list) \<Rightarrow> builder \<Rightarrow> apath \<Rightarrow> string list \<Rightarrow> string \<Rightarrow> bool \<Rightarrow> apath inst" where
  "build_main st gp tb order bd repo wanted shape prefetch =
     seq (given (resolve_plugins wanted)) (\<lambda>plugins.
     seq (given (build_tag (system_name st) (st_machine st))) (\<lambda>tag.
     seq (given (asset_stem shape)) (\<lambda>_.
     seq (if prefetch then run_prefetch st gp tb order (repo @ [''bundling'', ''_artifacts'', tag]) plugins else ret ()) (\<lambda>_.
     seq (ensure (bd_uv bd) SysExit) (\<lambda>_.
     seq (ensure_plugins_installed bd repo plugins) (\<lambda>_.
     seq (run_pyinstaller bd repo plugins prefetch) (\<lambda>bundle_dir.
     package_bundle st bd repo bundle_dir plugins shape)))))))"

section \<open>The layout is an installation\<close>

lemma clear_entry_run:
  assumes "canonical fs home" "n \<noteq> ''..''"
  obtains fs' where "clear_entry (home @ [n]) fs = Some fs'" "slot fs' home n = None"
    "\<And>q. \<not> prefix (home @ [n]) q \<Longrightarrow> node fs' q = node fs q"
proof (cases "slot fs home n")
  case None
  with assms that [of fs] show ?thesis
    by (simp add: clear_entry_def is_symlink_slot is_file_def is_dir_def stat_plain)
next
  case (Some e)
  show ?thesis
  proof (cases e)
    case (EDir t)
    with Some assms have "clear_entry (home @ [n]) fs = Some (drop_tree (home @ [n]) fs)"
      by (simp add: clear_entry_def is_symlink_slot is_file_def is_dir_def stat_plain rmtree_def lpath_canonical)
    then show ?thesis by (rule that) (simp_all add: node_drop_tree)
  next
    case (EFile s)
    with Some assms have "clear_entry (home @ [n]) fs = Some (AList.delete (home @ [n]) fs)"
      by (simp add: clear_entry_def is_symlink_slot is_file_def stat_plain unlink_slot)
    then show ?thesis by (rule that) (auto simp: node_delete)
  next
    case (ELink t)
    with Some assms have "clear_entry (home @ [n]) fs = Some (AList.delete (home @ [n]) fs)"
      by (simp add: clear_entry_def is_symlink_slot unlink_slot)
    then show ?thesis by (rule that) (auto simp: node_delete)
  qed
qed

lemma clear_entries_run:
  assumes "canonical (h_fs h) home" "''..'' \<notin> set ns"
  obtains fs' where "clear_entries home ns h = (Inr (), h\<lparr>h_fs := fs'\<rparr>)" "\<And>n. n \<in> set ns \<Longrightarrow> slot fs' home n = None"
    "\<And>q. \<forall>n \<in> set ns. \<not> prefix (home @ [n]) q \<Longrightarrow> node fs' q = node (h_fs h) q"
  using assms
proof (induction ns arbitrary: h thesis)
  case Nil
  from Nil(1) [of "h_fs h"] show ?case by (simp add: ret_def)
next
  case (Cons n ns)
  from Cons.prems(3) have n: "n \<noteq> ''..''" by auto
  obtain fs1 where one: "clear_entry (home @ [n]) (h_fs h) = Some fs1" "slot fs1 home n = None"
    "\<And>q. \<not> prefix (home @ [n]) q \<Longrightarrow> node fs1 q = node (h_fs h) q" using clear_entry_run [OF Cons.prems(2) n] by blast
  have "\<not> prefix (home @ [n]) q" if "prefix q home" for q
    using that by (meson prefix_order.trans prefix_snoc not_Cons_self2 prefix_order.antisym append_self_conv prefixI)
  with one(3) Cons.prems(2) have can: "canonical (h_fs (h\<lparr>h_fs := fs1\<rparr>)) home" by (auto intro: canonical_same)
  obtain fs2 where two: "clear_entries home ns (h\<lparr>h_fs := fs1\<rparr>) = (Inr (), h\<lparr>h_fs := fs2\<rparr>)"
    "\<And>m. m \<in> set ns \<Longrightarrow> slot fs2 home m = None" "\<And>q. \<forall>m \<in> set ns. \<not> prefix (home @ [m]) q \<Longrightarrow> node fs2 q = node fs1 q"
    using Cons.IH [OF _ can] Cons.prems(3) by auto
  show ?case
  proof (rule Cons.prems(1))
    show "clear_entries home (n # ns) h = (Inr (), h\<lparr>h_fs := fs2\<rparr>)" using one(1) two(1) by (simp add: seq_change)
    show "slot fs2 home m = None" if "m \<in> set (n # ns)" for m
    proof (cases "m \<in> set ns")
      case False
      with that have m: "m = n" "\<forall>k \<in> set ns. \<not> prefix (home @ [k]) (home @ [m])" by auto
      from two(3) [OF m(2)] m(1) one(2) show ?thesis by simp
    qed (use two(2) in blast)
    show "node fs2 q = node (h_fs h) q" if "\<forall>m \<in> set (n # ns). \<not> prefix (home @ [m]) q" for q
      using that one(3) two(3) by auto
  qed
qed

lemma absent_below:
  assumes "canonical fs D" "node fs (D @ [n]) = None" "n \<noteq> ''..''"
  shows "\<not> path_exists fs (D @ [n, c])"
  using walk_canonical [OF assms(1), of 40 "[n, c]"] assms(2,3)
  by (simp add: path_exists_def stat_def realpath_def)

lemma mkdirs_two:
  assumes "canonical fs D" "node fs (D @ [n]) = None" "node fs (D @ [n, c]) = None" "n \<noteq> ''..''" "c \<noteq> ''..''"
  shows "mkdirs fs (D @ [n, c]) = Some (put (D @ [n, c]) (EDir 0) (put (D @ [n]) (EDir 0) fs))"
proof -
  let ?fs = "put (D @ [n]) (EDir 0) fs"
  have "canonical ?fs D" using assms(1) by (rule canonical_same) (auto simp: node_put prefix_def)
  then have can: "canonical ?fs (D @ [n])" using assms(4) by (simp add: canonical_Snoc node_put)
  have free: "node ?fs (D @ [n, c]) = None" using assms(3) by (simp add: node_put)
  have "stat fs (D @ [n]) = None" using assms by (simp add: stat_plain)
  moreover have "stat ?fs ((D @ [n]) @ [c]) = None" using free stat_plain [OF can assms(5)] by simp
  moreover have "lpath ?fs ((D @ [n]) @ [c]) = Some (D @ [n, c])" using lpath_canonical [OF can assms(5)] by simp
  ultimately show ?thesis
    using mkdirs_canonical [OF assms(1), of "[n, c]"] lpath_canonical [OF assms(1,4)] assms(2) free by simp
qed

definition build_name :: "string \<Rightarrow> string" where
  "build_name v = ''_staged_'' @ v"

lemma build_name_plain:
  assumes "plain_name v"
  shows "join D (''_staged_'' @ v) = D @ [build_name v]" "build_name v \<noteq> ''..''"
proof -
  have v: "CHR ''/'' \<notin> set v" using assms by (auto simp: plain_name_def is_safe_basename_iff)
  then show "join D (''_staged_'' @ v) = D @ [build_name v]"
    by (simp add: join_def path_parts_plain startswith_def build_name_def)
  show "build_name v \<noteq> ''..''" by (simp add: build_name_def)
qed

text \<open>What a fresh root holds: the tree under the version's name, and nothing else.\<close>

definition fresh_root :: "apath \<Rightarrow> string \<Rightarrow> fs \<Rightarrow> fs \<Rightarrow> bool" where
  "fresh_root home v fs0 fs \<longleftrightarrow> canonical fs (home @ [VERSIONS_DIR]) \<and> is_dir_entry (node fs (home @ [VERSIONS_DIR, v])) \<and>
     (\<forall>a cs. a \<noteq> VERSIONS_DIR \<longrightarrow> node fs (home @ a # cs) = None) \<and>
     (\<forall>cs. node fs (home @ VERSIONS_DIR # v # cs) = node fs0 (home @ cs))"

lemma pointer_on_fresh_root:
  assumes "fresh_root home v fs0 (h_fs h)" "plain_name v"
  obtains fs' where "write_current_pointer links home v h = (Inr (), h\<lparr>h_fs := fs'\<rparr>)" "pointer_slots fs' home"
    "pointer_written links v fs' home CURRENT_LINK CURRENT_POINTER_FILE"
    "\<And>q. (\<forall>n \<in> {CURRENT_LINK, CURRENT_POINTER_FILE}. q \<noteq> home @ [n]) \<Longrightarrow> node fs' q = node (h_fs h) q"
proof -
  let ?fs = "h_fs h" and ?e = "if links then link_entry v else EFile (v @ [chr_nl])"
  let ?n = "if links then CURRENT_LINK else CURRENT_POINTER_FILE"
  define fs' where "fs' = put (home @ [?n]) ?e ?fs"
  from assms(1) have can: "canonical ?fs (home @ [VERSIONS_DIR])" and free: "\<And>a. a \<noteq> VERSIONS_DIR \<Longrightarrow> slot ?fs home a = None"
    by (auto simp: fresh_root_def)
  from can have home: "canonical ?fs home" by (rule canonical_prefix)
  note pv = plain_nameD [OF assms(2)]
  have cur: "slot ?fs home ''current'' = None" "slot ?fs home ''CURRENT'' = None"
    using free by (simp_all add: VERSIONS_DIR_def)
  then have "unlink_stale (home @ [''current'']) ?fs = Some ?fs"
    using home by (simp add: unlink_stale_def path_exists_def stat_plain is_symlink_slot)
  moreover have "symlink ?fs (home @ [''current'']) (pointer_target v) = Some (put (home @ [''current'']) (link_entry v) ?fs)"
    using home cur pv(3) by (simp add: symlink_slot pointer_target_def link_entry_def VERSIONS_DIR_def)
  moreover have "write_text ?fs (home @ [''CURRENT'']) (v @ [chr_nl]) = Some (put (home @ [''CURRENT'']) (EFile (v @ [chr_nl])) ?fs)"
    using home cur by (simp add: write_text_slot file_or_none_def)
  ultimately have run: "write_current_pointer links home v h = (Inr (), h\<lparr>h_fs := fs'\<rparr>)"
    by (simp add: write_current_pointer_def seq_change change_or_def fs'_def layout_names)
  have nodes: "node fs' q = (if q = home @ [?n] then Some ?e else node ?fs q)" for q by (simp add: fs'_def node_put)
  have "canonical fs' (home @ [VERSIONS_DIR])"
    using can by (rule canonical_same) (auto simp: nodes layout_names prefix_def append_eq_append_conv2 Cons_eq_append_conv)
  moreover have "slot fs' home a = (if a = ?n then Some ?e else None)" if "a \<noteq> VERSIONS_DIR" for a
    using nodes free [OF that] by simp
  ultimately have "pointer_slots fs' home" "pointer_written links v fs' home CURRENT_LINK CURRENT_POINTER_FILE"
    by (auto simp: pointer_slots_def pointer_written_def layout_names link_or_none_def file_or_none_def link_entry_def)
  with run nodes show ?thesis by (intro that [of fs']) auto
qed

text \<open>The two moves, through the staging directory.\<close>

lemma moved_twice:
  assumes "canonical (h_fs h) (D @ [n])" "plain_name v" "n \<noteq> build_name v" "node (h_fs h) (D @ [build_name v]) = None"
  obtains fs' where
    "seq (change_or Escaped (\<lambda>fs. os_replace fs (D @ [n]) (D @ [build_name v]))) (\<lambda>_.
     seq (change_or Escaped (\<lambda>fs. if path_exists fs (D @ [n, ''versions'']) then None else mkdirs fs (D @ [n, ''versions'']))) (\<lambda>_.
     seq (change_or Escaped (\<lambda>fs. os_replace fs (D @ [build_name v]) (D @ [n, ''versions'', v]))) k)) h = k () (h\<lparr>h_fs := fs'\<rparr>)"
    "fresh_root (D @ [n]) v (h_fs h) fs'"
    "\<And>q. \<not> prefix (D @ [n]) q \<Longrightarrow> \<not> prefix (D @ [build_name v]) q \<Longrightarrow> node fs' q = node (h_fs h) q"
proof -
  let ?b = "build_name v" and ?fs = "h_fs h" and ?T = "D @ [n, ''versions'', v]"
  note pv = plain_nameD [OF assms(2)] and b = build_name_plain(2) [OF assms(2)]
  from assms(1) have D: "canonical ?fs D" and n: "n \<noteq> ''..''" and dir: "is_dir_entry (slot ?fs D n)" by (auto simp: canonical_Snoc)
  then have "os_replace ?fs (D @ [n]) (D @ [?b]) \<noteq> None"
    using os_replace_free [OF D assms(3) n b] assms(4) by (cases "slot ?fs D n") auto
  then obtain fs1 where one: "os_replace ?fs (D @ [n]) (D @ [?b]) = Some fs1" by auto
  note sib = os_replace_sibling [OF D assms(3) n b one]
  have D1: "canonical fs1 D" using sib(3) D by (rule only_entries_canonical)
  from sib(2) [of "[]"] sib(2) [of "[''versions'']"] have none: "slot fs1 D n = None" "node fs1 (D @ [n, ''versions'']) = None" by simp_all
  define fs2 where "fs2 = put (D @ [n, ''versions'']) (EDir 0) (put (D @ [n]) (EDir 0) fs1)"
  have two: "\<not> path_exists fs1 (D @ [n, ''versions''])" "mkdirs fs1 (D @ [n, ''versions'']) = Some fs2"
    using absent_below [OF D1 none(1) n] mkdirs_two [OF D1 none n] by (simp_all add: fs2_def)
  have nodes2: "node fs2 q = (if q = D @ [n] \<or> q = D @ [n, ''versions''] then Some (EDir 0) else node fs1 q)" for q
    by (simp add: fs2_def node_put)
  have D2: "canonical fs2 D" using D1 by (rule canonical_same) (auto simp: nodes2 prefix_def)
  have V2: "canonical fs2 (D @ [n, ''versions''])"
    using D2 n nodes2 canonical_Snoc [of fs2 "D @ [n]" "''versions''"] by (simp add: canonical_Snoc)
  have free: "node fs2 ?T = None" using sib(2) [of "[''versions'', v]"] by (simp add: nodes2)
  have src: "is_dir_entry (slot fs2 D ?b)" using sib(1) [of "[]"] dir assms(3) by (simp add: nodes2)
  define fs3 where "fs3 = graft (D @ [?b]) ?T fs2 @ drop_tree (D @ [?b]) (drop_tree ?T fs2)"
  have "lpath fs2 ?T = Some ?T" using lpath_canonical [OF V2 pv(2)] by simp
  moreover have "lpath fs2 (D @ [?b]) = Some (D @ [?b])" using lpath_canonical [OF D2 b] .
  moreover have "slot fs2 D ?b \<noteq> None" using src by (cases "slot fs2 D ?b") auto
  ultimately have three: "os_replace fs2 (D @ [?b]) ?T = Some fs3"
    using free assms(3) by (simp add: os_replace_def fs3_def)
  have nodes3: "node fs3 q = (if prefix ?T q then node fs2 (D @ ?b # drop (length ?T) q)
      else if prefix (D @ [?b]) q then None else node fs2 q)" for q
    unfolding fs3_def using node_moved [of "D @ [?b]" ?T fs2 q] assms(3) by simp
  have tree: "node fs3 (D @ n # ''versions'' # v # cs) = node ?fs (D @ n # cs)" for cs
    using nodes3 [of "D @ n # ''versions'' # v # cs"] sib(1) [of cs] assms(3) by (simp add: nodes2)
  have other: "node fs3 (D @ n # a # cs) = None" if "a \<noteq> ''versions''" for a cs
    using nodes3 [of "D @ n # a # cs"] sib(2) [of "a # cs"] assms(3) that by (simp add: nodes2)
  have "canonical fs3 (D @ [n, ''versions''])"
    using V2 by (rule canonical_same)
      (use assms(3) in \<open>auto simp: nodes3 prefix_def append_eq_append_conv2 Cons_eq_append_conv\<close>)
  with tree tree [of "[]"] other dir have fresh: "fresh_root (D @ [n]) v ?fs fs3" by (simp add: fresh_root_def VERSIONS_DIR_def)
  have out: "node fs3 q = node ?fs q" if "\<not> prefix (D @ [n]) q" "\<not> prefix (D @ [?b]) q" for q
  proof -
    have "\<not> prefix ?T q" "q \<noteq> D @ [n]" "q \<noteq> D @ [n, ''versions'']" using that(1) by (auto simp: prefix_def)
    with that nodes3 [of q] nodes2 [of q] sib(3) show ?thesis by (auto simp: only_entries_def at_entry_def)
  qed
  show ?thesis
    by (rule that [of fs3, OF _ fresh out]) (use one two three in \<open>simp_all add: seq_change\<close>)
qed

text \<open>Following the pointer, and the version it names, after a file was written into the directory of the version.\<close>

definition points_to :: "bool \<Rightarrow> apath \<Rightarrow> string \<Rightarrow> fs \<Rightarrow> bool" where
  "points_to links home v fs \<longleftrightarrow> pointer_slots fs home \<and> pointer_written links v fs home CURRENT_LINK CURRENT_POINTER_FILE \<and>
     slot fs home PREVIOUS_LINK = None \<and> slot fs home PREVIOUS_POINTER_FILE = None \<and>
     is_dir_entry (node fs (home @ [VERSIONS_DIR, v]))"

lemma points_to_version_dir:
  assumes "points_to links home v fs" "plain_name v"
  shows "canonical fs (home @ [VERSIONS_DIR, v])" "resolve_current fs home = Some (home @ [VERSIONS_DIR, v])"
    "abs_versions fs home = (Some v, None)"
proof -
  from assms have p: "pointer_slots fs home" "pointer_written links v fs home CURRENT_LINK CURRENT_POINTER_FILE"
    "is_dir_entry (node fs (home @ [VERSIONS_DIR, v]))" by (auto simp: points_to_def)
  then have "canonical fs (home @ [VERSIONS_DIR])" by (simp add: pointer_slots_def)
  with p(3) plain_nameD(2) [OF assms(2)] have "canonical fs ((home @ [VERSIONS_DIR]) @ [v])" by (subst canonical_Snoc) simp
  then show "canonical fs (home @ [VERSIONS_DIR, v])" by simp
  show "resolve_current fs home = Some (home @ [VERSIONS_DIR, v])" using written_resolves [OF p(1) assms(2) p(2,3)] .
  show "abs_versions fs home = (Some v, None)"
    using assms(1) p(1) written_version [OF assms(2) p(2)] by (simp add: points_to_def abs_versions_def read_pair slot_version_def)
qed

lemma points_to_write:
  assumes "points_to links home v fs" "plain_name v" "x \<noteq> ''..''" "\<not> is_link_entry (node fs (home @ [VERSIONS_DIR, v, x]))"
    "write_text fs (home @ [VERSIONS_DIR, v, x]) s = Some fs'"
  shows "fs' = put (home @ [VERSIONS_DIR, v, x]) (EFile s) fs" "points_to links home v fs'"
proof -
  have "realpath fs ((home @ [VERSIONS_DIR, v]) @ [x]) = Some ((home @ [VERSIONS_DIR, v]) @ [x])"
    using points_to_version_dir(1) [OF assms(1,2)] assms(3,4) by (intro realpath_plain) simp_all
  with assms(5) show fs': "fs' = put (home @ [VERSIONS_DIR, v, x]) (EFile s) fs" by (auto simp: write_text_def split: if_splits)
  have slots: "slot fs' home a = slot fs home a" for a by (simp add: fs' node_put)
  have "canonical fs' (home @ [VERSIONS_DIR])" if "canonical fs (home @ [VERSIONS_DIR])"
    using that by (rule canonical_same) (auto simp: fs' node_put prefix_def append_eq_append_conv2 Cons_eq_append_conv)
  with assms(1) slots show "points_to links home v fs'"
    by (simp add: points_to_def pointer_slots_def pointer_written_def) (simp add: fs' node_put)
qed

text \<open>
  Reshaping the output of PyInstaller always succeeds: the directory of the version holds the tree as it was written,
  without what an earlier build left in it, the current pointer, in either shape, leads there, there is no version to roll
  back to, and nothing but the root and the staging directory was touched.
\<close>

lemma restructured:
  assumes "canonical (h_fs h) (D @ [n])" "plain_name v" "n \<noteq> build_name v"
    "node (h_fs h) (D @ [build_name v]) = None \<or> is_dir_entry (node (h_fs h) (D @ [build_name v]))"
  obtains fs' where "restructure_to_versioned_layout links (D @ [n]) v h = (Inr (D @ [n, VERSIONS_DIR, v]), h\<lparr>h_fs := fs'\<rparr>)"
    "points_to links (D @ [n]) v fs'"
    "\<And>a cs. a \<notin> {''versions'', ''current'', ''CURRENT''} \<Longrightarrow> node fs' (D @ n # VERSIONS_DIR # v # a # cs) = node (h_fs h) (D @ n # a # cs)"
    "\<And>a. a \<in> {''versions'', ''current'', ''CURRENT''} \<Longrightarrow> node fs' (D @ [n, VERSIONS_DIR, v, a]) = None"
    "\<And>q. \<not> prefix (D @ [n]) q \<Longrightarrow> \<not> prefix (D @ [build_name v]) q \<Longrightarrow> node fs' q = node (h_fs h) q"
proof -
  let ?home = "D @ [n]" and ?b = "build_name v" and ?stale = "[''versions'', ''current'', ''CURRENT'']"
  note pv = plain_nameD [OF assms(2)] and b = build_name_plain [OF assms(2)]
  obtain fs1 where one: "clear_entries ?home ?stale h = (Inr (), h\<lparr>h_fs := fs1\<rparr>)" "\<And>m. m \<in> set ?stale \<Longrightarrow> slot fs1 ?home m = None"
    "\<And>q. \<forall>m \<in> set ?stale. \<not> prefix (?home @ [m]) q \<Longrightarrow> node fs1 q = node (h_fs h) q"
    using clear_entries_run [OF assms(1), of ?stale] by auto
  have "node fs1 q = node (h_fs h) q" if "prefix q ?home" for q
    using that by (intro one(3)) (auto simp: prefix_def)
  with assms(1) have can1: "canonical fs1 ?home" by (auto intro: canonical_same)
  then have D1: "canonical fs1 D" by (rule canonical_prefix)
  have st1: "slot fs1 D ?b = slot (h_fs h) D ?b" using assms(3) by (intro one(3)) auto
  have "\<not> is_link_entry (slot fs1 D ?b)"
    using assms(4) by (cases "slot (h_fs h) D ?b" rule: is_dir_entry.cases) (auto simp: st1)
  then have exists: "path_exists fs1 (D @ [?b]) \<longleftrightarrow> slot fs1 D ?b \<noteq> None"
    by (simp add: path_exists_def stat_plain [OF D1 b(2)])
  define fs2 where "fs2 = (if slot fs1 D ?b = None then fs1 else drop_tree (D @ [?b]) fs1)"
  have two: "(if path_exists fs1 (D @ [?b]) then rmtree fs1 (D @ [?b]) else Some fs1) = Some fs2"
    using exists assms(4) st1 lpath_canonical [OF D1 b(2)] by (auto simp: fs2_def rmtree_def)
  have nodes2: "node fs2 q = (if prefix (D @ [?b]) q \<and> slot fs1 D ?b \<noteq> None then None else node fs1 q)" for q
    by (auto simp: fs2_def node_drop_tree)
  have can2: "canonical fs2 ?home"
    using can1 by (rule canonical_same) (use assms(3) in \<open>auto simp: nodes2 prefix_def append_eq_append_conv2 Cons_eq_append_conv\<close>)
  have gone: "slot fs2 D ?b = None" using nodes2 [of "D @ [?b]"] by auto
  have isdir: "is_dir (h_fs h) ?home"
    using realpath_canonical [OF assms(1)] canonical_node [OF assms(1)] by (simp add: is_dir_def stat_def)
  let ?k = "\<lambda>_::unit. seq (write_current_pointer links ?home v) (\<lambda>_. ret (D @ [n, ''versions'', v]))"
  obtain fs3 where three: "seq (change_or Escaped (\<lambda>fs. os_replace fs ?home (D @ [?b]))) (\<lambda>_.
     seq (change_or Escaped (\<lambda>fs. if path_exists fs (D @ [n, ''versions'']) then None else mkdirs fs (D @ [n, ''versions'']))) (\<lambda>_.
     seq (change_or Escaped (\<lambda>fs. os_replace fs (D @ [?b]) (D @ [n, ''versions'', v]))) ?k)) (h\<lparr>h_fs := fs2\<rparr>) = ?k () (h\<lparr>h_fs := fs3\<rparr>)"
    "fresh_root ?home v fs2 fs3" "\<And>q. \<not> prefix ?home q \<Longrightarrow> \<not> prefix (D @ [?b]) q \<Longrightarrow> node fs3 q = node fs2 q"
    using moved_twice [of "h\<lparr>h_fs := fs2\<rparr>" D n v ?k] can2 assms(2,3) gone by auto
  have fresh: "fresh_root ?home v fs2 (h_fs (h\<lparr>h_fs := fs3\<rparr>))" using three(2) by simp
  obtain fs' where four: "write_current_pointer links ?home v (h\<lparr>h_fs := fs3\<rparr>) = (Inr (), h\<lparr>h_fs := fs'\<rparr>)" "pointer_slots fs' ?home"
    "pointer_written links v fs' ?home CURRENT_LINK CURRENT_POINTER_FILE"
    "\<And>q. (\<forall>m \<in> {CURRENT_LINK, CURRENT_POINTER_FILE}. q \<noteq> ?home @ [m]) \<Longrightarrow> node fs' q = node fs3 q"
    using pointer_on_fresh_root [OF fresh assms(2)] by auto
  have run: "restructure_to_versioned_layout links ?home v h = (Inr (D @ [n, ''versions'', v]), h\<lparr>h_fs := fs'\<rparr>)"
  proof -
    have c: "seq (clear_entries ?home ?stale) k h = k () (h\<lparr>h_fs := fs1\<rparr>)" for k :: "unit \<Rightarrow> apath inst"
      by (simp only: seq_def one(1) prod.case sum.case)
    have e: "seq (asks (\<lambda>fs. path_exists fs (D @ [?b]))) (\<lambda>old. seq (change_or Escaped (\<lambda>fs. if old then rmtree fs (D @ [?b]) else Some fs)) k)
        (h\<lparr>h_fs := fs1\<rparr>) = k () (h\<lparr>h_fs := fs2\<rparr>)" for k :: "unit \<Rightarrow> apath inst"
      using two by (auto simp: seq_asks seq_change split: if_splits)
    have "?k () (h\<lparr>h_fs := fs3\<rparr>) = (Inr (D @ [n, ''versions'', v]), h\<lparr>h_fs := fs'\<rparr>)"
      by (simp add: seq_def four(1) ret_def)
    then show ?thesis
      unfolding restructure_to_versioned_layout_def Let_def butlast_snoc b(1) pv(6)
      by (subst seq_asks) (simp only: append_assoc append.simps isdir ensure_def if_True seq_ret c e three(1))
  qed
  from three(2) have dir: "is_dir_entry (node fs3 (D @ [n, ''versions'', v]))" 
    using canonical_node [OF can2] by (simp add: fresh_root_def VERSIONS_DIR_def)
  from three(2) have tree: "\<And>cs. node fs3 (D @ n # ''versions'' # v # cs) = node fs2 (D @ n # cs)"
    by (simp add: fresh_root_def VERSIONS_DIR_def)
  have keep: "node fs' (D @ n # ''versions'' # v # cs) = node fs2 (D @ n # cs)" for cs
    using four(4) tree by (simp add: layout_names)
  have "slot fs' ?home m = None" if "m \<in> {PREVIOUS_LINK, PREVIOUS_POINTER_FILE}" for m
  proof -
    have "m \<noteq> VERSIONS_DIR" using that by (auto simp: layout_names)
    with three(2) have "slot fs3 ?home m = None" unfolding fresh_root_def by blast
    moreover from that have "slot fs' ?home m = slot fs3 ?home m" by (intro four(4)) (auto simp: layout_names)
    ultimately show ?thesis by simp
  qed
  then have "points_to links ?home v fs'"
    using four(2-4) dir by (simp add: points_to_def) (simp add: layout_names)
  moreover have "node fs' (D @ n # ''versions'' # v # a # cs) = node (h_fs h) (D @ n # a # cs)"
    if "a \<notin> {''versions'', ''current'', ''CURRENT''}" for a cs
    using keep [of "a # cs"] nodes2 [of "D @ n # a # cs"] one(3) [of "D @ n # a # cs"] that assms(3) by auto
  moreover have "node fs' (D @ [n, ''versions'', v, a]) = None" if "a \<in> {''versions'', ''current'', ''CURRENT''}" for a
    using keep [of "[a]"] nodes2 [of "D @ [n, a]"] one(2) [of a] that by simp
  moreover have "node fs' q = node (h_fs h) q" if "\<not> prefix ?home q" "\<not> prefix (D @ [?b]) q" for q
  proof -
    from that(1) have "\<not> prefix (?home @ [m]) q" "q \<noteq> ?home @ [m]" for m by (auto simp: prefix_def)
    with that four(4) [of q] three(3) [of q] nodes2 [of q] one(3) [of q] show ?thesis by auto
  qed
  ultimately show ?thesis using run by (intro that [of fs']) (simp_all add: VERSIONS_DIR_def)
qed

section \<open>The updater reads what the build wrote\<close>

lemma version_in_strict: "read_root_version toml repo fs = Inr v \<Longrightarrow> version_in toml fs repo = Inr v"
  by (cases "Option.bind (read_text fs (repo @ [''pyproject.toml''])) toml" rule: option.exhaust)
    (auto simp: read_root_version_def version_in_def split: option.splits sum.splits elim!: subscript.elims)

lemma plugin_versions_names: "plugin_versions toml fs repo ns = Inr ps \<Longrightarrow> map fst ps = ns"
proof (induction ns arbitrary: ps)
  case (Cons n ns)
  then show ?case by (cases "plugin_versions toml fs repo ns") (auto split: sum.splits)
qed simp

text \<open>What holds between the steps that follow the reshaping.\<close>

definition packing :: "bool \<Rightarrow> apath \<Rightarrow> string \<Rightarrow> fs \<Rightarrow> fs \<Rightarrow> bool" where
  "packing links repo v fs0 fs \<longleftrightarrow> points_to links (repo @ [''dist'', ''locai-link'']) v fs \<and>
     (\<forall>x \<in> {''manifest.json'', ''finish-migration.sh''}.
        \<not> is_link_entry (node fs ((repo @ [''dist'', ''locai-link'']) @ [VERSIONS_DIR, v, x]))) \<and>
     node fs (repo @ [''pyproject.toml'']) = node fs0 (repo @ [''pyproject.toml''])"

lemma packing_write:
  assumes "packing links repo v fs0 fs" "plain_name v" "x \<in> {''manifest.json'', ''finish-migration.sh''}"
    "write_text fs (repo @ [''dist'', ''locai-link'', VERSIONS_DIR, v, x]) s = Some fs'"
  shows "packing links repo v fs0 fs'" "node fs' (repo @ [''dist'', ''locai-link'', VERSIONS_DIR, v, x]) = Some (EFile s)"
proof -
  let ?home = "repo @ [''dist'', ''locai-link'']"
  from assms have p: "points_to links ?home v fs" "x \<noteq> ''..''" "\<not> is_link_entry (node fs (?home @ [VERSIONS_DIR, v, x]))"
    "write_text fs (?home @ [VERSIONS_DIR, v, x]) s = Some fs'" by (auto simp: packing_def)
  note w = points_to_write [OF p(1) assms(2) p(2-4)]
  show "packing links repo v fs0 fs'"
    using assms(1) w(2) by (auto simp: packing_def w(1) node_put)
  show "node fs' (repo @ [''dist'', ''locai-link'', VERSIONS_DIR, v, x]) = Some (EFile s)" by (simp add: w(1) node_put)
qed

lemma ship_run:
  assumes "ship_migration_finisher spec (repo @ [''dist'', ''locai-link'', VERSIONS_DIR, v]) h = (r, h')"
    "packing links repo v fs0 (h_fs h)" "plain_name v"
  shows "packing links repo v fs0 (h_fs h')"
  using assms(1) packing_write(1) [OF assms(2,3), of "''finish-migration.sh''"] assms(2)
  by (auto simp: ship_migration_finisher_def Let_def elim!: change_orE split: if_splits)

lemma version_kept:
  assumes "packing links repo v fs0 fs" "canonical fs0 repo" "\<not> is_link_entry (node fs0 (repo @ [''pyproject.toml'']))"
  shows "version_in toml fs repo = version_in toml fs0 repo"
proof -
  let ?p = "repo @ [''pyproject.toml'']"
  from assms(1) have "canonical fs ((repo @ [''dist'', ''locai-link'']) @ [VERSIONS_DIR])"
    by (simp add: packing_def points_to_def pointer_slots_def)
  then have "canonical fs repo" using canonical_prefix [of fs repo] by simp
  moreover from assms(1) have "node fs ?p = node fs0 ?p" by (simp add: packing_def)
  ultimately have "stat fs ?p = stat fs0 ?p" using assms(2,3) by (simp add: stat_plain)
  then show ?thesis by (simp add: version_in_def read_text_def)
qed

lemma write_manifest_run:
  assumes "write_manifest dumps toml git now d plugins repo shape h = (Inr u, h')"
  obtains v ps where "shape \<in> set SHAPES" "version_in toml (h_fs h) repo = Inr v" "map fst ps = canonical_plugins plugins"
    "write_text (h_fs h) (d @ [''manifest.json''])
       (dumps (JObj (bundle_manifest (''locai-link-'' @ shape) shape v (git_sha git) now ps)) @ [chr_nl]) = Some (h_fs h')"
    "h' = h\<lparr>h_fs := h_fs h'\<rparr>"
proof (cases "shape \<in> set SHAPES")
  case False
  with assms show ?thesis by (simp add: write_manifest_def asset_stem_def seq_raise)
next
  case True
  note run = assms [unfolded write_manifest_def asset_stem_def if_P [OF True] given.simps seq_ret seq_asks]
  show ?thesis
  proof (cases "version_in toml (h_fs h) repo")
    case (Inl e)
    with run show ?thesis by (simp add: seq_raise)
  next
    case v: (Inr v)
    show ?thesis
    proof (cases "plugin_versions toml (h_fs h) repo (canonical_plugins plugins)")
      case (Inl e)
      with run v show ?thesis by (simp add: seq_ret seq_asks seq_raise)
    next
      case (Inr ps)
      with run v have "change_or Escaped (\<lambda>fs. write_text fs (d @ [''manifest.json''])
        (dumps (JObj (bundle_manifest (''locai-link-'' @ shape) shape v (git_sha git) now ps)) @ [chr_nl])) h = (Inr u, h')"
        by (simp add: seq_ret seq_asks)
      then show ?thesis using that [OF True v plugin_versions_names [OF Inr]] by (auto elim!: change_orE)
    qed
  qed
qed

text \<open>
  C27. A package is an installation the updater understands: when the last stage of a build returns, the version of the
  sources is the current one of the root it wrote, with none to roll back to, following the pointer leads to the directory
  it returned, and reading the manifest there gives that version, the asset name of the shape and the plugins that were
  built in, in the documented order.  \<open>json\<close> reading back what it wrote is a hypothesis.
\<close>

theorem package_is_installation:
  assumes "canonical (h_fs h) (repo @ [''dist'', ''locai-link''])" "read_root_version (bd_toml bd) repo (h_fs h) = Inr v" "plain_name v"
    and "node (h_fs h) (repo @ [''dist'', build_name v]) = None \<or> is_dir_entry (node (h_fs h) (repo @ [''dist'', build_name v]))"
    and "\<forall>x \<in> {[''dist'', ''locai-link'', ''manifest.json''], [''dist'', ''locai-link'', ''finish-migration.sh''], [''pyproject.toml'']}.
      \<not> is_link_entry (node (h_fs h) (repo @ x))"
    and "\<forall>ps. map fst ps = canonical_plugins plugins \<longrightarrow>
      (let doc = JObj (bundle_manifest (''locai-link-'' @ shape) shape v (git_sha (bd_git bd)) (bd_now bd) ps) in
       st_loads st (bd_dumps bd doc @ [chr_nl]) = Some doc)"
    and "package_bundle st bd repo (repo @ [''dist'', ''locai-link'']) plugins shape h = (Inr d, h')"
  shows "d = repo @ [''dist'', ''locai-link'', ''versions'', v] \<and>
    resolve_current (h_fs h') (repo @ [''dist'', ''locai-link'']) = Some d \<and>
    abs_versions (h_fs h') (repo @ [''dist'', ''locai-link'']) = (Some v, None) \<and>
    (\<exists>m. read_manifest st (repo @ [''dist'', ''locai-link'']) h' = (Inr m, h') \<and> mf_version m = v \<and>
       mf_asset_name m = ''locai-link-'' @ shape \<and> mf_apps m = [] \<and>
       map (\<lambda>p. subscript p ''name'') (mf_plugins m) = map (\<lambda>n. Inr (JStr n)) (canonical_plugins plugins))"
proof -
  let ?D = "repo @ [''dist'']" and ?home = "repo @ [''dist'', ''locai-link'']" and ?links = "bd_links bd"
  have home: "?home = ?D @ [''locai-link'']" by simp
  have name: "''locai-link'' \<noteq> build_name v" by (simp add: build_name_def)
  obtain fs1 where one: "restructure_to_versioned_layout ?links ?home v h = (Inr (?home @ [VERSIONS_DIR, v]), h\<lparr>h_fs := fs1\<rparr>)"
    "points_to ?links ?home v fs1"
    "\<And>a cs. a \<notin> {''versions'', ''current'', ''CURRENT''} \<Longrightarrow> node fs1 (?home @ VERSIONS_DIR # v # a # cs) = node (h_fs h) (?home @ a # cs)"
    "\<And>q. \<not> prefix ?home q \<Longrightarrow> \<not> prefix (?D @ [build_name v]) q \<Longrightarrow> node fs1 q = node (h_fs h) q"
  proof (rule restructured [of h ?D "''locai-link''" v ?links])
    show "canonical (h_fs h) (?D @ [''locai-link''])" "plain_name v" "''locai-link'' \<noteq> build_name v"
      "node (h_fs h) (?D @ [build_name v]) = None \<or> is_dir_entry (node (h_fs h) (?D @ [build_name v]))"
      using assms(1,3,4) name by simp_all
  qed (use that in simp)
  have pack: "packing ?links repo v (h_fs h) (h_fs (h\<lparr>h_fs := fs1\<rparr>))"
    using one(2-4) assms(5) by (auto simp: packing_def)
  let ?ship = "if system_name st = ''Darwin'' \<and> shape = ''desktop'' then ship_migration_finisher (repo @ [''bundling'']) (?home @ [VERSIONS_DIR, v]) else ret ()"
  let ?manifest = "write_manifest (bd_dumps bd) (bd_toml bd) (bd_git bd) (bd_now bd) (?home @ [VERSIONS_DIR, v]) plugins repo shape"
  from assms(7) have "seq ?ship (\<lambda>_. seq ?manifest (\<lambda>_. ret (?home @ [VERSIONS_DIR, v]))) (h\<lparr>h_fs := fs1\<rparr>) = (Inr d, h')"
    by (simp only: package_bundle_def seq_asks assms(2) given.simps seq_ret seq_def [of "restructure_to_versioned_layout _ _ _"] one(1)
        prod.case sum.case)
  then obtain h2 where two: "?ship (h\<lparr>h_fs := fs1\<rparr>) = (Inr (), h2)" "seq ?manifest (\<lambda>_. ret (?home @ [VERSIONS_DIR, v])) h2 = (Inr d, h')"
    by (rule seqE) auto
  from two(2) have w: "?manifest h2 = (Inr (), h')" and d: "d = ?home @ [VERSIONS_DIR, v]"
    by (auto elim!: seqE simp: ret_def)
  have pack2: "packing ?links repo v (h_fs h) (h_fs h2)"
    using two(1) ship_run [OF _ pack assms(3)] pack by (auto simp: ret_def split: if_splits)
  from w obtain v' ps where wr: "version_in (bd_toml bd) (h_fs h2) repo = Inr v'" "map fst ps = canonical_plugins plugins"
    "write_text (h_fs h2) ((?home @ [VERSIONS_DIR, v]) @ [''manifest.json''])
       (bd_dumps bd (JObj (bundle_manifest (''locai-link-'' @ shape) shape v' (git_sha (bd_git bd)) (bd_now bd) ps)) @ [chr_nl]) = Some (h_fs h')"
    by (rule write_manifest_run)
  have repo: "canonical (h_fs h) repo" using assms(1) by (rule canonical_prefix)
  have v': "v' = v"
    using wr(1) version_kept [OF pack2 repo] version_in_strict [OF assms(2)] assms(5) by simp
  let ?doc = "JObj (bundle_manifest (''locai-link-'' @ shape) shape v (git_sha (bd_git bd)) (bd_now bd) ps)"
  note put = packing_write [OF pack2 assms(3), of "''manifest.json''" "bd_dumps bd ?doc @ [chr_nl]" "h_fs h'"]
  have pts: "points_to ?links ?home v (h_fs h')"
    and written: "node (h_fs h') (d @ [''manifest.json'']) = Some (EFile (bd_dumps bd ?doc @ [chr_nl]))"
    using put wr(3) v' d by (simp_all add: packing_def)
  note at = points_to_version_dir [OF pts assms(3), folded d]
  from written at(1) have "stat (h_fs h') (d @ [''manifest.json'']) = Some (EFile (bd_dumps bd ?doc @ [chr_nl]))" by (simp add: stat_plain)
  moreover have "st_loads st (bd_dumps bd ?doc @ [chr_nl]) = Some ?doc" using assms(6) wr(2) by (simp add: Let_def)
  ultimately have "read_manifest st ?home h' = parse_manifest ?doc h'"
    using at(2) by (simp add: read_manifest_def seq_asks is_file_def read_text_def)
  then have m: "read_manifest st ?home h' =
      (Inr \<lparr>mf_manifest_version = 1, mf_asset_name = ''locai-link-'' @ shape, mf_version = v, mf_git_sha = git_sha (bd_git bd),
         mf_built_at = bd_now bd, mf_plugins = map (\<lambda>(n, v). JObj [(''name'', JStr n), (''version'', JStr v)]) ps, mf_apps = []\<rparr>, h')"
    using built_manifest_read [of "[]" "[]"] by simp
  have "map (\<lambda>p. subscript p ''name'') (map (\<lambda>(n, v). JObj [(''name'', JStr n), (''version'', JStr v)]) ps) =
      map (\<lambda>n. Inr (JStr n)) (canonical_plugins plugins)"
    unfolding wr(2) [symmetric] by (simp add: case_prod_beta)
  with m at(2,3) show ?thesis by (simp add: d VERSIONS_DIR_def)
qed

definition built_tree :: host where
  "built_tree = sample_host\<lparr>h_fs :=
     [([''r''], EDir 0), ([''r'', ''pyproject.toml''], EFile ''toml''), ([''r'', ''dist''], EDir 0),
      ([''r'', ''dist'', ''locai-link''], EDir 0), ([''r'', ''dist'', ''locai-link'', ''app''], EFile ''code''),
      ([''r'', ''dist'', ''locai-link'', ''current''], ELink ''versions/0'')]\<rparr>"

definition sample_builder :: builder where
  "sample_builder =
     \<lparr>bd_uv = True, bd_pyinstaller = True, bd_links = True, bd_install = (\<lambda>p fs. Some fs), bd_bundle = (\<lambda>ps b fs. Some fs),
      bd_git = Some ''abc'', bd_now = ''t'', bd_dumps = (\<lambda>x. ''doc''),
      bd_toml = (\<lambda>s. Some (JObj [(''project'', JObj [(''version'', JStr ''1'')])]))\<rparr>"

definition reading_site :: site where
  "reading_site = sample_site\<lparr>st_loads := (\<lambda>s. Some (JObj (bundle_manifest ''locai-link-headless'' ''headless'' ''1'' ''abc'' ''t'' [])))\<rparr>"

definition packaged :: "(inst_error + apath) \<times> host" where
  "packaged = package_bundle reading_site sample_builder [''r''] [''r'', ''dist'', ''locai-link''] [] ''headless'' built_tree"

theorem package_is_installation_witness:
  "fst packaged = Inr [''r'', ''dist'', ''locai-link'', ''versions'', ''1''] \<and>
   resolve_current (h_fs (snd packaged)) [''r'', ''dist'', ''locai-link''] = Some [''r'', ''dist'', ''locai-link'', ''versions'', ''1''] \<and>
   (\<exists>m. read_manifest reading_site [''r'', ''dist'', ''locai-link''] (snd packaged) = (Inr m, snd packaged) \<and> mf_version m = ''1'')"
proof -
  let ?home = "[''r''] @ [''dist'', ''locai-link'']"
  have can: "canonical (h_fs built_tree) ?home"
    by (simp add: canonical_Snoc [of _ "[''r'', ''dist'']", simplified] canonical_Snoc [of _ "[''r'']", simplified]
        canonical_Snoc [of _ "[]", simplified] built_tree_def node_def)
  have version: "read_root_version (bd_toml sample_builder) [''r''] (h_fs built_tree) = Inr ''1''" by code_simp
  have free: "node (h_fs built_tree) ([''r''] @ [''dist'', build_name ''1'']) = None" by code_simp
  have links: "\<forall>x \<in> {[''dist'', ''locai-link'', ''manifest.json''], [''dist'', ''locai-link'', ''finish-migration.sh''], [''pyproject.toml'']}.
      \<not> is_link_entry (node (h_fs built_tree) ([''r''] @ x))" by (simp add: built_tree_def node_def)
  have json: "\<forall>ps. map fst ps = canonical_plugins [] \<longrightarrow>
      (let doc = JObj (bundle_manifest (''locai-link-'' @ ''headless'') ''headless'' ''1'' (git_sha (bd_git sample_builder)) (bd_now sample_builder) ps) in
       st_loads reading_site (bd_dumps sample_builder doc @ [chr_nl]) = Some doc)"
    by (simp add: canonical_plugins_def sample_builder_def reading_site_def git_sha_def strip_by_def is_space_def)
  have result: "fst packaged = Inr [''r'', ''dist'', ''locai-link'', ''versions'', ''1'']" by code_simp
  have run: "package_bundle reading_site sample_builder [''r''] ?home [] ''headless'' built_tree =
      (Inr [''r'', ''dist'', ''locai-link'', ''versions'', ''1''], snd packaged)"
    using result by (simp add: packaged_def prod_eq_iff)
  from package_is_installation [OF can version plain_digit(1) disjI1 [OF free] links json run] show ?thesis
    using result by auto
qed

end
