(* ===== verification/Signing.thy ===== *)
theory Signing
  imports Prefetch
begin

text \<open>
  \<open>bundling/sign_macos.py\<close>: signing, notarising and stapling the bundle of macOS.  The state is the list of
  commands run so far; \<open>mc_tool\<close> is what the next command answers, and may depend on them.  Signing rewrites the
  content of files, not which files there are or how they start, so the tree is read as it was when the script started.
\<close>

section \<open>Definitions\<close>

datatype tool_reply = NotFound | Ran int string

record mac =
  mc_platform :: string
  mc_codesign :: bool
  mc_env :: "string \<Rightarrow> string option"
  mc_fs :: fs
  mc_tmp :: apath
  mc_cwd :: apath
  mc_loads :: "string \<Rightarrow> json option"
  mc_tool :: "string list list \<Rightarrow> string list \<Rightarrow> tool_reply"

type_synonym 'a signing = "(string list list, inst_error, 'a) stm"

text \<open>\<open>subprocess.run\<close>, with and without \<open>check\<close>: a program that cannot be started raises either way.\<close>

definition run_unchecked :: "mac \<Rightarrow> string list \<Rightarrow> (int \<times> string) signing" where
  "run_unchecked mc cmd cmds =
     (case mc_tool mc cmds cmd of
        NotFound \<Rightarrow> (Inl Escaped, cmds @ [cmd])
      | Ran code out \<Rightarrow> (Inr (code, out), cmds @ [cmd]))"

definition run_checked :: "mac \<Rightarrow> string list \<Rightarrow> unit signing" where
  "run_checked mc cmd = seq (run_unchecked mc cmd) (\<lambda>(code, out). ensure (code = 0) Escaped)"

definition is_mach_o :: "fs \<Rightarrow> apath \<Rightarrow> bool" where
  "is_mach_o fs p =
     (is_file fs p \<and> \<not> is_symlink fs p \<and>
      (case read_text fs p of None \<Rightarrow> False | Some s \<Rightarrow> take 4 s \<in> set EXECUTABLE_MAGIC_PREFIXES))"

definition discover_mach_o :: "fs \<Rightarrow> apath \<Rightarrow> apath list" where
  "discover_mach_o fs bundle =
     sort_key (\<lambda>p. - int (length p)) (sort_key path_text (filter (is_mach_o fs) (below fs bundle)))"

definition sign_command :: "string \<Rightarrow> apath \<Rightarrow> apath \<Rightarrow> string list" where
  "sign_command identity entitlements binary =
     [''codesign'', ''--force'', ''--timestamp'', ''--options'', ''runtime'', ''--entitlements'', path_text entitlements,
      ''--sign'', identity, path_text binary]"

definition verify_command :: "apath \<Rightarrow> string list" where
  "verify_command p = [''codesign'', ''--verify'', ''--strict'', ''--verbose=2'', path_text p]"

fun run_all :: "mac \<Rightarrow> string list list \<Rightarrow> unit signing" where
  "run_all mc [] = ret ()"
| "run_all mc (c # cs) = seq (run_checked mc c) (\<lambda>_. run_all mc cs)"

definition codesign_bundle :: "mac \<Rightarrow> apath \<Rightarrow> string \<Rightarrow> apath \<Rightarrow> unit signing" where
  "codesign_bundle mc bundle identity entitlements =
     (let found = discover_mach_o (mc_fs mc) bundle; main_exe = bundle @ [last bundle] in
      seq (ensure (is_dir (mc_fs mc) bundle) SysExit) (\<lambda>_.
      seq (ensure (is_file (mc_fs mc) entitlements) SysExit) (\<lambda>_.
      seq (ensure (found \<noteq> []) SysExit) (\<lambda>_.
      seq (run_all mc (map (sign_command identity entitlements) found)) (\<lambda>_.
      run_checked mc (verify_command (if path_exists (mc_fs mc) main_exe then main_exe else last found)))))))"

definition submit_command :: "apath \<Rightarrow> apath \<Rightarrow> string \<Rightarrow> string \<Rightarrow> string list" where
  "submit_command zipped key key_id issuer =
     [''xcrun'', ''notarytool'', ''submit'', path_text zipped, ''--key'', path_text key, ''--key-id'', key_id, ''--issuer'', issuer,
      ''--wait'', ''--output-format'', ''json'']"

definition log_command :: "string \<Rightarrow> apath \<Rightarrow> string \<Rightarrow> string \<Rightarrow> string list" where
  "log_command submission key key_id issuer =
     [''xcrun'', ''notarytool'', ''log'', submission, ''--key'', path_text key, ''--key-id'', key_id, ''--issuer'', issuer]"

text \<open>The verdict of the notary; the name of a submission that is no string cannot be put on a command line.\<close>

definition judge_verdict :: "mac \<Rightarrow> apath \<Rightarrow> string \<Rightarrow> string \<Rightarrow> json \<Rightarrow> unit signing" where
  "judge_verdict mc key key_id issuer verdict =
     (case (get_default verdict ''id'' (JStr ''<unknown>''), get_default verdict ''status'' (JStr ''<unknown>'')) of
        (Inr submission, Inr status) \<Rightarrow>
          (if status = JStr ''Accepted'' then ret ()
           else case submission of
             JStr s \<Rightarrow> seq (run_unchecked mc (log_command s key key_id issuer)) (\<lambda>_. raise SysExit)
           | _ \<Rightarrow> raise Escaped)
      | _ \<Rightarrow> raise Escaped)"

definition submit_bundle :: "mac \<Rightarrow> apath \<Rightarrow> string \<Rightarrow> string \<Rightarrow> apath \<Rightarrow> unit signing" where
  "submit_bundle mc bundle key_id issuer key =
     (let zipped = mc_tmp mc @ [last bundle @ ''.zip''] in
      seq (run_checked mc [''ditto'', ''-c'', ''-k'', ''--sequesterRsrc'', ''--keepParent'', path_text bundle, path_text zipped]) (\<lambda>_.
      seq (run_unchecked mc (submit_command zipped key key_id issuer)) (\<lambda>(code, out).
      seq (ensure (code = 0) SysExit) (\<lambda>_.
      (case mc_loads mc out of None \<Rightarrow> raise SysExit | Some verdict \<Rightarrow> judge_verdict mc key key_id issuer verdict)))))"

text \<open>Stapling is best effort: whatever goes wrong is logged.\<close>

definition staple :: "mac \<Rightarrow> apath \<Rightarrow> unit signing" where
  "staple mc bundle = swallow
     (seq (run_unchecked mc [''xcrun'', ''stapler'', ''staple'', path_text bundle]) (\<lambda>_.
      seq (run_unchecked mc [''xcrun'', ''stapler'', ''validate'', path_text bundle]) (\<lambda>_. ret ())))"

definition main_executable :: "fs \<Rightarrow> apath \<Rightarrow> apath" where
  "main_executable fs bundle =
     (let main_exe = bundle @ [last bundle] in
      if path_exists fs main_exe then main_exe
      else case find (\<lambda>p. is_file fs p \<and> \<not> is_symlink fs p) (map (\<lambda>c. bundle @ [c]) (iterdir fs bundle)) of
             None \<Rightarrow> main_exe
           | Some p \<Rightarrow> p)"

definition notarise :: "mac \<Rightarrow> apath \<Rightarrow> string \<Rightarrow> string \<Rightarrow> apath \<Rightarrow> unit signing" where
  "notarise mc bundle key_id issuer key =
     seq (ensure (is_file (mc_fs mc) key) SysExit) (\<lambda>_.
     seq (submit_bundle mc bundle key_id issuer key) (\<lambda>_.
     seq (staple mc bundle) (\<lambda>_.
     seq (run_unchecked mc
       [''spctl'', ''--assess'', ''--type'', ''execute'', ''--verbose=2'', path_text (main_executable (mc_fs mc) bundle)]) (\<lambda>_.
     ret ()))))"

definition require_env :: "mac \<Rightarrow> string \<Rightarrow> string signing" where
  "require_env mc name =
     (case mc_env mc name of None \<Rightarrow> raise SysExit | Some v \<Rightarrow> if v = [] then raise SysExit else ret v)"

text \<open>\<open>bundle\<close> and \<open>entitlements\<close> are resolved paths; a path from the environment is resolved against the working directory.\<close>

definition sign_main :: "mac \<Rightarrow> apath \<Rightarrow> apath \<Rightarrow> bool \<Rightarrow> unit signing" where
  "sign_main mc bundle entitlements skip_notarise =
     seq (ensure (mc_platform mc = ''darwin'') SysExit) (\<lambda>_.
     seq (ensure (mc_codesign mc) SysExit) (\<lambda>_.
     seq (require_env mc ''APPLE_DEVELOPER_ID_APPLICATION'') (\<lambda>identity.
     seq (codesign_bundle mc bundle identity entitlements) (\<lambda>_.
     if skip_notarise then ret ()
     else
       seq (require_env mc ''APPLE_NOTARY_KEY_ID'') (\<lambda>key_id.
       seq (require_env mc ''APPLE_NOTARY_ISSUER_ID'') (\<lambda>issuer.
       seq (require_env mc ''APPLE_NOTARY_KEY_PATH'') (\<lambda>path.
       let p = join (mc_cwd mc) path in
       notarise mc bundle key_id issuer (case realpath (mc_fs mc) p of None \<Rightarrow> p | Some q \<Rightarrow> q))))))))"

section \<open>A run that returns has signed everything and was accepted\<close>

text \<open>\<open>succeeded mc cmds cmd\<close>: the command is among those run, and ended well.\<close>

definition answered :: "mac \<Rightarrow> string list list \<Rightarrow> string list \<Rightarrow> string \<Rightarrow> bool" where
  "answered mc cmds cmd out \<longleftrightarrow> (\<exists>before rest. cmds = before @ [cmd] @ rest \<and> mc_tool mc before cmd = Ran 0 out)"

lemma answered_more: "answered mc cmds cmd out \<Longrightarrow> answered mc (cmds @ later) cmd out"
  unfolding answered_def by (metis append_assoc)

lemma run_unchecked_run:
  assumes "run_unchecked mc cmd cmds = (r, cmds')"
  shows "cmds' = cmds @ [cmd]" "r = Inr (code, out) \<Longrightarrow> mc_tool mc cmds cmd = Ran code out"
  using assms by (auto simp: run_unchecked_def split: tool_reply.splits)

lemma run_checked_run:
  assumes "run_checked mc cmd cmds = (Inr u, cmds')"
  shows "cmds' = cmds @ [cmd]" "\<exists>out. mc_tool mc cmds cmd = Ran 0 out"
  using assms by (auto simp: run_checked_def ensure_def ret_def raise_def elim!: seqE dest: run_unchecked_run split: if_splits)

lemma run_all_run:
  assumes "run_all mc cs cmds = (Inr u, cmds')"
  shows "cmds' = cmds @ cs \<and> (\<forall>c \<in> set cs. \<exists>out. answered mc cmds' c out)"
  using assms
proof (induction cs arbitrary: cmds)
  case Nil
  then show ?case by (simp add: ret_def)
next
  case (Cons c cs)
  from Cons.prems obtain u1 cmds1 where one: "run_checked mc c cmds = (Inr u1, cmds1)" "run_all mc cs cmds1 = (Inr u, cmds')"
    by (auto elim!: seqE)
  note first = run_checked_run [OF one(1)]
  from Cons.IH [OF one(2)] first(1) have rest: "cmds' = (cmds @ [c]) @ cs" "\<forall>c \<in> set cs. \<exists>out. answered mc cmds' c out" by auto
  with first(2) have "\<exists>out. answered mc cmds' c out" unfolding answered_def by fastforce
  with rest show ?case by auto
qed

lemma codesign_bundle_run:
  assumes "codesign_bundle mc bundle identity entitlements cmds = (Inr u, cmds')"
  shows "\<exists>p. cmds' = cmds @ map (sign_command identity entitlements) (discover_mach_o (mc_fs mc) bundle) @ [verify_command p]"
    "\<forall>p \<in> set (discover_mach_o (mc_fs mc) bundle). \<exists>out. answered mc cmds' (sign_command identity entitlements p) out"
proof -
  let ?found = "discover_mach_o (mc_fs mc) bundle"
  from assms obtain u1 cmds1 p where one: "run_all mc (map (sign_command identity entitlements) ?found) cmds = (Inr u1, cmds1)"
    "run_checked mc (verify_command p) cmds1 = (Inr u, cmds')"
    by (auto simp: codesign_bundle_def Let_def ensure_def seq_ret seq_raise elim!: seqE split: if_splits)
  note first = run_all_run [OF one(1)] and rest = run_checked_run(1) [OF one(2)]
  from first rest show "\<exists>p. cmds' = cmds @ map (sign_command identity entitlements) ?found @ [verify_command p]" by auto
  from first rest answered_more show "\<forall>p \<in> set ?found. \<exists>out. answered mc cmds' (sign_command identity entitlements p) out"
    by (metis imageI list.set_map)
qed

lemma judge_verdict_run:
  assumes "judge_verdict mc key key_id issuer verdict cmds = (Inr u, cmds')"
  shows "get_default verdict ''status'' (JStr ''<unknown>'') = Inr (JStr ''Accepted'')" "cmds' = cmds"
  using assms
  by (auto simp: judge_verdict_def ret_def raise_def elim!: seqE split: sum.splits if_splits json.splits)

lemma submit_bundle_run:
  assumes "submit_bundle mc bundle key_id issuer key cmds = (Inr u, cmds')"
  shows "\<exists>zipped out verdict later. cmds' = cmds @ later \<and> answered mc cmds' (submit_command zipped key key_id issuer) out \<and>
    mc_loads mc out = Some verdict \<and> get_default verdict ''status'' (JStr ''<unknown>'') = Inr (JStr ''Accepted'')"
proof -
  let ?zipped = "mc_tmp mc @ [last bundle @ ''.zip'']"
  from assms obtain u1 cmds1 code out cmds2 where
    one: "run_checked mc [''ditto'', ''-c'', ''-k'', ''--sequesterRsrc'', ''--keepParent'', path_text bundle, path_text ?zipped] cmds = (Inr u1, cmds1)"
    and two: "run_unchecked mc (submit_command ?zipped key key_id issuer) cmds1 = (Inr (code, out), cmds2)"
    and three: "seq (ensure (code = 0) SysExit) (\<lambda>_.
      (case mc_loads mc out of None \<Rightarrow> raise SysExit | Some verdict \<Rightarrow> judge_verdict mc key key_id issuer verdict)) cmds2 = (Inr u, cmds')"
    unfolding submit_bundle_def Let_def by (elim seqE) auto
  from three obtain verdict where v: "code = 0" "mc_loads mc out = Some verdict" "judge_verdict mc key key_id issuer verdict cmds2 = (Inr u, cmds')"
    by (cases "code = 0"; cases "mc_loads mc out") (auto simp: ensure_def seq_ret seq_raise raise_def)
  note j = judge_verdict_run [OF v(3)] and r = run_unchecked_run [OF two]
  have "answered mc cmds' (submit_command ?zipped key key_id issuer) out"
    unfolding answered_def using j(2) r v(1) by (intro exI [of _ cmds1] exI [of _ "[]"]) simp
  with v(2) j run_checked_run(1) [OF one] r(1) show ?thesis by auto
qed

text \<open>The files that are signed: all Mach-O files below the bundle, each once, deeper ones first.\<close>

lemma discover_mach_o_props:
  assumes "tree_at bundle fs" "distinct (map fst fs)"
  shows "set (discover_mach_o fs bundle) = {p. strict_prefix bundle p \<and> node fs p \<noteq> None \<and> is_mach_o fs p}"
    "distinct (discover_mach_o fs bundle)"
    "sorted_wrt (\<lambda>p q. length q \<le> length p) (discover_mach_o fs bundle)"
proof -
  show "set (discover_mach_o fs bundle) = {p. strict_prefix bundle p \<and> node fs p \<noteq> None \<and> is_mach_o fs p}"
    using in_below [OF assms(1)] by (auto simp: discover_mach_o_def)
  have real: "realpath fs bundle = Some bundle" using assms(1) by (simp add: tree_at_def realpath_canonical)
  have "inj_on (\<lambda>e. bundle @ drop (length bundle) (fst e)) {e \<in> set fs. strict_prefix bundle (fst e) \<and> ''..'' \<notin> set (fst e)}"
    by (auto simp: inj_on_def strict_prefix_def prefix_def dest: eq_key_imp_eq_value [OF assms(2)])
  with assms(2) have "distinct (below fs bundle)"
    by (auto simp: below_def real distinct_map)
  then show "distinct (discover_mach_o fs bundle)" by (simp add: discover_mach_o_def)
  have "sorted (map (\<lambda>p. - int (length p)) (discover_mach_o fs bundle))" by (simp add: discover_mach_o_def)
  then show "sorted_wrt (\<lambda>p q. length q \<le> length p) (discover_mach_o fs bundle)" by (simp add: sorted_map)
qed

lemma require_env_run: "require_env mc name cmds = (Inr v, cmds') \<Longrightarrow> cmds' = cmds \<and> mc_env mc name = Some v"
  by (auto simp: require_env_def raise_def ret_def split: option.splits if_splits)

lemma notarise_run:
  assumes "notarise mc bundle key_id issuer key cmds = (Inr u, cmds')"
  shows "\<exists>zipped out verdict later. cmds' = cmds @ later \<and> answered mc cmds' (submit_command zipped key key_id issuer) out \<and>
    mc_loads mc out = Some verdict \<and> get_default verdict ''status'' (JStr ''<unknown>'') = Inr (JStr ''Accepted'')"
proof -
  have plain: "\<exists>m. snd (run_unchecked mc c cs) = cs @ m" for c cs by (auto simp: run_unchecked_def split: tool_reply.splits)
  have staple: "\<exists>m. snd (staple mc bundle cs) = cs @ m" for cs
    by (auto simp: staple_def swallow_def seq_def run_unchecked_def ret_def split: tool_reply.splits)
  from assms obtain u1 cmds1 u2 cmds2 x where one: "submit_bundle mc bundle key_id issuer key cmds = (Inr u1, cmds1)"
    and two: "staple mc bundle cmds1 = (Inr u2, cmds2)"
    and three: "run_unchecked mc [''spctl'', ''--assess'', ''--type'', ''execute'', ''--verbose=2'',
       path_text (main_executable (mc_fs mc) bundle)] cmds2 = (Inr x, cmds')"
    by (auto simp: notarise_def ensure_def seq_ret seq_raise ret_def elim!: seqE split: if_splits)
  from two staple [of cmds1] obtain a where a: "cmds2 = cmds1 @ a" by auto
  have "cmds' = cmds2 @ b" if "snd (run_unchecked mc c cmds2) = cmds2 @ b" "run_unchecked mc c cmds2 = (Inr x, cmds')" for c b
    using that by simp
  with three plain obtain b where b: "cmds' = cmds2 @ b" by blast
  from submit_bundle_run [OF one] obtain zipped out verdict m where
    s: "cmds1 = cmds @ m" "answered mc cmds1 (submit_command zipped key key_id issuer) out" "mc_loads mc out = Some verdict"
      "get_default verdict ''status'' (JStr ''<unknown>'') = Inr (JStr ''Accepted'')" by blast
  have later: "cmds' = cmds1 @ (a @ b)" using a b by simp
  from answered_more [OF s(2), of "a @ b"] s(1,3,4) show ?thesis unfolding later by auto
qed


definition signing_mac :: mac where
  "signing_mac =
     \<lparr>mc_platform = ''darwin'', mc_codesign = True, mc_env = (\<lambda>k. Some ''/k''),
      mc_fs = [([''b''], EDir 0), ([''b'', ''b''], EFile [CHR 0xCF, CHR 0xFA, CHR 0xED, CHR 0xFE]), ([''b'', ''notes''], EFile ''text''),
               ([''e''], EFile []), ([''k''], EFile [])],
      mc_tmp = [''t''], mc_cwd = [], mc_loads = (\<lambda>s. Some (JObj [(''id'', JStr ''1''), (''status'', JStr ''Accepted'')])),
      mc_tool = (\<lambda>cmds cmd. Ran 0 ''verdict'')\<rparr>"

definition signed_run :: "(inst_error + unit) \<times> string list list" where
  "signed_run = sign_main signing_mac [''b''] [''e''] False []"

lemma signing_tree: "tree_at [''b''] (mc_fs signing_mac)"
proof -
  have b: "canonical (mc_fs signing_mac) [''b'']"
    by (simp add: canonical_Snoc [of _ "[]", simplified] signing_mac_def node_def)
  have "butlast q = [''b''] \<and> last q \<noteq> ''..''" if "strict_prefix [''b''] q" "node (mc_fs signing_mac) q \<noteq> None" for q
  proof -
    from that strict_prefix_ne_Nil [OF that(1)] have "q \<in> fst ` set (mc_fs signing_mac)" by (simp add: node_def map_of_eq_None_iff)
    with that(1) show ?thesis by (auto simp: signing_mac_def)
  qed
  with b show ?thesis unfolding tree_at_def by auto
qed


end
