(* ===== verification/Spec2Isabelle.thy ===== *)
theory Spec2Isabelle
  imports Dispatch Bundle_Update Engines Swap_Manager Components Cli Reset Zenoh Migration
    Transcriber Classifier_Start Chat_Session Publishing Bundle_Build Signing
begin

text \<open>
  Locai Link is the agent a device runs to be managed by a control plane.  It receives commands
  (start, stop, deploy, uninstall, serve, reconfigure, update), runs pipelines (a source, a sink and
  a thread between them), keeps its configuration in a session file so that a restart recovers what
  was running, answers a local user interface over a loopback HTTP server, serves language models
  through llama-swap behind a reverse proxy, and updates itself from released bundles.  This
  development models the Python sources under \<open>src/src/link\<close>, the plugins under \<open>src/plugins\<close> and the scripts under
  \<open>src/bundling\<close> that build, sign and publish what a device installs.

  \<^bold>\<open>Parts and theories.\<close>

  \<^item> \<open>Prelude\<close>, \<open>Steps\<close>, \<open>Json\<close>, \<open>Paths\<close>, \<open>Urls\<close>, \<open>Files\<close>, \<open>Quoting\<close>: the pieces of Python's language and library the
    sources use: strings and insertion-ordered dictionaries, JSON values with \<open>==\<close>, truth values and
    exceptions, \<open>pathlib\<close>, \<open>int()\<close> and \<open>urllib.parse\<close>, a POSIX file system with symbolic links, and the two
    command-line quotings; \<open>Steps\<close> is the sequencing of steps that change a state and may raise, with rules for
    what holds after them.
  \<^item> \<open>Templating\<close> (\<open>config/templating.py\<close>), \<open>Models\<close> (\<open>config/models.py\<close>, \<open>config/loader.py\<close>) and
    \<open>Commands\<close> (\<open>config/commands.py\<close>): placeholders, the configuration schema, the command union.
  \<^item> \<open>State_Manager\<close> (\<open>app/state.py\<close>): the session cache and its files, every operation with the outcome
    of its system calls.
  \<^item> \<open>Reporter\<close> (\<open>utils/logger.py\<close>), \<open>Health_State\<close> and \<open>Health_Server\<close> (\<open>infra/health_server.py\<close>):
    status records and their delivery, the loopback server.
  \<^item> \<open>Registry\<close> (\<open>components/registry.py\<close>): components and the installation of plugins.
  \<^item> \<open>Runtime\<close>, \<open>Recovery\<close>, \<open>Deploy\<close>, \<open>Uninstall\<close>, \<open>Dispatch\<close> (\<open>app/runtime.py\<close>) and \<open>Reconfigure\<close>
    (\<open>app/reconfigure.py\<close>): the agent.  The runtime is one record; every method is a function that
    returns it updated.
  \<^item> \<open>Archive\<close> (\<open>utils/archive.py\<close>), \<open>Updater\<close>, \<open>Bundle\<close>, \<open>Bundle_Update\<close> and \<open>Migration\<close>
    (\<open>app/updater.py\<close>): the update of the installed bundle, as steps on a file system, and the end of the migration
    from an older layout.
  \<^item> \<open>Artifact_Store\<close> (\<open>infra/artifact_store.py\<close>) and \<open>Engines\<close> (\<open>infra/engines.py\<close>): inference engines
    fetched on first use, with the same steps.
  \<^item> \<open>Serving_Proxy\<close> (\<open>infra/serving_proxy.py\<close>) and \<open>Swap_Manager\<close>
    (\<open>plugins/language_model/swap_manager.py\<close>): model serving.
  \<^item> \<open>Engine_Install\<close> (\<open>install.py\<close> of the language model and of the audio transcriber), \<open>Model_Server\<close>
    (\<open>server.py\<close> of both), \<open>Language_Model\<close> (\<open>plugins/language_model/adapter.py\<close>) and \<open>Chat_Frames\<close>
    (\<open>plugins/language_model/client.py\<close>): engines that are downloaded or built, the process of a model server, the
    adapter that serves a model or chats with it, and the terminal of a chat.  \<open>Chat_Session\<close> is a whole chat.
  \<^item> \<open>Transcriber\<close> (\<open>plugins/audio_transcriber/adapter.py\<close>), \<open>Detector\<close> and \<open>Classifier_Start\<close> (\<open>adapter.py\<close> of the
    image and of the audio classifier): the other plugins.  Both classifiers have the same event detection, which is
    one definition here.
  \<^item> \<open>Prefetch\<close> (\<open>bundling/prefetch.py\<close>), \<open>Bundling\<close> (\<open>manifest.py\<close>, \<open>gen_boot_json.py\<close>, \<open>inject_app_hashes.py\<close>),
    \<open>Bundle_Build\<close> (\<open>build.py\<close>), \<open>Signing\<close> (\<open>sign_macos.py\<close>) and \<open>Publishing\<close> (\<open>publish_artifacts.py\<close>): the build of a
    bundle and the publication of engines, as steps on the same file system as the updater and the store client.
  \<^item> \<open>Components\<close> (\<open>components/*.py\<close>, \<open>adapters/http_client.py\<close>, \<open>adapters/persistence.py\<close>): the
    built-in sources and sinks and the pipeline loop.
  \<^item> \<open>Device\<close> (\<open>infra/utils.py\<close>, \<open>utils/version.py\<close>, \<open>infra/provision.py\<close>), \<open>Onboarding\<close> (\<open>app/onboarding.py\<close>),
    \<open>Cli\<close> and \<open>Reset\<close> (\<open>main.py\<close>): who the device is, how it registers, and the commands of the program.
  \<^item> \<open>Service\<close> (\<open>infra/service.py\<close>) and \<open>Zenoh\<close> (\<open>infra/zenoh.py\<close>, \<open>adapters/zenoh_client.py\<close>): services of the
    operating system, the router among them, and the session with a router.

  \<^bold>\<open>How they interact.\<close>  A command reaches \<open>handle_command\<close> from a pipeline whose sink is
  \<open>AgentCommand\<close> (\<open>Components\<close>, composed below with \<open>Dispatch\<close>) or from the loopback server
  (\<open>Health_Server\<close>).  \<open>Dispatch\<close> acts through \<open>Runtime\<close>, \<open>Deploy\<close>, \<open>Uninstall\<close> and \<open>Reconfigure\<close>, which
  persist through \<open>State_Manager\<close> and report through \<open>Reporter\<close>; \<open>Recovery\<close> reads the session back.  The
  swap manager owns a serving proxy; a language model registers with it, or starts a server of its own, with an engine of
  \<open>Engines\<close> or of its installer.  The updater extracts through \<open>Archive\<close> into the tree that
  \<open>Bundle\<close> switches between.  The command \<open>register\<close> redeems a key (\<open>Onboarding\<close>, with the identity of
  \<open>Device\<close>) and leaves a session; \<open>run\<close> resolves the identity from it and runs the agent (\<open>Cli\<close> over
  \<open>State_Manager\<close> and \<open>Recovery\<close>); on exit it applies a requested update (\<open>Bundle\<close>).  The other end of an update is
  \<open>Bundle_Build\<close>, whose output \<open>Bundle\<close> reads, and the other end of the artifact store is \<open>Publishing\<close>, whose
  manifest \<open>Artifact_Store\<close> reads; both compositions are proved.

  \<^bold>\<open>Interfaces.\<close>  \<open>dictionary\<close> (\<open>Prelude\<close>) states the laws of Python's \<open>dict\<close> and is interpreted by
  association lists; \<open>pipeline_store\<close> (\<open>State_Manager\<close>) states what the runtime relies on of the
  session, interpreted by the state manager; \<open>cancel_token\<close> (\<open>Deploy\<close>) is the event of a deploy
  worker; \<open>write_zone\<close> (\<open>Updater\<close>) is a directory all steps keep to, interpreted by the staging
  directory of an installation and by the cache of an engine.

  \<^bold>\<open>What the lemmas show.\<close>
  Commands: each is answered once, an invalid one has no effect, a repeated one is ignored.
  Sessions: they survive a crash, are private to their owner, and recovery restarts what ran; every
  running pipeline is recorded.  Lifecycle: a failed start or a reverted reconfiguration leaves
  things as they were.  Deploys: a cancel at any moment is respected, a published file is complete.
  Uninstalls delete only their artifact.  Loopback requests of foreign origins are refused.  Updates:
  the source of releases is fixed in production, downloads resume and deliver the published bytes,
  archives cannot escape, the pointers move only for a verified bundle and refine an abstract pair
  of versions, garbage collection keeps the pinned ones.  Engines: the directory of an engine holds what
  it held before or the contents of an archive with the digest of the manifest.  Registration: the machine's identity is
  stable, a redemption ends after at most eight bounded waits, the device gets exactly the issued identity
  whatever configuration comes with it, the next process resumes as that device, and a fleet device
  that lost its session refuses to start.  A reset removes only what it names, below the repository.
  Services: several are installed together or not at all.  A client of a router elsewhere touches nothing and waits
  a bounded time, and its credentials need TLS.  A migration runs only an installer with a published digest.  Serving: telemetry does not depend on how
  the stream was cut, responses are relayed byte for byte and cannot be split, only own
  processes are signalled, an orphan is reclaimed, the configuration file always
  describes the registered models.  Plugins: an installed llama-swap is never a part of one, a frozen bundle runs no
  engine from its \<open>PATH\<close>, a server has at most one process, telemetry goes to the model it is about, and what a
  chat shows is what is remembered and reported, however the network cuts it.  A conversation grows by questions and
  their answers, and a classifier reports exactly the runs of equal labels.  Build: a package is an installation the
  updater reads back, the engine directory loses exactly the tools nobody runs, the signing script returns only for a
  bundle that is signed throughout and accepted, and a published engine is found by a device.  The theorems of kind error state where the code falls short of
  its documentation.

  \<^bold>\<open>Bounds.\<close>  No definition uses fuel for a loop of the program.  \<open>Files.walk\<close> follows at most forty
  links, the kernel's own limit; the downloads make the three attempts of the source; a
  registration makes at most the eight of the source; \<open>int()\<close> refuses more than 4300 digits as Python
  does.  \<open>Reset.reset_tree\<close> is bounded by the depth of the file system, and \<open>reset_complete\<close> shows that a
  larger bound changes nothing.  The loops of the program are recursions with termination
  proofs; \<open>Components.run_loop\<close> and the main loop of \<open>Recovery\<close> run for ever in the program and are
  given the finite sequence of observations of an arbitrary prefix of a run.

  \<^bold>\<open>Not modelled.\<close>  Threads and locks as such: operations the code guards by a lock are atomic, workers
  are sequences of steps with the outside's interventions as parameters (the order of the two locks
  of the swap manager apart).  Sockets, subprocesses, psutil, pydantic's coercions, SHA-256 and the
  decoders of archives are parameters, as are the programs of the operating system.  The interpreters, the
  camera and the sound device of the classifiers are parameters, as is the arithmetic of their scores; their debug window is
  left out.  Of the command line the argument parser and the help formatter are left out.
  Of the scripts of a build the argument parsers, the helper of the end-to-end test and the programs they call (git, uv,
  PyInstaller, codesign, notarytool) are outside.  The desktop companion (another language), the benchmarks and the tests are not modelled.
\<close>

section \<open>Commands that arrive twice\<close>

text \<open>The callback \<open>_create_component\<close> gives to a command sink; \<open>handle_command\<close> does not raise.\<close>

definition command_callback :: "world \<Rightarrow> json \<Rightarrow> runtime \<Rightarrow> bool \<times> runtime" where
  "command_callback W cmd rt = (case cmd of JObj d \<Rightarrow> (False, handle_command W d rt) | _ \<Rightarrow> (False, rt))"

text \<open>
  C3. A command that arrives a second time, over another channel or in another batch, changes
  nothing: whatever was delivered in between, as long as it was less than the window of remembered
  ids, the runtime, its reports and its session are the same as without the repetition.
\<close>

theorem redelivered_command_ignored:
  assumes "dget d ''id'' = JStr i" "i \<noteq> []"
    and "\<not> list_ex (\<lambda>j. py_eq j (JStr i)) (ac_seen ac)"
    and "sum_list (map batch_size between) < ac_window ac"
  shows "deliver (command_callback W) (JObj d # between @ [JObj d]) (ac, rt) =
         deliver (command_callback W) (JObj d # between) (ac, rt)"
  using redelivery_ignored [where cb = "command_callback W", OF assms(1-3) _ refl assms(4)]
  by (simp add: command_callback_def)

theorem redelivered_command_ignored_witness:
  "deliver (command_callback sample_world) [JObj (command_wire (StopServing ''c'' ''m'')), JObj (command_wire (StopServing ''c'' ''m''))]
     (new_agent_command 2000, sample_runtime) =
   deliver (command_callback sample_world) [JObj (command_wire (StopServing ''c'' ''m''))] (new_agent_command 2000, sample_runtime)"
proof -
  have "dget (command_wire (StopServing ''c'' ''m'')) ''id'' = JStr ''c''" by code_simp
  from redelivered_command_ignored [OF this, of "new_agent_command 2000" "[]" sample_world sample_runtime]
  show ?thesis by (simp add: new_agent_command_def)
qed

end
